(* ===== verification/Prelude.thy ===== *)
theory Prelude
  imports Complex_Main "HOL-Library.AList"
begin

text \<open>
  Shared vocabulary of the development: results of code that may raise, Python's
  insertion-ordered dictionaries with the \<open>OrderedDict\<close> operations the gateway's caches
  use, ASCII case conversion, and the generic lemmas about them.

  Conventions. A Python float is a \<open>real\<close> (rounding is not modelled), an unbounded
  Python integer is an \<open>int\<close>, a length or a count that is never negative is a \<open>nat\<close>,
  a \<open>str\<close> is a \<open>string\<close> (a \<open>char list\<close>).  The wall clock and the monotonic clock
  are arguments.  Log lines have no effect on the state and are left out.
\<close>

section \<open>Collections of rewrite rules\<close>

named_theorems odict_simps \<open>lookup and key-set equations of the ordered dictionaries\<close>
named_theorems invs \<open>preservation lemmas of the component invariants\<close>

section \<open>Code that may raise\<close>

type_synonym ('e, 'a) res = "'e + 'a"

definition bind_res :: "('e, 'a) res \<Rightarrow> ('a \<Rightarrow> ('e, 'b) res) \<Rightarrow> ('e, 'b) res" where
  "bind_res r f = (case r of Inl e \<Rightarrow> Inl e | Inr a \<Rightarrow> f a)"

lemma bind_res_simps [simp]:
  "bind_res (Inl e) f = Inl e"
  "bind_res (Inr a) f = f a"
  by (simp_all add: bind_res_def)

lemma bind_res_Inr_iff:
  "bind_res r f = Inr b \<longleftrightarrow> (\<exists>a. r = Inr a \<and> f a = Inr b)"
  by (cases r) auto

section \<open>Insertion-ordered dictionaries\<close>

text \<open>
  A Python \<open>dict\<close> or \<open>OrderedDict\<close> is its list of items, oldest insertion first, with
  distinct keys.  Storing under a key that is present keeps its position
  (\<^const>\<open>AList.update\<close>), as Python does; \<open>move_to_end\<close> and \<open>popitem(last=False)\<close> are the
  two reordering operations the bounded caches use.
\<close>

type_synonym ('k, 'v) odict = "('k \<times> 'v) list"

definition od_keys :: "('k, 'v) odict \<Rightarrow> 'k set" where
  "od_keys d = fst ` set d"

definition od_wf :: "('k, 'v) odict \<Rightarrow> bool" where
  "od_wf d \<longleftrightarrow> distinct (map fst d)"

definition od_get :: "('k, 'v) odict \<Rightarrow> 'k \<Rightarrow> 'v option" where
  "od_get d k = map_of d k"

definition od_set :: "'k \<Rightarrow> 'v \<Rightarrow> ('k, 'v) odict \<Rightarrow> ('k, 'v) odict" where
  "od_set k v d = AList.update k v d"

definition od_del :: "'k \<Rightarrow> ('k, 'v) odict \<Rightarrow> ('k, 'v) odict" where
  "od_del k d = AList.delete k d"

definition od_move_to_end :: "'k \<Rightarrow> ('k, 'v) odict \<Rightarrow> ('k, 'v) odict" where
  "od_move_to_end k d =
     (case od_get d k of None \<Rightarrow> d | Some v \<Rightarrow> od_del k d @ [(k, v)])"

text \<open>
  \<open>while len(d) > n: d.popitem(last=False)\<close>: the eviction loop of the rate limiter and
  of the quota tracker.
\<close>

fun od_evict :: "nat \<Rightarrow> ('k, 'v) odict \<Rightarrow> ('k, 'v) odict" where
  "od_evict n [] = []"
| "od_evict n (p # d) = (if n < length (p # d) then od_evict n d else p # d)"

text \<open>A mutation of a value object that may already have been evicted from the dictionary.\<close>

definition od_set_if_present :: "'k \<Rightarrow> 'v \<Rightarrow> ('k, 'v) odict \<Rightarrow> ('k, 'v) odict" where
  "od_set_if_present k v d = (if od_get d k = None then d else od_set k v d)"

lemma od_get_Nil [simp]: "od_get [] k = None"
  by (simp add: od_get_def)

lemma od_get_Cons [simp]: "od_get ((k', v) # d) k = (if k = k' then Some v else od_get d k)"
  by (simp add: od_get_def)

lemma od_get_append: "od_get (d @ e) k = (case od_get d k of None \<Rightarrow> od_get e k | Some v \<Rightarrow> Some v)"
  by (induction d) (auto split: prod.split)

lemma od_get_set [simp, odict_simps]: "od_get (od_set k v d) k' = (if k' = k then Some v else od_get d k')"
  by (simp add: od_get_def od_set_def update_conv')

lemma od_get_del [simp, odict_simps]: "od_get (od_del k d) k' = (if k' = k then None else od_get d k')"
  by (simp add: od_get_def od_del_def delete_conv')

lemma od_get_move_to_end [simp, odict_simps]: "od_get (od_move_to_end k d) k' = od_get d k'"
  by (simp add: od_move_to_end_def od_get_append split: option.split)

lemma od_get_None_iff: "od_get d k = None \<longleftrightarrow> k \<notin> od_keys d"
  by (simp add: od_get_def od_keys_def map_of_eq_None_iff)

lemma od_get_Some_key: "od_get d k = Some v \<Longrightarrow> k \<in> od_keys d"
  using od_get_None_iff [of d k] by auto

lemma od_get_Some_mem: "od_get d k = Some v \<Longrightarrow> (k, v) \<in> set d"
  by (simp add: od_get_def map_of_SomeD)

lemma od_get_mem: "od_wf d \<Longrightarrow> (k, v) \<in> set d \<Longrightarrow> od_get d k = Some v"
  by (simp add: od_get_def od_wf_def)

lemma od_keys_Nil [simp]: "od_keys [] = {}"
  by (simp add: od_keys_def)

lemma od_keys_Cons [simp]: "od_keys (p # d) = insert (fst p) (od_keys d)"
  by (simp add: od_keys_def)

lemma od_keys_append [simp]: "od_keys (d @ e) = od_keys d \<union> od_keys e"
  by (auto simp: od_keys_def)

lemma od_keys_set [simp, odict_simps]: "od_keys (od_set k v d) = insert k (od_keys d)"
  by (auto simp: od_keys_def od_set_def dom_update)

lemma od_keys_del [simp, odict_simps]: "od_keys (od_del k d) = od_keys d - {k}"
proof -
  have "k' \<in> od_keys (od_del k d) \<longleftrightarrow> k' \<in> od_keys d - {k}" for k'
    using od_get_None_iff [of "od_del k d" k'] od_get_None_iff [of d k'] by (auto split: if_splits)
  then show ?thesis by blast
qed

lemma finite_od_keys [simp]: "finite (od_keys d)"
  by (simp add: od_keys_def)

lemma od_keys_move_to_end [simp, odict_simps]: "od_keys (od_move_to_end k d) = od_keys d"
  by (auto simp: od_move_to_end_def dest: od_get_Some_key split: option.splits)

lemma od_wf_Nil [simp]: "od_wf []"
  by (simp add: od_wf_def)

lemma od_wf_set [intro, simp]: "od_wf d \<Longrightarrow> od_wf (od_set k v d)"
  by (simp add: od_wf_def od_set_def distinct_update)

lemma od_wf_del [intro, simp]: "od_wf d \<Longrightarrow> od_wf (od_del k d)"
  by (simp add: od_wf_def od_del_def distinct_delete)

lemma od_wf_append: "od_wf (d @ e) \<longleftrightarrow> od_wf d \<and> od_wf e \<and> od_keys d \<inter> od_keys e = {}"
  by (auto simp: od_wf_def od_keys_def)

lemma od_wf_move_to_end [intro, simp]: "od_wf d \<Longrightarrow> od_wf (od_move_to_end k d)"
  by (auto simp: od_move_to_end_def od_wf_append od_wf_def [of "[_]"] split: option.splits)

lemma length_od_wf: "od_wf d \<Longrightarrow> length d = card (od_keys d)"
  by (metis distinct_card length_map list.set_map od_keys_def od_wf_def)

lemma od_evict_drop: "od_evict n d = drop (length d - n) d"
  by (induction d) (auto simp: Suc_diff_le)

lemma length_od_evict: "length (od_evict n d) = min n (length d)"
  by (simp add: od_evict_drop)

lemma od_evict_id: "length d \<le> n \<Longrightarrow> od_evict n d = d"
  by (simp add: od_evict_drop)

lemma od_wf_drop: "od_wf d \<Longrightarrow> od_wf (drop n d)"
  by (simp add: od_wf_def distinct_drop flip: drop_map)

lemma od_wf_evict [intro, simp]: "od_wf d \<Longrightarrow> od_wf (od_evict n d)"
  by (simp add: od_evict_drop od_wf_drop)

lemma od_keys_evict: "od_keys (od_evict n d) \<subseteq> od_keys d"
  by (auto simp: od_evict_drop od_keys_def dest: in_set_dropD)

lemma od_set_new: "od_get d k = None \<Longrightarrow> od_set k v d = d @ [(k, v)]"
  by (induction d) (auto simp: od_set_def)

lemma length_od_set: "length (od_set k v d) = (if od_get d k = None then Suc (length d) else length d)"
  by (induction d) (auto simp: od_set_def)

lemma in_set_tlD: "x \<in> set (tl d) \<Longrightarrow> x \<in> set d"
  by (cases d) auto

section \<open>ASCII case conversion\<close>

definition upper_char :: "char \<Rightarrow> char" where
  "upper_char c = (let n = of_char c :: nat in if 97 \<le> n \<and> n \<le> 122 then char_of (n - 32) else c)"

definition lower_char :: "char \<Rightarrow> char" where
  "lower_char c = (let n = of_char c :: nat in if 65 \<le> n \<and> n \<le> 90 then char_of (n + 32) else c)"

definition str_upper :: "string \<Rightarrow> string" where
  "str_upper s = map upper_char s"

definition str_lower :: "string \<Rightarrow> string" where
  "str_lower s = map lower_char s"

definition is_space :: "char \<Rightarrow> bool" where
  "is_space c = (c \<in> {CHR '' '', CHR 0x09, CHR 0x0A, CHR 0x0B, CHR 0x0C, CHR 0x0D,
     CHR 0x1C, CHR 0x1D, CHR 0x1E, CHR 0x1F})"

definition str_strip :: "string \<Rightarrow> string" where
  "str_strip s = rev (dropWhile is_space (rev (dropWhile is_space s)))"

lemma lower_char_idem [simp]: "lower_char (lower_char c) = lower_char c"
proof -
  have "(of_char c :: nat) < 256" by simp
  then show ?thesis by (auto simp: lower_char_def Let_def)
qed

lemma str_lower_idem [simp]: "str_lower (str_lower s) = str_lower s"
  by (simp add: str_lower_def)

section \<open>Substrings\<close>

text \<open>\<open>p in s\<close> and \<open>s.startswith(p)\<close>.\<close>

definition starts_with :: "string \<Rightarrow> string \<Rightarrow> bool" where
  "starts_with p s = (take (length p) s = p)"

fun str_contains :: "string \<Rightarrow> string \<Rightarrow> bool" where
  "str_contains p [] = (p = [])"
| "str_contains p (c # s) = (starts_with p (c # s) \<or> str_contains p s)"

text \<open>\<open>s.replace(old, new)\<close> for a non-empty \<open>old\<close>; the counter skips what has been replaced.\<close>

fun replace_from :: "string \<Rightarrow> string \<Rightarrow> nat \<Rightarrow> string \<Rightarrow> string" where
  "replace_from old new k [] = []"
| "replace_from old new (Suc k) (c # s) = replace_from old new k s"
| "replace_from old new 0 (c # s) =
     (if starts_with old (c # s) then new @ replace_from old new (length old - 1) s
      else c # replace_from old new 0 s)"

definition str_replace :: "string \<Rightarrow> string \<Rightarrow> string \<Rightarrow> string" where
  "str_replace old new s = replace_from old new 0 s"

text \<open>\<open>s.split(sep)\<close> on one character.\<close>

fun split_on :: "char \<Rightarrow> string \<Rightarrow> string list" where
  "split_on c [] = [[]]"
| "split_on c (d # s) =
     (if d = c then [] # split_on c s
      else case split_on c s of [] \<Rightarrow> [[d]] | w # ws \<Rightarrow> (d # w) # ws)"

lemma split_on_no_sep: "c \<notin> set l \<Longrightarrow> split_on c l = [l]"
  by (induction l) auto

section \<open>Numbers\<close>

text \<open>\<open>int(x)\<close> on a finite float: truncation towards zero.\<close>

definition py_int :: "real \<Rightarrow> int" where
  "py_int x = (if 0 \<le> x then \<lfloor>x\<rfloor> else \<lceil>x\<rceil>)"

lemma map_sum_Inr_iff: "map_sum f g x = Inr y \<longleftrightarrow> (\<exists>z. x = Inr z \<and> g z = y)"
  by (cases x) auto

end
