(* ===== verification/Rate_Limit.thy ===== *)
theory Rate_Limit
  imports Prelude
begin

text \<open>
  The per-caller token bucket of \<open>core/rate_limit.py\<close>: the process-local limiter
  (\<open>LocalRateLimiter\<close>), the Lua script that runs the same bucket inside Redis, the Redis
  limiter that falls back to a local one, and the selection between them.  Both backends
  satisfy one interface (locale \<open>limiter_backend\<close>), the local one without error and the
  Redis one up to the precision of the decimals it stores: Lua's \<open>tostring\<close> keeps fourteen
  significant digits, so a bucket's tokens and times are rounded at every check.  The guarantees a
  caller depends on (burst bound, no rejection of a caller within its rate, honest
  \<open>Retry-After\<close>) are proved once in the locale, with those errors written out.

  The clocks are arguments: the monotonic clock for the local limiter, the Redis server
  clock for the script.  Floats are reals; the arguments of the script are passed in Python's
  shortest exact rendering and are not rounded.
\<close>

section \<open>Definitions from the code\<close>

record bucket =
  bk_tokens :: real
  bk_last_refill :: real

record local_limiter =
  ll_max_tracked :: nat
  ll_buckets :: "(string, bucket) odict"

definition local_limiter_init :: "nat \<Rightarrow> local_limiter" where
  "local_limiter_init m = \<lparr>ll_max_tracked = m, ll_buckets = []\<rparr>"

definition refill_bucket :: "real \<Rightarrow> real \<Rightarrow> real \<Rightarrow> bucket \<Rightarrow> bucket" where
  "refill_bucket capacity refill now b =
     (let elapsed = now - bk_last_refill b in
      if elapsed > 0
      then \<lparr>bk_tokens = min capacity (bk_tokens b + elapsed * refill), bk_last_refill = now\<rparr>
      else b)"

definition spend_token :: "real \<Rightarrow> bucket \<Rightarrow> (bool \<times> real) \<times> bucket" where
  "spend_token refill b =
     (if bk_tokens b \<ge> 1 then ((True, 0), b\<lparr>bk_tokens := bk_tokens b - 1\<rparr>)
      else ((False, (1 - bk_tokens b) / refill), b))"

definition local_check ::
  "local_limiter \<Rightarrow> string \<Rightarrow> real \<Rightarrow> real \<Rightarrow> real \<Rightarrow> (bool \<times> real) \<times> local_limiter" where
  "local_check s identity capacity refill now =
     (if refill \<le> 0 \<or> capacity \<le> 0 then ((True, 0), s)
      else
        let (b, d) =
          (case od_get (ll_buckets s) identity of
             None \<Rightarrow>
               let b0 = \<lparr>bk_tokens = capacity, bk_last_refill = now\<rparr>
               in (b0, od_evict (ll_max_tracked s) (od_set identity b0 (ll_buckets s)))
           | Some b0 \<Rightarrow>
               let b1 = refill_bucket capacity refill now b0
               in (b1, od_set identity b1 (od_move_to_end identity (ll_buckets s))));
            (answer, b') = spend_token refill b
        in (answer, s\<lparr>ll_buckets := od_set_if_present identity b' d\<rparr>))"

definition local_reset :: "local_limiter \<Rightarrow> local_limiter" where
  "local_reset s = s\<lparr>ll_buckets := []\<rparr>"

definition local_len :: "local_limiter \<Rightarrow> nat" where
  "local_len s = length (ll_buckets s)"

text \<open>
  The Redis side: a hash per key, with the server time at which the key expires.
\<close>

record redis_hash =
  rh_tokens :: "real option"
  rh_last_refill :: "real option"
  rh_expire_at :: real

type_synonym redis_store = "(string, redis_hash) odict"

definition redis_live :: "real \<Rightarrow> redis_store \<Rightarrow> string \<Rightarrow> redis_hash option" where
  "redis_live t d key =
     (case od_get d key of None \<Rightarrow> None
      | Some h \<Rightarrow> if t < rh_expire_at h then Some h else None)"

definition lua_ttl :: "real \<Rightarrow> real \<Rightarrow> real" where
  "lua_ttl capacity refill = max 3600 (of_int \<lceil>capacity / refill\<rceil> * 2)"

text \<open>
  What a number is worth once Lua's \<open>tostring\<close> (\<open>%.14g\<close>) has written it and it is read
  back: fourteen significant digits, the last rounded to nearest and to even on a tie.
\<close>

definition round_half_even :: "real \<Rightarrow> int" where
  "round_half_even y = (let n = round y in if real_of_int n - y = 1 / 2 \<and> odd n then n - 1 else n)"

definition lua_tostring :: "real \<Rightarrow> real" where
  "lua_tostring x =
     (if x = 0 then 0
      else let q = 10 powi (13 - \<lfloor>log 10 \<bar>x\<bar>\<rfloor>) in of_int (round_half_even (x * q)) / q)"

definition lua_token_bucket ::
  "real \<Rightarrow> string \<Rightarrow> real \<Rightarrow> real \<Rightarrow> real option \<Rightarrow> redis_store \<Rightarrow> (int \<times> real) \<times> redis_store" where
  "lua_token_bucket t key capacity refill now_arg d =
     (if capacity \<le> 0 \<or> refill \<le> 0 then ((1, 0), d)
      else
        let now = (case now_arg of Some n \<Rightarrow> if n > 0 then n else t | None \<Rightarrow> t);
            (tok0, last0) =
              (case redis_live t d key of
                 Some h \<Rightarrow>
                   (case (rh_tokens h, rh_last_refill h) of
                      (Some tk, Some lr) \<Rightarrow>
                        (let elapsed = now - lr in
                         if elapsed > 0 then (min capacity (tk + elapsed * refill), now)
                         else (tk, lr))
                    | _ \<Rightarrow> (capacity, now))
               | None \<Rightarrow> (capacity, now));
            (allowed, retry_after, tok1) =
              (if tok0 \<ge> 1 then (1, 0, tok0 - 1) else (0, (1 - tok0) / refill, tok0))
        in ((allowed, lua_tostring retry_after),
            od_set key \<lparr>rh_tokens = Some (lua_tostring tok1), rh_last_refill = Some (lua_tostring last0),
                         rh_expire_at = t + lua_ttl capacity refill\<rparr> d))"

record redis_limiter =
  rr_name :: string
  rr_fallback :: local_limiter

definition redis_key :: "redis_limiter \<Rightarrow> string \<Rightarrow> string" where
  "redis_key rl identity = ''gatekeeper:ratelimit:'' @ rr_name rl @ '':'' @ identity"

text \<open>
  \<open>up\<close> says whether the Redis call of this check succeeds; when it raises, the local
  fallback answers (\<open>m\<close> is the monotonic clock it reads).
\<close>

definition redis_check ::
  "bool \<Rightarrow> real \<Rightarrow> real \<Rightarrow> redis_limiter \<times> redis_store \<Rightarrow> string \<Rightarrow> real \<Rightarrow> real \<Rightarrow> real option \<Rightarrow>
   (bool \<times> real) \<times> (redis_limiter \<times> redis_store)" where
  "redis_check up t m s identity capacity refill now_arg =
     (let (rl, d) = s in
      if refill \<le> 0 \<or> capacity \<le> 0 then ((True, 0), s)
      else if up then
        let ((allowed, retry_after), d') =
              lua_token_bucket t (redis_key rl identity) capacity refill now_arg d
        in ((allowed \<noteq> 0, retry_after), (rl, d'))
      else
        let (answer, fb) = local_check (rr_fallback rl) identity capacity refill
                             (case now_arg of Some n \<Rightarrow> n | None \<Rightarrow> m)
        in (answer, (rl\<lparr>rr_fallback := fb\<rparr>, d)))"

definition has_prefix :: "string \<Rightarrow> string \<Rightarrow> bool" where
  "has_prefix p s = (take (length p) s = p)"

definition redis_reset :: "bool \<Rightarrow> redis_limiter \<times> redis_store \<Rightarrow> redis_limiter \<times> redis_store" where
  "redis_reset up s =
     (let (rl, d) = s; rl' = rl\<lparr>rr_fallback := local_reset (rr_fallback rl)\<rparr> in
      (rl', if up then filter (\<lambda>(k, h). \<not> has_prefix (redis_key rl []) k) d else d))"

definition redis_len :: "bool \<Rightarrow> real \<Rightarrow> redis_limiter \<times> redis_store \<Rightarrow> nat" where
  "redis_len up t s =
     (let (rl, d) = s in
      if up then length (filter (\<lambda>(k, h). has_prefix (redis_key rl []) k \<and> t < rh_expire_at h) d)
      else local_len (rr_fallback rl))"

datatype limiter_choice = UseRedis redis_limiter | UseLocal local_limiter

text \<open>
  \<open>build_rate_limiter\<close>: an injected client wins, then the shared pool's client if there
  is one, else the local limiter.
\<close>

definition build_rate_limiter :: "string \<Rightarrow> nat \<Rightarrow> bool \<Rightarrow> bool \<Rightarrow> limiter_choice" where
  "build_rate_limiter nm max_tracked client_given pool_client =
     (if client_given \<or> pool_client
      then UseRedis \<lparr>rr_name = nm, rr_fallback = local_limiter_init max_tracked\<rparr>
      else UseLocal (local_limiter_init max_tracked))"

text \<open>The limiter of the service is built with the default of \<open>max_tracked\<close>.\<close>

definition default_max_tracked :: nat where "default_max_tracked = 10000"

definition assess_rate_limiter :: "bool \<Rightarrow> limiter_choice" where
  "assess_rate_limiter pool_client = build_rate_limiter ''assess'' default_max_tracked False pool_client"

definition bucket_parameters :: "real \<Rightarrow> real \<Rightarrow> real \<times> real" where
  "bucket_parameters requests_per_minute burst_seconds =
     (let refill_per_second = requests_per_minute / 60;
          capacity = max 1 (refill_per_second * burst_seconds)
      in (capacity, refill_per_second))"

section \<open>Fourteen digits\<close>

lemma round_half_even_near: "\<bar>of_int (round_half_even y) - y\<bar> \<le> 1 / 2"
  using of_int_round_abs_le [of y] by (auto simp: round_half_even_def Let_def abs_if)

lemma round_half_even_of_int [simp]: "round_half_even (of_int n) = n"
  by (simp add: round_half_even_def Let_def)

lemma round_half_even_nonneg: "0 \<le> y \<Longrightarrow> 0 \<le> round_half_even y"
  using round_half_even_near [of y] by linarith

lemma decade:
  assumes "x \<noteq> 0"
  shows "10 powi \<lfloor>log 10 \<bar>x\<bar>\<rfloor> \<le> \<bar>x\<bar>" "\<bar>x\<bar> < 10 * 10 powi \<lfloor>log 10 \<bar>x\<bar>\<rfloor>"
  using assms floor_log_eq_powr_iff [of "\<bar>x\<bar>" 10 "\<lfloor>log 10 \<bar>x\<bar>\<rfloor>"]
  by (simp_all add: powr_add flip: powr_real_of_int')

lemma decade_unique:
  assumes "10 powi k \<le> \<bar>x\<bar>" "\<bar>x\<bar> < 10 * 10 powi k"
  shows "\<lfloor>log 10 \<bar>x\<bar>\<rfloor> = k"
proof -
  have "0 < (10::real) powi k" by simp
  then have "0 < \<bar>x\<bar>" using assms(1) by linarith
  then show ?thesis
    using assms floor_log_eq_powr_iff [of "\<bar>x\<bar>" 10 k] by (simp add: powr_add flip: powr_real_of_int')
qed

lemma scaled:
  assumes "x \<noteq> 0"
  defines "q \<equiv> (10::real) powi (13 - \<lfloor>log 10 \<bar>x\<bar>\<rfloor>)"
  shows "0 < q" "10 ^ 13 \<le> \<bar>x\<bar> * q" "\<bar>x\<bar> * q < 10 ^ 14"
proof -
  let ?p = "(10::real) powi \<lfloor>log 10 \<bar>x\<bar>\<rfloor>"
  have p: "0 < ?p" by simp
  have q: "q = 10 ^ 13 / ?p" by (simp add: q_def power_int_diff)
  show "0 < q" by (simp add: q_def)
  show "10 ^ 13 \<le> \<bar>x\<bar> * q" using decade(1) [OF assms(1)] p by (simp add: q field_simps)
  show "\<bar>x\<bar> * q < 10 ^ 14" using decade(2) [OF assms(1)] p by (simp add: q field_simps)
qed

lemma lua_tostring_near: "\<bar>lua_tostring x - x\<bar> \<le> \<bar>x\<bar> * 5 / 10 ^ 14"
proof (cases "x = 0")
  case False
  define q where "q = (10::real) powi (13 - \<lfloor>log 10 \<bar>x\<bar>\<rfloor>)"
  note q = scaled [OF False, folded q_def]
  have "lua_tostring x - x = (of_int (round_half_even (x * q)) - x * q) / q"
    using False q(1) by (simp add: lua_tostring_def q_def [symmetric] diff_divide_distrib)
  then have "\<bar>lua_tostring x - x\<bar> \<le> 1 / 2 / q"
    using divide_right_mono [OF round_half_even_near [of "x * q"], of q] q(1) by simp
  also have "\<dots> \<le> \<bar>x\<bar> * 5 / 10 ^ 14"
    using q by (simp add: field_simps)
  finally show ?thesis .
qed (simp add: lua_tostring_def)

lemma lua_tostring_nonneg: "0 \<le> x \<Longrightarrow> 0 \<le> lua_tostring x"
  by (simp add: lua_tostring_def Let_def round_half_even_nonneg)

lemma lua_tostring_idem [simp]: "lua_tostring (lua_tostring x) = lua_tostring x"
proof (cases "x = 0")
  case False
  define k where "k = \<lfloor>log 10 \<bar>x\<bar>\<rfloor>"
  define q where "q = (10::real) powi (13 - k)"
  note q = scaled [OF False, folded k_def, folded q_def]
  define n where "n = round_half_even (x * q)"
  define y where "y = real_of_int n / q"
  have y: "lua_tostring x = y"
    using False by (simp add: lua_tostring_def y_def n_def q_def k_def Let_def)
  have "\<bar>real_of_int n - x * q\<bar> \<le> 1 / 2" unfolding n_def by (rule round_half_even_near)
  then have "10 ^ 13 - 1 / 2 \<le> \<bar>real_of_int n\<bar>" "\<bar>real_of_int n\<bar> \<le> 10 ^ 14 + 1 / 2"
    using q(2,3) q(1) by (auto simp: abs_mult abs_if split: if_splits)
  then have "real_of_int (10 ^ 13 - 1) < real_of_int \<bar>n\<bar>" "real_of_int \<bar>n\<bar> < real_of_int (10 ^ 14 + 1)"
    by simp_all
  then have n: "10 ^ 13 \<le> \<bar>n\<bar>" "\<bar>n\<bar> \<le> 10 ^ 14" by (simp_all only: of_int_less_iff)
  have p: "q = 10 ^ 13 / 10 powi k" "0 < (10::real) powi k" by (simp_all add: q_def power_int_diff)
  then have qk: "10 powi k * q = 10 ^ 13" by simp
  have ay: "\<bar>y\<bar> = real_of_int \<bar>n\<bar> / q" using q(1) by (simp add: y_def)
  show ?thesis
  proof (cases "\<bar>n\<bar> = 10 ^ 14")
    case True
    then have "\<bar>y\<bar> = 10 powi (k + 1)" unfolding ay using p by (simp add: power_int_add)
    then have "\<lfloor>log 10 \<bar>y\<bar>\<rfloor> = k + 1" by (intro decade_unique) simp_all
    moreover have "y * 10 powi (13 - (k + 1)) = of_int (n div 10)"
    proof -
      have "n = 10 ^ 14 \<or> n = - (10 ^ 14)" using True by linarith
      then have "real_of_int n = 10 * of_int (n div 10)" by (elim disjE) simp_all
      then show ?thesis using q(1) by (simp add: y_def q_def power_int_diff field_simps)
    qed
    ultimately have "lua_tostring y = (if y = 0 then 0 else of_int (n div 10) / 10 powi (13 - (k + 1)))"
      and "of_int (n div 10) / 10 powi (13 - (k + 1)) = y"
      by (simp_all add: lua_tostring_def Let_def nonzero_divide_eq_eq)
    then show ?thesis unfolding y by simp
  next
    case False
    with n have "\<bar>n\<bar> < 10 ^ 14" by simp
    then have "real_of_int \<bar>n\<bar> < real_of_int (10 ^ 14)" "real_of_int (10 ^ 13) \<le> real_of_int \<bar>n\<bar>"
      using n(1) by (simp_all only: of_int_less_iff of_int_le_iff)
    then have "10 powi k \<le> \<bar>y\<bar>" "\<bar>y\<bar> < 10 * 10 powi k" unfolding ay using q(1) qk by (simp_all add: pos_le_divide_eq pos_divide_less_eq)
    then have k': "\<lfloor>log 10 \<bar>y\<bar>\<rfloor> = k" by (rule decade_unique)
    have "y * q = of_int n" using q(1) by (simp add: y_def)
    then have "lua_tostring y = (if y = 0 then 0 else of_int n / q)"
      by (simp add: lua_tostring_def Let_def k' q_def [symmetric])
    then show ?thesis unfolding y by (simp add: y_def)
  qed
qed (simp add: lua_tostring_def)


section \<open>The interface of a limiter backend\<close>

text \<open>
  \<open>take_one cap rate now ob\<close> is the meaning of one check on a caller's logical bucket
  (\<open>None\<close>: no bucket yet).
\<close>

definition take_one :: "real \<Rightarrow> real \<Rightarrow> real \<Rightarrow> bucket option \<Rightarrow> (bool \<times> real) \<times> bucket" where
  "take_one capacity refill now ob =
     spend_token refill
       (case ob of None \<Rightarrow> \<lparr>bk_tokens = capacity, bk_last_refill = now\<rparr>
        | Some b \<Rightarrow> refill_bucket capacity refill now b)"

text \<open>
  A run of checks against a backend: the trace records identity, time and outcome of
  each check, in order.
\<close>

fun run_checks ::
  "('s \<Rightarrow> string \<Rightarrow> real \<Rightarrow> (bool \<times> real) \<times> 's) \<Rightarrow> 's \<Rightarrow> (string \<times> real) list \<Rightarrow>
   (string \<times> real \<times> bool) list" where
  "run_checks step s [] = []"
| "run_checks step s ((i, now) # es) =
     (case step s i now of (a, s') \<Rightarrow> (i, now, fst a) # run_checks step s' es)"

definition admitted :: "string \<Rightarrow> (string \<times> real \<times> bool) list \<Rightarrow> nat" where
  "admitted i trace = length (filter (\<lambda>(j, now, ok). j = i \<and> ok) trace)"

text \<open>The checks of \<open>i\<close> are at least \<open>gap\<close> apart (\<open>prev\<close>: the time of the one before).\<close>

fun spaced :: "string \<Rightarrow> real \<Rightarrow> real option \<Rightarrow> (string \<times> real) list \<Rightarrow> bool" where
  "spaced i gap prev [] = True"
| "spaced i gap prev ((j, now) # es) =
     (if j = i
      then (case prev of None \<Rightarrow> True | Some p \<Rightarrow> gap \<le> now - p) \<and> spaced i gap (Some now) es
      else spaced i gap prev es)"

text \<open>
  A bucket in order: its tokens are not negative and its refill time is not after the clock, up to
  the precision \<open>e\<close> of the stored times.
\<close>

definition bucket_ok :: "real \<Rightarrow> real \<Rightarrow> bucket option \<Rightarrow> bool" where
  "bucket_ok e t ob = (case ob of None \<Rightarrow> True | Some b \<Rightarrow> 0 \<le> bk_tokens b \<and> bk_last_refill b \<le> t + e)"

definition bucket_near :: "real \<Rightarrow> real \<Rightarrow> bucket \<Rightarrow> bucket \<Rightarrow> bool" where
  "bucket_near d e b b' =
     (\<bar>bk_tokens b - bk_tokens b'\<bar> \<le> d \<and> \<bar>bk_last_refill b - bk_last_refill b'\<bar> \<le> e)"

lemmas take_one_defs = take_one_def spend_token_def refill_bucket_def Let_def

lemma bucket_near_self [simp]: "0 \<le> d \<Longrightarrow> 0 \<le> e \<Longrightarrow> bucket_near d e b b"
  by (simp add: bucket_near_def)

lemma bucket_near_exact: "bucket_near 0 0 b b' \<Longrightarrow> b = b'"
  by (cases b; cases b') (simp add: bucket_near_def)

lemma bucket_ok_take_one:
  "0 < c \<Longrightarrow> 0 < r \<Longrightarrow> bucket_ok e t ob \<Longrightarrow> t \<le> now \<Longrightarrow> 0 \<le> e
    \<Longrightarrow> bucket_ok e now (Some (snd (take_one c r now ob)))"
  by (auto simp: bucket_ok_def take_one_defs split: option.splits)

lemma bucket_ok_mono: "bucket_ok e t ob \<Longrightarrow> t \<le> t' \<Longrightarrow> bucket_ok e t' ob"
  by (auto simp: bucket_ok_def split: option.splits)

text \<open>What a caller may still spend by time \<open>T\<close>: the tokens it has plus what is refilled.\<close>

definition credit :: "real \<Rightarrow> real \<Rightarrow> real \<Rightarrow> real \<Rightarrow> bucket option \<Rightarrow> real" where
  "credit c r t T ob =
     (case ob of None \<Rightarrow> c + r * (T - t) | Some b \<Rightarrow> bk_tokens b + r * (T - bk_last_refill b))"

lemma credit_nonneg:
  assumes "0 < c" "0 < r" "bucket_ok e t ob" "t \<le> T" "0 \<le> e"
  shows "0 \<le> credit c r t T ob + r * e"
proof (cases ob)
  case None
  with assms show ?thesis by (simp add: credit_def)
next
  case (Some b)
  with assms have "0 \<le> r * (T - bk_last_refill b + e)" by (simp add: bucket_ok_def)
  with Some assms show ?thesis by (simp add: credit_def bucket_ok_def algebra_simps)
qed

lemma credit_take_one:
  assumes "0 < r" "t \<le> now"
  shows "credit c r now T (Some (snd (take_one c r now ob)))
           + (if fst (fst (take_one c r now ob)) then 1 else 0) \<le> credit c r t T ob"
proof (cases ob)
  case None
  have "r * (T - now) \<le> r * (T - t)"
    using assms by (intro mult_left_mono) auto
  with None show ?thesis by (simp add: credit_def take_one_defs)
next
  case (Some b)
  have "min c (bk_tokens b + (now - bk_last_refill b) * r) + r * (T - now)
          \<le> bk_tokens b + r * (T - bk_last_refill b)"
    by (rule order_trans [of _ "bk_tokens b + (now - bk_last_refill b) * r + r * (T - now)"])
       (simp_all add: algebra_simps)
  with Some show ?thesis by (auto simp: credit_def take_one_defs)
qed

lemma credit_near:
  assumes "bucket_near d e b b'" "0 < r"
  shows "credit c r t T (Some b) \<le> credit c r t T (Some b') + (d + r * e)"
proof -
  have "r * (bk_last_refill b' - bk_last_refill b) \<le> r * e"
    using assms by (intro mult_left_mono) (auto simp: bucket_near_def)
  then have "r * bk_last_refill b' - r * bk_last_refill b \<le> r * e" by (simp only: right_diff_distrib)
  moreover have "bk_tokens b - bk_tokens b' \<le> d" using assms(1) by (auto simp: bucket_near_def)
  ultimately show ?thesis unfolding credit_def option.simps right_diff_distrib by linarith
qed

lemma take_one_credit_mono: "credit c r now T ob \<le> credit c r t T ob" if "0 < r" "t \<le> now"
  using that by (auto simp: credit_def intro: mult_left_mono split: option.splits)

text \<open>The number of checks of \<open>i\<close> in a run.\<close>

definition checks_of :: "string \<Rightarrow> (string \<times> real) list \<Rightarrow> nat" where
  "checks_of i es = length (filter (\<lambda>e. fst e = i) es)"

lemma checks_of_simps [simp]:
  "checks_of i [] = 0" "checks_of i ((j, now) # es) = (if j = i then 1 else 0) + checks_of i es"
  by (simp_all add: checks_of_def)

text \<open>
  The contract of a limiter, without any store: each caller has one logical bucket.
\<close>

fun spec_checks ::
  "(string \<Rightarrow> real) \<Rightarrow> (string \<Rightarrow> real) \<Rightarrow> (string \<Rightarrow> bucket option) \<Rightarrow> (string \<times> real) list \<Rightarrow>
   (string \<times> real \<times> bool) list" where
  "spec_checks cap rate m [] = []"
| "spec_checks cap rate m ((i, now) # es) =
     (case take_one (cap i) (rate i) now (m i) of
        (a, b) \<Rightarrow> (i, now, fst a) # spec_checks cap rate (m(i := Some b)) es)"

text \<open>
  The laws of a backend: on the clocks of \<open>times\<close>, a check gives the verdict of the caller's
  logical bucket, and what it stores of the bucket and announces as the delay is right up to the
  errors \<open>tok_err\<close> (tokens), \<open>time_err\<close> (seconds) and \<open>wait_err\<close> (a fraction of the delay).
\<close>

locale limiter_backend =
  fixes step :: "'s \<Rightarrow> string \<Rightarrow> real \<Rightarrow> (bool \<times> real) \<times> 's"
    and view :: "'s \<Rightarrow> string \<Rightarrow> bucket option"
    and inv :: "'s \<Rightarrow> real \<Rightarrow> bool"
    and ids :: "string set"
    and cap :: "string \<Rightarrow> real"
    and rate :: "string \<Rightarrow> real"
    and times :: "real set"
    and tok_err :: "string \<Rightarrow> real"
    and time_err :: real
    and wait_err :: real
  assumes cap_pos: "i \<in> ids \<Longrightarrow> 0 < cap i"
    and rate_pos: "i \<in> ids \<Longrightarrow> 0 < rate i"
    and time_err: "0 \<le> time_err"
    and tok_err: "i \<in> ids \<Longrightarrow> 0 \<le> tok_err i"
    and inv_bucket: "inv s t \<Longrightarrow> i \<in> ids \<Longrightarrow> bucket_ok time_err t (view s i)"
    and step_verdict: "inv s t \<Longrightarrow> t \<le> now \<Longrightarrow> now \<in> times \<Longrightarrow> i \<in> ids \<Longrightarrow>
          fst (fst (step s i now)) = fst (fst (take_one (cap i) (rate i) now (view s i)))"
    and step_wait: "inv s t \<Longrightarrow> t \<le> now \<Longrightarrow> now \<in> times \<Longrightarrow> i \<in> ids \<Longrightarrow>
          snd (fst (take_one (cap i) (rate i) now (view s i))) \<le> snd (fst (step s i now)) * (1 + wait_err)"
    and step_view: "inv s t \<Longrightarrow> t \<le> now \<Longrightarrow> now \<in> times \<Longrightarrow> i \<in> ids \<Longrightarrow>
          \<exists>b. view (snd (step s i now)) i = Some b
            \<and> bucket_near (tok_err i) time_err b (snd (take_one (cap i) (rate i) now (view s i)))"
    and step_frame: "inv s t \<Longrightarrow> t \<le> now \<Longrightarrow> now \<in> times \<Longrightarrow> i \<in> ids \<Longrightarrow> j \<in> ids \<Longrightarrow> j \<noteq> i \<Longrightarrow>
          view (snd (step s i now)) j = view s j"
    and step_inv: "inv s t \<Longrightarrow> t \<le> now \<Longrightarrow> now \<in> times \<Longrightarrow> i \<in> ids \<Longrightarrow> inv (snd (step s i now)) now"
begin

text \<open>A check spends one credit when it admits, and makes at most the error up.\<close>

lemma credit_step:
  assumes "inv s t" "t \<le> now" "now \<in> times" "j \<in> ids" "i \<in> ids" "step s j now = (a, s')"
  shows "credit (cap i) (rate i) now T (view s' i) + (if j = i \<and> fst a then 1 else 0)
           \<le> credit (cap i) (rate i) t T (view s i) + (if j = i then tok_err i + rate i * time_err else 0)"
proof (cases "j = i")
  case True
  let ?b = "snd (take_one (cap i) (rate i) now (view s i))"
  obtain b where b: "view s' i = Some b" "bucket_near (tok_err i) time_err b ?b"
    using step_view [OF assms(1-4)] assms(6) True by auto
  have "fst a = fst (fst (take_one (cap i) (rate i) now (view s i)))"
    using step_verdict [OF assms(1-4)] assms(6) True by simp
  then show ?thesis
    using b credit_near [OF b(2) rate_pos [OF assms(5)], of "cap i" now T]
      credit_take_one [OF rate_pos [OF assms(5)] assms(2), of "cap i" T "view s i"] True
    by simp
next
  case False
  then have "view s' i = view s i" using step_frame [OF assms(1-5)] assms(6) by auto
  with False show ?thesis
    using take_one_credit_mono [OF rate_pos [OF assms(5)] assms(2)] by simp
qed

lemma admitted_credit:
  assumes "inv s t" "i \<in> ids" "fst ` set es \<subseteq> ids" "snd ` set es \<subseteq> times" "sorted (t # map snd es)"
    "\<forall>e \<in> set es. snd e \<le> T" "t \<le> T"
  shows "real (admitted i (run_checks step s es))
           \<le> credit (cap i) (rate i) t T (view s i) + rate i * time_err
              + real (checks_of i es) * (tok_err i + rate i * time_err)"
  using assms
proof (induction es arbitrary: s t)
  case Nil
  then show ?case
    using credit_nonneg [OF cap_pos rate_pos inv_bucket _ time_err] by (simp add: admitted_def)
next
  case (Cons e es)
  obtain j now where e: "e = (j, now)" by (cases e)
  obtain a s' where st: "step s j now = (a, s')" by (cases "step s j now")
  have pre: "t \<le> now" "now \<in> times" "j \<in> ids" "now \<le> T" using Cons.prems e by auto
  have inv': "inv s' now" using step_inv [OF Cons.prems(1) pre(1-3)] st by simp
  have IH: "real (admitted i (run_checks step s' es))
      \<le> credit (cap i) (rate i) now T (view s' i) + rate i * time_err
         + real (checks_of i es) * (tok_err i + rate i * time_err)"
    using Cons.prems e pre inv' by (intro Cons.IH) auto
  show ?case
    using IH credit_step [OF Cons.prems(1) pre(1-3) Cons.prems(2) st, of T] e st
    by (auto simp: admitted_def algebra_simps split: if_splits)
qed

text \<open>
  The burst bound: never more than the capacity plus the sustained rate over the window, and the
  error once per check of the caller.
\<close>

lemma burst_bound:
  assumes "inv s t" "i \<in> ids" "fst ` set es \<subseteq> ids" "snd ` set es \<subseteq> times" "sorted (t # map snd es)"
    "view s i = None" "\<forall>e \<in> set es. snd e \<le> T" "t \<le> T"
  shows "real (admitted i (run_checks step s es))
           \<le> cap i + rate i * (T - t) + real (checks_of i es + 1) * (tok_err i + rate i * time_err)"
  using admitted_credit [OF assms(1-5,7,8)] assms(6) tok_err [OF assms(2)]
  by (simp add: credit_def algebra_simps)

text \<open>
  A caller that keeps the sustained rate, its gaps longer by the error of the stored times, is never
  rejected, whatever the others do.
\<close>

lemma spaced_admitted:
  assumes "inv s t" "i \<in> ids" "1 \<le> cap i" "fst ` set es \<subseteq> ids" "snd ` set es \<subseteq> times" "sorted (t # map snd es)"
    "\<And>b. view s i = Some b \<Longrightarrow> \<exists>p. prev = Some p \<and> bk_last_refill b \<le> p + time_err"
    "spaced i (1 / rate i + time_err) prev es" "(i, now, ok) \<in> set (run_checks step s es)"
  shows "ok"
  using assms
proof (induction es arbitrary: s t prev)
  case Nil
  then show ?case by simp
next
  case (Cons e es)
  obtain j n where e: "e = (j, n)" by (cases e)
  obtain a s' where st: "step s j n = (a, s')" by (cases "step s j n")
  have pre: "t \<le> n" "n \<in> times" "j \<in> ids" using Cons.prems e by auto
  have inv': "inv s' n" using step_inv [OF Cons.prems(1) pre] st by simp
  have r: "0 < rate i" by (rule rate_pos [OF Cons.prems(2)])
  show ?case
  proof (cases "j = i")
    case True
    have last: "\<exists>p. Some n = Some p \<and> bk_last_refill b \<le> p + time_err" if "view s' i = Some b" for b
      using inv_bucket [OF inv' Cons.prems(2)] that by (simp add: bucket_ok_def)
    have "fst a"
    proof (cases "view s i")
      case None
      then show ?thesis
        using step_verdict [OF Cons.prems(1) pre] True st Cons.prems(3) by (simp add: take_one_defs)
    next
      case (Some b)
      obtain p where p: "prev = Some p" "bk_last_refill b \<le> p + time_err" using Cons.prems(7) [OF Some] by blast
      then have gap: "1 / rate i \<le> n - bk_last_refill b" using Cons.prems(8) True e by simp
      then have "1 \<le> (n - bk_last_refill b) * rate i" using r by (simp add: divide_le_eq)
      moreover have "0 < n - bk_last_refill b" using gap r by (smt (verit) divide_pos_pos)
      ultimately show ?thesis
        using step_verdict [OF Cons.prems(1) pre] True st Cons.prems(3) Some
          inv_bucket [OF Cons.prems(1,2)]
        by (simp add: take_one_defs bucket_ok_def)
    qed
    moreover have "spaced i (1 / rate i + time_err) (Some n) es" using Cons.prems(8) True e by simp
    ultimately show ?thesis
      using Cons.IH [OF inv' Cons.prems(2,3) _ _ _ last] Cons.prems e st True by auto
  next
    case False
    have v': "view s' i = view s i"
      using step_frame [OF Cons.prems(1) pre Cons.prems(2)] False st by auto
    show ?thesis
    proof (rule Cons.IH [OF inv' Cons.prems(2,3)])
      show "fst ` set es \<subseteq> ids" "snd ` set es \<subseteq> times" "sorted (n # map snd es)"
        using Cons.prems e by auto
      show "\<exists>p. prev = Some p \<and> bk_last_refill b \<le> p + time_err" if "view s' i = Some b" for b
        using Cons.prems(7) that v' by simp
      show "spaced i (1 / rate i + time_err) prev es" "(i, now, ok) \<in> set (run_checks step s' es)"
        using Cons.prems(8,9) False e st by auto
    qed
  qed
qed

text \<open>
  \<open>Retry-After\<close> is honest: a rejected caller that comes back after the announced time, and the
  errors, is admitted.
\<close>

lemma retry_after_honest:
  assumes "inv s t" "i \<in> ids" "1 \<le> cap i" "t \<le> now" "now \<in> times" "now + d \<in> times"
    "step s i now = ((False, w), s')" "w * (1 + wait_err) + tok_err i / rate i + time_err \<le> d"
  shows "fst (fst (step s' i (now + d)))"
proof -
  have r: "0 < rate i" by (rule rate_pos [OF assms(2)])
  let ?b = "snd (take_one (cap i) (rate i) now (view s i))"
  let ?w = "snd (fst (take_one (cap i) (rate i) now (view s i)))"
  have "\<not> fst (fst (take_one (cap i) (rate i) now (view s i)))"
    using step_verdict [OF assms(1,4,5,2)] assms(7) by simp
  then have w: "?w = (1 - bk_tokens ?b) / rate i" "bk_tokens ?b < 1"
    by (auto simp: take_one_def spend_token_def split: if_splits)
  have d: "?w + tok_err i / rate i + time_err \<le> d"
    using step_wait [OF assms(1,4,5,2)] assms(7,8) by simp
  obtain b where b: "view s' i = Some b" "bucket_near (tok_err i) time_err b ?b"
    using step_view [OF assms(1,4,5,2)] assms(7) by auto
  have inv': "inv s' now" using step_inv [OF assms(1,4,5,2)] assms(7) by simp
  have last: "bk_last_refill b \<le> now + time_err" "0 \<le> bk_tokens b"
    using inv_bucket [OF inv' assms(2)] b(1) by (simp_all add: bucket_ok_def)
  have wpos: "0 < ?w" using w r by simp
  then have now: "now \<le> now + d" "0 < now + d - bk_last_refill b"
    using d last(1) time_err tok_err [OF assms(2)] r by (smt (verit) divide_nonneg_pos)+
  have "?w + tok_err i / rate i \<le> now + d - bk_last_refill b" using d last(1) by simp
  then have "(?w + tok_err i / rate i) * rate i \<le> (now + d - bk_last_refill b) * rate i"
    using r by (intro mult_right_mono) auto
  moreover have "(?w + tok_err i / rate i) * rate i = 1 - bk_tokens ?b + tok_err i"
    using w(1) r by (simp add: distrib_right)
  moreover have "bk_tokens ?b - tok_err i \<le> bk_tokens b" using b(2) by (auto simp: bucket_near_def)
  ultimately have "1 \<le> bk_tokens b + (now + d - bk_last_refill b) * rate i" by linarith
  then have "fst (fst (take_one (cap i) (rate i) (now + d) (Some b)))"
    using now assms(3) by (simp add: take_one_def spend_token_def refill_bucket_def Let_def)
  then show ?thesis using step_verdict [OF inv' now(1) assms(6,2)] b(1) by simp
qed

text \<open>A backend without error computes the contract.\<close>

lemma run_refines_spec:
  assumes "time_err = 0" "\<And>i. tok_err i = 0"
    and "inv s t" "fst ` set es \<subseteq> ids" "snd ` set es \<subseteq> times" "sorted (t # map snd es)" "\<And>i. i \<in> ids \<Longrightarrow> m i = view s i"
  shows "run_checks step s es = spec_checks cap rate m es"
  using assms(3-)
proof (induction es arbitrary: s t m)
  case Nil
  then show ?case by simp
next
  case (Cons e es)
  obtain j n where e: "e = (j, n)" by (cases e)
  obtain a s' where st: "step s j n = (a, s')" by (cases "step s j n")
  obtain a' b where tk: "take_one (cap j) (rate j) n (m j) = (a', b)"
    by (cases "take_one (cap j) (rate j) n (m j)")
  have pre: "t \<le> n" "n \<in> times" "j \<in> ids" using Cons.prems e by auto
  have inv': "inv s' n" using step_inv [OF Cons.prems(1) pre] st by simp
  have a: "fst a = fst a'" and vj: "view s' j = Some b"
    using step_verdict [OF Cons.prems(1) pre] step_view [OF Cons.prems(1) pre] st tk
      Cons.prems(5) [OF pre(3)] bucket_near_exact assms(1,2) by auto
  have m': "(m(j := Some b)) i = view s' i" if "i \<in> ids" for i
    using that vj Cons.prems(5) [OF that] step_frame [OF Cons.prems(1) pre that] st by auto
  have "run_checks step s' es = spec_checks cap rate (m(j := Some b)) es"
    using Cons.prems(2-4) e by (intro Cons.IH [OF inv' _ _ _ m']) auto
  then show ?case using e st tk a by simp
qed

end

section \<open>The two backends satisfy the interface\<close>

definition local_step ::
  "(string \<Rightarrow> real) \<Rightarrow> (string \<Rightarrow> real) \<Rightarrow> local_limiter \<Rightarrow> string \<Rightarrow> real \<Rightarrow> (bool \<times> real) \<times> local_limiter" where
  "local_step cap rate s i now = local_check s i (cap i) (rate i) now"

definition local_view :: "local_limiter \<Rightarrow> string \<Rightarrow> bucket option" where
  "local_view s i = od_get (ll_buckets s) i"

text \<open>No eviction happens while the callers in play fit in the tracking cap.\<close>

definition local_inv ::
  "string set \<Rightarrow> (string \<Rightarrow> real) \<Rightarrow> (string \<Rightarrow> real) \<Rightarrow> local_limiter \<Rightarrow> real \<Rightarrow> bool" where
  "local_inv ids cap rate s t \<longleftrightarrow>
     od_wf (ll_buckets s) \<and> od_keys (ll_buckets s) \<subseteq> ids \<and> finite ids \<and> card ids \<le> ll_max_tracked s
     \<and> (\<forall>i \<in> ids. 0 < cap i \<and> 0 < rate i) \<and> (\<forall>i \<in> ids. bucket_ok 0 t (local_view s i))"

definition redis_step ::
  "(string \<Rightarrow> real) \<Rightarrow> (string \<Rightarrow> real) \<Rightarrow> redis_limiter \<times> redis_store \<Rightarrow> string \<Rightarrow> real \<Rightarrow>
   (bool \<times> real) \<times> (redis_limiter \<times> redis_store)" where
  "redis_step cap rate s i now = redis_check True now now s i (cap i) (rate i) None"

definition hash_bucket :: "redis_hash \<Rightarrow> bucket option" where
  "hash_bucket h =
     (case (rh_tokens h, rh_last_refill h) of
        (Some tk, Some lr) \<Rightarrow> Some \<lparr>bk_tokens = tk, bk_last_refill = lr\<rparr> | _ \<Rightarrow> None)"

definition redis_view :: "redis_limiter \<times> redis_store \<Rightarrow> string \<Rightarrow> bucket option" where
  "redis_view s i =
     (case od_get (snd s) (redis_key (fst s) i) of None \<Rightarrow> None | Some h \<Rightarrow> hash_bucket h)"

text \<open>
  What the script stores: numbers that are their own rendering, tokens near the capacity, a
  refill time that is not after the clock up to the precision \<open>e\<close>, and an expiry a full
  time-to-live later.
\<close>

definition hash_ok :: "real \<Rightarrow> real \<Rightarrow> real \<Rightarrow> real \<Rightarrow> redis_hash \<Rightarrow> bool" where
  "hash_ok e c r t h =
     (case (rh_tokens h, rh_last_refill h) of
        (Some tk, Some lr) \<Rightarrow> 0 \<le> tk \<and> tk \<le> 2 * c \<and> lua_tostring tk = tk \<and> lr \<le> t + e \<and> lua_tostring lr = lr
          \<and> lr + lua_ttl c r \<le> rh_expire_at h + e
      | _ \<Rightarrow> False)"

definition redis_inv ::
  "string set \<Rightarrow> (string \<Rightarrow> real) \<Rightarrow> (string \<Rightarrow> real) \<Rightarrow> real \<Rightarrow> redis_limiter \<times> redis_store \<Rightarrow> real \<Rightarrow> bool" where
  "redis_inv ids cap rate H s t \<longleftrightarrow>
     0 \<le> t \<and> t \<le> H \<and> H \<le> 10 ^ 16 \<and>
     (\<forall>i \<in> ids. 0 < cap i \<and> cap i \<le> 10 ^ 13 \<and> 0 < rate i \<and>
        (\<forall>h. od_get (snd s) (redis_key (fst s) i) = Some h
           \<longrightarrow> hash_ok (H * 5 / 10 ^ 14) (cap i) (rate i) t h))"

text \<open>
  Key expiry is unobservable: the script's TTL is at least an hour and at least twice the time the
  bucket needs to fill, so an expired bucket would have been full.
\<close>

lemma lua_ttl_fills:
  assumes "0 < c" "0 < r" "0 \<le> tk" "lr + lua_ttl c r \<le> now + e" "e \<le> 500"
  shows "refill_bucket c r now \<lparr>bk_tokens = tk, bk_last_refill = lr\<rparr>
           = \<lparr>bk_tokens = c, bk_last_refill = now\<rparr>"
proof -
  have "c / r \<le> of_int \<lceil>c / r\<rceil>" "0 < c / r" using assms by (auto simp: le_of_int_ceiling)
  moreover have "of_int \<lceil>c / r\<rceil> * 2 \<le> lua_ttl c r" "3600 \<le> lua_ttl c r" by (simp_all add: lua_ttl_def)
  ultimately have ttl: "c / r \<le> now - lr" "0 < now - lr" using assms(4,5) by linarith+
  then have "c \<le> (now - lr) * r" using assms(2) by (simp add: divide_le_eq)
  with ttl assms(3) show ?thesis by (simp add: refill_bucket_def Let_def)
qed

lemma local_no_evict:
  assumes "local_inv ids cap rate s t" "i \<in> ids" "od_get (ll_buckets s) i = None"
  shows "od_evict (ll_max_tracked s) (od_set i b (ll_buckets s)) = od_set i b (ll_buckets s)"
proof -
  have "length (od_set i b (ll_buckets s)) = card (insert i (od_keys (ll_buckets s)))"
    using assms by (subst length_od_wf) (auto simp: local_inv_def)
  also have "\<dots> \<le> card ids"
    using assms by (intro card_mono) (auto simp: local_inv_def)
  finally show ?thesis using assms by (intro od_evict_id) (auto simp: local_inv_def)
qed

lemma od_get_set_if_present:
  "od_get (od_set_if_present k v d) k' = (if k' = k \<and> od_get d k \<noteq> None then Some v else od_get d k')"
  by (auto simp: od_set_if_present_def)

lemma local_check_effect:
  assumes "local_inv ids cap rate s t" "i \<in> ids"
  shows "fst (local_step cap rate s i now) = fst (take_one (cap i) (rate i) now (local_view s i))"
    and "local_view (snd (local_step cap rate s i now)) j =
           (if j = i then Some (snd (take_one (cap i) (rate i) now (local_view s i))) else local_view s j)"
proof -
  have pos: "0 < cap i" "0 < rate i" using assms by (auto simp: local_inv_def)
  show "fst (local_step cap rate s i now) = fst (take_one (cap i) (rate i) now (local_view s i))"
    using pos by (auto simp: local_step_def local_check_def local_view_def take_one_def Let_def
        split: option.splits prod.splits)
  show "local_view (snd (local_step cap rate s i now)) j =
          (if j = i then Some (snd (take_one (cap i) (rate i) now (local_view s i))) else local_view s j)"
    using pos local_no_evict [OF assms]
    by (auto simp: local_step_def local_check_def local_view_def take_one_def Let_def
        od_get_set_if_present split: option.splits prod.splits)
qed

lemma local_step_inv:
  assumes "local_inv ids cap rate s t" "i \<in> ids" "t \<le> now"
  shows "local_inv ids cap rate (snd (local_step cap rate s i now)) now"
proof -
  have pos: "0 < cap i" "0 < rate i" and ok: "\<forall>j \<in> ids. bucket_ok 0 t (local_view s j)"
    using assms by (auto simp: local_inv_def)
  have "bucket_ok 0 now (local_view (snd (local_step cap rate s i now)) j)" if "j \<in> ids" for j
    using ok that assms(2,3) pos bucket_ok_take_one [of "cap i" "rate i" 0 t "local_view s i" now]
      bucket_ok_mono [of 0 t _ now]
    by (simp add: local_check_effect [OF assms(1,2)])
  then show ?thesis
    using assms pos local_no_evict [OF assms(1,2)]
    by (auto simp: local_inv_def local_step_def local_check_def od_set_if_present_def Let_def
        split: option.splits prod.splits)
qed

lemma local_inv_bucket: "local_inv ids cap rate s t \<Longrightarrow> i \<in> ids \<Longrightarrow> bucket_ok 0 t (local_view s i)"
  by (simp add: local_inv_def)

interpretation local_backend:
  limiter_backend "local_step cap rate" local_view "local_inv ids cap rate"
    "{i \<in> ids. 0 < cap i \<and> 0 < rate i}" cap rate UNIV "\<lambda>_. 0" 0 0 for cap rate ids
  by unfold_locales (auto simp: local_check_effect local_inv_bucket intro: local_step_inv)

lemma redis_key_inj [simp]: "redis_key rl i = redis_key rl j \<longleftrightarrow> i = j"
  by (simp add: redis_key_def)

lemma redis_step_eq:
  "0 < c i \<Longrightarrow> 0 < r i \<Longrightarrow> redis_step c r (rl, d) i t =
     (case lua_token_bucket t (redis_key rl i) (c i) (r i) None d of
        ((allowed, w), d') \<Rightarrow> ((allowed \<noteq> 0, w), (rl, d')))"
  by (simp add: redis_step_def redis_check_def split: prod.split)

text \<open>
  One run of the script on a hash in order, against the exact bucket \<open>x\<close>: the verdict is that of
  the exact bucket, and the delay and the stored numbers are its rendering.
\<close>

definition bucket_of_hash :: "redis_hash option \<Rightarrow> bucket option" where
  "bucket_of_hash oh = (case oh of None \<Rightarrow> None | Some h \<Rightarrow> hash_bucket h)"

lemma lua_effect:
  fixes now :: real
  assumes "0 < c" "0 < r" "e \<le> 500"
    and ok: "\<And>h. od_get d key = Some h \<Longrightarrow> hash_ok e c r t h"
  defines "x \<equiv> take_one c r now (bucket_of_hash (od_get d key))"
  shows "lua_token_bucket now key c r None d =
           ((if fst (fst x) then 1 else 0, lua_tostring (snd (fst x))),
            od_set key \<lparr>rh_tokens = Some (lua_tostring (bk_tokens (snd x))),
                         rh_last_refill = Some (lua_tostring (bk_last_refill (snd x))),
                         rh_expire_at = now + lua_ttl c r\<rparr> d)"
proof (cases "od_get d key")
  case None
  with assms(1,2) show ?thesis
    by (simp add: lua_token_bucket_def redis_live_def x_def bucket_of_hash_def take_one_defs)
next
  case (Some h)
  from ok [OF this] obtain tk lr where h: "rh_tokens h = Some tk" "rh_last_refill h = Some lr"
    and h': "0 \<le> tk" "lr + lua_ttl c r \<le> rh_expire_at h + e"
    by (auto simp: hash_ok_def split: option.splits)
  have x: "x = take_one c r now (Some \<lparr>bk_tokens = tk, bk_last_refill = lr\<rparr>)"
    using Some h by (simp add: x_def bucket_of_hash_def hash_bucket_def)
  show ?thesis
  proof (cases "now < rh_expire_at h")
    case True
    with Some h assms(1,2) show ?thesis
      by (simp add: lua_token_bucket_def redis_live_def x take_one_defs)
  next
    case False
    then have "refill_bucket c r now \<lparr>bk_tokens = tk, bk_last_refill = lr\<rparr>
                 = \<lparr>bk_tokens = c, bk_last_refill = now\<rparr>"
      using h' assms(1-3) by (intro lua_ttl_fills [where e = e]) auto
    with False Some assms(1,2) show ?thesis
      by (simp add: lua_token_bucket_def redis_live_def x take_one_def spend_token_def)
  qed
qed

lemma take_one_range:
  assumes "0 < c" "0 < r" "\<And>b. ob = Some b \<Longrightarrow> 0 \<le> bk_tokens b \<and> bk_tokens b \<le> 2 * c"
  shows "0 \<le> bk_tokens (snd (take_one c r now ob))" "bk_tokens (snd (take_one c r now ob)) \<le> 2 * c"
    "0 \<le> snd (fst (take_one c r now ob))"
  using assms by (auto simp: take_one_defs split: option.splits)

text \<open>The refill time of the exact bucket is the clock, or the stored one when that is not before it.\<close>

lemma take_one_last:
  "bk_last_refill (snd (take_one c r now ob)) = now
    \<or> (\<exists>b. ob = Some b \<and> now \<le> bk_last_refill b \<and> bk_last_refill (snd (take_one c r now ob)) = bk_last_refill b)"
  by (auto simp: take_one_defs split: option.splits)

text \<open>The tokens of the exact bucket are what was stored, or fewer than the capacity.\<close>

lemma take_one_tokens:
  assumes "0 < c" "c \<le> 10 ^ 13" "\<And>b. ob = Some b \<Longrightarrow> bk_tokens b \<le> 2 * c \<and> lua_tostring (bk_tokens b) = bk_tokens b"
  shows "lua_tostring (bk_tokens (snd (take_one c r now ob))) \<le> 2 * c"
proof -
  let ?k = "bk_tokens (snd (take_one c r now ob))"
  have "(\<exists>b. ob = Some b \<and> ?k = bk_tokens b) \<or> ?k \<le> c \<or> ?k \<le> 2 * c - 1"
    using assms(1,3) by (auto simp: take_one_defs split: option.splits)
  then show ?thesis
  proof (elim disjE exE conjE)
    assume "?k \<le> c" then show ?thesis
      using lua_tostring_near [of ?k] assms(1) by (simp add: abs_if split: if_splits)
  next
    assume "?k \<le> 2 * c - 1" then show ?thesis
      using lua_tostring_near [of ?k] assms(1,2) by (simp add: abs_if split: if_splits)
  qed (use assms(3) in auto)
qed

lemma redis_step_effect:
  assumes inv: "redis_inv ids cap rate H s t" and i: "i \<in> ids" and t: "t \<le> now" "now \<le> H"
  defines "x \<equiv> take_one (cap i) (rate i) now (redis_view s i)"
  shows "fst (redis_step cap rate s i now) = (fst (fst x), lua_tostring (snd (fst x)))"
    and "redis_view (snd (redis_step cap rate s i now)) j =
           (if j = i then Some \<lparr>bk_tokens = lua_tostring (bk_tokens (snd x)),
                                bk_last_refill = lua_tostring (bk_last_refill (snd x))\<rparr>
            else redis_view s j)"
    and "redis_inv ids cap rate H (snd (redis_step cap rate s i now)) now"
proof -
  let ?e = "H * 5 / 10 ^ 14"
  obtain rl d where s: "s = (rl, d)" by (cases s)
  have pos: "0 < cap i" "0 < rate i" "cap i \<le> 10 ^ 13" and e: "?e \<le> 500" "0 \<le> t"
    using inv i by (auto simp: redis_inv_def)
  have ok: "hash_ok ?e (cap i) (rate i) t h" if "od_get d (redis_key rl i) = Some h" for h
    using inv i s that by (auto simp: redis_inv_def)
  have view: "redis_view s i = bucket_of_hash (od_get d (redis_key rl i))"
    by (simp add: redis_view_def bucket_of_hash_def s)
  note lua = lua_effect [OF pos(1,2) e(1) ok, where now = now]
  let ?h = "\<lparr>rh_tokens = Some (lua_tostring (bk_tokens (snd x))),
              rh_last_refill = Some (lua_tostring (bk_last_refill (snd x))),
              rh_expire_at = now + lua_ttl (cap i) (rate i)\<rparr>"
  have st: "redis_step cap rate s i now =
      ((fst (fst x), lua_tostring (snd (fst x))), (rl, od_set (redis_key rl i) ?h d))"
    unfolding s redis_step_eq [of cap i rate, OF pos(1,2)] by (simp add: lua x_def view)
  show "fst (redis_step cap rate s i now) = (fst (fst x), lua_tostring (snd (fst x)))"
    using st by simp
  show "redis_view (snd (redis_step cap rate s i now)) j =
           (if j = i then Some \<lparr>bk_tokens = lua_tostring (bk_tokens (snd x)),
                                bk_last_refill = lua_tostring (bk_last_refill (snd x))\<rparr>
            else redis_view s j)"
    using st s by (simp add: redis_view_def hash_bucket_def)
  have stored: "0 \<le> bk_tokens b \<and> bk_tokens b \<le> 2 * cap i \<and> lua_tostring (bk_tokens b) = bk_tokens b
      \<and> lua_tostring (bk_last_refill b) = bk_last_refill b \<and> bk_last_refill b \<le> t + ?e" if "redis_view s i = Some b" for b
    using ok that unfolding view bucket_of_hash_def
    by (fastforce simp: hash_ok_def hash_bucket_def split: option.splits)
  have late: "lua_tostring (bk_last_refill (snd x)) \<le> now + ?e"
    using take_one_last [of "cap i" "rate i" now "redis_view s i", folded x_def]
  proof (elim disjE exE conjE)
    assume "bk_last_refill (snd x) = now"
    then show ?thesis using lua_tostring_near [of now] t e(2) by (simp add: abs_if field_simps split: if_splits)
  qed (use stored t in auto)
  have hok: "hash_ok ?e (cap i) (rate i) now ?h"
    using late take_one_range [OF pos(1,2), of "redis_view s i" now, folded x_def]
      take_one_tokens [OF pos(1,3), of "redis_view s i" "rate i" now, folded x_def] stored
    by (simp add: hash_ok_def lua_tostring_nonneg)
  have others: "hash_ok ?e (cap j) (rate j) now h"
    if "j \<in> ids" "od_get d (redis_key rl j) = Some h" for j h
    using inv s t that by (fastforce simp: redis_inv_def hash_ok_def split: option.splits)
  show "redis_inv ids cap rate H (snd (redis_step cap rate s i now)) now"
    using inv st s hok others t by (auto simp: redis_inv_def)
qed

text \<open>What the rendering of the exact bucket may be off by.\<close>

lemma redis_step_near:
  assumes inv: "redis_inv ids cap rate H s t" and i: "i \<in> ids" and t: "t \<le> now" "now \<le> H"
  defines "x \<equiv> take_one (cap i) (rate i) now (redis_view s i)"
  shows "bucket_near (cap i / 10 ^ 13) (H * 5 / 10 ^ 14)
           \<lparr>bk_tokens = lua_tostring (bk_tokens (snd x)), bk_last_refill = lua_tostring (bk_last_refill (snd x))\<rparr> (snd x)"
    and "snd (fst x) \<le> lua_tostring (snd (fst x)) * (1 + 1 / 10 ^ 13)"
proof -
  have pos: "0 < cap i" "0 < rate i" "0 \<le> now" using inv i t by (auto simp: redis_inv_def)
  have stored: "0 \<le> bk_tokens b \<and> bk_tokens b \<le> 2 * cap i \<and> lua_tostring (bk_last_refill b) = bk_last_refill b"
    if "redis_view s i = Some b" for b
    using inv i that by (fastforce simp: redis_inv_def redis_view_def hash_ok_def hash_bucket_def split: option.splits)
  have range: "0 \<le> bk_tokens (snd x)" "bk_tokens (snd x) \<le> 2 * cap i" "0 \<le> snd (fst x)"
    using take_one_range [OF pos(1,2), of "redis_view s i" now, folded x_def] stored by auto
  have "\<bar>lua_tostring (bk_last_refill (snd x)) - bk_last_refill (snd x)\<bar> \<le> H * 5 / 10 ^ 14"
    using take_one_last [of "cap i" "rate i" now "redis_view s i", folded x_def]
  proof (elim disjE exE conjE)
    assume "bk_last_refill (snd x) = now"
    then show ?thesis using lua_tostring_near [of now] t pos(3) by simp
  qed (use stored t pos in auto)
  then show "bucket_near (cap i / 10 ^ 13) (H * 5 / 10 ^ 14)
      \<lparr>bk_tokens = lua_tostring (bk_tokens (snd x)), bk_last_refill = lua_tostring (bk_last_refill (snd x))\<rparr> (snd x)"
    using lua_tostring_near [of "bk_tokens (snd x)"] range(1,2) by (simp add: bucket_near_def)
  show "snd (fst x) \<le> lua_tostring (snd (fst x)) * (1 + 1 / 10 ^ 13)"
    using lua_tostring_near [of "snd (fst x)"] range(3) by (simp add: abs_if field_simps split: if_splits)
qed

lemma redis_inv_bucket:
  "redis_inv ids cap rate H s t \<Longrightarrow> i \<in> ids \<Longrightarrow> bucket_ok (H * 5 / 10 ^ 14) t (redis_view s i)"
  by (fastforce simp: redis_inv_def redis_view_def hash_ok_def hash_bucket_def bucket_ok_def split: option.splits)

definition token_error :: "(string \<Rightarrow> real) \<Rightarrow> string \<Rightarrow> real" where
  "token_error cap i = cap i / 10 ^ 13"

definition time_error :: "real \<Rightarrow> real" where
  "time_error H = H * 5 / 10 ^ 14"

definition wait_error :: real where
  "wait_error = 1 / 10 ^ 13"

lemmas error_defs = token_error_def time_error_def wait_error_def

interpretation redis_backend:
  limiter_backend "redis_step cap rate" redis_view "redis_inv ids cap rate \<bar>H\<bar>"
    "{i \<in> ids. 0 < cap i \<and> 0 < rate i}" cap rate "{0..\<bar>H\<bar>}" "token_error cap" "time_error \<bar>H\<bar>" wait_error
  for cap rate ids H
proof (unfold_locales, goal_cases)
  case (3)
  show ?case by (simp add: error_defs)
next
  case (4 i)
  then show ?case by (simp add: error_defs)
next
  case (7 s t now i)
  then show ?case using redis_step_near(2) [of ids cap rate "\<bar>H\<bar>" s t i now] by (simp add: redis_step_effect(1) wait_error_def)
next
  case (8 s t now i)
  then show ?case
    using redis_step_near(1) [of ids cap rate "\<bar>H\<bar>" s t i now, folded token_error_def time_error_def]
    by (simp add: redis_step_effect(2))
qed (auto simp: redis_step_effect redis_inv_bucket [folded time_error_def])

lemma length_od_move_to_end: "od_wf d \<Longrightarrow> length (od_move_to_end k d) = length d"
  by (simp add: length_od_wf)

lemma length_od_set_if_present [simp]: "length (od_set_if_present k v d) = length d"
  by (simp add: od_set_if_present_def length_od_set)

lemma od_wf_set_if_present [intro, simp]: "od_wf d \<Longrightarrow> od_wf (od_set_if_present k v d)"
  by (simp add: od_set_if_present_def)

section \<open>Properties\<close>

text \<open>
  The token bucket bounds a caller: in any interleaving of checks by tracked callers
  between times \<open>t\<close> and \<open>T\<close>, a caller is admitted at most its burst capacity plus its
  sustained rate times the length of the window.
\<close>

theorem local_burst_bound:
  assumes "finite ids" "card ids \<le> m" "i \<in> ids" "\<forall>j \<in> ids. 0 < cap j \<and> 0 < rate j"
    and "fst ` set es \<subseteq> ids" "sorted (t # map snd es)" "\<forall>e \<in> set es. snd e \<le> T" "t \<le> T"
  shows "real (admitted i (run_checks (local_step cap rate) (local_limiter_init m) es))
           \<le> cap i + rate i * (T - t)"
proof -
  have "local_inv ids cap rate (local_limiter_init m) t"
    using assms by (simp add: local_inv_def local_limiter_init_def local_view_def bucket_ok_def)
  moreover have "local_view (local_limiter_init m) i = None" by (simp add: local_view_def local_limiter_init_def)
  ultimately show ?thesis
    using local_backend.burst_bound [of ids cap rate "local_limiter_init m" t i es T] assms by auto
qed

theorem local_burst_bound_witness:
  "real (admitted ''a'' (run_checks (local_step (\<lambda>_. 2) (\<lambda>_. 1)) (local_limiter_init 5)
     [(''a'', 0), (''a'', 0), (''a'', 0), (''a'', 1)])) \<le> 2 + 1 * (1 - 0)
   \<and> admitted ''a'' (run_checks (local_step (\<lambda>_. 2) (\<lambda>_. 1)) (local_limiter_init 5)
     [(''a'', 0), (''a'', 0), (''a'', 0), (''a'', 1)]) = 3"
proof
  show "real (admitted ''a'' (run_checks (local_step (\<lambda>_. 2) (\<lambda>_. 1)) (local_limiter_init 5)
     [(''a'', 0), (''a'', 0), (''a'', 0), (''a'', 1)])) \<le> 2 + 1 * (1 - 0)"
    using local_burst_bound [of "{''a''}" 5 "''a''" "\<lambda>_. 2" "\<lambda>_. 1"
        "[(''a'', 0), (''a'', 0), (''a'', 0), (''a'', 1)]" 0 1] by simp
  show "admitted ''a'' (run_checks (local_step (\<lambda>_. 2) (\<lambda>_. 1)) (local_limiter_init 5)
     [(''a'', 0), (''a'', 0), (''a'', 0), (''a'', 1)]) = 3"
    by (simp add: admitted_def local_step_def local_check_def local_limiter_init_def od_set_def
        od_set_if_present_def od_move_to_end_def od_del_def spend_token_def refill_bucket_def Let_def)
qed



text \<open>
  \<open>Retry-After\<close> is honest up to the digits: a caller that the Redis limiter rejects with a delay,
  and that comes back no sooner than that delay and the errors, is admitted.
\<close>

lemma redis_retry_after_honest:
  assumes "redis_inv ids cap rate H s t" "i \<in> ids" "1 \<le> cap i" "t \<le> now" "now + d \<le> H"
    and "redis_step cap rate s i now = ((False, w), s')"
    and "w * (1 + 1 / 10 ^ 13) + cap i / 10 ^ 13 / rate i + H * 5 / 10 ^ 14 \<le> d" "0 \<le> d"
  shows "fst (fst (redis_step cap rate s' i (now + d)))"
proof -
  have t: "0 \<le> t" "0 \<le> H" "\<bar>H\<bar> = H" and ids: "i \<in> {j \<in> ids. 0 < cap j \<and> 0 < rate j}"
    using assms(1,2) by (auto simp: redis_inv_def)
  show ?thesis
    using assms t by (intro redis_backend.retry_after_honest [of ids cap rate H s t i now d w s', OF _ ids]) (auto simp: error_defs)
qed

text \<open>
  The digits are observable: on a Unix clock four decimals of the refill time are kept, so a
  caller with one token and one more each second that checks at 1700000000.00006 and exactly a
  second later is admitted twice by the local limiter and once by the Redis one.
\<close>

lemma lua_tostring_example: "lua_tostring (1700000000 + 6 / 10 ^ 5) = 1700000000 + 1 / 10 ^ 4"
proof -
  have "\<lfloor>log 10 \<bar>1700000000 + 6 / 10 ^ 5 :: real\<bar>\<rfloor> = 9" by (rule decade_unique) simp_all
  moreover have "round ((1700000000 + 6 / 10 ^ 5) * 10 ^ 4 :: real) = 17000000000001" by (rule round_unique) simp_all
  ultimately show ?thesis by (simp add: lua_tostring_def round_half_even_def Let_def)
qed

lemma redis_differs_from_local:
  defines "t \<equiv> 1700000000 + 6 / 10 ^ 5 :: real"
  shows "run_checks (redis_step (\<lambda>_. 1) (\<lambda>_. 1)) (rl, []) [(''a'', t), (''a'', t + 1)] = [(''a'', t, True), (''a'', t + 1, False)]"
    and "run_checks (local_step (\<lambda>_. 1) (\<lambda>_. 1)) (local_limiter_init 1) [(''a'', t), (''a'', t + 1)]
           = [(''a'', t, True), (''a'', t + 1, True)]"
proof -
  have z: "lua_tostring 0 = 0" by (simp add: lua_tostring_def)
  have t: "lua_tostring t = 1700000000 + 1 / 10 ^ 4" unfolding t_def by (rule lua_tostring_example)
  then have d: "\<not> lua_tostring t \<le> t" "lua_tostring t < t + 1" unfolding t by (simp_all add: t_def)
  show "run_checks (redis_step (\<lambda>_. 1) (\<lambda>_. 1)) (rl, []) [(''a'', t), (''a'', t + 1)] = [(''a'', t, True), (''a'', t + 1, False)]"
    by (simp add: redis_step_def redis_check_def lua_token_bucket_def redis_live_def lua_ttl_def od_set_def Let_def z d)
  show "run_checks (local_step (\<lambda>_. 1) (\<lambda>_. 1)) (local_limiter_init 1) [(''a'', t), (''a'', t + 1)]
           = [(''a'', t, True), (''a'', t + 1, True)]"
    by (simp add: local_step_def local_check_def local_limiter_init_def od_set_def
        od_set_if_present_def od_move_to_end_def od_del_def spend_token_def refill_bucket_def Let_def)
qed

text \<open>
  The limiter's memory is bounded: whatever the caller sends, a check keeps the number
  of tracked identities within \<open>max_tracked\<close> and the bucket table well formed.
\<close>

theorem local_check_bounded:
  assumes "od_wf (ll_buckets s)" "local_len s \<le> ll_max_tracked s"
  shows "local_len (snd (local_check s i c r now)) \<le> ll_max_tracked (snd (local_check s i c r now))
         \<and> od_wf (ll_buckets (snd (local_check s i c r now)))"
  using assms
  by (auto simp: local_check_def local_len_def length_od_evict length_od_set length_od_move_to_end Let_def
      split: option.splits prod.splits)

theorem local_check_bounded_witness:
  "let s = \<lparr>ll_max_tracked = 1, ll_buckets = [(''a'', \<lparr>bk_tokens = 0, bk_last_refill = 0\<rparr>)]\<rparr>
   in local_len (snd (local_check s ''b'' 2 1 0)) \<le> ll_max_tracked (snd (local_check s ''b'' 2 1 0))
      \<and> od_wf (ll_buckets (snd (local_check s ''b'' 2 1 0)))"
  unfolding Let_def by (rule local_check_bounded) (simp_all add: od_wf_def local_len_def)

end
