(* ===== verification/Json.thy ===== *)
theory Json
  imports Prelude
begin

text \<open>
  The values \<open>json.load\<close> (and \<open>yaml.safe_load\<close> on the same documents) hands to the
  gateway, and the Python operations the code applies to them: dictionary access, the
  \<open>isinstance\<close> tests, truth value, equality, \<open>str()\<close>.

  A finite float carries its value and its \<open>repr\<close> text; the infinities and the
  not-a-number that Python's parser also accepts are constructors of their own.  Strings
  are lists of 8-bit characters.
\<close>

datatype json =
    JNull
  | JBool bool
  | JInt int
  | JFloat real string
  | JInf bool
  | JNaN
  | JStr string
  | JList "json list"
  | JDict "(string \<times> json) list"

datatype py_error =
    KeyError string
  | ValueError string
  | TypeError string
  | AttributeError string
  | OverflowError string
  | FileNotFoundError string
  | IsADirectoryError string
  | IndexError string
  | OtherError string

text \<open>What is at a path: nothing, a file that cannot be opened or parsed, or a document.\<close>

datatype disk_doc = Missing | Unreadable | Doc json

fun is_dict :: "json \<Rightarrow> bool" where
  "is_dict (JDict d) = True" | "is_dict _ = False"

fun is_list :: "json \<Rightarrow> bool" where
  "is_list (JList l) = True" | "is_list _ = False"

fun is_str :: "json \<Rightarrow> bool" where
  "is_str (JStr s) = True" | "is_str _ = False"

text \<open>\<open>isinstance(v, int)\<close>: a Python \<open>bool\<close> is an \<open>int\<close>.\<close>

fun is_int :: "json \<Rightarrow> bool" where
  "is_int (JInt i) = True" | "is_int (JBool b) = True" | "is_int _ = False"

fun is_bool :: "json \<Rightarrow> bool" where
  "is_bool (JBool b) = True" | "is_bool _ = False"

fun is_float :: "json \<Rightarrow> bool" where
  "is_float (JFloat r s) = True" | "is_float (JInf b) = True" | "is_float JNaN = True"
| "is_float _ = False"

fun dict_items :: "json \<Rightarrow> (string \<times> json) list" where
  "dict_items (JDict d) = d" | "dict_items _ = []"

definition jget :: "json \<Rightarrow> string \<Rightarrow> json option" where
  "jget j k = map_of (dict_items j) k"

text \<open>\<open>d.get(k, default)\<close>.\<close>

definition jget_or :: "json \<Rightarrow> string \<Rightarrow> json \<Rightarrow> json" where
  "jget_or j k d = (case jget j k of None \<Rightarrow> d | Some v \<Rightarrow> v)"

text \<open>\<open>r[k]\<close> on a parsed value, with a string key.\<close>

definition subscript :: "json \<Rightarrow> string \<Rightarrow> (py_error, json) res" where
  "subscript r k =
     (case r of
        JDict d \<Rightarrow> (case map_of d k of None \<Rightarrow> Inl (KeyError k) | Some v \<Rightarrow> Inr v)
      | _ \<Rightarrow> Inl (TypeError ''subscript''))"

text \<open>\<open>l[0]\<close> on a parsed value.\<close>

definition first_item :: "json \<Rightarrow> (py_error, json) res" where
  "first_item j =
     (case j of
        JList (x # xs) \<Rightarrow> Inr x
      | JList [] \<Rightarrow> Inl (IndexError ''list index out of range'')
      | JStr (c # s) \<Rightarrow> Inr (JStr [c])
      | JStr [] \<Rightarrow> Inl (IndexError ''string index out of range'')
      | JDict d \<Rightarrow> Inl (KeyError ''0'')
      | _ \<Rightarrow> Inl (TypeError ''object is not subscriptable''))"

fun truthy :: "json \<Rightarrow> bool" where
  "truthy JNull = False"
| "truthy (JBool b) = b"
| "truthy (JInt i) = (i \<noteq> 0)"
| "truthy (JFloat r s) = (r \<noteq> 0)"
| "truthy (JInf b) = True"
| "truthy JNaN = True"
| "truthy (JStr s) = (s \<noteq> [])"
| "truthy (JList l) = (l \<noteq> [])"
| "truthy (JDict d) = (d \<noteq> [])"

fun num_value :: "json \<Rightarrow> real option" where
  "num_value (JBool b) = Some (if b then 1 else 0)"
| "num_value (JInt i) = Some (of_int i)"
| "num_value (JFloat r s) = Some r"
| "num_value _ = None"

text \<open>\<open>a == b\<close>: numbers compare by value across \<open>bool\<close>, \<open>int\<close> and \<open>float\<close>.\<close>

fun py_eq :: "json \<Rightarrow> json \<Rightarrow> bool" and py_eqs :: "json list \<Rightarrow> json list \<Rightarrow> bool"
  and py_sub :: "(string \<times> json) list \<Rightarrow> (string \<times> json) list \<Rightarrow> bool" where
  "py_eq (JList xs) b = (case b of JList ys \<Rightarrow> py_eqs xs ys | _ \<Rightarrow> False)"
| "py_eq (JDict xs) b = (case b of JDict ys \<Rightarrow> length xs = length ys \<and> py_sub xs ys | _ \<Rightarrow> False)"
| "py_eq (JStr s) b = (b = JStr s)"
| "py_eq JNull b = (b = JNull)"
| "py_eq JNaN b = False"
| "py_eq (JInf p) b = (b = JInf p)"
| "py_eq a b = (num_value a \<noteq> None \<and> num_value a = num_value b)"
| "py_eqs [] ys = (ys = [])"
| "py_eqs (x # xs) ys = (case ys of [] \<Rightarrow> False | y # ys' \<Rightarrow> py_eq x y \<and> py_eqs xs ys')"
| "py_sub [] ys = True"
| "py_sub ((k, x) # xs) ys = ((case map_of ys k of None \<Rightarrow> False | Some y \<Rightarrow> py_eq x y) \<and> py_sub xs ys)"

fun dec_digits :: "nat \<Rightarrow> string" where
  "dec_digits n = (if n < 10 then [char_of (48 + n)] else dec_digits (n div 10) @ [char_of (48 + n mod 10)])"

declare dec_digits.simps [simp del]

definition int_str :: "int \<Rightarrow> string" where
  "int_str i = (if i < 0 then CHR ''-'' # dec_digits (nat (- i)) else dec_digits (nat i))"

definition hex_digit :: "nat \<Rightarrow> char" where
  "hex_digit n = (if n < 10 then char_of (48 + n) else char_of (87 + n))"

definition repr_char :: "char \<Rightarrow> char \<Rightarrow> string" where
  "repr_char q c =
     (let n = of_char c :: nat; bs = CHR 0x5C in
      if c = q \<or> c = bs then [bs, c]
      else if c = CHR 0x0A then [bs, CHR ''n'']
      else if c = CHR 0x0D then [bs, CHR ''r'']
      else if c = CHR 0x09 then [bs, CHR ''t'']
      else if n < 32 \<or> n = 127 then [bs, CHR ''x'', hex_digit (n div 16), hex_digit (n mod 16)]
      else [c])"

text \<open>\<open>repr(s)\<close>: single quotes unless the text has one and no double quote.\<close>

definition repr_str :: "string \<Rightarrow> string" where
  "repr_str s =
     (let q = (if CHR 0x27 \<in> set s \<and> CHR 0x22 \<notin> set s then CHR 0x22 else CHR 0x27)
      in [q] @ concat (map (repr_char q) s) @ [q])"

fun py_repr :: "json \<Rightarrow> string" where
  "py_repr JNull = ''None''"
| "py_repr (JBool b) = (if b then ''True'' else ''False'')"
| "py_repr (JInt i) = int_str i"
| "py_repr (JFloat r s) = s"
| "py_repr (JInf p) = (if p then ''inf'' else ''-inf'')"
| "py_repr JNaN = ''nan''"
| "py_repr (JStr s) = repr_str s"
| "py_repr (JList l) = ''['' @ concat (map (\<lambda>(i, x). (if i = 0 then [] else '', '') @ x)
                              (enumerate (0::nat) (map py_repr l))) @ '']''"
| "py_repr (JDict d) = ''{'' @ concat (map (\<lambda>(i, x). (if i = 0 then [] else '', '') @ x)
      (enumerate (0::nat) (map (\<lambda>(k, x). repr_str k @ '': '' @ py_repr x) d))) @ ''}''"

definition py_str :: "json \<Rightarrow> string" where
  "py_str j = (case j of JStr s \<Rightarrow> s | _ \<Rightarrow> py_repr j)"

lemma py_str_JStr [simp]: "py_str (JStr s) = s"
  by (simp add: py_str_def)

lemma jget_JDict [simp]: "jget (JDict d) k = map_of d k"
  by (simp add: jget_def)

lemma jget_not_dict: "\<not> is_dict j \<Longrightarrow> jget j k = None"
  by (cases j) (auto simp: jget_def)

lemma is_dict_iff: "is_dict j \<longleftrightarrow> (\<exists>d. j = JDict d)"
  by (cases j) auto

lemma py_eq_refl_str [simp]: "py_eq (JStr s) (JStr t) \<longleftrightarrow> s = t"
  by auto

lemma py_eq_JStr [simp]: "py_eq x (JStr s) \<longleftrightarrow> x = JStr s"
  by (cases x) auto

lemma jget_or_JDict [simp]: "jget_or (JDict d) k v = (case map_of d k of None \<Rightarrow> v | Some w \<Rightarrow> w)"
  by (simp add: jget_or_def)

section \<open>\<open>float()\<close> and \<open>int()\<close> of a parsed value\<close>

datatype pyfloat = PFin real | PInf bool | PNaN

text \<open>The least magnitude that rounds to an infinity in the 64-bit format.\<close>

definition float_overflow :: real where
  "float_overflow = 2 ^ 1024 - 2 ^ 970"

definition is_digit :: "char \<Rightarrow> bool" where
  "is_digit c = (let n = of_char c :: nat in 48 \<le> n \<and> n \<le> 57)"

text \<open>A run of digits in which single underscores may separate digits; \<open>None\<close> when it is not one.\<close>

fun digits_value :: "int \<Rightarrow> string \<Rightarrow> int option" where
  "digits_value acc [] = None"
| "digits_value acc [c] = (if is_digit c then Some (10 * acc + int (of_char c) - 48) else None)"
| "digits_value acc (c # d # s) =
     (if is_digit c then
        if d = CHR ''_'' then digits_value (10 * acc + int (of_char c) - 48) s
        else digits_value (10 * acc + int (of_char c) - 48) (d # s)
      else None)"

definition split_sign :: "string \<Rightarrow> int \<times> string" where
  "split_sign s = (case s of
      [] \<Rightarrow> (1, [])
    | c # r \<Rightarrow> if c = CHR ''-'' then (- 1, r) else if c = CHR ''+'' then (1, r) else (1, s))"

definition int_of_str :: "string \<Rightarrow> int option" where
  "int_of_str s = (let (sg, r) = split_sign (str_strip s) in map_option (\<lambda>n. sg * n) (digits_value 0 r))"

definition opt_digits :: "string \<Rightarrow> (int \<times> nat) option" where
  "opt_digits s = (if s = [] then Some (0, 0)
     else map_option (\<lambda>n. (n, length (filter is_digit s))) (digits_value 0 s))"

definition decimal_value :: "string \<Rightarrow> real option" where
  "decimal_value s =
     (let mant = takeWhile (\<lambda>c. c \<noteq> CHR ''e'') s; ex = drop (length mant) s;
          ip = takeWhile (\<lambda>c. c \<noteq> CHR ''.'') mant; fp = drop (Suc (length ip)) mant;
          e = (case ex of [] \<Rightarrow> Some 0 | _ # t \<Rightarrow> (let (sg, r) = split_sign t in map_option (\<lambda>n. sg * n) (digits_value 0 r)))
      in if ip = [] \<and> fp = [] then None
         else case (opt_digits ip, opt_digits fp, e) of
                (Some (i, _), Some (f, n), Some x) \<Rightarrow>
                  Some ((of_int i + of_int f / 10 ^ n) * (if 0 \<le> x then 10 ^ nat x else 1 / 10 ^ nat (- x)))
              | _ \<Rightarrow> None)"

definition float_of_str :: "string \<Rightarrow> pyfloat option" where
  "float_of_str s =
     (let (sg, r) = split_sign (str_lower (str_strip s)) in
      if r = ''inf'' \<or> r = ''infinity'' then Some (PInf (sg = 1))
      else if r = ''nan'' then Some PNaN
      else case decimal_value r of
             None \<Rightarrow> None
           | Some v \<Rightarrow> Some (if v \<ge> float_overflow then PInf (sg = 1) else PFin (of_int sg * v)))"

text \<open>\<open>float(v)\<close>.\<close>

definition float_of_json :: "json \<Rightarrow> (py_error, pyfloat) res" where
  "float_of_json v = (case v of
      JBool b \<Rightarrow> Inr (PFin (if b then 1 else 0))
    | JInt i \<Rightarrow> if \<bar>of_int i\<bar> \<ge> float_overflow then Inl (OverflowError ''int too large to convert to float'')
                else Inr (PFin (of_int i))
    | JFloat r s \<Rightarrow> Inr (PFin r)
    | JInf p \<Rightarrow> Inr (PInf p)
    | JNaN \<Rightarrow> Inr PNaN
    | JStr s \<Rightarrow> (case float_of_str s of Some x \<Rightarrow> Inr x
                 | None \<Rightarrow> Inl (ValueError ''could not convert string to float''))
    | _ \<Rightarrow> Inl (TypeError ''float() argument''))"

text \<open>\<open>int(v)\<close>.\<close>

definition int_of_json :: "json \<Rightarrow> (py_error, int) res" where
  "int_of_json v = (case v of
      JBool b \<Rightarrow> Inr (if b then 1 else 0)
    | JInt i \<Rightarrow> Inr i
    | JFloat r s \<Rightarrow> Inr (py_int r)
    | JInf p \<Rightarrow> Inl (OverflowError ''cannot convert float infinity to integer'')
    | JNaN \<Rightarrow> Inl (ValueError ''cannot convert float NaN to integer'')
    | JStr s \<Rightarrow> (case int_of_str s of Some i \<Rightarrow> Inr i
                 | None \<Rightarrow> Inl (ValueError ''invalid literal for int()''))
    | _ \<Rightarrow> Inl (TypeError ''int() argument''))"

text \<open>The comparisons of a float with zero; a comparison with a NaN is false.\<close>

fun pyfloat_le0 :: "pyfloat \<Rightarrow> bool" where
  "pyfloat_le0 (PFin r) = (r \<le> 0)"
| "pyfloat_le0 (PInf p) = (\<not> p)"
| "pyfloat_le0 PNaN = False"

text \<open>The handler \<open>except (TypeError, ValueError)\<close>: other exceptions pass.\<close>

fun caught_type_value :: "py_error \<Rightarrow> bool" where
  "caught_type_value (TypeError m) = True"
| "caught_type_value (ValueError m) = True"
| "caught_type_value _ = False"

section \<open>Objects without duplicate keys\<close>

text \<open>A parsed object is a dictionary: every key occurs once, at every level.\<close>

fun json_wf :: "json \<Rightarrow> bool" where
  "json_wf (JList l) = list_all json_wf l"
| "json_wf (JDict d) = (distinct (map fst d) \<and> list_all (\<lambda>(k, v). json_wf v) d)"
| "json_wf _ = True"

lemma json_wf_item: "json_wf (JDict d) \<Longrightarrow> map_of d k = Some v \<Longrightarrow> json_wf v"
  by (auto simp: list_all_iff dest!: map_of_SomeD)

lemma json_wf_distinct: "json_wf (JDict d) \<Longrightarrow> distinct (map fst d)"
  by simp

fun type_name :: "json \<Rightarrow> string" where
  "type_name JNull = ''NoneType''"
| "type_name (JBool b) = ''bool''"
| "type_name (JInt i) = ''int''"
| "type_name (JFloat r s) = ''float''"
| "type_name (JInf p) = ''float''"
| "type_name JNaN = ''float''"
| "type_name (JStr s) = ''str''"
| "type_name (JList l) = ''list''"
| "type_name (JDict d) = ''dict''"

section \<open>Paths\<close>

text \<open>\<open>os.path.basename\<close>: what follows the last slash.\<close>

definition basename :: "string \<Rightarrow> string" where
  "basename p = rev (takeWhile (\<lambda>c. c \<noteq> CHR ''/'') (rev p))"

text \<open>\<open>os.path.splitext(p)[1]\<close>: from the last dot of the base name, its leading dots apart.\<close>

definition splitext_ext :: "string \<Rightarrow> string" where
  "splitext_ext p =
     (let b = dropWhile (\<lambda>c. c = CHR ''.'') (basename p) in
      if CHR ''.'' \<in> set b then CHR ''.'' # rev (takeWhile (\<lambda>c. c \<noteq> CHR ''.'') (rev b)) else [])"

end
