(* ===== verification/Token_Quota.thy ===== *)
theory Token_Quota
  imports Json
begin

text \<open>
  Daily token accounting of \<open>core/token_quota.py\<close>: the process-local tracker with its
  LRU-capped registry, the Redis tracker with its \<open>INCRBY\<close> script and midnight key, and
  the normalisation of the providers' usage reports.  Both trackers satisfy one contract
  (locale \<open>quota_backend\<close>): a tenant's usage is the sum of what was recorded for it that
  day.

  Time is the number of seconds since the epoch (UTC); a calendar day is its ordinal, the
  ISO text of which the code uses for equality and as the tail of the Redis key.
\<close>

section \<open>Definitions from the code\<close>

definition today_utc :: "real \<Rightarrow> int" where
  "today_utc t = \<lfloor>t / 86400\<rfloor>"

definition seconds_until_utc_midnight :: "real \<Rightarrow> real" where
  "seconds_until_utc_midnight t =
     (let next_midnight = of_int (today_utc t + 1) * 86400 in max 0 (next_midnight - t))"

record tenant_usage =
  tu_day :: int
  tu_tokens :: int

record local_tracker =
  lt_max_tracked :: nat
  lt_usage :: "(string, tenant_usage) odict"

definition local_tracker_init :: "nat \<Rightarrow> local_tracker" where
  "local_tracker_init m = \<lparr>lt_max_tracked = m, lt_usage = []\<rparr>"

definition get_current :: "local_tracker \<Rightarrow> string \<Rightarrow> int \<Rightarrow> tenant_usage \<times> local_tracker" where
  "get_current s tenant today =
     (let fresh = \<lparr>tu_day = today, tu_tokens = 0\<rparr>;
          renew = s\<lparr>lt_usage := od_evict (lt_max_tracked s) (od_set tenant fresh (lt_usage s))\<rparr>
      in case od_get (lt_usage s) tenant of
           None \<Rightarrow> (fresh, renew)
         | Some u \<Rightarrow>
             if tu_day u \<noteq> today then (fresh, renew)
             else (u, s\<lparr>lt_usage := od_move_to_end tenant (lt_usage s)\<rparr>))"

definition local_would_exceed :: "local_tracker \<Rightarrow> string \<Rightarrow> int \<Rightarrow> int \<Rightarrow> bool \<times> local_tracker" where
  "local_would_exceed s tenant quota today =
     (if quota \<le> 0 then (False, s)
      else let (u, s') = get_current s tenant today in (tu_tokens u \<ge> quota, s'))"

definition local_usage_today :: "local_tracker \<Rightarrow> string \<Rightarrow> int \<Rightarrow> int \<times> local_tracker" where
  "local_usage_today s tenant today =
     (let (u, s') = get_current s tenant today in (tu_tokens u, s'))"

definition local_record :: "local_tracker \<Rightarrow> string \<Rightarrow> int \<Rightarrow> int \<Rightarrow> local_tracker" where
  "local_record s tenant tokens today =
     (if tokens \<le> 0 then s
      else let (u, s') = get_current s tenant today
           in s'\<lparr>lt_usage := od_set_if_present tenant (u\<lparr>tu_tokens := tu_tokens u + tokens\<rparr>) (lt_usage s')\<rparr>)"

definition local_tracker_reset :: "local_tracker \<Rightarrow> local_tracker" where
  "local_tracker_reset s = s\<lparr>lt_usage := []\<rparr>"

text \<open>
  The Redis key \<open>gatekeeper:quota:<tenant>:<day>\<close> is the pair of tenant and day; its entry
  is the counter and the time it expires, if a TTL was set.
\<close>

type_synonym quota_store = "(string \<times> int, int \<times> real option) odict"

definition quota_live :: "real \<Rightarrow> quota_store \<Rightarrow> string \<times> int \<Rightarrow> (int \<times> real option) option" where
  "quota_live t d key =
     (case od_get d key of None \<Rightarrow> None
      | Some (v, e) \<Rightarrow> (case e of None \<Rightarrow> Some (v, e) | Some x \<Rightarrow> if t < x then Some (v, e) else None))"

definition lua_record_quota :: "real \<Rightarrow> string \<times> int \<Rightarrow> int \<Rightarrow> int \<Rightarrow> quota_store \<Rightarrow> int \<times> quota_store" where
  "lua_record_quota t key tokens ttl d =
     (let (v, e) = (case quota_live t d key of None \<Rightarrow> (0, None) | Some p \<Rightarrow> p);
          current = v + tokens;
          e' = (if current = tokens then Some (t + of_int ttl) else e)
      in (current, od_set key (current, e') d))"

record redis_tracker =
  rt_fallback :: local_tracker
  rt_store :: quota_store

definition quota_key :: "string \<Rightarrow> real \<Rightarrow> string \<times> int" where
  "quota_key tenant t = (tenant, today_utc t)"

definition redis_would_exceed :: "bool \<Rightarrow> real \<Rightarrow> redis_tracker \<Rightarrow> string \<Rightarrow> int \<Rightarrow> bool \<times> redis_tracker" where
  "redis_would_exceed up t s tenant quota =
     (if quota \<le> 0 then (False, s)
      else if up then
        let used = (case quota_live t (rt_store s) (quota_key tenant t) of None \<Rightarrow> 0 | Some (v, e) \<Rightarrow> v)
        in (used \<ge> quota, s)
      else let (b, fb) = local_would_exceed (rt_fallback s) tenant quota (today_utc t)
           in (b, s\<lparr>rt_fallback := fb\<rparr>))"

definition redis_usage_today :: "bool \<Rightarrow> real \<Rightarrow> redis_tracker \<Rightarrow> string \<Rightarrow> int \<times> redis_tracker" where
  "redis_usage_today up t s tenant =
     (if up then
        (case quota_live t (rt_store s) (quota_key tenant t) of None \<Rightarrow> 0 | Some (v, e) \<Rightarrow> v, s)
      else let (n, fb) = local_usage_today (rt_fallback s) tenant (today_utc t)
           in (n, s\<lparr>rt_fallback := fb\<rparr>))"

definition redis_record :: "bool \<Rightarrow> real \<Rightarrow> redis_tracker \<Rightarrow> string \<Rightarrow> int \<Rightarrow> redis_tracker" where
  "redis_record up t s tenant tokens =
     (if tokens \<le> 0 then s
      else
        let ttl = \<lfloor>seconds_until_utc_midnight t\<rfloor> + 86400
        in if up
           then s\<lparr>rt_store := snd (lua_record_quota t (quota_key tenant t) tokens ttl (rt_store s))\<rparr>
           else s\<lparr>rt_fallback := local_record (rt_fallback s) tenant tokens (today_utc t)\<rparr>)"

definition redis_tracker_reset :: "bool \<Rightarrow> redis_tracker \<Rightarrow> redis_tracker" where
  "redis_tracker_reset up s =
     \<lparr>rt_fallback = local_tracker_reset (rt_fallback s), rt_store = (if up then [] else rt_store s)\<rparr>"

datatype tracker_choice = RedisTracker redis_tracker | LocalTracker local_tracker

definition build_token_quota_tracker :: "nat \<Rightarrow> quota_store \<Rightarrow> bool \<Rightarrow> bool \<Rightarrow> tracker_choice" where
  "build_token_quota_tracker m store client_given pool_client =
     (if client_given \<or> pool_client
      then RedisTracker \<lparr>rt_fallback = local_tracker_init m, rt_store = store\<rparr>
      else LocalTracker (local_tracker_init m))"

text \<open>Python's \<open>+\<close> on two JSON values, as far as the token normalisation uses it.\<close>

datatype py_num = PInt int | PReal real | PInf bool | PNaN

fun as_num :: "json \<Rightarrow> py_num option" where
  "as_num (JBool b) = Some (PInt (if b then 1 else 0))"
| "as_num (JInt i) = Some (PInt i)"
| "as_num (JFloat r s) = Some (PReal r)"
| "as_num (JInf p) = Some (PInf p)"
| "as_num JNaN = Some PNaN"
| "as_num _ = None"

fun num_add :: "py_num \<Rightarrow> py_num \<Rightarrow> py_num" where
  "num_add (PInt a) (PInt b) = PInt (a + b)"
| "num_add PNaN _ = PNaN"
| "num_add _ PNaN = PNaN"
| "num_add (PInf p) (PInf q) = (if p = q then PInf p else PNaN)"
| "num_add (PInf p) _ = PInf p"
| "num_add _ (PInf q) = PInf q"
| "num_add (PInt a) (PReal b) = PReal (of_int a + b)"
| "num_add (PReal a) (PInt b) = PReal (a + of_int b)"
| "num_add (PReal a) (PReal b) = PReal (a + b)"

definition py_or0 :: "json \<Rightarrow> json" where
  "py_or0 j = (if truthy j then j else JInt 0)"

definition extract_total_tokens :: "json \<Rightarrow> (py_error, py_num) res" where
  "extract_total_tokens usage =
     (if \<not> is_dict usage then Inr (PInt 0)
      else
        let total = jget_or usage ''total_tokens'' JNull in
        if is_int total then (case as_num total of Some n \<Rightarrow> Inr n | None \<Rightarrow> Inr (PInt 0))
        else
          let input_tokens = jget_or usage ''input_tokens'' JNull;
              output_tokens = jget_or usage ''output_tokens'' JNull
          in if is_int input_tokens \<or> is_int output_tokens
             then (case (as_num (py_or0 input_tokens), as_num (py_or0 output_tokens)) of
                     (Some a, Some b) \<Rightarrow> Inr (num_add a b)
                   | _ \<Rightarrow> Inl (TypeError ''unsupported operand type(s) for +''))
             else Inr (PInt 0))"

section \<open>The contract of a quota tracker\<close>

datatype quota_op = Record string int | Exceed string int

fun recorded :: "string \<Rightarrow> quota_op list \<Rightarrow> int" where
  "recorded i [] = 0"
| "recorded i (Record j n # ops) = (if i = j \<and> 0 < n then n else 0) + recorded i ops"
| "recorded i (Exceed j q # ops) = recorded i ops"

text \<open>
  A day's operations against a tracker, each at its time; the answers of the quota checks
  come out in order.
\<close>

fun run_quota ::
  "('s \<Rightarrow> real \<Rightarrow> string \<Rightarrow> int \<Rightarrow> 's) \<Rightarrow> ('s \<Rightarrow> real \<Rightarrow> string \<Rightarrow> int \<Rightarrow> bool \<times> 's) \<Rightarrow>
   's \<Rightarrow> (real \<times> quota_op) list \<Rightarrow> bool list \<times> 's" where
  "run_quota rec exc s [] = ([], s)"
| "run_quota rec exc s ((t, Record i n) # ops) = run_quota rec exc (rec s t i n) ops"
| "run_quota rec exc s ((t, Exceed i q) # ops) =
     (case exc s t i q of (b, s') \<Rightarrow> (case run_quota rec exc s' ops of (bs, s'') \<Rightarrow> (b # bs, s'')))"

text \<open>The same answers from the sums alone.\<close>

fun spec_quota :: "(string \<Rightarrow> int) \<Rightarrow> (real \<times> quota_op) list \<Rightarrow> bool list" where
  "spec_quota m [] = []"
| "spec_quota m ((t, Record i n) # ops) = spec_quota (m(i := m i + (if 0 < n then n else 0))) ops"
| "spec_quota m ((t, Exceed i q) # ops) = (0 < q \<and> q \<le> m i) # spec_quota m ops"

fun op_tenant :: "quota_op \<Rightarrow> string" where
  "op_tenant (Record i n) = i" | "op_tenant (Exceed i q) = i"

locale quota_backend =
  fixes rec :: "'s \<Rightarrow> real \<Rightarrow> string \<Rightarrow> int \<Rightarrow> 's"
    and exc :: "'s \<Rightarrow> real \<Rightarrow> string \<Rightarrow> int \<Rightarrow> bool \<times> 's"
    and used :: "'s \<Rightarrow> int \<Rightarrow> string \<Rightarrow> int"
    and inv :: "'s \<Rightarrow> int \<Rightarrow> bool"
    and ids :: "string set"
  assumes rec_used: "inv s d \<Longrightarrow> today_utc t = d \<Longrightarrow> i \<in> ids \<Longrightarrow> j \<in> ids \<Longrightarrow>
        used (rec s t i n) d j = used s d j + (if j = i \<and> 0 < n then n else 0)"
    and rec_inv: "inv s d \<Longrightarrow> today_utc t = d \<Longrightarrow> i \<in> ids \<Longrightarrow> inv (rec s t i n) d"
    and exc_answer: "inv s d \<Longrightarrow> today_utc t = d \<Longrightarrow> i \<in> ids \<Longrightarrow>
        fst (exc s t i q) \<longleftrightarrow> 0 < q \<and> q \<le> used s d i"
    and exc_used: "inv s d \<Longrightarrow> today_utc t = d \<Longrightarrow> i \<in> ids \<Longrightarrow> j \<in> ids \<Longrightarrow>
        used (snd (exc s t i q)) d j = used s d j"
    and exc_inv: "inv s d \<Longrightarrow> today_utc t = d \<Longrightarrow> i \<in> ids \<Longrightarrow> inv (snd (exc s t i q)) d"
begin

lemma used_run:
  assumes "inv s d" "\<forall>(t, x) \<in> set ops. today_utc t = d \<and> op_tenant x \<in> ids" "i \<in> ids"
  shows "used (snd (run_quota rec exc s ops)) d i = used s d i + recorded i (map snd ops)"
  using assms(1,2)
proof (induction ops arbitrary: s)
  case Nil
  then show ?case by simp
next
  case (Cons e ops)
  obtain t x where e: "e = (t, x)" by (cases e)
  show ?case
  proof (cases x)
    case (Record j n)
    then show ?thesis
      using Cons e rec_used [of s d t j i n] rec_inv [of s d t j n] assms(3) by auto
  next
    case (Exceed j q)
    obtain b s' where st: "exc s t j q = (b, s')" by (cases "exc s t j q")
    have "used (snd (run_quota rec exc s' ops)) d i = used s' d i + recorded i (map snd ops)"
      using Cons.prems e Exceed st exc_inv [of s d t j q] by (intro Cons.IH) auto
    moreover have "used s' d i = used s d i"
      using Cons.prems e Exceed st exc_used [of s d t j i q] assms(3) by auto
    ultimately show ?thesis using e Exceed st by (simp add: case_prod_unfold)
  qed
qed

lemma answers_run:
  assumes "inv s d" "\<forall>(t, x) \<in> set ops. today_utc t = d \<and> op_tenant x \<in> ids"
    "\<And>i. i \<in> ids \<Longrightarrow> m i = used s d i"
  shows "fst (run_quota rec exc s ops) = spec_quota m ops"
  using assms
proof (induction ops arbitrary: s m)
  case Nil
  then show ?case by simp
next
  case (Cons e ops)
  obtain t x where e: "e = (t, x)" by (cases e)
  show ?case
  proof (cases x)
    case (Record j n)
    have "fst (run_quota rec exc (rec s t j n) ops) = spec_quota (m(j := m j + (if 0 < n then n else 0))) ops"
      using Cons.prems e Record rec_inv [of s d t j n]
      by (intro Cons.IH) (auto simp: rec_used)
    with e Record show ?thesis by simp
  next
    case (Exceed j q)
    obtain b s' where st: "exc s t j q = (b, s')" by (cases "exc s t j q")
    have "fst (run_quota rec exc s' ops) = spec_quota m ops"
      using Cons.prems e Exceed st exc_inv [of s d t j q] exc_used [of s d t j _ q]
      by (intro Cons.IH) auto
    with e Exceed st exc_answer [of s d t j q] Cons.prems show ?thesis
      by (auto simp: case_prod_unfold)
  qed
qed

end

section \<open>Both trackers keep the contract\<close>

definition local_rec :: "local_tracker \<Rightarrow> real \<Rightarrow> string \<Rightarrow> int \<Rightarrow> local_tracker" where
  "local_rec s t i n = local_record s i n (today_utc t)"

definition local_exc :: "local_tracker \<Rightarrow> real \<Rightarrow> string \<Rightarrow> int \<Rightarrow> bool \<times> local_tracker" where
  "local_exc s t i q = local_would_exceed s i q (today_utc t)"

text \<open>What the registry holds for a tenant on a day: a stale day counts as nothing.\<close>

definition local_used :: "local_tracker \<Rightarrow> int \<Rightarrow> string \<Rightarrow> int" where
  "local_used s d i =
     (case od_get (lt_usage s) i of None \<Rightarrow> 0 | Some u \<Rightarrow> if tu_day u = d then tu_tokens u else 0)"

definition local_tracker_inv :: "string set \<Rightarrow> local_tracker \<Rightarrow> int \<Rightarrow> bool" where
  "local_tracker_inv ids s d \<longleftrightarrow>
     od_wf (lt_usage s) \<and> od_keys (lt_usage s) \<subseteq> ids \<and> finite ids \<and> card ids \<le> lt_max_tracked s"

definition redis_rec :: "redis_tracker \<Rightarrow> real \<Rightarrow> string \<Rightarrow> int \<Rightarrow> redis_tracker" where
  "redis_rec s t i n = redis_record True t s i n"

definition redis_exc :: "redis_tracker \<Rightarrow> real \<Rightarrow> string \<Rightarrow> int \<Rightarrow> bool \<times> redis_tracker" where
  "redis_exc s t i q = redis_would_exceed True t s i q"

definition redis_used :: "redis_tracker \<Rightarrow> int \<Rightarrow> string \<Rightarrow> int" where
  "redis_used s d i = (case od_get (rt_store s) (i, d) of None \<Rightarrow> 0 | Some (v, e) \<Rightarrow> v)"

text \<open>Every counter of the day lives past the end of the day and is positive.\<close>

definition redis_tracker_inv :: "redis_tracker \<Rightarrow> int \<Rightarrow> bool" where
  "redis_tracker_inv s d \<longleftrightarrow>
     (\<forall>i v e. od_get (rt_store s) (i, d) = Some (v, e) \<longrightarrow>
        0 < v \<and> (\<exists>x. e = Some x \<and> of_int (d + 1) * 86400 \<le> x))"

lemma local_tracker_no_evict:
  assumes "local_tracker_inv ids s d" "i \<in> ids"
  shows "od_evict (lt_max_tracked s) (od_set i u (lt_usage s)) = od_set i u (lt_usage s)"
proof -
  have "length (od_set i u (lt_usage s)) = card (insert i (od_keys (lt_usage s)))"
    using assms by (subst length_od_wf) (auto simp: local_tracker_inv_def)
  also have "\<dots> \<le> card ids"
    using assms by (intro card_mono) (auto simp: local_tracker_inv_def)
  finally show ?thesis using assms by (intro od_evict_id) (auto simp: local_tracker_inv_def)
qed

lemma get_current_effect:
  assumes "local_tracker_inv ids s d" "i \<in> ids" "get_current s i d = (u, s')"
  shows "tu_tokens u = local_used s d i" "tu_day u = d" "od_get (lt_usage s') i = Some u"
    "local_used s' d j = local_used s d j" "local_tracker_inv ids s' d"
proof -
  note ne = local_tracker_no_evict [OF assms(1,2)]
  have s': "(od_get (lt_usage s) i = Some u \<and> tu_day u = d \<and> s' = s\<lparr>lt_usage := od_move_to_end i (lt_usage s)\<rparr>)
    \<or> (local_used s d i = 0 \<and> u = \<lparr>tu_day = d, tu_tokens = 0\<rparr> \<and> s' = s\<lparr>lt_usage := od_set i u (lt_usage s)\<rparr>)"
    using assms(3) ne by (auto simp: get_current_def local_used_def Let_def split: option.splits if_splits)
  show "tu_tokens u = local_used s d i" "tu_day u = d" "od_get (lt_usage s') i = Some u"
    using s' by (auto simp: local_used_def)
  show "local_used s' d j = local_used s d j"
    using s' by (cases "j = i") (auto simp: local_used_def)
  show "local_tracker_inv ids s' d"
    using s' assms(1,2) by (auto simp: local_tracker_inv_def)
qed

lemma local_rec_effect:
  assumes "local_tracker_inv ids s d" "i \<in> ids" "today_utc t = d"
  shows "local_used (local_rec s t i n) d j = local_used s d j + (if j = i \<and> 0 < n then n else 0)"
    and "local_tracker_inv ids (local_rec s t i n) d"
proof -
  obtain u s' where g: "get_current s i d = (u, s')" by (cases "get_current s i d")
  note e = get_current_effect [OF assms(1,2) g]
  have r: "local_rec s t i n = (if n \<le> 0 then s
      else s'\<lparr>lt_usage := od_set i (u\<lparr>tu_tokens := tu_tokens u + n\<rparr>) (lt_usage s')\<rparr>)"
    using g e(3) assms(3) by (simp add: local_rec_def local_record_def od_set_if_present_def)
  show "local_used (local_rec s t i n) d j = local_used s d j + (if j = i \<and> 0 < n then n else 0)"
    using r e(1,2) e(4) [of j] by (cases "j = i") (auto simp: local_used_def)
  show "local_tracker_inv ids (local_rec s t i n) d"
    using r e(5) assms(1,2) by (auto simp: local_tracker_inv_def)
qed

interpretation local_quota:
  quota_backend local_rec local_exc local_used "local_tracker_inv ids" ids for ids
proof (unfold_locales, goal_cases)
  case (1 s d t i j n)
  then show ?case by (intro local_rec_effect(1))
next
  case (2 s d t i n)
  then show ?case by (intro local_rec_effect(2))
next
  case (3 s d t i q)
  obtain u s' where g: "get_current s i d = (u, s')" by (cases "get_current s i d")
  show ?case using get_current_effect(1) [OF 3(1,3) g] g 3(2)
    by (auto simp: local_exc_def local_would_exceed_def)
next
  case (4 s d t i j q)
  obtain u s' where g: "get_current s i d = (u, s')" by (cases "get_current s i d")
  show ?case using get_current_effect(4) [OF 4(1,3) g] g 4(2)
    by (auto simp: local_exc_def local_would_exceed_def)
next
  case (5 s d t i q)
  obtain u s' where g: "get_current s i d = (u, s')" by (cases "get_current s i d")
  show ?case using get_current_effect(5) [OF 5(1,3) g] g 5(1,2)
    by (auto simp: local_exc_def local_would_exceed_def)
qed

lemma day_bounds: "today_utc t = d \<Longrightarrow> of_int d * 86400 \<le> t \<and> t < of_int (d + 1) * 86400"
  unfolding today_utc_def
  by (auto simp: floor_eq_iff field_simps)

lemma quota_ttl_outlives_day:
  assumes "today_utc t = d"
  shows "of_int (d + 1) * 86400 \<le> t + of_int (\<lfloor>seconds_until_utc_midnight t\<rfloor> + 86400)"
proof -
  have "of_int (d + 1) * 86400 - t \<le> seconds_until_utc_midnight t"
    using assms by (simp add: seconds_until_utc_midnight_def Let_def)
  moreover have "seconds_until_utc_midnight t < of_int \<lfloor>seconds_until_utc_midnight t\<rfloor> + 1"
    by linarith
  ultimately show ?thesis unfolding of_int_add of_int_1 of_int_numeral by linarith
qed

lemma quota_live_eq:
  assumes "redis_tracker_inv s d" "today_utc t = d"
  shows "quota_live t (rt_store s) (i, d) = od_get (rt_store s) (i, d)"
proof (cases "od_get (rt_store s) (i, d)")
  case None
  then show ?thesis by (simp add: quota_live_def)
next
  case (Some p)
  obtain v e where "p = (v, e)" by (cases p)
  with Some assms(1) obtain x where "e = Some x" "of_int (d + 1) * 86400 \<le> x"
    unfolding redis_tracker_inv_def by blast
  with Some \<open>p = (v, e)\<close> day_bounds [OF assms(2)] show ?thesis by (simp add: quota_live_def)
qed

interpretation redis_quota:
  quota_backend redis_rec redis_exc redis_used redis_tracker_inv ids for ids
proof (unfold_locales, goal_cases)
  case (1 s d t i j n)
  then show ?case
    using quota_live_eq [OF 1(1,2), of i]
    by (cases "j = i")
      (auto simp: redis_rec_def redis_record_def redis_used_def quota_key_def lua_record_quota_def Let_def
        split: option.splits prod.splits)
next
  case (2 s d t i n)
  then show ?case
    using quota_live_eq [OF 2(1,2), of i] quota_ttl_outlives_day [OF 2(2)]
    by (auto intro: add_pos_pos simp: redis_rec_def redis_record_def redis_tracker_inv_def quota_key_def
        lua_record_quota_def Let_def split: option.splits prod.splits if_splits)
next
  case (3 s d t i q)
  then show ?case
    using quota_live_eq [OF 3(1,2), of i]
    by (auto simp: redis_exc_def redis_would_exceed_def redis_used_def quota_key_def
        split: option.splits)
next
  case (4 s d t i j q)
  then show ?case by (auto simp: redis_exc_def redis_would_exceed_def)
next
  case (5 s d t i q)
  then show ?case by (auto simp: redis_exc_def redis_would_exceed_def)
qed

section \<open>Properties\<close>

text \<open>
  C37. Quota enforcement is exact on both backends, whatever earlier days left behind: over the
  operations of one day by tenants the local tracker has room for, none of them evicted, and with
  Redis answering every call, the answers to the quota checks are those computed
  from the running sums of the recorded positive counts of that day, and the usage at the end
  is that sum.
\<close>

theorem quota_accounting_exact:
  assumes "local_tracker_inv ids s d" "redis_tracker_inv r d" "i \<in> ids"
    and "\<forall>(t, x) \<in> set ops. today_utc t = d \<and> op_tenant x \<in> ids"
  shows "fst (run_quota local_rec local_exc s ops) = spec_quota (local_used s d) ops
    \<and> fst (run_quota redis_rec redis_exc r ops) = spec_quota (redis_used r d) ops
    \<and> local_used (snd (run_quota local_rec local_exc s ops)) d i = local_used s d i + recorded i (map snd ops)
    \<and> redis_used (snd (run_quota redis_rec redis_exc r ops)) d i = redis_used r d i + recorded i (map snd ops)"
  using local_quota.answers_run [OF assms(1,4)] redis_quota.answers_run [OF assms(2,4)]
    local_quota.used_run [OF assms(1,4,3)] redis_quota.used_run [OF assms(2,4,3)]
  by simp

theorem quota_accounting_exact_witness:
  "let s = \<lparr>lt_max_tracked = 3, lt_usage = [(''acme'', \<lparr>tu_day = -1, tu_tokens = 500\<rparr>)]\<rparr>
   in fst (run_quota local_rec local_exc s
     [(10, Record ''acme'' 60), (20, Exceed ''acme'' 100), (30, Record ''acme'' 40), (40, Exceed ''acme'' 100)])
   = [False, True]"
  using quota_accounting_exact [of "{''acme''}"
      "\<lparr>lt_max_tracked = 3, lt_usage = [(''acme'', \<lparr>tu_day = -1, tu_tokens = 500\<rparr>)]\<rparr>" 0
      "\<lparr>rt_fallback = local_tracker_init 3, rt_store = []\<rparr>" "''acme''"
      "[(10, Record ''acme'' 60), (20, Exceed ''acme'' 100), (30, Record ''acme'' 40), (40, Exceed ''acme'' 100)]"]
  by (simp add: today_utc_def local_tracker_inv_def redis_tracker_inv_def od_wf_def local_used_def)

text \<open>
  The daily rollover breaks the LRU order: assigning the fresh counter to a key that is
  already present keeps its old position, so the tenant that has just used its quota is the
  first one evicted, and its quota check then passes again on the same day.
\<close>

theorem rollover_forgets_active_tenant:
  "let s0 = local_record (local_record (local_tracker_init 2) ''a'' 1 0) ''b'' 1 0;
       s1 = local_record s0 ''a'' 100 1;
       s2 = local_record s1 ''c'' 1 1
   in fst (local_would_exceed s1 ''a'' 100 1) \<and> \<not> fst (local_would_exceed s2 ''a'' 100 1)
      \<and> od_keys (lt_usage s2) = {''b'', ''c''}"
  by (auto simp: local_record_def local_would_exceed_def get_current_def local_tracker_init_def
      od_set_def od_set_if_present_def od_move_to_end_def od_del_def Let_def)

text \<open>
  When usage extraction raises: exactly when one of the two counts is an integer and the
  other is a truthy value that is not a number.  Every other shape yields a number.
\<close>

theorem extract_total_tokens_raises_iff:
  "(\<exists>e. extract_total_tokens u = Inl e) \<longleftrightarrow>
     is_dict u \<and> \<not> is_int (jget_or u ''total_tokens'' JNull)
     \<and> ((is_int (jget_or u ''input_tokens'' JNull) \<and> truthy (jget_or u ''output_tokens'' JNull)
           \<and> as_num (jget_or u ''output_tokens'' JNull) = None)
        \<or> (is_int (jget_or u ''output_tokens'' JNull) \<and> truthy (jget_or u ''input_tokens'' JNull)
           \<and> as_num (jget_or u ''input_tokens'' JNull) = None))"
proof -
  have num: "is_int j \<Longrightarrow> as_num j \<noteq> None" for j by (cases j) auto
  have or0: "as_num (py_or0 j) = None \<longleftrightarrow> truthy j \<and> as_num j = None" for j
    by (auto simp: py_or0_def)
  show ?thesis
    using num [of "jget_or u ''input_tokens'' JNull"] num [of "jget_or u ''output_tokens'' JNull"]
      or0 [of "jget_or u ''input_tokens'' JNull"] or0 [of "jget_or u ''output_tokens'' JNull"]
    by (auto simp: extract_total_tokens_def Let_def split: option.splits prod.splits)
qed

end
