(* ===== verification/Circuit_Breaker.thy ===== *)
theory Circuit_Breaker
  imports Prelude
begin

text \<open>
  The circuit breaker of \<open>core/circuit_breaker.py\<close> that guards the judge backends: the
  process-local state, the two Lua scripts on the shared Redis state, the fallback from the
  one to the other, and the read-only views that \<open>/health\<close> and the metrics use.

  \<open>now\<close> is the process clock, \<open>t\<close> the Redis server clock; \<open>up\<close> says whether the Redis
  calls of the operation succeed (a failing call raises before it has an effect, and the
  operation falls through to the local state).
\<close>

section \<open>Definitions from the code\<close>

record breaker =
  cb_threshold :: int
  cb_cooldown :: real
  cb_opened_at :: "real option"
  cb_fails :: int
  cb_uses_redis :: bool

text \<open>The two Redis keys of a breaker: a value with the time it expires.\<close>

record shared_state =
  sh_opened :: "(real \<times> real) option"
  sh_fails :: "(int \<times> real) option"

definition live_value :: "real \<Rightarrow> ('a \<times> real) option \<Rightarrow> 'a option" where
  "live_value t e = (case e of None \<Rightarrow> None | Some (v, x) \<Rightarrow> if t < x then Some v else None)"

definition cb_ttl :: "breaker \<Rightarrow> int" where
  "cb_ttl b = max (py_int (cb_cooldown b) * 4) 60"

definition new_breaker :: "int \<Rightarrow> real \<Rightarrow> bool \<Rightarrow> breaker" where
  "new_breaker threshold cooldown redis =
     \<lparr>cb_threshold = threshold, cb_cooldown = cooldown, cb_opened_at = None, cb_fails = 0,
      cb_uses_redis = redis\<rparr>"

definition lua_open_check :: "real \<Rightarrow> real \<Rightarrow> shared_state \<Rightarrow> int \<times> shared_state" where
  "lua_open_check t cooldown sh =
     (case live_value t (sh_opened sh) of
        None \<Rightarrow> (0, sh)
      | Some opened \<Rightarrow>
          if t - opened \<ge> cooldown then (0, \<lparr>sh_opened = None, sh_fails = None\<rparr>) else (1, sh))"

definition lua_record_failure :: "real \<Rightarrow> int \<Rightarrow> int \<Rightarrow> shared_state \<Rightarrow> (int \<times> int) \<times> shared_state" where
  "lua_record_failure t threshold ttl sh =
     (let fails = (case live_value t (sh_fails sh) of None \<Rightarrow> 0 | Some n \<Rightarrow> n) + 1;
          sh' = sh\<lparr>sh_fails := Some (fails, t + of_int ttl)\<rparr>
      in if live_value t (sh_opened sh) = None \<and> fails \<ge> threshold
         then ((fails, 1), sh'\<lparr>sh_opened := Some (t, t + of_int ttl)\<rparr>)
         else ((fails, 0), sh'))"

definition is_open_local :: "real \<Rightarrow> breaker \<Rightarrow> bool \<times> breaker" where
  "is_open_local now b =
     (case cb_opened_at b of
        None \<Rightarrow> (False, b)
      | Some opened \<Rightarrow>
          if now - opened \<ge> cb_cooldown b then (False, b\<lparr>cb_opened_at := None, cb_fails := 0\<rparr>)
          else (True, b))"

definition is_open ::
  "bool \<Rightarrow> real \<Rightarrow> real \<Rightarrow> breaker \<times> shared_state \<Rightarrow> bool \<times> (breaker \<times> shared_state)" where
  "is_open up now t s =
     (let (b, sh) = s in
      if cb_uses_redis b \<and> up then
        let opened_before = live_value t (sh_opened sh);
            (result, sh') = lua_open_check t (cb_cooldown b) sh
        in (result \<noteq> 0, (b\<lparr>cb_opened_at := (if result = 0 then None else opened_before)\<rparr>, sh'))
      else let (r, b') = is_open_local now b in (r, (b', sh)))"

definition record_success :: "bool \<Rightarrow> breaker \<times> shared_state \<Rightarrow> breaker \<times> shared_state" where
  "record_success up s =
     (let (b, sh) = s; b' = b\<lparr>cb_opened_at := None, cb_fails := 0\<rparr> in
      if cb_uses_redis b \<and> up then (b', \<lparr>sh_opened = None, sh_fails = None\<rparr>) else (b', sh))"

definition record_failure_local :: "real \<Rightarrow> breaker \<Rightarrow> breaker" where
  "record_failure_local now b =
     (let b1 = b\<lparr>cb_fails := cb_fails b + 1\<rparr> in
      if cb_fails b1 \<ge> cb_threshold b1 \<and> cb_opened_at b1 = None
      then b1\<lparr>cb_opened_at := Some now\<rparr> else b1)"

definition record_failure ::
  "bool \<Rightarrow> real \<Rightarrow> real \<Rightarrow> breaker \<times> shared_state \<Rightarrow> breaker \<times> shared_state" where
  "record_failure up now t s =
     (let (b, sh) = s in
      if cb_uses_redis b \<and> up then
        let ((fails, opened), sh') = lua_record_failure t (cb_threshold b) (cb_ttl b) sh;
            b1 = b\<lparr>cb_fails := fails\<rparr>
        in (if opened = 1 then b1\<lparr>cb_opened_at := Some now\<rparr> else b1, sh')
      else (record_failure_local now b, sh))"

definition reset_breaker :: "bool \<Rightarrow> breaker \<times> shared_state \<Rightarrow> breaker \<times> shared_state" where
  "reset_breaker up s =
     (let (b, sh) = s in
      (b\<lparr>cb_opened_at := None, cb_fails := 0\<rparr>,
       if cb_uses_redis b \<and> up then \<lparr>sh_opened = None, sh_fails = None\<rparr> else sh))"

definition opened_at_view :: "bool \<Rightarrow> real \<Rightarrow> breaker \<times> shared_state \<Rightarrow> real option \<times> (breaker \<times> shared_state)" where
  "opened_at_view up t s =
     (let (b, sh) = s in
      if cb_uses_redis b \<and> up
      then let v = live_value t (sh_opened sh) in (v, (b\<lparr>cb_opened_at := v\<rparr>, sh))
      else (cb_opened_at b, s))"

definition consecutive_failures_view :: "bool \<Rightarrow> real \<Rightarrow> breaker \<times> shared_state \<Rightarrow> int" where
  "consecutive_failures_view up t s =
     (let (b, sh) = s in
      if cb_uses_redis b \<and> up
      then (case live_value t (sh_fails sh) of None \<Rightarrow> 0 | Some n \<Rightarrow> n) else cb_fails b)"

text \<open>\<open>_build\<close>: shared through Redis when the pooled client is there, else local.\<close>

definition build_breaker :: "int \<Rightarrow> real \<Rightarrow> bool \<Rightarrow> breaker" where
  "build_breaker threshold cooldown pool_client = new_breaker threshold cooldown pool_client"

section \<open>The local breaker\<close>

datatype cb_event = IsOpen | Success | Failure

text \<open>A breaker that runs without Redis, driven by timed events; the checks' answers come out.\<close>

fun local_event :: "breaker \<Rightarrow> real \<times> cb_event \<Rightarrow> bool option \<times> breaker" where
  "local_event b (t, IsOpen) = (case is_open_local t b of (r, b') \<Rightarrow> (Some r, b'))"
| "local_event b (t, Success) = (None, b\<lparr>cb_opened_at := None, cb_fails := 0\<rparr>)"
| "local_event b (t, Failure) = (None, record_failure_local t b)"

fun local_run :: "breaker \<Rightarrow> (real \<times> cb_event) list \<Rightarrow> bool option list \<times> breaker" where
  "local_run b [] = ([], b)"
| "local_run b (e # es) =
     (case local_event b e of (r, b') \<Rightarrow> (case local_run b' es of (rs, b'') \<Rightarrow> (r # rs, b'')))"

text \<open>Open exactly when the failure count has reached the threshold.\<close>

definition breaker_inv :: "breaker \<Rightarrow> bool" where
  "breaker_inv b \<longleftrightarrow> 0 \<le> cb_fails b \<and> (cb_opened_at b \<noteq> None \<longleftrightarrow> cb_threshold b \<le> cb_fails b)"

lemma local_event_params:
  "cb_threshold (snd (local_event b e)) = cb_threshold b"
  "cb_cooldown (snd (local_event b e)) = cb_cooldown b"
  by (cases "(b, e)" rule: local_event.cases;
      auto simp: is_open_local_def record_failure_local_def Let_def split: option.splits)+

lemma local_event_inv [invs]:
  "1 \<le> cb_threshold b \<Longrightarrow> breaker_inv b \<Longrightarrow> breaker_inv (snd (local_event b e))"
  by (cases "(b, e)" rule: local_event.cases)
    (auto simp: breaker_inv_def is_open_local_def record_failure_local_def Let_def split: option.splits)

lemma local_run_inv:
  "1 \<le> cb_threshold b \<Longrightarrow> breaker_inv b \<Longrightarrow>
   breaker_inv (snd (local_run b es)) \<and> cb_threshold (snd (local_run b es)) = cb_threshold b"
proof (induction es arbitrary: b)
  case Nil
  then show ?case by simp
next
  case (Cons e es)
  then show ?case
    using Cons.IH [of "snd (local_event b e)"] local_event_inv [of b e] local_event_params [of b e]
    by (auto simp: case_prod_unfold)
qed

lemma failures_state:
  assumes "1 \<le> cb_threshold b" "cb_fails b = 0" "cb_opened_at b = None"
  shows "cb_fails (foldl (\<lambda>b t. record_failure_local t b) b ts) = int (length ts)
    \<and> cb_opened_at (foldl (\<lambda>b t. record_failure_local t b) b ts) =
        (if nat (cb_threshold b) \<le> length ts then Some (ts ! (nat (cb_threshold b) - 1)) else None)
    \<and> cb_threshold (foldl (\<lambda>b t. record_failure_local t b) b ts) = cb_threshold b
    \<and> cb_cooldown (foldl (\<lambda>b t. record_failure_local t b) b ts) = cb_cooldown b"
proof (induction ts rule: rev_induct)
  case Nil
  then show ?case using assms by auto
next
  case (snoc t ts)
  let ?b = "foldl (\<lambda>b t. record_failure_local t b) b ts"
  show ?case
  proof (cases "nat (cb_threshold b) \<le> length ts")
    case True
    then show ?thesis
      using snoc assms(1) by (auto simp: record_failure_local_def nth_append Let_def)
  next
    case False
    then have "int (length ts) + 1 \<ge> cb_threshold b \<longleftrightarrow> nat (cb_threshold b) = Suc (length ts)"
      using assms(1) by auto
    then show ?thesis
      using snoc False by (auto simp: record_failure_local_def nth_append Let_def)
  qed
qed

section \<open>Replicas that share the breaker through Redis\<close>

text \<open>
  Several replicas, each with its own local mirror, run events in an arbitrary order on one
  shared state; each event has the replica and the server time.
\<close>

fun shared_event ::
  "(nat \<Rightarrow> breaker) \<times> shared_state \<Rightarrow> nat \<times> real \<times> cb_event \<Rightarrow> bool option \<times> ((nat \<Rightarrow> breaker) \<times> shared_state)" where
  "shared_event (bs, sh) (k, t, IsOpen) =
     (case is_open True t t (bs k, sh) of (r, (b, sh')) \<Rightarrow> (Some r, (bs(k := b), sh')))"
| "shared_event (bs, sh) (k, t, Success) =
     (case record_success True (bs k, sh) of (b, sh') \<Rightarrow> (None, (bs(k := b), sh')))"
| "shared_event (bs, sh) (k, t, Failure) =
     (case record_failure True t t (bs k, sh) of (b, sh') \<Rightarrow> (None, (bs(k := b), sh')))"

fun shared_run ::
  "(nat \<Rightarrow> breaker) \<times> shared_state \<Rightarrow> (nat \<times> real \<times> cb_event) list \<Rightarrow> bool option list" where
  "shared_run s [] = []"
| "shared_run s (e # es) = (case shared_event s e of (r, s') \<Rightarrow> r # shared_run s' es)"

definition unexpired :: "real \<Rightarrow> shared_state \<Rightarrow> bool" where
  "unexpired t sh \<longleftrightarrow>
     (case sh_opened sh of None \<Rightarrow> True | Some (v, x) \<Rightarrow> t < x)
     \<and> (case sh_fails sh of None \<Rightarrow> True | Some (v, x) \<Rightarrow> t < x)"

text \<open>No event of the run finds a key that Redis has already dropped.\<close>

fun never_expires :: "(nat \<Rightarrow> breaker) \<times> shared_state \<Rightarrow> (nat \<times> real \<times> cb_event) list \<Rightarrow> bool" where
  "never_expires s [] = True"
| "never_expires s (e # es) =
     (unexpired (fst (snd e)) (snd s) \<and> never_expires (snd (shared_event s e)) es)"

definition shared_abs :: "breaker \<Rightarrow> shared_state \<Rightarrow> bool" where
  "shared_abs b sh \<longleftrightarrow>
     cb_opened_at b = map_option fst (sh_opened sh)
     \<and> cb_fails b = (case sh_fails sh of None \<Rightarrow> 0 | Some (n, x) \<Rightarrow> n)"

definition configured :: "(nat \<Rightarrow> breaker) \<Rightarrow> breaker \<Rightarrow> bool" where
  "configured bs b \<longleftrightarrow>
     (\<forall>k. cb_uses_redis (bs k) \<and> cb_threshold (bs k) = cb_threshold b \<and> cb_cooldown (bs k) = cb_cooldown b)"

lemma live_unexpired:
  "unexpired t sh \<Longrightarrow> live_value t (sh_opened sh) = map_option fst (sh_opened sh)"
  "unexpired t sh \<Longrightarrow> live_value t (sh_fails sh) = map_option fst (sh_fails sh)"
  by (auto simp: unexpired_def live_value_def split: option.splits)

lemma shared_event_simulates:
  assumes "configured bs b" "shared_abs b sh" "unexpired t sh"
  shows "\<exists>bs' sh'. shared_event (bs, sh) (k, t, ev) = (fst (local_event b (t, ev)), (bs', sh'))
    \<and> configured bs' (snd (local_event b (t, ev))) \<and> shared_abs (snd (local_event b (t, ev))) sh'"
proof (cases ev)
  case IsOpen
  then show ?thesis
    using assms
    by (auto simp: is_open_def is_open_local_def lua_open_check_def live_unexpired shared_abs_def
        configured_def Let_def split: option.splits)
next
  case Success
  then show ?thesis
    using assms by (auto simp: record_success_def shared_abs_def configured_def)
next
  case Failure
  then show ?thesis
    using assms
    by (auto simp: record_failure_def record_failure_local_def lua_record_failure_def live_unexpired
        shared_abs_def configured_def Let_def split: option.splits)
qed

lemma shared_run_simulates:
  assumes "configured bs b" "shared_abs b sh" "never_expires (bs, sh) es"
  shows "shared_run (bs, sh) es = fst (local_run b (map snd es))"
  using assms
proof (induction es arbitrary: bs b sh)
  case Nil
  then show ?case by simp
next
  case (Cons e es)
  obtain k t ev where e: "e = (k, t, ev)" by (cases e)
  have "unexpired t sh" using Cons.prems(3) e by simp
  from shared_event_simulates [OF Cons.prems(1,2) this, of k ev]
  obtain bs' sh' where st: "shared_event (bs, sh) e = (fst (local_event b (t, ev)), (bs', sh'))"
    and c: "configured bs' (snd (local_event b (t, ev)))"
    and a: "shared_abs (snd (local_event b (t, ev))) sh'" using e by auto
  have "never_expires (bs', sh') es" using Cons.prems(3) st by simp
  from Cons.IH [OF c a this] show ?case using st e by (simp add: case_prod_unfold)
qed

section \<open>Properties\<close>

text \<open>
  The breaker trips exactly at the threshold: after failures at times \<open>ts\<close> with no
  success between them, a call is refused if and only if there were at least \<open>threshold\<close> of
  them and the cooldown has not passed since the failure that reached the threshold.
\<close>

theorem breaker_trips_exactly:
  assumes "1 \<le> cb_threshold b" "cb_fails b = 0" "cb_opened_at b = None" "\<not> cb_uses_redis b"
  shows "fst (is_open up now t (foldl (\<lambda>s u. record_failure up u u s) (b, sh) ts)) \<longleftrightarrow>
           nat (cb_threshold b) \<le> length ts \<and> now - ts ! (nat (cb_threshold b) - 1) < cb_cooldown b"
proof -
  have f: "foldl (\<lambda>s u. record_failure up u u s) (b', sh) ts =
             (foldl (\<lambda>b u. record_failure_local u b) b' ts, sh) \<and>
           \<not> cb_uses_redis (foldl (\<lambda>b u. record_failure_local u b) b' ts)" if "\<not> cb_uses_redis b'" for b'
    using that
    by (induction ts arbitrary: b') (auto simp: record_failure_def record_failure_local_def Let_def)
  show ?thesis
    using f [OF assms(4)] failures_state [OF assms(1-3), of ts]
    by (auto simp: is_open_def is_open_local_def)
qed

theorem breaker_trips_exactly_witness:
  "fst (is_open True 20 20 (foldl (\<lambda>s u. record_failure True u u s)
          (new_breaker 3 30 False, \<lparr>sh_opened = None, sh_fails = None\<rparr>) [1, 2, 5]))"
  using breaker_trips_exactly [of "new_breaker 3 30 False" True 20 20
      "\<lparr>sh_opened = None, sh_fails = None\<rparr>" "[1, 2, 5]"]
  by (simp add: new_breaker_def)

text \<open>
  In every run of checks, successes and failures the local breaker is open exactly when
  its failure count is at the threshold, so a success or a passed cooldown always closes it
  with a clean count.
\<close>

theorem breaker_open_iff_threshold:
  assumes "1 \<le> threshold"
  shows "let b = snd (local_run (new_breaker threshold cooldown False) es) in
         0 \<le> cb_fails b \<and> (cb_opened_at b \<noteq> None \<longleftrightarrow> threshold \<le> cb_fails b)"
  using local_run_inv [of "new_breaker threshold cooldown False" es] assms
  by (simp add: breaker_inv_def new_breaker_def Let_def)

theorem breaker_open_iff_threshold_witness:
  "let b = snd (local_run (new_breaker 2 30 False) [(1, Failure), (2, Failure), (40, IsOpen)]) in
   0 \<le> cb_fails b \<and> (cb_opened_at b \<noteq> None \<longleftrightarrow> 2 \<le> cb_fails b)"
  by (rule breaker_open_iff_threshold) simp

text \<open>
  C40. Replicas that share a breaker through Redis act as one breaker: while no key expires
  between the operations (both live \<open>max(4 * int(cooldown), 60)\<close> seconds),
  the answers of any interleaving of the replicas' operations are those of a single local
  breaker on the merged sequence.
\<close>

theorem shared_breaker_is_one_breaker:
  assumes "configured bs b" "cb_opened_at b = None" "cb_fails b = 0"
    and "never_expires (bs, \<lparr>sh_opened = None, sh_fails = None\<rparr>) es"
  shows "shared_run (bs, \<lparr>sh_opened = None, sh_fails = None\<rparr>) es = fst (local_run b (map snd es))"
  using assms by (intro shared_run_simulates) (auto simp: shared_abs_def)

theorem shared_breaker_is_one_breaker_witness:
  "shared_run (\<lambda>_. new_breaker 2 30 True, \<lparr>sh_opened = None, sh_fails = None\<rparr>)
     [(0, 1, Failure), (1, 2, Failure), (2, 3, IsOpen), (0, 40, IsOpen)]
   = [None, None, Some True, Some False]"
proof -
  have "shared_run (\<lambda>_. new_breaker 2 30 True, \<lparr>sh_opened = None, sh_fails = None\<rparr>)
     [(0, 1, Failure), (1, 2, Failure), (2, 3, IsOpen), (0, 40, IsOpen)]
    = fst (local_run (new_breaker 2 30 True)
        (map snd [(0::nat, 1, Failure), (1, 2, Failure), (2, 3, IsOpen), (0, 40, IsOpen)]))"
    by (rule shared_breaker_is_one_breaker)
      (simp_all add: configured_def new_breaker_def record_failure_def lua_record_failure_def
        live_value_def cb_ttl_def py_int_def unexpired_def is_open_def lua_open_check_def Let_def)
  then show ?thesis
    by (simp add: new_breaker_def record_failure_local_def is_open_local_def Let_def)
qed

text \<open>
  The cooldown lets every caller through, not one probe: once it has passed, consecutive
  checks all answer "closed", and a single failure after it does not reopen a breaker whose
  threshold is above one.
\<close>

theorem half_open_is_not_a_single_probe:
  assumes "cb_opened_at b = Some o0" "now - o0 \<ge> cb_cooldown b" "2 \<le> cb_threshold b" "\<not> cb_uses_redis b"
  shows "let (r1, s1) = is_open up now t (b, sh); (r2, s2) = is_open up now t s1;
             s3 = record_failure up now t s2; (r3, s4) = is_open up now t s3
         in \<not> r1 \<and> \<not> r2 \<and> \<not> r3"
  using assms
  by (simp add: is_open_def is_open_local_def record_failure_def record_failure_local_def Let_def)

theorem half_open_is_not_a_single_probe_witness:
  "let b = (new_breaker 3 30 False)\<lparr>cb_opened_at := Some 0, cb_fails := 3\<rparr>;
       sh = \<lparr>sh_opened = None, sh_fails = None\<rparr>;
       (r1, s1) = is_open True 31 31 (b, sh); (r2, s2) = is_open True 31 31 s1;
       s3 = record_failure True 31 31 s2; (r3, s4) = is_open True 31 31 s3
   in \<not> r1 \<and> \<not> r2 \<and> \<not> r3"
  using half_open_is_not_a_single_probe
    [of "(new_breaker 3 30 False)\<lparr>cb_opened_at := Some 0, cb_fails := 3\<rparr>" 0 31 True 31
      "\<lparr>sh_opened = None, sh_fails = None\<rparr>"]
  by (simp add: new_breaker_def)

end
