(* ===== verification/Review_Queue.thy ===== *)
theory Review_Queue
  imports Json
begin

text \<open>
  The human review queue of \<open>core/review_queue.py\<close>: a JSON object from review id to record,
  loaded once, mutated in place and rewritten after every mutation.

  The records are the parsed JSON as it is (the code never checks its shape), so a file that
  does not hold an object of records raises where Python raises.  \<open>uid\<close> and \<open>now\<close> are the
  results of \<open>uuid4().hex\<close> and of the clock.  A save succeeds, and a later load of the saved
  file gives the saved records back (\<open>json.dump\<close> then \<open>json.load\<close>).
\<close>

section \<open>Definitions from the code\<close>

record review_queue =
  rq_records :: json
  rq_loaded :: bool

definition new_review_queue :: review_queue where
  "new_review_queue = \<lparr>rq_records = JDict [], rq_loaded = False\<rparr>"

definition rq_load :: "bool \<Rightarrow> disk_doc \<Rightarrow> review_queue \<Rightarrow> review_queue" where
  "rq_load force disk q =
     (if rq_loaded q \<and> \<not> force then q
      else \<lparr>rq_records = (case disk of Missing \<Rightarrow> JDict [] | Unreadable \<Rightarrow> JDict [] | Doc j \<Rightarrow> j),
            rq_loaded = True\<rparr>)"

record review_record =
  rr_review_id :: string
  rr_status :: string
  rr_reason :: string
  rr_capability :: string
  rr_risk :: string
  rr_tenant :: string
  rr_prompt_hash :: string
  rr_request_id :: string
  rr_created_at :: string

text \<open>\<open>asdict(record)\<close>, the three fields of the resolution still \<open>None\<close>.\<close>

definition record_dict :: "review_record \<Rightarrow> json" where
  "record_dict r = JDict
     [(''review_id'', JStr (rr_review_id r)), (''status'', JStr (rr_status r)),
      (''reason'', JStr (rr_reason r)), (''capability'', JStr (rr_capability r)),
      (''risk'', JStr (rr_risk r)), (''tenant'', JStr (rr_tenant r)),
      (''prompt_hash'', JStr (rr_prompt_hash r)), (''request_id'', JStr (rr_request_id r)),
      (''created_at'', JStr (rr_created_at r)), (''resolved_at'', JNull), (''reviewer'', JNull),
      (''final_decision'', JNull)]"

definition resolution_to_decision :: "string \<Rightarrow> string" where
  "resolution_to_decision outcome = (if outcome = ''APPROVED'' then ''ALLOW'' else ''BLOCK'')"

type_synonym rq_state = "review_queue \<times> disk_doc"

definition rq_save :: "rq_state \<Rightarrow> rq_state" where
  "rq_save s = (case s of (q, disk) \<Rightarrow> (q, Doc (rq_records q)))"

definition enqueue ::
  "string \<Rightarrow> string \<Rightarrow> string \<Rightarrow> string \<Rightarrow> string \<Rightarrow> string \<Rightarrow> string \<Rightarrow> string \<Rightarrow> rq_state
   \<Rightarrow> (py_error, review_record) res \<times> rq_state" where
  "enqueue uid now reason capability risk tenant prompt_hash request_id s =
     (let q = rq_load False (snd s) (fst s);
          r = \<lparr>rr_review_id = uid, rr_status = ''PENDING'', rr_reason = reason,
               rr_capability = capability, rr_risk = risk, rr_tenant = tenant,
               rr_prompt_hash = prompt_hash, rr_request_id = request_id, rr_created_at = now\<rparr>
      in case rq_records q of
           JDict d \<Rightarrow> (Inr r, rq_save (q\<lparr>rq_records := JDict (od_set uid (record_dict r) d)\<rparr>, snd s))
         | _ \<Rightarrow> (Inl (TypeError ''item assignment''), (q, snd s)))"

definition rq_get :: "string \<Rightarrow> rq_state \<Rightarrow> (py_error, json) res \<times> rq_state" where
  "rq_get review_id s =
     (let q = rq_load False (snd s) (fst s) in
      case rq_records q of
        JDict d \<Rightarrow> (Inr (case od_get d review_id of None \<Rightarrow> JNull | Some r \<Rightarrow> r), (q, snd s))
      | _ \<Rightarrow> (Inl (AttributeError ''get''), (q, snd s)))"

fun pending_records :: "(string \<times> json) list \<Rightarrow> (py_error, json list) res" where
  "pending_records [] = Inr []"
| "pending_records ((k, r) # d) =
     bind_res (subscript r ''status'') (\<lambda>st.
     bind_res (pending_records d) (\<lambda>rs.
       Inr (if py_eq st (JStr ''PENDING'') then r # rs else rs)))"

definition list_pending :: "rq_state \<Rightarrow> (py_error, json list) res \<times> rq_state" where
  "list_pending s =
     (let q = rq_load False (snd s) (fst s) in
      (case rq_records q of
         JDict d \<Rightarrow> pending_records d
       | _ \<Rightarrow> Inl (AttributeError ''values''), (q, snd s)))"

definition resolve :: "string \<Rightarrow> string \<Rightarrow> string \<Rightarrow> string \<Rightarrow> rq_state \<Rightarrow> (py_error, json) res \<times> rq_state" where
  "resolve now review_id outcome reviewer s =
     (let q = rq_load False (snd s) (fst s); s' = (q, snd s) in
      case rq_records q of
        JDict d \<Rightarrow>
          (case od_get d review_id of
             None \<Rightarrow> (Inl (KeyError (''No such review: '' @ review_id)), s')
           | Some JNull \<Rightarrow> (Inl (KeyError (''No such review: '' @ review_id)), s')
           | Some r \<Rightarrow>
               (case subscript r ''status'' of
                  Inl e \<Rightarrow> (Inl e, s')
                | Inr st \<Rightarrow>
                    if \<not> py_eq st (JStr ''PENDING'') then
                      (Inl (ValueError (''Review '' @ review_id @ '' is already '' @ py_str st @
                         '' (by '' @ py_repr (jget_or r ''reviewer'' JNull) @ '')'')), s')
                    else if outcome \<noteq> ''APPROVED'' \<and> outcome \<noteq> ''REJECTED'' then
                      (Inl (ValueError (''outcome must be one of APPROVED/REJECTED, got '' @ repr_str outcome)), s')
                    else
                      let r' = JDict (od_set ''final_decision'' (JStr (resolution_to_decision outcome))
                                 (od_set ''resolved_at'' (JStr now)
                                 (od_set ''reviewer'' (JStr reviewer)
                                 (od_set ''status'' (JStr outcome) (dict_items r)))))
                      in (Inr r', rq_save (q\<lparr>rq_records := JDict (od_set review_id r' d)\<rparr>, snd s))))
      | _ \<Rightarrow> (Inl (AttributeError ''get''), s'))"

section \<open>Runs\<close>

text \<open>
  Everything the server, and its restarts, do with the queue; a restart is a new
  \<open>ReviewQueue\<close> on the same file.
\<close>

datatype rq_op =
    Enqueue string string string string string string string string
  | Resolve string string string string
  | GetReview string
  | ListPending
  | Restart

fun rq_step :: "rq_op \<Rightarrow> rq_state \<Rightarrow> rq_state" where
  "rq_step (Enqueue uid now reason cap risk ten ph rid) s = snd (enqueue uid now reason cap risk ten ph rid s)"
| "rq_step (Resolve now i outcome reviewer) s = snd (resolve now i outcome reviewer s)"
| "rq_step (GetReview i) s = snd (rq_get i s)"
| "rq_step ListPending s = snd (list_pending s)"
| "rq_step Restart s = (new_review_queue, snd s)"

fun enqueues :: "string \<Rightarrow> rq_op \<Rightarrow> bool" where
  "enqueues i (Enqueue uid now reason cap risk ten ph rid) = (uid = i)"
| "enqueues i _ = False"

definition loaded_records :: "rq_state \<Rightarrow> json" where
  "loaded_records s = rq_records (rq_load False (snd s) (fst s))"

text \<open>
  The record of a review is settled with a final record: it is the one in memory and, for the
  next process, the one on the disk.
\<close>

definition settled :: "string \<Rightarrow> json \<Rightarrow> rq_state \<Rightarrow> bool" where
  "settled i r s \<longleftrightarrow>
     (\<exists>d. loaded_records s = JDict d \<and> snd s = Doc (JDict d) \<and> od_get d i = Some r)"

lemma rq_load_idem: "rq_load False disk' (rq_load False disk q) = rq_load False disk q"
  by (simp add: rq_load_def)

lemma loaded_records_load [simp]: "loaded_records (rq_load False disk q, x) = rq_records (rq_load False disk q)"
  by (simp add: loaded_records_def rq_load_idem)

lemma loaded_records_update [simp]:
  "loaded_records ((rq_load False disk q)\<lparr>rq_records := j\<rparr>, x) = j"
  by (simp add: loaded_records_def rq_load_def)

definition final_record :: "json \<Rightarrow> bool" where
  "final_record r \<longleftrightarrow> (\<exists>d outcome reviewer. r = JDict d \<and> od_get d ''status'' = Some (JStr outcome)
     \<and> outcome \<in> {''APPROVED'', ''REJECTED''} \<and> od_get d ''reviewer'' = Some (JStr reviewer)
     \<and> od_get d ''final_decision'' = Some (JStr (resolution_to_decision outcome)))"

definition settled_record :: "string \<Rightarrow> string \<Rightarrow> string \<Rightarrow> (string \<times> json) list \<Rightarrow> (string \<times> json) list" where
  "settled_record now outcome reviewer f =
     od_set ''final_decision'' (JStr (resolution_to_decision outcome))
       (od_set ''resolved_at'' (JStr now)
       (od_set ''reviewer'' (JStr reviewer)
       (od_set ''status'' (JStr outcome) f)))"

lemma resolve_ok:
  assumes "rq_records (rq_load False (snd s) (fst s)) = JDict d"
    and "od_get d i = Some (JDict f)" "map_of f ''status'' = Some (JStr ''PENDING'')"
    and "outcome \<in> {''APPROVED'', ''REJECTED''}"
  shows "resolve now i outcome reviewer s =
     (Inr (JDict (settled_record now outcome reviewer f)),
      ((rq_load False (snd s) (fst s))\<lparr>rq_records := JDict (od_set i (JDict (settled_record now outcome reviewer f)) d)\<rparr>,
       Doc (JDict (od_set i (JDict (settled_record now outcome reviewer f)) d))))"
  using assms by (auto simp: resolve_def subscript_def settled_record_def rq_save_def Let_def)

lemma resolve_raises:
  assumes "rq_records (rq_load False (snd s) (fst s)) = JDict d"
    and "\<not> (\<exists>f. od_get d i = Some (JDict f) \<and> map_of f ''status'' = Some (JStr ''PENDING'')
            \<and> outcome \<in> {''APPROVED'', ''REJECTED''})"
  shows "\<exists>e. resolve now i outcome reviewer s = (Inl e, (rq_load False (snd s) (fst s), snd s))"
proof (cases "od_get d i")
  case None
  then show ?thesis using assms by (simp add: resolve_def Let_def)
next
  case (Some r)
  then show ?thesis
    using assms by (cases r) (auto simp: resolve_def subscript_def Let_def split: option.split)
qed

lemma resolve_dict:
  "resolve now i outcome reviewer s = (Inr r, s') \<Longrightarrow> \<exists>d. rq_records (rq_load False (snd s) (fst s)) = JDict d"
  by (cases "rq_records (rq_load False (snd s) (fst s))") (auto simp: resolve_def Let_def)

lemma resolve_InrD:
  assumes "resolve now i outcome reviewer s = (Inr r, s')"
    and "rq_records (rq_load False (snd s) (fst s)) = JDict d"
  shows "\<exists>f. od_get d i = Some (JDict f) \<and> map_of f ''status'' = Some (JStr ''PENDING'')
      \<and> outcome \<in> {''APPROVED'', ''REJECTED''} \<and> r = JDict (settled_record now outcome reviewer f)
      \<and> loaded_records s' = JDict (od_set i r d) \<and> snd s' = Doc (JDict (od_set i r d))"
proof -
  obtain f where f: "od_get d i = Some (JDict f)" "map_of f ''status'' = Some (JStr ''PENDING'')"
      "outcome \<in> {''APPROVED'', ''REJECTED''}"
    using resolve_raises [OF assms(2), of i outcome now reviewer] assms(1) by auto
  show ?thesis
    using assms(1) f resolve_ok [OF assms(2) f, of now reviewer] by auto
qed

lemma resolve_InlD:
  assumes "resolve now i outcome reviewer s = (Inl e, s')"
    and "rq_records (rq_load False (snd s) (fst s)) = JDict d"
  shows "s' = (rq_load False (snd s) (fst s), snd s)"
proof -
  have "\<not> (\<exists>f. od_get d i = Some (JDict f) \<and> map_of f ''status'' = Some (JStr ''PENDING'')
            \<and> outcome \<in> {''APPROVED'', ''REJECTED''})"
    using resolve_ok [OF assms(2), of i _ outcome now reviewer] assms(1) by fastforce
  from resolve_raises [OF assms(2) this, of now reviewer] show ?thesis using assms(1) by auto
qed

lemma od_get_settled_record:
  "map_of (settled_record now outcome reviewer f) ''status'' = Some (JStr outcome)"
  "map_of (settled_record now outcome reviewer f) ''reviewer'' = Some (JStr reviewer)"
  "map_of (settled_record now outcome reviewer f) ''final_decision'' = Some (JStr (resolution_to_decision outcome))"
  "od_get (settled_record now outcome reviewer f) ''status'' = Some (JStr outcome)"
  "od_get (settled_record now outcome reviewer f) ''reviewer'' = Some (JStr reviewer)"
  "od_get (settled_record now outcome reviewer f) ''final_decision'' = Some (JStr (resolution_to_decision outcome))"
  by (simp_all add: settled_record_def flip: od_get_def)

lemma resolve_success:
  assumes "resolve now i outcome reviewer s = (Inr r, s')"
  shows "settled i r s' \<and> final_record r \<and> jget r ''status'' = Some (JStr outcome)
    \<and> jget r ''reviewer'' = Some (JStr reviewer)
    \<and> jget r ''final_decision'' = Some (JStr (resolution_to_decision outcome))"
proof -
  obtain d where d: "rq_records (rq_load False (snd s) (fst s)) = JDict d"
    using resolve_dict [OF assms] by blast
  show ?thesis
    using resolve_InrD [OF assms d]
    by (auto simp: settled_def final_record_def od_get_settled_record)
qed

lemma settled_resolve:
  assumes "settled i r s" "final_record r"
  shows "\<exists>e. fst (resolve now i outcome reviewer s) = Inl (ValueError e)"
proof -
  obtain d where d: "rq_records (rq_load False (snd s) (fst s)) = JDict d" "od_get d i = Some r"
    using assms(1) by (auto simp: settled_def loaded_records_def)
  obtain f st rv where f: "r = JDict f" "od_get f ''status'' = Some (JStr st)" "st \<in> {''APPROVED'', ''REJECTED''}"
    using assms(2) by (auto simp: final_record_def)
  have "\<not> py_eq (JStr st) (JStr ''PENDING'')" using f(3) by auto
  then show ?thesis
    using d f by (auto simp: resolve_def subscript_def od_get_def [symmetric] Let_def)
qed

lemma settled_step:
  assumes "settled i r s" "final_record r" "\<not> enqueues i op"
  shows "settled i r (rq_step op s)"
proof -
  obtain d where d: "rq_records (rq_load False (snd s) (fst s)) = JDict d" "od_get d i = Some r"
      "snd s = Doc (JDict d)"
    using assms(1) by (auto simp: settled_def loaded_records_def)
  show ?thesis
  proof (cases op)
    case (Enqueue uid now reason cap risk ten ph rid)
    then show ?thesis
      using d assms(3) by (auto simp: enqueue_def settled_def rq_save_def Let_def)
  next
    case (Resolve now j outcome reviewer)
    show ?thesis
    proof (cases "fst (resolve now j outcome reviewer s)")
      case (Inl e)
      then have "snd (resolve now j outcome reviewer s) = (rq_load False (snd s) (fst s), snd s)"
        using resolve_InlD [of now j outcome reviewer s e _ d] d(1) prod.collapse by metis
      then show ?thesis using Resolve d by (simp add: settled_def)
    next
      case (Inr r')
      have "j \<noteq> i"
        using settled_resolve [OF assms(1,2), of now outcome reviewer] Inr by auto
      then show ?thesis
        using Resolve d resolve_InrD [of now j outcome reviewer s r' "snd (resolve now j outcome reviewer s)" d] Inr
        by (auto simp: settled_def prod_eq_iff)
    qed
  next
    case (GetReview j)
    then show ?thesis using d by (simp add: rq_get_def Let_def settled_def)
  next
    case ListPending
    then show ?thesis using d by (simp add: list_pending_def Let_def settled_def)
  next
    case Restart
    then show ?thesis
      using d by (simp add: settled_def loaded_records_def rq_load_def new_review_queue_def)
  qed
qed

lemma settled_run:
  "settled i r s \<Longrightarrow> final_record r \<Longrightarrow> \<forall>op \<in> set ops. \<not> enqueues i op \<Longrightarrow>
   settled i r (fold rq_step ops s)"
proof (induction ops arbitrary: s)
  case (Cons op ops)
  then show ?case using settled_step [of i r s op] by simp
qed simp

lemma resolve_branches:
  assumes "loaded_records s = JDict d" "resolve now i outcome reviewer s = (res, s')"
  shows "(\<exists>r. res = Inr r) \<longleftrightarrow>
           (\<exists>f. od_get d i = Some (JDict f) \<and> map_of f ''status'' = Some (JStr ''PENDING''))
           \<and> (outcome = ''APPROVED'' \<or> outcome = ''REJECTED'')"
    and "res = Inl e \<Longrightarrow> loaded_records s' = JDict d \<and> snd s' = snd s"
    and "res = Inr r \<Longrightarrow> (\<exists>d'. loaded_records s' = JDict d' \<and> (\<forall>k. od_get d' k = (if k = i then Some r else od_get d k)))
           \<and> jget r ''status'' = Some (JStr outcome) \<and> jget r ''reviewer'' = Some (JStr reviewer)
           \<and> jget r ''final_decision'' = Some (JStr (if outcome = ''APPROVED'' then ''ALLOW'' else ''BLOCK''))"
proof -
  have d: "rq_records (rq_load False (snd s) (fst s)) = JDict d"
    using assms(1) by (simp add: loaded_records_def)
  show "(\<exists>r. res = Inr r) \<longleftrightarrow>
           (\<exists>f. od_get d i = Some (JDict f) \<and> map_of f ''status'' = Some (JStr ''PENDING''))
           \<and> (outcome = ''APPROVED'' \<or> outcome = ''REJECTED'')"
  proof (cases res)
    case (Inl e)
    then have "\<not> (\<exists>f. od_get d i = Some (JDict f) \<and> map_of f ''status'' = Some (JStr ''PENDING'')
            \<and> outcome \<in> {''APPROVED'', ''REJECTED''})"
      using resolve_ok [OF d, of i _ outcome now reviewer] assms(2) by fastforce
    then show ?thesis using Inl by auto
  next
    case (Inr r)
    then show ?thesis using resolve_InrD [OF _ d] assms(2) by blast
  qed
  show "res = Inl e \<Longrightarrow> loaded_records s' = JDict d \<and> snd s' = snd s"
  proof -
    assume "res = Inl e"
    then have "s' = (rq_load False (snd s) (fst s), snd s)" using resolve_InlD [OF _ d] assms(2) by blast
    then show ?thesis using d by simp
  qed
  show "res = Inr r \<Longrightarrow> (\<exists>d'. loaded_records s' = JDict d' \<and> (\<forall>k. od_get d' k = (if k = i then Some r else od_get d k)))
           \<and> jget r ''status'' = Some (JStr outcome) \<and> jget r ''reviewer'' = Some (JStr reviewer)
           \<and> jget r ''final_decision'' = Some (JStr (if outcome = ''APPROVED'' then ''ALLOW'' else ''BLOCK''))"
  proof -
    assume "res = Inr r"
    then have ok: "resolve now i outcome reviewer s = (Inr r, s')" using assms(2) by simp
    from resolve_InrD [OF ok d] have "loaded_records s' = JDict (od_set i r d)" by blast
    then show ?thesis using resolve_success [OF ok] by (auto simp: resolution_to_decision_def)
  qed
qed

section \<open>Properties\<close>

text \<open>
  A review is resolved once and for good: after a successful resolution, whatever the
  server does with the queue next (other enqueues and resolutions, reads, restarts on the
  saved file), the record returned is still the one of that resolution, and every further
  attempt to resolve it, by anyone and to any outcome, is refused with \<open>ValueError\<close>.
\<close>

theorem review_resolved_once:
  assumes "resolve now i outcome reviewer s = (Inr r, s')"
    and "\<forall>op \<in> set ops. \<not> enqueues i op"
  shows "fst (rq_get i (fold rq_step ops s')) = Inr r
    \<and> (\<exists>e. fst (resolve now2 i outcome2 reviewer2 (fold rq_step ops s')) = Inl (ValueError e))"
proof -
  have s: "settled i r s'" "final_record r" using resolve_success [OF assms(1)] by auto
  from settled_run [OF this assms(2)] have f: "settled i r (fold rq_step ops s')" .
  then have "fst (rq_get i (fold rq_step ops s')) = Inr r"
    by (auto simp: settled_def loaded_records_def rq_get_def Let_def)
  with settled_resolve [OF f s(2)] show ?thesis by blast
qed

theorem review_resolved_once_witness:
  "let s = snd (enqueue ''r1'' ''t0'' ''why'' ''GENERAL'' ''MEDIUM'' ''acme'' ''h'' ''q1'' (new_review_queue, Missing));
       (r, s') = resolve ''t1'' ''r1'' ''APPROVED'' ''alice'' s;
       s'' = fold rq_step [Restart, Resolve ''t2'' ''r1'' ''REJECTED'' ''bob'', ListPending] s'
   in r = fst (rq_get ''r1'' s'') \<and> (\<exists>e. fst (resolve ''t3'' ''r1'' ''REJECTED'' ''carol'' s'') = Inl (ValueError e))"
proof -
  let ?s = "snd (enqueue ''r1'' ''t0'' ''why'' ''GENERAL'' ''MEDIUM'' ''acme'' ''h'' ''q1'' (new_review_queue, Missing))"
  have "\<exists>r s'. resolve ''t1'' ''r1'' ''APPROVED'' ''alice'' ?s = (Inr r, s')"
    by (simp add: resolve_def enqueue_def new_review_queue_def rq_load_def rq_save_def record_dict_def
        subscript_def od_set_def Let_def)
  then obtain r s' where r: "resolve ''t1'' ''r1'' ''APPROVED'' ''alice'' ?s = (Inr r, s')" by blast
  show ?thesis
    using review_resolved_once [OF r, of "[Restart, Resolve ''t2'' ''r1'' ''REJECTED'' ''bob'', ListPending]"
        "''t3''" "''REJECTED''" "''carol''"] r
    by (simp add: Let_def)
qed

text \<open>
  \<open>resolve\<close> on every branch: it succeeds exactly on an existing record that is pending
  with one of the two outcomes, records the outcome, the reviewer and the decision ALLOW for
  an approval only, and touches no other review; when it raises, neither the records nor the
  file change.
\<close>

theorem resolve_every_branch:
  assumes "loaded_records s = JDict d" "resolve now i outcome reviewer s = (res, s')"
  shows "((\<exists>r. res = Inr r) \<longleftrightarrow>
           (\<exists>f. od_get d i = Some (JDict f) \<and> map_of f ''status'' = Some (JStr ''PENDING''))
           \<and> (outcome = ''APPROVED'' \<or> outcome = ''REJECTED''))
    \<and> (case res of
           Inl e \<Rightarrow> loaded_records s' = JDict d \<and> snd s' = snd s
         | Inr r \<Rightarrow> (\<exists>d'. loaded_records s' = JDict d' \<and> (\<forall>k. od_get d' k = (if k = i then Some r else od_get d k)))
             \<and> jget r ''status'' = Some (JStr outcome) \<and> jget r ''reviewer'' = Some (JStr reviewer)
             \<and> jget r ''final_decision'' = Some (JStr (if outcome = ''APPROVED'' then ''ALLOW'' else ''BLOCK'')))"
  using resolve_branches [OF assms] by (auto split: sum.split)

theorem resolve_every_branch_witness:
  "isl (fst (resolve ''t1'' ''r1'' ''MAYBE'' ''alice''
     (snd (enqueue ''r1'' ''t0'' ''why'' ''GENERAL'' ''MEDIUM'' ''acme'' ''h'' ''q1'' (new_review_queue, Missing)))))"
proof -
  let ?s = "snd (enqueue ''r1'' ''t0'' ''why'' ''GENERAL'' ''MEDIUM'' ''acme'' ''h'' ''q1'' (new_review_queue, Missing))"
  obtain res s' where r: "resolve ''t1'' ''r1'' ''MAYBE'' ''alice'' ?s = (res, s')"
    using prod.exhaust_sel by blast
  have "\<exists>d. loaded_records ?s = JDict d"
    by (simp add: enqueue_def new_review_queue_def rq_load_def rq_save_def loaded_records_def Let_def)
  then obtain d where "loaded_records ?s = JDict d" ..
  from resolve_every_branch [OF this r] have "\<not> (\<exists>r. res = Inr r)" by simp
  then show ?thesis using r by (cases res) auto
qed

end
