(* ===== verification/Entry_Store.thy ===== *)
theory Entry_Store
  imports Json
begin

text \<open>
  The shape the key store, the tenant store and the policy store share: a JSON object whose
  entries are read one after the other into a dictionary, each entry accepted, rejected on
  its own, or (where the code lets an exception out) ending the load.  The contract is a
  locale; each store's theory interprets it on its own loading loop.
\<close>

section \<open>The interface\<close>

locale entry_store =
  fixes key_of :: "string \<Rightarrow> string"
    and parse :: "string \<Rightarrow> json \<Rightarrow> (py_error, 'v option) res"
    and load_items :: "(string \<times> json) list \<Rightarrow> py_error option \<times> (string, 'v) odict"
  assumes load_Nil: "load_items [] = (None, [])"
    and load_snoc: "load_items (items @ [(k, j)]) =
          (case load_items items of
             (Some e, d) \<Rightarrow> (Some e, d)
           | (None, d) \<Rightarrow> (case parse k j of
                 Inl e \<Rightarrow> (Some e, d)
               | Inr None \<Rightarrow> (None, d)
               | Inr (Some v) \<Rightarrow> (None, od_set (key_of k) v d)))"
begin

definition well_behaved :: "(string \<times> json) list \<Rightarrow> bool" where
  "well_behaved items \<longleftrightarrow> (\<forall>(k, j) \<in> set items. \<exists>r. parse k j = Inr r)"

definition mine :: "string \<Rightarrow> (string \<times> json) list \<Rightarrow> (string \<times> json) list" where
  "mine x items = filter (\<lambda>(k, j). key_of k = x) items"

lemma store_wf: "od_wf (snd (load_items items))"
proof (induction items rule: rev_induct)
  case (snoc p items)
  obtain k j where "p = (k, j)" by (cases p)
  then show ?case
    using snoc by (auto simp: load_snoc split: prod.splits option.splits sum.splits)
qed (simp add: load_Nil)

lemma loads_iff: "fst (load_items items) = None \<longleftrightarrow> well_behaved items"
proof (induction items rule: rev_induct)
  case (snoc p items)
  obtain k j where "p = (k, j)" by (cases p)
  then show ?case
    using snoc by (cases "parse k j") (auto simp: load_snoc well_behaved_def split: prod.splits option.splits)
qed (simp add: load_Nil well_behaved_def)

lemma entry_source:
  "od_get (snd (load_items items)) x = Some v \<Longrightarrow>
     \<exists>(k, j) \<in> set items. key_of k = x \<and> parse k j = Inr (Some v)"
proof (induction items rule: rev_induct)
  case (snoc p items)
  obtain k j where "p = (k, j)" by (cases p)
  then show ?case
    using snoc by (auto simp: load_snoc split: prod.splits option.splits sum.splits if_splits)
qed (simp add: load_Nil)

lemma keys_source: "od_keys (snd (load_items items)) \<subseteq> key_of ` fst ` set items"
proof
  fix x assume "x \<in> od_keys (snd (load_items items))"
  then obtain v where "od_get (snd (load_items items)) x = Some v"
    by (cases "od_get (snd (load_items items)) x") (auto simp: od_get_None_iff)
  from entry_source [OF this] show "x \<in> key_of ` fst ` set items" by force
qed

text \<open>What is stored under a key depends on the entries for that key only.\<close>

lemma entry_independent:
  "well_behaved items \<Longrightarrow>
   od_get (snd (load_items items)) x = od_get (snd (load_items (mine x items))) x"
proof (induction items rule: rev_induct)
  case (snoc p items)
  obtain k j where p: "p = (k, j)" by (cases p)
  have wb: "well_behaved items" and r: "\<exists>r. parse k j = Inr r"
    using snoc.prems p by (auto simp: well_behaved_def)
  have m: "well_behaved (mine x items)" using wb by (auto simp: well_behaved_def mine_def)
  have ok: "fst (load_items items) = None" "fst (load_items (mine x items)) = None"
    using loads_iff wb m by auto
  then obtain d e where d: "load_items items = (None, d)" "load_items (mine x items) = (None, e)"
    by (metis prod.collapse)
  have ih: "od_get d x = od_get e x" using snoc.IH [OF wb] d by simp
  have ms: "mine x (items @ [(k, j)]) = (if key_of k = x then mine x items @ [(k, j)] else mine x items)"
    by (simp add: mine_def)
  show ?case
    using r d ih by (auto simp: p load_snoc ms split: option.splits)
qed (simp add: mine_def)

lemma entry_changed_elsewhere:
  "well_behaved items \<Longrightarrow> well_behaved items' \<Longrightarrow> mine x items = mine x items' \<Longrightarrow>
   od_get (snd (load_items items)) x = od_get (snd (load_items items')) x"
  by (metis entry_independent)

text \<open>A file with one entry per key: the lookup is the parsed entry.\<close>

lemma single_entry:
  assumes "well_behaved items" "mine x items = [(k, j)]"
  shows "od_get (snd (load_items items)) x =
           (case parse k j of Inr (Some v) \<Rightarrow> Some v | _ \<Rightarrow> None)"
proof -
  have "load_items [(k, j)] =
      (case parse k j of Inl e \<Rightarrow> (Some e, []) | Inr None \<Rightarrow> (None, [])
       | Inr (Some v) \<Rightarrow> (None, od_set (key_of k) v []))"
    using load_snoc [of "[]" k j] by (simp add: load_Nil)
  moreover have "key_of k = x"
  proof -
    have "(k, j) \<in> set (mine x items)" using assms(2) by simp
    then show ?thesis by (simp add: mine_def)
  qed
  ultimately show ?thesis
    using entry_independent [OF assms(1), of x] assms(2)
    by (auto split: sum.splits option.splits)
qed

lemma no_entry:
  assumes "mine x items = []"
  shows "od_get (snd (load_items items)) x = None"
proof (cases "od_get (snd (load_items items)) x")
  case (Some v)
  from entry_source [OF this] show ?thesis using assms by (force simp: mine_def filter_empty_conv)
qed

lemma mine_unique:
  assumes "\<And>k. key_of k = k" "distinct (map fst items)"
  shows "mine x items = (case map_of items x of None \<Rightarrow> [] | Some j \<Rightarrow> [(x, j)])"
proof -
  have "filter (\<lambda>(k, j). k = x) items = (case map_of items x of None \<Rightarrow> [] | Some j \<Rightarrow> [(x, j)])"
    using assms(2)
  proof (induction items)
    case (Cons p items)
    obtain k j where "p = (k, j)" by (cases p)
    moreover have "map_of items k = None" if "k \<notin> fst ` set items"
      using that by (simp add: map_of_eq_None_iff)
    ultimately show ?case using Cons by (auto split: option.splits)
  qed simp
  then show ?thesis using assms(1) by (simp add: mine_def)
qed

text \<open>A dictionary stored under its own keys: every lookup is the parsed entry.\<close>

lemma dict_lookup:
  assumes "\<And>k. key_of k = k" "distinct (map fst items)" "well_behaved items"
  shows "od_get (snd (load_items items)) x =
     (case map_of items x of None \<Rightarrow> None
      | Some j \<Rightarrow> (case parse x j of Inr (Some v) \<Rightarrow> Some v | _ \<Rightarrow> None))"
  using mine_unique [OF assms(1,2), of x] single_entry [OF assms(3), of x x] no_entry [of x items]
  by (auto split: option.splits)

lemma entry_present:
  "well_behaved items \<Longrightarrow> (k, j) \<in> set items \<Longrightarrow> parse k j = Inr (Some v) \<Longrightarrow>
   od_get (snd (load_items items)) (key_of k) \<noteq> None"
proof (induction items rule: rev_induct)
  case (snoc p items)
  obtain k' j' where p: "p = (k', j')" by (cases p)
  have wb: "well_behaved items" and r: "\<exists>r. parse k' j' = Inr r"
    using snoc.prems(1) p by (auto simp: well_behaved_def)
  have ok: "fst (load_items items) = None" using loads_iff wb by simp
  have "od_get (snd (load_items items)) (key_of k) \<noteq> None \<or> (k, j) = (k', j')"
    using snoc.IH [OF wb] snoc.prems p by auto
  then show ?case
    using ok r snoc.prems(3) by (auto simp: p load_snoc split: prod.splits option.splits)
qed simp

end

end
