(* ===== verification/Auth.thy ===== *)
theory Auth
  imports Entry_Store
begin

text \<open>
  Credentials and capabilities, \<open>core/auth.py\<close>: the key store and its load from a JSON file,
  the lookup by hash, the bearer header and the resolution of a request to a principal.

  \<open>sha\<close> stands for \<open>hashlib.sha256(...).hexdigest()\<close>.  \<open>hmac.compare_digest\<close> on two
  \<open>str\<close> raises \<open>TypeError\<close> when one has a non-ASCII character.
\<close>

section \<open>Definitions from the code\<close>

definition valid_capabilities :: "string list" where
  "valid_capabilities = [''GENERAL'', ''ELEVATED'', ''INTERNAL'']"

record principal =
  pr_capability :: string
  pr_tenant :: string
  pr_key_id :: string
  pr_authenticated :: bool
  pr_reason :: string

definition anonymous :: "string \<Rightarrow> principal" where
  "anonymous reason =
     \<lparr>pr_capability = ''GENERAL'', pr_tenant = ''default'', pr_key_id = ''anonymous'',
      pr_authenticated = False, pr_reason = reason\<rparr>"

definition to_audit :: "principal \<Rightarrow> (string \<times> json) list" where
  "to_audit p = [(''capability'', JStr (pr_capability p)), (''tenant'', JStr (pr_tenant p)),
     (''key_id'', JStr (pr_key_id p)), (''authenticated'', JBool (pr_authenticated p))]"

record grant =
  gr_capability :: string
  gr_tenant :: string
  gr_key_id :: string

record key_store =
  ks_keys :: "(string, grant) odict"
  ks_loaded :: bool

definition new_key_store :: key_store where
  "new_key_store = \<lparr>ks_keys = [], ks_loaded = False\<rparr>"

text \<open>One entry of the file: the grant, or \<open>None\<close> for the two \<open>continue\<close>s.\<close>

definition parse_grant :: "string \<Rightarrow> json \<Rightarrow> grant option" where
  "parse_grant key_hash g =
     (if \<not> is_dict g then None
      else let capability = str_upper (py_str (jget_or g ''capability'' (JStr [])))
           in if capability \<notin> set valid_capabilities then None
              else Some \<lparr>gr_capability = capability,
                         gr_tenant = py_str (jget_or g ''tenant'' (JStr ''default'')),
                         gr_key_id = py_str (jget_or g ''key_id'' (JStr (''key-'' @ take 8 key_hash)))\<rparr>)"

fun load_grants :: "(string, grant) odict \<Rightarrow> (string \<times> json) list \<Rightarrow> (string, grant) odict" where
  "load_grants new_keys [] = new_keys"
| "load_grants new_keys ((key_hash, g) # raw) =
     load_grants (case parse_grant key_hash g of
                    None \<Rightarrow> new_keys
                  | Some v \<Rightarrow> od_set (str_lower key_hash) v new_keys) raw"

definition ks_load :: "bool \<Rightarrow> disk_doc \<Rightarrow> key_store \<Rightarrow> key_store" where
  "ks_load force disk ks =
     (if ks_loaded ks \<and> \<not> force then ks
      else case disk of
             Missing \<Rightarrow> \<lparr>ks_keys = [], ks_loaded = True\<rparr>
           | Unreadable \<Rightarrow> ks\<lparr>ks_loaded := True\<rparr>
           | Doc raw \<Rightarrow>
               (case raw of
                  JDict items \<Rightarrow> \<lparr>ks_keys = load_grants [] items, ks_loaded = True\<rparr>
                | _ \<Rightarrow> \<lparr>ks_keys = [], ks_loaded = True\<rparr>))"

definition is_ascii :: "string \<Rightarrow> bool" where
  "is_ascii s = list_all (\<lambda>c. (of_char c :: nat) < 128) s"

definition compare_digest :: "string \<Rightarrow> string \<Rightarrow> (py_error, bool) res" where
  "compare_digest a b =
     (if is_ascii a \<and> is_ascii b then Inr (a = b)
      else Inl (TypeError ''comparing strings with non-ASCII characters is not supported''))"

fun find_grant :: "string \<Rightarrow> (string, grant) odict \<Rightarrow> (py_error, grant option) res" where
  "find_grant candidate [] = Inr None"
| "find_grant candidate ((stored_hash, g) # keys) =
     bind_res (compare_digest candidate stored_hash)
       (\<lambda>b. if b then Inr (Some g) else find_grant candidate keys)"

definition ks_lookup ::
  "(string \<Rightarrow> string) \<Rightarrow> disk_doc \<Rightarrow> string \<Rightarrow> key_store \<Rightarrow> (py_error, grant option) res \<times> key_store" where
  "ks_lookup sha disk plaintext ks =
     (let ks' = ks_load False disk ks in
      if plaintext = [] then (Inr None, ks') else (find_grant (sha plaintext) (ks_keys ks'), ks'))"

definition ks_len :: "disk_doc \<Rightarrow> key_store \<Rightarrow> nat \<times> key_store" where
  "ks_len disk ks = (let ks' = ks_load False disk ks in (length (ks_keys ks'), ks'))"

definition reload_keys :: "disk_doc \<Rightarrow> key_store \<Rightarrow> key_store" where
  "reload_keys disk ks = ks_load True disk ks"

text \<open>
  The token of \<open>Authorization: Bearer <token>\<close>: \<open>strip().split(None, 1)\<close> has two parts, the
  first of them "bearer" in any case.
\<close>

definition extract_bearer :: "string option \<Rightarrow> string" where
  "extract_bearer authorization =
     (case authorization of
        None \<Rightarrow> []
      | Some h \<Rightarrow>
          if h = [] then []
          else let a = str_strip h;
                   w = takeWhile (\<lambda>c. \<not> is_space c) a;
                   r = dropWhile is_space (dropWhile (\<lambda>c. \<not> is_space c) a)
               in if a = [] \<or> r = [] \<or> str_lower w \<noteq> ''bearer'' then [] else str_strip r)"

definition resolve_principal ::
  "(string \<Rightarrow> string) \<Rightarrow> disk_doc \<Rightarrow> string option \<Rightarrow> string option \<Rightarrow> key_store
   \<Rightarrow> (py_error, principal) res \<times> key_store" where
  "resolve_principal sha disk authorization api_key ks =
     (let token = (case api_key of Some k \<Rightarrow> if k \<noteq> [] then k else extract_bearer authorization
                                 | None \<Rightarrow> extract_bearer authorization)
      in if token = [] then (Inr (anonymous ''no credential presented''), ks)
         else let (r, ks') = ks_lookup sha disk token ks in
           (bind_res r (\<lambda>g. Inr (case g of
              None \<Rightarrow> anonymous ''unrecognised credential''
            | Some g \<Rightarrow> \<lparr>pr_capability = gr_capability g, pr_tenant = gr_tenant g,
                          pr_key_id = gr_key_id g, pr_authenticated = True,
                          pr_reason = ''verified api key''\<rparr>)), ks'))"

definition auth_required :: "string \<Rightarrow> bool" where
  "auth_required auth_mode = (auth_mode = ''required'')"

text \<open>The tier a CLI operator picks; the prompt itself is left out.\<close>

definition get_user_role :: "string \<Rightarrow> string" where
  "get_user_role choice =
     (if str_strip choice = ''2'' then ''ELEVATED''
      else if str_strip choice = ''3'' then ''INTERNAL'' else ''GENERAL'')"

section \<open>The key store as an entry store\<close>

lemma load_grants_append: "load_grants acc (xs @ ys) = load_grants (load_grants acc xs) ys"
  by (induction acc xs rule: load_grants.induct) (auto simp del: od_get_set split: option.splits)

interpretation key_entries: entry_store str_lower
  "\<lambda>k j. Inr (parse_grant k j)" "\<lambda>items. (None, load_grants [] items)"
  by unfold_locales (auto simp: load_grants_append split: option.splits)

lemma all_grants_behave [simp]: "key_entries.well_behaved items"
  by (auto simp: key_entries.well_behaved_def)

lemma parse_grant_valid: "parse_grant k j = Some g \<Longrightarrow> gr_capability g \<in> set valid_capabilities"
  by (auto simp: parse_grant_def Let_def split: if_splits)

lemma find_grant_ok:
  assumes "is_ascii c" "\<forall>k \<in> od_keys keys. is_ascii k"
  shows "find_grant c keys = Inr (od_get keys c)"
  using assms by (induction keys) (auto simp: compare_digest_def)

lemma find_grant_Some:
  "find_grant c keys = Inr (Some g) \<Longrightarrow> \<exists>k. (k, g) \<in> set keys \<and> k = c"
  by (induction keys) (auto simp: compare_digest_def split: if_splits)

lemma od_wf_find: "od_wf keys \<Longrightarrow> find_grant c keys = Inr (Some g) \<Longrightarrow> od_get keys c = Some g"
  using find_grant_Some od_get_mem by metis

lemma find_grant_blocked:
  "is_ascii c \<Longrightarrow> \<not> is_ascii k \<Longrightarrow> od_get xs c = None \<Longrightarrow> isl (find_grant c (xs @ (k, g) # ys))"
  by (induction xs) (auto simp: compare_digest_def split: if_splits)

text \<open>The keys a store holds come from a file that was loaded, or there are none.\<close>

definition holds_grants_of :: "(string \<times> json) list \<Rightarrow> key_store \<Rightarrow> bool" where
  "holds_grants_of items ks \<longleftrightarrow> ks_keys ks = load_grants [] items"

definition bearer_token :: "string option \<Rightarrow> string option \<Rightarrow> string" where
  "bearer_token authorization api_key =
     (case api_key of Some k \<Rightarrow> if k \<noteq> [] then k else extract_bearer authorization
                    | None \<Rightarrow> extract_bearer authorization)"

lemma resolve_principal_cases:
  "resolve_principal sha disk au ak ks =
     (let token = bearer_token au ak in
      if token = [] then (Inr (anonymous ''no credential presented''), ks)
      else (case find_grant (sha token) (ks_keys (ks_load False disk ks)) of
              Inl e \<Rightarrow> Inl e
            | Inr None \<Rightarrow> Inr (anonymous ''unrecognised credential'')
            | Inr (Some g) \<Rightarrow> Inr \<lparr>pr_capability = gr_capability g, pr_tenant = gr_tenant g,
                          pr_key_id = gr_key_id g, pr_authenticated = True,
                          pr_reason = ''verified api key''\<rparr>,
            ks_load False disk ks))"
  by (auto simp: resolve_principal_def bearer_token_def ks_lookup_def Let_def
      split: option.splits sum.splits)

lemma is_ascii_lower: "is_ascii (str_lower s) = is_ascii s"
proof -
  have "(of_char (lower_char c) :: nat) < 128 \<longleftrightarrow> (of_char c :: nat) < 128" for c
    by (auto simp: lower_char_def Let_def)
  then show ?thesis by (simp add: is_ascii_def str_lower_def list_all_iff)
qed

lemma loaded_keys_ascii:
  assumes "\<forall>(k, j) \<in> set items. is_ascii k"
  shows "\<forall>k \<in> od_keys (load_grants [] items). is_ascii k"
proof
  fix x assume "x \<in> od_keys (load_grants [] items)"
  then have "x \<in> str_lower ` fst ` set items" using key_entries.keys_source [of items] by auto
  then show "is_ascii x" using assms by (auto simp: is_ascii_lower)
qed

lemma load_grants_head: "\<exists>v' rest'. load_grants ((x, v) # rest) items = (x, v') # rest'"
proof (induction items arbitrary: v rest)
  case (Cons p items)
  obtain k j where "p = (k, j)" by (cases p)
  then show ?case
    using Cons by (cases "parse_grant k j"; cases "x = str_lower k") (auto simp: od_set_def)
qed simp

lemma fresh_load: "ks_keys (ks_load False (Doc (JDict items)) new_key_store) = load_grants [] items"
  by (simp add: ks_load_def new_key_store_def)

section \<open>Properties\<close>

text \<open>
  C9. No escalation: whatever headers a caller sends, a principal is above GENERAL (or
  authenticated at all) only if the loaded key file has an entry whose lower-cased key is the
  hash of the presented token and whose capability is one of the three tiers; capability,
  tenant and key id are those of that entry.  Every other caller is the anonymous GENERAL
  principal of the default tenant.
\<close>

theorem no_privilege_escalation:
  assumes "holds_grants_of items (ks_load False disk ks)"
    and "fst (resolve_principal sha disk authorization api_key ks) = Inr p"
  shows "(\<not> pr_authenticated p \<and> pr_capability p = ''GENERAL'' \<and> pr_tenant p = ''default'')
    \<or> (\<exists>(k, j) \<in> set items. str_lower k = sha (bearer_token authorization api_key)
         \<and> bearer_token authorization api_key \<noteq> []
         \<and> (\<exists>g. parse_grant k j = Some g \<and> pr_capability p = gr_capability g
              \<and> pr_tenant p = gr_tenant g \<and> pr_key_id p = gr_key_id g)
         \<and> pr_capability p \<in> {''GENERAL'', ''ELEVATED'', ''INTERNAL''})"
proof -
  let ?t = "bearer_token authorization api_key"
  let ?keys = "load_grants [] items"
  have keys: "ks_keys (ks_load False disk ks) = ?keys" using assms(1) by (simp add: holds_grants_of_def)
  consider "p = anonymous ''no credential presented''" | "p = anonymous ''unrecognised credential''"
    | g where "?t \<noteq> []" "find_grant (sha ?t) ?keys = Inr (Some g)" "pr_capability p = gr_capability g"
        "pr_tenant p = gr_tenant g" "pr_key_id p = gr_key_id g"
    using assms(2) by (auto simp: resolve_principal_cases keys Let_def split: if_splits sum.splits option.splits)
  then show ?thesis
  proof cases
    case 3
    have "od_get (snd (None :: py_error option, ?keys)) (sha ?t) = Some g"
      using od_wf_find [OF _ 3(2)] key_entries.store_wf [of items] by simp
    from key_entries.entry_source [OF this] obtain k j
      where "(k, j) \<in> set items" "str_lower k = sha ?t" "parse_grant k j = Some g" by auto
    moreover have "gr_capability g \<in> {''GENERAL'', ''ELEVATED'', ''INTERNAL''}"
      using parse_grant_valid [OF calculation(3)] by (simp add: valid_capabilities_def)
    ultimately show ?thesis using 3 by fastforce
  qed (simp_all add: anonymous_def)
qed

theorem no_privilege_escalation_witness:
  "let sha = (\<lambda>t. CHR ''h'' # t);
       items = [(''HK1'', JDict [(''capability'', JStr ''internal''), (''tenant'', JStr ''acme'')]),
                (''hk2'', JDict [(''capability'', JStr ''root'')])];
       ask = (\<lambda>au. case fst (resolve_principal sha (Doc (JDict items)) (Some au) None new_key_store) of
                  Inr p \<Rightarrow> pr_capability p | Inl e \<Rightarrow> [])
   in ask ''Bearer k1'' = ''INTERNAL'' \<and> ask ''bearer k2'' = ''GENERAL'' \<and> ask ''Basic k1'' = ''GENERAL''"
proof -
  let ?sha = "\<lambda>t. CHR ''h'' # t"
  let ?items = "[(''HK1'', JDict [(''capability'', JStr ''internal''), (''tenant'', JStr ''acme'')]),
                (''hk2'', JDict [(''capability'', JStr ''root'')])]"
  let ?r = "\<lambda>au. fst (resolve_principal ?sha (Doc (JDict ?items)) (Some au) None new_key_store)"
  have e: "(case ?r ''Bearer k1'' of Inr p \<Rightarrow> pr_capability p | Inl e \<Rightarrow> []) = ''INTERNAL''"
      "(case ?r ''Basic k1'' of Inr p \<Rightarrow> pr_capability p | Inl e \<Rightarrow> []) = ''GENERAL''"
      "\<not> isl (?r ''bearer k2'')"
    by code_simp+
  obtain p where p: "?r ''bearer k2'' = Inr p" using e(3) by (cases "?r ''bearer k2''") auto
  have none: "(\<forall>(k, j) \<in> set ?items. str_lower k = ?sha (bearer_token (Some ''bearer k2'') None) \<longrightarrow>
      parse_grant k j = None)"
    by code_simp
  have "holds_grants_of ?items (ks_load False (Doc (JDict ?items)) new_key_store)"
    by (simp only: holds_grants_of_def fresh_load)
  from no_privilege_escalation [OF this p] none
  have "pr_capability p = ''GENERAL''" by fastforce
  then show ?thesis using p e unfolding Let_def by simp
qed

text \<open>
  The keys are independent: what a token resolves to is decided by the entries of the file
  whose key is the token's hash.  Adding, removing, mistyping or malforming any other entry
  changes nothing for it (with hexadecimal, so ASCII, keys).
\<close>

theorem grants_are_independent:
  assumes "\<forall>(k, j) \<in> set (items @ items'). is_ascii k" "\<forall>t. is_ascii (sha t)"
    and "[(k, j) \<leftarrow> items. str_lower k = sha (bearer_token authorization api_key)]
       = [(k, j) \<leftarrow> items'. str_lower k = sha (bearer_token authorization api_key)]"
  shows "fst (resolve_principal sha (Doc (JDict items)) authorization api_key new_key_store)
       = fst (resolve_principal sha (Doc (JDict items')) authorization api_key new_key_store)"
proof -
  let ?h = "sha (bearer_token authorization api_key)"
  have "key_entries.mine ?h items = key_entries.mine ?h items'"
    using assms(3) by (simp add: key_entries.mine_def)
  from key_entries.entry_changed_elsewhere [OF _ _ this]
  have "od_get (load_grants [] items) ?h = od_get (load_grants [] items') ?h" by simp
  moreover have "find_grant ?h (load_grants [] items) = Inr (od_get (load_grants [] items) ?h)"
      "find_grant ?h (load_grants [] items') = Inr (od_get (load_grants [] items') ?h)"
    using assms(1,2) by (intro find_grant_ok loaded_keys_ascii; auto)+
  ultimately show ?thesis by (simp add: resolve_principal_cases fresh_load Let_def)
qed

theorem grants_are_independent_witness:
  "let good = (''hk1'', JDict [(''capability'', JStr ''ELEVATED'')]) in
   fst (resolve_principal (\<lambda>t. ''hk1'') (Doc (JDict [good])) None (Some ''k1'') new_key_store)
   = fst (resolve_principal (\<lambda>t. ''hk1'') (Doc (JDict [(''hk9'', JStr ''typo''), good, (''hk2'', JDict [])]))
       None (Some ''k1'') new_key_store)"
  unfolding Let_def
  by (rule grants_are_independent) (simp_all add: is_ascii_def, code_simp)

text \<open>
  One bad key stops every lookup: when the first entry of the file carries a valid grant
  under a key with a non-ASCII character, every request with a token raises \<open>TypeError\<close>,
  whatever valid keys follow.
\<close>

theorem non_ascii_key_breaks_every_lookup:
  assumes "parse_grant k j = Some g" "\<not> is_ascii k" "bearer_token authorization api_key \<noteq> []"
  shows "\<exists>e. fst (resolve_principal sha (Doc (JDict ((k, j) # rest))) authorization api_key new_key_store)
             = Inl (TypeError e)"
proof -
  have "\<not> is_ascii (str_lower k)" using assms(2) by (simp add: is_ascii_lower)
  moreover obtain v' rest' where "load_grants [(str_lower k, g)] rest = (str_lower k, v') # rest'"
    using load_grants_head by blast
  ultimately show ?thesis
    using assms(1,3)
    by (simp add: resolve_principal_cases fresh_load od_set_def compare_digest_def Let_def)
qed

theorem non_ascii_key_breaks_every_lookup_witness:
  "\<exists>e. fst (resolve_principal (\<lambda>t. ''hk1'')
      (Doc (JDict [([CHR 0xE9], JDict [(''capability'', JStr ''GENERAL'')]),
                   (''hk1'', JDict [(''capability'', JStr ''ELEVATED'')])])) None (Some ''k1'') new_key_store)
      = Inl (TypeError e)"
proof -
  have "parse_grant [CHR 0xE9] (JDict [(''capability'', JStr ''GENERAL'')])
    = Some \<lparr>gr_capability = ''GENERAL'', gr_tenant = ''default'', gr_key_id = ''key-'' @ [CHR 0xE9]\<rparr>"
    by code_simp
  from non_ascii_key_breaks_every_lookup [OF this, of None "Some ''k1''"] show ?thesis
    by (simp add: is_ascii_def bearer_token_def)
qed

end
