(* ===== verification/Tenancy.thy ===== *)
theory Tenancy
  imports Entry_Store
begin

text \<open>
  Tenant identity and SLA, \<open>core/tenancy.py\<close>: the tenant store, its load from a JSON file
  (exceptions the code does not catch included) and the resolution of a tenant id.
\<close>

section \<open>Definitions from the code\<close>

record tenant_config =
  tc_tenant_id :: string
  tc_display_name :: string
  tc_status :: string
  tc_rate_limit_rpm :: "pyfloat option"
  tc_token_quota_daily :: "int option"
  tc_privacy_disabled_patterns :: "string list option"
  tc_privacy_ner_labels :: "string list option"

definition suspended :: "tenant_config \<Rightarrow> bool" where
  "suspended c = (tc_status c = ''suspended'')"

definition default_tenant :: tenant_config where
  "default_tenant =
     \<lparr>tc_tenant_id = ''default'', tc_display_name = ''Default'', tc_status = ''active'',
      tc_rate_limit_rpm = None, tc_token_quota_daily = None,
      tc_privacy_disabled_patterns = None, tc_privacy_ner_labels = None\<rparr>"

record tenant_store =
  ts_tenants :: "(string, tenant_config) odict"
  ts_loaded :: bool

definition new_tenant_store :: tenant_store where
  "new_tenant_store = \<lparr>ts_tenants = [], ts_loaded = False\<rparr>"

text \<open>\<open>rate_limit_rpm\<close> and \<open>token_quota_daily\<close>: \<open>None\<close> after a caught error.\<close>

definition parse_rpm :: "json \<Rightarrow> (py_error, pyfloat option) res" where
  "parse_rpm v =
     (if v = JNull then Inr None
      else case float_of_json v of
             Inr x \<Rightarrow> if pyfloat_le0 x then Inr None else Inr (Some x)
           | Inl e \<Rightarrow> if caught_type_value e then Inr None else Inl e)"

definition parse_quota :: "json \<Rightarrow> (py_error, int option) res" where
  "parse_quota v =
     (if v = JNull then Inr None
      else case int_of_json v of
             Inr i \<Rightarrow> if i < 0 then Inr None else Inr (Some i)
           | Inl e \<Rightarrow> if caught_type_value e then Inr None else Inl e)"

text \<open>\<open>privacy_disabled_patterns\<close> and \<open>privacy_ner_labels\<close>, read the same way.\<close>

definition parse_labels :: "json \<Rightarrow> string list option" where
  "parse_labels v =
     (case v of
        JList ps \<Rightarrow> Some (map (\<lambda>p. str_upper (py_str p)) (filter (\<lambda>p. str_strip (py_str p) \<noteq> []) ps))
      | _ \<Rightarrow> None)"

definition parse_tenant :: "string \<Rightarrow> json \<Rightarrow> (py_error, tenant_config option) res" where
  "parse_tenant tenant_id g =
     (if \<not> is_dict g then Inr None
      else let status = str_lower (py_str (jget_or g ''status'' (JStr ''active''))) in
        if status \<noteq> ''active'' \<and> status \<noteq> ''suspended'' then Inr None
        else bind_res (parse_rpm (jget_or g ''rate_limit_rpm'' JNull)) (\<lambda>rpm.
             bind_res (parse_quota (jget_or g ''token_quota_daily'' JNull)) (\<lambda>quota.
               Inr (Some
                 \<lparr>tc_tenant_id = tenant_id,
                  tc_display_name = py_str (jget_or g ''display_name'' (JStr tenant_id)),
                  tc_status = status, tc_rate_limit_rpm = rpm, tc_token_quota_daily = quota,
                  tc_privacy_disabled_patterns = parse_labels (jget_or g ''privacy_disabled_patterns'' JNull),
                  tc_privacy_ner_labels = parse_labels (jget_or g ''privacy_ner_labels'' JNull)\<rparr>))))"

text \<open>The loop fills \<open>self._tenants\<close> in place; an exception leaves it half filled.\<close>

fun load_tenants ::
  "(string, tenant_config) odict \<Rightarrow> (string \<times> json) list \<Rightarrow> py_error option \<times> (string, tenant_config) odict" where
  "load_tenants tenants [] = (None, tenants)"
| "load_tenants tenants ((tenant_id, g) # raw) =
     (case parse_tenant tenant_id g of
        Inl e \<Rightarrow> (Some e, tenants)
      | Inr None \<Rightarrow> load_tenants tenants raw
      | Inr (Some c) \<Rightarrow> load_tenants (od_set tenant_id c tenants) raw)"

definition ts_load :: "bool \<Rightarrow> disk_doc \<Rightarrow> tenant_store \<Rightarrow> py_error option \<times> tenant_store" where
  "ts_load force disk ts =
     (if ts_loaded ts \<and> \<not> force then (None, ts)
      else case disk of
             Doc (JDict items) \<Rightarrow>
               (let (err, tenants) = load_tenants [] items
                in (err, \<lparr>ts_tenants = tenants, ts_loaded = True\<rparr>))
           | _ \<Rightarrow> (None, \<lparr>ts_tenants = [], ts_loaded = True\<rparr>))"

definition ts_get :: "disk_doc \<Rightarrow> string \<Rightarrow> tenant_store \<Rightarrow> (py_error, tenant_config) res \<times> tenant_store" where
  "ts_get disk tenant_id ts =
     (case ts_load False disk ts of
        (Some e, ts') \<Rightarrow> (Inl e, ts')
      | (None, ts') \<Rightarrow>
          (Inr (case od_get (ts_tenants ts') tenant_id of None \<Rightarrow> default_tenant | Some c \<Rightarrow> c), ts'))"

definition ts_len :: "disk_doc \<Rightarrow> tenant_store \<Rightarrow> (py_error, nat) res \<times> tenant_store" where
  "ts_len disk ts =
     (case ts_load False disk ts of
        (Some e, ts') \<Rightarrow> (Inl e, ts') | (None, ts') \<Rightarrow> (Inr (length (ts_tenants ts')), ts'))"

definition reload_tenants :: "disk_doc \<Rightarrow> tenant_store \<Rightarrow> py_error option \<times> tenant_store" where
  "reload_tenants disk ts = ts_load True disk ts"

definition resolve_tenant :: "disk_doc \<Rightarrow> string \<Rightarrow> tenant_store \<Rightarrow> (py_error, tenant_config) res \<times> tenant_store" where
  "resolve_tenant disk tenant_id ts = ts_get disk tenant_id ts"

section \<open>The tenant store as an entry store\<close>

lemma load_tenants_append:
  "load_tenants acc (xs @ ys) =
     (case load_tenants acc xs of (Some e, d) \<Rightarrow> (Some e, d) | (None, d) \<Rightarrow> load_tenants d ys)"
  by (induction acc xs rule: load_tenants.induct) (auto split: sum.splits option.splits)

interpretation tenant_entries: entry_store "\<lambda>k. k" parse_tenant "load_tenants []"
  by unfold_locales
    (auto simp: load_tenants_append split: prod.splits option.splits sum.splits)

lemma load_all_entries:
  assumes "tenant_entries.well_behaved items" "distinct (map fst items)"
  shows "od_get (snd (load_tenants [] items)) x =
     (case map_of items x of None \<Rightarrow> None
      | Some j \<Rightarrow> (case parse_tenant x j of Inr (Some c) \<Rightarrow> Some c | _ \<Rightarrow> None))"
  by (rule tenant_entries.dict_lookup [OF refl assms(2,1)])

lemma ts_get_fresh:
  "ts_get (Doc (JDict items)) x new_tenant_store =
     (let (err, d) = load_tenants [] items; ts' = \<lparr>ts_tenants = d, ts_loaded = True\<rparr> in
      (case err of Some e \<Rightarrow> Inl e
       | None \<Rightarrow> Inr (case od_get d x of None \<Rightarrow> default_tenant | Some c \<Rightarrow> c), ts'))"
  by (auto simp: ts_get_def ts_load_def new_tenant_store_def Let_def split: prod.splits option.splits)

lemma parse_tenant_suspended:
  "parse_tenant t j = Inr (Some c) \<Longrightarrow>
   suspended c \<longleftrightarrow> str_lower (py_str (jget_or j ''status'' (JStr ''active''))) = ''suspended''"
  by (cases "parse_rpm (jget_or j ''rate_limit_rpm'' JNull)";
      cases "parse_quota (jget_or j ''token_quota_daily'' JNull)")
    (auto simp: parse_tenant_def suspended_def Let_def split: if_splits)

lemma load_tenants_stops:
  assumes "tenant_entries.well_behaved pre" "parse_tenant k j = Inl e"
  shows "load_tenants [] (pre @ (k, j) # post) = (Some e, snd (load_tenants [] pre))"
proof -
  have "fst (load_tenants [] pre) = None" using tenant_entries.loads_iff assms(1) by simp
  then show ?thesis
    using assms(2) by (auto simp: load_tenants_append split: prod.splits)
qed

lemma corrupt_store_readmits_everyone:
  "fst (resolve_tenant Unreadable t (snd (reload_tenants Unreadable ts))) = Inr default_tenant
   \<and> \<not> suspended default_tenant"
  by (simp add: resolve_tenant_def reload_tenants_def ts_get_def ts_load_def suspended_def default_tenant_def)

section \<open>Properties\<close>

text \<open>
  Tenant resolution is exact and entry by entry: with a tenant file whose entries raise
  nothing, a tenant resolves to what its own entry says and to the default tenant when it has
  none or a malformed one, whatever the other entries are; it is suspended exactly when its
  own entry's status reads "suspended" in any case.
\<close>

theorem tenant_resolution_exact:
  assumes "\<forall>(k, j) \<in> set items. \<exists>r. parse_tenant k j = Inr r" "distinct (map fst items)"
  shows "\<exists>c. fst (resolve_tenant (Doc (JDict items)) t new_tenant_store) = Inr c
    \<and> c = (case map_of items t of None \<Rightarrow> default_tenant
           | Some j \<Rightarrow> (case parse_tenant t j of Inr (Some c) \<Rightarrow> c | _ \<Rightarrow> default_tenant))
    \<and> (suspended c \<longleftrightarrow> (\<exists>d. map_of items t = Some (JDict d)
          \<and> str_lower (py_str (jget_or (JDict d) ''status'' (JStr ''active''))) = ''suspended''))"
proof -
  have wb: "tenant_entries.well_behaved items" using assms(1) by (simp add: tenant_entries.well_behaved_def)
  let ?c = "case map_of items t of None \<Rightarrow> default_tenant
           | Some j \<Rightarrow> (case parse_tenant t j of Inr (Some c) \<Rightarrow> c | _ \<Rightarrow> default_tenant)"
  have "fst (load_tenants [] items) = None" using tenant_entries.loads_iff wb by simp
  then have r: "fst (resolve_tenant (Doc (JDict items)) t new_tenant_store) = Inr ?c"
    using load_all_entries [OF wb assms(2), of t]
    by (auto simp: resolve_tenant_def ts_get_fresh Let_def split: prod.splits option.splits sum.splits)
  have d: "\<not> suspended default_tenant" by (simp add: suspended_def default_tenant_def)
  have "suspended ?c \<longleftrightarrow> (\<exists>d. map_of items t = Some (JDict d)
          \<and> str_lower (py_str (jget_or (JDict d) ''status'' (JStr ''active''))) = ''suspended'')"
  proof (cases "map_of items t")
    case (Some j)
    then obtain r' where r': "parse_tenant t j = Inr r'" using assms(1) map_of_SomeD by fast
    show ?thesis
    proof (cases r')
      case None
      then show ?thesis using Some r' d
        by (cases "parse_rpm (jget_or j ''rate_limit_rpm'' JNull)";
            cases "parse_quota (jget_or j ''token_quota_daily'' JNull)")
          (auto simp: parse_tenant_def is_dict_iff Let_def split: if_splits)
    next
      case (Some c)
      then have "is_dict j" using r' by (auto simp: parse_tenant_def split: if_splits)
      then show ?thesis
        using \<open>map_of items t = Some j\<close> r' Some parse_tenant_suspended by (auto simp: is_dict_iff)
    qed
  qed (simp add: d)
  with r show ?thesis by blast
qed

theorem tenant_resolution_exact_witness:
  "case fst (resolve_tenant (Doc (JDict
      [(''bad'', JInt 3), (''acme'', JDict [(''status'', JStr ''SUSPENDED''), (''token_quota_daily'', JStr ''12'')])]))
      ''acme'' new_tenant_store) of Inr c \<Rightarrow> suspended c | Inl e \<Rightarrow> False"
proof -
  let ?items = "[(''bad'', JInt 3), (''acme'', JDict [(''status'', JStr ''SUSPENDED''), (''token_quota_daily'', JStr ''12'')])]"
  have low: "str_lower ''SUSPENDED'' = ''suspended''" by code_simp
  have "list_all (\<lambda>(k, j). \<not> isl (parse_tenant k j)) ?items" by code_simp
  then have "\<forall>(k, j) \<in> set ?items. \<exists>r. parse_tenant k j = Inr r"
    by (auto simp: list_all_iff) (metis sum.collapse(2))+
  from tenant_resolution_exact [OF this, of "''acme''"] low
  show ?thesis by auto
qed

text \<open>
  One entry can void the others: an entry whose parsing raises an uncaught exception (a
  quota that is an infinity) makes the first resolution raise, and from then on every tenant
  listed only after it resolves, silently, to the active default tenant, suspended or not.
\<close>

theorem overflowing_quota_voids_later_tenants:
  assumes "\<forall>(k, j) \<in> set pre. \<exists>r. parse_tenant k j = Inr r" "parse_tenant k j = Inl e"
    and "t \<notin> fst ` set pre"
  shows "case resolve_tenant (Doc (JDict (pre @ (k, j) # post))) t' new_tenant_store of
           (r, ts) \<Rightarrow> r = Inl e \<and> fst (resolve_tenant disk t ts) = Inr default_tenant"
proof -
  have wb: "tenant_entries.well_behaved pre" using assms(1) by (simp add: tenant_entries.well_behaved_def)
  have "tenant_entries.mine t pre = []" using assms(3) by (force simp: tenant_entries.mine_def filter_empty_conv)
  then have "od_get (snd (load_tenants [] pre)) t = None" by (rule tenant_entries.no_entry)
  then show ?thesis
    by (simp add: resolve_tenant_def ts_get_fresh load_tenants_stops [OF wb assms(2)] ts_get_def [of disk] ts_load_def)
qed

theorem overflowing_quota_voids_later_tenants_witness:
  "case resolve_tenant (Doc (JDict
      [(''trial'', JDict [(''token_quota_daily'', JInf True)]),
       (''banned'', JDict [(''status'', JStr ''suspended'')])])) ''acme'' new_tenant_store of
     (r, ts) \<Rightarrow> isl r \<and> fst (resolve_tenant Missing ''banned'' ts) = Inr default_tenant"
proof -
  have p: "parse_tenant ''trial'' (JDict [(''token_quota_daily'', JInf True)])
      = Inl (OverflowError ''cannot convert float infinity to integer'')"
    by code_simp
  show ?thesis
    using overflowing_quota_voids_later_tenants [where pre = "[]" and t = "''banned''" and t' = "''acme''"
        and disk = Missing and post = "[(''banned'', JDict [(''status'', JStr ''suspended'')])]", OF _ p]
    by (auto split: prod.splits)
qed

end
