(* ===== verification/Assess_Result.thy ===== *)
theory Assess_Result
  imports Prelude
begin

text \<open>
  The typed assessment result of \<open>core/assess_result.py\<close> with its wire form, and the closed
  vocabulary of verdict sources of \<open>core/metrics.py\<close>.
\<close>

section \<open>Definitions from the code\<close>

text \<open>A value of the wire dictionary.\<close>

datatype dval = VNone | VStr string | VNum real | VBool bool | VScores "(string \<times> real) list"

record assess_result =
  ar_risk_level :: string
  ar_source :: string
  ar_context :: string
  ar_semantic_score :: "real option"
  ar_detail :: "string option"
  ar_educational_context :: bool
  ar_domain_score :: "real option"
  ar_topicality :: string
  ar_symbolic_triggered :: bool
  ar_judge_invoked :: bool
  ar_meta_intent_score :: "real option"
  ar_fusion_triggering_class :: "string option"
  ar_fusion_class_scores :: "(string \<times> real) list"
  ar_centroid_score :: "real option"
  ar_fusion_available :: "bool option"
  ar_fusion_detail :: "string option"
  ar_fusion_detector_scores :: "(string \<times> real) list option"
  ar_anchor_threat_score :: "real option"
  ar_meta_intent_ms :: "real option"
  ar_faiss_threat_search_ms :: "real option"
  ar_domain_alignment_ms :: "real option"
  ar_fusion_ms :: "real option"

text \<open>The dataclass defaults.\<close>

definition base_result :: "string \<Rightarrow> string \<Rightarrow> string \<Rightarrow> assess_result" where
  "base_result risk_level source context =
     \<lparr>ar_risk_level = risk_level, ar_source = source, ar_context = context,
      ar_semantic_score = None, ar_detail = None, ar_educational_context = False,
      ar_domain_score = None, ar_topicality = ''UNKNOWN'', ar_symbolic_triggered = False,
      ar_judge_invoked = False, ar_meta_intent_score = None, ar_fusion_triggering_class = None,
      ar_fusion_class_scores = [], ar_centroid_score = None, ar_fusion_available = None,
      ar_fusion_detail = None, ar_fusion_detector_scores = None, ar_anchor_threat_score = None,
      ar_meta_intent_ms = None, ar_faiss_threat_search_ms = None, ar_domain_alignment_ms = None,
      ar_fusion_ms = None\<rparr>"

definition cache_hit :: "string \<Rightarrow> real \<Rightarrow> bool \<Rightarrow> assess_result" where
  "cache_hit risk_level semantic_score locked_high =
     (let c = (if locked_high then ''cache_locked_high'' else ''cache'')
      in (base_result risk_level c c)\<lparr>ar_semantic_score := Some semantic_score\<rparr>)"

definition symbolic_result :: "string \<Rightarrow> assess_result" where
  "symbolic_result detail =
     (base_result ''HIGH'' ''symbolic_rule'' ''symbolic'')
       \<lparr>ar_detail := Some detail, ar_semantic_score := Some 1, ar_symbolic_triggered := True\<rparr>"

definition fast_path_result :: "string \<Rightarrow> string \<Rightarrow> real \<Rightarrow> assess_result" where
  "fast_path_result risk_level source meta_intent_score =
     (base_result risk_level source ''fast_path'')
       \<lparr>ar_semantic_score := Some 1, ar_meta_intent_score := Some meta_intent_score\<rparr>"

definition common_keys :: "string list" where
  "common_keys = [''educational_context'', ''domain_score'', ''topicality'', ''symbolic_triggered'',
     ''judge_invoked'', ''meta_intent_score'', ''fusion_triggering_class'', ''fusion_class_scores'']"

definition keys_of :: "string \<Rightarrow> string list" where
  "keys_of context =
     (if context = ''cache'' \<or> context = ''cache_locked_high'' then [''semantic_score'', ''source''] @ common_keys
      else if context = ''symbolic'' then [''source'', ''detail'', ''semantic_score''] @ common_keys
      else if context = ''fast_path'' then [''source'', ''semantic_score''] @ common_keys
      else [''semantic_score'', ''source'', ''educational_context'', ''domain_score'', ''topicality'',
            ''symbolic_triggered'', ''judge_invoked'', ''centroid_score'', ''fusion_available'',
            ''fusion_detail'', ''fusion_detector_scores'', ''fusion_triggering_class'',
            ''fusion_class_scores'', ''anchor_threat_score'', ''meta_intent_score'', ''meta_intent_ms'',
            ''faiss_threat_search_ms'', ''domain_alignment_ms'', ''fusion_ms''])"

definition vnum :: "real option \<Rightarrow> dval" where
  "vnum x = (case x of None \<Rightarrow> VNone | Some r \<Rightarrow> VNum r)"

definition vstr :: "string option \<Rightarrow> dval" where
  "vstr x = (case x of None \<Rightarrow> VNone | Some s \<Rightarrow> VStr s)"

text \<open>\<open>getattr(self, k)\<close>.\<close>

definition result_field :: "assess_result \<Rightarrow> string \<Rightarrow> dval" where
  "result_field r k =
     (if k = ''semantic_score'' then vnum (ar_semantic_score r)
      else if k = ''source'' then VStr (ar_source r)
      else if k = ''detail'' then vstr (ar_detail r)
      else if k = ''educational_context'' then VBool (ar_educational_context r)
      else if k = ''domain_score'' then vnum (ar_domain_score r)
      else if k = ''topicality'' then VStr (ar_topicality r)
      else if k = ''symbolic_triggered'' then VBool (ar_symbolic_triggered r)
      else if k = ''judge_invoked'' then VBool (ar_judge_invoked r)
      else if k = ''meta_intent_score'' then vnum (ar_meta_intent_score r)
      else if k = ''fusion_triggering_class'' then vstr (ar_fusion_triggering_class r)
      else if k = ''fusion_class_scores'' then VScores (ar_fusion_class_scores r)
      else if k = ''centroid_score'' then vnum (ar_centroid_score r)
      else if k = ''fusion_available'' then (case ar_fusion_available r of None \<Rightarrow> VNone | Some b \<Rightarrow> VBool b)
      else if k = ''fusion_detail'' then vstr (ar_fusion_detail r)
      else if k = ''fusion_detector_scores''
           then (case ar_fusion_detector_scores r of None \<Rightarrow> VNone | Some m \<Rightarrow> VScores m)
      else if k = ''anchor_threat_score'' then vnum (ar_anchor_threat_score r)
      else if k = ''meta_intent_ms'' then vnum (ar_meta_intent_ms r)
      else if k = ''faiss_threat_search_ms'' then vnum (ar_faiss_threat_search_ms r)
      else if k = ''domain_alignment_ms'' then vnum (ar_domain_alignment_ms r)
      else if k = ''fusion_ms'' then vnum (ar_fusion_ms r)
      else VNone)"

definition to_dict :: "assess_result \<Rightarrow> (string \<times> dval) list" where
  "to_dict r = map (\<lambda>k. (k, result_field r k)) (keys_of (ar_context r))"

definition as_return :: "assess_result \<Rightarrow> string \<times> (string \<times> dval) list" where
  "as_return r = (ar_risk_level r, to_dict r)"

section \<open>Metrics labels\<close>

definition known_sources :: "string list" where
  "known_sources =
     [''cache'', ''cache_locked_high'', ''clean_pass'', ''domain_guardrail'', ''educational_safe_harbor'',
      ''fusion_clean_pass'', ''fusion_educational_safe_harbor'', ''fusion_judge_pending'',
      ''fusion_threat_critical'', ''judge_failure_fail_closed'', ''judge_pending'',
      ''llama_guard_arbitration'', ''llama_guard_async_escalation'', ''llama_guard_override'',
      ''llama_guard_override_capped'', ''llama_guard_override_restricted'', ''semantic_judge'',
      ''semantic_judge_ambiguous'', ''semantic_judge_override'', ''semantic_judge_override_capped'',
      ''semantic_judge_override_restricted'', ''semantic_meta_intent'', ''fast_path_meta_intent'',
      ''fast_path_anchor_critical'', ''symbolic_rule'', ''vector_threat_critical'', ''mock'', ''unknown'']"

text \<open>
  The counters a recorded assessment moves: labelled increments and observations, in order.
\<close>

datatype metric_event =
    UnknownSource string
  | Assessments string string string
  | TenantAssessments string string
  | StageDuration string real
  | JudgeInvocations

definition truncate_label :: "string \<Rightarrow> string" where
  "truncate_label value = (if length value \<le> 40 then value else take 40 value)"

definition safe_source :: "string \<Rightarrow> string \<times> metric_event list" where
  "safe_source source =
     (if source \<in> set known_sources then (source, [])
      else (''other'', [UnknownSource (truncate_label source)]))"

definition stage_keys :: "(string \<times> string) list" where
  "stage_keys = [(''meta_intent_ms'', ''meta_intent''), (''faiss_threat_search_ms'', ''faiss_threat_search''),
     (''domain_alignment_ms'', ''domain_alignment''), (''fusion_ms'', ''fusion'')]"

text \<open>A boolean is an \<open>int\<close> here too, so it would be observed as 0 or 1.\<close>

definition stage_event :: "(string \<times> dval) list \<Rightarrow> string \<times> string \<Rightarrow> metric_event list" where
  "stage_event details ks =
     (case map_of details (fst ks) of
        Some (VNum x) \<Rightarrow> if x \<ge> 0 then [StageDuration (snd ks) (x / 1000)] else []
      | Some (VBool b) \<Rightarrow> [StageDuration (snd ks) ((if b then 1 else 0) / 1000)]
      | _ \<Rightarrow> [])"

definition record_assessment :: "string \<Rightarrow> string \<Rightarrow> (string \<times> dval) list \<Rightarrow> string \<Rightarrow> metric_event list" where
  "record_assessment decision risk_level details tenant =
     (let (source, unknown) = safe_source (case map_of details ''source'' of
            Some (VStr s) \<Rightarrow> s | Some _ \<Rightarrow> ''other'' | None \<Rightarrow> ''unknown'')
      in unknown @ [Assessments decision risk_level source, TenantAssessments tenant decision]
         @ concat (map (stage_event details) stage_keys)
         @ (case map_of details ''judge_invoked'' of Some (VBool True) \<Rightarrow> [JudgeInvocations] | _ \<Rightarrow> []))"

lemma to_dict_lookup:
  "map_of (to_dict r) k = (if k \<in> set (keys_of (ar_context r)) then Some (result_field r k) else None)"
  by (simp add: to_dict_def map_of_map_restrict restrict_map_def)

lemma to_dict_source: "map_of (to_dict r) ''source'' = Some (VStr (ar_source r))"
proof -
  have "''source'' \<in> set (keys_of c)" for c by (simp add: keys_of_def)
  moreover have "result_field r ''source'' = VStr (ar_source r)" unfolding result_field_def by simp
  ultimately show ?thesis by (simp add: to_dict_lookup)
qed

end
