(* ===== verification/Cache_Backend.thy ===== *)
theory Cache_Backend
  imports Prelude
begin

text \<open>
  The pluggable exact-match cache of \<open>core/cache_backend.py\<close>: the interface, the
  process-local backend with its expiry and eviction, the Redis backend and the selection.

  The time is an argument.  A cache entry is a record of the fields the code stores; the
  Redis value is an entry or bytes that are not JSON, with the time it expires.  The local
  backend's JSON file is read at construction; its background rewriting is I/O.
\<close>

section \<open>Entries\<close>

record 'v centry =
  ce_prompt :: string
  ce_vector :: 'v
  ce_risk :: string
  ce_score :: real
  ce_prompt_hash :: string
  ce_epoch :: real
  ce_source :: string
  ce_ttl :: real

text \<open>What a lookup hands out.\<close>

definition verdict_of :: "'v centry \<Rightarrow> string \<times> real" where
  "verdict_of e = (ce_risk e, ce_score e)"

section \<open>The interface\<close>

text \<open>
  What the cache promises its client.  \<open>view s k\<close> is the verdict held for a key and the time
  it expires.  A read answers only from the view, and before the expiry; no operation but a
  write makes an entry appear, and a write makes exactly its own.
\<close>

locale exact_cache =
  fixes cget :: "real \<Rightarrow> string \<Rightarrow> 's \<Rightarrow> 'v centry option \<times> 's"
    and cset :: "real \<Rightarrow> string \<Rightarrow> 'v centry \<Rightarrow> real \<Rightarrow> 's \<Rightarrow> 's"
    and cdelete :: "string \<Rightarrow> 's \<Rightarrow> 's"
    and cflush :: "'s \<Rightarrow> 's"
    and view :: "'s \<Rightarrow> string \<Rightarrow> ((string \<times> real) \<times> real) option"
    and ok :: "'s \<Rightarrow> bool"
  assumes get_sound: "ok s \<Longrightarrow> fst (cget t k s) = Some e \<Longrightarrow>
      \<exists>x. view s k = Some (verdict_of e, x) \<and> t < x"
    and get_complete: "ok s \<Longrightarrow> view s k = Some (v, x) \<Longrightarrow> t < x \<Longrightarrow>
      \<exists>e. fst (cget t k s) = Some e \<and> verdict_of e = v"
    and get_view: "ok s \<Longrightarrow> view (snd (cget t k s)) k' \<in> {view s k', None}"
    and set_view: "ok s \<Longrightarrow> view (cset t k e ttl s) k = Some (verdict_of e, t + ttl)"
    and set_others: "ok s \<Longrightarrow> k' \<noteq> k \<Longrightarrow> view (cset t k e ttl s) k' \<in> {view s k', None}"
    and delete_view: "ok s \<Longrightarrow> view (cdelete k s) k = None"
    and delete_others: "ok s \<Longrightarrow> k' \<noteq> k \<Longrightarrow> view (cdelete k s) k' = view s k'"
    and flush_view: "view (cflush s) k = None"
    and get_ok: "ok s \<Longrightarrow> ok (snd (cget t k s))"
    and set_ok: "ok s \<Longrightarrow> ok (cset t k e ttl s)"
    and delete_ok: "ok s \<Longrightarrow> ok (cdelete k s)"
    and flush_ok: "ok s \<Longrightarrow> ok (cflush s)"

datatype 'v cache_op = CGet string | CSet string "'v centry" real | CDelete string | CFlush

text \<open>The last write to a key that no delete or flush follows, with its time.\<close>

fun last_write :: "string \<Rightarrow> ((string \<times> real) \<times> real) option \<Rightarrow> (real \<times> 'v cache_op) list
    \<Rightarrow> ((string \<times> real) \<times> real) option" where
  "last_write k w [] = w"
| "last_write k w ((t, CGet k') # ops) = last_write k w ops"
| "last_write k w ((t, CSet k' e ttl) # ops) =
     last_write k (if k' = k then Some (verdict_of e, t + ttl) else w) ops"
| "last_write k w ((t, CDelete k') # ops) = last_write k (if k' = k then None else w) ops"
| "last_write k w ((t, CFlush) # ops) = last_write k None ops"

context exact_cache
begin

fun run :: "(real \<times> 'v cache_op) list \<Rightarrow> 's \<Rightarrow> 's" where
  "run [] s = s"
| "run ((t, CGet k) # ops) s = run ops (snd (cget t k s))"
| "run ((t, CSet k e ttl) # ops) s = run ops (cset t k e ttl s)"
| "run ((t, CDelete k) # ops) s = run ops (cdelete k s)"
| "run ((t, CFlush) # ops) s = run ops (cflush s)"

lemma run_ok: "ok s \<Longrightarrow> ok (run ops s)"
  by (induction ops s rule: run.induct) (auto simp: get_ok set_ok delete_ok flush_ok)

lemma run_view: "ok s \<Longrightarrow> view s k \<in> {w, None} \<Longrightarrow> view (run ops s) k \<in> {last_write k w ops, None}"
proof (induction ops s arbitrary: w rule: run.induct)
  case (2 t k' ops s)
  have "view (snd (cget t k' s)) k \<in> {w, None}" using get_view [OF 2(2), of t k' k] 2(3) by auto
  then show ?case using 2(1) [OF get_ok [OF 2(2)]] by simp
next
  case (3 t k' e ttl ops s)
  have "view (cset t k' e ttl s) k \<in> {if k' = k then Some (verdict_of e, t + ttl) else w, None}"
    using set_view [OF 3(2)] set_others [OF 3(2), of k k' t e ttl] 3(3) by auto
  then show ?case using 3(1) [OF set_ok [OF 3(2)]] by simp
next
  case (4 t k' ops s)
  have "view (cdelete k' s) k \<in> {if k' = k then None else w, None}"
    using delete_view [OF 4(2)] delete_others [OF 4(2), of k k'] 4(3) by auto
  then show ?case using 4(1) [OF delete_ok [OF 4(2)]] by simp
next
  case (5 t ops s)
  then show ?case by (simp add: flush_view flush_ok)
qed simp

text \<open>A read answers with the last verdict written for its key, and not after it expired.\<close>

lemma read_is_last_write:
  assumes "ok s" "view s k = None" "fst (cget t k (run ops s)) = Some e"
  shows "\<exists>x. last_write k None ops = Some (verdict_of e, x) \<and> t < x"
  using get_sound [OF run_ok [OF assms(1)] assms(3)] run_view [OF assms(1), of k None ops] assms(2) by auto

end

section \<open>Definitions from the code\<close>

subsection \<open>The local backend\<close>

record 'v local_exact =
  lx_max_size :: nat
  lx_data :: "(string, 'v centry) odict"

text \<open>\<open>__init__\<close> with its \<open>_load\<close>: entries of the file still within their TTL.\<close>

fun lx_load_items :: "real \<Rightarrow> (string, 'v centry) odict \<Rightarrow> (string \<times> 'v centry) list \<Rightarrow> (string, 'v centry) odict" where
  "lx_load_items now d [] = d"
| "lx_load_items now d ((k, e) # raw) =
     lx_load_items now (if now - ce_epoch e < ce_ttl e then od_set k e d else d) raw"

definition new_local_exact :: "nat \<Rightarrow> real \<Rightarrow> (string \<times> 'v centry) list option \<Rightarrow> 'v local_exact" where
  "new_local_exact max_size now file =
     \<lparr>lx_max_size = max_size,
      lx_data = (case file of None \<Rightarrow> [] | Some raw \<Rightarrow> lx_load_items now [] raw)\<rparr>"

definition lx_get :: "real \<Rightarrow> string \<Rightarrow> 'v local_exact \<Rightarrow> 'v centry option \<times> 'v local_exact" where
  "lx_get now key s =
     (case od_get (lx_data s) key of
        None \<Rightarrow> (None, s)
      | Some e \<Rightarrow>
          if now - ce_epoch e \<ge> ce_ttl e then (None, s\<lparr>lx_data := od_del key (lx_data s)\<rparr>)
          else (Some e, s\<lparr>lx_data := od_move_to_end key (lx_data s)\<rparr>))"

definition lx_set :: "real \<Rightarrow> string \<Rightarrow> 'v centry \<Rightarrow> real \<Rightarrow> 'v local_exact \<Rightarrow> 'v local_exact" where
  "lx_set now key entry ttl_seconds s =
     (let e = entry\<lparr>ce_epoch := now, ce_ttl := ttl_seconds\<rparr>;
          d = (if od_get (lx_data s) key \<noteq> None then od_del key (lx_data s)
               else if length (lx_data s) \<ge> lx_max_size s then tl (lx_data s)
               else lx_data s)
      in s\<lparr>lx_data := od_set key e d\<rparr>)"

definition lx_delete :: "string \<Rightarrow> 'v local_exact \<Rightarrow> 'v local_exact" where
  "lx_delete key s = s\<lparr>lx_data := od_del key (lx_data s)\<rparr>"

definition lx_flush :: "'v local_exact \<Rightarrow> 'v local_exact" where
  "lx_flush s = s\<lparr>lx_data := []\<rparr>"

subsection \<open>The Redis backend\<close>

text \<open>
  The keys under the cache's prefix: the stored JSON (\<open>None\<close> for bytes that do not parse) and
  the expiry that \<open>SETEX\<close> gives.
\<close>

type_synonym 'v redis_exact = "(string, 'v centry option \<times> real) odict"

definition rx_get :: "real \<Rightarrow> string \<Rightarrow> 'v redis_exact \<Rightarrow> 'v centry option \<times> 'v redis_exact" where
  "rx_get now key s =
     (case od_get s key of
        None \<Rightarrow> (None, s)
      | Some (raw, x) \<Rightarrow> (if now < x then raw else None, s))"

definition rx_set :: "real \<Rightarrow> string \<Rightarrow> 'v centry \<Rightarrow> real \<Rightarrow> 'v redis_exact \<Rightarrow> 'v redis_exact" where
  "rx_set now key entry ttl_seconds s = od_set key (Some entry, now + ttl_seconds) s"

definition rx_delete :: "string \<Rightarrow> 'v redis_exact \<Rightarrow> 'v redis_exact" where
  "rx_delete key s = od_del key s"

definition rx_flush :: "'v redis_exact \<Rightarrow> 'v redis_exact" where
  "rx_flush s = []"

datatype 'v exact_backend = LocalExact "'v local_exact" | RedisExact "'v redis_exact"

text \<open>
  \<open>client\<close> is the explicit client or the pooled one; when there is none the local store is
  used, whether or not \<open>REDIS_URL\<close> is set (only the log line differs).
\<close>

definition build_exact_cache_backend ::
  "'v redis_exact option \<Rightarrow> 'v redis_exact option \<Rightarrow> nat \<Rightarrow> real \<Rightarrow> (string \<times> 'v centry) list option \<Rightarrow> 'v exact_backend" where
  "build_exact_cache_backend client pool_client max_size now file =
     (case client of
        Some c \<Rightarrow> RedisExact c
      | None \<Rightarrow> (case pool_client of
            Some c \<Rightarrow> RedisExact c
          | None \<Rightarrow> LocalExact (new_local_exact max_size now file)))"

section \<open>Both backends keep the contract\<close>

definition lx_view :: "'v local_exact \<Rightarrow> string \<Rightarrow> ((string \<times> real) \<times> real) option" where
  "lx_view s k = map_option (\<lambda>e. (verdict_of e, ce_epoch e + ce_ttl e)) (od_get (lx_data s) k)"

definition lx_ok :: "'v local_exact \<Rightarrow> bool" where
  "lx_ok s \<longleftrightarrow> od_wf (lx_data s) \<and> length (lx_data s) \<le> lx_max_size s \<and> 0 < lx_max_size s"

definition rx_view :: "'v redis_exact \<Rightarrow> string \<Rightarrow> ((string \<times> real) \<times> real) option" where
  "rx_view s k = (case od_get s k of Some (Some e, x) \<Rightarrow> Some (verdict_of e, x) | _ \<Rightarrow> None)"

lemma od_get_tl: "od_wf d \<Longrightarrow> od_get (tl d) k \<in> {od_get d k, None}"
proof (cases d)
  case (Cons p d')
  assume "od_wf d"
  then have "od_get d' (fst p) = None" using Cons by (simp add: od_wf_def od_get_None_iff od_keys_def)
  then show ?thesis using Cons by (cases p) auto
qed simp

lemma od_wf_tl: "od_wf d \<Longrightarrow> od_wf (tl d)"
  by (cases d) (auto simp: od_wf_def)

lemma length_od_del: "length (od_del k d) \<le> length d"
  by (simp add: od_del_def length_delete_le)

lemma length_move_to_end: "od_wf d \<Longrightarrow> length (od_move_to_end k d) = length d"
  by (metis length_od_wf od_keys_move_to_end od_wf_move_to_end)

interpretation lx_cache: exact_cache lx_get lx_set lx_delete lx_flush lx_view lx_ok
proof (unfold_locales, goal_cases)
  case (1 s t k e)
  then show ?case by (auto simp: lx_get_def lx_view_def split: option.splits if_splits)
next
  case (2 s k v x t)
  then show ?case by (auto simp: lx_get_def lx_view_def)
next
  case (3 s t k k')
  then show ?case by (auto simp: lx_get_def lx_view_def split: option.splits)
next
  case (4 s t k e ttl)
  then show ?case by (simp add: lx_set_def lx_view_def verdict_of_def Let_def)
next
  case (5 s k' k t e ttl)
  then show ?case using od_get_tl [of "lx_data s" k'] by (auto simp: lx_set_def lx_view_def lx_ok_def Let_def)
next
  case (6 s k)
  then show ?case by (simp add: lx_delete_def lx_view_def)
next
  case (7 s k' k)
  then show ?case by (simp add: lx_delete_def lx_view_def)
next
  case (8 s k)
  then show ?case by (simp add: lx_flush_def lx_view_def)
next
  case (9 s t k)
  then show ?case
    using length_od_del [of k "lx_data s"]
    by (auto simp: lx_get_def lx_ok_def length_move_to_end split: option.splits)
next
  case (10 s t k e ttl)
  have l: "length (od_del k (lx_data s)) < lx_max_size s" if "od_get (lx_data s) k \<noteq> None"
  proof -
    have "card (od_keys (lx_data s) - {k}) < card (od_keys (lx_data s))"
      using that by (intro psubset_card_mono) (auto simp: od_get_None_iff)
    then show ?thesis using 10 length_od_wf [of "lx_data s"] length_od_wf [of "od_del k (lx_data s)"]
      by (auto simp: lx_ok_def)
  qed
  have t: "od_get (tl (lx_data s)) k = None" if "od_get (lx_data s) k = None"
    using od_get_tl [of "lx_data s" k] 10 that by (auto simp: lx_ok_def)
  show ?case
  proof (cases "od_get (lx_data s) k")
    case None
    then show ?thesis
      using 10 t by (auto simp: lx_set_def lx_ok_def length_od_set od_wf_tl Let_def)
  next
    case (Some e')
    then show ?thesis
      using 10 l by (auto simp: lx_set_def lx_ok_def length_od_set Let_def)
  qed
next
  case (11 s k)
  then show ?case using length_od_del [of k "lx_data s"] by (auto simp: lx_delete_def lx_ok_def)
next
  case (12 s)
  then show ?case by (simp add: lx_flush_def lx_ok_def)
qed

interpretation rx_cache: exact_cache rx_get rx_set rx_delete rx_flush rx_view "\<lambda>_. True"
  by unfold_locales
    (auto simp: rx_get_def rx_set_def rx_delete_def rx_flush_def rx_view_def split: option.splits if_splits)

section \<open>Properties\<close>

text \<open>
  The exact tier returns only what was stored for this key: on both backends, after any
  sequence of reads, writes, deletions and flushes from an empty cache, evictions included, a
  read is answered, if at all, with the verdict of the last write of that very key, not
  deleted since and not past its TTL.
\<close>

theorem exact_tier_returns_own_verdict:
  assumes "0 < n"
  shows "(case fst (lx_get t k (lx_cache.run ops (new_local_exact n now None))) of
            None \<Rightarrow> True
          | Some e \<Rightarrow> (\<exists>x. last_write k None ops = Some (verdict_of e, x) \<and> t < x))
       \<and> (case fst (rx_get t k (rx_cache.run ops [])) of
            None \<Rightarrow> True
          | Some e \<Rightarrow> (\<exists>x. last_write k None ops = Some (verdict_of e, x) \<and> t < x))"
proof -
  have "lx_ok (new_local_exact n now None)" "lx_view (new_local_exact n now None) k = None"
    using assms by (simp_all add: lx_ok_def new_local_exact_def lx_view_def)
  note l = lx_cache.read_is_last_write [OF this]
  have "rx_view [] k = None" by (simp add: rx_view_def)
  note r = rx_cache.read_is_last_write [OF TrueI this]
  show ?thesis using l r by (auto split: option.split)
qed

theorem exact_tier_returns_own_verdict_witness:
  "let e = (\<lambda>r. \<lparr>ce_prompt = ''p'', ce_vector = (0::nat), ce_risk = r, ce_score = 0, ce_prompt_hash = ''h'',
                ce_epoch = 0, ce_source = ''s'', ce_ttl = 0\<rparr>);
       ops = [(1, CSet ''h'' (e ''LOW'') 10), (2, CSet ''h'' (e ''HIGH'') 10), (3, CSet ''g'' (e ''LOW'') 10)]
   in case fst (lx_get 4 ''h'' (lx_cache.run ops (new_local_exact 2 0 None))) of
        None \<Rightarrow> False | Some r \<Rightarrow> ce_risk r = ''HIGH''"
proof -
  let ?e = "\<lambda>r. \<lparr>ce_prompt = ''p'', ce_vector = (0::nat), ce_risk = r, ce_score = 0, ce_prompt_hash = ''h'',
                ce_epoch = 0, ce_source = ''s'', ce_ttl = 0\<rparr>"
  let ?ops = "[(1, CSet ''h'' (?e ''LOW'') 10), (2, CSet ''h'' (?e ''HIGH'') 10), (3, CSet ''g'' (?e ''LOW'') 10)]"
  let ?s = "lx_cache.run ?ops (new_local_exact 2 0 None)"
  have "fst (lx_get 4 ''h'' ?s) \<noteq> None"
    by (simp add: new_local_exact_def lx_set_def lx_get_def od_set_def od_del_def Let_def cong: if_cong)
  then show ?thesis
    using exact_tier_returns_own_verdict [where n = 2 and t = 4 and k = "''h''" and ops = ?ops and now = 0]
    by (auto simp: verdict_of_def Let_def split: option.splits)
qed

end
