(* ===== verification/Cache.thy ===== *)
theory Cache
  imports Cache_Backend
begin

text \<open>
  The semantic cache of \<open>core/cache.py\<close>: the exact tier on a backend of
  \<open>Cache_Backend\<close>, the per-instance dictionary, and the fuzzy tier over a FAISS index built
  from it.

  \<open>sha\<close> is the prompt hash.  \<open>search vs q\<close> stands for normalising and searching the flat
  inner-product index: the best position (-1 for none) and its score.  \<open>up\<close> says whether the
  exact backend's call succeeds; a failing one raises before it has an effect.
\<close>

section \<open>Definitions from the code\<close>

definition max_cache_size :: nat where
  "max_cache_size = 5000"

definition cache_ttl_seconds :: real where
  "cache_ttl_seconds = 86400"

record 'v faiss_cache =
  fc_data :: "(string, 'v centry) odict"
  fc_index :: "'v list option"
  fc_exact :: "'v exact_backend"

definition new_faiss_cache :: "'v exact_backend \<Rightarrow> 'v faiss_cache" where
  "new_faiss_cache exact = \<lparr>fc_data = [], fc_index = None, fc_exact = exact\<rparr>"

definition rebuild_faiss :: "'v faiss_cache \<Rightarrow> 'v faiss_cache" where
  "rebuild_faiss c = c\<lparr>fc_index := Some (map (\<lambda>(k, e). ce_vector e) (fc_data c))\<rparr>"

definition get_index :: "'v faiss_cache \<Rightarrow> 'v list \<times> 'v faiss_cache" where
  "get_index c =
     (case fc_index c of
        Some i \<Rightarrow> (i, c)
      | None \<Rightarrow> (let c' = rebuild_faiss c in (the (fc_index c'), c')))"

fun fc_load_items :: "real \<Rightarrow> (string, 'v centry) odict \<Rightarrow> 'v centry list \<Rightarrow> (string, 'v centry) odict" where
  "fc_load_items now d [] = d"
| "fc_load_items now d (e # data) =
     fc_load_items now
       (if now - ce_epoch e < cache_ttl_seconds then od_set (ce_prompt_hash e) e d else d) data"

text \<open>\<open>load\<close>: no file, a file that cannot be read or parsed, or the saved entries.\<close>

definition fc_load :: "real \<Rightarrow> 'v centry list option option \<Rightarrow> 'v faiss_cache \<Rightarrow> 'v faiss_cache" where
  "fc_load now file c =
     (case file of
        None \<Rightarrow> c
      | Some None \<Rightarrow> c\<lparr>fc_data := []\<rparr>
      | Some (Some data) \<Rightarrow> c\<lparr>fc_data := fc_load_items now (fc_data c) data\<rparr>)"

definition saved_entries :: "'v faiss_cache \<Rightarrow> 'v centry list" where
  "saved_entries c = map snd (fc_data c)"

definition exact_get :: "bool \<Rightarrow> real \<Rightarrow> string \<Rightarrow> 'v exact_backend \<Rightarrow> 'v centry option \<times> 'v exact_backend" where
  "exact_get up now k b =
     (if \<not> up then (None, b)
      else case b of
             LocalExact s \<Rightarrow> (let (r, s') = lx_get now k s in (r, LocalExact s'))
           | RedisExact s \<Rightarrow> (let (r, s') = rx_get now k s in (r, RedisExact s')))"

definition exact_set :: "bool \<Rightarrow> real \<Rightarrow> string \<Rightarrow> 'v centry \<Rightarrow> real \<Rightarrow> 'v exact_backend \<Rightarrow> 'v exact_backend" where
  "exact_set up now k e ttl b =
     (if \<not> up then b
      else case b of LocalExact s \<Rightarrow> LocalExact (lx_set now k e ttl s)
                   | RedisExact s \<Rightarrow> RedisExact (rx_set now k e ttl s))"

definition exact_flush :: "bool \<Rightarrow> 'v exact_backend \<Rightarrow> 'v exact_backend" where
  "exact_flush up b =
     (if \<not> up then b
      else case b of LocalExact s \<Rightarrow> LocalExact (lx_flush s) | RedisExact s \<Rightarrow> RedisExact (rx_flush s))"

definition fc_add ::
  "(string \<Rightarrow> string) \<Rightarrow> bool \<Rightarrow> real \<Rightarrow> string \<Rightarrow> 'v \<Rightarrow> string \<Rightarrow> real \<Rightarrow> string \<Rightarrow> 'v faiss_cache \<Rightarrow> 'v faiss_cache" where
  "fc_add sha up now prompt vector risk score source c =
     (let h = sha prompt;
          entry = \<lparr>ce_prompt = prompt, ce_vector = vector, ce_risk = risk, ce_score = score,
                   ce_prompt_hash = h, ce_epoch = now, ce_source = source, ce_ttl = cache_ttl_seconds\<rparr>;
          d = (if od_get (fc_data c) h \<noteq> None then od_del h (fc_data c)
               else if length (fc_data c) \<ge> max_cache_size then tl (fc_data c)
               else fc_data c);
          c1 = rebuild_faiss (c\<lparr>fc_data := od_set h entry d\<rparr>)
      in c1\<lparr>fc_exact := exact_set up now h entry cache_ttl_seconds (fc_exact c1)\<rparr>)"

text \<open>The fuzzy tier: position, threshold, range and TTL tests, then the reordering.\<close>

definition fuzzy_lookup ::
  "('v list \<Rightarrow> 'v \<Rightarrow> int \<times> real) \<Rightarrow> real \<Rightarrow> real \<Rightarrow> 'v \<Rightarrow> 'v faiss_cache \<Rightarrow> (string \<times> real) option \<times> 'v faiss_cache" where
  "fuzzy_lookup search threshold now query c =
     (let (index, c1) = get_index c in
      if index = [] then (None, c1)
      else let (best_idx, best_score) = search index query in
        if best_score > threshold \<and> best_idx \<noteq> -1 \<and> best_idx < int (length (fc_data c1)) then
          let entry = snd (fc_data c1 ! nat best_idx) in
          if now - ce_epoch entry < cache_ttl_seconds then
            (Some (ce_risk entry, ce_score entry),
             c1\<lparr>fc_data := od_move_to_end (ce_prompt_hash entry) (fc_data c1)\<rparr>)
          else (None, rebuild_faiss (c1\<lparr>fc_data := od_del (ce_prompt_hash entry) (fc_data c1)\<rparr>))
        else (None, c1))"

definition fc_lookup ::
  "(string \<Rightarrow> string) \<Rightarrow> ('v list \<Rightarrow> 'v \<Rightarrow> int \<times> real) \<Rightarrow> real \<Rightarrow> bool \<Rightarrow> real \<Rightarrow> string \<Rightarrow> 'v \<Rightarrow> 'v faiss_cache
   \<Rightarrow> (string \<times> real) option \<times> 'v faiss_cache" where
  "fc_lookup sha search threshold up now prompt query c =
     (let (hit, b) = exact_get up now (sha prompt) (fc_exact c); c' = c\<lparr>fc_exact := b\<rparr> in
      case hit of
        Some e \<Rightarrow> (Some (ce_risk e, ce_score e), c')
      | None \<Rightarrow> if fc_data c' = [] then (None, c')
                else fuzzy_lookup search threshold now query c')"

definition fc_flush :: "bool \<Rightarrow> 'v faiss_cache \<Rightarrow> 'v faiss_cache" where
  "fc_flush up c =
     (let c1 = rebuild_faiss (c\<lparr>fc_data := []\<rparr>) in c1\<lparr>fc_exact := exact_flush up (fc_exact c1)\<rparr>)"

section \<open>The dictionary and the index\<close>

text \<open>Every entry is stored under its own hash; the dictionary respects its bound.\<close>

definition cache_inv :: "'v faiss_cache \<Rightarrow> bool" where
  "cache_inv c \<longleftrightarrow> od_wf (fc_data c) \<and> length (fc_data c) \<le> max_cache_size
     \<and> (\<forall>(k, e) \<in> set (fc_data c). ce_prompt_hash e = k)"

text \<open>The index lists the vectors of the dictionary in its order.\<close>

definition aligned :: "'v faiss_cache \<Rightarrow> bool" where
  "aligned c \<longleftrightarrow> fc_index c \<in> {None, Some (map (\<lambda>(k, e). ce_vector e) (fc_data c))}"

lemma aligned_rebuild [simp]: "aligned (rebuild_faiss c)"
  by (simp add: aligned_def rebuild_faiss_def)

lemma aligned_exact [simp]: "aligned (c\<lparr>fc_exact := b\<rparr>) = aligned c"
  by (simp add: aligned_def)

lemma od_set_mem: "(k', v') \<in> set (od_set k v d) \<Longrightarrow> (k', v') = (k, v) \<or> (k', v') \<in> set d"
  by (induction d) (auto simp: od_set_def split: if_splits)

lemma od_del_mem: "x \<in> set (od_del k d) \<Longrightarrow> x \<in> set d"
  by (auto simp: od_del_def AList.delete_eq)

lemma od_move_mem: "x \<in> set (od_move_to_end k d) \<Longrightarrow> x \<in> set d"
  by (auto simp: od_move_to_end_def dest: od_del_mem od_get_Some_mem split: option.splits)

lemma add_inv [invs]: "cache_inv c \<Longrightarrow> cache_inv (fc_add sha up now prompt vector risk score source c)"
proof -
  assume inv: "cache_inv c"
  let ?h = "sha prompt"
  let ?d = "if od_get (fc_data c) ?h \<noteq> None then od_del ?h (fc_data c)
               else if length (fc_data c) \<ge> max_cache_size then tl (fc_data c) else fc_data c"
  have wf: "od_wf ?d" using inv by (auto simp: cache_inv_def od_wf_tl)
  have "length ?d < max_cache_size"
  proof (cases "od_get (fc_data c) ?h")
    case (Some e)
    have "card (od_keys (fc_data c) - {?h}) < card (od_keys (fc_data c))"
      using Some by (intro psubset_card_mono) (auto dest: od_get_Some_key)
    then show ?thesis
      using Some inv length_od_wf [of "fc_data c"] length_od_wf [of "od_del ?h (fc_data c)"]
      by (auto simp: cache_inv_def)
  qed (use inv in \<open>auto simp: cache_inv_def max_cache_size_def\<close>)
  then have len: "length (od_set ?h e ?d) \<le> max_cache_size" for e by (auto simp: length_od_set)
  have mem: "(k, e) \<in> set ?d \<Longrightarrow> (k, e) \<in> set (fc_data c)" for k e
    by (auto split: if_splits dest: od_del_mem in_set_tlD)
  define entry where "entry = \<lparr>ce_prompt = prompt, ce_vector = vector, ce_risk = risk, ce_score = score,
                   ce_prompt_hash = ?h, ce_epoch = now, ce_source = source, ce_ttl = cache_ttl_seconds\<rparr>"
  have keys: "ce_prompt_hash e = k" if "(k, e) \<in> set (od_set ?h entry ?d)" for k e
  proof -
    have "(k, e) = (?h, entry) \<or> (k, e) \<in> set (fc_data c)" using od_set_mem [OF that] mem by blast
    then show ?thesis using inv by (auto simp: cache_inv_def entry_def)
  qed
  have "fc_data (fc_add sha up now prompt vector risk score source c) = od_set ?h entry ?d"
    by (simp add: fc_add_def rebuild_faiss_def entry_def Let_def)
  then show ?thesis using od_wf_set [OF wf] len keys by (auto simp: cache_inv_def)
qed

lemma add_aligned: "aligned (fc_add sha up now prompt vector risk score source c)"
  by (simp add: fc_add_def Let_def)

lemma get_index_aligned:
  "aligned c \<Longrightarrow> fst (get_index c) = map (\<lambda>(k, e). ce_vector e) (fc_data c) \<and> fc_data (snd (get_index c)) = fc_data c"
  by (auto simp: get_index_def aligned_def rebuild_faiss_def Let_def)

lemma fuzzy_inv [invs]: "cache_inv c \<Longrightarrow> cache_inv (snd (fuzzy_lookup search threshold now query c))"
proof -
  assume inv: "cache_inv c"
  have d: "fc_data (snd (get_index c)) = fc_data c"
    by (auto simp: get_index_def rebuild_faiss_def Let_def split: option.split)
  have len: "length (od_del k (fc_data c)) \<le> max_cache_size" for k
    using length_od_del [of k "fc_data c"] inv by (auto simp: cache_inv_def)
  show ?thesis
    using inv d len
    by (auto simp: fuzzy_lookup_def cache_inv_def rebuild_faiss_def length_move_to_end Let_def
        split: prod.splits dest: od_del_mem od_move_mem)
qed

lemma lookup_inv [invs]: "cache_inv c \<Longrightarrow> cache_inv (snd (fc_lookup sha search threshold up now prompt query c))"
proof -
  assume "cache_inv c"
  then have "cache_inv (c\<lparr>fc_exact := b\<rparr>)" for b by (simp add: cache_inv_def)
  then show ?thesis
    by (auto simp: fc_lookup_def fuzzy_inv Let_def split: prod.split option.split)
qed

lemma flush_inv [invs]: "cache_inv (fc_flush up c)"
  by (simp add: fc_flush_def cache_inv_def rebuild_faiss_def Let_def)

lemma aligned_fuzzy_hit:
  assumes "aligned c" "fst (fuzzy_lookup search threshold now query c) = Some v"
    and "\<And>vs. vs \<noteq> [] \<Longrightarrow> 0 \<le> fst (search vs query)"
  shows "\<exists>k e i score. fc_data c ! i = (k, e) \<and> i < length (fc_data c)
    \<and> search (map (\<lambda>(k, e). ce_vector e) (fc_data c)) query = (int i, score) \<and> score > threshold
    \<and> now - ce_epoch e < cache_ttl_seconds \<and> v = (ce_risk e, ce_score e)"
proof -
  let ?vs = "map (\<lambda>(k, e). ce_vector e) (fc_data c)"
  obtain c1 where g: "get_index c = (?vs, c1)" "fc_data c1 = fc_data c"
    using get_index_aligned [OF assms(1)] by (cases "get_index c") auto
  obtain bi sc where b: "search ?vs query = (bi, sc)" by (cases "search ?vs query")
  have h: "?vs \<noteq> []" "sc > threshold" "bi < int (length (fc_data c))"
      "now - ce_epoch (snd (fc_data c ! nat bi)) < cache_ttl_seconds"
      "v = (ce_risk (snd (fc_data c ! nat bi)), ce_score (snd (fc_data c ! nat bi)))"
    using assms(2) by (auto simp: fuzzy_lookup_def g b Let_def split: if_splits)
  have "0 \<le> bi" using assms(3) [OF h(1)] b by simp
  then have "bi = int (nat bi)" "nat bi < length (fc_data c)" using h(3) by auto
  with h b show ?thesis by (metis surjective_pairing)
qed

section \<open>Properties\<close>

text \<open>
  Right after an insertion the fuzzy tier answers for the vector it matched: a fuzzy hit
  on a cache whose last operation was an insertion returns the verdict of an unexpired entry
  of the dictionary whose vector is the one the index search chose above the threshold; and
  the dictionary stays within its bound.
\<close>

theorem fuzzy_hit_after_add:
  assumes "cache_inv c" "c' = fc_add sha up t prompt vector risk score source c"
    and "\<And>vs. vs \<noteq> [] \<Longrightarrow> 0 \<le> fst (search vs query)"
    and "fst (exact_get up' now (sha q) (fc_exact c')) = None"
    and "fst (fc_lookup sha search threshold up' now q query c') = Some v"
  shows "(\<exists>k e i s. fc_data c' ! i = (k, e) \<and> i < length (fc_data c')
    \<and> search (map (\<lambda>(k, e). ce_vector e) (fc_data c')) query = (int i, s) \<and> s > threshold
    \<and> now - ce_epoch e < cache_ttl_seconds \<and> v = (ce_risk e, ce_score e))
    \<and> length (fc_data c') \<le> max_cache_size"
proof -
  obtain b where b: "exact_get up' now (sha q) (fc_exact c') = (None, b)"
    using assms(4) by (cases "exact_get up' now (sha q) (fc_exact c')") auto
  have f: "fst (fuzzy_lookup search threshold now query (c'\<lparr>fc_exact := b\<rparr>)) = Some v"
    using assms(5) by (simp add: fc_lookup_def b Let_def split: if_splits)
  have "aligned (c'\<lparr>fc_exact := b\<rparr>)" using assms(2) by (simp add: add_aligned)
  from aligned_fuzzy_hit [OF this f assms(3)] have
    "\<exists>k e i s. fc_data c' ! i = (k, e) \<and> i < length (fc_data c')
    \<and> search (map (\<lambda>(k, e). ce_vector e) (fc_data c')) query = (int i, s) \<and> s > threshold
    \<and> now - ce_epoch e < cache_ttl_seconds \<and> v = (ce_risk e, ce_score e)" by simp
  moreover have "cache_inv c'" using add_inv [OF assms(1)] assms(2) by simp
  ultimately show ?thesis by (simp add: cache_inv_def)
qed

theorem fuzzy_hit_after_add_witness:
  "let search = (\<lambda>vs (q :: nat). (0 :: int, 1 :: real));
       c = fc_add (\<lambda>p. p) True 0 ''attack'' 7 ''HIGH'' 90 ''judge'' (new_faiss_cache (RedisExact []))
   in fst (fc_lookup (\<lambda>p. p) search (99 / 100) True 10 ''attack!'' 7 c) = Some (''HIGH'', 90)
      \<and> length (fc_data c) \<le> max_cache_size"
proof -
  let ?search = "\<lambda>vs (q :: nat). (0 :: int, 1 :: real)"
  let ?base = "new_faiss_cache (RedisExact []) :: nat faiss_cache"
  let ?c = "fc_add (\<lambda>p. p) True 0 ''attack'' 7 ''HIGH'' 90 ''judge'' ?base"
  have inv: "cache_inv ?base" by (simp add: cache_inv_def new_faiss_cache_def)
  have miss: "fst (exact_get True 10 ''attack!'' (fc_exact ?c)) = None"
    by (simp add: fc_add_def rebuild_faiss_def new_faiss_cache_def exact_set_def exact_get_def rx_set_def rx_get_def Let_def)
  have hit: "fst (fc_lookup (\<lambda>p. p) ?search (99 / 100) True 10 ''attack!'' 7 ?c) = Some (''HIGH'', 90)"
    by (simp add: fc_lookup_def fuzzy_lookup_def get_index_def fc_add_def rebuild_faiss_def new_faiss_cache_def
        exact_set_def exact_get_def rx_set_def rx_get_def max_cache_size_def cache_ttl_seconds_def od_set_def Let_def
        cong: if_cong)
  from fuzzy_hit_after_add [where sha = "\<lambda>p. p" and search = ?search and query = 7 and q = "''attack!''",
      OF inv refl _ miss hit]
  show ?thesis using hit by (simp add: Let_def)
qed

text \<open>
  A fuzzy hit corrupts the next ones: it moves the entry to the end of the dictionary but
  leaves the index as it was.  With two entries cached and one fuzzy hit on the older, a query
  that matches the newer entry is answered with the verdict of the older.
\<close>

theorem fuzzy_hit_misaligns_index:
  assumes "sha pa \<noteq> sha pb" "sha q1 \<notin> {sha pa, sha pb}" "sha q2 \<notin> {sha pa, sha pb}"
    and "now - t < cache_ttl_seconds" "threshold < s1" "threshold < s2"
    and "search [va, vb] w1 = (0, s1)" "search [va, vb] w2 = (1, s2)"
  shows "let c = fc_add sha True t pb vb rb sb srcb (fc_add sha True t pa va ra sa srca
                   (new_faiss_cache (LocalExact (new_local_exact max_cache_size t None))));
             (r1, c1) = fc_lookup sha search threshold True now q1 w1 c;
             (r2, c2) = fc_lookup sha search threshold True now q2 w2 c1
         in r1 = Some (ra, sa) \<and> r2 = Some (ra, sa)"
proof -
  define ea where "ea = \<lparr>ce_prompt = pa, ce_vector = va, ce_risk = ra, ce_score = sa,
                   ce_prompt_hash = sha pa, ce_epoch = t, ce_source = srca, ce_ttl = cache_ttl_seconds\<rparr>"
  define eb where "eb = \<lparr>ce_prompt = pb, ce_vector = vb, ce_risk = rb, ce_score = sb,
                   ce_prompt_hash = sha pb, ce_epoch = t, ce_source = srcb, ce_ttl = cache_ttl_seconds\<rparr>"
  let ?c = "fc_add sha True t pb vb rb sb srcb (fc_add sha True t pa va ra sa srca
                   (new_faiss_cache (LocalExact (new_local_exact max_cache_size t None))))"
  obtain s where s: "fc_exact ?c = LocalExact s" "od_get (lx_data s) (sha q1) = None" "od_get (lx_data s) (sha q2) = None"
    using assms(2,3)
    by (simp add: fc_add_def new_faiss_cache_def rebuild_faiss_def exact_set_def lx_set_def new_local_exact_def
        max_cache_size_def length_od_set Let_def cong: if_cong)
  have d: "fc_data ?c = [(sha pa, ea), (sha pb, eb)]" "fc_index ?c = Some [va, vb]"
    using assms(1)
    by (simp_all add: fc_add_def new_faiss_cache_def rebuild_faiss_def max_cache_size_def od_set_def
        ea_def eb_def Let_def cong: if_cong)
  let ?c1 = "?c\<lparr>fc_data := [(sha pb, eb), (sha pa, ea)]\<rparr>"
  have e: "exact_get True now (sha q1) (fc_exact ?c) = (None, fc_exact ?c)"
      "exact_get True now (sha q2) (fc_exact ?c) = (None, fc_exact ?c)"
    using s by (simp_all add: exact_get_def lx_get_def)
  have l1: "fc_lookup sha search threshold True now q1 w1 ?c = (Some (ra, sa), ?c1)"
    using assms e d
    by (simp add: fc_lookup_def fuzzy_lookup_def get_index_def ea_def od_move_to_end_def od_del_def Let_def)
  have l2: "fst (fc_lookup sha search threshold True now q2 w2 ?c1) = Some (ra, sa)"
    using assms e d
    by (simp add: fc_lookup_def fuzzy_lookup_def get_index_def ea_def Let_def)
  show ?thesis
    using l1 l2 by (cases "fc_lookup sha search threshold True now q2 w2 ?c1") (simp add: Let_def)
qed

theorem fuzzy_hit_misaligns_index_witness:
  "let sha = (\<lambda>p. p); search = (\<lambda>vs q. if q = vs ! 0 then (0, 1) else (1, 1));
       c = fc_add sha True 0 ''attack'' (2::nat) ''HIGH'' 90 ''judge'' (fc_add sha True 0 ''hello'' 1 ''LOW'' 0 ''fusion''
             (new_faiss_cache (LocalExact (new_local_exact max_cache_size 0 None))));
       (r1, c1) = fc_lookup sha search (99 / 100) True 10 ''hello!'' 1 c;
       (r2, c2) = fc_lookup sha search (99 / 100) True 10 ''attack!'' 2 c1
   in r1 = Some (''LOW'', 0) \<and> r2 = Some (''LOW'', 0)"
  unfolding Let_def [of "\<lambda>p. p"] Let_def [of "\<lambda>vs q. if q = vs ! 0 then (0, 1) else (1, 1)"]
  by (rule fuzzy_hit_misaligns_index) (simp_all add: cache_ttl_seconds_def)

end
