(* ===== verification/Fusion.thy ===== *)
theory Fusion
  imports Json
begin

text \<open>
  The learned multi-detector fusion of \<open>core/fusion.py\<close>: loading and validating the policy
  artifact, the logistic score, the per-class verdict, the warm-up and the choice of the
  richest tier whose detectors all answered.

  \<open>detect\<close> stands for a detector of the registry on the prompt: unavailable with a detail,
  a raw score, or an exception.  The artifact's fields have the types the training script
  writes; a missing field is \<open>None\<close>.  Scoring in a thread pool gives the results in declared
  order, as the sequential loop does, so the two are one definition here.
\<close>

section \<open>The artifact\<close>

record class_policy =
  cp_mean :: "real list"
  cp_scale :: "real list"
  cp_coef :: "real list"
  cp_intercept :: real
  cp_high :: real
  cp_medium :: real

record tier =
  ft_tier_id :: "string option"
  ft_feature_order :: "string list option"
  ft_mean :: "real list option"
  ft_scale :: "real list option"
  ft_coef :: "real list option"
  ft_intercept :: "real option"
  ft_high :: "real option"
  ft_medium :: "real option"
  ft_per_class :: "(string, class_policy) odict"

record artifact =
  art_floor :: tier
  art_upgrade_tiers :: "tier list"

datatype artifact_file = NoArtifact | BadArtifact string | ArtifactFile artifact

text \<open>\<open>sorted(missing)\<close>: the absent required fields, in alphabetical order.\<close>

definition missing_fields :: "tier \<Rightarrow> string list" where
  "missing_fields t = map fst (filter snd
     [(''coefficients'', ft_coef t = None), (''feature_order'', ft_feature_order t = None),
      (''intercept'', ft_intercept t = None), (''scaler_mean'', ft_mean t = None),
      (''scaler_scale'', ft_scale t = None), (''threshold_high'', ft_high t = None),
      (''threshold_medium'', ft_medium t = None)])"

definition validate_tier :: "tier \<Rightarrow> (py_error, unit) res" where
  "validate_tier t =
     (if missing_fields t \<noteq> []
      then Inl (ValueError (''artifact missing fields: '' @ py_repr (JList (map JStr (missing_fields t)))))
      else if length (the (ft_mean t)) = length (the (ft_scale t))
              \<and> length (the (ft_scale t)) = length (the (ft_coef t))
              \<and> length (the (ft_coef t)) = length (the (ft_feature_order t))
           then Inr ()
           else Inl (ValueError ''feature_order/scaler/coefficients length mismatch''))"

definition tier_ok :: "tier \<Rightarrow> bool" where
  "tier_ok t = (case validate_tier t of Inr _ \<Rightarrow> True | Inl _ \<Rightarrow> False)"

section \<open>The module state and its load\<close>

record fusion_state =
  fu_policy :: "artifact option"
  fu_error :: string
  fu_loaded :: bool
  fu_warmed :: bool

definition new_fusion_state :: fusion_state where
  "new_fusion_state = \<lparr>fu_policy = None, fu_error = [], fu_loaded = False, fu_warmed = False\<rparr>"

definition error_text :: "py_error \<Rightarrow> string" where
  "error_text e = (case e of
      KeyError m \<Rightarrow> ''KeyError: '' @ m | ValueError m \<Rightarrow> ''ValueError: '' @ m
    | TypeError m \<Rightarrow> ''TypeError: '' @ m | AttributeError m \<Rightarrow> ''AttributeError: '' @ m
    | OverflowError m \<Rightarrow> ''OverflowError: '' @ m | FileNotFoundError m \<Rightarrow> ''FileNotFoundError: '' @ m
    | IsADirectoryError m \<Rightarrow> ''IsADirectoryError: '' @ m
    | IndexError m \<Rightarrow> ''IndexError: '' @ m | OtherError m \<Rightarrow> m)"

definition load_policy :: "artifact_file \<Rightarrow> fusion_state \<Rightarrow> fusion_state" where
  "load_policy file st =
     (if fu_loaded st then st
      else let st1 = st\<lparr>fu_loaded := True\<rparr> in
        case file of
          NoArtifact \<Rightarrow> st1\<lparr>fu_error := ''models/fusion_policy.json not found. Train it with: ''
                          @ ''python -m scripts.train_fusion_policy''\<rparr>
        | BadArtifact e \<Rightarrow> st1\<lparr>fu_error := e\<rparr>
        | ArtifactFile a \<Rightarrow>
            (case validate_tier (art_floor a) of
               Inl e \<Rightarrow> st1\<lparr>fu_error := error_text e\<rparr>
             | Inr _ \<Rightarrow> st1\<lparr>fu_policy := Some (a\<lparr>art_upgrade_tiers := filter tier_ok (art_upgrade_tiers a)\<rparr>)\<rparr>))"

definition policy_available :: "artifact_file \<Rightarrow> fusion_state \<Rightarrow> (bool \<times> string) \<times> fusion_state" where
  "policy_available file st =
     (let st' = load_policy file st in
      case fu_policy st' of
        None \<Rightarrow> ((False, fu_error st'), st')
      | Some a \<Rightarrow> ((True, ''loaded models/fusion_policy.json (''
            @ int_str (int (length (the (ft_feature_order (art_floor a))))) @ '' features)''), st'))"

section \<open>Scores\<close>

definition sigmoid :: "real \<Rightarrow> real" where
  "sigmoid x = (if x < -60 then 0 else if x > 60 then 1 else 1 / (1 + exp (- x)))"

type_synonym features = "(string \<times> real) list"

text \<open>The weighted sum; \<open>feature_values[name]\<close> raises on a name that has no value.\<close>

fun linear_term :: "features \<Rightarrow> real \<Rightarrow> (string \<times> real \<times> real \<times> real) list \<Rightarrow> (py_error, real) res" where
  "linear_term fv z [] = Inr z"
| "linear_term fv z ((name, mean, scale, coef) # rest) =
     (case map_of fv name of
        None \<Rightarrow> Inl (KeyError name)
      | Some raw \<Rightarrow>
          linear_term fv (z + coef * (if scale \<noteq> 0 then (raw - mean) / scale else 0)) rest)"

definition apply_policy :: "features \<Rightarrow> class_policy \<Rightarrow> string list \<Rightarrow> (py_error, real) res" where
  "apply_policy fv p order =
     (case linear_term fv (cp_intercept p) (zip order (zip (cp_mean p) (zip (cp_scale p) (cp_coef p)))) of
        Inl e \<Rightarrow> Inl e
      | Inr z \<Rightarrow> Inr (sigmoid z))"

text \<open>A validated tier read as a policy of its own.\<close>

definition tier_policy :: "tier \<Rightarrow> class_policy" where
  "tier_policy t =
     \<lparr>cp_mean = the (ft_mean t), cp_scale = the (ft_scale t), cp_coef = the (ft_coef t),
      cp_intercept = the (ft_intercept t), cp_high = the (ft_high t), cp_medium = the (ft_medium t)\<rparr>"

record class_result =
  cr_score :: real
  cr_tier :: nat
  cr_ratio :: real
  cr_high :: real
  cr_medium :: real

definition class_result_of :: "class_policy \<Rightarrow> real \<Rightarrow> class_result" where
  "class_result_of p score =
     \<lparr>cr_score = score,
      cr_tier = (if score \<ge> cp_high p then 2 else if score \<ge> cp_medium p then 1 else 0),
      cr_ratio = (if cp_high p \<noteq> 0 then score / cp_high p else 0),
      cr_high = cp_high p, cr_medium = cp_medium p\<rparr>"

fun score_classes :: "features \<Rightarrow> string list \<Rightarrow> (string, class_policy) odict \<Rightarrow> (py_error, (string \<times> class_result) list) res" where
  "score_classes fv order [] = Inr []"
| "score_classes fv order ((cls, p) # rest) =
     bind_res (apply_policy fv p order) (\<lambda>score.
     bind_res (score_classes fv order rest) (\<lambda>rs.
       Inr ((cls, class_result_of p score) # rs)))"

text \<open>\<open>max(results, key=...)\<close>: the first of the entries whose (tier, ratio) is greatest.\<close>

definition class_less :: "class_result \<Rightarrow> class_result \<Rightarrow> bool" where
  "class_less a b \<longleftrightarrow> cr_tier a < cr_tier b \<or> (cr_tier a = cr_tier b \<and> cr_ratio a < cr_ratio b)"

fun max_class :: "string \<times> class_result \<Rightarrow> (string \<times> class_result) list \<Rightarrow> string \<times> class_result" where
  "max_class best [] = best"
| "max_class best (c # cs) = max_class (if class_less (snd best) (snd c) then c else best) cs"

definition select_per_class_verdict ::
  "features \<Rightarrow> tier \<Rightarrow> (py_error, ((string \<times> class_result) \<times> (string \<times> class_result) list) option) res" where
  "select_per_class_verdict fv t =
     (if ft_per_class t = [] then Inr None
      else bind_res (score_classes fv (the (ft_feature_order t)) (ft_per_class t)) (\<lambda>rs.
             Inr (Some (max_class (hd rs) (tl rs), rs))))"

section \<open>Detectors and tiers\<close>

datatype det_outcome = DetUnavailable string | DetScore real | DetRaises string

definition score_one_detector :: "(string \<Rightarrow> det_outcome) \<Rightarrow> string \<Rightarrow> string \<times> real option \<times> string option" where
  "score_one_detector detect name =
     (case detect name of
        DetUnavailable d \<Rightarrow> (name, None, Some (''detector '' @ [CHR 0x27] @ name @ [CHR 0x27] @ '' unavailable: '' @ d))
      | DetScore s \<Rightarrow> (name, Some s, None)
      | DetRaises e \<Rightarrow> (name, None, Some (''detector '' @ [CHR 0x27] @ name @ [CHR 0x27] @ '' raised '' @ e)))"

definition all_tiers :: "artifact \<Rightarrow> tier list" where
  "all_tiers a = art_upgrade_tiers a @ [art_floor a]"

definition tier_required_features :: "tier \<Rightarrow> string list" where
  "tier_required_features t = filter (\<lambda>n. n \<noteq> ''anchors'') (the (ft_feature_order t))"

text \<open>Every detector any tier needs, first occurrences only, in order.\<close>

fun add_unseen :: "string list \<Rightarrow> string list \<Rightarrow> string list" where
  "add_unseen seen [] = seen"
| "add_unseen seen (n # ns) = add_unseen (if n \<in> set seen then seen else seen @ [n]) ns"

definition union_required_features :: "artifact \<Rightarrow> string list" where
  "union_required_features a = add_unseen [] (concat (map tier_required_features (all_tiers a)))"

text \<open>
  Warming loads the detectors one by one; the first whose \<open>available()\<close> raises ends it
  without marking the detectors warm.
\<close>

definition warm_detectors :: "(string \<Rightarrow> bool) \<Rightarrow> string list \<Rightarrow> fusion_state \<Rightarrow> fusion_state" where
  "warm_detectors raises names st =
     (if fu_warmed st then st
      else if list_ex raises names then st else st\<lparr>fu_warmed := True\<rparr>)"

definition warm_up :: "artifact_file \<Rightarrow> (string \<Rightarrow> bool) \<Rightarrow> fusion_state \<Rightarrow> bool \<times> fusion_state" where
  "warm_up file raises st =
     (let ((ok, detail), st1) = policy_available file st in
      if \<not> ok then (False, st1)
      else let st2 = warm_detectors raises (union_required_features (the (fu_policy st1))) st1
           in (fu_warmed st2, st2))"

record fusion_result =
  fr_available :: bool
  fr_score :: "real option"
  fr_high :: "real option"
  fr_medium :: "real option"
  fr_detail :: string
  fr_detector_scores :: features
  fr_triggering_class :: "string option"
  fr_class_scores :: features

definition fusion_unavailable :: "string \<Rightarrow> features \<Rightarrow> fusion_result" where
  "fusion_unavailable detail scores =
     \<lparr>fr_available = False, fr_score = None, fr_high = None, fr_medium = None, fr_detail = detail,
      fr_detector_scores = scores, fr_triggering_class = None, fr_class_scores = []\<rparr>"

definition scored_features :: "real \<Rightarrow> (string \<times> real option \<times> string option) list \<Rightarrow> features" where
  "scored_features anchor_score results =
     (''anchors'', anchor_score) # concat (map (\<lambda>(n, s, e). case (e, s) of (None, Some x) \<Rightarrow> [(n, x)] | _ \<Rightarrow> []) results)"

definition tier_met :: "features \<Rightarrow> tier \<Rightarrow> bool" where
  "tier_met fv t = list_all (\<lambda>n. map_of fv n \<noteq> None) (tier_required_features t)"

text \<open>The first tier that is met, richest first, and whether it is the floor itself.\<close>

definition choose_tier :: "features \<Rightarrow> artifact \<Rightarrow> (tier \<times> bool) option" where
  "choose_tier fv a =
     find (\<lambda>(t, is_floor). tier_met fv t)
       (map (\<lambda>t. (t, False)) (art_upgrade_tiers a) @ [(art_floor a, True)])"

text \<open>The first error of the declared order, else the generic text.\<close>

definition first_error :: "(string \<times> real option \<times> string option) list \<Rightarrow> string" where
  "first_error results =
     (case concat (map (\<lambda>(n, s, e). case e of None \<Rightarrow> [] | Some x \<Rightarrow> [x]) results) of
        [] \<Rightarrow> ''no score computed for a required feature''
      | e # _ \<Rightarrow> if e = [] then ''no score computed for a required feature'' else e)"

definition fused_threat_score ::
  "artifact_file \<Rightarrow> (string \<Rightarrow> det_outcome) \<Rightarrow> bool \<Rightarrow> real \<Rightarrow> fusion_state \<Rightarrow> (py_error, fusion_result) res \<times> fusion_state" where
  "fused_threat_score file detect per_class anchor_score st =
     (let ((ok, detail), st') = policy_available file st in
      (if \<not> ok then Inr (fusion_unavailable detail [])
       else let a = the (fu_policy st');
                results = map (score_one_detector detect) (union_required_features a);
                fv = scored_features anchor_score results
            in case choose_tier fv a of
                 None \<Rightarrow> Inr (fusion_unavailable (first_error results) fv)
               | Some (chosen, is_floor) \<Rightarrow>
                   (let tier_note = (if is_floor then []
                         else '', tier='' @ (case ft_tier_id chosen of None \<Rightarrow> ''?'' | Some i \<Rightarrow> i)) in
                    bind_res (if per_class then select_per_class_verdict fv chosen else Inr None) (\<lambda>pc.
                    case pc of
                      Some ((winner, w), rs) \<Rightarrow>
                        Inr \<lparr>fr_available = True, fr_score = Some (cr_score w), fr_high = Some (cr_high w),
                             fr_medium = Some (cr_medium w),
                             fr_detail = ''fusion applied (per-class, triggered by '' @ winner @ tier_note @ '')'',
                             fr_detector_scores = fv, fr_triggering_class = Some winner,
                             fr_class_scores = map (\<lambda>(c, r). (c, cr_score r)) rs\<rparr>
                    | None \<Rightarrow>
                        bind_res (apply_policy fv (tier_policy chosen) (the (ft_feature_order chosen))) (\<lambda>p.
                          Inr \<lparr>fr_available = True, fr_score = Some p, fr_high = ft_high chosen,
                               fr_medium = ft_medium chosen, fr_detail = ''fusion applied'' @ tier_note,
                               fr_detector_scores = fv, fr_triggering_class = None, fr_class_scores = []\<rparr>))),
       st'))"

section \<open>Lemmas\<close>

lemma sigmoid_bounds: "0 \<le> sigmoid x \<and> sigmoid x \<le> 1"
  by (auto simp: sigmoid_def add_pos_pos field_simps)

lemma linear_term_total:
  "\<forall>(n, m) \<in> set xs. map_of fv n \<noteq> None \<Longrightarrow> \<exists>y. linear_term fv z xs = Inr y"
  by (induction fv z xs rule: linear_term.induct) auto

lemma apply_policy_total:
  assumes "\<forall>n \<in> set order. map_of fv n \<noteq> None"
  shows "\<exists>p. apply_policy fv pol order = Inr p \<and> 0 \<le> p \<and> p \<le> 1"
proof -
  have "\<forall>(n, m) \<in> set (zip order (zip (cp_mean pol) (zip (cp_scale pol) (cp_coef pol)))). map_of fv n \<noteq> None"
    using assms by (auto dest: set_zip_leftD)
  from linear_term_total [OF this, of "cp_intercept pol"] show ?thesis
    by (auto simp: apply_policy_def sigmoid_bounds)
qed

lemma score_classes_total:
  assumes "\<forall>n \<in> set order. map_of fv n \<noteq> None"
  shows "\<exists>rs. score_classes fv order pcs = Inr rs \<and> length rs = length pcs
    \<and> list_all2 (\<lambda>(c, p) (c', r). c' = c \<and> (\<exists>s. apply_policy fv p order = Inr s \<and> r = class_result_of p s)) pcs rs"
proof (induction pcs)
  case (Cons cp pcs)
  obtain c p where cp: "cp = (c, p)" by (cases cp)
  obtain s where "apply_policy fv p order = Inr s" using apply_policy_total [OF assms] by blast
  with Cons cp show ?case by auto
qed simp

lemma max_class_greatest:
  "c \<in> set (best # cs) \<Longrightarrow> \<not> class_less (snd (max_class best cs)) (snd c)"
proof (induction best cs arbitrary: c rule: max_class.induct)
  case (1 best)
  then show ?case by (auto simp: class_less_def)
next
  case (2 best d cs)
  let ?b = "if class_less (snd best) (snd d) then d else best"
  have b: "\<not> class_less (snd (max_class ?b cs)) (snd ?b)" by (rule 2(1)) simp
  show ?case
  proof (cases "c \<in> set (?b # cs)")
    case True
    then show ?thesis using 2(1) by simp
  next
    case False
    then have "c = best \<and> class_less (snd best) (snd d) \<or> c = d \<and> \<not> class_less (snd best) (snd d)"
      using 2(2) by (auto split: if_splits)
    then show ?thesis using b by (auto simp: class_less_def split: if_splits)
  qed
qed

lemma max_class_mem: "max_class best cs \<in> set (best # cs)"
  by (induction best cs rule: max_class.induct) (auto split: if_splits)

lemma add_unseen_set: "set (add_unseen seen ns) = set seen \<union> set ns"
  by (induction seen ns rule: add_unseen.induct) auto

lemma union_required: "set (union_required_features a) = (\<Union>t \<in> set (all_tiers a). set (tier_required_features t))"
  by (simp add: union_required_features_def add_unseen_set)

lemma scored_features_map:
  assumes "n \<noteq> ''anchors''"
  shows "map_of (scored_features anchor (map (score_one_detector detect) names)) n =
           (if n \<in> set names then (case detect n of DetScore s \<Rightarrow> Some s | _ \<Rightarrow> None) else None)"
  using assms
  by (induction names)
    (auto simp: scored_features_def score_one_detector_def map_of_eq_None_iff split: det_outcome.splits)

definition answered :: "(string \<Rightarrow> det_outcome) \<Rightarrow> tier \<Rightarrow> bool" where
  "answered detect t \<longleftrightarrow> (\<forall>n \<in> set (the (ft_feature_order t)). n = ''anchors'' \<or> (\<exists>s. detect n = DetScore s))"

abbreviation live_features :: "(string \<Rightarrow> det_outcome) \<Rightarrow> real \<Rightarrow> artifact \<Rightarrow> features" where
  "live_features detect anchor a \<equiv>
     scored_features anchor (map (score_one_detector detect) (union_required_features a))"

lemma scored_anchors [simp]: "map_of (scored_features anchor rs) ''anchors'' = Some anchor"
  by (simp add: scored_features_def)

lemma tier_met_iff:
  assumes "t \<in> set (all_tiers a)"
  shows "tier_met (live_features detect anchor a) t \<longleftrightarrow> answered detect t"
proof -
  have "(map_of (live_features detect anchor a) n \<noteq> None) \<longleftrightarrow> (\<exists>s. detect n = DetScore s)"
    if "n \<in> set (the (ft_feature_order t))" "n \<noteq> ''anchors''" for n
  proof -
    have "n \<in> set (union_required_features a)"
      using that assms union_required by (auto simp: tier_required_features_def)
    then show ?thesis using scored_features_map [OF that(2)] by (cases "detect n") auto
  qed
  then show ?thesis
    unfolding tier_met_def answered_def tier_required_features_def list_all_iff by auto
qed

lemma find_first:
  "find P xs = Some x \<Longrightarrow> \<exists>pre post. xs = pre @ x # post \<and> P x \<and> (\<forall>u \<in> set pre. \<not> P u)"
proof (induction xs)
  case (Cons y ys)
  show ?case
  proof (cases "P y")
    case True
    then have "x = y" using Cons.prems by simp
    then show ?thesis using True by (intro exI [of _ "[]"] exI [of _ ys]) simp
  next
    case False
    then obtain pre post where "ys = pre @ x # post \<and> P x \<and> (\<forall>u \<in> set pre. \<not> P u)"
      using Cons by auto
    then show ?thesis using False by (intro exI [of _ "y # pre"] exI [of _ post]) auto
  qed
qed simp

lemma choose_tier_Some:
  assumes "choose_tier (live_features detect anchor a) a = Some (t, fl)"
  shows "\<exists>pre post. all_tiers a = pre @ t # post \<and> answered detect t \<and> (\<forall>u \<in> set pre. \<not> answered detect u)"
proof -
  let ?fv = "live_features detect anchor a"
  from find_first [OF assms [unfolded choose_tier_def]]
  obtain pre post where f: "map (\<lambda>t. (t, False)) (art_upgrade_tiers a) @ [(art_floor a, True)] = pre @ (t, fl) # post"
      "tier_met ?fv t" "\<forall>u \<in> set pre. \<not> (case u of (t, is_floor) \<Rightarrow> tier_met ?fv t)" by auto
  then have "\<forall>u \<in> set pre. \<not> tier_met ?fv (fst u)" by auto
  note f = f(1,2) this
  have "map fst (map (\<lambda>t. (t, False)) (art_upgrade_tiers a) @ [(art_floor a, True)]) = all_tiers a"
    by (simp add: all_tiers_def comp_def)
  then have all: "all_tiers a = map fst pre @ t # map fst post" unfolding f(1) by simp
  then have sub: "t \<in> set (all_tiers a)" "set (map fst pre) \<subseteq> set (all_tiers a)" by auto
  have "answered detect t" using f(2) tier_met_iff [OF sub(1)] by blast
  moreover have "\<forall>u \<in> set (map fst pre). \<not> answered detect u"
    using f(3) sub(2) tier_met_iff [where a = a and detect = detect and anchor = anchor] by auto
  ultimately show ?thesis using all by blast
qed

lemma choose_tier_None:
  "choose_tier (live_features detect anchor a) a = None \<longleftrightarrow> (\<forall>t \<in> set (all_tiers a). \<not> answered detect t)"
proof -
  have "choose_tier (live_features detect anchor a) a = None \<longleftrightarrow>
      (\<forall>t \<in> set (all_tiers a). \<not> tier_met (live_features detect anchor a) t)"
    by (auto simp: choose_tier_def find_None_iff all_tiers_def)
  then show ?thesis using tier_met_iff by metis
qed

lemma features_cover:
  assumes "answered detect t" "t \<in> set (all_tiers a)"
  shows "\<forall>n \<in> set (the (ft_feature_order t)). map_of (live_features detect anchor a) n \<noteq> None"
proof
  fix n assume n: "n \<in> set (the (ft_feature_order t))"
  have "tier_met (live_features detect anchor a) t" using tier_met_iff assms by blast
  then show "map_of (live_features detect anchor a) n \<noteq> None"
    using n by (cases "n = ''anchors''") (auto simp: tier_met_def tier_required_features_def list_all_iff)
qed

text \<open>The artifact a load leaves: malformed upgrade tiers dropped one by one.\<close>

definition live_artifact :: "artifact \<Rightarrow> artifact" where
  "live_artifact a = a\<lparr>art_upgrade_tiers := filter tier_ok (art_upgrade_tiers a)\<rparr>"

lemma loaded_fresh:
  "tier_ok (art_floor a) \<Longrightarrow>
   policy_available (ArtifactFile a) new_fusion_state =
     ((True, snd (fst (policy_available (ArtifactFile a) new_fusion_state))),
      new_fusion_state\<lparr>fu_loaded := True, fu_policy := Some (live_artifact a)\<rparr>)"
  by (auto simp: tier_ok_def policy_available_def load_policy_def new_fusion_state_def live_artifact_def Let_def
      split: sum.splits)

lemma fused_step:
  assumes "tier_ok (art_floor a)"
  shows "fst (fused_threat_score (ArtifactFile a) detect per_class anchor new_fusion_state) =
    (let b = live_artifact a; fv = live_features detect anchor b in
     case choose_tier fv b of
       None \<Rightarrow> Inr (fusion_unavailable (first_error (map (score_one_detector detect) (union_required_features b))) fv)
     | Some (t, fl) \<Rightarrow>
         (let tier_note = (if fl then [] else '', tier='' @ (case ft_tier_id t of None \<Rightarrow> ''?'' | Some i \<Rightarrow> i)) in
          bind_res (if per_class then select_per_class_verdict fv t else Inr None) (\<lambda>pc.
            case pc of
              Some ((winner, w), rs) \<Rightarrow>
                Inr \<lparr>fr_available = True, fr_score = Some (cr_score w), fr_high = Some (cr_high w),
                     fr_medium = Some (cr_medium w),
                     fr_detail = ''fusion applied (per-class, triggered by '' @ winner @ tier_note @ '')'',
                     fr_detector_scores = fv, fr_triggering_class = Some winner,
                     fr_class_scores = map (\<lambda>(c, r). (c, cr_score r)) rs\<rparr>
            | None \<Rightarrow>
                bind_res (apply_policy fv (tier_policy t) (the (ft_feature_order t))) (\<lambda>p.
                  Inr \<lparr>fr_available = True, fr_score = Some p, fr_high = ft_high t,
                       fr_medium = ft_medium t, fr_detail = ''fusion applied'' @ tier_note,
                       fr_detector_scores = fv, fr_triggering_class = None, fr_class_scores = []\<rparr>))))"
proof (cases "choose_tier (live_features detect anchor (live_artifact a)) (live_artifact a)")
  case None
  then show ?thesis
    unfolding fused_threat_score_def by (subst loaded_fresh [OF assms]) (simp add: Let_def)
next
  case (Some tf)
  then show ?thesis
    unfolding fused_threat_score_def
    by (subst loaded_fresh [OF assms]) (cases tf, simp add: Let_def case_prod_unfold)
qed

lemma fused_none:
  assumes "tier_ok (art_floor a)" "choose_tier (live_features detect anchor (live_artifact a)) (live_artifact a) = None"
  shows "\<exists>d. fst (fused_threat_score (ArtifactFile a) detect per_class anchor new_fusion_state)
     = Inr (fusion_unavailable d (live_features detect anchor (live_artifact a)))"
  unfolding fused_step [OF assms(1)] Let_def assms(2) by auto

lemma fused_class:
  assumes "tier_ok (art_floor a)" "choose_tier (live_features detect anchor (live_artifact a)) (live_artifact a) = Some (t, fl)"
    and "select_per_class_verdict (live_features detect anchor (live_artifact a)) t = Inr (Some ((w, r), rs))"
  shows "\<exists>d. fst (fused_threat_score (ArtifactFile a) detect True anchor new_fusion_state)
     = Inr \<lparr>fr_available = True, fr_score = Some (cr_score r), fr_high = Some (cr_high r),
            fr_medium = Some (cr_medium r), fr_detail = d,
            fr_detector_scores = live_features detect anchor (live_artifact a), fr_triggering_class = Some w,
            fr_class_scores = map (\<lambda>(c, r). (c, cr_score r)) rs\<rparr>"
  unfolding fused_step [OF assms(1)] Let_def assms(2) by (simp add: assms(3))

lemma fused_global:
  assumes "tier_ok (art_floor a)" "choose_tier (live_features detect anchor (live_artifact a)) (live_artifact a) = Some (t, fl)"
    and "\<not> per_class \<or> ft_per_class t = []"
    and "apply_policy (live_features detect anchor (live_artifact a)) (tier_policy t) (the (ft_feature_order t)) = Inr p"
  shows "\<exists>d. fst (fused_threat_score (ArtifactFile a) detect per_class anchor new_fusion_state)
     = Inr \<lparr>fr_available = True, fr_score = Some p, fr_high = ft_high t, fr_medium = ft_medium t, fr_detail = d,
            fr_detector_scores = live_features detect anchor (live_artifact a), fr_triggering_class = None,
            fr_class_scores = []\<rparr>"
proof -
  have "(if per_class then select_per_class_verdict (live_features detect anchor (live_artifact a)) t else Inr None) = Inr None"
    using assms(3) by (auto simp: select_per_class_verdict_def)
  then show ?thesis unfolding fused_step [OF assms(1)] Let_def assms(2) by (simp add: assms(4))
qed

lemma per_class_Some:
  assumes "\<forall>n \<in> set (the (ft_feature_order t)). map_of fv n \<noteq> None" "ft_per_class t \<noteq> []"
  shows "\<exists>w r rs. select_per_class_verdict fv t = Inr (Some ((w, r), rs)) \<and>
    (\<exists>p s. (w, p) \<in> set (ft_per_class t) \<and> apply_policy fv p (the (ft_feature_order t)) = Inr s \<and> r = class_result_of p s) \<and>
    (\<forall>(c, p) \<in> set (ft_per_class t). \<exists>s. apply_policy fv p (the (ft_feature_order t)) = Inr s
        \<and> \<not> class_less r (class_result_of p s))"
proof -
  let ?o = "the (ft_feature_order t)"
  obtain rs where rs: "score_classes fv ?o (ft_per_class t) = Inr rs" "length rs = length (ft_per_class t)"
     "list_all2 (\<lambda>(c, p) (c', r). c' = c \<and> (\<exists>s. apply_policy fv p ?o = Inr s \<and> r = class_result_of p s)) (ft_per_class t) rs"
    using score_classes_total [OF assms(1)] by blast
  have ne: "rs \<noteq> []" using rs(2) assms(2) by auto
  obtain w r where wr: "max_class (hd rs) (tl rs) = (w, r)" by fastforce
  have mem: "(w, r) \<in> set rs" using max_class_mem [of "hd rs" "tl rs"] wr ne by simp
  have great: "\<not> class_less r (snd c)" if "c \<in> set rs" for c
    using max_class_greatest [of c "hd rs" "tl rs"] that ne wr by simp
  from mem obtain i where i: "i < length rs" "rs ! i = (w, r)" by (auto simp: in_set_conv_nth)
  have "\<exists>p s. (w, p) \<in> set (ft_per_class t) \<and> apply_policy fv p ?o = Inr s \<and> r = class_result_of p s"
    using list_all2_nthD2 [OF rs(3) i(1)] i rs(2) by (auto split: prod.splits) (metis nth_mem)
  moreover have "\<exists>s. apply_policy fv p ?o = Inr s \<and> \<not> class_less r (class_result_of p s)"
    if cp: "(c, p) \<in> set (ft_per_class t)" for c p
  proof -
    obtain j where j: "j < length (ft_per_class t)" "ft_per_class t ! j = (c, p)" using cp by (auto simp: in_set_conv_nth)
    obtain c' r' where r': "rs ! j = (c', r')" by fastforce
    have "(c', r') \<in> set rs" using j rs(2) r' by (metis nth_mem)
    then show ?thesis using list_all2_nthD [OF rs(3) j(1)] j r' great by fastforce
  qed
  ultimately show ?thesis using rs(1) wr assms(2) by (auto simp: select_per_class_verdict_def)
qed

section \<open>Properties\<close>

text \<open>
  C22. Nothing is imputed and the richest tier decides: fusion is available exactly when some
  tier of the loaded artifact has a real score from every detector it needs; it then scores
  with the first such tier, richer tiers lacking a detector, and the probability is in
  [0, 1], computed from scores that all exist.  Otherwise it reports itself unavailable with
  no score.
\<close>

theorem fusion_never_imputes:
  assumes "tier_ok (art_floor a)"
  shows "\<exists>r. fst (fused_threat_score (ArtifactFile a) detect per_class anchor new_fusion_state) = Inr r \<and>
    (if \<forall>t \<in> set (all_tiers (live_artifact a)). \<not> answered detect t
     then \<not> fr_available r \<and> fr_score r = None
     else fr_available r \<and>
       (\<exists>pre t post s p. all_tiers (live_artifact a) = pre @ t # post \<and> answered detect t
          \<and> (\<forall>u \<in> set pre. \<not> answered detect u)
          \<and> fr_score r = Some s \<and> 0 \<le> s \<and> s \<le> 1
          \<and> (if per_class \<and> ft_per_class t \<noteq> [] then p \<in> snd ` set (ft_per_class t) else p = tier_policy t)
          \<and> apply_policy (live_features detect anchor (live_artifact a)) p (the (ft_feature_order t)) = Inr s))"
proof (cases "choose_tier (live_features detect anchor (live_artifact a)) (live_artifact a)")
  case None
  then show ?thesis
    using choose_tier_None [where detect = detect and anchor = anchor and a = "live_artifact a"]
      fused_none [OF assms None, of per_class]
    by (auto simp: fusion_unavailable_def)
next
  case (Some tf)
  let ?b = "live_artifact a" and ?fv = "live_features detect anchor (live_artifact a)"
  obtain t fl where tf: "tf = (t, fl)" by (cases tf)
  from choose_tier_Some [OF Some [unfolded tf]] obtain pre post
    where pp: "all_tiers ?b = pre @ t # post" "answered detect t" "\<forall>u \<in> set pre. \<not> answered detect u" by blast
  have tin: "t \<in> set (all_tiers ?b)" using pp(1) by simp
  note cover = features_cover [OF pp(2) tin, where anchor = anchor]
  have some: "\<not> (\<forall>t \<in> set (all_tiers ?b). \<not> answered detect t)" using tin pp(2) by blast
  show ?thesis
  proof (cases "per_class \<and> ft_per_class t \<noteq> []")
    case True
    from per_class_Some [OF cover] True obtain w r rs p s
      where w: "select_per_class_verdict ?fv t = Inr (Some ((w, r), rs))" "(w, p) \<in> set (ft_per_class t)"
        "apply_policy ?fv p (the (ft_feature_order t)) = Inr s" "r = class_result_of p s" by blast
    have s01: "0 \<le> s" "s \<le> 1" using apply_policy_total [OF cover, of p] w(3) by auto
    obtain d where d: "fst (fused_threat_score (ArtifactFile a) detect per_class anchor new_fusion_state)
       = Inr \<lparr>fr_available = True, fr_score = Some (cr_score r), fr_high = Some (cr_high r),
            fr_medium = Some (cr_medium r), fr_detail = d,
            fr_detector_scores = ?fv, fr_triggering_class = Some w,
            fr_class_scores = map (\<lambda>(c, r). (c, cr_score r)) rs\<rparr>"
      using fused_class [OF assms Some [unfolded tf] w(1)] True by auto
    have "p \<in> snd ` set (ft_per_class t)" using w(2) by force
    then show ?thesis
      unfolding d using True pp some s01 w(3,4) by (auto simp: class_result_of_def)
  next
    case False
    from apply_policy_total [OF cover, of "tier_policy t"] obtain s
      where s: "apply_policy ?fv (tier_policy t) (the (ft_feature_order t)) = Inr s" "0 \<le> s" "s \<le> 1" by blast
    obtain d where d: "fst (fused_threat_score (ArtifactFile a) detect per_class anchor new_fusion_state)
     = Inr \<lparr>fr_available = True, fr_score = Some s, fr_high = ft_high t, fr_medium = ft_medium t, fr_detail = d,
            fr_detector_scores = ?fv, fr_triggering_class = None, fr_class_scores = []\<rparr>"
      using fused_global [OF assms Some [unfolded tf] _ s(1), of per_class] False by auto
    show ?thesis
      unfolding d using False pp s some by auto
  qed
qed

text \<open>
  The per-class verdict is the most severe one: with per-class policies, no class of the
  chosen tier lands in a higher band than the one reported, so the reported score reaches
  the reported HIGH threshold exactly when some class's score reaches that class's own.
\<close>

theorem per_class_most_severe:
  assumes "tier_ok (art_floor a)"
    and "fst (fused_threat_score (ArtifactFile a) detect True anchor new_fusion_state) = Inr r"
    and "fr_triggering_class r = Some w"
  shows "\<exists>t sc hi med. t \<in> set (all_tiers (live_artifact a)) \<and> answered detect t
    \<and> fr_score r = Some sc \<and> fr_high r = Some hi \<and> fr_medium r = Some med
    \<and> (sc \<ge> hi \<longleftrightarrow> (\<exists>(c, p) \<in> set (ft_per_class t). \<exists>s. s \<ge> cp_high p \<and>
          apply_policy (live_features detect anchor (live_artifact a)) p (the (ft_feature_order t)) = Inr s))
    \<and> (sc \<ge> hi \<or> sc \<ge> med \<longleftrightarrow> (\<exists>(c, p) \<in> set (ft_per_class t). \<exists>s. (s \<ge> cp_high p \<or> s \<ge> cp_medium p) \<and>
          apply_policy (live_features detect anchor (live_artifact a)) p (the (ft_feature_order t)) = Inr s))"
proof -
  let ?b = "live_artifact a" and ?fv = "live_features detect anchor (live_artifact a)"
  have "choose_tier ?fv ?b \<noteq> None"
  proof
    assume "choose_tier ?fv ?b = None"
    then show False using fused_none [OF assms(1), where detect = detect and anchor = anchor and per_class = True] assms(2,3)
      by (auto simp: fusion_unavailable_def)
  qed
  then obtain t fl where tf: "choose_tier ?fv ?b = Some (t, fl)" by auto
  from choose_tier_Some [OF tf] have t: "t \<in> set (all_tiers ?b)" "answered detect t" by auto
  note cover = features_cover [OF t(2,1), where anchor = anchor]
  have ne: "ft_per_class t \<noteq> []"
    using assms(2,3) apply_policy_total [OF cover, of "tier_policy t"] fused_global [OF assms(1) tf, of True]
    by auto
  let ?ap = "\<lambda>p. apply_policy ?fv p (the (ft_feature_order t))"
  from per_class_Some [OF cover ne] obtain w' cr rs where
    v: "select_per_class_verdict ?fv t = Inr (Some ((w', cr), rs))" and
    own: "\<exists>p s. (w', p) \<in> set (ft_per_class t) \<and> ?ap p = Inr s \<and> cr = class_result_of p s" and
    all: "\<forall>(c, p) \<in> set (ft_per_class t). \<exists>s. ?ap p = Inr s \<and> \<not> class_less cr (class_result_of p s)"
    by blast
  from own obtain p0 s0 where p0: "(w', p0) \<in> set (ft_per_class t)" "?ap p0 = Inr s0" "cr = class_result_of p0 s0"
    by blast
  have g: "\<not> class_less cr (class_result_of p s)" if "(c, p) \<in> set (ft_per_class t)" "?ap p = Inr s" for c p s
    using all that by fastforce
  have r: "fr_score r = Some s0" "fr_high r = Some (cp_high p0)" "fr_medium r = Some (cp_medium p0)"
    using assms(2) fused_class [OF assms(1) tf v] p0(3) by (auto simp: class_result_of_def)
  have le: "cr_tier (class_result_of p s) \<le> cr_tier cr" if "(c, p) \<in> set (ft_per_class t)" "?ap p = Inr s" for c p s
    using g [OF that] by (auto simp: class_less_def)
  have high: "s0 \<ge> cp_high p0 \<longleftrightarrow> (\<exists>(c, p) \<in> set (ft_per_class t). \<exists>s. s \<ge> cp_high p \<and> ?ap p = Inr s)" (is "?l \<longleftrightarrow> ?r")
  proof
    assume ?l
    then show ?r using p0(1,2) by blast
  next
    assume ?r
    then obtain c p s where c: "(c, p) \<in> set (ft_per_class t)" "s \<ge> cp_high p" "?ap p = Inr s" by blast
    show ?l using le [OF c(1,3)] c(2) p0(3) by (simp add: class_result_of_def split: if_splits)
  qed
  have med: "(s0 \<ge> cp_high p0 \<or> s0 \<ge> cp_medium p0) \<longleftrightarrow>
      (\<exists>(c, p) \<in> set (ft_per_class t). \<exists>s. (s \<ge> cp_high p \<or> s \<ge> cp_medium p) \<and> ?ap p = Inr s)" (is "?l \<longleftrightarrow> ?r")
  proof
    assume ?l
    then show ?r using p0(1,2) by blast
  next
    assume ?r
    then obtain c p s where c: "(c, p) \<in> set (ft_per_class t)" "s \<ge> cp_high p \<or> s \<ge> cp_medium p" "?ap p = Inr s"
      by blast
    show ?l using le [OF c(1,3)] c(2) p0(3) by (auto simp: class_result_of_def split: if_splits)
  qed
  show ?thesis using t r high med by blast
qed

section \<open>Witnesses\<close>

definition demo_floor :: tier where
  "demo_floor = \<lparr>ft_tier_id = None, ft_feature_order = Some [''anchors''], ft_mean = Some [0], ft_scale = Some [1],
     ft_coef = Some [1], ft_intercept = Some 0, ft_high = Some (9 / 10), ft_medium = Some (1 / 2),
     ft_per_class = [(''injection'', \<lparr>cp_mean = [0], cp_scale = [1], cp_coef = [1], cp_intercept = 0,
                                     cp_high = 9 / 10, cp_medium = 1 / 2\<rparr>)]\<rparr>"

definition demo_rich :: tier where
  "demo_rich = demo_floor\<lparr>ft_tier_id := Some ''rich'', ft_feature_order := Some [''anchors'', ''toxic_bert''],
     ft_mean := Some [0, 0], ft_scale := Some [1, 1], ft_coef := Some [1, 1], ft_per_class := []\<rparr>"

lemma demo_tiers: "tier_ok demo_floor" "tier_ok demo_rich"
  by (simp_all add: tier_ok_def validate_tier_def missing_fields_def demo_floor_def demo_rich_def)

theorem fusion_never_imputes_witness:
  "\<exists>r. fst (fused_threat_score (ArtifactFile \<lparr>art_floor = demo_floor, art_upgrade_tiers = [demo_rich]\<rparr>)
       (\<lambda>n. DetUnavailable ''down'') False (1 / 4) new_fusion_state) = Inr r
     \<and> fr_available r \<and> (\<exists>s. fr_score r = Some s \<and> s \<le> 1)"
proof -
  let ?a = "\<lparr>art_floor = demo_floor, art_upgrade_tiers = [demo_rich]\<rparr>"
  have "tier_ok (art_floor ?a)" by (simp add: demo_tiers)
  moreover have "demo_floor \<in> set (all_tiers (live_artifact ?a))" "answered (\<lambda>n. DetUnavailable ''down'') demo_floor"
    by (simp_all add: all_tiers_def live_artifact_def answered_def demo_floor_def)
  ultimately show ?thesis
    using fusion_never_imputes [where a = ?a and detect = "\<lambda>n. DetUnavailable ''down''" and per_class = False
        and anchor = "1 / 4"] by (auto split: if_splits)
qed

theorem per_class_most_severe_witness:
  "\<exists>r sc hi. fst (fused_threat_score (ArtifactFile \<lparr>art_floor = demo_floor, art_upgrade_tiers = []\<rparr>)
       (\<lambda>n. DetUnavailable ''down'') True 100 new_fusion_state) = Inr r
     \<and> fr_score r = Some sc \<and> fr_high r = Some hi \<and> sc \<ge> hi"
proof -
  let ?a = "\<lparr>art_floor = demo_floor, art_upgrade_tiers = []\<rparr>" and ?det = "\<lambda>n. DetUnavailable ''down''"
  let ?fv = "live_features ?det 100 (live_artifact ?a)"
  have ok: "tier_ok (art_floor ?a)" by (simp add: demo_tiers)
  have tiers: "all_tiers (live_artifact ?a) = [demo_floor]" by (simp add: all_tiers_def live_artifact_def)
  have met: "tier_met ?fv demo_floor"
    by (simp add: tier_met_def tier_required_features_def demo_floor_def)
  have ch: "choose_tier ?fv (live_artifact ?a) = Some (demo_floor, True)"
    using met by (simp add: choose_tier_def live_artifact_def)
  define p where "p = \<lparr>cp_mean = [0], cp_scale = [1], cp_coef = [1], cp_intercept = 0, cp_high = 9 / 10, cp_medium = (1 / 2 :: real)\<rparr>"
  have pc: "ft_per_class demo_floor = [(''injection'', p)]" "ft_feature_order demo_floor = Some [''anchors'']"
    by (simp_all add: demo_floor_def p_def)
  have ap: "apply_policy ?fv p [''anchors''] = Inr 1" by (simp add: apply_policy_def p_def sigmoid_def)
  have sel: "select_per_class_verdict ?fv demo_floor
      = Inr (Some ((''injection'', class_result_of p 1), [(''injection'', class_result_of p 1)]))"
    by (simp add: select_per_class_verdict_def pc ap)
  obtain r where r: "fst (fused_threat_score (ArtifactFile ?a) ?det True 100 new_fusion_state) = Inr r"
      "fr_triggering_class r = Some ''injection''"
    using fused_class [OF ok ch sel] by auto
  from per_class_most_severe [OF ok r] obtain t sc hi where t: "t \<in> set (all_tiers (live_artifact ?a))"
      "fr_score r = Some sc" "fr_high r = Some hi"
      "sc \<ge> hi \<longleftrightarrow> (\<exists>(c, p) \<in> set (ft_per_class t). \<exists>s. s \<ge> cp_high p \<and>
          apply_policy ?fv p (the (ft_feature_order t)) = Inr s)" by blast
  have "t = demo_floor" using t(1) tiers by simp
  then have "sc \<ge> hi" using t(4) pc ap by (simp add: p_def)
  then show ?thesis using r(1) t(2,3) by blast
qed

end
