(* ===== verification/Judge.thy ===== *)
theory Judge
  imports Json Circuit_Breaker
begin

text \<open>
  The judge backends, \<open>core/semantic_judge.py\<close> and the Stage 4 arbiters of
  \<open>core/risk.py\<close>: the verdict of a local model behind the circuit breaker, and the risk it
  is turned into.

  An HTTP call is its outcome: an exception, or a status with the parsed body (\<open>None\<close> when
  \<open>response.json()\<close> raises).  \<open>json_loads\<close> is \<open>json.loads\<close> on the model's text (\<open>None\<close> for
  \<open>JSONDecodeError\<close>).  The state is the breaker with its shared part; \<open>up\<close>, \<open>now\<close>, \<open>t\<close>
  are those of \<open>Circuit_Breaker\<close>.
\<close>

section \<open>Definitions from the code\<close>

datatype http = HttpRaises | HttpResp int "json option"

type_synonym cb_state = "breaker \<times> shared_state"

text \<open>\<open>body.get(k, default).strip()\<close> and the errors it can raise.\<close>

definition get_default :: "json \<Rightarrow> string \<Rightarrow> json \<Rightarrow> (py_error, json) res" where
  "get_default j k d = (if is_dict j then Inr (jget_or j k d) else Inl (AttributeError ''get''))"

definition as_text :: "json \<Rightarrow> (py_error, string) res" where
  "as_text j = (case j of JStr s \<Rightarrow> Inr s | _ \<Rightarrow> Inl (AttributeError ''strip''))"

definition uses_llama_guard_protocol :: "string \<Rightarrow> bool" where
  "uses_llama_guard_protocol model = str_contains ''guard'' (str_lower model)"

text \<open>\<open>judge_available\<close>: the model list answers and names the model (its tag apart).\<close>

definition listed_model :: "string \<Rightarrow> json \<Rightarrow> bool" where
  "listed_model model m =
     (case jget_or m ''name'' (JStr []) of JStr n \<Rightarrow> hd (split_on (CHR '':'') n) = model | _ \<Rightarrow> False)"

definition judge_available :: "string \<Rightarrow> http \<Rightarrow> bool" where
  "judge_available model tags =
     (case tags of
        HttpResp status (Some body) \<Rightarrow>
          status = 200 \<and> is_dict body \<and>
          (case jget_or body ''models'' (JList []) of
             JList ms \<Rightarrow> list_all (\<lambda>m. is_dict m \<and> is_str (jget_or m ''name'' (JStr []))) ms
                         \<and> list_ex (listed_model model) ms
           | _ \<Rightarrow> False)
      | _ \<Rightarrow> False)"

text \<open>
  The Llama Guard reply: \<open>Inl\<close> when reading it raises; else the verdict, with \<open>None\<close> for the
  unrecognised output that fails closed without touching the breaker.
\<close>

definition llama_guard_reply :: "json option \<Rightarrow> (py_error, string option) res" where
  "llama_guard_reply body =
     (case body of
        None \<Rightarrow> Inl (ValueError ''json'')
      | Some j \<Rightarrow>
          bind_res (get_default j ''message'' (JDict [])) (\<lambda>m.
          bind_res (get_default m ''content'' (JStr [])) (\<lambda>c.
          bind_res (as_text c) (\<lambda>raw0.
            let raw = str_strip raw0;
                verdict_line = str_lower (str_strip (hd (split_on (CHR 0x0A) raw)))
            in Inr (if verdict_line = ''safe'' then Some ''SAFE''
                    else if verdict_line = ''unsafe'' then Some ''DANGEROUS'' else None)))))"

text \<open>\<open>None\<close> is an exception that leaves the function (no breaker operation done before it).\<close>

definition judge_via_llama_guard ::
  "bool \<Rightarrow> real \<Rightarrow> real \<Rightarrow> http \<Rightarrow> cb_state \<Rightarrow> string option \<times> cb_state" where
  "judge_via_llama_guard up now t chat s =
     (case chat of
        HttpRaises \<Rightarrow> (None, s)
      | HttpResp status body \<Rightarrow>
          if status \<noteq> 200 then (Some ''DANGEROUS'', record_failure up now t s)
          else case llama_guard_reply body of
                 Inl e \<Rightarrow> (None, s)
               | Inr (Some v) \<Rightarrow> (Some v, record_success up s)
               | Inr None \<Rightarrow> (Some ''DANGEROUS'', s))"

text \<open>The markdown fence the model may add.\<close>

definition fence :: string where
  "fence = [CHR 0x60, CHR 0x60, CHR 0x60]"

definition unfence :: "string \<Rightarrow> string" where
  "unfence raw =
     (if starts_with (fence @ ''json'') raw
      then str_strip (str_replace fence [] (str_replace (fence @ ''json'') [] raw)) else raw)"

text \<open>
  The JSON protocol's reply: \<open>Inl\<close> when an attribute error escapes; \<open>Inr None\<close> for text that is
  not JSON; else the upper-cased verdict.
\<close>

definition json_reply :: "(string \<Rightarrow> json option) \<Rightarrow> json option \<Rightarrow> (py_error, string option) res" where
  "json_reply json_loads body =
     (case body of
        None \<Rightarrow> Inl (ValueError ''json'')
      | Some j \<Rightarrow>
          bind_res (get_default j ''response'' (JStr [])) (\<lambda>r.
          bind_res (as_text r) (\<lambda>raw0.
            case json_loads (unfence (str_strip raw0)) of
              None \<Rightarrow> Inr None
            | Some parsed \<Rightarrow>
                bind_res (get_default parsed ''verdict'' (JStr [])) (\<lambda>v.
                bind_res (as_text v) (\<lambda>vt. Inr (Some (str_upper vt)))))))"

definition semantic_judge ::
  "(string \<Rightarrow> json option) \<Rightarrow> string \<Rightarrow> bool \<Rightarrow> real \<Rightarrow> real \<Rightarrow> http \<Rightarrow> http \<Rightarrow> cb_state \<Rightarrow> string \<times> cb_state" where
  "semantic_judge json_loads model up now t chat generate s =
     (let (open_now, s1) = is_open up now t s in
      if open_now then (''JUDGE_OFFLINE'', s1)
      else if uses_llama_guard_protocol model then
        (case judge_via_llama_guard up now t chat s1 of
           (Some v, s2) \<Rightarrow> (v, s2)
         | (None, s2) \<Rightarrow> (''JUDGE_OFFLINE'', record_failure up now t s2))
      else case generate of
             HttpRaises \<Rightarrow> (''JUDGE_OFFLINE'', record_failure up now t s1)
           | HttpResp status body \<Rightarrow>
               if status \<noteq> 200 then (''DANGEROUS'', record_failure up now t s1)
               else case json_reply json_loads body of
                      Inl e \<Rightarrow> (''JUDGE_OFFLINE'', record_failure up now t s1)
                    | Inr None \<Rightarrow> (''DANGEROUS'', s1)
                    | Inr (Some v) \<Rightarrow>
                        if v \<in> {''SAFE'', ''DANGEROUS'', ''AMBIGUOUS''} then (v, record_success up s1)
                        else (''DANGEROUS'', s1))"

text \<open>The local fallback for outputs: \<open>toxic_bert\<close>'s score, \<open>None\<close> when it cannot be had.\<close>

definition fallback_output_judge :: "bool \<Rightarrow> real \<Rightarrow> real option \<Rightarrow> string" where
  "fallback_output_judge enabled threshold toxic =
     (if \<not> enabled then ''JUDGE_OFFLINE''
      else case toxic of
             None \<Rightarrow> ''JUDGE_OFFLINE''
           | Some score \<Rightarrow> if score \<ge> threshold then ''DANGEROUS'' else ''SAFE'')"

definition output_judge ::
  "(string \<Rightarrow> json option) \<Rightarrow> string \<Rightarrow> bool \<Rightarrow> real \<Rightarrow> real \<Rightarrow> http \<Rightarrow> http \<Rightarrow> string \<Rightarrow> cb_state \<Rightarrow> string \<times> cb_state" where
  "output_judge json_loads model up now t chat generate fallback s =
     (if uses_llama_guard_protocol model then
        (case judge_via_llama_guard up now t chat s of
           (Some v, s2) \<Rightarrow> (v, s2)
         | (None, s2) \<Rightarrow> (fallback, record_failure up now t s2))
      else (case generate of
              HttpRaises \<Rightarrow> fallback
            | HttpResp status body \<Rightarrow>
                if status \<noteq> 200 then ''DANGEROUS''
                else case json_reply json_loads body of
                       Inl e \<Rightarrow> fallback
                     | Inr None \<Rightarrow> ''DANGEROUS''
                     | Inr (Some v) \<Rightarrow> if v \<in> {''SAFE'', ''DANGEROUS''} then v else ''DANGEROUS'', s))"

section \<open>The Stage 4 arbiters\<close>

text \<open>\<open>judge_arbitration\<close> of \<open>core/risk.py\<close>, on the verdict.\<close>

definition judge_decision :: "bool \<Rightarrow> bool \<Rightarrow> string \<Rightarrow> string \<times> string" where
  "judge_decision may_clear threat_present verdict =
     (if verdict = ''DANGEROUS'' then (''HIGH'', ''semantic_judge'')
      else if verdict = ''SAFE'' then
        if threat_present \<or> \<not> may_clear then
          (''MEDIUM'', if threat_present then ''semantic_judge_override_restricted''
                      else ''semantic_judge_override_capped'')
        else (''LOW'', ''semantic_judge_override'')
      else if verdict = ''AMBIGUOUS'' then (''MEDIUM'', ''semantic_judge_ambiguous'')
      else (''HIGH'', ''judge_failure_fail_closed''))"

definition judge_arbitration ::
  "(string \<Rightarrow> json option) \<Rightarrow> string \<Rightarrow> bool \<Rightarrow> bool \<Rightarrow> real \<Rightarrow> real \<Rightarrow> http \<Rightarrow> http \<Rightarrow> bool \<Rightarrow> cb_state
   \<Rightarrow> (string \<times> string) \<times> cb_state" where
  "judge_arbitration json_loads model may_clear up now t chat generate threat_present s =
     (let (v, s') = semantic_judge json_loads model up now t chat generate s
      in (judge_decision may_clear threat_present v, s'))"

text \<open>
  Llama Guard in process: whether it is available and what \<open>classify\<close> gives (\<open>None\<close> when it
  raises, else its verdict).
\<close>

definition llama_guard_arbitration ::
  "bool \<Rightarrow> bool \<Rightarrow> real \<Rightarrow> real \<Rightarrow> bool \<Rightarrow> string option \<Rightarrow> bool \<Rightarrow> cb_state
   \<Rightarrow> (string \<times> string) option \<times> cb_state" where
  "llama_guard_arbitration may_clear up now t available classified threat_present s =
     (let (open_now, s1) = is_open up now t s in
      if open_now then (None, s1)
      else if \<not> available then (None, s1)
      else case classified of
             None \<Rightarrow> (None, record_failure up now t s1)
           | Some verdict \<Rightarrow>
               (if verdict = ''unsafe'' then Some (''HIGH'', ''llama_guard_arbitration'')
                else if threat_present \<or> \<not> may_clear then
                  Some (''MEDIUM'', if threat_present then ''llama_guard_override_restricted''
                                  else ''llama_guard_override_capped'')
                else Some (''LOW'', ''llama_guard_override''),
                record_success up s1))"

section \<open>What an arbiter promises the pipeline\<close>

text \<open>
  The contract of a Stage 4 arbiter: its verdict, if any, is one of the three levels; it never
  clears a prompt in the upper band, and never one at all while it lacks clear-authority.
\<close>

locale arbiter =
  fixes arbitrate :: "bool \<Rightarrow> bool \<Rightarrow> 's \<Rightarrow> (string \<times> string) option \<times> 's"
    and sources :: "string set"
  assumes no_clear_in_upper_band:
      "fst (arbitrate may_clear True s) = Some (risk, source) \<Longrightarrow> risk \<noteq> ''LOW''"
    and no_clear_without_authority:
      "fst (arbitrate False threat s) = Some (risk, source) \<Longrightarrow> risk \<noteq> ''LOW''"
    and level: "fst (arbitrate may_clear threat s) = Some (risk, source) \<Longrightarrow> risk \<in> {''LOW'', ''MEDIUM'', ''HIGH''}"
    and source: "fst (arbitrate may_clear threat s) = Some (risk, source) \<Longrightarrow> source \<in> sources"
begin

lemma clears_only:
  "fst (arbitrate may_clear threat s) = Some (''LOW'', source) \<Longrightarrow> may_clear \<and> \<not> threat"
proof -
  assume a: "fst (arbitrate may_clear threat s) = Some (''LOW'', source)"
  have "threat \<Longrightarrow> False" using no_clear_in_upper_band [of may_clear s "''LOW''" source] a by simp
  moreover have "\<not> may_clear \<Longrightarrow> False" using no_clear_without_authority [of threat s "''LOW''" source] a by simp
  ultimately show "may_clear \<and> \<not> threat" by blast
qed

lemma flagged_stays_flagged:
  "threat \<or> \<not> may_clear \<Longrightarrow> fst (arbitrate may_clear threat s) = Some (risk, source) \<Longrightarrow> risk \<in> {''MEDIUM'', ''HIGH''}"
proof -
  assume f: "threat \<or> \<not> may_clear" and a: "fst (arbitrate may_clear threat s) = Some (risk, source)"
  have "risk \<noteq> ''LOW''" using clears_only [of may_clear threat s source] f a by auto
  then show "risk \<in> {''MEDIUM'', ''HIGH''}" using level [OF a] by blast
qed

end

definition judge_sources :: "string set" where
  "judge_sources = {''semantic_judge'', ''semantic_judge_override_restricted'', ''semantic_judge_override_capped'',
     ''semantic_judge_override'', ''semantic_judge_ambiguous'', ''judge_failure_fail_closed''}"

definition guard_sources :: "string set" where
  "guard_sources = {''llama_guard_arbitration'', ''llama_guard_override_restricted'',
     ''llama_guard_override_capped'', ''llama_guard_override''}"

lemma judge_decision_cases:
  "judge_decision may_clear threat v = (risk, source) \<Longrightarrow>
   risk \<in> {''LOW'', ''MEDIUM'', ''HIGH''} \<and> source \<in> judge_sources
   \<and> (risk = ''LOW'' \<longleftrightarrow> v = ''SAFE'' \<and> may_clear \<and> \<not> threat)"
  by (auto simp: judge_decision_def judge_sources_def split: if_splits)

interpretation ollama: arbiter
  "\<lambda>may_clear threat s. map_prod Some id
     (judge_arbitration json_loads model may_clear up now t chat generate threat s)"
  judge_sources
  for json_loads model up now t chat generate
  by unfold_locales
    (auto simp: judge_arbitration_def Let_def split: prod.splits dest!: judge_decision_cases)

lemma llama_guard_cases:
  "fst (llama_guard_arbitration may_clear up now t available classified threat s) = Some (risk, source) \<Longrightarrow>
   risk \<in> {''LOW'', ''MEDIUM'', ''HIGH''} \<and> source \<in> guard_sources \<and>
   (\<exists>v. classified = Some v \<and> (risk = ''LOW'' \<longleftrightarrow> v \<noteq> ''unsafe'' \<and> may_clear \<and> \<not> threat))"
  by (auto simp: llama_guard_arbitration_def guard_sources_def Let_def split: prod.splits option.splits if_splits)

interpretation llama_guard: arbiter
  "\<lambda>may_clear threat s. llama_guard_arbitration may_clear up now t available classified threat s"
  guard_sources
  for up now t available classified
  by unfold_locales (auto dest!: llama_guard_cases)

section \<open>Properties\<close>

text \<open>
  C20. The judge fails closed: it answers SAFE only when the breaker let the call through, the
  backend answered 200 and its reply itself says safe (the first line of a Llama Guard reply,
  the \<open>verdict\<close> of the JSON protocol).  An open breaker, an exception, another status, text
  that is not JSON or an unknown verdict never does.
\<close>

theorem judge_safe_only_if_backend_says_so:
  assumes "fst (semantic_judge json_loads model up now t chat generate s) = ''SAFE''"
  shows "\<not> fst (is_open up now t s) \<and>
    (if uses_llama_guard_protocol model
     then \<exists>body. chat = HttpResp 200 body \<and> llama_guard_reply body = Inr (Some ''SAFE'')
     else \<exists>body. generate = HttpResp 200 body \<and> json_reply json_loads body = Inr (Some ''SAFE''))"
  using assms
  by (auto simp: semantic_judge_def judge_via_llama_guard_def Let_def
      split: prod.splits http.splits option.splits sum.splits if_splits)

theorem judge_safe_only_if_backend_says_so_witness:
  "\<exists>body. HttpResp 200 (Some (JDict [(''message'', JDict [(''content'', JStr '' Safe '')])])) = HttpResp 200 body
     \<and> llama_guard_reply body = Inr (Some ''SAFE'')"
proof -
  let ?r = "HttpResp 200 (Some (JDict [(''message'', JDict [(''content'', JStr '' Safe '')])]))"
  let ?s = "(new_breaker 3 30 False, \<lparr>sh_opened = None, sh_fails = None\<rparr>)"
  have g: "uses_llama_guard_protocol ''llama-guard3''" by code_simp
  have "llama_guard_reply (Some (JDict [(''message'', JDict [(''content'', JStr '' Safe '')])])) = Inr (Some ''SAFE'')"
    by code_simp
  then have "fst (semantic_judge (\<lambda>_. None) ''llama-guard3'' True 0 0 ?r HttpRaises ?s) = ''SAFE''"
    using g by (simp add: semantic_judge_def judge_via_llama_guard_def is_open_def is_open_local_def new_breaker_def Let_def)
  from judge_safe_only_if_backend_says_so [OF this] g show ?thesis by simp
qed

text \<open>
  A reply of the wrong JSON shape counts as an outage: when the chat model answers 200 with
  valid JSON that is not an object, the judge reports itself offline and records a breaker
  failure, so \<open>threshold\<close> such answers of a working backend open the breaker.
\<close>

theorem wrong_shape_reply_opens_breaker:
  assumes "\<not> uses_llama_guard_protocol model" "\<not> cb_uses_redis b" "cb_opened_at b = None" "cb_fails b = 0"
    and "1 \<le> cb_threshold b" "0 < cb_cooldown b" "\<not> is_dict parsed"
    and "json_loads (unfence (str_strip raw)) = Some parsed"
  shows "let ask = (\<lambda>s. semantic_judge json_loads model up now t chat
                    (HttpResp 200 (Some (JDict [(''response'', JStr raw)]))) s);
             s' = ((\<lambda>s. snd (ask s)) ^^ nat (cb_threshold b)) (b, sh)
         in fst (ask (b, sh)) = ''JUDGE_OFFLINE'' \<and> fst (is_open up now t s')"
proof -
  define ask where "ask = (\<lambda>s. semantic_judge json_loads model up now t chat
                    (HttpResp 200 (Some (JDict [(''response'', JStr raw)]))) s)"
  have reply: "\<exists>e. json_reply json_loads (Some (JDict [(''response'', JStr raw)])) = Inl e"
    using assms(7,8) by (simp add: json_reply_def get_default_def as_text_def)
  have step: "ask (b', sh) = (''JUDGE_OFFLINE'', (record_failure_local now b', sh))"
    if "\<not> cb_uses_redis b'" "cb_opened_at b' = None" for b'
    using that reply assms(1)
    by (auto simp: ask_def semantic_judge_def is_open_def is_open_local_def record_failure_def Let_def)
  have run: "\<exists>b'. ((\<lambda>s. snd (ask s)) ^^ n) (b, sh) = (b', sh) \<and> \<not> cb_uses_redis b' \<and> cb_fails b' = int n
      \<and> cb_threshold b' = cb_threshold b \<and> cb_cooldown b' = cb_cooldown b
      \<and> cb_opened_at b' = (if cb_threshold b \<le> int n then Some now else None)"
    if "int n \<le> cb_threshold b" for n
    using that
  proof (induction n)
    case 0
    then show ?case using assms by auto
  next
    case (Suc n)
    then obtain b' where b': "((\<lambda>s. snd (ask s)) ^^ n) (b, sh) = (b', sh)" "\<not> cb_uses_redis b'" "cb_fails b' = int n"
        "cb_threshold b' = cb_threshold b" "cb_cooldown b' = cb_cooldown b" "cb_opened_at b' = None"
      by auto
    then show ?case
      using step [OF b'(2,6)] Suc.prems by (auto simp: record_failure_local_def Let_def)
  qed
  have "\<exists>b'. ((\<lambda>s. snd (ask s)) ^^ nat (cb_threshold b)) (b, sh) = (b', sh) \<and> \<not> cb_uses_redis b'
      \<and> cb_cooldown b' = cb_cooldown b \<and> cb_opened_at b' = Some now"
    using run [of "nat (cb_threshold b)"] assms(5) by auto
  then have "fst (is_open up now t (((\<lambda>s. snd (ask s)) ^^ nat (cb_threshold b)) (b, sh)))"
    using assms(6) by (auto simp: is_open_def is_open_local_def)
  moreover have "fst (ask (b, sh)) = ''JUDGE_OFFLINE''" using step [OF assms(2,3)] by simp
  ultimately show ?thesis by (simp add: ask_def Let_def)
qed

theorem wrong_shape_reply_opens_breaker_witness:
  "let ask = (\<lambda>s. semantic_judge (\<lambda>_. Some (JStr ''SAFE'')) ''mistral'' True 5 5 HttpRaises
                    (HttpResp 200 (Some (JDict [(''response'', JStr ''SAFE'')]))) s);
       s' = ((\<lambda>s. snd (ask s)) ^^ nat (cb_threshold (new_breaker 3 30 False)))
              (new_breaker 3 30 False, \<lparr>sh_opened = None, sh_fails = None\<rparr>)
   in fst (ask (new_breaker 3 30 False, \<lparr>sh_opened = None, sh_fails = None\<rparr>)) = ''JUDGE_OFFLINE'' \<and> fst (is_open True 5 5 s')"
proof -
  have "\<not> uses_llama_guard_protocol ''mistral''" by code_simp
  then show ?thesis
    by (rule wrong_shape_reply_opens_breaker) (simp_all add: new_breaker_def)
qed

end
