(* ===== verification/Risk.thy ===== *)
theory Risk
  imports Assess_Result Cache Fusion Judge
begin

text \<open>
  The staged risk pipeline, \<open>core/risk.py\<close>: cache, symbolic veto, escalate-only fast path,
  signal collection, deterministic fusion, arbitration, cache write, and the asynchronous
  confirmation.

  What comes from models and libraries is a parameter, gathered in the record \<open>models\<close>:
  hash, embedding, index searches, similarities, regular expressions, the text normaliser,
  detectors and HTTP calls.  The state is the record \<open>pipeline\<close>.
\<close>

section \<open>Parameters and state\<close>

record risk_settings =
  rk_meta_intent_threshold :: real
  rk_high :: real
  rk_medium :: real
  rk_educational :: real
  rk_domain_mode :: string
  rk_may_clear :: bool
  rk_per_class :: bool
  rk_cache_threshold :: real

record symbolic_rules =
  sr_jailbreak :: "string list option"
  sr_override :: "string list option"
  sr_hard_ban :: "string list option"

record 'v models =
  md_sha :: "string \<Rightarrow> string"
  md_embed :: "string \<Rightarrow> 'v"
  md_search :: "'v list \<Rightarrow> 'v \<Rightarrow> int \<times> real"
  md_re_search :: "string \<Rightarrow> string \<Rightarrow> bool"
  md_normalize :: "string \<Rightarrow> string"
  md_meta_similarities :: "'v \<Rightarrow> real list"
  md_threat_similarity :: "'v \<Rightarrow> real"
  md_educational_similarity :: "'v \<Rightarrow> real"
  md_domain :: "string \<Rightarrow> bool \<times> real"
  md_centroid :: "'v \<Rightarrow> real"
  md_artifact :: artifact_file
  md_detect :: "string \<Rightarrow> string \<Rightarrow> det_outcome"
  md_judge_model :: string
  md_json_loads :: "string \<Rightarrow> json option"
  md_chat :: "string \<Rightarrow> http"
  md_generate :: "string \<Rightarrow> http"
  md_guard_available :: bool
  md_guard_classify :: "string \<Rightarrow> string option"
  md_domain_ms :: real
  md_fusion_ms :: real

record 'v pipeline =
  pl_cache :: "'v faiss_cache"
  pl_ollama :: cb_state
  pl_guard :: cb_state
  pl_fusion :: fusion_state
  pl_scheduled :: "(string \<times> 'v \<times> string \<times> string) list"

text \<open>The clocks and the reachability of Redis at the time of the request.\<close>

record clock =
  ck_now :: real
  ck_server :: real
  ck_cache_up :: bool
  ck_redis_up :: bool

section \<open>Stage 1: symbolic veto\<close>

definition check_symbolic_violations :: "(string \<Rightarrow> string \<Rightarrow> bool) \<Rightarrow> symbolic_rules \<Rightarrow> string \<Rightarrow> string option" where
  "check_symbolic_violations re_search rules prompt =
     (case (sr_jailbreak rules, sr_override rules, sr_hard_ban rules) of
        (Some jail, Some over, Some ban) \<Rightarrow>
          (let p = str_lower prompt in
           if list_ex (\<lambda>pat. re_search pat p) jail then Some ''JAILBREAK_DETECTED''
           else if list_ex (\<lambda>pat. re_search pat p) over then Some ''INSTRUCTION_OVERRIDE_DETECTED''
           else if list_ex (\<lambda>k. str_contains k p) ban then Some ''HARD_BAN_DETECTED''
           else None)
      | _ \<Rightarrow> Some ''SYMBOLIC_POLICY_MISSING'')"

definition hard_ban_triggered :: "'v models \<Rightarrow> symbolic_rules \<Rightarrow> string \<Rightarrow> string option" where
  "hard_ban_triggered md rules prompt =
     check_symbolic_violations (md_re_search md) rules (md_normalize md prompt)"

section \<open>Stage 1.5: the escalate-only fast path\<close>

text \<open>\<open>max_score\<close> starts at 0 and takes every greater similarity.\<close>

definition check_meta_intent :: "'v models \<Rightarrow> 'v \<Rightarrow> real" where
  "check_meta_intent md v = foldl (\<lambda>m s. if s > m then s else m) 0 (md_meta_similarities md v)"

definition check_educational_context :: "'v models \<Rightarrow> risk_settings \<Rightarrow> 'v \<Rightarrow> bool" where
  "check_educational_context md st v = (md_educational_similarity md v > rk_educational st)"

record fast_signals =
  fs_meta_intent :: real
  fs_threat :: real

definition fast_path_signals :: "'v models \<Rightarrow> 'v \<Rightarrow> fast_signals" where
  "fast_path_signals md v = \<lparr>fs_meta_intent = check_meta_intent md v, fs_threat = md_threat_similarity md v\<rparr>"

definition fast_path_decision :: "risk_settings \<Rightarrow> fast_signals \<Rightarrow> (string \<times> string) option" where
  "fast_path_decision st fast =
     (if fs_meta_intent fast \<ge> rk_meta_intent_threshold st then Some (''HIGH'', ''fast_path_meta_intent'')
      else if fs_threat fast \<ge> rk_high st then Some (''HIGH'', ''fast_path_anchor_critical'')
      else None)"

section \<open>Stage 2: signals\<close>

record signals =
  sg_meta_intent_score :: real
  sg_threat_score :: real
  sg_is_educational :: bool
  sg_domain_aligned :: "bool option"
  sg_domain_score :: "real option"
  sg_centroid_score :: real
  sg_fusion :: fusion_result
  sg_meta_intent_ms :: real
  sg_faiss_ms :: real
  sg_domain_ms :: real
  sg_fusion_ms :: real

text \<open>The call with \<open>fast\<close> given, as the pipeline makes it; a fusion that raises ends it.\<close>

definition collect_semantic_signals ::
  "'v models \<Rightarrow> risk_settings \<Rightarrow> string \<Rightarrow> 'v \<Rightarrow> fast_signals \<Rightarrow> fusion_state \<Rightarrow> (py_error, signals) res \<times> fusion_state" where
  "collect_semantic_signals md st text v fast fu =
     (let off = (rk_domain_mode st = ''off'');
          (fusion, fu') = fused_threat_score (md_artifact md) (\<lambda>n. md_detect md n text) (rk_per_class st) (fs_threat fast) fu
      in (case fusion of
            Inl e \<Rightarrow> Inl e
          | Inr f \<Rightarrow> Inr
              \<lparr>sg_meta_intent_score = fs_meta_intent fast, sg_threat_score = fs_threat fast,
               sg_is_educational = check_educational_context md st v,
               sg_domain_aligned = (if off then None else Some (fst (md_domain md text))),
               sg_domain_score = (if off then None else Some (snd (md_domain md text))),
               sg_centroid_score = md_centroid md v, sg_fusion = f, sg_meta_intent_ms = 0, sg_faiss_ms = 0,
               sg_domain_ms = (if off then 0 else md_domain_ms md), sg_fusion_ms = md_fusion_ms md\<rparr>,
          fu'))"

section \<open>Stage 3: deterministic fusion\<close>

definition classify_topicality :: "signals \<Rightarrow> string" where
  "classify_topicality sg =
     (case sg_domain_aligned sg of None \<Rightarrow> ''UNKNOWN'' | Some b \<Rightarrow> if b then ''IN_DOMAIN'' else ''OUT_OF_DOMAIN'')"

definition in_upper_ambiguous_band :: "real \<Rightarrow> real \<Rightarrow> real \<Rightarrow> bool" where
  "in_upper_ambiguous_band score threshold_medium threshold_high =
     (let band = threshold_high - threshold_medium in
      if band \<le> 0 then True else score \<ge> threshold_medium + band / 2)"

definition fuse_signals :: "risk_settings \<Rightarrow> signals \<Rightarrow> string \<times> string \<times> bool \<times> string" where
  "fuse_signals st sg =
     (let topicality = classify_topicality sg; f = sg_fusion sg in
      if sg_meta_intent_score sg \<ge> rk_meta_intent_threshold st then (''HIGH'', ''semantic_meta_intent'', False, topicality)
      else if rk_domain_mode st = ''enforcing'' \<and> topicality = ''OUT_OF_DOMAIN''
        then (''MEDIUM'', ''domain_guardrail'', False, topicality)
      else if fr_available f then
        (if the (fr_score f) \<ge> the (fr_high f) then (''HIGH'', ''fusion_threat_critical'', False, topicality)
         else if the (fr_score f) \<ge> the (fr_medium f) then
           (if sg_is_educational sg then (''MEDIUM'', ''fusion_educational_safe_harbor'', False, topicality)
            else (''MEDIUM'', ''fusion_judge_pending'', True, topicality))
         else (''LOW'', ''fusion_clean_pass'', False, topicality))
      else if sg_threat_score sg \<ge> rk_high st then (''HIGH'', ''vector_threat_critical'', False, topicality)
      else if sg_threat_score sg \<ge> rk_medium st then
        (if sg_is_educational sg then (''MEDIUM'', ''educational_safe_harbor'', False, topicality)
         else (''MEDIUM'', ''judge_pending'', True, topicality))
      else (''LOW'', ''clean_pass'', False, topicality))"

section \<open>Stage 4: arbitration\<close>

definition threat_present :: "risk_settings \<Rightarrow> signals \<Rightarrow> bool" where
  "threat_present st sg =
     (let f = sg_fusion sg in
      if fr_available f then in_upper_ambiguous_band (the (fr_score f)) (the (fr_medium f)) (the (fr_high f))
      else in_upper_ambiguous_band (sg_threat_score sg) (rk_medium st) (rk_high st))"

definition ask_judge :: "'v models \<Rightarrow> risk_settings \<Rightarrow> clock \<Rightarrow> string \<Rightarrow> bool \<Rightarrow> cb_state \<Rightarrow> (string \<times> string) \<times> cb_state" where
  "ask_judge md st ck prompt threat s =
     judge_arbitration (md_json_loads md) (md_judge_model md) (rk_may_clear st) (ck_redis_up ck) (ck_now ck)
       (ck_server ck) (md_chat md prompt) (md_generate md prompt) threat s"

definition ask_guard :: "'v models \<Rightarrow> risk_settings \<Rightarrow> clock \<Rightarrow> string \<Rightarrow> bool \<Rightarrow> cb_state \<Rightarrow> (string \<times> string) option \<times> cb_state" where
  "ask_guard md st ck prompt threat s =
     llama_guard_arbitration (rk_may_clear st) (ck_redis_up ck) (ck_now ck) (ck_server ck) (md_guard_available md)
       (md_guard_classify md prompt) threat s"

definition save_cache_entry :: "'v models \<Rightarrow> clock \<Rightarrow> string \<Rightarrow> 'v \<Rightarrow> string \<Rightarrow> real \<Rightarrow> string \<Rightarrow> 'v pipeline \<Rightarrow> 'v pipeline" where
  "save_cache_entry md ck prompt v risk score source p =
     p\<lparr>pl_cache := fc_add (md_sha md) (ck_cache_up ck) (ck_now ck) prompt v risk score source (pl_cache p)\<rparr>"

text \<open>
  With a scheduler the fast judge answers and the confirmation is queued; without one Llama
  Guard is asked first and the judge only when it is not to be had.
\<close>

definition arbitrate ::
  "'v models \<Rightarrow> risk_settings \<Rightarrow> clock \<Rightarrow> bool \<Rightarrow> string \<Rightarrow> 'v \<Rightarrow> bool \<Rightarrow> 'v pipeline \<Rightarrow> (string \<times> string) \<times> 'v pipeline" where
  "arbitrate md st ck scheduler prompt v threat p =
     (if scheduler then
        let ((risk, source), o') = ask_judge md st ck prompt threat (pl_ollama p)
        in ((risk, source), p\<lparr>pl_ollama := o', pl_scheduled := pl_scheduled p @ [(prompt, v, risk, source)]\<rparr>)
      else let (g, g') = ask_guard md st ck prompt threat (pl_guard p); p1 = p\<lparr>pl_guard := g'\<rparr> in
        case g of
          Some rs \<Rightarrow> (rs, p1)
        | None \<Rightarrow> (let (rs, o') = ask_judge md st ck prompt threat (pl_ollama p1) in (rs, p1\<lparr>pl_ollama := o'\<rparr>)))"

text \<open>The asynchronous confirmation: a one-way ratchet on the cache.\<close>

definition llama_guard_async_confirmation ::
  "'v models \<Rightarrow> risk_settings \<Rightarrow> clock \<Rightarrow> string \<Rightarrow> 'v \<Rightarrow> string \<Rightarrow> 'v pipeline \<Rightarrow> 'v pipeline" where
  "llama_guard_async_confirmation md st ck prompt v fast_risk p =
     (let (g, g') = ask_guard md st ck prompt (fast_risk \<in> {''MEDIUM'', ''HIGH''}) (pl_guard p); p1 = p\<lparr>pl_guard := g'\<rparr> in
      case g of
        None \<Rightarrow> p1
      | Some (risk, source) \<Rightarrow>
          if risk = ''HIGH'' \<and> fast_risk \<noteq> ''HIGH''
          then save_cache_entry md ck prompt v ''HIGH'' 1 ''llama_guard_async_escalation'' p1
          else p1)"

section \<open>The pipeline\<close>

definition deep_path_result :: "string \<Rightarrow> string \<Rightarrow> real \<Rightarrow> string \<Rightarrow> bool \<Rightarrow> signals \<Rightarrow> assess_result" where
  "deep_path_result risk source reported_score topicality judge_invoked sg =
     (base_result risk source ''deep_path'')
       \<lparr>ar_semantic_score := Some reported_score, ar_educational_context := sg_is_educational sg,
        ar_domain_score := sg_domain_score sg, ar_topicality := topicality, ar_judge_invoked := judge_invoked,
        ar_centroid_score := Some (sg_centroid_score sg), ar_fusion_available := Some (fr_available (sg_fusion sg)),
        ar_fusion_detail := Some (fr_detail (sg_fusion sg)),
        ar_fusion_detector_scores := Some (fr_detector_scores (sg_fusion sg)),
        ar_fusion_triggering_class := fr_triggering_class (sg_fusion sg),
        ar_fusion_class_scores := fr_class_scores (sg_fusion sg),
        ar_anchor_threat_score := Some (sg_threat_score sg),
        ar_meta_intent_score := Some (sg_meta_intent_score sg),
        ar_meta_intent_ms := Some (sg_meta_intent_ms sg), ar_faiss_threat_search_ms := Some (sg_faiss_ms sg),
        ar_domain_alignment_ms := Some (sg_domain_ms sg), ar_fusion_ms := Some (sg_fusion_ms sg)\<rparr>"

definition reported_score :: "signals \<Rightarrow> real" where
  "reported_score sg = (if fr_available (sg_fusion sg) then the (fr_score (sg_fusion sg)) else sg_threat_score sg)"

text \<open>Stages 2 to 5.\<close>

definition deep_path ::
  "'v models \<Rightarrow> risk_settings \<Rightarrow> clock \<Rightarrow> bool \<Rightarrow> string \<Rightarrow> string \<Rightarrow> 'v \<Rightarrow> fast_signals \<Rightarrow> 'v pipeline
   \<Rightarrow> (py_error, assess_result) res \<times> 'v pipeline" where
  "deep_path md st ck scheduler prompt text v fast p =
     (let (sg, fu') = collect_semantic_signals md st text v fast (pl_fusion p); p1 = p\<lparr>pl_fusion := fu'\<rparr> in
      case sg of
        Inl e \<Rightarrow> (Inl e, p1)
      | Inr sg \<Rightarrow>
          (let (risk0, source0, judge_required, topicality) = fuse_signals st sg;
               ((risk, source), p2) =
                 (if judge_required then arbitrate md st ck scheduler prompt v (threat_present st sg) p1
                  else ((risk0, source0), p1));
               p3 = save_cache_entry md ck prompt v risk (reported_score sg) source p2
           in (Inr (deep_path_result risk source (reported_score sg) topicality judge_required sg), p3)))"

text \<open>The stages after a cache miss.\<close>

definition assess_uncached ::
  "'v models \<Rightarrow> risk_settings \<Rightarrow> symbolic_rules \<Rightarrow> clock \<Rightarrow> bool \<Rightarrow> string \<Rightarrow> string \<Rightarrow> 'v \<Rightarrow> 'v pipeline
   \<Rightarrow> (py_error, assess_result) res \<times> 'v pipeline" where
  "assess_uncached md st rules ck scheduler prompt text v p =
     (case hard_ban_triggered md rules text of
        Some detail \<Rightarrow>
          (Inr (symbolic_result detail), save_cache_entry md ck prompt v ''HIGH'' 1 ''symbolic_rule'' p)
      | None \<Rightarrow>
          (let fast = fast_path_signals md v in
           case fast_path_decision st fast of
             Some (risk, source) \<Rightarrow>
               (Inr (fast_path_result risk source (fs_meta_intent fast)),
                save_cache_entry md ck prompt v risk 1 source p)
           | None \<Rightarrow> deep_path md st ck scheduler prompt text v fast p))"

definition assess_risk ::
  "'v models \<Rightarrow> risk_settings \<Rightarrow> symbolic_rules \<Rightarrow> clock \<Rightarrow> bool \<Rightarrow> string \<Rightarrow> string option \<Rightarrow> 'v pipeline
   \<Rightarrow> (py_error, assess_result) res \<times> 'v pipeline" where
  "assess_risk md st rules ck scheduler prompt raw_prompt p =
     (let text = (case raw_prompt of None \<Rightarrow> prompt | Some r \<Rightarrow> r);
          v = md_embed md prompt;
          (cached, c') = fc_lookup (md_sha md) (md_search md) (rk_cache_threshold st) (ck_cache_up ck) (ck_now ck)
                           prompt v (pl_cache p);
          p1 = p\<lparr>pl_cache := c'\<rparr>
      in case cached of
           Some (risk, score) \<Rightarrow>
             if risk = [] then assess_uncached md st rules ck scheduler prompt text v p1
             else if risk = ''HIGH'' then (Inr (cache_hit ''HIGH'' score True), p1)
             else (Inr (cache_hit risk score False), p1)
         | None \<Rightarrow> assess_uncached md st rules ck scheduler prompt text v p1)"

section \<open>The arbiters the pipeline uses\<close>

definition risk_levels :: "string set" where
  "risk_levels = {''LOW'', ''MEDIUM'', ''HIGH''}"

lemma ask_judge_cases:
  assumes "ask_judge md st ck prompt threat s = ((risk, source), s')"
  shows "risk \<in> risk_levels \<and> source \<in> judge_sources \<and> (risk = ''LOW'' \<longrightarrow> rk_may_clear st \<and> \<not> threat)"
proof -
  have a: "fst (map_prod Some id (judge_arbitration (md_json_loads md) (md_judge_model md) (rk_may_clear st)
      (ck_redis_up ck) (ck_now ck) (ck_server ck) (md_chat md prompt) (md_generate md prompt) threat s))
      = Some (risk, source)"
    using assms by (simp add: ask_judge_def)
  show ?thesis
    using ollama.level [OF a] ollama.source [OF a] ollama.flagged_stays_flagged [OF _ a]
    by (auto simp: risk_levels_def)
qed

lemma ask_guard_cases:
  assumes "fst (ask_guard md st ck prompt threat s) = Some (risk, source)"
  shows "risk \<in> risk_levels \<and> source \<in> guard_sources \<and> (risk = ''LOW'' \<longrightarrow> rk_may_clear st \<and> \<not> threat)"
proof -
  note a = assms [unfolded ask_guard_def]
  show ?thesis
    using llama_guard.level [OF a] llama_guard.source [OF a] llama_guard.flagged_stays_flagged [OF _ a]
    by (auto simp: risk_levels_def)
qed

lemma arbitrate_cases:
  assumes "arbitrate md st ck scheduler prompt v threat p = ((risk, source), p')"
  shows "risk \<in> risk_levels \<and> source \<in> judge_sources \<union> guard_sources
    \<and> (risk = ''LOW'' \<longrightarrow> rk_may_clear st \<and> \<not> threat) \<and> pl_cache p' = pl_cache p"
proof (cases scheduler)
  case True
  then show ?thesis
    using assms ask_judge_cases [of md st ck prompt threat "pl_ollama p"]
    by (auto simp: arbitrate_def Let_def split: prod.splits)
next
  case False
  show ?thesis
  proof (cases "fst (ask_guard md st ck prompt threat (pl_guard p))")
    case None
    then show ?thesis
      using False assms ask_judge_cases [of md st ck prompt threat "pl_ollama p"]
      by (auto simp: arbitrate_def Let_def split: prod.splits)
  next
    case (Some rs)
    then show ?thesis
      using False assms ask_guard_cases [of md st ck prompt threat "pl_guard p"]
      by (auto simp: arbitrate_def Let_def split: prod.splits)
  qed
qed

lemma fuse_cases:
  assumes "fuse_signals st sg = (risk, source, jr, tpc)"
  shows "risk \<in> risk_levels \<and> source \<in> set known_sources \<and> (jr \<longrightarrow> risk = ''MEDIUM'')"
  using assms
  by (auto simp: fuse_signals_def risk_levels_def known_sources_def Let_def split: if_splits)

lemma arbiter_sources_known: "judge_sources \<union> guard_sources \<subseteq> set known_sources"
  by (simp add: judge_sources_def guard_sources_def known_sources_def)

section \<open>The deep path, decided\<close>

text \<open>The score of Stage 3 and its two thresholds.\<close>

definition bands :: "risk_settings \<Rightarrow> signals \<Rightarrow> real \<times> real \<times> real" where
  "bands st sg =
     (let f = sg_fusion sg in
      if fr_available f then (the (fr_score f), the (fr_medium f), the (fr_high f))
      else (sg_threat_score sg, rk_medium st, rk_high st))"

lemma threat_present_bands:
  "bands st sg = (sc, med, hi) \<Longrightarrow> threat_present st sg = in_upper_ambiguous_band sc med hi"
  by (auto simp: bands_def threat_present_def Let_def split: if_splits)

lemma fuse_low:
  assumes "fuse_signals st sg = (''LOW'', source, jr, tpc)" "bands st sg = (sc, med, hi)"
  shows "\<not> jr \<and> sc < med \<and> sc < hi \<and> sg_meta_intent_score sg < rk_meta_intent_threshold st
    \<and> \<not> (rk_domain_mode st = ''enforcing'' \<and> tpc = ''OUT_OF_DOMAIN'')"
  using assms by (auto simp: fuse_signals_def bands_def Let_def split: if_splits)

lemma fuse_judged:
  assumes "fuse_signals st sg = (risk, source, True, tpc)" "bands st sg = (sc, med, hi)"
  shows "med \<le> sc \<and> sc < hi \<and> \<not> sg_is_educational sg \<and> sg_meta_intent_score sg < rk_meta_intent_threshold st
    \<and> \<not> (rk_domain_mode st = ''enforcing'' \<and> tpc = ''OUT_OF_DOMAIN'')"
  using assms by (auto simp: fuse_signals_def bands_def Let_def split: if_splits)

lemma deep_path_cases:
  assumes "deep_path md st ck scheduler prompt text v fast p = (Inr r, p')"
  shows "\<exists>sg fu risk0 source0 jr tpc risk source p1 p2.
     collect_semantic_signals md st text v fast (pl_fusion p) = (Inr sg, fu) \<and>
     fuse_signals st sg = (risk0, source0, jr, tpc) \<and> p1 = p\<lparr>pl_fusion := fu\<rparr> \<and>
     (if jr then arbitrate md st ck scheduler prompt v (threat_present st sg) p1 = ((risk, source), p2)
      else (risk, source, p2) = (risk0, source0, p1)) \<and>
     r = deep_path_result risk source (reported_score sg) tpc jr sg \<and>
     p' = save_cache_entry md ck prompt v risk (reported_score sg) source p2"
  using assms
  by (auto simp: deep_path_def Let_def split: prod.splits sum.splits if_splits)

lemma deep_result_fields [simp]:
  "ar_risk_level (deep_path_result risk source sc tpc jr sg) = risk"
  "ar_source (deep_path_result risk source sc tpc jr sg) = source"
  "ar_semantic_score (deep_path_result risk source sc tpc jr sg) = Some sc"
  by (simp_all add: deep_path_result_def base_result_def)

lemma deep_path_sound:
  assumes "deep_path md st ck scheduler prompt text v fast p = (Inr r, p')"
  shows "ar_risk_level r \<in> risk_levels \<and> ar_source r \<in> set known_sources"
proof -
  from deep_path_cases [OF assms] obtain sg fu risk0 source0 jr tpc risk source p1 p2 where d:
    "fuse_signals st sg = (risk0, source0, jr, tpc)"
    "if jr then arbitrate md st ck scheduler prompt v (threat_present st sg) p1 = ((risk, source), p2)
      else (risk, source, p2) = (risk0, source0, p1)"
    "r = deep_path_result risk source (reported_score sg) tpc jr sg" by blast
  show ?thesis
    using d fuse_cases [OF d(1)] arbitrate_cases [of md st ck scheduler prompt v "threat_present st sg" p1 risk source p2]
      arbiter_sources_known by (auto split: if_splits)
qed

section \<open>The cache's view of a fresh verdict\<close>

definition backend_ok :: "'v exact_backend \<Rightarrow> bool" where
  "backend_ok b = (case b of LocalExact s \<Rightarrow> lx_ok s | RedisExact s \<Rightarrow> True)"

lemma exact_set_then_get:
  assumes "backend_ok b" "now' < now + ttl"
  shows "\<exists>e' b'. exact_get True now' k (exact_set True now k e ttl b) = (Some e', b') \<and> verdict_of e' = verdict_of e"
proof (cases b)
  case (LocalExact s)
  have ok: "lx_ok s" using assms(1) LocalExact by (simp add: backend_ok_def)
  obtain e' where "fst (lx_get now' k (lx_set now k e ttl s)) = Some e'" "verdict_of e' = verdict_of e"
    using lx_cache.get_complete [OF lx_cache.set_ok [OF ok] lx_cache.set_view [OF ok] assms(2)] by blast
  then show ?thesis using LocalExact by (auto simp: exact_get_def exact_set_def split: prod.split)
next
  case (RedisExact s)
  obtain e' where "fst (rx_get now' k (rx_set now k e ttl s)) = Some e'" "verdict_of e' = verdict_of e"
    using rx_cache.get_complete [OF TrueI rx_cache.set_view [OF TrueI] assms(2)] by blast
  then show ?thesis using RedisExact by (auto simp: exact_get_def exact_set_def split: prod.split)
qed

lemma add_then_lookup:
  assumes "backend_ok (fc_exact c)" "now' < now + cache_ttl_seconds"
  shows "fst (fc_lookup sha search threshold True now' prompt q
      (fc_add sha True now prompt v risk score source c)) = Some (risk, score)"
proof -
  obtain e b' where e: "exact_get True now' (sha prompt)
      (fc_exact (fc_add sha True now prompt v risk score source c)) = (Some e, b')" "verdict_of e = (risk, score)"
    using exact_set_then_get [OF assms, of "sha prompt"]
    by (fastforce simp: fc_add_def rebuild_faiss_def verdict_of_def Let_def)
  then show ?thesis by (simp add: fc_lookup_def Let_def verdict_of_def)
qed

lemma add_backend_ok: "backend_ok (fc_exact c) \<Longrightarrow> backend_ok (fc_exact (fc_add sha up now prompt v risk score source c))"
  by (auto simp: fc_add_def rebuild_faiss_def exact_set_def backend_ok_def Let_def lx_cache.set_ok
      split: exact_backend.splits)

lemma fuzzy_exact [simp]: "fc_exact (snd (fuzzy_lookup search threshold now q c)) = fc_exact c"
  by (auto simp: fuzzy_lookup_def get_index_def rebuild_faiss_def Let_def split: prod.split option.split)

lemma exact_get_ok: "backend_ok b \<Longrightarrow> backend_ok (snd (exact_get up now k b))"
proof (cases b)
  case (LocalExact s)
  then show "backend_ok b \<Longrightarrow> backend_ok (snd (exact_get up now k b))"
    using lx_cache.get_ok [of s now k] by (cases "lx_get now k s") (auto simp: exact_get_def backend_ok_def)
qed (auto simp: exact_get_def backend_ok_def split: prod.splits)

lemma lookup_exact:
  "fc_exact (snd (fc_lookup sha search threshold up now prompt q c)) = snd (exact_get up now (sha prompt) (fc_exact c))"
  by (auto simp: fc_lookup_def Let_def split: prod.splits option.splits)

lemma lookup_backend_ok:
  "backend_ok (fc_exact c) \<Longrightarrow> backend_ok (fc_exact (snd (fc_lookup sha search threshold up now prompt q c)))"
  by (simp add: lookup_exact exact_get_ok)

section \<open>Fresh verdicts\<close>

text \<open>A result that did not come from the cache.\<close>

definition is_fresh :: "assess_result \<Rightarrow> bool" where
  "is_fresh r = (ar_source r \<notin> {''cache'', ''cache_locked_high''})"

lemma cache_hit_fields [simp]:
  "ar_risk_level (cache_hit risk sc locked) = risk"
  "ar_source (cache_hit risk sc locked) = (if locked then ''cache_locked_high'' else ''cache'')"
  by (simp_all add: cache_hit_def base_result_def Let_def)

lemma symbolic_fields [simp]:
  "ar_risk_level (symbolic_result d) = ''HIGH''" "ar_source (symbolic_result d) = ''symbolic_rule''"
  "ar_semantic_score (symbolic_result d) = Some 1"
  by (simp_all add: symbolic_result_def base_result_def)

lemma fast_fields [simp]:
  "ar_risk_level (fast_path_result risk source m) = risk" "ar_source (fast_path_result risk source m) = source"
  "ar_semantic_score (fast_path_result risk source m) = Some 1"
  by (simp_all add: fast_path_result_def base_result_def)

lemma fast_path_cases:
  "fast_path_decision st fast = Some (risk, source) \<Longrightarrow> risk = ''HIGH'' \<and> source \<in> set known_sources"
  by (auto simp: fast_path_decision_def known_sources_def split: if_splits)

text \<open>What a cache miss leads to: a verdict of the vocabulary, written to the cache.\<close>

lemma uncached_cases:
  assumes "assess_uncached md st rules ck scheduler prompt text v p = (Inr r, p')"
  shows "ar_risk_level r \<in> risk_levels \<and> ar_source r \<in> set known_sources \<and>
    (\<exists>score. ar_semantic_score r = Some score \<and>
       pl_cache p' = fc_add (md_sha md) (ck_cache_up ck) (ck_now ck) prompt v (ar_risk_level r) score (ar_source r) (pl_cache p))"
proof (cases "hard_ban_triggered md rules text")
  case (Some d)
  then show ?thesis
    using assms by (auto simp: assess_uncached_def save_cache_entry_def risk_levels_def known_sources_def)
next
  case None
  show ?thesis
  proof (cases "fast_path_decision st (fast_path_signals md v)")
    case (Some rs)
    then obtain risk source where rs: "fast_path_decision st (fast_path_signals md v) = Some (risk, source)"
      by (cases rs) auto
    then show ?thesis
      using None assms fast_path_cases [OF rs]
      by (auto simp: assess_uncached_def save_cache_entry_def risk_levels_def Let_def)
  next
    case no: None
    have d: "deep_path md st ck scheduler prompt text v (fast_path_signals md v) p = (Inr r, p')"
      using None no assms by (simp add: assess_uncached_def Let_def)
    from deep_path_cases [OF d] obtain sg fu risk0 source0 jr tpc risk source p1 p2 where c:
      "p1 = p\<lparr>pl_fusion := fu\<rparr>"
      "if jr then arbitrate md st ck scheduler prompt v (threat_present st sg) p1 = ((risk, source), p2)
        else (risk, source, p2) = (risk0, source0, p1)"
      "r = deep_path_result risk source (reported_score sg) tpc jr sg"
      "p' = save_cache_entry md ck prompt v risk (reported_score sg) source p2" by blast
    have "pl_cache p2 = pl_cache p"
      using c(1,2) arbitrate_cases [of md st ck scheduler prompt v "threat_present st sg" p1 risk source p2]
      by (auto split: if_splits)
    then show ?thesis using deep_path_sound [OF d] c(3,4) by (simp add: save_cache_entry_def)
  qed
qed

text \<open>The two ways through the pipeline.\<close>

definition stage0 :: "'v models \<Rightarrow> risk_settings \<Rightarrow> clock \<Rightarrow> string \<Rightarrow> 'v pipeline \<Rightarrow> (string \<times> real) option \<times> 'v faiss_cache" where
  "stage0 md st ck prompt p =
     fc_lookup (md_sha md) (md_search md) (rk_cache_threshold st) (ck_cache_up ck) (ck_now ck) prompt
       (md_embed md prompt) (pl_cache p)"

definition detector_text :: "string \<Rightarrow> string option \<Rightarrow> string" where
  "detector_text prompt raw = (case raw of None \<Rightarrow> prompt | Some t \<Rightarrow> t)"

lemma assess_split:
  "assess_risk md st rules ck scheduler prompt raw p =
     (let (cached, c') = stage0 md st ck prompt p; p1 = p\<lparr>pl_cache := c'\<rparr> in
      case cached of
        Some (risk, sc) \<Rightarrow>
          if risk = [] then assess_uncached md st rules ck scheduler prompt (detector_text prompt raw) (md_embed md prompt) p1
          else (Inr (cache_hit risk sc (risk = ''HIGH'')), p1)
      | None \<Rightarrow> assess_uncached md st rules ck scheduler prompt (detector_text prompt raw) (md_embed md prompt) p1)"
  unfolding assess_risk_def Let_def stage0_def detector_text_def
  by (intro prod.case_cong option.case_cong refl) (simp split: prod.split)

lemma assess_cases:
  assumes "assess_risk md st rules ck scheduler prompt raw p = (r, p')" and "stage0 md st ck prompt p = (cached, c)"
  shows "(\<exists>risk sc. cached = Some (risk, sc) \<and> risk \<noteq> [] \<and> r = Inr (cache_hit risk sc (risk = ''HIGH''))
            \<and> p' = p\<lparr>pl_cache := c\<rparr>)
    \<or> (cached = None \<or> (\<exists>sc. cached = Some ([], sc)))
       \<and> assess_uncached md st rules ck scheduler prompt (detector_text prompt raw) (md_embed md prompt) (p\<lparr>pl_cache := c\<rparr>) = (r, p')"
  using assms unfolding assess_split
  by (cases cached) (auto simp: Let_def split: if_splits prod.splits)


text \<open>A fresh result is the result of the stages after the cache.\<close>

lemma fresh_is_uncached:
  assumes "assess_risk md st rules ck scheduler prompt raw p = (Inr r, p')" and "is_fresh r"
  shows "assess_uncached md st rules ck scheduler prompt (detector_text prompt raw) (md_embed md prompt)
     (p\<lparr>pl_cache := snd (stage0 md st ck prompt p)\<rparr>) = (Inr r, p')"
  using assess_cases [OF assms(1) surjective_pairing] assms(2) by (auto simp: is_fresh_def split: if_splits)

lemma stage0_backend_ok:
  "backend_ok (fc_exact (pl_cache p)) \<Longrightarrow> backend_ok (fc_exact (snd (stage0 md st ck prompt p)))"
  by (simp add: stage0_def lookup_backend_ok)

lemma served_again:
  assumes "assess_risk md st rules ck scheduler prompt raw p = (Inr r, p')" "is_fresh r"
    and "backend_ok (fc_exact (pl_cache p))" "ck_cache_up ck" "ck_cache_up ck'"
    and "ck_now ck' < ck_now ck + cache_ttl_seconds"
  shows "\<exists>sc. fst (stage0 md st' ck' prompt p') = Some (ar_risk_level r, sc) \<and> ar_semantic_score r = Some sc"
proof -
  note u = fresh_is_uncached [OF assms(1,2)]
  obtain sc where sc: "ar_semantic_score r = Some sc"
      "pl_cache p' = fc_add (md_sha md) True (ck_now ck) prompt (md_embed md prompt) (ar_risk_level r) sc (ar_source r)
         (snd (stage0 md st ck prompt p))"
    using uncached_cases [OF u] assms(4) by auto
  show ?thesis
    using add_then_lookup [OF stage0_backend_ok [OF assms(3)] assms(6)] sc assms(5) by (simp add: stage0_def)
qed

section \<open>A held HIGH verdict\<close>

text \<open>
  \<open>held h t\<^sub>1 H b\<close>: the backend holds HIGH under the hash \<open>h\<close> until \<open>t\<^sub>1\<close> at least, and in the local store
  every entry that is younger is of one of the hashes \<open>H\<close>, which are too few to evict it.
\<close>

definition room :: "nat \<Rightarrow> 'v exact_backend \<Rightarrow> bool" where
  "room n b = (case b of LocalExact s \<Rightarrow> n < lx_max_size s | RedisExact s \<Rightarrow> True)"

definition held_local :: "string \<Rightarrow> real \<Rightarrow> string set \<Rightarrow> 'v local_exact \<Rightarrow> bool" where
  "held_local h t\<^sub>1 H s \<longleftrightarrow> lx_ok s \<and> card H < lx_max_size s \<and>
     (\<exists>xs e ys. lx_data s = xs @ (h, e) # ys \<and> verdict_of e = (''HIGH'', 1) \<and> t\<^sub>1 \<le> ce_epoch e + ce_ttl e \<and> od_keys ys \<subseteq> H)"

definition held :: "string \<Rightarrow> real \<Rightarrow> string set \<Rightarrow> 'v exact_backend \<Rightarrow> bool" where
  "held h t\<^sub>1 H b = (case b of
     LocalExact s \<Rightarrow> held_local h t\<^sub>1 H s
   | RedisExact s \<Rightarrow> \<exists>e x. od_get s h = Some (Some e, x) \<and> verdict_of e = (''HIGH'', 1) \<and> t\<^sub>1 \<le> x)"

lemma od_del_split:
  "k \<noteq> h \<Longrightarrow> od_del k (xs @ (h, e) # ys) = od_del k xs @ (h, e) # od_del k ys"
  by (simp add: od_del_def AList.delete_eq)

lemma od_del_keys: "od_keys (od_del k d) \<subseteq> od_keys d"
  by auto

lemma od_get_split: "od_wf (xs @ (h, e) # ys) \<Longrightarrow> od_get (xs @ (h, e) # ys) h = Some e"
  by (simp add: od_get_mem)

lemma held_local_get:
  assumes "held_local h t\<^sub>1 H s" "now < t\<^sub>1" "h \<notin> H" "k \<in> insert h H"
  shows "held_local h t\<^sub>1 H (snd (lx_get now k s))"
    and "k = h \<Longrightarrow> \<exists>e. fst (lx_get now k s) = Some e \<and> verdict_of e = (''HIGH'', 1)"
proof -
  from assms(1) obtain xs e ys where d: "lx_data s = xs @ (h, e) # ys" "verdict_of e = (''HIGH'', 1)" "t\<^sub>1 \<le> ce_epoch e + ce_ttl e"
    "od_keys ys \<subseteq> H" and ok: "lx_ok s" "card H < lx_max_size s" by (auto simp: held_local_def)
  have ok': "lx_ok (snd (lx_get now k s))" by (rule lx_cache.get_ok [OF ok(1)])
  have m: "lx_max_size (snd (lx_get now k s)) = lx_max_size s" by (simp add: lx_get_def split: option.split)
  have get_h: "od_get (lx_data s) h = Some e" using ok(1) d(1) by (simp add: lx_ok_def od_get_split)
  have fresh: "\<not> ce_ttl e \<le> now - ce_epoch e" using d(3) assms(2) by simp
  show "\<exists>e. fst (lx_get now k s) = Some e \<and> verdict_of e = (''HIGH'', 1)" if "k = h"
    using get_h fresh d(2) that by (simp add: lx_get_def)
  have "\<exists>xs e ys. lx_data (snd (lx_get now k s)) = xs @ (h, e) # ys \<and> verdict_of e = (''HIGH'', 1)
      \<and> t\<^sub>1 \<le> ce_epoch e + ce_ttl e \<and> od_keys ys \<subseteq> H"
  proof (cases "k = h")
    case True
    then have "lx_data (snd (lx_get now k s)) = od_del h (lx_data s) @ (h, e) # []"
      using get_h fresh by (simp add: lx_get_def od_move_to_end_def)
    then show ?thesis using d(2,3) by fastforce
  next
    case False
    have del: "od_del k (lx_data s) = od_del k xs @ (h, e) # od_del k ys" using False by (simp add: d(1) od_del_split)
    have sub: "od_keys (od_del k ys) \<subseteq> H" by (rule order_trans [OF od_del_keys d(4)])
    consider "od_get (lx_data s) k = None" | e' where "od_get (lx_data s) k = Some e'" "ce_ttl e' \<le> now - ce_epoch e'"
      | e' where "od_get (lx_data s) k = Some e'" "\<not> ce_ttl e' \<le> now - ce_epoch e'" by fastforce
    then show ?thesis
    proof cases
      case 1
      then have "lx_data (snd (lx_get now k s)) = xs @ (h, e) # ys" by (simp add: lx_get_def d(1))
      then show ?thesis using d(2-4) by blast
    next
      case 2
      then have "lx_data (snd (lx_get now k s)) = od_del k xs @ (h, e) # od_del k ys" using del by (simp add: lx_get_def)
      then show ?thesis using d(2,3) sub by blast
    next
      case 3
      then have "lx_data (snd (lx_get now k s)) = od_del k xs @ (h, e) # (od_del k ys @ [(k, e')])"
        using del by (simp add: lx_get_def od_move_to_end_def)
      moreover have "od_keys (od_del k ys @ [(k, e')]) \<subseteq> H" using sub assms(4) False by auto
      ultimately show ?thesis using d(2,3) by blast
    qed
  qed
  then show "held_local h t\<^sub>1 H (snd (lx_get now k s))" using ok' m ok(2) by (simp add: held_local_def)
qed

lemma held_local_set:
  assumes "held_local h t\<^sub>1 H s" "finite H" "h \<notin> H" "k \<in> insert h H" "k = h \<longrightarrow> verdict_of e = (''HIGH'', 1) \<and> t\<^sub>1 \<le> now + ttl"
  shows "held_local h t\<^sub>1 H (lx_set now k e ttl s)"
proof -
  from assms(1) obtain xs f ys where d: "lx_data s = xs @ (h, f) # ys" "verdict_of f = (''HIGH'', 1)" "t\<^sub>1 \<le> ce_epoch f + ce_ttl f"
    "od_keys ys \<subseteq> H" and ok: "lx_ok s" "card H < lx_max_size s" by (auto simp: held_local_def)
  have ok': "lx_ok (lx_set now k e ttl s)" by (rule lx_cache.set_ok [OF ok(1)])
  have m: "lx_max_size (lx_set now k e ttl s) = lx_max_size s" by (simp add: lx_set_def Let_def)
  let ?e = "e\<lparr>ce_epoch := now, ce_ttl := ttl\<rparr>"
  have "\<exists>xs f ys. lx_data (lx_set now k e ttl s) = xs @ (h, f) # ys \<and> verdict_of f = (''HIGH'', 1)
      \<and> t\<^sub>1 \<le> ce_epoch f + ce_ttl f \<and> od_keys ys \<subseteq> H"
  proof (cases "od_get (lx_data s) k")
    case (Some e')
    then have moved: "lx_data (lx_set now k e ttl s) = od_del k (lx_data s) @ [(k, ?e)]" by (simp add: lx_set_def od_set_new)
    show ?thesis
    proof (cases "k = h")
      case True
      then have "lx_data (lx_set now k e ttl s) = od_del k (lx_data s) @ (h, ?e) # []" using moved by simp
      then show ?thesis using assms(5) True by (fastforce simp: verdict_of_def)
    next
      case False
      then have "lx_data (lx_set now k e ttl s) = od_del k xs @ (h, f) # (od_del k ys @ [(k, ?e)])"
        by (simp add: moved d(1) od_del_split)
      moreover have "od_keys (od_del k ys @ [(k, ?e)]) \<subseteq> H" using d(4) False assms(4) by auto
      ultimately show ?thesis using d(2,3) by blast
    qed
  next
    case None
    have kh: "k \<noteq> h" using None ok(1) d(1) by (auto simp: lx_ok_def od_get_split)
    then have kH: "k \<in> H" "k \<notin> od_keys ys" using assms(4) None by (auto simp: d(1) od_get_None_iff)
    have keys: "od_keys (ys @ [(k, ?e)]) \<subseteq> H" using kH d(4) by auto
    show ?thesis
    proof (cases "lx_max_size s \<le> length (lx_data s)")
      case True
      have "xs \<noteq> []"
      proof
        assume "xs = []"
        then have l: "lx_max_size s \<le> Suc (length ys)" "od_wf ys" using True ok(1) by (auto simp: d(1) lx_ok_def od_wf_def)
        have "od_keys ys \<subset> H" using kH d(4) by blast
        then have "card (od_keys ys) < card H" using assms(2) by (simp add: psubset_card_mono)
        then show False using l ok(2) length_od_wf [OF l(2)] by simp
      qed
      then obtain x xs' where xs: "xs = x # xs'" by (cases xs) auto
      have "od_get (xs' @ (h, f) # ys) k = None" using None by (cases x) (auto simp: d(1) xs od_get_append split: option.splits if_splits)
      then have "lx_data (lx_set now k e ttl s) = xs' @ (h, f) # (ys @ [(k, ?e)])"
        using None True by (simp add: lx_set_def d(1) xs od_set_new)
      then show ?thesis using d(2,3) keys by blast
    next
      case False
      then have "lx_data (lx_set now k e ttl s) = xs @ (h, f) # (ys @ [(k, ?e)])"
        using None by (simp add: lx_set_def d(1) od_set_new)
      then show ?thesis using d(2,3) keys by blast
    qed
  qed
  then show ?thesis using ok' m ok(2) by (simp add: held_local_def)
qed

lemma held_get:
  assumes "held h t\<^sub>1 H b" "now < t\<^sub>1" "h \<notin> H" "k \<in> insert h H"
  shows "held h t\<^sub>1 H (snd (exact_get up now k b))"
    and "up \<Longrightarrow> k = h \<Longrightarrow> \<exists>e. fst (exact_get up now k b) = Some e \<and> verdict_of e = (''HIGH'', 1)"
proof -
  show "held h t\<^sub>1 H (snd (exact_get up now k b))"
  proof (cases b)
    case (LocalExact s)
    then have "held_local h t\<^sub>1 H (snd (lx_get now k s))" "held_local h t\<^sub>1 H s"
      using assms(1) held_local_get(1) [OF _ assms(2-4), of s] by (simp_all add: held_def)
    then show ?thesis using LocalExact by (cases "lx_get now k s") (simp add: held_def exact_get_def)
  next
    case (RedisExact s)
    have "snd (rx_get now k s) = s" by (simp add: rx_get_def split: option.split)
    then show ?thesis using assms(1) RedisExact by (cases "rx_get now k s") (simp add: held_def exact_get_def)
  qed
  show "\<exists>e. fst (exact_get up now k b) = Some e \<and> verdict_of e = (''HIGH'', 1)" if "up" "k = h"
  proof (cases b)
    case (LocalExact s)
    then have "\<exists>e. fst (lx_get now k s) = Some e \<and> verdict_of e = (''HIGH'', 1)"
      using assms(1) held_local_get(2) [OF _ assms(2-4) that(2)] by (simp add: held_def)
    then show ?thesis using LocalExact that by (cases "lx_get now k s") (simp add: exact_get_def)
  next
    case (RedisExact s)
    then show ?thesis using assms(1,2) that by (auto simp: held_def exact_get_def rx_get_def)
  qed
qed

lemma held_set:
  assumes "held h t\<^sub>1 H b" "finite H" "h \<notin> H" "k \<in> insert h H" "k = h \<longrightarrow> verdict_of e = (''HIGH'', 1) \<and> t\<^sub>1 \<le> now + ttl"
  shows "held h t\<^sub>1 H (exact_set up now k e ttl b)"
  using assms held_local_set [OF _ assms(2-5)]
  by (auto simp: held_def exact_set_def rx_set_def split: exact_backend.splits)

lemma held_after_set:
  assumes "backend_ok b" "room (card H) b" "verdict_of e = (''HIGH'', 1)"
  shows "held h (now + ttl) H (exact_set True now h e ttl b)"
proof (cases b)
  case (LocalExact s)
  let ?d = "if od_get (lx_data s) h \<noteq> None then od_del h (lx_data s) else if length (lx_data s) \<ge> lx_max_size s then tl (lx_data s) else lx_data s"
  have ok: "lx_ok s" "card H < lx_max_size s" using assms(1,2) LocalExact by (auto simp: backend_ok_def room_def)
  have "od_get ?d h = None" using od_get_tl [of "lx_data s" h] ok(1) by (auto simp: lx_ok_def)
  then have "lx_data (lx_set now h e ttl s) = ?d @ (h, e\<lparr>ce_epoch := now, ce_ttl := ttl\<rparr>) # []"
    by (simp add: lx_set_def od_set_new Let_def)
  moreover have "lx_max_size (lx_set now h e ttl s) = lx_max_size s" by (simp add: lx_set_def Let_def)
  ultimately have "held_local h (now + ttl) H (lx_set now h e ttl s)"
    unfolding held_local_def using lx_cache.set_ok [OF ok(1)] ok(2) assms(3) by (fastforce simp: verdict_of_def)
  then show ?thesis by (simp add: held_def exact_set_def LocalExact)
qed (use assms(3) in \<open>simp add: held_def exact_set_def rx_set_def\<close>)

section \<open>Requests after a held verdict\<close>

text \<open>
  Requests and confirmations one after the other, for prompts whose hashes are in \<open>H\<close>, with clocks from
  \<open>t\<^sub>0\<close> up to \<open>t\<^sub>1\<close>; models, settings, rules and the state of the cache's connection may differ from step to step.
\<close>

inductive later_requests ::
  "(string \<Rightarrow> string) \<Rightarrow> real \<Rightarrow> real \<Rightarrow> string set \<Rightarrow> 'v pipeline \<Rightarrow> 'v pipeline \<Rightarrow> bool" for sha t\<^sub>0 t\<^sub>1 H p where
  no_request: "later_requests sha t\<^sub>0 t\<^sub>1 H p p"
| one_more: "later_requests sha t\<^sub>0 t\<^sub>1 H p p' \<Longrightarrow> md_sha md = sha \<Longrightarrow> sha prompt \<in> H \<Longrightarrow> t\<^sub>0 \<le> ck_now ck \<Longrightarrow> ck_now ck < t\<^sub>1
    \<Longrightarrow> assess_risk md st rules ck scheduler prompt raw p' = (r, p'') \<Longrightarrow> later_requests sha t\<^sub>0 t\<^sub>1 H p p''"
| confirmed: "later_requests sha t\<^sub>0 t\<^sub>1 H p p' \<Longrightarrow> md_sha md = sha \<Longrightarrow> sha prompt \<in> H \<Longrightarrow> t\<^sub>0 \<le> ck_now ck \<Longrightarrow> ck_now ck < t\<^sub>1
    \<Longrightarrow> later_requests sha t\<^sub>0 t\<^sub>1 H p (llama_guard_async_confirmation md st ck prompt v risk (p'\<lparr>pl_scheduled := sch\<rparr>))"

lemma add_exact:
  "\<exists>e. fc_exact (fc_add sha up now prompt v risk score source c) = exact_set up now (sha prompt) e cache_ttl_seconds (fc_exact c)
    \<and> verdict_of e = (risk, score)"
  by (auto simp: fc_add_def rebuild_faiss_def Let_def verdict_of_def)

lemma uncached_cache:
  assumes "assess_uncached md st rules ck scheduler prompt text v p = (r, p')"
  shows "pl_cache p' = pl_cache p
    \<or> (\<exists>risk score source. pl_cache p' = fc_add (md_sha md) (ck_cache_up ck) (ck_now ck) prompt v risk score source (pl_cache p))"
proof (cases r)
  case (Inl e)
  then show ?thesis
    using assms by (auto simp: assess_uncached_def deep_path_def Let_def split: option.splits prod.splits sum.splits if_splits)
next
  case (Inr x)
  then show ?thesis using uncached_cases [OF assms [unfolded Inr]] by blast
qed

lemma confirmation_cache:
  "pl_cache (llama_guard_async_confirmation md st ck prompt v risk p) = pl_cache p \<or>
   pl_cache (llama_guard_async_confirmation md st ck prompt v risk p)
     = fc_add (md_sha md) (ck_cache_up ck) (ck_now ck) prompt v ''HIGH'' 1 ''llama_guard_async_escalation'' (pl_cache p)"
  by (auto simp: llama_guard_async_confirmation_def save_cache_entry_def Let_def split: prod.split option.split)

lemma later_requests_mono:
  "later_requests sha t\<^sub>0 t\<^sub>1 H p p' \<Longrightarrow> H \<subseteq> H' \<Longrightarrow> later_requests sha t\<^sub>0 t\<^sub>1 H' p p'"
proof (induction rule: later_requests.induct)
  case (one_more p' md prompt ck st rules scheduler raw r p'')
  then show ?case using later_requests.one_more [of sha t\<^sub>0 t\<^sub>1 H' p p'] by blast
next
  case (confirmed p' md prompt ck st v risk sch)
  then show ?case using later_requests.confirmed [of sha t\<^sub>0 t\<^sub>1 H' p p'] by blast
qed (rule later_requests.no_request)

lemma held_assessed:
  assumes "assess_risk md st rules ck scheduler prompt raw p = (r, p')" "held h t\<^sub>1 H (fc_exact (pl_cache p))"
    and "finite H" "h \<notin> H" "md_sha md prompt \<in> insert h H" "ck_now ck < t\<^sub>1"
  shows "held h t\<^sub>1 H (fc_exact (pl_cache p'))"
    and "ck_cache_up ck \<Longrightarrow> md_sha md prompt = h \<Longrightarrow> r = Inr (cache_hit ''HIGH'' 1 True)"
proof -
  obtain cached c where s0: "stage0 md st ck prompt p = (cached, c)" by (cases "stage0 md st ck prompt p")
  let ?k = "md_sha md prompt"
  let ?g = "exact_get (ck_cache_up ck) (ck_now ck) ?k (fc_exact (pl_cache p))"
  have ce: "fc_exact c = snd ?g" using lookup_exact s0 by (metis snd_conv stage0_def)
  note g = held_get [OF assms(2,6,4,5)]
  have hc: "held h t\<^sub>1 H (fc_exact c)" unfolding ce by (rule g(1))
  have hit: "cached = Some (''HIGH'', 1)" if up: "ck_cache_up ck" "?k = h"
  proof -
    obtain e where e: "fst ?g = Some e" "verdict_of e = (''HIGH'', 1)" using g(2) [OF up] by blast
    obtain b where "?g = (Some e, b)" using e(1) by (cases ?g) auto
    then show ?thesis using s0 e(2) by (simp add: stage0_def fc_lookup_def verdict_of_def)
  qed
  show "r = Inr (cache_hit ''HIGH'' 1 True)" if "ck_cache_up ck" "?k = h"
    using assess_cases [OF assms(1) s0] hit [OF that] by auto
  consider "pl_cache p' = c" | risk score source where "\<not> (ck_cache_up ck \<and> ?k = h)"
      "pl_cache p' = fc_add (md_sha md) (ck_cache_up ck) (ck_now ck) prompt (md_embed md prompt) risk score source c"
    using assess_cases [OF assms(1) s0] hit uncached_cache [of md st rules ck scheduler prompt "detector_text prompt raw" "md_embed md prompt" "p\<lparr>pl_cache := c\<rparr>" r p']
    by fastforce
  then show "held h t\<^sub>1 H (fc_exact (pl_cache p'))"
  proof cases
    case 1
    then show ?thesis using hc by simp
  next
    case 2
    obtain e where e: "fc_exact (pl_cache p') = exact_set (ck_cache_up ck) (ck_now ck) ?k e cache_ttl_seconds (fc_exact c)"
      using add_exact 2(2) by metis
    show ?thesis
    proof (cases "ck_cache_up ck")
      case True
      then show ?thesis unfolding e using 2(1) by (intro held_set [OF hc assms(3-5)]) simp
    next
      case False
      then show ?thesis using hc by (simp add: e exact_set_def)
    qed
  qed
qed

lemma held_later:
  assumes "later_requests sha t\<^sub>0 (t\<^sub>0 + cache_ttl_seconds) (insert h H) p p'" "held h (t\<^sub>0 + cache_ttl_seconds) H (fc_exact (pl_cache p))"
    and "finite H" "h \<notin> H"
  shows "held h (t\<^sub>0 + cache_ttl_seconds) H (fc_exact (pl_cache p'))"
  using assms
proof (induction rule: later_requests.induct)
  case (one_more p' md prompt ck st rules scheduler raw r p'')
  show ?case
    by (rule held_assessed(1) [OF one_more.hyps(6) one_more.IH [OF one_more.prems] one_more.prems(2,3)]) (use one_more.hyps in auto)
next
  case (confirmed p' md prompt ck st v risk sch)
  have h: "held h (t\<^sub>0 + cache_ttl_seconds) H (fc_exact (pl_cache (p'\<lparr>pl_scheduled := sch\<rparr>)))" using confirmed by simp
  obtain e where e: "fc_exact (fc_add (md_sha md) (ck_cache_up ck) (ck_now ck) prompt v ''HIGH'' 1 ''llama_guard_async_escalation'' (pl_cache (p'\<lparr>pl_scheduled := sch\<rparr>)))
      = exact_set (ck_cache_up ck) (ck_now ck) (md_sha md prompt) e cache_ttl_seconds (fc_exact (pl_cache (p'\<lparr>pl_scheduled := sch\<rparr>)))" "verdict_of e = (''HIGH'', 1)"
    using add_exact by metis
  have "held h (t\<^sub>0 + cache_ttl_seconds) H (exact_set (ck_cache_up ck) (ck_now ck) (md_sha md prompt) e cache_ttl_seconds (fc_exact (pl_cache (p'\<lparr>pl_scheduled := sch\<rparr>))))"
    by (rule held_set [OF h confirmed.prems(2,3)]) (use confirmed.hyps e(2) in auto)
  then show ?case using confirmation_cache [of md st ck prompt v risk "p'\<lparr>pl_scheduled := sch\<rparr>"] h e(1) by auto
qed simp

section \<open>Who may clear a prompt\<close>

text \<open>The reply of the model behind the fast judge says safe.\<close>

definition backend_says_safe :: "'v models \<Rightarrow> string \<Rightarrow> bool" where
  "backend_says_safe md prompt =
     (if uses_llama_guard_protocol (md_judge_model md)
      then (case md_chat md prompt of HttpResp c body \<Rightarrow> c = 200 \<and> llama_guard_reply body = Inr (Some ''SAFE'')
            | HttpRaises \<Rightarrow> False)
      else (case md_generate md prompt of
              HttpResp c body \<Rightarrow> c = 200 \<and> json_reply (md_json_loads md) body = Inr (Some ''SAFE'')
            | HttpRaises \<Rightarrow> False))"

definition guard_says_safe :: "'v models \<Rightarrow> string \<Rightarrow> bool" where
  "guard_says_safe md prompt =
     (md_guard_available md \<and> (case md_guard_classify md prompt of None \<Rightarrow> False | Some v \<Rightarrow> v \<noteq> ''unsafe''))"

lemma ask_judge_low:
  assumes "ask_judge md st ck prompt threat s = ((''LOW'', source), s')"
  shows "rk_may_clear st \<and> \<not> threat \<and> backend_says_safe md prompt"
proof -
  obtain v where v: "fst (semantic_judge (md_json_loads md) (md_judge_model md) (ck_redis_up ck) (ck_now ck)
      (ck_server ck) (md_chat md prompt) (md_generate md prompt) s) = v" "judge_decision (rk_may_clear st) threat v = (''LOW'', source)"
    using assms by (auto simp: ask_judge_def judge_arbitration_def Let_def split: prod.splits)
  have l: "v = ''SAFE''" "rk_may_clear st" "\<not> threat" using judge_decision_cases [OF v(2)] by auto
  then show ?thesis
    using v(1)
    by (auto simp: backend_says_safe_def semantic_judge_def judge_via_llama_guard_def Let_def
        split: prod.splits http.splits option.splits sum.splits if_splits)
qed

lemma ask_guard_low:
  assumes "fst (ask_guard md st ck prompt threat s) = Some (''LOW'', source)"
  shows "rk_may_clear st \<and> \<not> threat \<and> guard_says_safe md prompt"
  using assms
  by (auto simp: ask_guard_def llama_guard_arbitration_def guard_says_safe_def Let_def
      split: prod.splits option.splits if_splits)

lemma arbitrate_low:
  assumes "arbitrate md st ck scheduler prompt v threat p = ((''LOW'', source), p')"
  shows "rk_may_clear st \<and> \<not> threat \<and> (backend_says_safe md prompt \<or> (\<not> scheduler \<and> guard_says_safe md prompt))"
proof (cases "scheduler \<or> fst (ask_guard md st ck prompt threat (pl_guard p)) = None")
  case True
  then show ?thesis
    using assms ask_judge_low [of md st ck prompt threat "pl_ollama p"]
    by (auto simp: arbitrate_def Let_def split: prod.splits if_splits)
next
  case False
  then show ?thesis
    using assms ask_guard_low [of md st ck prompt threat "pl_guard p"]
    by (auto simp: arbitrate_def Let_def split: prod.splits)
qed


lemma uncached_low:
  assumes "assess_uncached md st rules ck scheduler prompt text v p = (Inr r, p')" "ar_risk_level r = ''LOW''"
  shows "hard_ban_triggered md rules text = None \<and> check_meta_intent md v < rk_meta_intent_threshold st
    \<and> md_threat_similarity md v < rk_high st
    \<and> (\<exists>sg fu sc med hi.
         collect_semantic_signals md st text v (fast_path_signals md v) (pl_fusion p) = (Inr sg, fu)
       \<and> bands st sg = (sc, med, hi) \<and> sc < hi
       \<and> \<not> (rk_domain_mode st = ''enforcing'' \<and> classify_topicality sg = ''OUT_OF_DOMAIN'')
       \<and> (sc < med \<or> rk_may_clear st \<and> \<not> in_upper_ambiguous_band sc med hi \<and> \<not> sg_is_educational sg
            \<and> (backend_says_safe md prompt \<or> \<not> scheduler \<and> guard_says_safe md prompt)))"
proof -
  have h: "hard_ban_triggered md rules text = None"
    using assms by (auto simp: assess_uncached_def split: option.splits)
  have f: "fast_path_decision st (fast_path_signals md v) = None"
  proof (cases "fast_path_decision st (fast_path_signals md v)")
    case (Some rs)
    then show ?thesis
      using assms h fast_path_cases [of st "fast_path_signals md v" "fst rs" "snd rs"]
      by (auto simp: assess_uncached_def Let_def split: prod.splits)
  qed
  then have b: "check_meta_intent md v < rk_meta_intent_threshold st" "md_threat_similarity md v < rk_high st"
    by (auto simp: fast_path_decision_def fast_path_signals_def split: if_splits)
  have "deep_path md st ck scheduler prompt text v (fast_path_signals md v) p = (Inr r, p')"
    using assms(1) h f by (simp add: assess_uncached_def Let_def)
  from deep_path_cases [OF this] obtain sg fu risk0 source0 jr tpc risk source p1 p2 where d:
    "collect_semantic_signals md st text v (fast_path_signals md v) (pl_fusion p) = (Inr sg, fu)"
    "fuse_signals st sg = (risk0, source0, jr, tpc)"
    "if jr then arbitrate md st ck scheduler prompt v (threat_present st sg) p1 = ((risk, source), p2)
      else (risk, source, p2) = (risk0, source0, p1)"
    "r = deep_path_result risk source (reported_score sg) tpc jr sg" by blast
  obtain sc med hi where s: "bands st sg = (sc, med, hi)" using prod_cases3 by blast
  have t: "tpc = classify_topicality sg" using d(2) by (auto simp: fuse_signals_def Let_def split: if_splits)
  have low: "risk = ''LOW''" using d(4) assms(2) by simp
  show ?thesis
  proof (cases jr)
    case True
    then have a: "arbitrate md st ck scheduler prompt v (threat_present st sg) p1 = ((''LOW'', source), p2)"
      using d(3) low by simp
    have j: "fuse_signals st sg = (risk0, source0, True, tpc)" using d(2) True by simp
    show ?thesis
      using h b d(1) s t True fuse_judged [OF j s] arbitrate_low [OF a] threat_present_bands [OF s]
      by blast
  next
    case False
    then show ?thesis
      using h b d(1) s t d(3) low fuse_low [of st sg source0 jr tpc, OF _ s] d(2) by auto
  qed
qed

section \<open>Properties\<close>

text \<open>
  C1. A LOW verdict is earned.  When the pipeline answers LOW otherwise than from its cache, no
  symbolic rule matched the detector text, the meta-intent and threat similarities stayed
  below the fast path's thresholds, an enforcing domain guardrail did not object, and the
  deciding score was below the medium threshold, or else in the lower half of the ambiguous
  band, not educational, with clear-authority enabled and the judge's or Llama Guard's own
  reply saying safe.
\<close>

theorem low_verdict_is_earned:
  assumes "assess_risk md st rules ck scheduler prompt raw p = (Inr r, p')"
    and "is_fresh r" "ar_risk_level r = ''LOW''"
  shows "let text = detector_text prompt raw; v = md_embed md prompt in
    hard_ban_triggered md rules text = None \<and> check_meta_intent md v < rk_meta_intent_threshold st
    \<and> md_threat_similarity md v < rk_high st
    \<and> (\<exists>sg fu sc med hi.
         collect_semantic_signals md st text v (fast_path_signals md v) (pl_fusion p) = (Inr sg, fu)
       \<and> bands st sg = (sc, med, hi) \<and> sc < hi
       \<and> \<not> (rk_domain_mode st = ''enforcing'' \<and> classify_topicality sg = ''OUT_OF_DOMAIN'')
       \<and> (sc < med \<or> rk_may_clear st \<and> \<not> in_upper_ambiguous_band sc med hi \<and> \<not> sg_is_educational sg
            \<and> (backend_says_safe md prompt \<or> \<not> scheduler \<and> guard_says_safe md prompt)))"
  using uncached_low [OF fresh_is_uncached [OF assms(1,2)] assms(3)] by (simp add: Let_def)

text \<open>
  C4. The symbolic veto is final.  On a cache miss a prompt whose detector text matches a symbolic rule,
  or any prompt when a rule set failed to load, is HIGH with the rule's detail, whatever the models say.
  Then, with the cache reachable, for its lifetime every assessment of that prompt is HIGH, whatever its
  settings, rules and models' answers, after any number of requests and confirmations, one after the
  other, for this and other prompts, at any state of the cache's connection, as long as the others
  have fewer different hashes than the local cache has places (a Redis cache takes any number).
\<close>

theorem symbolic_veto_is_final:
  assumes "fst (stage0 md st ck prompt p) = None"
    and "hard_ban_triggered md rules (detector_text prompt raw) = Some detail"
    and "backend_ok (fc_exact (pl_cache p))" "ck_cache_up ck"
    and "finite H" "room (card (H - {md_sha md prompt})) (fc_exact (pl_cache p))"
  shows "\<exists>p'. assess_risk md st rules ck scheduler prompt raw p = (Inr (symbolic_result detail), p')
    \<and> (\<forall>p'' md' st' rules' ck' scheduler' raw'.
        later_requests (md_sha md) (ck_now ck) (ck_now ck + cache_ttl_seconds) H p' p''
        \<and> md_sha md' = md_sha md \<and> ck_cache_up ck' \<and> ck_now ck' < ck_now ck + cache_ttl_seconds
        \<longrightarrow> fst (assess_risk md' st' rules' ck' scheduler' prompt raw' p'') = Inr (cache_hit ''HIGH'' 1 True))"
proof -
  let ?c = "snd (stage0 md st ck prompt p)" and ?h = "md_sha md prompt"
  let ?H = "H - {?h}" and ?t = "ck_now ck + cache_ttl_seconds"
  let ?p' = "save_cache_entry md ck prompt (md_embed md prompt) ''HIGH'' 1 ''symbolic_rule'' (p\<lparr>pl_cache := ?c\<rparr>)"
  have a: "assess_risk md st rules ck scheduler prompt raw p = (Inr (symbolic_result detail), ?p')"
    using assms(1,2) by (cases "stage0 md st ck prompt p") (simp add: assess_split assess_uncached_def Let_def)
  have "room (card ?H) (fc_exact ?c)"
    using assms(6) by (auto simp: stage0_def lookup_exact room_def exact_get_def lx_get_def split: exact_backend.splits prod.splits option.splits if_splits)
  moreover have "pl_cache ?p' = fc_add (md_sha md) True (ck_now ck) prompt (md_embed md prompt) ''HIGH'' 1 ''symbolic_rule'' ?c"
    by (simp add: save_cache_entry_def assms(4))
  then obtain e where "fc_exact (pl_cache ?p') = exact_set True (ck_now ck) ?h e cache_ttl_seconds (fc_exact ?c)" "verdict_of e = (''HIGH'', 1)"
    using add_exact by metis
  ultimately have held: "held ?h ?t ?H (fc_exact (pl_cache ?p'))"
    using held_after_set [OF stage0_backend_ok [OF assms(3)]] by simp
  have "fst (assess_risk md' st' rules' ck' scheduler' prompt raw' p'') = Inr (cache_hit ''HIGH'' 1 True)"
    if l: "later_requests (md_sha md) (ck_now ck) ?t H ?p' p''" and "md_sha md' = md_sha md" "ck_cache_up ck'" "ck_now ck' < ?t"
    for p'' md' st' rules' ck' scheduler' raw'
  proof -
    have "later_requests (md_sha md) (ck_now ck) ?t (insert ?h ?H) ?p' p''" by (rule later_requests_mono [OF l]) auto
    from held_later [OF this held] have "held ?h ?t ?H (fc_exact (pl_cache p''))" using assms(5) by simp
    from held_assessed(2) [OF surjective_pairing this] show ?thesis using that assms(5) by auto
  qed
  then show ?thesis using a by blast
qed

text \<open>
  A cached verdict outlives the rules.  The cache is keyed by the redacted prompt and
  consulted before the symbolic veto reads the raw one, so after a fresh verdict every prompt
  with the same redacted form is answered with that verdict, even one whose raw text matches
  a hard ban.
\<close>

theorem cached_verdict_skips_veto:
  assumes "assess_risk md st rules ck scheduler prompt raw p = (Inr r, p')" "is_fresh r"
    and "backend_ok (fc_exact (pl_cache p))" "ck_cache_up ck" "ck_cache_up ck'"
    and "ck_now ck' < ck_now ck + cache_ttl_seconds"
    and "hard_ban_triggered md rules (detector_text prompt raw') = Some detail" "ar_risk_level r \<noteq> ''HIGH''"
  shows "\<exists>sc. ar_semantic_score r = Some sc
    \<and> fst (assess_risk md st rules ck' scheduler prompt raw' p') = Inr (cache_hit (ar_risk_level r) sc False)"
proof -
  obtain sc where sc: "fst (stage0 md st ck' prompt p') = Some (ar_risk_level r, sc)" "ar_semantic_score r = Some sc"
    using served_again [OF assms(1-6)] by blast
  have "ar_risk_level r \<noteq> []" using uncached_cases [OF fresh_is_uncached [OF assms(1,2)]] by (auto simp: risk_levels_def)
  then show ?thesis
    using sc assms(8) by (cases "stage0 md st ck' prompt p'") (simp add: assess_split Let_def)
qed

text \<open>
  The background confirmation is a one-way ratchet: it changes the cache only when Llama
  Guard calls the prompt unsafe and the fast verdict was not HIGH already, and then the next
  assessment of the prompt within the cache's lifetime is HIGH.
\<close>

theorem async_confirmation_only_escalates:
  assumes "p' = llama_guard_async_confirmation md st ck prompt v fast_risk p"
    and "backend_ok (fc_exact (pl_cache p))" "ck_cache_up ck" "ck_cache_up ck'"
    and "ck_now ck' < ck_now ck + cache_ttl_seconds"
  shows "pl_cache p' = pl_cache p \<or>
    md_guard_classify md prompt = Some ''unsafe'' \<and> fast_risk \<noteq> ''HIGH''
    \<and> fst (assess_risk md st' rules ck' scheduler prompt raw p') = Inr (cache_hit ''HIGH'' 1 True)"
proof -
  let ?threat = "fast_risk \<in> {''MEDIUM'', ''HIGH''}"
  obtain g g' where g: "ask_guard md st ck prompt ?threat (pl_guard p) = (g, g')" by (cases "ask_guard md st ck prompt ?threat (pl_guard p)")
  have p': "p' = (case g of None \<Rightarrow> p\<lparr>pl_guard := g'\<rparr> | Some (risk, source) \<Rightarrow>
      if risk = ''HIGH'' \<and> fast_risk \<noteq> ''HIGH''
      then save_cache_entry md ck prompt v ''HIGH'' 1 ''llama_guard_async_escalation'' (p\<lparr>pl_guard := g'\<rparr>)
      else p\<lparr>pl_guard := g'\<rparr>)"
    using assms(1) unfolding llama_guard_async_confirmation_def g Let_def prod.case .
  show ?thesis
  proof (cases "\<exists>source. g = Some (''HIGH'', source) \<and> fast_risk \<noteq> ''HIGH''")
    case False
    then show ?thesis
      using p' by (auto split: option.splits)
  next
    case True
    have un: "md_guard_classify md prompt = Some ''unsafe''"
      using True g by (auto simp: ask_guard_def llama_guard_arbitration_def Let_def split: prod.splits option.splits if_splits)
    have "pl_cache p' = fc_add (md_sha md) True (ck_now ck) prompt v ''HIGH'' 1 ''llama_guard_async_escalation'' (pl_cache p)"
      using True p' assms(3) by (auto simp: save_cache_entry_def)
    then have "fst (stage0 md st' ck' prompt p') = Some (''HIGH'', 1)"
      using add_then_lookup [OF assms(2,5)] assms(4) by (simp add: stage0_def)
    then have hi: "fst (assess_risk md st' rules ck' scheduler prompt raw p') = Inr (cache_hit ''HIGH'' 1 True)"
      by (cases "stage0 md st' ck' prompt p'") (simp add: assess_split Let_def)
    show ?thesis using True un hi by blast
  qed
qed


section \<open>The vocabulary of verdicts, over any history\<close>

text \<open>Every entry the cache holds.\<close>

definition od_vals :: "('k, 'a) odict \<Rightarrow> 'a set" where
  "od_vals d = snd ` set d"

fun backend_entries :: "'v exact_backend \<Rightarrow> 'v centry set" where
  "backend_entries (LocalExact s) = od_vals (lx_data s)"
| "backend_entries (RedisExact s) = {e. \<exists>k x. (k, Some e, x) \<in> set s}"

definition risks_ok :: "'v faiss_cache \<Rightarrow> bool" where
  "risks_ok c \<longleftrightarrow> cache_inv c \<and> (\<forall>e \<in> od_vals (fc_data c). ce_risk e \<in> risk_levels)
     \<and> (\<forall>e \<in> backend_entries (fc_exact c). ce_risk e \<in> risk_levels)"

lemma od_valsI: "(k, e) \<in> set d \<Longrightarrow> e \<in> od_vals d"
  by (force simp: od_vals_def)

lemma od_vals_move: "e \<in> od_vals (od_move_to_end k d) \<Longrightarrow> e \<in> od_vals d"
  using od_move_mem by (fastforce simp: od_vals_def)

lemma od_vals_del: "e \<in> od_vals (od_del k d) \<Longrightarrow> e \<in> od_vals d"
  using od_del_mem by (fastforce simp: od_vals_def)

lemma od_vals_set: "e' \<in> od_vals (od_set k e d) \<Longrightarrow> e' = e \<or> e' \<in> od_vals d"
  using od_set_mem by (fastforce simp: od_vals_def)

lemma od_vals_tl: "e \<in> od_vals (tl d) \<Longrightarrow> e \<in> od_vals d"
  using in_set_tlD by (fastforce simp: od_vals_def)

lemma od_vals_get: "od_get d k = Some e \<Longrightarrow> e \<in> od_vals d"
  by (rule od_valsI [OF od_get_Some_mem])

text \<open>Both \<open>set\<close> operations make room in the same way.\<close>

lemma od_vals_insert:
  "e' \<in> od_vals (od_set k e (if a then od_del k d else if b then tl d else d)) \<Longrightarrow> e' = e \<or> e' \<in> od_vals d"
  by (auto split: if_splits dest!: od_vals_set dest: od_vals_del od_vals_tl)

lemma lx_get_entries:
  "e \<in> od_vals (lx_data (snd (lx_get now k s))) \<Longrightarrow> e \<in> od_vals (lx_data s)"
  by (auto simp: lx_get_def dest: od_vals_move od_vals_del split: option.splits if_splits)

lemma lx_get_answer: "fst (lx_get now k s) = Some e \<Longrightarrow> e \<in> od_vals (lx_data s)"
  by (auto simp: lx_get_def dest: od_vals_get split: option.splits if_splits)

lemma exact_get_entries:
  assumes "exact_get up now k b = (r, b')"
  shows "backend_entries b' \<subseteq> backend_entries b" "r = Some e \<Longrightarrow> e \<in> backend_entries b"
proof -
  show "backend_entries b' \<subseteq> backend_entries b"
  proof (cases b)
    case (LocalExact s)
    then show ?thesis
      using assms lx_get_entries [of _ now k s] by (cases "lx_get now k s") (auto simp: exact_get_def split: if_splits)
  next
    case (RedisExact s)
    have "snd (rx_get now k s) = s" by (simp add: rx_get_def split: option.split)
    then show ?thesis
      using assms RedisExact by (cases "rx_get now k s") (auto simp: exact_get_def split: if_splits)
  qed
  show "e \<in> backend_entries b" if r: "r = Some e"
  proof (cases b)
    case (LocalExact s)
    then show ?thesis
      using assms r lx_get_answer [of now k s e] by (cases "lx_get now k s") (auto simp: exact_get_def split: if_splits)
  next
    case (RedisExact s)
    then have "fst (rx_get now k s) = Some e"
      using assms r by (cases "rx_get now k s") (auto simp: exact_get_def split: if_splits)
    then obtain x where "od_get s k = Some (Some e, x)"
      by (auto simp: rx_get_def split: option.splits if_splits)
    from od_get_Some_mem [OF this] show ?thesis using RedisExact by auto
  qed
qed

lemma exact_set_entries:
  assumes "e' \<in> backend_entries (exact_set up now k e ttl b)"
  shows "e' \<in> backend_entries b \<or> ce_risk e' = ce_risk e"
proof (cases b)
  case (LocalExact s)
  have "e' \<in> od_vals (lx_data (lx_set now k e ttl s)) \<Longrightarrow> e' = e\<lparr>ce_epoch := now, ce_ttl := ttl\<rparr> \<or> e' \<in> od_vals (lx_data s)"
    using od_vals_insert [of e' k "e\<lparr>ce_epoch := now, ce_ttl := ttl\<rparr>" "od_get (lx_data s) k \<noteq> None" "lx_data s"
        "length (lx_data s) \<ge> lx_max_size s"] by (simp add: lx_set_def Let_def)
  then show ?thesis using assms LocalExact by (cases up) (auto simp: exact_set_def)
next
  case (RedisExact s)
  then show ?thesis
    using assms by (auto simp: exact_set_def rx_set_def dest: od_set_mem split: if_splits)
qed

lemma fc_add_entries:
  "e \<in> od_vals (fc_data (fc_add sha up now prompt v risk score source c)) \<Longrightarrow> ce_risk e = risk \<or> e \<in> od_vals (fc_data c)"
  using od_vals_insert [of e "sha prompt" "\<lparr>ce_prompt = prompt, ce_vector = v, ce_risk = risk, ce_score = score,
      ce_prompt_hash = sha prompt, ce_epoch = now, ce_source = source, ce_ttl = cache_ttl_seconds\<rparr>"
      "od_get (fc_data c) (sha prompt) \<noteq> None" "fc_data c" "length (fc_data c) \<ge> max_cache_size"]
  by (auto simp: fc_add_def rebuild_faiss_def Let_def)

lemma fc_add_backend:
  "\<exists>e. ce_risk e = risk \<and> fc_exact (fc_add sha up now prompt v risk score source c)
     = exact_set up now (sha prompt) e cache_ttl_seconds (fc_exact c)"
  by (rule exI [where x = "\<lparr>ce_prompt = prompt, ce_vector = v, ce_risk = risk, ce_score = score,
      ce_prompt_hash = sha prompt, ce_epoch = now, ce_source = source, ce_ttl = cache_ttl_seconds\<rparr>"])
    (simp add: fc_add_def rebuild_faiss_def Let_def)

lemma add_risks_ok:
  assumes "risks_ok c" "risk \<in> risk_levels"
  shows "risks_ok (fc_add sha up now prompt v risk score source c)"
proof -
  obtain en where en: "ce_risk en = risk" "fc_exact (fc_add sha up now prompt v risk score source c)
     = exact_set up now (sha prompt) en cache_ttl_seconds (fc_exact c)"
    using fc_add_backend [of risk sha up now prompt v score source c] by blast
  have "ce_risk e \<in> risk_levels" if "e \<in> od_vals (fc_data (fc_add sha up now prompt v risk score source c))" for e
    using fc_add_entries [OF that] assms by (auto simp: risks_ok_def)
  moreover have "ce_risk e \<in> risk_levels" if "e \<in> backend_entries (fc_exact (fc_add sha up now prompt v risk score source c))" for e
    using exact_set_entries [OF that [unfolded en(2)]] en(1) assms by (auto simp: risks_ok_def)
  ultimately show ?thesis using assms(1) by (simp add: risks_ok_def add_inv)
qed

lemma get_index_data [simp]: "fc_data (snd (get_index c)) = fc_data c"
  by (auto simp: get_index_def rebuild_faiss_def Let_def split: option.split)

lemma fuzzy_entries:
  "e \<in> od_vals (fc_data (snd (fuzzy_lookup search threshold now q c))) \<Longrightarrow> e \<in> od_vals (fc_data c)"
proof -
  obtain index c1 where g: "get_index c = (index, c1)" by (cases "get_index c")
  have d: "fc_data c1 = fc_data c" using get_index_data [of c] g by simp
  show "e \<in> od_vals (fc_data (snd (fuzzy_lookup search threshold now q c))) \<Longrightarrow> e \<in> od_vals (fc_data c)"
    by (cases "search index q")
      (auto simp: fuzzy_lookup_def g d rebuild_faiss_def Let_def dest: od_vals_move od_vals_del split: if_splits)
qed

lemma fuzzy_answer:
  assumes "fst (fuzzy_lookup search threshold now q c) = Some (risk, sc)" "fc_data c \<noteq> []"
  shows "\<exists>e \<in> od_vals (fc_data c). ce_risk e = risk"
proof -
  obtain index c1 where g: "get_index c = (index, c1)" by (cases "get_index c")
  have d: "fc_data c1 = fc_data c" using get_index_data [of c] g by simp
  obtain bi bs where "search index q = (bi, bs)" by (cases "search index q")
  then have h: "bi < int (length (fc_data c))" "risk = ce_risk (snd (fc_data c ! nat bi))"
    using assms by (auto simp: fuzzy_lookup_def g d Let_def split: if_splits)
  then have "nat bi < length (fc_data c)" using assms(2) by (cases "bi < 0") auto
  then have "snd (fc_data c ! nat bi) \<in> od_vals (fc_data c)" by (simp add: od_vals_def)
  then show ?thesis using h(2) by blast
qed

lemma lookup_risks_ok:
  assumes "risks_ok c" "fc_lookup sha search threshold up now prompt q c = (r, c')"
  shows "risks_ok c'" "r = Some (risk, sc) \<Longrightarrow> risk \<in> risk_levels"
proof -
  obtain hit b where g: "exact_get up now (sha prompt) (fc_exact c) = (hit, b)"
    by (cases "exact_get up now (sha prompt) (fc_exact c)")
  let ?c = "c\<lparr>fc_exact := b\<rparr>"
  have l: "fc_lookup sha search threshold up now prompt q c = (case hit of
        Some e \<Rightarrow> (Some (ce_risk e, ce_score e), ?c)
      | None \<Rightarrow> if fc_data c = [] then (None, ?c) else fuzzy_lookup search threshold now q ?c)"
    by (simp add: fc_lookup_def g Let_def)
  have b: "fc_exact c' = b" using lookup_exact [of sha search threshold up now prompt q c] assms(2) g by simp
  have d: "e \<in> od_vals (fc_data c') \<Longrightarrow> e \<in> od_vals (fc_data c)" for e
  proof (cases "hit = None \<and> fc_data c \<noteq> []")
    case True
    then have "fuzzy_lookup search threshold now q ?c = (r, c')" using l assms(2) by simp
    then show "e \<in> od_vals (fc_data c') \<Longrightarrow> e \<in> od_vals (fc_data c)"
      using fuzzy_entries [of e search threshold now q ?c] by simp
  qed (use l assms(2) in \<open>auto split: option.splits if_splits\<close>)
  have "cache_inv c'" using lookup_inv [of c sha search threshold up now prompt q] assms by (simp add: risks_ok_def)
  then show "risks_ok c'"
    using d exact_get_entries(1) [OF g] assms(1) by (auto simp: risks_ok_def b)
  show "risk \<in> risk_levels" if r: "r = Some (risk, sc)"
  proof (cases "hit = None \<and> fc_data c \<noteq> []")
    case True
    then have "fuzzy_lookup search threshold now q ?c = (Some (risk, sc), c')" using l assms(2) r by simp
    then show ?thesis
      using fuzzy_answer [of search threshold now q ?c risk sc] assms(1) True by (auto simp: risks_ok_def)
  qed (use r l assms exact_get_entries(2) [OF g] in \<open>auto simp: risks_ok_def split: option.splits\<close>)
qed

text \<open>
  The pipeline's life: requests, pending confirmations run in any order and at any later time,
  and flushes of the cache; models, settings, rules and clocks may differ from step to step.
\<close>

inductive pipeline_step :: "'v pipeline \<Rightarrow> 'v pipeline \<Rightarrow> bool" where
  request: "assess_risk md st rules ck scheduler prompt raw p = (r, p') \<Longrightarrow> pipeline_step p p'"
| confirmation: "pl_scheduled p = a @ (prompt, v, risk, source) # b \<Longrightarrow>
    p' = llama_guard_async_confirmation md st ck prompt v risk (p\<lparr>pl_scheduled := a @ b\<rparr>) \<Longrightarrow> pipeline_step p p'"
| flush: "pipeline_step p (p\<lparr>pl_cache := fc_flush up (pl_cache p)\<rparr>)"

inductive_cases pipeline_stepE: "pipeline_step p p'"

abbreviation pipeline_reaches :: "'v pipeline \<Rightarrow> 'v pipeline \<Rightarrow> bool" where
  "pipeline_reaches \<equiv> pipeline_step\<^sup>*\<^sup>*"

lemma assess_risks_ok:
  assumes "assess_risk md st rules ck scheduler prompt raw p = (r, p')" "risks_ok (pl_cache p)"
  shows "risks_ok (pl_cache p')"
    and "r = Inr x \<Longrightarrow> ar_risk_level x \<in> risk_levels \<and> ar_source x \<in> set known_sources"
proof -
  obtain cached c where s0: "stage0 md st ck prompt p = (cached, c)" by (cases "stage0 md st ck prompt p")
  note l = s0 [unfolded stage0_def]
  have c: "risks_ok c" by (rule lookup_risks_ok(1) [OF assms(2) l])
  have lev: "cached = Some (risk, sc) \<Longrightarrow> risk \<in> risk_levels" for risk sc
    by (rule lookup_risks_ok(2) [OF assms(2) l])
  consider (hit) risk sc where "cached = Some (risk, sc)" "r = Inr (cache_hit risk sc (risk = ''HIGH''))"
        "p' = p\<lparr>pl_cache := c\<rparr>"
    | (miss) "assess_uncached md st rules ck scheduler prompt (detector_text prompt raw) (md_embed md prompt)
        (p\<lparr>pl_cache := c\<rparr>) = (r, p')"
    using assess_cases [OF assms(1) s0] by blast
  then have "risks_ok (pl_cache p') \<and> (\<forall>x. r = Inr x \<longrightarrow> ar_risk_level x \<in> risk_levels \<and> ar_source x \<in> set known_sources)"
  proof cases
    case hit
    then show ?thesis using c lev by (simp add: known_sources_def)
  next
    case miss
    show ?thesis
    proof (cases r)
      case (Inr x)
      show ?thesis
        using uncached_cases [OF miss [unfolded Inr]] add_risks_ok [OF c] Inr by auto
    next
      case (Inl e)
      have "pl_cache p' = c"
        using miss Inl
        by (auto simp: assess_uncached_def deep_path_def Let_def split: option.splits prod.splits sum.splits if_splits)
      then show ?thesis using c Inl by simp
    qed
  qed
  then show "risks_ok (pl_cache p')"
    and "r = Inr x \<Longrightarrow> ar_risk_level x \<in> risk_levels \<and> ar_source x \<in> set known_sources" by auto
qed

lemma step_risks_ok: "pipeline_step p p' \<Longrightarrow> risks_ok (pl_cache p) \<Longrightarrow> risks_ok (pl_cache p')"
proof (induction rule: pipeline_step.induct)
  case (request md st rules ck scheduler prompt raw p r p')
  then show ?case using assess_risks_ok(1) by blast
next
  case (confirmation p a prompt v risk source b p' md st ck)
  have "risks_ok (pl_cache (p\<lparr>pl_scheduled := a @ b\<rparr>))" using confirmation(3) by simp
  then show ?case
    using confirmation_cache [of md st ck prompt v risk "p\<lparr>pl_scheduled := a @ b\<rparr>"] confirmation(2)
    by (auto simp: risk_levels_def intro!: add_risks_ok)
next
  case (flush p up)
  have "e \<in> backend_entries (exact_flush up b) \<Longrightarrow> e \<in> backend_entries b" for e b
    by (auto simp: exact_flush_def lx_flush_def rx_flush_def od_vals_def split: exact_backend.splits if_splits)
  then show ?case
    using flush flush_inv [of up "pl_cache p"]
    by (auto simp: risks_ok_def fc_flush_def rebuild_faiss_def od_vals_def Let_def)
qed

lemma reaches_risks_ok: "pipeline_reaches p p' \<Longrightarrow> risks_ok (pl_cache p) \<Longrightarrow> risks_ok (pl_cache p')"
  by (induction rule: rtranclp_induct) (auto intro: step_risks_ok)

lemma new_risks_ok: "backend_entries b = {} \<Longrightarrow> risks_ok (new_faiss_cache b)"
  by (simp add: risks_ok_def new_faiss_cache_def cache_inv_def od_vals_def)

text \<open>
  The vocabulary is closed.  From empty caches, after any requests, background
  confirmations and flushes in any order, every assessment has one of the three levels and a
  source the metrics know, so recording it under any decision label never counts an unknown
  source.
\<close>

theorem verdict_vocabulary_closed:
  assumes "pl_cache p0 = new_faiss_cache b" "backend_entries b = {}" "pipeline_reaches p0 p"
    and "assess_risk md st rules ck scheduler prompt raw p = (Inr r, p')"
  shows "ar_risk_level r \<in> {''LOW'', ''MEDIUM'', ''HIGH''} \<and>
    (\<forall>decision tenant s. UnknownSource s \<notin> set (record_assessment decision (ar_risk_level r) (to_dict r) tenant))"
proof -
  have "risks_ok (pl_cache p)" using reaches_risks_ok [OF assms(3)] new_risks_ok [OF assms(2)] assms(1) by simp
  from assess_risks_ok(2) [OF assms(4) this refl] show ?thesis
    by (auto simp: risk_levels_def record_assessment_def to_dict_source safe_source_def stage_event_def
        split: option.splits dval.splits if_splits bool.splits)
qed


section \<open>Witnesses\<close>

definition demo_models :: "nat models" where
  "demo_models =
     \<lparr>md_sha = id, md_embed = (\<lambda>p. length p), md_search = (\<lambda>vs v. (0, 0)), md_re_search = (\<lambda>pat t. False),
      md_normalize = id, md_meta_similarities = (\<lambda>v. [1 / 10, 1 / 5]), md_threat_similarity = (\<lambda>v. 3 / 5),
      md_educational_similarity = (\<lambda>v. 0), md_domain = (\<lambda>t. (True, 1)), md_centroid = (\<lambda>v. 0),
      md_artifact = NoArtifact, md_detect = (\<lambda>n t. DetUnavailable ''off''), md_judge_model = ''mistral'',
      md_json_loads = (\<lambda>t. Some (JDict [(''verdict'', JStr ''safe'')])), md_chat = (\<lambda>p. HttpRaises),
      md_generate = (\<lambda>p. HttpResp 200 (Some (JDict [(''response'', JStr ''v'')]))),
      md_guard_available = True, md_guard_classify = (\<lambda>p. Some ''unsafe''), md_domain_ms = 0, md_fusion_ms = 0\<rparr>"

definition demo_settings :: risk_settings where
  "demo_settings =
     \<lparr>rk_meta_intent_threshold = 3 / 4, rk_high = 9 / 10, rk_medium = 1 / 2, rk_educational = 3 / 5,
      rk_domain_mode = ''off'', rk_may_clear = True, rk_per_class = False, rk_cache_threshold = 99 / 100\<rparr>"

definition demo_rules :: symbolic_rules where
  "demo_rules = \<lparr>sr_jailbreak = Some [], sr_override = Some [], sr_hard_ban = Some [''napalm'']\<rparr>"

definition demo_pipeline :: "nat pipeline" where
  "demo_pipeline =
     \<lparr>pl_cache = new_faiss_cache (RedisExact []), pl_ollama = (new_breaker 3 30 False, \<lparr>sh_opened = None, sh_fails = None\<rparr>),
      pl_guard = (new_breaker 3 30 False, \<lparr>sh_opened = None, sh_fails = None\<rparr>), pl_fusion = new_fusion_state,
      pl_scheduled = []\<rparr>"

definition demo_clock :: "real \<Rightarrow> clock" where
  "demo_clock t = \<lparr>ck_now = t, ck_server = t, ck_cache_up = True, ck_redis_up = True\<rparr>"

lemma demo_backend: "backend_ok (fc_exact (pl_cache demo_pipeline))"
  by (simp add: demo_pipeline_def new_faiss_cache_def backend_ok_def)

lemma demo_stage0: "stage0 md st ck prompt demo_pipeline = (None, pl_cache demo_pipeline)"
  by (simp add: stage0_def fc_lookup_def demo_pipeline_def new_faiss_cache_def exact_get_def rx_get_def Let_def)

lemma demo_rules_run:
  "hard_ban_triggered demo_models demo_rules ''Hi'' = None"
  "hard_ban_triggered demo_models demo_rules ''NAPALM'' = Some ''HARD_BAN_DETECTED''"
proof -
  have "check_symbolic_violations (\<lambda>_ _. False) demo_rules ''Hi'' = None"
    "check_symbolic_violations (\<lambda>_ _. False) demo_rules ''NAPALM'' = Some ''HARD_BAN_DETECTED''"
    by code_simp+
  then show "hard_ban_triggered demo_models demo_rules ''Hi'' = None"
    "hard_ban_triggered demo_models demo_rules ''NAPALM'' = Some ''HARD_BAN_DETECTED''"
    by (simp_all add: hard_ban_triggered_def demo_models_def)
qed

lemma demo_judge:
  "ask_judge demo_models demo_settings (demo_clock 0) ''Hi'' False (pl_ollama demo_pipeline)
     = ((''LOW'', ''semantic_judge_override''), pl_ollama demo_pipeline)"
proof -
  have "json_reply (\<lambda>t. Some (JDict [(''verdict'', JStr ''safe'')])) (Some (JDict [(''response'', JStr ''v'')]))
      = Inr (Some ''SAFE'')" "\<not> uses_llama_guard_protocol ''mistral''"
    by code_simp+
  then show ?thesis
    by (simp add: ask_judge_def judge_arbitration_def semantic_judge_def is_open_def is_open_local_def
        record_success_def judge_decision_def demo_models_def demo_settings_def demo_clock_def demo_pipeline_def
        new_breaker_def Let_def)
qed

lemma demo_run:
  assumes "raw \<in> {None, Some ''Hi''}"
  shows "\<exists>r p'. assess_risk demo_models demo_settings demo_rules (demo_clock 0) True ''Hi'' raw demo_pipeline = (Inr r, p')
    \<and> ar_risk_level r = ''LOW'' \<and> ar_source r = ''semantic_judge_override'' \<and> pl_scheduled p' = [(''Hi'', 2, ''LOW'', ''semantic_judge_override'')]
    \<and> pl_ollama p' = pl_ollama demo_pipeline"
proof -
  let ?v = "md_embed demo_models ''Hi''"
  have fast: "fast_path_signals demo_models v = \<lparr>fs_meta_intent = 1 / 5, fs_threat = 3 / 5\<rparr>" for v
    by (simp add: fast_path_signals_def check_meta_intent_def demo_models_def)
  obtain f fu where fu: "fused_threat_score NoArtifact (\<lambda>n. DetUnavailable ''off'') False (3 / 5) new_fusion_state = (Inr f, fu)"
      "\<not> fr_available f"
    by (simp add: fused_threat_score_def policy_available_def load_policy_def new_fusion_state_def
        fusion_unavailable_def Let_def)
  obtain sg where sg: "collect_semantic_signals demo_models demo_settings ''Hi'' ?v \<lparr>fs_meta_intent = 1 / 5, fs_threat = 3 / 5\<rparr>
      new_fusion_state = (Inr sg, fu)" "sg_fusion sg = f" "sg_threat_score sg = 3 / 5" "sg_meta_intent_score sg = 1 / 5"
      "\<not> sg_is_educational sg"
    using fu(1)
    by (simp add: collect_semantic_signals_def demo_models_def demo_settings_def check_educational_context_def Let_def)
  have fs: "fuse_signals demo_settings sg = (''MEDIUM'', ''judge_pending'', True, classify_topicality sg)"
      "\<not> threat_present demo_settings sg"
    using sg fu(2)
    by (simp_all add: fuse_signals_def threat_present_def in_upper_ambiguous_band_def demo_settings_def Let_def)
  have j: "ask_judge demo_models demo_settings (demo_clock 0) ''Hi'' False (pl_ollama demo_pipeline)
     = ((''LOW'', ''semantic_judge_override''), pl_ollama demo_pipeline)" by (rule demo_judge)
  have "pl_fusion demo_pipeline = new_fusion_state" by (simp add: demo_pipeline_def)
  moreover have "?v = 2" "pl_scheduled demo_pipeline = []" by (simp_all add: demo_models_def demo_pipeline_def)
  moreover have "detector_text ''Hi'' raw = ''Hi''" using assms by (auto simp: detector_text_def)
  ultimately show ?thesis
    using sg(1) fs j demo_rules_run(1)
    by (simp add: assess_split demo_stage0 assess_uncached_def fast fast_path_decision_def
        deep_path_def arbitrate_def save_cache_entry_def demo_settings_def Let_def)
qed


theorem low_verdict_is_earned_witness:
  "\<exists>r p'. assess_risk demo_models demo_settings demo_rules (demo_clock 0) True ''Hi'' None demo_pipeline = (Inr r, p')
    \<and> ar_risk_level r = ''LOW'' \<and> hard_ban_triggered demo_models demo_rules ''Hi'' = None
    \<and> check_meta_intent demo_models (md_embed demo_models ''Hi'') < 3 / 4"
proof -
  obtain r p' where r: "assess_risk demo_models demo_settings demo_rules (demo_clock 0) True ''Hi'' None demo_pipeline = (Inr r, p')"
      "ar_risk_level r = ''LOW''" "ar_source r = ''semantic_judge_override''" using demo_run [OF insertI1] by blast
  have "is_fresh r" using r(3) by (simp add: is_fresh_def)
  from low_verdict_is_earned [OF r(1) this r(2)] r show ?thesis
    by (auto simp: Let_def detector_text_def demo_settings_def)
qed

text \<open>Another prompt is assessed in between.\<close>

theorem symbolic_veto_is_final_witness:
  "\<exists>p' r p''. assess_risk demo_models demo_settings demo_rules (demo_clock 0) True ''Hi'' (Some ''NAPALM'') demo_pipeline
      = (Inr (symbolic_result ''HARD_BAN_DETECTED''), p')
    \<and> assess_risk demo_models demo_settings demo_rules (demo_clock 30) True ''Ho'' None p' = (r, p'')
    \<and> fst (assess_risk demo_models demo_settings demo_rules (demo_clock 60) False ''Hi'' None p'') = Inr (cache_hit ''HIGH'' 1 True)"
proof -
  have "room (card ({''Ho''} - {md_sha demo_models ''Hi''})) (fc_exact (pl_cache demo_pipeline))"
    by (simp add: room_def demo_pipeline_def new_faiss_cache_def)
  then obtain p' where p': "assess_risk demo_models demo_settings demo_rules (demo_clock 0) True ''Hi'' (Some ''NAPALM'') demo_pipeline
      = (Inr (symbolic_result ''HARD_BAN_DETECTED''), p')"
    and later: "\<forall>p'' md' st' rules' ck' scheduler' raw'.
        later_requests (md_sha demo_models) (ck_now (demo_clock 0)) (ck_now (demo_clock 0) + cache_ttl_seconds) {''Ho''} p' p''
        \<and> md_sha md' = md_sha demo_models \<and> ck_cache_up ck' \<and> ck_now ck' < ck_now (demo_clock 0) + cache_ttl_seconds
        \<longrightarrow> fst (assess_risk md' st' rules' ck' scheduler' ''Hi'' raw' p'') = Inr (cache_hit ''HIGH'' 1 True)"
    using symbolic_veto_is_final [where md = demo_models and st = demo_settings and rules = demo_rules and ck = "demo_clock 0"
      and prompt = "''Hi''" and raw = "Some ''NAPALM''" and p = demo_pipeline and scheduler = True and H = "{''Ho''}" and detail = "''HARD_BAN_DETECTED''"]
      demo_stage0 demo_backend demo_rules_run(2) by (simp add: detector_text_def demo_clock_def) blast
  obtain r p'' where r: "assess_risk demo_models demo_settings demo_rules (demo_clock 30) True ''Ho'' None p' = (r, p'')" by fastforce
  have "later_requests (md_sha demo_models) (ck_now (demo_clock 0)) (ck_now (demo_clock 0) + cache_ttl_seconds) {''Ho''} p' p''"
    by (rule later_requests.one_more [OF later_requests.no_request _ _ _ _ r])
      (simp_all add: demo_models_def demo_clock_def cache_ttl_seconds_def)
  moreover have "ck_cache_up (demo_clock 60)" "ck_now (demo_clock 60) < ck_now (demo_clock 0) + cache_ttl_seconds"
    by (simp_all add: demo_clock_def cache_ttl_seconds_def)
  ultimately show ?thesis using p' r later by blast
qed

theorem cached_verdict_skips_veto_witness:
  "\<exists>r p' sc. assess_risk demo_models demo_settings demo_rules (demo_clock 0) True ''Hi'' None demo_pipeline = (Inr r, p')
    \<and> hard_ban_triggered demo_models demo_rules ''NAPALM'' = Some ''HARD_BAN_DETECTED''
    \<and> fst (assess_risk demo_models demo_settings demo_rules (demo_clock 60) True ''Hi'' (Some ''NAPALM'') p')
        = Inr (cache_hit ''LOW'' sc False)"
proof -
  obtain r p' where r: "assess_risk demo_models demo_settings demo_rules (demo_clock 0) True ''Hi'' None demo_pipeline = (Inr r, p')"
      "ar_risk_level r = ''LOW''" "ar_source r = ''semantic_judge_override''" using demo_run [OF insertI1] by blast
  have f: "is_fresh r" using r(3) by (simp add: is_fresh_def)
  have h: "hard_ban_triggered demo_models demo_rules (detector_text ''Hi'' (Some ''NAPALM'')) = Some ''HARD_BAN_DETECTED''"
    by (simp add: demo_rules_run detector_text_def)
  have "\<exists>sc. ar_semantic_score r = Some sc \<and> fst (assess_risk demo_models demo_settings demo_rules (demo_clock 60) True ''Hi''
      (Some ''NAPALM'') p') = Inr (cache_hit (ar_risk_level r) sc False)"
    by (rule cached_verdict_skips_veto [OF r(1) f demo_backend _ _ _ h])
      (use r(2) in \<open>simp_all add: demo_clock_def cache_ttl_seconds_def\<close>)
  then show ?thesis using r h by (auto simp: detector_text_def)
qed

theorem async_confirmation_only_escalates_witness:
  "let p' = llama_guard_async_confirmation demo_models demo_settings (demo_clock 0) ''Hi'' 2 ''LOW'' demo_pipeline
   in pl_cache p' \<noteq> pl_cache demo_pipeline
      \<and> fst (assess_risk demo_models demo_settings demo_rules (demo_clock 60) True ''Hi'' None p') = Inr (cache_hit ''HIGH'' 1 True)"
proof -
  let ?p' = "llama_guard_async_confirmation demo_models demo_settings (demo_clock 0) ''Hi'' 2 ''LOW'' demo_pipeline"
  have "\<exists>g. ask_guard demo_models demo_settings (demo_clock 0) ''Hi'' False (pl_guard demo_pipeline)
      = (Some (''HIGH'', ''llama_guard_arbitration''), g)"
    by (simp add: ask_guard_def llama_guard_arbitration_def is_open_def is_open_local_def demo_models_def demo_clock_def
        demo_pipeline_def new_breaker_def Let_def)
  then have "fc_index (pl_cache ?p') \<noteq> None"
    by (auto simp: llama_guard_async_confirmation_def save_cache_entry_def fc_add_def rebuild_faiss_def Let_def)
  moreover have "fc_index (pl_cache demo_pipeline) = None" by (simp add: demo_pipeline_def new_faiss_cache_def)
  ultimately have ne: "pl_cache ?p' \<noteq> pl_cache demo_pipeline" by auto
  have "pl_cache ?p' = pl_cache demo_pipeline \<or>
    md_guard_classify demo_models ''Hi'' = Some ''unsafe'' \<and> ''LOW'' \<noteq> ''HIGH''
    \<and> fst (assess_risk demo_models demo_settings demo_rules (demo_clock 60) True ''Hi'' None ?p') = Inr (cache_hit ''HIGH'' 1 True)"
    by (rule async_confirmation_only_escalates [OF refl demo_backend])
      (simp_all add: demo_clock_def cache_ttl_seconds_def)
  then show ?thesis using ne by (simp add: Let_def)
qed

theorem verdict_vocabulary_closed_witness:
  "\<exists>r p'. assess_risk demo_models demo_settings demo_rules (demo_clock 0) True ''Hi'' None demo_pipeline = (Inr r, p')
    \<and> ar_risk_level r \<in> {''LOW'', ''MEDIUM'', ''HIGH''}
    \<and> (\<forall>s. UnknownSource s \<notin> set (record_assessment ''ALLOW'' (ar_risk_level r) (to_dict r) ''acme''))"
proof -
  obtain r p' where r: "assess_risk demo_models demo_settings demo_rules (demo_clock 0) True ''Hi'' None demo_pipeline = (Inr r, p')"
    using demo_run [OF insertI1] by blast
  have "pl_cache demo_pipeline = new_faiss_cache (RedisExact [])" "backend_entries (RedisExact []) = {}"
    by (simp_all add: demo_pipeline_def)
  from verdict_vocabulary_closed [OF this rtranclp.rtrancl_refl r] r show ?thesis by blast
qed

end
