(* ===== verification/Policy.thy ===== *)
theory Policy
  imports Entry_Store
begin

text \<open>
  Policy, \<open>core/policy.py\<close>: the store of per-tenant capability/risk/action tables, its load
  from the policy file, the decision for a request and the validator an operator runs before
  a deployment.

  \<open>json_load\<close> and \<open>yaml_load\<close> stand for the two parsers (\<open>None\<close> when one raises); a YAML
  document is taken with string keys.  \<open>get\<close> gives \<open>None\<close> for the \<open>FAIL_SAFE\<close> sentinel,
  which the code compares by identity.
\<close>

section \<open>Definitions from the code\<close>

definition valid_actions :: "string list" where
  "valid_actions = [''BLOCK'', ''RESTRICT'', ''ALLOW'', ''REVIEW'']"

definition valid_actions_repr :: string where
  "valid_actions_repr = ''('' @ repr_str ''BLOCK'' @ '', '' @ repr_str ''RESTRICT'' @ '', ''
     @ repr_str ''ALLOW'' @ '', '' @ repr_str ''REVIEW'' @ '')''"

definition parse_policy_file ::
  "(string \<Rightarrow> json option) \<Rightarrow> (string \<Rightarrow> json option) \<Rightarrow> string \<Rightarrow> string \<Rightarrow> json option" where
  "parse_policy_file json_load yaml_load path text =
     (if str_lower (splitext_ext path) \<in> {''.yaml'', ''.yml''} then yaml_load text else json_load text)"

definition policy_doc ::
  "(string \<Rightarrow> json option) \<Rightarrow> (string \<Rightarrow> json option) \<Rightarrow> string \<Rightarrow> string option \<Rightarrow> disk_doc" where
  "policy_doc json_load yaml_load path contents =
     (case contents of
        None \<Rightarrow> Missing
      | Some text \<Rightarrow> (case parse_policy_file json_load yaml_load path text of
                        None \<Rightarrow> Unreadable | Some j \<Rightarrow> Doc j))"

record policy_set =
  pol_tenant_id :: string
  pol_policies :: "(string, (string, string) odict) odict"

record policy_store =
  ps_tenants :: "(string, policy_set) odict"
  ps_default_action :: string
  ps_usable :: bool
  ps_loaded :: bool

definition new_policy_store :: policy_store where
  "new_policy_store = \<lparr>ps_tenants = [], ps_default_action = ''BLOCK'', ps_usable = False, ps_loaded = False\<rparr>"

definition clean_action :: "json \<Rightarrow> string option" where
  "clean_action action =
     (let u = str_upper (py_str action) in if u \<in> set valid_actions then Some u else None)"

fun clean_risk_map :: "(string, string) odict \<Rightarrow> (string \<times> json) list \<Rightarrow> (string, string) odict" where
  "clean_risk_map cleaned [] = cleaned"
| "clean_risk_map cleaned ((risk_level, action) # rest) =
     clean_risk_map (case clean_action action of
                       None \<Rightarrow> cleaned
                     | Some a \<Rightarrow> od_set risk_level a cleaned) rest"

definition clean_capability :: "json \<Rightarrow> (string, string) odict option" where
  "clean_capability risk_map =
     (case risk_map of
        JDict items \<Rightarrow> (let m = clean_risk_map [] items in if m = [] then None else Some m)
      | _ \<Rightarrow> None)"

fun clean_policies ::
  "(string, (string, string) odict) odict \<Rightarrow> (string \<times> json) list \<Rightarrow> (string, (string, string) odict) odict" where
  "clean_policies cleaned [] = cleaned"
| "clean_policies cleaned ((capability, risk_map) # rest) =
     clean_policies (case clean_capability risk_map of
                       None \<Rightarrow> cleaned
                     | Some m \<Rightarrow> od_set capability m cleaned) rest"

definition parse_tenant_entry :: "string \<Rightarrow> json \<Rightarrow> policy_set option" where
  "parse_tenant_entry tenant_id entry =
     (if \<not> is_dict entry then None
      else case jget entry ''policies'' of
             Some (JDict raw) \<Rightarrow>
               if raw = [] then None
               else let cleaned = clean_policies [] raw in
                 if cleaned = [] then None
                 else Some \<lparr>pol_tenant_id = tenant_id, pol_policies = cleaned\<rparr>
           | _ \<Rightarrow> None)"

fun load_policy_tenants :: "(string, policy_set) odict \<Rightarrow> (string \<times> json) list \<Rightarrow> (string, policy_set) odict" where
  "load_policy_tenants tenants [] = tenants"
| "load_policy_tenants tenants ((tenant_id, entry) # rest) =
     load_policy_tenants (case parse_tenant_entry tenant_id entry of
                            None \<Rightarrow> tenants
                          | Some p \<Rightarrow> od_set tenant_id p tenants) rest"

definition read_default_action :: "json \<Rightarrow> string" where
  "read_default_action raw =
     (let a = str_upper (py_str (jget_or raw ''default_action'' (JStr ''BLOCK'')))
      in if a \<in> set valid_actions then a else ''BLOCK'')"

definition ps_load :: "bool \<Rightarrow> disk_doc \<Rightarrow> policy_store \<Rightarrow> policy_store" where
  "ps_load force disk ps =
     (if ps_loaded ps \<and> \<not> force then ps
      else let ps0 = ps\<lparr>ps_tenants := [], ps_usable := False, ps_loaded := True\<rparr> in
        case disk of
          Doc raw \<Rightarrow>
            if \<not> is_dict raw \<or> jget raw ''tenants'' = None then ps0
            else let ps1 = ps0\<lparr>ps_default_action := read_default_action raw\<rparr> in
              (case jget raw ''tenants'' of
                 Some (JDict items) \<Rightarrow>
                   (let ps2 = ps1\<lparr>ps_tenants := load_policy_tenants [] items\<rparr>
                    in if od_get (ps_tenants ps2) ''default'' = None then ps2
                       else ps2\<lparr>ps_usable := True\<rparr>)
               | _ \<Rightarrow> ps1)
        | _ \<Rightarrow> ps0)"

definition ps_get :: "disk_doc \<Rightarrow> string \<Rightarrow> policy_store \<Rightarrow> policy_set option \<times> policy_store" where
  "ps_get disk tenant_id ps =
     (let ps' = ps_load False disk ps in
      if \<not> ps_usable ps' then (None, ps')
      else (case od_get (ps_tenants ps') tenant_id of
              Some p \<Rightarrow> Some p
            | None \<Rightarrow> od_get (ps_tenants ps') ''default'', ps'))"

definition get_default_action :: "disk_doc \<Rightarrow> policy_store \<Rightarrow> string \<times> policy_store" where
  "get_default_action disk ps = (let ps' = ps_load False disk ps in (ps_default_action ps', ps'))"

definition ps_len :: "disk_doc \<Rightarrow> policy_store \<Rightarrow> nat \<times> policy_store" where
  "ps_len disk ps = (let ps' = ps_load False disk ps in (length (ps_tenants ps'), ps'))"

definition reload_policies :: "disk_doc \<Rightarrow> policy_store \<Rightarrow> policy_store" where
  "reload_policies disk ps = ps_load True disk ps"

definition policy_decision ::
  "disk_doc \<Rightarrow> string \<Rightarrow> string \<Rightarrow> string \<Rightarrow> policy_store \<Rightarrow> (string \<times> string) \<times> policy_store" where
  "policy_decision disk capability risk tenant_id ps =
     (let (pset, ps') = ps_get disk tenant_id ps in
      case pset of
        None \<Rightarrow> ((''BLOCK'', ''System Error: Policies not loaded''), ps')
      | Some p \<Rightarrow>
          (let resolved = pol_tenant_id p;
               tenant_note = (if resolved = tenant_id then resolved
                              else tenant_id @ '' -> '' @ resolved @ '' (fallback)'')
           in case od_get (pol_policies p) capability of
                Some (e # m) \<Rightarrow>
                  ((case od_get (e # m) risk of Some a \<Rightarrow> a | None \<Rightarrow> ps_default_action ps',
                    ''Policy applied for '' @ capability @ '' (Risk: '' @ risk @ '', Tenant: '' @ tenant_note @ '')''), ps')
              | _ \<Rightarrow>
                  ((ps_default_action ps',
                    ''Role '' @ [CHR 0x27] @ capability @ [CHR 0x27] @ '' not defined for tenant ''
                    @ [CHR 0x27] @ tenant_note @ [CHR 0x27]), ps')))"

section \<open>The validator\<close>

definition action_error :: "string \<Rightarrow> string \<times> json \<Rightarrow> string list" where
  "action_error cap_prefix ra =
     (let (risk_level, action) = ra in
      if str_upper (py_str action) \<notin> set valid_actions
      then [cap_prefix @ ''.'' @ risk_level @ '': action '' @ py_repr action @ '' is not one of ''
            @ valid_actions_repr @ ''.'']
      else [])"

definition capability_errors :: "string \<Rightarrow> string \<times> json \<Rightarrow> string list" where
  "capability_errors prefix cr =
     (let (capability, risk_map) = cr; cap_prefix = prefix @ ''.policies.'' @ capability in
      case risk_map of
        JDict (e # items) \<Rightarrow> concat (map (action_error cap_prefix) (e # items))
      | _ \<Rightarrow> [cap_prefix @ '': missing, empty, or not an object.''])"

definition tenant_errors :: "string \<times> json \<Rightarrow> string list" where
  "tenant_errors te =
     (let (tenant_id, entry) = te; prefix = ''tenants.'' @ tenant_id in
      if \<not> is_dict entry then [prefix @ '': must be an object, got '' @ type_name entry @ ''.'']
      else case jget entry ''policies'' of
             Some (JDict (e # policies)) \<Rightarrow> concat (map (capability_errors prefix) (e # policies))
           | _ \<Rightarrow> [prefix @ ''.policies: missing, empty, or not an object.''])"

text \<open>\<open>exn\<close> is the text of the parser's exception.\<close>

definition validate_policy_file :: "string \<Rightarrow> string \<Rightarrow> disk_doc \<Rightarrow> string list" where
  "validate_policy_file path exn disk =
     (case disk of
        Missing \<Rightarrow> [''File not found: '' @ path]
      | Unreadable \<Rightarrow> [''File is not valid YAML/JSON: '' @ exn]
      | Doc raw \<Rightarrow>
          if \<not> is_dict raw then [''Top level must be an object/mapping.'']
          else case jget raw ''tenants'' of
            None \<Rightarrow> [''Missing required top-level key: '' @ repr_str ''tenants'' @ ''.'']
          | Some tenants \<Rightarrow>
              (let da = jget_or raw ''default_action'' (JStr ''BLOCK'');
                   errors = (if str_upper (py_str da) \<notin> set valid_actions
                     then [''default_action '' @ py_repr (jget_or raw ''default_action'' JNull)
                           @ '' is not one of '' @ valid_actions_repr @ ''.'']
                     else [])
               in case tenants of
                    JDict items \<Rightarrow>
                      errors
                      @ (if ''default'' \<notin> set (map fst items)
                         then [''Missing required tenant: '' @ repr_str ''default'' @ ''.''] else [])
                      @ concat (map tenant_errors items)
                  | _ \<Rightarrow> errors @ [repr_str ''tenants'' @ '' must be an object/mapping of tenant_id -> policy.'']))"

section \<open>The three levels as entry stores\<close>

lemma clean_risk_map_append: "clean_risk_map acc (xs @ ys) = clean_risk_map (clean_risk_map acc xs) ys"
  by (induction acc xs rule: clean_risk_map.induct) (auto split: option.splits)

lemma clean_policies_append: "clean_policies acc (xs @ ys) = clean_policies (clean_policies acc xs) ys"
  by (induction acc xs rule: clean_policies.induct) (auto split: option.splits)

lemma load_policy_tenants_append:
  "load_policy_tenants acc (xs @ ys) = load_policy_tenants (load_policy_tenants acc xs) ys"
  by (induction acc xs rule: load_policy_tenants.induct) (auto split: option.splits)

interpretation risk_entries: entry_store "\<lambda>k. k" "\<lambda>k j. Inr (clean_action j)"
  "\<lambda>items. (None, clean_risk_map [] items)"
  by unfold_locales (auto simp: clean_risk_map_append split: option.splits)

interpretation capability_entries: entry_store "\<lambda>k. k" "\<lambda>k j. Inr (clean_capability j)"
  "\<lambda>items. (None, clean_policies [] items)"
  by unfold_locales (auto simp: clean_policies_append split: option.splits)

interpretation policy_entries: entry_store "\<lambda>k. k" "\<lambda>k j. Inr (parse_tenant_entry k j)"
  "\<lambda>items. (None, load_policy_tenants [] items)"
  by unfold_locales (auto simp: load_policy_tenants_append split: option.splits)

lemma all_behave [simp]:
  "risk_entries.well_behaved items" "capability_entries.well_behaved items" "policy_entries.well_behaved items"
  by (auto simp: risk_entries.well_behaved_def capability_entries.well_behaved_def policy_entries.well_behaved_def)

lemma risk_lookup:
  "distinct (map fst items) \<Longrightarrow> od_get (clean_risk_map [] items) x = Option.bind (map_of items x) clean_action"
  using risk_entries.dict_lookup [OF refl, of items x] by (auto split: option.splits)

lemma capability_lookup:
  "distinct (map fst items) \<Longrightarrow> od_get (clean_policies [] items) x = Option.bind (map_of items x) clean_capability"
  using capability_entries.dict_lookup [OF refl, of items x] by (auto split: option.splits)

lemma tenant_lookup:
  "distinct (map fst items) \<Longrightarrow>
   od_get (load_policy_tenants [] items) x = Option.bind (map_of items x) (parse_tenant_entry x)"
  using policy_entries.dict_lookup [OF refl, of items x] by (auto split: option.splits)

lemma risk_source:
  "od_get (clean_risk_map [] items) x = Some a \<Longrightarrow> \<exists>j. (x, j) \<in> set items \<and> clean_action j = Some a"
  using risk_entries.entry_source [of items x a] by auto

lemma capability_source:
  "od_get (clean_policies [] items) x = Some m \<Longrightarrow> \<exists>j. (x, j) \<in> set items \<and> clean_capability j = Some m"
  using capability_entries.entry_source [of items x m] by auto

lemma tenant_source:
  "od_get (load_policy_tenants [] items) x = Some p \<Longrightarrow> \<exists>j. (x, j) \<in> set items \<and> parse_tenant_entry x j = Some p"
  using policy_entries.entry_source [of items x p] by auto

lemma present_iff:
  "od_get (load_policy_tenants [] items) x \<noteq> None \<longleftrightarrow> (\<exists>j. (x, j) \<in> set items \<and> parse_tenant_entry x j \<noteq> None)"
proof
  assume "od_get (load_policy_tenants [] items) x \<noteq> None"
  then show "\<exists>j. (x, j) \<in> set items \<and> parse_tenant_entry x j \<noteq> None"
    using tenant_source by fastforce
next
  assume "\<exists>j. (x, j) \<in> set items \<and> parse_tenant_entry x j \<noteq> None"
  then obtain j p where "(x, j) \<in> set items" "parse_tenant_entry x j = Some p" by auto
  then show "od_get (load_policy_tenants [] items) x \<noteq> None"
    using policy_entries.entry_present [of items x j p] by simp
qed

section \<open>What a decision reads\<close>

lemma reloaded:
  "ps_load False d (reload_policies disk ps) = reload_policies disk ps"
  by (auto simp: reload_policies_def ps_load_def Let_def split: disk_doc.split option.split json.split)

lemma usable_iff:
  "ps_usable (reload_policies disk ps) \<longleftrightarrow>
     (\<exists>raw items. disk = Doc (JDict raw) \<and> map_of raw ''tenants'' = Some (JDict items)
        \<and> (\<exists>j. (''default'', j) \<in> set items \<and> parse_tenant_entry ''default'' j \<noteq> None))"
proof (cases "\<exists>raw items. disk = Doc (JDict raw) \<and> map_of raw ''tenants'' = Some (JDict items)")
  case True
  then obtain raw items where r: "disk = Doc (JDict raw)" "map_of raw ''tenants'' = Some (JDict items)" by blast
  then have "ps_usable (reload_policies disk ps) \<longleftrightarrow> od_get (load_policy_tenants [] items) ''default'' \<noteq> None"
    by (simp add: reload_policies_def ps_load_def Let_def)
  then show ?thesis using r present_iff [of items "''default''"] by simp
next
  case False
  then show ?thesis
    by (auto simp: reload_policies_def ps_load_def Let_def is_dict_iff split: disk_doc.split option.split json.split)
qed

lemma reload_dict:
  assumes "map_of raw ''tenants'' = Some (JDict items)"
  shows "ps_tenants (reload_policies (Doc (JDict raw)) ps) = load_policy_tenants [] items"
    "ps_default_action (reload_policies (Doc (JDict raw)) ps) = read_default_action (JDict raw)"
  using assms by (simp_all add: reload_policies_def ps_load_def Let_def)

lemma clean_action_Some: "clean_action j = Some a \<longleftrightarrow> a = str_upper (py_str j) \<and> a \<in> set valid_actions"
  by (auto simp: clean_action_def Let_def)

lemma clean_capability_Some:
  "clean_capability j = Some m \<longleftrightarrow> (\<exists>items. j = JDict items \<and> m = clean_risk_map [] items \<and> m \<noteq> [])"
  by (cases j) (auto simp: clean_capability_def Let_def)

lemma parse_tenant_entry_Some:
  "parse_tenant_entry t j = Some p \<longleftrightarrow>
     (\<exists>d raw. j = JDict d \<and> map_of d ''policies'' = Some (JDict raw) \<and> clean_policies [] raw \<noteq> []
        \<and> p = \<lparr>pol_tenant_id = t, pol_policies = clean_policies [] raw\<rparr>)"
  by (auto simp: parse_tenant_entry_def is_dict_iff Let_def split: option.split json.split)

definition reloaded_decision :: "disk_doc \<Rightarrow> policy_store \<Rightarrow> string \<Rightarrow> string \<Rightarrow> string \<Rightarrow> string" where
  "reloaded_decision disk ps capability risk tenant =
     fst (fst (policy_decision disk capability risk tenant (reload_policies disk ps)))"

lemma decision_cases:
  "fst (policy_decision d capability risk t (reload_policies disk ps)) =
     (let ps' = reload_policies disk ps in
      if \<not> ps_usable ps' then (''BLOCK'', ''System Error: Policies not loaded'')
      else case (case od_get (ps_tenants ps') t of Some p \<Rightarrow> Some p | None \<Rightarrow> od_get (ps_tenants ps') ''default'') of
             None \<Rightarrow> (''BLOCK'', ''System Error: Policies not loaded'')
           | Some p \<Rightarrow>
              (let tenant_note = (if pol_tenant_id p = t then pol_tenant_id p
                              else t @ '' -> '' @ pol_tenant_id p @ '' (fallback)'')
               in case od_get (pol_policies p) capability of
                Some (e # m) \<Rightarrow>
                  (case od_get (e # m) risk of Some a \<Rightarrow> a | None \<Rightarrow> ps_default_action ps',
                    ''Policy applied for '' @ capability @ '' (Risk: '' @ risk @ '', Tenant: '' @ tenant_note @ '')'')
              | _ \<Rightarrow>
                  (ps_default_action ps',
                    ''Role '' @ [CHR 0x27] @ capability @ [CHR 0x27] @ '' not defined for tenant ''
                    @ [CHR 0x27] @ tenant_note @ [CHR 0x27])))"
  by (auto simp: policy_decision_def ps_get_def reloaded Let_def split: option.split list.split)

lemma decision_action:
  "ps_usable (reload_policies disk ps) \<Longrightarrow>
   fst (fst (policy_decision d capability risk t (reload_policies disk ps))) =
     (case (case od_get (ps_tenants (reload_policies disk ps)) t of Some p \<Rightarrow> Some p
            | None \<Rightarrow> od_get (ps_tenants (reload_policies disk ps)) ''default'') of
        None \<Rightarrow> ''BLOCK''
      | Some p \<Rightarrow> (case od_get (pol_policies p) capability of
            Some (e # m) \<Rightarrow> (case od_get (e # m) risk of Some a \<Rightarrow> a
                             | None \<Rightarrow> ps_default_action (reload_policies disk ps))
          | _ \<Rightarrow> ps_default_action (reload_policies disk ps)))"
  unfolding decision_cases Let_def by (simp split: option.split list.split)

lemma decision_unusable:
  "\<not> ps_usable (reload_policies disk ps) \<Longrightarrow>
   fst (fst (policy_decision d capability risk t (reload_policies disk ps))) = ''BLOCK''"
  by (simp add: decision_cases)

text \<open>
  The action a valid policy document states for a request: the entry of the tenant (of
  "default" when it has none), its capability, its risk level, else the default action.
\<close>

definition written_action ::
  "(string \<times> json) list \<Rightarrow> (string \<times> json) list \<Rightarrow> string \<Rightarrow> string \<Rightarrow> string \<Rightarrow> string" where
  "written_action raw items t capability risk =
     (let default_action = str_upper (py_str (jget_or (JDict raw) ''default_action'' (JStr ''BLOCK'')));
          entry = (case map_of items t of Some e \<Rightarrow> e | None \<Rightarrow> jget_or (JDict items) ''default'' JNull);
          policies = jget_or entry ''policies'' JNull
      in case jget policies capability of
           None \<Rightarrow> default_action
         | Some risk_map \<Rightarrow> (case jget risk_map risk of
               None \<Rightarrow> default_action
             | Some action \<Rightarrow> str_upper (py_str action)))"

lemma concat_map_Nil: "concat (map f xs) = [] \<longleftrightarrow> (\<forall>x \<in> set xs. f x = [])"
  by (induction xs) auto

lemma capability_ok:
  assumes "capability_errors prefix (c, rm) = []" "json_wf rm"
  shows "\<exists>items m. rm = JDict items \<and> clean_capability rm = Some m
           \<and> (\<forall>r. od_get m r = map_option (\<lambda>a. str_upper (py_str a)) (map_of items r))"
proof -
  obtain e items0 where rm: "rm = JDict (e # items0)"
    using assms(1) by (auto simp: capability_errors_def Let_def split: json.splits list.splits)
  let ?items = "e # items0"
  have ok: "\<forall>(r, a) \<in> set ?items. str_upper (py_str a) \<in> set valid_actions"
    using assms(1) unfolding rm capability_errors_def Let_def
    by (simp del: set_simps list.set concat.simps list.map add: concat_map_Nil)
      (auto simp: action_error_def split: if_splits)
  have g: "od_get (clean_risk_map [] ?items) r = map_option (\<lambda>a. str_upper (py_str a)) (map_of ?items r)" for r
  proof (cases "map_of ?items r")
    case None
    then show ?thesis using risk_lookup [of ?items r] assms(2) rm by simp
  next
    case (Some a)
    then have "str_upper (py_str a) \<in> set valid_actions" using ok map_of_SomeD by fast
    then show ?thesis using risk_lookup [of ?items r] assms(2) rm Some by (simp add: clean_action_def)
  qed
  have "od_get (clean_risk_map [] ?items) (fst e) \<noteq> None" using g [of "fst e"] by (cases e) simp
  then have "clean_risk_map [] ?items \<noteq> []" by (metis od_get_Nil)
  then show ?thesis using g rm clean_capability_Some by blast
qed

lemma tenant_ok:
  assumes "tenant_errors (t, entry) = []" "json_wf entry"
  shows "\<exists>p. parse_tenant_entry t entry = Some p \<and> pol_tenant_id p = t \<and>
     (\<forall>c. case jget (jget_or entry ''policies'' JNull) c of
            None \<Rightarrow> od_get (pol_policies p) c = None
          | Some rm \<Rightarrow> (\<exists>items m. rm = JDict items \<and> od_get (pol_policies p) c = Some m \<and> m \<noteq> []
              \<and> (\<forall>r. od_get m r = map_option (\<lambda>a. str_upper (py_str a)) (map_of items r))))"
proof -
  obtain d e pol0 where d: "entry = JDict d" "map_of d ''policies'' = Some (JDict (e # pol0))"
    using assms(1) by (auto simp: tenant_errors_def is_dict_iff Let_def split: if_splits option.splits json.splits list.splits)
  let ?pol = "e # pol0"
  have wf: "json_wf (JDict ?pol)" using json_wf_item [OF _ d(2)] assms(2) d(1) by blast
  have ok: "\<forall>x \<in> set ?pol. capability_errors (''tenants.'' @ t) x = []"
    using assms(1) d by (simp add: tenant_errors_def Let_def concat_map_Nil)
  have g: "case map_of ?pol c of
            None \<Rightarrow> od_get (clean_policies [] ?pol) c = None
          | Some rm \<Rightarrow> (\<exists>items m. rm = JDict items \<and> od_get (clean_policies [] ?pol) c = Some m \<and> m \<noteq> []
              \<and> (\<forall>r. od_get m r = map_option (\<lambda>a. str_upper (py_str a)) (map_of items r)))" for c
  proof (cases "map_of ?pol c")
    case None
    then show ?thesis using capability_lookup [OF json_wf_distinct [OF wf], of c] by simp
  next
    case (Some rm)
    have "capability_errors (''tenants.'' @ t) (c, rm) = []" using ok map_of_SomeD [OF Some] by blast
    from capability_ok [OF this json_wf_item [OF wf Some]]
    obtain items m where m: "rm = JDict items" "clean_capability rm = Some m"
        "\<forall>r. od_get m r = map_option (\<lambda>a. str_upper (py_str a)) (map_of items r)" by blast
    then have "m \<noteq> []" using clean_capability_Some by metis
    then show ?thesis using capability_lookup [OF json_wf_distinct [OF wf], of c] Some m by simp
  qed
  have "od_get (clean_policies [] ?pol) (fst e) \<noteq> None" using g [of "fst e"] by (cases e) auto
  then have "clean_policies [] ?pol \<noteq> []" by (metis od_get_Nil)
  then have "parse_tenant_entry t entry = Some \<lparr>pol_tenant_id = t, pol_policies = clean_policies [] ?pol\<rparr>"
    using d parse_tenant_entry_Some by blast
  moreover have "jget (jget_or entry ''policies'' JNull) c = map_of ?pol c" for c
    using d by (simp add: jget_or_def)
  ultimately show ?thesis using g
    by (intro exI [of _ "\<lparr>pol_tenant_id = t, pol_policies = clean_policies [] ?pol\<rparr>"]) (simp only: policy_set.simps simp_thms)
qed

section \<open>Properties\<close>

text \<open>
  C18. The policy layer fails safe, and only then: after a (re)load, every request, whatever
  its capability, risk and tenant, is blocked with the system-error reason if the file is
  missing, unreadable, not an object of tenants, or has no usable "default" tenant; otherwise
  no request is.
\<close>

theorem policy_fails_safe:
  "fst (policy_decision d capability risk t (reload_policies disk ps))
      = (''BLOCK'', ''System Error: Policies not loaded'')
   \<longleftrightarrow> \<not> (\<exists>raw items j. disk = Doc (JDict raw) \<and> map_of raw ''tenants'' = Some (JDict items)
          \<and> (''default'', j) \<in> set items \<and> parse_tenant_entry ''default'' j \<noteq> None)"
proof (cases "ps_usable (reload_policies disk ps)")
  case False
  then have "fst (policy_decision d capability risk t (reload_policies disk ps))
      = (''BLOCK'', ''System Error: Policies not loaded'')"
    by (simp add: decision_cases)
  moreover have "\<not> (\<exists>raw items j. disk = Doc (JDict raw) \<and> map_of raw ''tenants'' = Some (JDict items)
          \<and> (''default'', j) \<in> set items \<and> parse_tenant_entry ''default'' j \<noteq> None)"
    using False usable_iff by blast
  ultimately show ?thesis by blast
next
  case True
  then obtain raw items j where u: "disk = Doc (JDict raw)" "map_of raw ''tenants'' = Some (JDict items)"
      "(''default'', j) \<in> set items" "parse_tenant_entry ''default'' j \<noteq> None"
    using usable_iff by blast
  then have "od_get (load_policy_tenants [] items) ''default'' \<noteq> None" using present_iff by blast
  then have "fst (policy_decision d capability risk t (reload_policies disk ps))
      \<noteq> (''BLOCK'', ''System Error: Policies not loaded'')"
    using True by (auto simp: decision_cases u reload_dict [OF u(2)] Let_def split: option.splits list.splits)
  then show ?thesis using u by blast
qed

text \<open>A document without errors is enforced as written.\<close>

lemma validated_policy_facts:
  assumes "validate_policy_file path exn (Doc (JDict raw)) = []" "json_wf (JDict raw)"
  shows "\<exists>items. map_of raw ''tenants'' = Some (JDict items) \<and>
     (\<forall>t capability risk.
        fst (fst (policy_decision d capability risk t (reload_policies (Doc (JDict raw)) ps)))
          = written_action raw items t capability risk)"
proof -
  let ?da = "str_upper (py_str (jget_or (JDict raw) ''default_action'' (JStr ''BLOCK'')))"
  obtain items where items: "map_of raw ''tenants'' = Some (JDict items)"
      "?da \<in> set valid_actions" "''default'' \<in> set (map fst items)"
      "\<forall>x \<in> set items. tenant_errors x = []"
    using assms(1)
    by (auto simp: validate_policy_file_def Let_def concat_map_Nil split: option.splits json.splits if_splits)
  have wf: "json_wf (JDict items)" using json_wf_item [OF assms(2) items(1)] .
  have dist: "distinct (map fst items)" using wf by simp
  have ok: "\<exists>p. parse_tenant_entry t e = Some p \<and> pol_tenant_id p = t \<and>
     (\<forall>c. case jget (jget_or e ''policies'' JNull) c of
            None \<Rightarrow> od_get (pol_policies p) c = None
          | Some rm \<Rightarrow> (\<exists>items m. rm = JDict items \<and> od_get (pol_policies p) c = Some m \<and> m \<noteq> []
              \<and> (\<forall>r. od_get m r = map_option (\<lambda>a. str_upper (py_str a)) (map_of items r))))"
    if "map_of items t = Some e" for t e
    using tenant_ok [of t e] items(4) map_of_SomeD [OF that] json_wf_item [OF wf that] by blast
  have default_in: "\<exists>e. map_of items ''default'' = Some e"
    using items(3) by (metis map_of_eq_None_iff option.exhaust set_map)
  have da: "read_default_action (JDict raw) = ?da"
    using items(2) by (simp add: read_default_action_def Let_def)
  have "fst (fst (policy_decision d c r t (reload_policies (Doc (JDict raw)) ps))) = written_action raw items t c r" for t c r
  proof -
    let ?t = "if map_of items t = None then ''default'' else t"
    have "\<exists>e. map_of items ?t = Some e" using default_in by (cases "map_of items t") auto
    then obtain e where e: "map_of items ?t = Some e" ..
    obtain p where p: "parse_tenant_entry ?t e = Some p"
      "\<And>c. case jget (jget_or e ''policies'' JNull) c of
            None \<Rightarrow> od_get (pol_policies p) c = None
          | Some rm \<Rightarrow> (\<exists>items m. rm = JDict items \<and> od_get (pol_policies p) c = Some m \<and> m \<noteq> []
              \<and> (\<forall>r. od_get m r = map_option (\<lambda>a. str_upper (py_str a)) (map_of items r)))"
      using ok [OF e] by blast
    have us: "ps_usable (reload_policies (Doc (JDict raw)) ps)"
      using usable_iff [of "Doc (JDict raw)" ps] items(1) default_in ok map_of_SomeD by fastforce
    have sel: "(case od_get (load_policy_tenants [] items) t of Some p \<Rightarrow> Some p
                | None \<Rightarrow> od_get (load_policy_tenants [] items) ''default'') = Some p"
      using tenant_lookup [OF dist] e p(1) by (auto split: option.splits if_splits)
    have w: "written_action raw items t c r =
       (case jget (jget_or e ''policies'' JNull) c of
           None \<Rightarrow> ?da
         | Some risk_map \<Rightarrow> (case jget risk_map r of
               None \<Rightarrow> ?da | Some action \<Rightarrow> str_upper (py_str action)))"
      using e by (auto simp: written_action_def Let_def jget_or_def split: option.splits if_splits)
    show ?thesis
      unfolding w decision_action [OF us] reload_dict [OF items(1)] sel da
      using p(2) [of c] by (auto simp: neq_Nil_conv split: option.splits)
  qed
  then show ?thesis using items(1) by blast
qed

text \<open>
  C13. What the validator accepts is what the gateway enforces: if \<open>validate_policy_file\<close>
  reports nothing for a document, then after loading it every decision is exactly the action
  the document states, letter case apart, with no entry dropped on the way.
\<close>

theorem validated_policy_is_enforced:
  assumes "validate_policy_file path exn (Doc (JDict raw)) = []" "json_wf (JDict raw)"
  shows "\<exists>items. map_of raw ''tenants'' = Some (JDict items) \<and>
     (\<forall>t capability risk.
        fst (fst (policy_decision d capability risk t (reload_policies (Doc (JDict raw)) ps)))
          = written_action raw items t capability risk)"
  using validated_policy_facts [OF assms] .

theorem validated_policy_is_enforced_witness:
  "let raw = [(''default_action'', JStr ''block''),
              (''tenants'', JDict [(''default'', JDict [(''policies'', JDict
                 [(''GENERAL'', JDict [(''HIGH'', JStr ''block''), (''MEDIUM'', JStr ''Review'')])])])])]
   in fst (fst (policy_decision Missing ''GENERAL'' ''MEDIUM'' ''acme'' (reload_policies (Doc (JDict raw)) new_policy_store)))
      = ''REVIEW''"
proof -
  let ?items = "[(''default'', JDict [(''policies'', JDict
                 [(''GENERAL'', JDict [(''HIGH'', JStr ''block''), (''MEDIUM'', JStr ''Review'')])])])]"
  let ?raw = "[(''default_action'', JStr ''block''), (''tenants'', JDict ?items)]"
  have "validate_policy_file [] [] (Doc (JDict ?raw)) = []" by code_simp
  from validated_policy_is_enforced [OF this, of Missing new_policy_store]
  have "fst (fst (policy_decision Missing ''GENERAL'' ''MEDIUM'' ''acme'' (reload_policies (Doc (JDict ?raw)) new_policy_store)))
     = written_action ?raw ?items ''acme'' ''GENERAL'' ''MEDIUM''" by simp
  also have "\<dots> = ''REVIEW''" by code_simp
  finally show ?thesis by (simp add: Let_def)
qed

text \<open>
  Nothing is permitted that an operator did not write: whenever a reloaded policy, valid
  or not, answers anything but BLOCK, that action stands in the file, as the default action or
  under this capability and this risk level in the entry of this tenant or of "default".
\<close>

theorem non_block_action_is_written:
  assumes "fst (fst (policy_decision d capability risk t (reload_policies disk ps))) = a" "a \<noteq> ''BLOCK''"
  shows "\<exists>raw items. disk = Doc (JDict raw) \<and> map_of raw ''tenants'' = Some (JDict items) \<and>
     ((\<exists>da. map_of raw ''default_action'' = Some da \<and> str_upper (py_str da) = a)
      \<or> (\<exists>t' entry policies risk_map action. t' \<in> {t, ''default''} \<and> (t', JDict entry) \<in> set items
           \<and> map_of entry ''policies'' = Some (JDict policies) \<and> (capability, JDict risk_map) \<in> set policies
           \<and> (risk, action) \<in> set risk_map \<and> str_upper (py_str action) = a))"
proof -
  have us: "ps_usable (reload_policies disk ps)"
    using assms decision_unusable by metis
  then obtain raw items where r: "disk = Doc (JDict raw)" "map_of raw ''tenants'' = Some (JDict items)"
    using usable_iff by blast
  let ?ts = "load_policy_tenants [] items"
  have dec: "fst (fst (policy_decision d capability risk t (reload_policies disk ps))) =
     (case (case od_get ?ts t of Some p \<Rightarrow> Some p | None \<Rightarrow> od_get ?ts ''default'') of
        None \<Rightarrow> ''BLOCK''
      | Some p \<Rightarrow> (case od_get (pol_policies p) capability of
            Some (e # m) \<Rightarrow> (case od_get (e # m) risk of Some a \<Rightarrow> a | None \<Rightarrow> read_default_action (JDict raw))
          | _ \<Rightarrow> read_default_action (JDict raw)))"
    using decision_action [OF us] unfolding r(1) reload_dict [OF r(2)] .
  consider "a = read_default_action (JDict raw)"
    | t' p m where "t' \<in> {t, ''default''}" "od_get ?ts t' = Some p" "od_get (pol_policies p) capability = Some m"
        "od_get m risk = Some a"
    using assms(2) dec unfolding assms(1)
    by (auto split: option.splits list.splits)
  then show ?thesis
  proof cases
    case 1
    then have "\<exists>da. map_of raw ''default_action'' = Some da \<and> str_upper (py_str da) = a"
      using assms(2) by (auto simp: read_default_action_def Let_def str_upper_def upper_char_def
          split: option.splits if_splits)
    then show ?thesis using r by blast
  next
    case 2
    from tenant_source [OF 2(2)] obtain j where j: "(t', j) \<in> set items" "parse_tenant_entry t' j = Some p" by blast
    from j(2) obtain entry policies where e: "j = JDict entry" "map_of entry ''policies'' = Some (JDict policies)"
        "p = \<lparr>pol_tenant_id = t', pol_policies = clean_policies [] policies\<rparr>"
      by (auto simp: parse_tenant_entry_Some)
    from capability_source [of policies capability m] 2(3) e(3)
    obtain cj where c: "(capability, cj) \<in> set policies" "clean_capability cj = Some m" by auto
    from c(2) obtain rm where rm: "cj = JDict rm" "m = clean_risk_map [] rm" by (auto simp: clean_capability_Some)
    from risk_source [of rm risk a] 2(4) rm(2) obtain act where "(risk, act) \<in> set rm" "str_upper (py_str act) = a"
      by (auto simp: clean_action_Some)
    then show ?thesis using r 2(1) j(1) e c(1) rm(1) by blast
  qed
qed

theorem non_block_action_is_written_witness:
  "\<not> (\<exists>ps. fst (fst (policy_decision Missing ''INTERNAL'' ''LOW'' ''acme'' (reload_policies (Doc (JDict
        [(''tenants'', JDict [(''default'', JDict [(''policies'', JDict
            [(''GENERAL'', JDict [(''LOW'', JStr ''ALLOW'')])])])])])) ps))) = ''ALLOW'')"
proof
  assume "\<exists>ps. fst (fst (policy_decision Missing ''INTERNAL'' ''LOW'' ''acme'' (reload_policies (Doc (JDict
        [(''tenants'', JDict [(''default'', JDict [(''policies'', JDict
            [(''GENERAL'', JDict [(''LOW'', JStr ''ALLOW'')])])])])])) ps))) = ''ALLOW''"
  then obtain ps where "fst (fst (policy_decision Missing ''INTERNAL'' ''LOW'' ''acme'' (reload_policies (Doc (JDict
        [(''tenants'', JDict [(''default'', JDict [(''policies'', JDict
            [(''GENERAL'', JDict [(''LOW'', JStr ''ALLOW'')])])])])])) ps))) = ''ALLOW''" ..
  from non_block_action_is_written [OF this] show False by auto
qed



end
