(* ===== verification/Regex.thy ===== *)
theory Regex
  imports Prelude
begin

text \<open>
  The part of Python's \<open>re\<close> that the source uses with fixed patterns: character classes, word
  boundaries, greedy bounded and unbounded repetition, alternatives, \<open>findall\<close> and \<open>search\<close>.

  \<open>rx_ends s r i\<close> lists the positions where a match of \<open>r\<close> that starts at \<open>i\<close> can end, in the
  order the backtracking engine tries them.  Characters are those of Latin-1.
\<close>

section \<open>Patterns\<close>

datatype rx =
    Cls "char \<Rightarrow> bool"
  | Bnd
  | Sq rx rx
  | Alt rx rx
  | Rep rx nat nat

definition in_range :: "char \<Rightarrow> char \<Rightarrow> char \<Rightarrow> bool" where
  "in_range a b c = ((of_char a :: nat) \<le> of_char c \<and> of_char c \<le> (of_char b :: nat))"

definition rx_digit :: "char \<Rightarrow> bool" where
  "rx_digit c = in_range (CHR ''0'') (CHR ''9'') c"

definition rx_upper :: "char \<Rightarrow> bool" where
  "rx_upper c = in_range (CHR ''A'') (CHR ''Z'') c"

definition rx_lower :: "char \<Rightarrow> bool" where
  "rx_lower c = in_range (CHR ''a'') (CHR ''z'') c"

definition rx_alnum :: "char \<Rightarrow> bool" where
  "rx_alnum c = (rx_digit c \<or> rx_upper c \<or> rx_lower c)"

text \<open>\<open>\w\<close> on Latin-1: letters, digits, the numeric superscripts and fractions, underscore.\<close>

definition rx_word :: "char \<Rightarrow> bool" where
  "rx_word c = (rx_alnum c \<or> c = CHR ''_'' \<or> (of_char c :: nat) \<in> {0xAA, 0xB2, 0xB3, 0xB5, 0xB9, 0xBA, 0xBC, 0xBD, 0xBE}
     \<or> (0xC0 \<le> (of_char c :: nat) \<and> (of_char c :: nat) \<notin> {0xD7, 0xF7}))"

text \<open>\<open>\s\<close>.\<close>

definition rx_blank :: "char \<Rightarrow> bool" where
  "rx_blank c = (is_space c \<or> c = CHR 0x85 \<or> c = CHR 0xA0)"

definition at_boundary :: "string \<Rightarrow> nat \<Rightarrow> bool" where
  "at_boundary s i =
     ((0 < i \<and> i \<le> length s \<and> rx_word (s ! (i - 1))) \<noteq> (i < length s \<and> rx_word (s ! i)))"

fun rep_ends :: "(nat \<Rightarrow> nat list) \<Rightarrow> nat \<Rightarrow> nat \<Rightarrow> nat \<Rightarrow> nat list" where
  "rep_ends f lo 0 i = (if lo = 0 then [i] else [])"
| "rep_ends f lo (Suc h) i =
     concat (map (rep_ends f (lo - 1) h) (f i)) @ (if lo = 0 then [i] else [])"

fun rx_ends :: "string \<Rightarrow> rx \<Rightarrow> nat \<Rightarrow> nat list" where
  "rx_ends s (Cls P) i = (if i < length s \<and> P (s ! i) then [Suc i] else [])"
| "rx_ends s Bnd i = (if at_boundary s i then [i] else [])"
| "rx_ends s (Sq a b) i = concat (map (rx_ends s b) (rx_ends s a i))"
| "rx_ends s (Alt a b) i = rx_ends s a i @ rx_ends s b i"
| "rx_ends s (Rep r lo hi) i = rep_ends (rx_ends s r) lo hi i"

text \<open>
  \<open>findall\<close> from position \<open>i\<close>; \<open>fuel\<close> is the number of positions left to start at.  An empty
  match moves on by one character.
\<close>

fun findall_from :: "nat \<Rightarrow> string \<Rightarrow> rx \<Rightarrow> nat \<Rightarrow> string list" where
  "findall_from 0 s r i = []"
| "findall_from (Suc fuel) s r i =
     (case rx_ends s r i of
        [] \<Rightarrow> findall_from fuel s r (Suc i)
      | e # es \<Rightarrow> take (e - i) (drop i s) # findall_from fuel s r (if e = i then Suc i else e))"

definition findall :: "rx \<Rightarrow> string \<Rightarrow> string list" where
  "findall r s = findall_from (Suc (length s)) s r 0"

text \<open>\<open>search\<close>: some position has a match.\<close>

definition rx_search :: "rx \<Rightarrow> string \<Rightarrow> bool" where
  "rx_search r s = list_ex (\<lambda>i. rx_ends s r i \<noteq> []) [0..<Suc (length s)]"

subsection \<open>Building blocks\<close>

fun rx_lit :: "string \<Rightarrow> rx" where
  "rx_lit [] = Rep Bnd 0 0"
| "rx_lit [c] = Cls (\<lambda>d. d = c)"
| "rx_lit (c # s) = Sq (Cls (\<lambda>d. d = c)) (rx_lit s)"

fun rx_seq :: "rx list \<Rightarrow> rx" where
  "rx_seq [] = Rep Bnd 0 0"
| "rx_seq [r] = r"
| "rx_seq (r # rs) = Sq r (rx_seq rs)"

fun rx_alts :: "rx \<Rightarrow> rx list \<Rightarrow> rx" where
  "rx_alts r [] = r"
| "rx_alts r (a # as) = Alt r (rx_alts a as)"

definition one_of :: "string \<Rightarrow> char \<Rightarrow> bool" where
  "one_of cs c = (c \<in> set cs)"

definition rx_opt :: "rx \<Rightarrow> rx" where
  "rx_opt r = Rep r 0 1"

text \<open>\<open>r{lo,}\<close> on a text of length \<open>n\<close>, for a class \<open>r\<close>: at most \<open>n\<close> repetitions fit.\<close>

definition rx_atleast :: "nat \<Rightarrow> rx \<Rightarrow> nat \<Rightarrow> rx" where
  "rx_atleast n r lo = Rep r lo (lo + n)"

section \<open>Lemmas\<close>

lemma findall_none:
  "(\<forall>j. i \<le> j \<and> j < i + fuel \<longrightarrow> rx_ends s r j = []) \<Longrightarrow> findall_from fuel s r i = []"
  by (induction fuel s r i rule: findall_from.induct) auto

text \<open>
  A match anywhere makes \<open>findall\<close> non-empty, and conversely, as long as no match ends before it
  starts.
\<close>

lemma findall_from_empty:
  "findall_from fuel s r i = [] \<Longrightarrow> i \<le> j \<Longrightarrow> j < i + fuel \<Longrightarrow> rx_ends s r j = []"
proof (induction fuel s r i rule: findall_from.induct)
  case (2 fuel s r i)
  then show ?case by (cases "j = i") (auto split: list.splits)
qed simp

lemma findall_empty_iff: "findall r s = [] \<longleftrightarrow> \<not> rx_search r s"
proof
  assume "findall r s = []"
  then have "rx_ends s r j = []" if "j < Suc (length s)" for j
    using findall_from_empty [of "Suc (length s)" s r 0 j] that by (simp add: findall_def)
  then show "\<not> rx_search r s" by (auto simp: rx_search_def list_ex_iff simp del: upt_Suc)
next
  assume "\<not> rx_search r s"
  then have "\<forall>j. 0 \<le> j \<and> j < 0 + Suc (length s) \<longrightarrow> rx_ends s r j = []"
    by (auto simp: rx_search_def list_ex_iff simp del: upt_Suc)
  from findall_none [OF this] show "findall r s = []" by (simp add: findall_def)
qed

lemma drop_tl: "drop (Suc i) s = tl (drop i s)"
  by (simp add: drop_Suc tl_drop)

lemma rx_ends_lit:
  "cs \<noteq> [] \<Longrightarrow> rx_ends s (rx_lit cs) i = (if take (length cs) (drop i s) = cs then [i + length cs] else [])"
proof (induction cs arbitrary: i rule: rx_lit.induct)
  case (2 c)
  then show ?case by (cases "drop i s") (auto simp: nth_via_drop)
next
  case (3 c v va)
  note ih = 3(1) [of "Suc i", OF list.simps(3), unfolded drop_tl]
  show ?case
  proof (cases "drop i s")
    case (Cons a l)
    then have "i < length s" "s ! i = a" by (auto simp: nth_via_drop intro: ccontr)
    then show ?thesis using ih Cons by simp
  qed simp
qed simp

text \<open>A run of a class: any length between the bounds that stays in the class.\<close>

lemma rep_class_ends:
  "j \<in> set (rep_ends (rx_ends s (Cls P)) lo hi i) \<longleftrightarrow>
   i + lo \<le> j \<and> j \<le> i + hi \<and> (\<forall>k. i \<le> k \<and> k < j \<longrightarrow> k < length s \<and> P (s ! k))"
proof (induction hi arbitrary: lo i)
  case (Suc h)
  have step: "j \<in> set (rep_ends (rx_ends s (Cls P)) lo (Suc h) i) \<longleftrightarrow>
      (i < length s \<and> P (s ! i) \<and> j \<in> set (rep_ends (rx_ends s (Cls P)) (lo - 1) h (Suc i))) \<or> (lo = 0 \<and> j = i)"
    by auto
  show ?case
  proof (cases "i < j")
    case True
    have "(\<forall>k. i \<le> k \<and> k < j \<longrightarrow> k < length s \<and> P (s ! k)) \<longleftrightarrow>
        i < length s \<and> P (s ! i) \<and> (\<forall>k. Suc i \<le> k \<and> k < j \<longrightarrow> k < length s \<and> P (s ! k))"
      using True by (metis Suc_le_eq le_eq_less_or_eq)
    moreover have "i + lo \<le> j \<longleftrightarrow> Suc i + (lo - 1) \<le> j" "j \<le> i + Suc h \<longleftrightarrow> j \<le> Suc i + h" using True by linarith+
    ultimately show ?thesis unfolding step Suc.IH using True by blast
  next
    case False
    then show ?thesis unfolding step Suc.IH by auto
  qed
qed auto

end
