(* ===== verification/Output_Guardrails.thy ===== *)
theory Output_Guardrails
  imports Regex Tenancy Judge "HOL-Library.Sublist"
begin

text \<open>
  What is done to a text on its way out: credential detection (\<open>core/secrets_detection.py\<close>), PII
  redaction (\<open>core/privacy.py\<close>) and the output assessment that composes them with the judge
  (\<open>core/output_guardrails.py\<close>).

  The regular expressions are the source's own, on the matcher of \<open>Regex\<close>.  The named-entity
  model, the similarity to the domain centroid and the judge's HTTP calls are parameters.
\<close>

section \<open>Secrets\<close>

text \<open>A pattern is built for a text of \<open>n\<close> characters, which bounds its unbounded repetitions.\<close>

definition key_char :: "char \<Rightarrow> bool" where
  "key_char c = (rx_alnum c \<or> c = CHR ''-'')"

definition url_char :: "char \<Rightarrow> bool" where
  "url_char c = (rx_alnum c \<or> c = CHR ''-'' \<or> c = CHR ''_'')"

definition secret_patterns :: "nat \<Rightarrow> (string \<times> rx) list" where
  "secret_patterns n =
     [(''AWS_ACCESS_KEY'', rx_seq [Bnd, Alt (rx_lit ''AKIA'') (rx_lit ''ASIA''),
         Rep (Cls (\<lambda>c. rx_digit c \<or> rx_upper c)) 16 16, Bnd]),
      (''GITHUB_TOKEN'', rx_seq [Bnd, rx_lit ''gh'', Cls (one_of ''pousr''), rx_lit ''_'', rx_atleast n (Cls rx_alnum) 36, Bnd]),
      (''SLACK_TOKEN'', rx_seq [Bnd, rx_lit ''xox'', Cls (one_of ''baprs''), rx_lit ''-'', rx_atleast n (Cls key_char) 10, Bnd]),
      (''OPENAI_API_KEY'', rx_seq [Bnd, rx_lit ''sk-'', rx_atleast n (Cls rx_alnum) 20, Bnd]),
      (''ANTHROPIC_API_KEY'', rx_seq [Bnd, rx_lit ''sk-ant-'', rx_atleast n (Cls key_char) 20, Bnd]),
      (''GOOGLE_API_KEY'', rx_seq [Bnd, rx_lit ''AIza'', Rep (Cls url_char) 35 35, Bnd]),
      (''JWT'', rx_seq [Bnd, rx_lit ''eyJ'', rx_atleast n (Cls url_char) 1, rx_lit ''.'', rx_atleast n (Cls url_char) 1,
         rx_lit ''.'', rx_atleast n (Cls url_char) 1, Bnd]),
      (''PRIVATE_KEY_BLOCK'', rx_seq [rx_lit ''-----BEGIN '',
         rx_opt (rx_alts (rx_lit ''RSA '') [rx_lit ''EC '', rx_lit ''OPENSSH '', rx_lit ''DSA '']), rx_lit ''PRIVATE KEY-----''])]"

definition secret_preview :: "string \<Rightarrow> string" where
  "secret_preview m = (if length m > 6 then take 6 m @ ''...'' else m)"

definition detect_secrets :: "string \<Rightarrow> string list" where
  "detect_secrets text =
     concat (map (\<lambda>(label, r). map (\<lambda>m. label @ '':'' @ secret_preview m) (findall r text))
       (secret_patterns (length text)))"

section \<open>PII redaction\<close>

definition digits :: "nat \<Rightarrow> rx" where
  "digits k = Rep (Cls rx_digit) k k"

definition separator :: rx where
  "separator = rx_opt (Cls (\<lambda>c. c = CHR ''-'' \<or> rx_blank c))"

definition regex_patterns :: "(string \<times> (nat \<Rightarrow> rx)) list" where
  "regex_patterns =
     [(''EMAIL'', \<lambda>n. rx_seq [Bnd, rx_atleast n (Cls (\<lambda>c. rx_alnum c \<or> one_of ''._%+-'' c)) 1, rx_lit [CHR 0x40],
          rx_atleast n (Cls (\<lambda>c. rx_alnum c \<or> one_of ''.-'' c)) 1, rx_lit ''.'',
          rx_atleast n (Cls (\<lambda>c. rx_upper c \<or> rx_lower c \<or> c = CHR 0x7C)) 2, Bnd]),
      (''PHONE'', \<lambda>n. Alt
          (rx_seq [rx_opt (Sq (rx_lit ''+91'') separator), Cls (in_range (CHR ''6'') (CHR ''9'')), digits 9, Bnd])
          (rx_seq [rx_opt (Sq (rx_lit ''+1'') separator), rx_opt (rx_lit ''(''), digits 3, rx_opt (rx_lit '')''), separator,
             digits 3, separator, digits 4])),
      (''IP_ADDR'', \<lambda>n. rx_seq [Bnd, Rep (Sq (Rep (Cls rx_digit) 1 3) (rx_lit ''.'')) 3 3, Rep (Cls rx_digit) 1 3, Bnd]),
      (''AADHAAR'', \<lambda>n. rx_seq [Bnd, digits 4, Cls rx_blank, digits 4, Cls rx_blank, digits 4, Bnd])]"

definition ner_default_labels :: "string list" where
  "ner_default_labels = [''PERSON'', ''ORG'', ''GPE'']"

definition mask_of :: "string \<Rightarrow> string" where
  "mask_of label = ''[REDACTED:'' @ label @ '']''"

record redaction =
  rd_text :: string
  rd_found :: bool
  rd_source :: string
  rd_items :: "string list"

text \<open>One pattern's matches, replaced one after the other.\<close>

definition redact_matches :: "string \<Rightarrow> string list \<Rightarrow> string \<times> string list \<Rightarrow> string \<times> string list" where
  "redact_matches label ms st =
     foldl (\<lambda>(t, items) m. (str_replace m (mask_of label) t, items @ [label @ '':'' @ m])) st ms"

text \<open>Stage 1: the text, the items and whether a pattern has hit.\<close>

fun regex_stage :: "string list \<Rightarrow> (string \<times> (nat \<Rightarrow> rx)) list \<Rightarrow> string \<times> string list \<times> bool \<Rightarrow> string \<times> string list \<times> bool" where
  "regex_stage disabled [] st = st"
| "regex_stage disabled ((label, pattern) # ps) (t, items, hit) =
     (if label \<in> set disabled then regex_stage disabled ps (t, items, hit)
      else case findall (pattern (length t)) t of
             [] \<Rightarrow> regex_stage disabled ps (t, items, hit)
           | ms \<Rightarrow> (let (t', items') = redact_matches label ms (t, items) in regex_stage disabled ps (t', items', True)))"

text \<open>An entity: start, end (in characters) and label.\<close>

type_synonym entity = "nat \<times> nat \<times> string"

definition redact_entity :: "string list \<Rightarrow> string \<Rightarrow> string \<times> string list \<Rightarrow> entity \<Rightarrow> string \<times> string list" where
  "redact_entity labels doc st ent =
     (case ent of (b, e, label) \<Rightarrow>
        if label \<in> set labels
        then (take b (fst st) @ mask_of label @ drop e (fst st), snd st @ [label @ '':'' @ take (e - b) (drop b doc)])
        else st)"

definition redact_entities :: "string list \<Rightarrow> string \<Rightarrow> entity list \<Rightarrow> string \<times> string list" where
  "redact_entities labels doc ents = foldl (redact_entity labels doc) (doc, []) (rev ents)"

definition redact_pii :: "(string \<Rightarrow> entity list) option \<Rightarrow> tenant_config option \<Rightarrow> string \<Rightarrow> redaction" where
  "redact_pii nlp tenant text =
     (let disabled = (case tenant of None \<Rightarrow> [] | Some c \<Rightarrow> (case tc_privacy_disabled_patterns c of None \<Rightarrow> [] | Some l \<Rightarrow> l));
          labels = (case tenant of None \<Rightarrow> ner_default_labels
                    | Some c \<Rightarrow> (case tc_privacy_ner_labels c of None \<Rightarrow> ner_default_labels | Some l \<Rightarrow> l));
          (t, items, hit) = regex_stage disabled regex_patterns (text, [], False)
      in if hit then \<lparr>rd_text = t, rd_found = True, rd_source = ''REGEX_FAST'', rd_items = items\<rparr>
         else case nlp of
                Some f \<Rightarrow>
                  (if labels \<noteq> [] \<and> list_ex (\<lambda>(b, e, l). l \<in> set labels) (f t) then
                     let (t', items') = redact_entities labels t (f t) in
                     \<lparr>rd_text = t', rd_found = True, rd_source = ''NER_CONTEXT'', rd_items = items'\<rparr>
                   else \<lparr>rd_text = t, rd_found = False, rd_source = ''CLEAN'', rd_items = []\<rparr>)
              | None \<Rightarrow> \<lparr>rd_text = t, rd_found = False, rd_source = ''CLEAN'', rd_items = []\<rparr>)"

section \<open>Output assessment\<close>

definition leak_min_run :: nat where
  "leak_min_run = 40"

definition check_system_prompt_leakage :: "nat \<Rightarrow> string \<Rightarrow> string \<Rightarrow> bool" where
  "check_system_prompt_leakage min_run response system_prompt =
     (if system_prompt = [] \<or> length system_prompt < min_run then False
      else list_ex (\<lambda>i. str_contains (take min_run (drop i system_prompt)) response)
             [0..<length system_prompt - min_run + 1])"

text \<open>\<open>grounding\<close>: the similarity to the store's centroid, \<open>None\<close> when the store is empty.\<close>

definition check_semantic_grounding :: "real option \<Rightarrow> bool" where
  "check_semantic_grounding score = (case score of None \<Rightarrow> True | Some x \<Rightarrow> \<not> x < 15 / 100)"

record output_env =
  oe_nlp :: "(string \<Rightarrow> entity list) option"
  oe_judge_model :: string
  oe_json_loads :: "string \<Rightarrow> json option"
  oe_chat :: "string \<Rightarrow> http"
  oe_generate :: "string \<Rightarrow> http"
  oe_fallback_enabled :: bool
  oe_fallback_threshold :: real
  oe_toxic :: "string \<Rightarrow> real option"
  oe_hallucination_check :: bool
  oe_grounding :: "string \<Rightarrow> real option"

record output_details =
  od_secrets :: bool
  od_leak :: bool
  od_pii :: bool
  od_toxic :: bool
  od_hallucination :: bool
  od_source :: string
  od_clean :: "string option"
  od_secret_items :: "string list option"
  od_redacted_items :: "string list option"

definition clean_details :: output_details where
  "clean_details =
     \<lparr>od_secrets = False, od_leak = False, od_pii = False, od_toxic = False, od_hallucination = False,
      od_source = ''clean_pass'', od_clean = None, od_secret_items = None, od_redacted_items = None\<rparr>"

definition ask_output_judge :: "output_env \<Rightarrow> bool \<Rightarrow> real \<Rightarrow> real \<Rightarrow> string \<Rightarrow> cb_state \<Rightarrow> string \<times> cb_state" where
  "ask_output_judge oe up now t text s =
     output_judge (oe_json_loads oe) (oe_judge_model oe) up now t (oe_chat oe text) (oe_generate oe text)
       (fallback_output_judge (oe_fallback_enabled oe) (oe_fallback_threshold oe) (oe_toxic oe text)) s"

definition assess_output ::
  "output_env \<Rightarrow> bool \<Rightarrow> real \<Rightarrow> real \<Rightarrow> tenant_config option \<Rightarrow> string option \<Rightarrow> string \<Rightarrow> cb_state
   \<Rightarrow> (string \<times> output_details) \<times> cb_state" where
  "assess_output oe up now t tenant system_prompt response s =
     (let secrets = detect_secrets response in
      if secrets \<noteq> [] then
        ((''BLOCK'', clean_details\<lparr>od_secrets := True, od_source := ''secret_leakage'', od_secret_items := Some secrets\<rparr>), s)
      else if system_prompt \<noteq> None \<and> the system_prompt \<noteq> []
              \<and> check_system_prompt_leakage leak_min_run response (the system_prompt) then
        ((''BLOCK'', clean_details\<lparr>od_leak := True, od_source := ''system_prompt_leakage''\<rparr>), s)
      else
        let red = redact_pii (oe_nlp oe) tenant response;
            d1 = (if rd_found red then clean_details\<lparr>od_pii := True, od_redacted_items := Some (rd_items red)\<rparr>
                  else clean_details);
            (verdict, s') = ask_output_judge oe up now t (rd_text red) s
        in if verdict = ''DANGEROUS'' then
             ((''BLOCK'', d1\<lparr>od_toxic := True, od_source := ''semantic_judge_output''\<rparr>), s')
           else if oe_hallucination_check oe \<and> \<not> check_semantic_grounding (oe_grounding oe (rd_text red)) then
             ((''BLOCK'', d1\<lparr>od_hallucination := True, od_source := ''semantic_grounding_check''\<rparr>), s')
           else
             ((''ALLOW'', (if od_pii d1 then d1\<lparr>od_source := ''pii_redacted_pass''\<rparr> else d1)\<lparr>od_clean := Some (rd_text red)\<rparr>), s'))"

section \<open>Leakage is a common run\<close>

lemma starts_with_prefix: "starts_with p s = prefix p s"
  unfolding starts_with_def by (metis append_eq_conv_conj append_take_drop_id prefix_def)

lemma str_contains_sublist: "str_contains p s = sublist p s"
  by (induction p s rule: str_contains.induct) (auto simp: sublist_Cons_right starts_with_prefix)

lemma window_sublist: "take n (drop i s) = w \<Longrightarrow> sublist w s"
  by (metis append_take_drop_id sublist_appendI)

lemma sublist_window:
  assumes "sublist w s"
  shows "\<exists>i \<le> length s - length w. take (length w) (drop i s) = w"
proof -
  obtain a b where "s = a @ w @ b" using assms by (auto simp: sublist_def)
  then show ?thesis by (intro exI [of _ "length a"]) simp
qed

lemma leak_iff:
  assumes "0 < n"
  shows "check_system_prompt_leakage n response sp \<longleftrightarrow> (\<exists>w. n \<le> length w \<and> sublist w sp \<and> sublist w response)"
    (is "?l = ?r")
proof
  assume ?l
  then have len: "n \<le> length sp" and "\<exists>i \<in> set [0..<length sp - n + 1]. sublist (take n (drop i sp)) response"
    unfolding check_system_prompt_leakage_def list_ex_iff str_contains_sublist by (simp_all split: if_splits)
  then obtain i where m: "i \<in> set [0..<length sp - n + 1]" and i2: "sublist (take n (drop i sp)) response" by blast
  have i: "i \<le> length sp - n" "sublist (take n (drop i sp)) response" using m i2 by auto
  then have "length (take n (drop i sp)) = n" using len by simp
  then show ?r using i window_sublist [of n i sp] by (metis order_refl)
next
  assume ?r
  then obtain w where w: "n \<le> length w" "sublist w sp" "sublist w response" by blast
  have t: "sublist (take n w) sp" "sublist (take n w) response" "length (take n w) = n"
    using w sublist_order.order_trans [OF prefix_imp_sublist [OF take_is_prefix]] by (auto intro: sublist_order.order_trans)
  then obtain i where "i \<le> length sp - n" "take n (drop i sp) = take n w" using sublist_window [OF t(1)] by auto
  then have "\<exists>i \<in> set [0..<length sp - n + 1]. sublist (take n (drop i sp)) response"
    using t(2) by (intro bexI [of _ i]) auto
  moreover have "n \<le> length sp" using sublist_length_le [OF t(1)] t(3) by simp
  ultimately show ?l
    using assms unfolding check_system_prompt_leakage_def list_ex_iff str_contains_sublist by auto
qed

section \<open>Redaction from the right\<close>

text \<open>Entities in the order of the text, apart from each other and inside it.\<close>

fun ents_ok :: "nat \<Rightarrow> nat \<Rightarrow> entity list \<Rightarrow> bool" where
  "ents_ok n i [] = (i \<le> n)"
| "ents_ok n i ((b, e, l) # es) = (i \<le> b \<and> b \<le> e \<and> ents_ok n e es)"

text \<open>The intended result, from left to right: every wanted entity replaced by its mask.\<close>

fun masked :: "string list \<Rightarrow> string \<Rightarrow> nat \<Rightarrow> entity list \<Rightarrow> string" where
  "masked labels doc i [] = drop i doc"
| "masked labels doc i ((b, e, l) # es) =
     (if l \<in> set labels then take (b - i) (drop i doc) @ mask_of l @ masked labels doc e es
      else take (e - i) (drop i doc) @ masked labels doc e es)"

lemma ents_ok_le: "ents_ok n i es \<Longrightarrow> i \<le> n"
  by (induction n i es rule: ents_ok.induct) auto

lemma redact_snoc:
  "redact_entities labels doc (e # es) = redact_entity labels doc (redact_entities labels doc es) e"
  by (simp add: redact_entities_def)

lemma take_drop_split: "i \<le> b \<Longrightarrow> take b doc = take i doc @ take (b - i) (drop i doc)"
  by (metis le_add_diff_inverse take_add)

lemma redact_entities_masked:
  "ents_ok (length doc) i es \<Longrightarrow> fst (redact_entities labels doc es) = take i doc @ masked labels doc i es"
proof (induction "length doc" i es rule: ents_ok.induct)
  case (2 i b e l es)
  then have le: "i \<le> b" "b \<le> e" "e \<le> length doc" and ih: "fst (redact_entities labels doc es) = take e doc @ masked labels doc e es"
    using ents_ok_le by auto
  have "take b (take e doc @ masked labels doc e es) = take b doc" using le by (simp add: min_def)
  moreover have "drop e (take e doc @ masked labels doc e es) = masked labels doc e es" using le by simp
  ultimately show ?case
    using le ih take_drop_split [of i b doc] take_drop_split [of i e doc]
    by (simp add: redact_snoc redact_entity_def)
qed (simp add: redact_entities_def)


section \<open>What an allowed output has passed\<close>

lemma allowed_output_facts:
  assumes "assess_output oe up now t tenant sp response s = ((''ALLOW'', d), s')"
  shows "(\<forall>(label, r) \<in> set (secret_patterns (length response)). \<not> rx_search r response)
    \<and> (\<forall>p. sp = Some p \<longrightarrow> \<not> (\<exists>w. leak_min_run \<le> length w \<and> sublist w p \<and> sublist w response))
    \<and> fst (ask_output_judge oe up now t (rd_text (redact_pii (oe_nlp oe) tenant response)) s) \<noteq> ''DANGEROUS''
    \<and> od_clean d = Some (rd_text (redact_pii (oe_nlp oe) tenant response))"
proof -
  let ?red = "redact_pii (oe_nlp oe) tenant response"
  have sec: "detect_secrets response = []"
    using assms by (cases "detect_secrets response") (simp_all add: assess_output_def)
  then have "\<forall>(label, r) \<in> set (secret_patterns (length response)). \<not> rx_search r response"
    unfolding detect_secrets_def by (auto simp: findall_empty_iff)
  moreover have leak: "\<not> (sp \<noteq> None \<and> the sp \<noteq> [] \<and> check_system_prompt_leakage leak_min_run response (the sp))"
    using assms sec by (auto simp: assess_output_def Let_def)
  have "\<not> (\<exists>w. leak_min_run \<le> length w \<and> sublist w p \<and> sublist w response)" if "sp = Some p" for p
    using leak that leak_iff [of leak_min_run response p] by (auto simp: leak_min_run_def)
  moreover have "fst (ask_output_judge oe up now t (rd_text ?red) s) \<noteq> ''DANGEROUS''"
    "od_clean d = Some (rd_text ?red)"
    using assms sec leak by (auto simp: assess_output_def Let_def split: prod.splits if_splits)
  ultimately show ?thesis by blast
qed

section \<open>Properties\<close>

text \<open>
  An allowed output is clean.  When a response is allowed, none of the credential patterns
  matches anywhere in it, it shares no run of 40 characters with the system prompt it was
  checked against, the judge did not call the redacted text dangerous, and what is handed on
  is that redacted text and nothing else.
\<close>

theorem allowed_output_is_clean:
  assumes "assess_output oe up now t tenant sp response s = ((''ALLOW'', d), s')"
  shows "(\<forall>(label, r) \<in> set (secret_patterns (length response)). \<not> rx_search r response)
    \<and> (\<forall>p. sp = Some p \<longrightarrow> \<not> (\<exists>w. leak_min_run \<le> length w \<and> sublist w p \<and> sublist w response))
    \<and> fst (ask_output_judge oe up now t (rd_text (redact_pii (oe_nlp oe) tenant response)) s) \<noteq> ''DANGEROUS''
    \<and> od_clean d = Some (rd_text (redact_pii (oe_nlp oe) tenant response))"
  using allowed_output_facts [OF assms] .

text \<open>
  The leakage check is exact: it reports a leak if and only if the response and the system
  prompt share a run of at least \<open>min_run\<close> characters.
\<close>

theorem leak_check_is_common_run:
  "check_system_prompt_leakage (Suc k) response sp \<longleftrightarrow> (\<exists>w. Suc k \<le> length w \<and> sublist w sp \<and> sublist w response)"
  by (rule leak_iff) simp

text \<open>
  Redaction of entities is exact: replacing them in place from the last to the first yields
  the text in which every entity with a wanted label is replaced by its mask and every other
  character is kept.
\<close>

theorem entity_redaction_exact:
  assumes "ents_ok (length doc) 0 ents"
  shows "fst (redact_entities labels doc ents) = masked labels doc 0 ents"
  using redact_entities_masked [OF assms] by simp

text \<open>
  Overlapping texts defeat the redaction: when one e-mail address is the end of a later one,
  replacing the first everywhere destroys the second before its turn, and what precedes the
  shared part, here a first name, stays in the clear text.
\<close>

theorem email_redaction_leaves_local_part:
  "rd_text (redact_pii None None (''doe'' @ [CHR 0x40] @ ''x.io jane.doe'' @ [CHR 0x40] @ ''x.io''))
     = ''[REDACTED:EMAIL] jane.[REDACTED:EMAIL]''"
  by code_simp


section \<open>Witnesses\<close>

definition demo_output_env :: output_env where
  "demo_output_env =
     \<lparr>oe_nlp = None, oe_judge_model = ''mistral'', oe_json_loads = (\<lambda>t. Some (JDict [(''verdict'', JStr ''safe'')])),
      oe_chat = (\<lambda>t. HttpRaises), oe_generate = (\<lambda>t. HttpResp 200 (Some (JDict [(''response'', JStr ''v'')]))),
      oe_fallback_enabled = True, oe_fallback_threshold = 1 / 2, oe_toxic = (\<lambda>t. None),
      oe_hallucination_check = False, oe_grounding = (\<lambda>t. None)\<rparr>"

lemma demo_redaction:
  "redact_pii None None (''call 555-123-4567'') = \<lparr>rd_text = ''call [REDACTED:PHONE]'', rd_found = True,
     rd_source = ''REGEX_FAST'', rd_items = [''PHONE:555-123-4567'']\<rparr>"
  by code_simp

theorem allowed_output_is_clean_witness:
  "\<exists>d s'. assess_output demo_output_env True 0 0 None (Some ''You are a bot.'') ''call 555-123-4567''
      (new_breaker 3 30 False, \<lparr>sh_opened = None, sh_fails = None\<rparr>) = ((''ALLOW'', d), s')
    \<and> od_clean d = Some ''call [REDACTED:PHONE]''"
proof -
  let ?s = "(new_breaker 3 30 False, \<lparr>sh_opened = None, sh_fails = None\<rparr>)" and ?t = "''call 555-123-4567''"
  have no_secret: "detect_secrets ?t = []" and no_leak: "\<not> check_system_prompt_leakage leak_min_run ?t ''You are a bot.''"
    and proto: "\<not> uses_llama_guard_protocol ''mistral''"
    and reply: "json_reply (\<lambda>t. Some (JDict [(''verdict'', JStr ''safe'')])) (Some (JDict [(''response'', JStr ''v'')])) = Inr (Some ''SAFE'')"
    by code_simp+
  have "ask_output_judge demo_output_env True 0 0 ''call [REDACTED:PHONE]'' ?s = (''SAFE'', ?s)"
    using proto reply by (simp add: ask_output_judge_def demo_output_env_def output_judge_def)
  then obtain d s' where a: "assess_output demo_output_env True 0 0 None (Some ''You are a bot.'') ?t ?s = ((''ALLOW'', d), s')"
    using no_secret no_leak demo_redaction by (simp add: assess_output_def demo_output_env_def clean_details_def Let_def)
  from allowed_output_is_clean [OF a] have "od_clean d = Some ''call [REDACTED:PHONE]''"
    using demo_redaction by (simp add: demo_output_env_def)
  with a show ?thesis by blast
qed

theorem entity_redaction_exact_witness:
  "fst (redact_entities [''PERSON''] ''Ann met Bob'' [(0, 3, ''PERSON''), (8, 11, ''PERSON'')])
     = ''[REDACTED:PERSON] met [REDACTED:PERSON]''"
proof -
  have "fst (redact_entities [''PERSON''] ''Ann met Bob'' [(0, 3, ''PERSON''), (8, 11, ''PERSON'')])
      = masked [''PERSON''] ''Ann met Bob'' 0 [(0, 3, ''PERSON''), (8, 11, ''PERSON'')]"
    by (rule entity_redaction_exact) simp
  also have "\<dots> = ''[REDACTED:PERSON] met [REDACTED:PERSON]''" by code_simp
  finally show ?thesis .
qed

end
