(* ===== verification/Audit_Store.thy ===== *)
theory Audit_Store
  imports Json "HOL-Library.List_Lexorder" "HOL-Library.Char_ord" "HOL-Library.Product_Lexorder"
begin

text \<open>
  The SQLite mirror of the audit trail, \<open>core/audit_store.py\<close>: one table per event type, the
  write of one record, and the two queries.

  A table is its rows in the order of their ids; a row is its columns with their values, and a
  value comes back as it was stored.  \<open>dumps\<close> and \<open>loads\<close> are \<open>json.dumps\<close> and \<open>json.loads\<close>.
  Connection and schema statements have no part in the model; \<open>ok\<close> says whether the statement
  and its commit succeed.
\<close>

section \<open>Definitions from the code\<close>

type_synonym entry = "(string \<times> json) list"
type_synonym audit_db = "string \<Rightarrow> entry list"

definition known_event_types :: "string list" where
  "known_event_types = [''input_assessment'', ''output_assessment'', ''gateway_call'', ''tool_call'']"

definition audit_columns :: "string \<Rightarrow> string list option" where
  "audit_columns table =
     (if table = ''input_assessment'' then
        Some [''timestamp'', ''request_id'', ''tenant'', ''capability'', ''risk'', ''decision'',
              ''prompt_hash'', ''semantic_score'', ''source'', ''educational_context'',
              ''domain_score'', ''symbolic_triggered'', ''judge_invoked'']
      else if table = ''output_assessment'' then
        Some [''timestamp'', ''request_id'', ''tenant'', ''capability'', ''decision'', ''response_hash'',
              ''pii_leakage'', ''secrets_detected'', ''toxicity_detected'', ''hallucination_detected'',
              ''system_prompt_leak_detected'', ''source'']
      else if table = ''gateway_call'' then
        Some [''timestamp'', ''request_id'', ''tenant'', ''capability'', ''provider'', ''model'', ''success'',
              ''latency_ms'', ''decision'', ''usage_json'', ''error'']
      else if table = ''tool_call'' then
        Some [''timestamp'', ''request_id'', ''tenant'', ''capability'', ''tool'', ''decision'', ''risk_level'',
              ''reason'', ''arguments_hash'', ''success'', ''error'']
      else None)"

definition bool_columns :: "string list" where
  "bool_columns =
     [''educational_context'', ''symbolic_triggered'', ''judge_invoked'', ''pii_leakage'', ''secrets_detected'',
      ''toxicity_detected'', ''hallucination_detected'', ''system_prompt_leak_detected'', ''success'']"

text \<open>\<open>d.get(k)\<close>.\<close>

definition entry_get :: "entry \<Rightarrow> string \<Rightarrow> json" where
  "entry_get e k = (case map_of e k of None \<Rightarrow> JNull | Some v \<Rightarrow> v)"

definition coerce_value :: "(json \<Rightarrow> string) \<Rightarrow> entry \<Rightarrow> string \<Rightarrow> json" where
  "coerce_value dumps e col =
     (if col = ''usage_json'' then
        (let usage = entry_get e ''usage'' in if usage \<noteq> JNull then JStr (dumps usage) else JNull)
      else if col \<in> set bool_columns then
        (let v = entry_get e col in if v = JNull then JNull else JInt (if truthy v then 1 else 0))
      else entry_get e col)"

text \<open>What the driver can bind: no list, no dictionary, no integer beyond 64 bits.\<close>

definition bindable :: "json \<Rightarrow> bool" where
  "bindable v = (case v of JList l \<Rightarrow> False | JDict d \<Rightarrow> False | JInt i \<Rightarrow> - (2 ^ 63) \<le> i \<and> i < 2 ^ 63 | _ \<Rightarrow> True)"

definition coerce_row :: "(json \<Rightarrow> string) \<Rightarrow> string \<Rightarrow> string list \<Rightarrow> entry \<Rightarrow> entry" where
  "coerce_row dumps event_type cols e = (''event_type'', JStr event_type) # map (\<lambda>c. (c, coerce_value dumps e c)) cols"

definition legacy_row :: "(json \<Rightarrow> string) \<Rightarrow> entry \<Rightarrow> entry" where
  "legacy_row dumps e =
     [(''event_type'', JStr ''legacy''), (''timestamp'', entry_get e ''timestamp''),
      (''request_id'', entry_get e ''request_id''), (''tenant'', entry_get e ''tenant''),
      (''raw_json'', JStr (dumps (JDict e)))]"

definition store_write :: "(json \<Rightarrow> string) \<Rightarrow> bool \<Rightarrow> string \<Rightarrow> entry \<Rightarrow> audit_db \<Rightarrow> (py_error, audit_db) res" where
  "store_write dumps ok event_type e db =
     (let (table, row) = (case audit_columns event_type of
                            Some cols \<Rightarrow> (event_type, coerce_row dumps event_type cols e)
                          | None \<Rightarrow> (''legacy_event'', legacy_row dumps e))
      in if ok \<and> list_all bindable (map snd row) then Inr (db(table := db table @ [row]))
         else Inl (OtherError ''sqlite3.Error''))"

definition from_bool_column :: "string \<Rightarrow> json \<Rightarrow> json" where
  "from_bool_column col v = (if col \<in> set bool_columns \<and> v \<noteq> JNull then JBool (truthy v) else v)"

definition set_missing :: "string \<Rightarrow> json \<Rightarrow> entry \<Rightarrow> entry" where
  "set_missing k v e = (if map_of e k = None then e @ [(k, v)] else e)"

definition usage_value :: "(string \<Rightarrow> json) \<Rightarrow> json \<Rightarrow> json" where
  "usage_value loads raw = (case raw of JStr (c # s) \<Rightarrow> loads (c # s) | _ \<Rightarrow> JNull)"

definition decode_usage :: "(string \<Rightarrow> json) \<Rightarrow> entry \<Rightarrow> entry" where
  "decode_usage loads e =
     (case map_of e ''usage_json'' of
        None \<Rightarrow> e
      | Some raw \<Rightarrow> filter (\<lambda>(k, v). k \<noteq> ''usage_json'') e @ [(''usage'', usage_value loads raw)])"

definition row_to_record :: "(string \<Rightarrow> json) \<Rightarrow> entry \<Rightarrow> entry" where
  "row_to_record loads row =
     (let rec1 = decode_usage loads (map (\<lambda>(k, v). (k, from_bool_column k v)) row)
      in if entry_get rec1 ''event_type'' = JStr ''legacy'' \<and> truthy (entry_get rec1 ''raw_json'') then
           (let base = dict_items (loads (py_str (entry_get rec1 ''raw_json'')));
                et = (if truthy (entry_get base ''event_type'') then entry_get base ''event_type'' else JStr ''legacy'');
                ten = (if truthy (entry_get rec1 ''tenant'') then entry_get rec1 ''tenant'' else JStr ''unset'')
            in set_missing ''capability'' (JStr ''unset'') (set_missing ''tenant'' ten (od_set ''event_type'' et base)))
         else
           (let rec2 = filter (\<lambda>(k, v). k \<noteq> ''raw_json'') rec1;
                et = (if truthy (entry_get rec2 ''event_type'') then entry_get rec2 ''event_type'' else JStr ''legacy'')
            in set_missing ''capability'' (JStr ''unset'') (set_missing ''tenant'' (JStr ''unset'') (od_set ''event_type'' et rec2))))"

definition table_of :: "string \<Rightarrow> string option" where
  "table_of et = (if et \<in> set known_event_types then Some et else if et = ''legacy'' then Some ''legacy_event'' else None)"

text \<open>\<open>r.get(k) or ""\<close> for the sort keys, which are text.\<close>

definition text_or_empty :: "entry \<Rightarrow> string \<Rightarrow> string" where
  "text_or_empty r k = (case entry_get r k of JStr s \<Rightarrow> s | _ \<Rightarrow> [])"

definition event_key :: "entry \<Rightarrow> string \<times> string" where
  "event_key r = (text_or_empty r ''timestamp'', text_or_empty r ''event_type'')"

text \<open>\<open>sort(key=f, reverse=True)\<close>: descending, equal keys in their old order.\<close>

fun insert_desc :: "('a \<Rightarrow> 'b::linorder) \<Rightarrow> 'a \<Rightarrow> 'a list \<Rightarrow> 'a list" where
  "insert_desc f x [] = [x]"
| "insert_desc f x (y # ys) = (if f y \<le> f x then x # y # ys else y # insert_desc f x ys)"

fun sort_desc :: "('a \<Rightarrow> 'b::linorder) \<Rightarrow> 'a list \<Rightarrow> 'a list" where
  "sort_desc f [] = []"
| "sort_desc f (x # xs) = insert_desc f x (sort_desc f xs)"

definition tenant_is :: "string option \<Rightarrow> entry \<Rightarrow> bool" where
  "tenant_is tenant row = (case tenant of None \<Rightarrow> True | Some t \<Rightarrow> entry_get row ''tenant'' = JStr t)"

text \<open>The rows of one type, newest id first.\<close>

definition newest_rows :: "audit_db \<Rightarrow> string option \<Rightarrow> string \<Rightarrow> entry list" where
  "newest_rows db tenant et =
     (case table_of et of None \<Rightarrow> [] | Some table \<Rightarrow> rev (filter (tenant_is tenant) (db table)))"

definition clamp_recent :: "int \<Rightarrow> nat" where
  "clamp_recent limit = nat (max 1 (min limit 200))"

text \<open>\<open>wanted\<close>: the requested types, or all of them; in the order the set is walked.\<close>

definition recent :: "(string \<Rightarrow> json) \<Rightarrow> audit_db \<Rightarrow> int \<Rightarrow> string option \<Rightarrow> string list \<Rightarrow> entry list" where
  "recent loads db limit tenant wanted =
     (let n = clamp_recent limit;
          rows = concat (map (\<lambda>et. take n (newest_rows db tenant et)) wanted)
      in take n (sort_desc event_key (map (row_to_record loads) rows)))"

definition by_request_id :: "(string \<Rightarrow> json) \<Rightarrow> audit_db \<Rightarrow> string \<Rightarrow> string option \<Rightarrow> entry list" where
  "by_request_id loads db request_id tenant =
     (let rows = concat (map (\<lambda>table. filter (\<lambda>row. entry_get row ''request_id'' = JStr request_id \<and> tenant_is tenant row) (db table))
                   (known_event_types @ [''legacy_event'']))
      in sort_key event_key (map (row_to_record loads) rows))"

section \<open>Truncating before the merge\<close>

lemma set_insert_desc [simp]: "set (insert_desc f x ys) = insert x (set ys)"
  by (induction ys) auto

lemma set_sort_desc [simp]: "set (sort_desc f xs) = set xs"
  by (induction xs) auto

lemma length_insert_desc [simp]: "length (insert_desc f x ys) = Suc (length ys)"
  by (induction ys) auto

lemma length_sort_desc [simp]: "length (sort_desc f xs) = length xs"
  by (induction xs) simp_all

lemma insert_desc_sorted: "sorted_wrt (\<lambda>x y. f y \<le> f x) zs \<Longrightarrow> sorted_wrt (\<lambda>x y. f y \<le> f x) (insert_desc f y zs)"
  by (induction zs) (auto intro: order_trans)

lemma sort_desc_sorted: "sorted_wrt (\<lambda>x y. f y \<le> f x) (sort_desc f xs)"
  by (induction xs) (simp_all add: insert_desc_sorted)

lemma insert_desc_before:
  assumes "f b \<le> f x"
  shows "insert_desc f x (us @ b # vs) = insert_desc f x us @ b # vs"
  using assms by (induction us) auto

lemma insert_desc_front:
  assumes "\<forall>v \<in> set vs. f v \<le> f x"
  shows "insert_desc f x (us @ vs) = insert_desc f x us @ vs"
  using assms by (induction us) (cases vs; auto)+

lemma insert_desc_after:
  assumes "\<forall>u \<in> set us. f x < f u"
  shows "insert_desc f x (us @ vs) = us @ insert_desc f x vs"
  using assms by (induction us) auto

text \<open>
  Adding \<open>b\<close> to a list only moves what sorts after it, and everything that stands before \<open>b\<close>
  with a key at least as great sorts before it.
\<close>

lemma sort_desc_insert_point:
  "\<exists>us vs. sort_desc f (xs @ ys) = us @ vs \<and> sort_desc f (xs @ b # ys) = us @ b # vs
     \<and> (\<forall>u \<in> set us. f b \<le> f u) \<and> (\<forall>v \<in> set vs. f v \<le> f b)
     \<and> length (filter (\<lambda>x. f b \<le> f x) xs) \<le> length us"
proof (induction xs)
  case Nil
  have "\<exists>us vs. zs = us @ vs \<and> insert_desc f b zs = us @ b # vs \<and> (\<forall>u \<in> set us. f b \<le> f u) \<and> (\<forall>v \<in> set vs. f v \<le> f b)"
    if "sorted_wrt (\<lambda>x y. f y \<le> f x) zs" for zs
    using that
  proof (induction zs)
    case (Cons z zs)
    then obtain us vs where "zs = us @ vs" "insert_desc f b zs = us @ b # vs" "\<forall>u \<in> set us. f b \<le> f u" "\<forall>v \<in> set vs. f v \<le> f b"
      by auto
    then show ?case
    proof (cases "f z \<le> f b")
      case True
      then show ?thesis using Cons.prems by (intro exI [of _ "[]"] exI [of _ "z # zs"]) auto
    next
      case False
      then show ?thesis using \<open>zs = us @ vs\<close> \<open>insert_desc f b zs = us @ b # vs\<close> \<open>\<forall>u \<in> set us. f b \<le> f u\<close> \<open>\<forall>v \<in> set vs. f v \<le> f b\<close>
        by (intro exI [of _ "z # us"] exI [of _ vs]) auto
    qed
  qed simp
  moreover have "sorted_wrt (\<lambda>x y. f y \<le> f x) (sort_desc f ys)" by (rule sort_desc_sorted)
  ultimately show ?case by fastforce
next
  case (Cons x xs)
  then obtain us vs where d: "sort_desc f (xs @ ys) = us @ vs" "sort_desc f (xs @ b # ys) = us @ b # vs"
    "\<forall>u \<in> set us. f b \<le> f u" "\<forall>v \<in> set vs. f v \<le> f b" "length (filter (\<lambda>x. f b \<le> f x) xs) \<le> length us"
    by blast
  show ?case
  proof (cases "f b \<le> f x")
    case True
    have "\<forall>v \<in> set vs. f v \<le> f x" using d(4) True by (meson order_trans)
    then show ?thesis
      using d True by (intro exI [of _ "insert_desc f x us"] exI [of _ vs]) (simp add: insert_desc_front insert_desc_before)
  next
    case False
    then have "\<forall>u \<in> set us. f x < f u" using d(3) by (meson less_le_trans not_le)
    then show ?thesis
      using d False
      by (intro exI [of _ us] exI [of _ "insert_desc f x vs"]) (auto simp: insert_desc_after)
  qed
qed

lemma sort_desc_drop_one:
  assumes "n \<le> length (filter (\<lambda>x. f b \<le> f x) xs)"
  shows "take n (sort_desc f (xs @ b # ys)) = take n (sort_desc f (xs @ ys))"
  using sort_desc_insert_point [of f xs ys b] assms by auto

lemma sort_desc_drop_many:
  assumes "\<forall>b \<in> set bs. n \<le> length (filter (\<lambda>x. f b \<le> f x) xs)"
  shows "take n (sort_desc f (xs @ bs @ ys)) = take n (sort_desc f (xs @ ys))"
  using assms by (induction bs) (simp_all add: sort_desc_drop_one)

definition descends :: "('a \<Rightarrow> 'b::linorder) \<Rightarrow> 'a list \<Rightarrow> bool" where
  "descends f zs = sorted_wrt (\<lambda>x y. f y \<le> f x) zs"

lemma descends_take_drop:
  assumes "descends f zs" "x \<in> set (take n zs)" "b \<in> set (drop n zs)"
  shows "f b \<le> f x"
  using assms unfolding descends_def by (metis append_take_drop_id sorted_wrt_append)

lemma sort_desc_truncate:
  assumes "descends f zs"
  shows "take n (sort_desc f (xs @ take n zs @ ys)) = take n (sort_desc f (xs @ zs @ ys))"
proof (cases "length zs \<le> n")
  case False
  have "n \<le> length (filter (\<lambda>x. f b \<le> f x) (xs @ take n zs))" if "b \<in> set (drop n zs)" for b
  proof -
    have "filter (\<lambda>x. f b \<le> f x) (take n zs) = take n zs"
      using descends_take_drop [OF assms _ that] by (simp add: filter_id_conv)
    then show ?thesis using False by simp
  qed
  then have "take n (sort_desc f ((xs @ take n zs) @ drop n zs @ ys)) = take n (sort_desc f ((xs @ take n zs) @ ys))"
    by (intro sort_desc_drop_many) blast
  then show ?thesis by (metis append.assoc append_take_drop_id)
qed simp

lemma sort_desc_truncate_all:
  assumes "\<forall>zs \<in> set zss. descends f zs"
  shows "take n (sort_desc f (xs @ concat (map (take n) zss))) = take n (sort_desc f (xs @ concat zss))"
  using assms
proof (induction zss arbitrary: xs)
  case (Cons zs zss)
  then show ?case
    using sort_desc_truncate [of f zs n xs "concat zss"] Cons.IH [of "xs @ take n zs"] by simp
qed simp

section \<open>Reading back what was written\<close>

lemma set_missing_get: "map_of (set_missing k v e) x = (case map_of e x of None \<Rightarrow> if x = k then Some v else None | Some w \<Rightarrow> Some w)"
  by (cases "map_of e k") (auto simp: set_missing_def map_add_def split: option.split)

lemma map_of_od_get: "map_of e k = od_get e k"
  by (simp add: od_get_def)

lemma map_of_map_val: "map_of (map (\<lambda>(k, v). (k, g k v)) e) x = map_option (g x) (map_of e x)"
  by (induction e) auto

lemma map_of_filter_ne: "x \<noteq> k \<Longrightarrow> map_of (filter (\<lambda>(a, v). a \<noteq> k) e) x = map_of e x"
  by (induction e) auto

lemma map_of_cols: "map_of (map (\<lambda>c. (c, g c)) cols) x = (if x \<in> set cols then Some (g x) else None)"
  by (induction cols) auto

lemma od_set_map_of: "map_of (od_set k v e) x = (if x = k then Some v else map_of e x)"
  by (simp add: map_of_od_get)

lemma decode_usage_other: "k \<notin> {''usage'', ''usage_json''} \<Longrightarrow> map_of (decode_usage loads e) k = map_of e k"
  by (auto simp: decode_usage_def map_add_def map_of_filter_ne split: option.split)

lemma decode_usage_usage:
  "map_of e ''usage'' = None \<Longrightarrow> map_of e ''usage_json'' = Some raw \<Longrightarrow> map_of (decode_usage loads e) ''usage'' = Some (usage_value loads raw)"
  by (simp add: decode_usage_def map_add_def map_of_filter_ne)

lemma row_to_record_plain:
  assumes "map_of row ''event_type'' = Some (JStr et)" "et \<notin> {[], ''legacy''}"
  shows "row_to_record loads row =
    set_missing ''capability'' (JStr ''unset'') (set_missing ''tenant'' (JStr ''unset'')
      (od_set ''event_type'' (JStr et)
        (filter (\<lambda>(k, v). k \<noteq> ''raw_json'') (decode_usage loads (map (\<lambda>(k, v). (k, from_bool_column k v)) row)))))"
proof -
  let ?e = "decode_usage loads (map (\<lambda>(k, v). (k, from_bool_column k v)) row)"
  have "map_of ?e ''event_type'' = Some (JStr et)"
    using assms(1) by (simp add: decode_usage_other map_of_map_val from_bool_column_def bool_columns_def)
  then have "entry_get ?e ''event_type'' = JStr et"
    "entry_get (filter (\<lambda>(k, v). k \<noteq> ''raw_json'') ?e) ''event_type'' = JStr et"
    by (simp_all add: entry_get_def map_of_filter_ne)
  then show ?thesis
    using assms(2) unfolding row_to_record_def Let_def by simp
qed

lemma record_get:
  assumes "map_of row ''event_type'' = Some (JStr et)" "et \<notin> {[], ''legacy''}"
    and "map_of (decode_usage loads (map (\<lambda>(k, v). (k, from_bool_column k v)) row)) k = Some v"
    and "k \<notin> {''event_type'', ''raw_json''}"
  shows "map_of (row_to_record loads row) k = Some v"
  using assms(3,4)
  by (simp add: row_to_record_plain [OF assms(1,2)] set_missing_get od_set_map_of map_of_filter_ne)

lemma record_column:
  assumes "map_of row ''event_type'' = Some (JStr et)" "et \<notin> {[], ''legacy''}" "map_of row k = Some v"
    and "k \<notin> {''event_type'', ''usage_json'', ''usage'', ''raw_json''}"
  shows "map_of (row_to_record loads row) k = Some (from_bool_column k v)"
  using assms(3,4) by (intro record_get [OF assms(1,2)]) (auto simp: decode_usage_other map_of_map_val)

lemma record_usage:
  assumes "map_of row ''event_type'' = Some (JStr et)" "et \<notin> {[], ''legacy''}"
    and "map_of row ''usage_json'' = Some raw" "map_of row ''usage'' = None"
  shows "map_of (row_to_record loads row) ''usage'' = Some (usage_value loads raw)"
  using assms(3,4)
  by (intro record_get [OF assms(1,2)] decode_usage_usage)
    (simp_all add: map_of_map_val from_bool_column_def bool_columns_def)

lemma record_event_type:
  assumes "map_of row ''event_type'' = Some (JStr et)" "et \<notin> {[], ''legacy''}"
  shows "map_of (row_to_record loads row) ''event_type'' = Some (JStr et)"
  by (simp add: row_to_record_plain [OF assms] set_missing_get od_set_map_of)

lemma audit_columns_known: "audit_columns et = Some cols \<Longrightarrow> et \<in> set known_event_types"
  by (auto simp: audit_columns_def known_event_types_def split: if_splits)

lemma coerce_row_get:
  "map_of (coerce_row dumps et cols e) k =
     (if k = ''event_type'' then Some (JStr et) else if k \<in> set cols then Some (coerce_value dumps e k) else None)"
  by (simp add: coerce_row_def map_of_cols)

lemma audit_columns_props:
  "audit_columns et = Some cols \<Longrightarrow>
    ''event_type'' \<notin> set cols \<and> ''usage'' \<notin> set cols \<and> ''raw_json'' \<notin> set cols \<and> ''request_id'' \<in> set cols \<and> ''tenant'' \<in> set cols
    \<and> (et = ''gateway_call'' \<longrightarrow> ''usage_json'' \<in> set cols)"
  by (auto simp: audit_columns_def split: if_splits)

lemma bool_roundtrip:
  assumes "v = JNull \<or> is_bool v" "entry_get e k = v"
  shows "k \<noteq> ''usage_json'' \<Longrightarrow> from_bool_column k (coerce_value dumps e k) = v"
  using assms by (cases v) (auto simp: from_bool_column_def coerce_value_def)

section \<open>Properties\<close>

text \<open>
  The feed from the store is exact: although each table gives at most \<open>limit\<close> rows, the
  answer is the newest \<open>limit\<close> records of all wanted types taken together, provided every
  table holds its records in time order.
\<close>

theorem recent_is_newest:
  assumes "\<forall>et \<in> set wanted. \<forall>table. table_of et = Some table \<longrightarrow>
      sorted (map (\<lambda>row. event_key (row_to_record loads row)) (filter (tenant_is tenant) (db table)))"
  shows "recent loads db limit tenant wanted =
    take (clamp_recent limit) (sort_desc event_key
      (map (row_to_record loads) (concat (map (newest_rows db tenant) wanted))))"
proof -
  let ?n = "clamp_recent limit" and ?f = "\<lambda>et. map (row_to_record loads) (newest_rows db tenant et)"
  have "descends event_key (?f et)" if "et \<in> set wanted" for et
    using assms that
    by (cases "table_of et")
      (auto simp: newest_rows_def descends_def sorted_wrt_map sorted_wrt_rev sorted_map)
  then have "take ?n (sort_desc event_key ([] @ concat (map (take ?n) (map ?f wanted)))) =
      take ?n (sort_desc event_key ([] @ concat (map ?f wanted)))"
    by (intro sort_desc_truncate_all) auto
  then show ?thesis by (simp add: recent_def Let_def map_concat comp_def take_map)
qed

text \<open>
  A mirrored record can be read back: after a successful write the query by request
  identifier returns a record of the written type that agrees with the written one on every
  column, the flags as booleans and the token usage as the parsed value it was.
\<close>

theorem mirror_roundtrip:
  assumes "audit_columns et = Some cols" "store_write dumps ok et e db = Inr db'"
    and "entry_get e ''request_id'' = JStr rid" "tenant_is tenant e"
    and "\<forall>k \<in> set bool_columns. entry_get e k = JNull \<or> is_bool (entry_get e k)"
    and "dumps (entry_get e ''usage'') \<noteq> []" "loads (dumps (entry_get e ''usage'')) = entry_get e ''usage''"
  shows "\<exists>r \<in> set (by_request_id loads db' rid tenant). map_of r ''event_type'' = Some (JStr et)
    \<and> (\<forall>k \<in> set cols - {''usage_json''}. map_of r k = Some (entry_get e k))
    \<and> (et = ''gateway_call'' \<longrightarrow> map_of r ''usage'' = Some (entry_get e ''usage''))"
proof -
  let ?row = "coerce_row dumps et cols e"
  note cols = audit_columns_props [OF assms(1)]
  have known: "et \<in> set known_event_types" using assms(1) by (rule audit_columns_known)
  then have et: "et \<notin> {[], ''legacy''}" by (auto simp: known_event_types_def)
  have db': "db' = db(et := db et @ [?row])"
    using assms(1,2) by (auto simp: store_write_def Let_def split: if_splits)
  have ty: "map_of ?row ''event_type'' = Some (JStr et)" by (simp add: coerce_row_get)
  have same: "entry_get ?row k = entry_get e k" if "k \<in> {''request_id'', ''tenant''}" for k
    using that cols by (auto simp: entry_get_def [of ?row] coerce_row_get coerce_value_def bool_columns_def)
  have "entry_get ?row ''request_id'' = JStr rid" "tenant_is tenant ?row"
    using assms(3,4) same by (simp_all add: tenant_is_def split: option.splits)
  then have mem: "row_to_record loads ?row \<in> set (by_request_id loads db' rid tenant)"
    using known by (auto simp: by_request_id_def Let_def db' intro!: imageI)
  have "map_of (row_to_record loads ?row) k = Some (entry_get e k)" if k: "k \<in> set cols - {''usage_json''}" for k
  proof -
    have ne: "k \<notin> {''event_type'', ''usage_json'', ''usage'', ''raw_json''}" using k cols by auto
    have "map_of ?row k = Some (coerce_value dumps e k)" using k ne by (simp add: coerce_row_get)
    from record_column [OF ty et this ne]
    have "map_of (row_to_record loads ?row) k = Some (from_bool_column k (coerce_value dumps e k))" .
    moreover have "from_bool_column k (coerce_value dumps e k) = entry_get e k"
      using bool_roundtrip [OF _ refl, of e k dumps] assms(5) ne
      by (cases "k \<in> set bool_columns") (auto simp: from_bool_column_def coerce_value_def)
    ultimately show ?thesis by simp
  qed
  moreover have "map_of (row_to_record loads ?row) ''usage'' = Some (entry_get e ''usage'')" if "et = ''gateway_call''"
  proof -
    have "map_of (row_to_record loads ?row) ''usage'' = Some (usage_value loads (coerce_value dumps e ''usage_json''))"
      using cols that by (intro record_usage [OF ty et]) (simp_all add: coerce_row_get)
    moreover have "usage_value loads (coerce_value dumps e ''usage_json'') = entry_get e ''usage''"
      using assms(6,7) by (auto simp: usage_value_def coerce_value_def Let_def split: list.split)
    ultimately show ?thesis by simp
  qed
  ultimately show ?thesis using mem record_event_type [OF ty et] by blast
qed

section \<open>Witnesses\<close>

definition example_entry :: "string \<Rightarrow> string \<Rightarrow> entry" where
  "example_entry ts rid =
     [(''timestamp'', JStr ts), (''request_id'', JStr rid), (''tenant'', JStr ''acme''), (''success'', JBool True),
      (''usage'', JDict [(''total_tokens'', JInt 7)])]"

definition example_dumps :: "json \<Rightarrow> string" where
  "example_dumps j = (if j = JNull then ''null'' else ''7'')"

definition example_loads :: "string \<Rightarrow> json" where
  "example_loads s = JDict [(''total_tokens'', JInt 7)]"

definition example_db :: audit_db where
  "example_db = (\<lambda>t. if t = ''gateway_call''
     then map (coerce_row example_dumps t (the (audit_columns t))) [example_entry ''T1'' ''r1'', example_entry ''T3'' ''r1'']
     else if t = ''tool_call'' then [coerce_row example_dumps t (the (audit_columns t)) (example_entry ''T2'' ''r2'')]
     else [])"

theorem recent_is_newest_witness:
  "map (\<lambda>r. map_of r ''timestamp'') (recent example_loads example_db 2 (Some ''acme'') [''tool_call'', ''gateway_call''])
     = [Some (JStr ''T3''), Some (JStr ''T2'')]"
proof -
  have "\<forall>et \<in> set [''tool_call'', ''gateway_call'']. \<forall>table. table_of et = Some table \<longrightarrow>
      sorted (map (\<lambda>row. event_key (row_to_record example_loads row)) (filter (tenant_is (Some ''acme'')) (example_db table)))"
  proof -
    have "sorted (map (\<lambda>row. event_key (row_to_record example_loads row)) (filter (tenant_is (Some ''acme'')) (example_db t)))"
      if "t \<in> {''tool_call'', ''gateway_call''}" for t
      using that by (elim insertE emptyE) (simp_all only:, code_simp+)
    then show ?thesis by (auto simp: table_of_def known_event_types_def)
  qed
  from recent_is_newest [OF this, of 2]
  show ?thesis by (simp only:) code_simp
qed

theorem mirror_roundtrip_witness:
  "\<exists>db' r. store_write example_dumps True ''gateway_call'' (example_entry ''T1'' ''r1'') (\<lambda>_. []) = Inr db'
     \<and> r \<in> set (by_request_id example_loads db' ''r1'' (Some ''acme'')) \<and> map_of r ''success'' = Some (JBool True)
     \<and> map_of r ''usage'' = Some (JDict [(''total_tokens'', JInt 7)])"
proof -
  let ?cols = "the (audit_columns ''gateway_call'')"
  obtain db' where w: "store_write example_dumps True ''gateway_call'' (example_entry ''T1'' ''r1'') (\<lambda>_. []) = Inr db'"
    by (simp add: store_write_def audit_columns_def example_entry_def coerce_row_def coerce_value_def entry_get_def
        bindable_def bool_columns_def Let_def)
  have c: "audit_columns ''gateway_call'' = Some ?cols" by (simp add: audit_columns_def)
  have "\<exists>r \<in> set (by_request_id example_loads db' ''r1'' (Some ''acme'')). map_of r ''event_type'' = Some (JStr ''gateway_call'')
    \<and> (\<forall>k \<in> set ?cols - {''usage_json''}. map_of r k = Some (entry_get (example_entry ''T1'' ''r1'') k))
    \<and> (''gateway_call'' = ''gateway_call'' \<longrightarrow> map_of r ''usage'' = Some (entry_get (example_entry ''T1'' ''r1'') ''usage''))"
    by (rule mirror_roundtrip [OF c w]) (simp_all add: example_entry_def entry_get_def tenant_is_def bool_columns_def
        example_dumps_def example_loads_def)
  moreover have "''success'' \<in> set ?cols - {''usage_json''}" by (simp add: audit_columns_def)
  ultimately show ?thesis
    using w by (fastforce simp: example_entry_def entry_get_def)
qed

end
