(* ===== verification/Tools.thy ===== *)
theory Tools
  imports Json "HOL-Library.List_Lexorder" "HOL-Library.Char_ord"
begin

text \<open>
  The tool gateway: specifications, argument validation, access control, the registry and the
  gated execution of \<open>core/tools.py\<close>, and its Model Context Protocol form
  (\<open>core/mcp_compat.py\<close>, the dispatch of \<open>core/mcp_server.py\<close>).

  A handler is a function of its keyword arguments and a world it may change; its result is
  a value or the text of the exception it raised.  Appending to the audit log does not fail
  here.
\<close>

section \<open>Specifications\<close>

record tool_spec =
  sp_name :: string
  sp_description :: string
  sp_parameters :: json
  sp_risk_level :: string
  sp_capability :: string

definition valid_risk_levels :: "string list" where
  "valid_risk_levels = [''LOW'', ''MEDIUM'', ''HIGH'']"

definition tool_capabilities :: "string list" where
  "tool_capabilities = [''GENERAL'', ''ELEVATED'', ''INTERNAL'']"

definition capability_rank :: "string \<Rightarrow> nat option" where
  "capability_rank c =
     (if c = ''GENERAL'' then Some 0 else if c = ''ELEVATED'' then Some 1 else if c = ''INTERNAL'' then Some 2 else None)"

text \<open>\<open>__post_init__\<close>; the annotation of \<open>parameters\<close> is a dictionary.\<close>

definition check_tool_spec :: "tool_spec \<Rightarrow> (py_error, unit) res" where
  "check_tool_spec sp =
     (if str_strip (sp_name sp) = [] then Inl (ValueError ''tool name must be non-empty'')
      else if str_strip (sp_description sp) = [] then Inl (ValueError ''non-empty description'')
      else if sp_risk_level sp \<notin> set valid_risk_levels then Inl (ValueError ''risk_level'')
      else if sp_capability sp \<notin> set tool_capabilities then Inl (ValueError ''capability_required'')
      else if jget_or (sp_parameters sp) ''type'' JNull \<noteq> JStr ''object'' then Inl (ValueError ''parameters'')
      else if \<not> is_dict (jget_or (sp_parameters sp) ''properties'' (JDict [])) then Inl (ValueError ''properties'')
      else Inr ())"

section \<open>Argument validation\<close>

text \<open>What a \<open>for\<close> loop over a value yields.\<close>

definition iterate :: "json \<Rightarrow> (py_error, json list) res" where
  "iterate j =
     (case j of JList l \<Rightarrow> Inr l | JStr s \<Rightarrow> Inr (map (\<lambda>c. JStr [c]) s) | JDict d \<Rightarrow> Inr (map (JStr \<circ> fst) d)
      | _ \<Rightarrow> Inl (TypeError ''not iterable''))"

definition hashable :: "json \<Rightarrow> bool" where
  "hashable j = (\<not> is_list j \<and> \<not> is_dict j)"

text \<open>\<open>x in d\<close> for a dictionary with string keys.\<close>

definition key_in :: "json \<Rightarrow> (string \<times> json) list \<Rightarrow> (py_error, bool) res" where
  "key_in x d =
     (if \<not> hashable x then Inl (TypeError ''unhashable type'')
      else Inr (case x of JStr k \<Rightarrow> map_of d k \<noteq> None | _ \<Rightarrow> False))"

fun check_required :: "json list \<Rightarrow> (string \<times> json) list \<Rightarrow> (py_error, string option) res" where
  "check_required [] args = Inr None"
| "check_required (f # fs) args =
     bind_res (key_in f args) (\<lambda>b.
       if b then check_required fs args else Inr (Some (''missing required argument: '' @ py_repr f)))"

text \<open>\<open>isinstance(value, _JSON_SCHEMA_TYPES[name])\<close>; \<open>None\<close> for a name that is not a key.\<close>

definition has_schema_type :: "string \<Rightarrow> json \<Rightarrow> bool option" where
  "has_schema_type name v =
     (if name = ''string'' then Some (is_str v)
      else if name = ''number'' then Some (is_int v \<or> is_float v)
      else if name = ''integer'' then Some (is_int v)
      else if name = ''boolean'' then Some (is_bool v)
      else if name = ''array'' then Some (is_list v)
      else if name = ''object'' then Some (is_dict v)
      else None)"

definition check_type :: "string \<Rightarrow> json \<Rightarrow> json \<Rightarrow> (py_error, string option) res" where
  "check_type key ty v =
     (if (ty = JStr ''integer'' \<or> ty = JStr ''number'') \<and> is_bool v
      then Inr (Some (''argument '' @ repr_str key @ '' must be of type '' @ py_repr ty @ '', got bool''))
      else if \<not> hashable ty then Inl (TypeError ''unhashable type'')
      else case ty of
             JStr name \<Rightarrow>
               (if has_schema_type name v = Some False
                then Inr (Some (''argument '' @ repr_str key @ '' must be of type '' @ py_repr ty @ '', got '' @ type_name v))
                else Inr None)
           | _ \<Rightarrow> Inr None)"

text \<open>\<open>value in enum\<close>.\<close>

definition enum_contains :: "json \<Rightarrow> json \<Rightarrow> (py_error, bool) res" where
  "enum_contains v enum =
     (case enum of
        JList l \<Rightarrow> Inr (list_ex (py_eq v) l)
      | JStr s \<Rightarrow> (case v of JStr t \<Rightarrow> Inr (str_contains t s) | _ \<Rightarrow> Inl (TypeError ''in <string>''))
      | JDict d \<Rightarrow> key_in v d
      | _ \<Rightarrow> Inl (TypeError ''not iterable''))"

definition check_enum :: "string \<Rightarrow> json \<Rightarrow> json \<Rightarrow> (py_error, string option) res" where
  "check_enum key enum v =
     (if enum = JNull then Inr None
      else bind_res (enum_contains v enum) (\<lambda>b.
        Inr (if b then None
             else Some (''argument '' @ repr_str key @ '' must be one of '' @ py_repr enum @ '', got '' @ py_repr v))))"

text \<open>\<open>n > max_length\<close>.\<close>

definition longer_than :: "nat \<Rightarrow> json \<Rightarrow> (py_error, bool) res" where
  "longer_than n m =
     (case num_value m of
        Some r \<Rightarrow> Inr (real n > r)
      | None \<Rightarrow> (case m of JInf p \<Rightarrow> Inr (\<not> p) | JNaN \<Rightarrow> Inr False | _ \<Rightarrow> Inl (TypeError ''not supported'')))"

definition check_length :: "string \<Rightarrow> json \<Rightarrow> json \<Rightarrow> (py_error, string option) res" where
  "check_length key m v =
     (case v of
        JStr s \<Rightarrow>
          (if m = JNull then Inr None
           else bind_res (longer_than (length s) m) (\<lambda>b.
             Inr (if b then Some (''argument '' @ repr_str key @ '' exceeds maxLength '' @ py_str m
                                  @ '' (got '' @ int_str (int (length s)) @ '' chars)'') else None)))
      | _ \<Rightarrow> Inr None)"

text \<open>One argument: unknown, or its type, enumeration and length in this order.\<close>

definition check_argument :: "(string \<times> json) list \<Rightarrow> string \<Rightarrow> json \<Rightarrow> (py_error, string option) res" where
  "check_argument props key v =
     (case map_of props key of
        None \<Rightarrow> Inr (Some (''unknown argument: '' @ repr_str key))
      | Some (JDict p) \<Rightarrow>
          bind_res (check_type key (jget_or (JDict p) ''type'' JNull) v) (\<lambda>t.
            if t \<noteq> None then Inr t
            else bind_res (check_enum key (jget_or (JDict p) ''enum'' JNull) v) (\<lambda>e.
              if e \<noteq> None then Inr e else check_length key (jget_or (JDict p) ''maxLength'' JNull) v))
      | Some _ \<Rightarrow> Inl (AttributeError ''get''))"

fun check_arguments :: "(string \<times> json) list \<Rightarrow> (string \<times> json) list \<Rightarrow> (py_error, string option) res" where
  "check_arguments props [] = Inr None"
| "check_arguments props ((k, v) # args) =
     bind_res (check_argument props k v) (\<lambda>m. if m \<noteq> None then Inr m else check_arguments props args)"

definition validate_arguments :: "tool_spec \<Rightarrow> json \<Rightarrow> (py_error, bool \<times> string) res" where
  "validate_arguments sp arguments =
     (case arguments of
        JDict args \<Rightarrow>
          bind_res (iterate (jget_or (sp_parameters sp) ''required'' (JList []))) (\<lambda>req.
          bind_res (check_required req args) (\<lambda>m1.
            if m1 \<noteq> None then Inr (False, the m1)
            else bind_res (check_arguments (dict_items (jget_or (sp_parameters sp) ''properties'' (JDict []))) args) (\<lambda>m2.
              Inr (if m2 \<noteq> None then (False, the m2) else (True, ''ok'')))))
      | _ \<Rightarrow> Inr (False, ''arguments must be a JSON object''))"

section \<open>The decision\<close>

text \<open>\<open>CAPABILITY_RANK[...]\<close> raises for a capability the constructor would not have let through.\<close>

definition check_tool_access :: "string \<Rightarrow> tool_spec \<Rightarrow> (py_error, bool \<times> string) res" where
  "check_tool_access capability sp =
     (case capability_rank capability of
        None \<Rightarrow> Inr (False, ''unrecognised capability '' @ repr_str capability @ ''; access denied'')
      | Some c \<Rightarrow>
          (case capability_rank (sp_capability sp) of
             None \<Rightarrow> Inl (KeyError (sp_capability sp))
           | Some r \<Rightarrow>
               Inr (if c < r then (False, ''tool '' @ repr_str (sp_name sp) @ '' requires '' @ repr_str (sp_capability sp)
                                     @ '' capability, caller has '' @ repr_str capability)
                    else (True, ''ok''))))"

record tool_result =
  tr_decision :: string
  tr_reason :: string
  tr_tool :: string
  tr_risk :: "string option"
  tr_output :: "json option"
  tr_error :: "string option"

definition tool_verdict :: "string \<Rightarrow> string \<Rightarrow> string \<Rightarrow> string option \<Rightarrow> tool_result" where
  "tool_verdict decision reason tool risk =
     \<lparr>tr_decision = decision, tr_reason = reason, tr_tool = tool, tr_risk = risk, tr_output = None, tr_error = None\<rparr>"

definition decide_tool_call :: "string \<Rightarrow> tool_spec \<Rightarrow> json \<Rightarrow> (py_error, tool_result) res" where
  "decide_tool_call capability sp arguments =
     bind_res (check_tool_access capability sp) (\<lambda>(ok, why).
       if \<not> ok then Inr (tool_verdict ''BLOCK'' why (sp_name sp) (Some (sp_risk_level sp)))
       else bind_res (validate_arguments sp arguments) (\<lambda>(valid, detail).
         Inr (if \<not> valid then tool_verdict ''BLOCK'' detail (sp_name sp) (Some (sp_risk_level sp))
              else if sp_risk_level sp = ''HIGH''
              then tool_verdict ''REVIEW'' (''tool '' @ repr_str (sp_name sp) @ '' is HIGH risk; human approval required'')
                     (sp_name sp) (Some (sp_risk_level sp))
              else tool_verdict ''ALLOW'' ''ok'' (sp_name sp) (Some (sp_risk_level sp)))))"

section \<open>Registry and execution\<close>

type_synonym 'w handler = "(string \<times> json) list \<Rightarrow> 'w \<Rightarrow> (string, json) res \<times> 'w"

record 'w registry =
  rg_tools :: "(string, tool_spec) odict"
  rg_handlers :: "(string, 'w handler) odict"

definition empty_registry :: "'w registry" where
  "empty_registry = \<lparr>rg_tools = [], rg_handlers = []\<rparr>"

definition register_tool :: "tool_spec \<Rightarrow> 'w handler option \<Rightarrow> 'w registry \<Rightarrow> (py_error, 'w registry) res" where
  "register_tool sp handler r =
     (if od_get (rg_tools r) (sp_name sp) \<noteq> None
      then Inl (ValueError (''tool '' @ repr_str (sp_name sp) @ '' is already registered''))
      else Inr (r\<lparr>rg_tools := od_set (sp_name sp) sp (rg_tools r),
                  rg_handlers := (case handler of None \<Rightarrow> rg_handlers r | Some h \<Rightarrow> od_set (sp_name sp) h (rg_handlers r))\<rparr>))"

definition unknown_tool :: "'w registry \<Rightarrow> string \<Rightarrow> string" where
  "unknown_tool r name =
     ''unknown tool '' @ repr_str name @ ''; available: '' @ py_repr (JList (map JStr (sort (map fst (rg_tools r)))))"

definition get_tool :: "'w registry \<Rightarrow> string \<Rightarrow> (py_error, tool_spec) res" where
  "get_tool r name = (case od_get (rg_tools r) name of None \<Rightarrow> Inl (KeyError (unknown_tool r name)) | Some sp \<Rightarrow> Inr sp)"

definition get_handler :: "'w registry \<Rightarrow> string \<Rightarrow> (py_error, 'w handler option) res" where
  "get_handler r name =
     (if od_get (rg_tools r) name = None then Inl (KeyError (unknown_tool r name)) else Inr (od_get (rg_handlers r) name))"

definition list_tools :: "'w registry \<Rightarrow> tool_spec list" where
  "list_tools r = map snd (rg_tools r)"

record tool_event =
  te_capability :: string
  te_tool :: string
  te_decision :: string
  te_risk :: "string option"
  te_reason :: string
  te_arguments :: json
  te_success :: "bool option"
  te_error :: "string option"
  te_tenant :: string
  te_request_id :: string

record 'w gateway =
  gw_audit :: "tool_event list"
  gw_world :: 'w

definition log_tool :: "tool_event \<Rightarrow> 'w gateway \<Rightarrow> 'w gateway" where
  "log_tool e g = g\<lparr>gw_audit := gw_audit g @ [e]\<rparr>"

text \<open>\<open>str(e)\<close> of a \<open>KeyError\<close> is the \<open>repr\<close> of its argument.\<close>

definition execute_tool ::
  "'w registry \<Rightarrow> string \<Rightarrow> string \<Rightarrow> json \<Rightarrow> string \<Rightarrow> string \<Rightarrow> 'w gateway
   \<Rightarrow> (py_error, tool_result) res \<times> 'w gateway" where
  "execute_tool r capability name arguments tenant rid g =
     (let ev = (\<lambda>decision risk reason success error.
             \<lparr>te_capability = capability, te_tool = name, te_decision = decision, te_risk = risk, te_reason = reason,
              te_arguments = arguments, te_success = success, te_error = error, te_tenant = tenant, te_request_id = rid\<rparr>)
      in case get_tool r name of
           Inl e \<Rightarrow>
             (let detail = repr_str (unknown_tool r name) in
              (Inr (tool_verdict ''BLOCK'' detail name None), log_tool (ev ''BLOCK'' None detail None None) g))
         | Inr sp \<Rightarrow>
             (case decide_tool_call capability sp arguments of
                Inl e \<Rightarrow> (Inl e, g)
              | Inr res \<Rightarrow>
                  if tr_decision res \<noteq> ''ALLOW'' then
                    (Inr res, log_tool (ev (tr_decision res) (Some (sp_risk_level sp)) (tr_reason res) None None) g)
                  else case od_get (rg_handlers r) name of
                         None \<Rightarrow>
                           (let detail = ''tool '' @ repr_str name @ '' has no registered handler'' in
                            (Inr (tool_verdict ''BLOCK'' detail name (Some (sp_risk_level sp))),
                             log_tool (ev ''BLOCK'' (Some (sp_risk_level sp)) detail None None) g))
                       | Some h \<Rightarrow>
                           (case h (dict_items arguments) (gw_world g) of
                              (Inl error, w) \<Rightarrow>
                                (Inr (res\<lparr>tr_error := Some error\<rparr>),
                                 log_tool (ev ''ALLOW'' (Some (sp_risk_level sp)) (tr_reason res) (Some False) (Some error))
                                   (g\<lparr>gw_world := w\<rparr>))
                            | (Inr out, w) \<Rightarrow>
                                (Inr (res\<lparr>tr_output := Some out\<rparr>),
                                 log_tool (ev ''ALLOW'' (Some (sp_risk_level sp)) (tr_reason res) (Some True) None)
                                   (g\<lparr>gw_world := w\<rparr>)))))"

section \<open>Model Context Protocol\<close>

definition tool_spec_to_mcp :: "tool_spec \<Rightarrow> json" where
  "tool_spec_to_mcp sp =
     JDict [(''name'', JStr (sp_name sp)), (''description'', JStr (sp_description sp)), (''inputSchema'', sp_parameters sp)]"

definition list_mcp_tools :: "'w registry \<Rightarrow> json" where
  "list_mcp_tools r = JList (map tool_spec_to_mcp (list_tools r))"

definition mcp_content :: "string \<Rightarrow> bool \<Rightarrow> json" where
  "mcp_content text is_error =
     JDict [(''content'', JList [JDict [(''type'', JStr ''text''), (''text'', JStr text)]]), (''isError'', JBool is_error)]"

definition mcp_result :: "tool_result \<Rightarrow> json" where
  "mcp_result res =
     (if tr_decision res \<in> {''BLOCK'', ''REVIEW''} then mcp_content (tr_decision res @ '': '' @ tr_reason res) True
      else case tr_error res of
             Some e \<Rightarrow> mcp_content (''Tool execution failed: '' @ e) True
           | None \<Rightarrow> mcp_content (py_str (case tr_output res of None \<Rightarrow> JNull | Some o1 \<Rightarrow> o1)) False)"

definition handle_mcp_tool_call ::
  "'w registry \<Rightarrow> string \<Rightarrow> string \<Rightarrow> json \<Rightarrow> string \<Rightarrow> string \<Rightarrow> 'w gateway \<Rightarrow> (py_error, json) res \<times> 'w gateway" where
  "handle_mcp_tool_call r capability name arguments tenant rid g =
     (let (res, g') = execute_tool r capability name arguments tenant rid g
      in (bind_res res (\<lambda>x. Inr (mcp_result x)), g'))"

definition mcp_response :: "json \<Rightarrow> string \<Rightarrow> json \<Rightarrow> json" where
  "mcp_response msg_id kind body = JDict [(''jsonrpc'', JStr ''2.0''), (''id'', msg_id), (kind, body)]"

definition mcp_error :: "json \<Rightarrow> int \<Rightarrow> string \<Rightarrow> json" where
  "mcp_error msg_id code message =
     mcp_response msg_id ''error'' (JDict [(''code'', JInt code), (''message'', JStr message)])"

definition initialize_result :: json where
  "initialize_result =
     JDict [(''protocolVersion'', JStr ''2024-11-05''), (''capabilities'', JDict [(''tools'', JDict [])]),
            (''serverInfo'', JDict [(''name'', JStr ''gatekeeper''), (''version'', JStr ''1.0.0'')])]"

text \<open>\<open>x or {}\<close>.\<close>

definition or_empty :: "json \<Rightarrow> json" where
  "or_empty j = (if truthy j then j else JDict [])"

text \<open>\<open>rid\<close> is the fresh request id; \<open>params.get\<close> raises when the parameters are not an object.\<close>

definition handle_request ::
  "'w registry \<Rightarrow> string \<Rightarrow> string \<Rightarrow> string \<Rightarrow> (string \<times> json) list \<Rightarrow> 'w gateway
   \<Rightarrow> (py_error, json option) res \<times> 'w gateway" where
  "handle_request r capability tenant rid msg g =
     (let has_id = (map_of msg ''id'' \<noteq> None);
          msg_id = jget_or (JDict msg) ''id'' JNull;
          reply = (\<lambda>j. if has_id then Some j else None)
      in case jget_or (JDict msg) ''method'' JNull of
           JStr method \<Rightarrow>
             (let params = or_empty (jget_or (JDict msg) ''params'' JNull) in
              if method = ''initialize'' then (Inr (Some (mcp_response msg_id ''result'' initialize_result)), g)
              else if method = ''notifications/initialized'' then (Inr None, g)
              else if method = ''tools/list'' then
                (Inr (Some (mcp_response msg_id ''result'' (JDict [(''tools'', list_mcp_tools r)]))), g)
              else if method = ''tools/call'' then
                (case params of
                   JDict ps \<Rightarrow>
                     (case jget_or (JDict ps) ''name'' JNull of
                        JStr (c # name) \<Rightarrow>
                          (let arguments = or_empty (jget_or (JDict ps) ''arguments'' JNull) in
                           if \<not> is_dict arguments then
                             (Inr (reply (mcp_error msg_id (- 32602) (repr_str ''params.arguments'' @ '' must be an object.''))), g)
                           else
                             let (res, g') = handle_mcp_tool_call r capability (c # name) arguments tenant rid g
                             in (bind_res res (\<lambda>x. Inr (reply (mcp_response msg_id ''result'' x))), g'))
                      | _ \<Rightarrow> (Inr (reply (mcp_error msg_id (- 32602) (repr_str ''params.name'' @ '' must be a non-empty string.''))), g))
                 | _ \<Rightarrow> (Inl (AttributeError ''get''), g))
              else (Inr (reply (mcp_error msg_id (- 32601) (''Unknown method: '' @ repr_str method))), g))
         | _ \<Rightarrow> (Inr (reply (mcp_error msg_id (- 32600) (''Request must have a string '' @ repr_str ''method'' @ ''.''))), g))"


section \<open>The demo tools\<close>

text \<open>
  The world of \<open>core/demo_tools.py\<close> is its in-memory database.  Validation has left exactly the
  declared keyword arguments; a missing one is the \<open>TypeError\<close> of the call.
\<close>

type_synonym database = "(string, json list) odict"

definition fake_database :: database where
  "fake_database =
     [(''orders'', [JDict [(''id'', JInt 1), (''customer'', JStr ''acme''), (''total'', JFloat (85 / 2) ''42.5'')],
                  JDict [(''id'', JInt 2), (''customer'', JStr ''globex''), (''total'', JFloat 17 ''17.0'')]]),
      (''customers'', [JDict [(''id'', JInt 1), (''name'', JStr ''acme'')], JDict [(''id'', JInt 2), (''name'', JStr ''globex'')]])]"

definition with_arg :: "string \<Rightarrow> (string \<times> json) list \<Rightarrow> (json \<Rightarrow> (string, json) res \<times> 'w) \<Rightarrow> 'w \<Rightarrow> (string, json) res \<times> 'w" where
  "with_arg k args f w = (case map_of args k of None \<Rightarrow> (Inl (''TypeError: missing argument '' @ k), w) | Some v \<Rightarrow> f v)"

definition demo_echo :: "'w handler" where
  "demo_echo args w = with_arg ''text'' args (\<lambda>v. (Inr v, w)) w"

text \<open>\<open>float_repr\<close> is the \<open>repr\<close> of a float sum.\<close>

definition demo_add :: "(real \<Rightarrow> string) \<Rightarrow> 'w handler" where
  "demo_add float_repr args w =
     with_arg ''a'' args (\<lambda>a. with_arg ''b'' args (\<lambda>b.
       (case (a, b) of
          (JInt i, JInt j) \<Rightarrow> Inr (JInt (i + j))
        | _ \<Rightarrow> (case (num_value a, num_value b) of
                 (Some x, Some y) \<Rightarrow> Inr (JFloat (x + y) (float_repr (x + y)))
               | _ \<Rightarrow> Inr JNaN), w)) w) w"

text \<open>\<open>rows[:n]\<close>: a negative bound counts from the end.\<close>

definition slice_to :: "int \<Rightarrow> 'a list \<Rightarrow> 'a list" where
  "slice_to n xs = take (nat (if n < 0 then int (length xs) + n else n)) xs"

definition rows_of :: "database \<Rightarrow> json \<Rightarrow> json list" where
  "rows_of db table = (case table of JStr t \<Rightarrow> (case od_get db t of None \<Rightarrow> [] | Some rows \<Rightarrow> rows) | _ \<Rightarrow> [])"

definition demo_database_query :: "database handler" where
  "demo_database_query args db =
     with_arg ''table'' args (\<lambda>table.
       (case map_of args ''limit'' of
          None \<Rightarrow> Inr (JList (slice_to 10 (rows_of db table)))
        | Some (JInt n) \<Rightarrow> Inr (JList (slice_to n (rows_of db table)))
        | Some _ \<Rightarrow> Inl ''TypeError: slice indices must be integers'', db)) db"

definition demo_database_delete :: "database handler" where
  "demo_database_delete args db =
     with_arg ''table'' args (\<lambda>table. with_arg ''row_id'' args (\<lambda>row_id.
       (let rows = rows_of db table;
            kept = filter (\<lambda>r. \<not> py_eq (jget_or r ''id'' JNull) row_id) rows;
            t = (case table of JStr t \<Rightarrow> t | _ \<Rightarrow> [])
        in (Inr (JDict [(''table'', table), (''id'', row_id), (''deleted'', JInt (int (length rows) - int (length kept)))]),
            od_set t kept db))) db) db"

definition object_schema :: "(string \<times> json) list \<Rightarrow> string list \<Rightarrow> json" where
  "object_schema props required =
     JDict [(''type'', JStr ''object''), (''properties'', JDict props), (''required'', JList (map JStr required))]"

definition typed :: "string \<Rightarrow> json" where
  "typed t = JDict [(''type'', JStr t)]"

definition table_schema :: json where
  "table_schema = JDict [(''type'', JStr ''string''), (''enum'', JList [JStr ''orders'', JStr ''customers''])]"

definition demo_tool_specs :: "tool_spec list" where
  "demo_tool_specs =
     [\<lparr>sp_name = ''demo.echo'', sp_description = ''Returns the text it was given'',
       sp_parameters = object_schema [(''text'', typed ''string'')] [''text''], sp_risk_level = ''LOW'', sp_capability = ''GENERAL''\<rparr>,
      \<lparr>sp_name = ''demo.calculator.add'', sp_description = ''Adds two numbers.'',
       sp_parameters = object_schema [(''a'', typed ''number''), (''b'', typed ''number'')] [''a'', ''b''],
       sp_risk_level = ''LOW'', sp_capability = ''GENERAL''\<rparr>,
      \<lparr>sp_name = ''demo.database.query'', sp_description = ''Reads rows from the in-memory demo database.'',
       sp_parameters = object_schema [(''table'', table_schema), (''limit'', typed ''integer'')] [''table''],
       sp_risk_level = ''MEDIUM'', sp_capability = ''ELEVATED''\<rparr>,
      \<lparr>sp_name = ''demo.database.delete'', sp_description = ''Deletes a row from the in-memory demo database by id.'',
       sp_parameters = object_schema [(''table'', table_schema), (''row_id'', typed ''integer'')] [''table'', ''row_id''],
       sp_risk_level = ''HIGH'', sp_capability = ''INTERNAL''\<rparr>]"

definition demo_handlers :: "(real \<Rightarrow> string) \<Rightarrow> database handler list" where
  "demo_handlers float_repr = [demo_echo, demo_add float_repr, demo_database_query, demo_database_delete]"

fun register_all :: "(tool_spec \<times> 'w handler) list \<Rightarrow> 'w registry \<Rightarrow> (py_error, 'w registry) res" where
  "register_all [] r = Inr r"
| "register_all ((sp, h) # ts) r =
     (if od_get (rg_tools r) (sp_name sp) \<noteq> None then register_all ts r
      else bind_res (register_tool sp (Some h) r) (register_all ts))"

definition register_demo_tools :: "(real \<Rightarrow> string) \<Rightarrow> database registry \<Rightarrow> (py_error, database registry) res" where
  "register_demo_tools float_repr r = register_all (zip demo_tool_specs (demo_handlers float_repr)) r"

section \<open>Lemmas\<close>

lemma check_arguments_ok:
  "check_arguments props args = Inr None \<longleftrightarrow> (\<forall>(k, v) \<in> set args. check_argument props k v = Inr None)"
  by (induction props args rule: check_arguments.induct) (auto simp: bind_res_Inr_iff split: sum.splits option.splits)

lemma check_required_ok:
  "check_required req args = Inr None \<longleftrightarrow> (\<forall>f \<in> set req. key_in f args = Inr True)"
  by (induction req args rule: check_required.induct) (auto simp: bind_res_Inr_iff)

lemma check_argument_ok:
  "check_argument props k v = Inr None \<longleftrightarrow>
   (\<exists>p. map_of props k = Some (JDict p) \<and> check_type k (jget_or (JDict p) ''type'' JNull) v = Inr None
     \<and> check_enum k (jget_or (JDict p) ''enum'' JNull) v = Inr None
     \<and> check_length k (jget_or (JDict p) ''maxLength'' JNull) v = Inr None)"
proof (cases "map_of props k")
  case (Some j)
  then show ?thesis
    by (cases j) (auto simp: check_argument_def bind_res_Inr_iff)
qed (simp add: check_argument_def)

lemma validate_ok:
  "validate_arguments sp arguments = Inr (True, m) \<longleftrightarrow>
   m = ''ok'' \<and> (\<exists>args req. arguments = JDict args
     \<and> iterate (jget_or (sp_parameters sp) ''required'' (JList [])) = Inr req
     \<and> check_required req args = Inr None
     \<and> check_arguments (dict_items (jget_or (sp_parameters sp) ''properties'' (JDict []))) args = Inr None)"
  by (auto simp: validate_arguments_def bind_res_Inr_iff split: json.splits if_splits)

lemma check_type_named:
  "check_type k (JStr name) v = Inr None \<longleftrightarrow>
   has_schema_type name v \<noteq> Some False \<and> (name \<in> {''integer'', ''number''} \<longrightarrow> \<not> is_bool v)"
  by (auto simp: check_type_def hashable_def)

lemma access_ok:
  "check_tool_access capability sp = Inr (True, m) \<longleftrightarrow>
   m = ''ok'' \<and> (\<exists>c k. capability_rank capability = Some c \<and> capability_rank (sp_capability sp) = Some k \<and> k \<le> c)"
  by (auto simp: check_tool_access_def split: option.splits)

lemma decide_allow:
  "decide_tool_call capability sp arguments = Inr res \<Longrightarrow>
   tr_decision res \<in> {''BLOCK'', ''REVIEW'', ''ALLOW''} \<and> tr_output res = None \<and> tr_error res = None \<and>
   (tr_decision res = ''ALLOW'' \<longleftrightarrow> (\<exists>m. check_tool_access capability sp = Inr (True, m))
      \<and> (\<exists>m. validate_arguments sp arguments = Inr (True, m)) \<and> sp_risk_level sp \<noteq> ''HIGH'')"
  by (auto simp: decide_tool_call_def bind_res_Inr_iff tool_verdict_def split: if_splits)

text \<open>What a call that returns has done.\<close>

lemma execute_tool_facts:
  assumes "execute_tool r capability name arguments tenant rid g = (Inr res, g')"
  shows "(\<exists>e. gw_audit g' = gw_audit g @ [e] \<and> te_decision e = tr_decision res \<and> te_reason e = tr_reason res
      \<and> te_tool e = name \<and> te_capability e = capability \<and> te_tenant e = tenant \<and> te_request_id e = rid)
    \<and> (if tr_decision res = ''ALLOW''
       then \<exists>sp h c k. od_get (rg_tools r) name = Some sp \<and> od_get (rg_handlers r) name = Some h
          \<and> capability_rank capability = Some c \<and> capability_rank (sp_capability sp) = Some k \<and> k \<le> c
          \<and> validate_arguments sp arguments = Inr (True, ''ok'') \<and> sp_risk_level sp \<noteq> ''HIGH''
          \<and> gw_world g' = snd (h (dict_items arguments) (gw_world g))
       else gw_world g' = gw_world g)"
proof (cases "od_get (rg_tools r) name")
  case None
  then show ?thesis
    using assms by (auto simp: execute_tool_def get_tool_def log_tool_def tool_verdict_def Let_def)
next
  case (Some sp)
  then obtain d where d: "decide_tool_call capability sp arguments = Inr d"
    using assms by (cases "decide_tool_call capability sp arguments") (auto simp: execute_tool_def get_tool_def Let_def)
  note da = decide_allow [OF d]
  show ?thesis
  proof (cases "tr_decision d = ''ALLOW''")
    case False
    then show ?thesis using assms Some d by (auto simp: execute_tool_def get_tool_def log_tool_def Let_def)
  next
    case True
    then obtain m1 m2 where g: "check_tool_access capability sp = Inr (True, m1)" "validate_arguments sp arguments = Inr (True, m2)"
        "sp_risk_level sp \<noteq> ''HIGH''" using da by blast
    show ?thesis
    proof (cases "od_get (rg_handlers r) name")
      case None
      then show ?thesis
        using assms Some d True by (auto simp: execute_tool_def get_tool_def log_tool_def tool_verdict_def Let_def)
    next
      case (Some h)
      obtain out w where h: "h (dict_items arguments) (gw_world g) = (out, w)" by (cases "h (dict_items arguments) (gw_world g)")
      have v: "validate_arguments sp arguments = Inr (True, ''ok'')" using g(2) by (simp add: validate_ok)
      have all: "gw_world g' = w \<and> tr_decision res = ''ALLOW'' \<and>
          (\<exists>e. gw_audit g' = gw_audit g @ [e] \<and> te_decision e = tr_decision res \<and> te_reason e = tr_reason res
            \<and> te_tool e = name \<and> te_capability e = capability \<and> te_tenant e = tenant \<and> te_request_id e = rid)"
        using assms d True Some h \<open>od_get (rg_tools r) name = Some sp\<close>
        by (cases out) (auto simp: execute_tool_def get_tool_def log_tool_def Let_def)
      have tr: "tr_decision res = ''ALLOW''" and w: "gw_world g' = snd (h (dict_items arguments) (gw_world g))"
        using all h by simp_all
      have ev: "\<exists>e. gw_audit g' = gw_audit g @ [e] \<and> te_decision e = tr_decision res \<and> te_reason e = tr_reason res
            \<and> te_tool e = name \<and> te_capability e = capability \<and> te_tenant e = tenant \<and> te_request_id e = rid"
        using all by blast
      obtain c k where ck: "capability_rank capability = Some c" "capability_rank (sp_capability sp) = Some k" "k \<le> c"
        using g(1) [unfolded access_ok] by blast
      show ?thesis
        unfolding if_P [OF tr]
        by (rule conjI [OF ev], intro exI conjI) (fact \<open>od_get (rg_tools r) name = Some sp\<close> Some ck v g(3) w)+
    qed
  qed
qed

section \<open>Properties\<close>

text \<open>
  Tool calls are gated and recorded.  Every call that returns appends exactly one audit
  event, with the decision, reason, caller and tenant of the answer.  The handler runs only for
  ALLOW, and ALLOW needs a registered tool with a handler, a caller whose rank reaches the
  tool's, valid arguments and a risk below HIGH; otherwise the world is untouched.
\<close>

theorem tool_call_gated:
  assumes "execute_tool r capability name arguments tenant rid g = (Inr res, g')"
  shows "(\<exists>e. gw_audit g' = gw_audit g @ [e] \<and> te_decision e = tr_decision res \<and> te_reason e = tr_reason res
      \<and> te_tool e = name \<and> te_capability e = capability \<and> te_tenant e = tenant \<and> te_request_id e = rid)
    \<and> (if tr_decision res = ''ALLOW''
       then \<exists>sp h c k. od_get (rg_tools r) name = Some sp \<and> od_get (rg_handlers r) name = Some h
          \<and> capability_rank capability = Some c \<and> capability_rank (sp_capability sp) = Some k \<and> k \<le> c
          \<and> validate_arguments sp arguments = Inr (True, ''ok'') \<and> sp_risk_level sp \<noteq> ''HIGH''
          \<and> gw_world g' = snd (h (dict_items arguments) (gw_world g))
       else gw_world g' = gw_world g)"
  using execute_tool_facts [OF assms] .

text \<open>
  Accepted arguments are well typed.  When validation accepts, the arguments are an object
  whose required keys are all present and whose every key is declared, and each value has its
  declared schema type, where a Boolean is never a number.
\<close>

theorem accepted_arguments_are_typed:
  assumes "validate_arguments sp arguments = Inr (True, m)"
  shows "\<exists>args req. arguments = JDict args
    \<and> iterate (jget_or (sp_parameters sp) ''required'' (JList [])) = Inr req
    \<and> (\<forall>f \<in> set req. \<exists>k. f = JStr k \<and> map_of args k \<noteq> None)
    \<and> (\<forall>(k, v) \<in> set args. \<exists>p. map_of (dict_items (jget_or (sp_parameters sp) ''properties'' (JDict []))) k = Some (JDict p)
        \<and> (\<forall>name. map_of p ''type'' = Some (JStr name) \<longrightarrow>
             has_schema_type name v \<noteq> Some False \<and> (name \<in> {''integer'', ''number''} \<longrightarrow> \<not> is_bool v)))"
proof -
  obtain args req where a: "arguments = JDict args" "iterate (jget_or (sp_parameters sp) ''required'' (JList [])) = Inr req"
      "check_required req args = Inr None"
      "check_arguments (dict_items (jget_or (sp_parameters sp) ''properties'' (JDict []))) args = Inr None"
    using assms unfolding validate_ok by (elim conjE exE) (rule that)
  have "\<exists>k. f = JStr k \<and> map_of args k \<noteq> None" if "f \<in> set req" for f
  proof -
    have "key_in f args = Inr True" using a(3) [unfolded check_required_ok] that by blast
    then show ?thesis by (cases f) (auto simp: key_in_def hashable_def)
  qed
  moreover have "\<exists>p. map_of (dict_items (jget_or (sp_parameters sp) ''properties'' (JDict []))) k = Some (JDict p)
        \<and> (\<forall>name. map_of p ''type'' = Some (JStr name) \<longrightarrow>
             has_schema_type name v \<noteq> Some False \<and> (name \<in> {''integer'', ''number''} \<longrightarrow> \<not> is_bool v))"
    if "(k, v) \<in> set args" for k v
  proof -
    have "check_argument (dict_items (jget_or (sp_parameters sp) ''properties'' (JDict []))) k v = Inr None"
      using a(4) [unfolded check_arguments_ok] that by blast
    then obtain p where p: "map_of (dict_items (jget_or (sp_parameters sp) ''properties'' (JDict []))) k = Some (JDict p)"
        "check_type k (jget_or (JDict p) ''type'' JNull) v = Inr None" unfolding check_argument_ok by blast
    have "has_schema_type name v \<noteq> Some False \<and> (name \<in> {''integer'', ''number''} \<longrightarrow> \<not> is_bool v)"
      if "map_of p ''type'' = Some (JStr name)" for name
      using p(2) that check_type_named [of k name v] by simp
    then show ?thesis using p(1) by blast
  qed
  ultimately show ?thesis using a(1,2) by blast
qed

text \<open>
  A union type is accepted at registration and breaks every call that uses it: for a tool
  whose schema gives an argument a list of types, a call with that argument raises a
  \<open>TypeError\<close> and leaves no audit event.
\<close>

theorem union_type_crashes_unaudited:
  assumes "od_get (rg_tools r) name = Some sp" "check_tool_spec sp = Inr ()"
    and "check_tool_access capability sp = Inr (True, m)"
    and "iterate (jget_or (sp_parameters sp) ''required'' (JList [])) = Inr req" "check_required req [(k, v)] = Inr None"
    and "map_of (dict_items (jget_or (sp_parameters sp) ''properties'' (JDict []))) k = Some (JDict p)"
    and "map_of p ''type'' = Some (JList ts)"
  shows "\<exists>e. execute_tool r capability name (JDict [(k, v)]) tenant rid g = (Inl (TypeError e), g)"
proof -
  have "\<exists>e. validate_arguments sp (JDict [(k, v)]) = Inl (TypeError e)"
    using assms(4-7) by (simp add: validate_arguments_def check_argument_def check_type_def hashable_def)
  then show ?thesis
    using assms(1,3) by (auto simp: execute_tool_def get_tool_def decide_tool_call_def)
qed

text \<open>
  Every protocol request is answered once, under its own identifier: a message with an
  identifier and any method but the initialisation notice gets a response that carries that
  identifier, whenever its handling does not raise.
\<close>

theorem mcp_request_answered:
  assumes "handle_request r capability tenant rid msg g = (Inr res, g')"
    and "map_of msg ''id'' = Some msg_id" "map_of msg ''method'' \<noteq> Some (JStr ''notifications/initialized'')"
  shows "\<exists>kind body. res = Some (mcp_response msg_id kind body) \<and> kind \<in> {''result'', ''error''}"
  using assms
  by (auto simp: handle_request_def mcp_error_def handle_mcp_tool_call_def Let_def bind_res_Inr_iff
      split: json.splits if_splits list.splits prod.splits option.splits)

text \<open>
  Notifications are answered too: \<open>initialize\<close> and \<open>tools/list\<close> without an identifier get a
  response with a null identifier.
\<close>

theorem mcp_notification_answered:
  assumes "map_of msg ''id'' = None" "map_of msg ''method'' = Some (JStr meth)" "meth \<in> {''initialize'', ''tools/list''}"
  shows "\<exists>body. handle_request r capability tenant rid msg g = (Inr (Some (mcp_response JNull ''result'' body)), g)"
  using assms(3) by (elim insertE emptyE) (auto simp: handle_request_def assms(1,2))


section \<open>Witnesses\<close>

definition demo_registry :: "database registry" where
  "demo_registry = (case register_demo_tools (\<lambda>x. ''?'') empty_registry of Inr r \<Rightarrow> r | Inl e \<Rightarrow> empty_registry)"

lemma demo_registry_entries:
  "od_get (rg_tools demo_registry) ''demo.database.query'' = Some (demo_tool_specs ! 2)"
  "od_get (rg_handlers demo_registry) ''demo.database.query'' = Some demo_database_query"
  "od_get (rg_tools demo_registry) ''demo.database.delete'' = Some (demo_tool_specs ! 3)"
  by (simp_all add: demo_registry_def register_demo_tools_def demo_tool_specs_def demo_handlers_def register_tool_def
      empty_registry_def)

definition query_args :: json where
  "query_args = JDict [(''table'', JStr ''customers''), (''limit'', JInt 1)]"

lemma query_valid: "validate_arguments (demo_tool_specs ! 2) query_args = Inr (True, ''ok'')"
  by code_simp

theorem tool_call_gated_witness:
  "\<exists>res g'. execute_tool demo_registry ''ELEVATED'' ''demo.database.query'' query_args ''acme'' ''r1''
       \<lparr>gw_audit = [], gw_world = fake_database\<rparr> = (Inr res, g')
    \<and> tr_decision res = ''ALLOW'' \<and> (\<exists>e. gw_audit g' = [e] \<and> te_decision e = ''ALLOW'')"
proof -
  have acc: "check_tool_access ''ELEVATED'' (demo_tool_specs ! 2) = Inr (True, ''ok'')" by code_simp
  have risk: "sp_risk_level (demo_tool_specs ! 2) = ''MEDIUM''" by (simp add: demo_tool_specs_def)
  have dec: "\<exists>d. decide_tool_call ''ELEVATED'' (demo_tool_specs ! 2) query_args = Inr d \<and> tr_decision d = ''ALLOW''"
    using acc query_valid risk by (simp add: decide_tool_call_def tool_verdict_def)
  have run: "demo_database_query (dict_items query_args) fake_database
      = (Inr (JList [JDict [(''id'', JInt 1), (''name'', JStr ''acme'')]]), fake_database)"
    by (simp add: demo_database_query_def query_args_def with_arg_def fake_database_def rows_of_def slice_to_def)
  from dec obtain res g' where r: "execute_tool demo_registry ''ELEVATED'' ''demo.database.query'' query_args ''acme'' ''r1''
       \<lparr>gw_audit = [], gw_world = fake_database\<rparr> = (Inr res, g')" "tr_decision res = ''ALLOW''"
    using run by (auto simp: execute_tool_def get_tool_def demo_registry_entries Let_def)
  from tool_call_gated [OF r(1)] r show ?thesis by auto
qed

theorem accepted_arguments_are_typed_witness:
  "\<exists>args. query_args = JDict args \<and> map_of args ''table'' \<noteq> None"
  using accepted_arguments_are_typed [OF query_valid]
  by (auto simp: demo_tool_specs_def object_schema_def iterate_def)

definition union_spec :: tool_spec where
  "union_spec =
     \<lparr>sp_name = ''note'', sp_description = ''Keeps a note.'',
      sp_parameters = object_schema [(''text'', JDict [(''type'', JList [JStr ''string'', JStr ''null''])])] [],
      sp_risk_level = ''LOW'', sp_capability = ''GENERAL''\<rparr>"

theorem union_type_crashes_unaudited_witness:
  "\<exists>e. execute_tool \<lparr>rg_tools = [(''note'', union_spec)], rg_handlers = []\<rparr> ''GENERAL'' ''note'' (JDict [(''text'', JStr ''hi'')])
     ''acme'' ''r1'' \<lparr>gw_audit = [], gw_world = ()\<rparr> = (Inl (TypeError e), \<lparr>gw_audit = [], gw_world = ()\<rparr>)"
proof (rule union_type_crashes_unaudited [where req = "[]" and ts = "[JStr ''string'', JStr ''null'']"
      and p = "[(''type'', JList [JStr ''string'', JStr ''null''])]"])
  show "check_tool_spec union_spec = Inr ()" by code_simp
  show "check_tool_access ''GENERAL'' union_spec = Inr (True, ''ok'')" by code_simp
qed (simp_all add: union_spec_def object_schema_def iterate_def)

theorem mcp_request_answered_witness:
  "\<exists>kind body. fst (handle_request demo_registry ''GENERAL'' ''mcp'' ''r1'' [(''id'', JInt 7), (''method'', JStr ''ping'')]
       \<lparr>gw_audit = [], gw_world = fake_database\<rparr>) = Inr (Some (mcp_response (JInt 7) kind body))"
proof -
  obtain res g' where r: "handle_request demo_registry ''GENERAL'' ''mcp'' ''r1'' [(''id'', JInt 7), (''method'', JStr ''ping'')]
       \<lparr>gw_audit = [], gw_world = fake_database\<rparr> = (Inr res, g')"
    by (simp add: handle_request_def)
  from mcp_request_answered [OF r, of "JInt 7"] show ?thesis using r by auto
qed

theorem mcp_notification_answered_witness:
  "\<exists>body. handle_request demo_registry ''GENERAL'' ''mcp'' ''r1'' [(''method'', JStr ''tools/list'')]
       \<lparr>gw_audit = [], gw_world = fake_database\<rparr> = (Inr (Some (mcp_response JNull ''result'' body)), \<lparr>gw_audit = [], gw_world = fake_database\<rparr>)"
  by (rule mcp_notification_answered [where meth = "''tools/list''"]) simp_all

end
