(* ===== verification/Audit_Trail.thy ===== *)
theory Audit_Trail
  imports Audit_Store Tools
begin

text \<open>
  The audit trail, \<open>core/logger.py\<close>: the four records, the JSONL line and the mirror, and
  \<open>_write_audit_or_fail\<close> of \<open>api/main.py\<close>.

  The JSONL line goes through a \<open>logging.FileHandler\<close>: when writing fails, the standard
  library's handler reports on stderr and returns, so a failed write loses the line and raises
  nothing.  The mirror raises.  \<open>log_ok k\<close> and \<open>db_ok k\<close> say how the \<open>k\<close>-th write goes.  A line
  is the \<open>extra\<close> dictionary; the formatter's own fields are left out.
\<close>

section \<open>Definitions from the code\<close>

record audit_config =
  ac_sqlite_enabled :: bool
  ac_read_from_sqlite :: bool
  ac_fails_closed :: bool

record audit_env =
  ae_sha :: "string \<Rightarrow> string"
  ae_dumps :: "json \<Rightarrow> string"
  ae_now :: string
  ae_log_ok :: "nat \<Rightarrow> bool"
  ae_db_ok :: "nat \<Rightarrow> bool"

record audit_state =
  au_log :: "entry list"
  au_db :: audit_db
  au_writes :: nat

definition mirror_to_sqlite :: "audit_config \<Rightarrow> audit_env \<Rightarrow> bool \<Rightarrow> string \<Rightarrow> entry \<Rightarrow> audit_db \<Rightarrow> (py_error, unit) res \<times> audit_db" where
  "mirror_to_sqlite cfg env ok event_type e db =
     (if \<not> ac_sqlite_enabled cfg then (Inr (), db)
      else case store_write (ae_dumps env) ok event_type e db of
             Inr db' \<Rightarrow> (Inr (), db')
           | Inl err \<Rightarrow> (if ac_read_from_sqlite cfg then Inl err else Inr (), db))"

text \<open>\<open>audit_logger.info\<close> and the mirror.\<close>

definition audit_write :: "audit_config \<Rightarrow> audit_env \<Rightarrow> string \<Rightarrow> entry \<Rightarrow> audit_state \<Rightarrow> (py_error, unit) res \<times> audit_state" where
  "audit_write cfg env event_type e s =
     (let k = au_writes s;
          (r, db) = mirror_to_sqlite cfg env (ae_db_ok env k) event_type e (au_db s)
      in (r, s\<lparr>au_log := (if ae_log_ok env k then au_log s @ [e] else au_log s), au_db := db, au_writes := Suc k\<rparr>))"

definition meta_or :: "entry \<Rightarrow> string \<Rightarrow> json \<Rightarrow> json" where
  "meta_or m k d = (case map_of m k of None \<Rightarrow> d | Some v \<Rightarrow> v)"

definition log_event ::
  "audit_config \<Rightarrow> audit_env \<Rightarrow> string \<Rightarrow> string \<Rightarrow> string \<Rightarrow> string \<Rightarrow> entry \<Rightarrow> audit_state \<Rightarrow> (py_error, unit) res \<times> audit_state" where
  "log_event cfg env capability prompt risk decision metadata =
     audit_write cfg env ''input_assessment''
       [(''timestamp'', JStr (ae_now env)), (''event_type'', JStr ''input_assessment''),
        (''request_id'', meta_or metadata ''request_id'' (JStr ''unset'')),
        (''tenant'', meta_or metadata ''tenant'' (JStr ''unset'')),
        (''capability'', JStr capability), (''risk'', JStr risk), (''decision'', JStr decision),
        (''prompt_hash'', JStr (ae_sha env prompt)),
        (''semantic_score'', meta_or metadata ''semantic_score'' (JFloat 0 ''0.0'')),
        (''source'', meta_or metadata ''source'' (JStr ''unknown'')),
        (''educational_context'', meta_or metadata ''educational_context'' (JBool False)),
        (''domain_score'', meta_or metadata ''domain_score'' JNull),
        (''symbolic_triggered'', meta_or metadata ''symbolic_triggered'' (JBool False)),
        (''judge_invoked'', meta_or metadata ''judge_invoked'' (JBool False))]"

definition log_output_event ::
  "audit_config \<Rightarrow> audit_env \<Rightarrow> string \<Rightarrow> string \<Rightarrow> string \<Rightarrow> entry \<Rightarrow> string \<Rightarrow> string \<Rightarrow> audit_state
   \<Rightarrow> (py_error, unit) res \<times> audit_state" where
  "log_output_event cfg env capability response decision metadata tenant rid =
     audit_write cfg env ''output_assessment''
       [(''timestamp'', JStr (ae_now env)), (''event_type'', JStr ''output_assessment''),
        (''request_id'', JStr rid), (''tenant'', JStr tenant), (''capability'', JStr capability),
        (''decision'', JStr decision), (''response_hash'', JStr (ae_sha env response)),
        (''pii_leakage'', meta_or metadata ''pii_leakage'' (JBool False)),
        (''secrets_detected'', meta_or metadata ''secrets_detected'' (JBool False)),
        (''toxicity_detected'', meta_or metadata ''toxicity_detected'' (JBool False)),
        (''hallucination_detected'', meta_or metadata ''hallucination_detected'' (JBool False)),
        (''system_prompt_leak_detected'', meta_or metadata ''system_prompt_leak_detected'' (JBool False)),
        (''source'', meta_or metadata ''source'' (JStr ''unknown''))]"

definition opt_str :: "string option \<Rightarrow> json" where
  "opt_str s = (case s of None \<Rightarrow> JNull | Some t \<Rightarrow> JStr t)"

definition log_gateway_event ::
  "audit_config \<Rightarrow> audit_env \<Rightarrow> string \<Rightarrow> string \<Rightarrow> json \<Rightarrow> bool \<Rightarrow> json \<Rightarrow> string \<Rightarrow> json \<Rightarrow> string option \<Rightarrow> string \<Rightarrow> string
   \<Rightarrow> audit_state \<Rightarrow> (py_error, unit) res \<times> audit_state" where
  "log_gateway_event cfg env capability provider model success latency_ms decision usage err tenant rid =
     audit_write cfg env ''gateway_call''
       [(''timestamp'', JStr (ae_now env)), (''event_type'', JStr ''gateway_call''), (''request_id'', JStr rid),
        (''tenant'', JStr tenant), (''capability'', JStr capability), (''provider'', JStr provider), (''model'', model),
        (''success'', JBool success), (''latency_ms'', latency_ms), (''decision'', JStr decision), (''usage'', usage),
        (''error'', opt_str err)]"

text \<open>The record written for a call of \<open>log_tool_event\<close>; the arguments appear as a hash only.\<close>

definition log_tool_event :: "audit_config \<Rightarrow> audit_env \<Rightarrow> tool_event \<Rightarrow> audit_state \<Rightarrow> (py_error, unit) res \<times> audit_state" where
  "log_tool_event cfg env ev =
     audit_write cfg env ''tool_call''
       [(''timestamp'', JStr (ae_now env)), (''event_type'', JStr ''tool_call''), (''request_id'', JStr (te_request_id ev)),
        (''tenant'', JStr (te_tenant ev)), (''capability'', JStr (te_capability ev)), (''tool'', JStr (te_tool ev)),
        (''decision'', JStr (te_decision ev)), (''risk_level'', opt_str (te_risk ev)), (''reason'', JStr (te_reason ev)),
        (''arguments_hash'', if te_arguments ev = JNull then JNull else JStr (ae_sha env (ae_dumps env (te_arguments ev)))),
        (''success'', case te_success ev of None \<Rightarrow> JNull | Some b \<Rightarrow> JBool b), (''error'', opt_str (te_error ev))]"

text \<open>\<open>True\<close>: go on; \<open>False\<close>: the request ends with 503.\<close>

definition write_audit_or_fail :: "audit_config \<Rightarrow> (audit_state \<Rightarrow> (py_error, unit) res \<times> audit_state) \<Rightarrow> audit_state \<Rightarrow> bool \<times> audit_state" where
  "write_audit_or_fail cfg audit_fn s =
     (case audit_fn s of
        (Inr u, s') \<Rightarrow> (True, s')
      | (Inl e, s') \<Rightarrow> (\<not> ac_fails_closed cfg, s'))"

section \<open>Lemmas\<close>

text \<open>The write raises exactly when SQLite is the read authority and its write fails.\<close>

lemma audit_write_raises:
  "(\<exists>e. fst (audit_write cfg env ty x s) = Inl e) \<longleftrightarrow>
     ac_sqlite_enabled cfg \<and> ac_read_from_sqlite cfg \<and> (\<exists>e. store_write (ae_dumps env) (ae_db_ok env (au_writes s)) ty x (au_db s) = Inl e)"
  by (auto simp: audit_write_def mirror_to_sqlite_def Let_def split: sum.splits prod.splits)

lemma audit_write_log:
  "au_log (snd (audit_write cfg env ty x s)) = (if ae_log_ok env (au_writes s) then au_log s @ [x] else au_log s)"
  "au_writes (snd (audit_write cfg env ty x s)) = Suc (au_writes s)"
  by (auto simp: audit_write_def Let_def split: prod.splits)

lemma audit_write_jsonl_only:
  assumes "\<not> ac_read_from_sqlite cfg"
  shows "fst (audit_write cfg env ty x s) = Inr ()"
  using assms by (auto simp: audit_write_def mirror_to_sqlite_def Let_def split: sum.splits prod.splits)

end
