(* ===== verification/Providers.thy ===== *)
theory Providers
  imports Json "HOL-Library.List_Lexorder" "HOL-Library.Char_ord"
begin

text \<open>
  The three chat backends of \<open>core/llm_providers.py\<close>: what each posts, how it reads the answer,
  and which failures it turns into \<open>LLMProviderError\<close>.

  A post is a function of URL, headers and payload: the text of the exception
  \<open>requests\<close> raised, or status, text and parsed body (\<open>None\<close> when \<open>response.json()\<close> raises).
\<close>

section \<open>Definitions from the code\<close>

datatype reply = NoReply string | Reply int string "json option"

type_synonym poster = "string \<Rightarrow> (string \<times> string) list \<Rightarrow> json \<Rightarrow> reply"

text \<open>What \<open>complete\<close> raises: its own exception, or another one that escapes it.\<close>

datatype complete_error = ProviderError string | Escaped py_error

record llm_response =
  lr_content :: json
  lr_model :: json
  lr_provider :: string
  lr_usage :: json

record provider_settings =
  pv_ollama_url :: string
  pv_ollama_model :: string
  pv_openai_key :: string
  pv_openai_url :: string
  pv_openai_model :: string
  pv_anthropic_key :: string
  pv_anthropic_url :: string
  pv_anthropic_model :: string
  pv_anthropic_version :: string

type_synonym message = "string \<times> string"

definition message_json :: "message \<Rightarrow> json" where
  "message_json m = JDict [(''role'', JStr (fst m)), (''content'', JStr (snd m))]"

text \<open>\<open>model or self.default_model\<close>.\<close>

definition model_or :: "string option \<Rightarrow> string \<Rightarrow> string" where
  "model_or model d = (case model of Some (c # m) \<Rightarrow> c # m | _ \<Rightarrow> d)"

definition rstrip_slash :: "string \<Rightarrow> string" where
  "rstrip_slash u = rev (dropWhile (\<lambda>c. c = CHR ''/'') (rev u))"

text \<open>\<open>str(e)\<close> of the exceptions that reading a body raises; \<open>caught\<close> is the \<open>except\<close> clause.\<close>

definition error_str :: "py_error \<Rightarrow> string" where
  "error_str e = (case e of KeyError k \<Rightarrow> repr_str k | ValueError m \<Rightarrow> m | IndexError m \<Rightarrow> m | TypeError m \<Rightarrow> m | _ \<Rightarrow> [])"

definition reads_body :: "string \<Rightarrow> (py_error \<Rightarrow> bool) \<Rightarrow> string \<Rightarrow> (json \<Rightarrow> (py_error, json) res) \<Rightarrow> reply
   \<Rightarrow> (complete_error, json \<times> json) res" where
  "reads_body name caught status_text path r =
     (case r of
        NoReply e \<Rightarrow> Inl (ProviderError (name @ '' request failed: '' @ e))
      | Reply status text body \<Rightarrow>
          if status \<noteq> 200 then Inl (ProviderError (status_text @ int_str status @ '': '' @ take 200 text))
          else case (case body of None \<Rightarrow> Inl (ValueError ''not JSON'') | Some data \<Rightarrow>
                       bind_res (path data) (\<lambda>content. Inr (data, content))) of
                 Inl e \<Rightarrow> if caught e then Inl (ProviderError (''Unrecognised '' @ name @ '' response shape: '' @ error_str e))
                          else Inl (Escaped e)
               | Inr x \<Rightarrow> Inr x)"

fun value_or_key :: "py_error \<Rightarrow> bool" where
  "value_or_key (ValueError m) = True"
| "value_or_key (KeyError k) = True"
| "value_or_key _ = False"

fun value_key_or_index :: "py_error \<Rightarrow> bool" where
  "value_key_or_index (IndexError m) = True"
| "value_key_or_index e = value_or_key e"

definition ollama_content :: "json \<Rightarrow> (py_error, json) res" where
  "ollama_content data = bind_res (subscript data ''message'') (\<lambda>m. subscript m ''content'')"

definition openai_content :: "json \<Rightarrow> (py_error, json) res" where
  "openai_content data =
     bind_res (subscript data ''choices'') (\<lambda>cs. bind_res (first_item cs) (\<lambda>c.
     bind_res (subscript c ''message'') (\<lambda>m. subscript m ''content'')))"

definition anthropic_content :: "json \<Rightarrow> (py_error, json) res" where
  "anthropic_content data =
     bind_res (subscript data ''content'') (\<lambda>cs. bind_res (first_item cs) (\<lambda>c. subscript c ''text''))"

definition ollama_complete ::
  "provider_settings \<Rightarrow> poster \<Rightarrow> message list \<Rightarrow> string option \<Rightarrow> (complete_error, llm_response) res" where
  "ollama_complete pv post messages model =
     (let m = model_or model (pv_ollama_model pv);
          payload = JDict [(''model'', JStr m), (''messages'', JList (map message_json messages)), (''stream'', JBool False)]
      in bind_res (reads_body ''Ollama'' value_or_key ''Ollama returned HTTP '' ollama_content
                     (post (pv_ollama_url pv) [] payload))
           (\<lambda>(data, content). Inr \<lparr>lr_content = content, lr_model = JStr m, lr_provider = ''ollama'', lr_usage = JNull\<rparr>))"

definition openai_complete ::
  "provider_settings \<Rightarrow> poster \<Rightarrow> message list \<Rightarrow> string option \<Rightarrow> (complete_error, llm_response) res" where
  "openai_complete pv post messages model =
     (let m = model_or model (pv_openai_model pv);
          headers = [(''Authorization'', ''Bearer '' @ pv_openai_key pv), (''Content-Type'', ''application/json'')];
          payload = JDict [(''model'', JStr m), (''messages'', JList (map message_json messages))]
      in if m = [] then Inl (ProviderError ''No model specified and no default configured (OPENAI_MODEL).'')
         else if pv_openai_key pv = [] then Inl (ProviderError ''No API key configured (OPENAI_API_KEY).'')
         else bind_res (reads_body ''OpenAI-compatible'' value_key_or_index ''OpenAI-compatible endpoint returned HTTP ''
                          openai_content (post (rstrip_slash (pv_openai_url pv) @ ''/chat/completions'') headers payload))
                (\<lambda>(data, content). Inr \<lparr>lr_content = content, lr_model = jget_or data ''model'' (JStr m),
                    lr_provider = ''openai_compatible'', lr_usage = jget_or data ''usage'' JNull\<rparr>))"

text \<open>The system messages travel in a field of their own.\<close>

definition system_text :: "message list \<Rightarrow> string option" where
  "system_text messages =
     (case filter (\<lambda>m. fst m = ''system'') messages of
        [] \<Rightarrow> None
      | m # ms \<Rightarrow> Some (foldl (\<lambda>t x. t @ [CHR 0x0A, CHR 0x0A] @ snd x) (snd m) ms))"

definition anthropic_complete ::
  "provider_settings \<Rightarrow> poster \<Rightarrow> message list \<Rightarrow> string option \<Rightarrow> (complete_error, llm_response) res" where
  "anthropic_complete pv post messages model =
     (let m = model_or model (pv_anthropic_model pv);
          headers = [(''x-api-key'', pv_anthropic_key pv), (''anthropic-version'', pv_anthropic_version pv),
                     (''Content-Type'', ''application/json'')];
          payload = JDict ([(''model'', JStr m),
                      (''messages'', JList (map message_json (filter (\<lambda>x. fst x \<noteq> ''system'') messages))),
                      (''max_tokens'', JInt 4096)]
                    @ (case system_text messages of None \<Rightarrow> [] | Some t \<Rightarrow> [(''system'', JStr t)]))
      in if m = [] then Inl (ProviderError ''No model specified and no default configured (ANTHROPIC_MODEL).'')
         else if pv_anthropic_key pv = [] then Inl (ProviderError ''No API key configured (ANTHROPIC_API_KEY).'')
         else bind_res (reads_body ''Anthropic-compatible'' value_key_or_index ''Anthropic-compatible endpoint returned HTTP ''
                          anthropic_content (post (rstrip_slash (pv_anthropic_url pv) @ ''/messages'') headers payload))
                (\<lambda>(data, content). Inr \<lparr>lr_content = content, lr_model = jget_or data ''model'' (JStr m),
                    lr_provider = ''anthropic_compatible'', lr_usage = jget_or data ''usage'' JNull\<rparr>))"

type_synonym complete_fn = "message list \<Rightarrow> string option \<Rightarrow> (complete_error, llm_response) res"

definition provider_names :: "string list" where
  "provider_names = [''ollama'', ''openai_compatible'', ''anthropic_compatible'']"

definition list_provider_names :: "string list" where
  "list_provider_names = sort provider_names"

definition get_provider :: "provider_settings \<Rightarrow> poster \<Rightarrow> string \<Rightarrow> (py_error, complete_fn) res" where
  "get_provider pv post name =
     (if name = ''ollama'' then Inr (ollama_complete pv post)
      else if name = ''openai_compatible'' then Inr (openai_complete pv post)
      else if name = ''anthropic_compatible'' then Inr (anthropic_complete pv post)
      else Inl (KeyError (''unknown provider '' @ repr_str name @ ''; available: '' @
                  py_repr (JList (map JStr list_provider_names)))))"

section \<open>Lemmas\<close>

lemma get_provider_known: "(\<exists>f. get_provider pv post name = Inr f) \<longleftrightarrow> name \<in> set provider_names"
  by (auto simp: get_provider_def provider_names_def)

text \<open>Which exceptions a path through the body can raise.\<close>

lemma subscript_error: "subscript j k = Inl e \<Longrightarrow> (\<exists>m. e = KeyError m) \<or> (\<exists>m. e = TypeError m)"
  by (auto simp: subscript_def split: json.splits option.splits)

lemma first_item_error: "first_item j = Inl e \<Longrightarrow> value_key_or_index e \<or> (\<exists>m. e = TypeError m)"
  by (auto simp: first_item_def split: json.splits list.splits)

lemma path_error:
  assumes "p \<in> {ollama_content, openai_content, anthropic_content}" "p j = Inl e"
  shows "value_key_or_index e \<or> (\<exists>m. e = TypeError m)"
  using assms
  by (auto simp: ollama_content_def openai_content_def anthropic_content_def bind_res_def
      dest!: subscript_error first_item_error split: sum.splits)

lemma ollama_error: "ollama_content j = Inl e \<Longrightarrow> value_or_key e \<or> (\<exists>m. e = TypeError m)"
  by (auto simp: ollama_content_def bind_res_def dest!: subscript_error split: sum.splits)

lemma reads_reply:
  "reads_body name caught st path (Reply 200 t (Some data)) =
    (case path data of
       Inl e \<Rightarrow> Inl (if caught e then ProviderError (''Unrecognised '' @ name @ '' response shape: '' @ error_str e) else Escaped e)
     | Inr content \<Rightarrow> Inr (data, content))"
  by (cases "path data") (simp_all add: reads_body_def bind_res_def)

lemma openai_reply:
  assumes "\<And>url hs pl. post url hs pl = Reply 200 t (Some data)" "pv_openai_key pv \<noteq> []" "model_or model (pv_openai_model pv) \<noteq> []"
  shows "openai_complete pv post ms model =
    bind_res (reads_body ''OpenAI-compatible'' value_key_or_index ''OpenAI-compatible endpoint returned HTTP '' openai_content (Reply 200 t (Some data)))
      (\<lambda>(data, content). Inr \<lparr>lr_content = content, lr_model = jget_or data ''model'' (JStr (model_or model (pv_openai_model pv))),
         lr_provider = ''openai_compatible'', lr_usage = jget_or data ''usage'' JNull\<rparr>)"
  using assms(2,3) by (simp add: openai_complete_def assms(1))

end
