(* ===== verification/Request_Gate.thy ===== *)
theory Request_Gate
  imports Auth Tenancy Rate_Limit Token_Quota Policy Risk Output_Guardrails Review_Queue Audit_Trail Providers
begin

text \<open>
  What every endpoint of \<open>api/main.py\<close> does first: correlation identifier, authentication,
  tenant, rate limit; and the state of the process the endpoints share.

  A request is handled at one instant: the clocks, the files on disk, the reachability of
  Redis and the outcomes of the bounded calls are those of \<open>api_env\<close>.  A worker that times out
  runs to its end, so its effects on the state stay.  A failure is a status with its headers
  (the detail texts are left out) or an exception the framework turns into 500.  Log lines and
  metrics are left out.
\<close>

section \<open>Configuration, environment and state\<close>

record api_config =
  cf_auth_mode :: string
  cf_rate_enabled :: bool
  cf_auth_rpm :: real
  cf_anon_rpm :: real
  cf_burst :: real
  cf_trust_forwarded :: bool
  cf_request_id_max :: nat
  cf_quota_enabled :: bool
  cf_quota_default :: int
  cf_default_provider :: string
  cf_fallback :: string
  cf_audit :: audit_config
  cf_risk :: risk_settings
  cf_rules :: symbolic_rules
  cf_providers :: provider_settings

text \<open>The parts of the HTTP request the boundary reads.\<close>

record http_request =
  hr_authorization :: "string option"
  hr_request_id :: string
  hr_forwarded :: string
  hr_peer :: "string option"

text \<open>
  \<open>en_call_timeout k\<close> is about the \<open>k\<close>-th provider call of the request; \<open>en_odd_rate\<close> and
  \<open>en_odd_tokens\<close> stand for the arithmetic of an infinite rate and of a token total that is
  not an integer.
\<close>

record 'v api_env =
  en_sha :: "string \<Rightarrow> string"
  en_keys :: disk_doc
  en_tenants :: disk_doc
  en_policy :: disk_doc
  en_up :: bool
  en_now :: real
  en_server :: real
  en_epoch :: real
  en_clock :: clock
  en_models :: "'v models"
  en_nlp :: "(string \<Rightarrow> entity list) option"
  en_output :: output_env
  en_audit :: audit_env
  en_repr :: "real \<Rightarrow> string"
  en_post :: poster
  en_uuid :: string
  en_review_uuid :: string
  en_iso_now :: string
  en_input_timeout :: bool
  en_output_timeout :: bool
  en_call_timeout :: "nat \<Rightarrow> bool"
  en_latency :: json
  en_odd_rate :: "string \<Rightarrow> bool \<times> real"
  en_odd_tokens :: "tracker_choice \<Rightarrow> tracker_choice"

record 'v api =
  ap_keys :: key_store
  ap_tenants :: tenant_store
  ap_limiter :: limiter_choice
  ap_redis :: redis_store
  ap_quota :: tracker_choice
  ap_policy :: policy_store
  ap_pipeline :: "'v pipeline"
  ap_reviews :: rq_state
  ap_audit :: audit_state
  ap_calls :: "(string \<times> message list \<times> string option) list"

datatype failure = Http int "(string \<times> string) list" | ServerError py_error

type_synonym ('a, 's) outcome = "(failure, 'a) res \<times> 's"

text \<open>Sequencing: an exception ends the handler and keeps the state reached.\<close>

definition and_then :: "('a, 's) outcome \<Rightarrow> ('a \<Rightarrow> 's \<Rightarrow> ('b, 's) outcome) \<Rightarrow> ('b, 's) outcome" where
  "and_then x f = (case x of (Inl e, s) \<Rightarrow> (Inl e, s) | (Inr a, s) \<Rightarrow> f a s)"

definition lift_error :: "(py_error, 'a) res \<Rightarrow> (failure, 'a) res" where
  "lift_error r = (case r of Inl e \<Rightarrow> Inl (ServerError e) | Inr a \<Rightarrow> Inr a)"

section \<open>Identity of the request\<close>

definition request_id_char :: "char \<Rightarrow> bool" where
  "request_id_char c =
     (let n = of_char c :: nat in
      (48 \<le> n \<and> n \<le> 57) \<or> (65 \<le> n \<and> n \<le> 90) \<or> (97 \<le> n \<and> n \<le> 122) \<or> c \<in> {CHR ''.'', CHR ''_'', CHR '':'', CHR ''-''})"

text \<open>The pattern ends in \<open>$\<close>, which would let a final newline pass, but the text is stripped.\<close>

definition resolve_request_id :: "api_config \<Rightarrow> string \<Rightarrow> http_request \<Rightarrow> string" where
  "resolve_request_id cf uuid rq =
     (let supplied = str_strip (hr_request_id rq) in
      if supplied \<noteq> [] \<and> length supplied \<le> cf_request_id_max cf \<and> list_all request_id_char supplied
      then supplied else uuid)"

definition client_address :: "api_config \<Rightarrow> http_request \<Rightarrow> string" where
  "client_address cf rq =
     (let hops = filter (\<lambda>h. h \<noteq> []) (map str_strip (split_on (CHR '','') (hr_forwarded rq))) in
      if cf_trust_forwarded cf \<and> hops \<noteq> [] then last hops
      else case hr_peer rq of Some a \<Rightarrow> a | None \<Rightarrow> ''unknown'')"

section \<open>The boundary\<close>

definition limiter_check ::
  "'v api_env \<Rightarrow> string \<Rightarrow> real \<Rightarrow> real \<Rightarrow> limiter_choice \<times> redis_store \<Rightarrow> (bool \<times> real) \<times> (limiter_choice \<times> redis_store)" where
  "limiter_check en identity capacity refill s =
     (case s of
        (UseLocal l, d) \<Rightarrow> (let (a, l') = local_check l identity capacity refill (en_now en) in (a, (UseLocal l', d)))
      | (UseRedis r, d) \<Rightarrow>
          (let (a, (r', d')) = redis_check (en_up en) (en_server en) (en_now en) (r, d) identity capacity refill None
           in (a, (UseRedis r', d'))))"

definition rate_identity :: "api_config \<Rightarrow> http_request \<Rightarrow> principal \<Rightarrow> string" where
  "rate_identity cf rq p =
     (if pr_authenticated p then ''key:'' @ pr_key_id p else ''ip:'' @ client_address cf rq)"

text \<open>The tenant's rate applies to authenticated callers only.\<close>

definition rate_of :: "api_config \<Rightarrow> principal \<Rightarrow> tenant_config \<Rightarrow> pyfloat" where
  "rate_of cf p tc =
     (if pr_authenticated p
      then (case tc_rate_limit_rpm tc of Some r \<Rightarrow> r | None \<Rightarrow> PFin (cf_auth_rpm cf))
      else PFin (cf_anon_rpm cf))"

definition retry_header :: "real \<Rightarrow> (string \<times> string) list" where
  "retry_header retry_after = [(''Retry-After'', int_str (max 1 (py_int (retry_after + 999 / 1000))))]"

definition enforce_rate_limit ::
  "api_config \<Rightarrow> 'v api_env \<Rightarrow> http_request \<Rightarrow> principal \<Rightarrow> tenant_config \<Rightarrow> 'v api \<Rightarrow> (unit, 'v api) outcome" where
  "enforce_rate_limit cf en rq p tc s =
     (if \<not> cf_rate_enabled cf then (Inr (), s)
      else
        let identity = rate_identity cf rq p;
            ((allowed, retry_after), s') =
              (case rate_of cf p tc of
                 PFin rpm \<Rightarrow>
                   (let (capacity, refill) = bucket_parameters rpm (cf_burst cf);
                        (a, (l, d)) = limiter_check en identity capacity refill (ap_limiter s, ap_redis s)
                    in (a, s\<lparr>ap_limiter := l, ap_redis := d\<rparr>))
               | _ \<Rightarrow> (en_odd_rate en identity, s))
        in (if allowed then Inr () else Inl (Http 429 (retry_header retry_after)), s'))"

definition authenticate :: "'v api_env \<Rightarrow> http_request \<Rightarrow> 'v api \<Rightarrow> (principal, 'v api) outcome" where
  "authenticate en rq s =
     (let (r, ks) = resolve_principal (en_sha en) (en_keys en) (hr_authorization rq) None (ap_keys s)
      in (lift_error r, s\<lparr>ap_keys := ks\<rparr>))"

definition find_tenant :: "'v api_env \<Rightarrow> string \<Rightarrow> 'v api \<Rightarrow> (tenant_config, 'v api) outcome" where
  "find_tenant en tenant s =
     (let (r, ts) = resolve_tenant (en_tenants en) tenant (ap_tenants s) in (lift_error r, s\<lparr>ap_tenants := ts\<rparr>))"

text \<open>\<open>_reject_suspended_and_rate_limit\<close>, with the tenant configuration for its callers.\<close>

definition reject_suspended_and_rate_limit ::
  "api_config \<Rightarrow> 'v api_env \<Rightarrow> http_request \<Rightarrow> principal \<Rightarrow> 'v api \<Rightarrow> (tenant_config, 'v api) outcome" where
  "reject_suspended_and_rate_limit cf en rq p s =
     and_then (find_tenant en (pr_tenant p) s) (\<lambda>tc s1.
       if suspended tc then (Inl (Http 403 []), s1)
       else and_then (enforce_rate_limit cf en rq p tc s1) (\<lambda>_ s2. (Inr tc, s2)))"

definition bearer_challenge :: "(string \<times> string) list" where
  "bearer_challenge = [(''WWW-Authenticate'', ''Bearer'')]"

text \<open>The boundary of the assessing endpoints; the others add a capability test.\<close>

definition open_boundary ::
  "api_config \<Rightarrow> 'v api_env \<Rightarrow> http_request \<Rightarrow> 'v api \<Rightarrow> (principal \<times> tenant_config, 'v api) outcome" where
  "open_boundary cf en rq s =
     and_then (authenticate en rq s) (\<lambda>p s1.
       if auth_required (cf_auth_mode cf) \<and> \<not> pr_authenticated p then (Inl (Http 401 bearer_challenge), s1)
       else and_then (reject_suspended_and_rate_limit cf en rq p s1) (\<lambda>tc s2. (Inr (p, tc), s2)))"

definition internal_boundary ::
  "api_config \<Rightarrow> 'v api_env \<Rightarrow> http_request \<Rightarrow> 'v api \<Rightarrow> (principal, 'v api) outcome" where
  "internal_boundary cf en rq s =
     and_then (authenticate en rq s) (\<lambda>p s1.
       if pr_capability p \<noteq> ''INTERNAL'' then (Inl (Http 403 []), s1)
       else and_then (reject_suspended_and_rate_limit cf en rq p s1) (\<lambda>_ s2. (Inr p, s2)))"

section \<open>What the boundary does\<close>

lemma and_then_Inr_iff: "and_then x f = (Inr b, t) \<longleftrightarrow> (\<exists>a s. x = (Inr a, s) \<and> f a s = (Inr b, t))"
  by (cases x) (auto simp: and_then_def split: sum.splits)

lemma and_then_simps [simp]: "and_then (Inl e, s) f = (Inl e, s)" "and_then (Inr a, s) f = f a s"
  by (simp_all add: and_then_def)

lemma and_then_snd: "(\<And>a t. snd (f a t) = t) \<Longrightarrow> snd (and_then x f) = snd x"
  by (cases x) (auto simp: and_then_def split: sum.splits)

text \<open>Apart from the key store, the tenant store and the limiter nothing changes.\<close>

definition same_work :: "'v api \<Rightarrow> 'v api \<Rightarrow> bool" where
  "same_work s s' \<longleftrightarrow> ap_quota s' = ap_quota s \<and> ap_policy s' = ap_policy s \<and> ap_pipeline s' = ap_pipeline s
     \<and> ap_reviews s' = ap_reviews s \<and> ap_audit s' = ap_audit s \<and> ap_calls s' = ap_calls s"

lemma same_work_refl [simp]: "same_work s s"
  by (simp add: same_work_def)

lemma same_work_trans: "same_work s t \<Longrightarrow> same_work t u \<Longrightarrow> same_work s u"
  by (simp add: same_work_def)

lemma authenticate_same [simp]: "same_work s (snd (authenticate en rq s))"
  by (simp add: authenticate_def same_work_def split: prod.splits)

lemma find_tenant_same [simp]: "same_work s (snd (find_tenant en t s))"
  by (simp add: find_tenant_def same_work_def split: prod.splits)

lemma rate_same [simp]: "same_work s (snd (enforce_rate_limit cf en rq p tc s))"
  by (auto simp: enforce_rate_limit_def same_work_def Let_def split: pyfloat.splits prod.splits)

lemma and_then_same:
  assumes "same_work s (snd x)" "\<And>a t. x = (Inr a, t) \<Longrightarrow> same_work t (snd (f a t))"
  shows "same_work s (snd (and_then x f))"
  using assms by (cases x) (auto simp: and_then_def intro: same_work_trans split: sum.splits)

lemma reject_same [simp]: "same_work s (snd (reject_suspended_and_rate_limit cf en rq p s))"
  unfolding reject_suspended_and_rate_limit_def by (intro and_then_same) (auto intro: and_then_same)

lemma open_boundary_same: "same_work s (snd (open_boundary cf en rq s))"
  unfolding open_boundary_def by (intro and_then_same) (auto intro: and_then_same)

lemma internal_boundary_same: "same_work s (snd (internal_boundary cf en rq s))"
  unfolding internal_boundary_def by (intro and_then_same) (auto intro: and_then_same)

text \<open>Who gets through.\<close>

lemma reject_InrD:
  assumes "reject_suspended_and_rate_limit cf en rq p s = (Inr tc, t)"
  shows "fst (resolve_tenant (en_tenants en) (pr_tenant p) (ap_tenants s)) = Inr tc \<and> \<not> suspended tc"
  using assms
  by (auto simp: reject_suspended_and_rate_limit_def and_then_Inr_iff find_tenant_def lift_error_def
      split: prod.splits sum.splits if_splits)

lemma open_boundary_InrD:
  assumes "open_boundary cf en rq s = (Inr (p, tc), t)"
  shows "fst (resolve_principal (en_sha en) (en_keys en) (hr_authorization rq) None (ap_keys s)) = Inr p
    \<and> (auth_required (cf_auth_mode cf) \<longrightarrow> pr_authenticated p)
    \<and> fst (resolve_tenant (en_tenants en) (pr_tenant p) (ap_tenants s)) = Inr tc \<and> \<not> suspended tc"
  using assms
  by (auto simp: open_boundary_def and_then_Inr_iff authenticate_def lift_error_def
      dest!: reject_InrD split: prod.splits sum.splits if_splits)

lemma internal_boundary_InrD:
  assumes "internal_boundary cf en rq s = (Inr p, t)"
  shows "fst (resolve_principal (en_sha en) (en_keys en) (hr_authorization rq) None (ap_keys s)) = Inr p
    \<and> pr_capability p = ''INTERNAL''"
  using assms
  by (auto simp: internal_boundary_def and_then_Inr_iff authenticate_def lift_error_def
      split: prod.splits sum.splits if_splits)

section \<open>An example process\<close>

text \<open>An anonymous caller, no key and tenant files, a policy that allows what is LOW, one chat backend.\<close>

definition example_config :: api_config where
  "example_config =
     \<lparr>cf_auth_mode = ''optional'', cf_rate_enabled = False, cf_auth_rpm = 60, cf_anon_rpm = 30, cf_burst = 10,
      cf_trust_forwarded = False, cf_request_id_max = 64, cf_quota_enabled = False, cf_quota_default = 0,
      cf_default_provider = ''ollama'', cf_fallback = [],
      cf_audit = \<lparr>ac_sqlite_enabled = False, ac_read_from_sqlite = False, ac_fails_closed = True\<rparr>,
      cf_risk = demo_settings, cf_rules = demo_rules,
      cf_providers = \<lparr>pv_ollama_url = ''http://llm'', pv_ollama_model = ''llama'', pv_openai_key = ''k'',
        pv_openai_url = ''https://api'', pv_openai_model = ''gpt'', pv_anthropic_key = [], pv_anthropic_url = [],
        pv_anthropic_model = [], pv_anthropic_version = []\<rparr>\<rparr>"

definition example_policy :: disk_doc where
  "example_policy = Doc (JDict [(''tenants'', JDict [(''default'', JDict [(''policies'', JDict
     [(''GENERAL'', JDict [(''LOW'', JStr ''ALLOW''), (''HIGH'', JStr ''BLOCK'')])])])])])"

definition example_request :: http_request where
  "example_request = \<lparr>hr_authorization = None, hr_request_id = ''req-1'', hr_forwarded = [], hr_peer = None\<rparr>"

definition example_env :: "reply \<Rightarrow> bool \<Rightarrow> nat api_env" where
  "example_env answer disk_ok =
     \<lparr>en_sha = id, en_keys = Missing, en_tenants = Missing, en_policy = example_policy, en_up = True, en_now = 0,
      en_server = 0, en_epoch = 0, en_clock = demo_clock 0, en_models = demo_models, en_nlp = None,
      en_output = demo_output_env,
      en_audit = \<lparr>ae_sha = id, ae_dumps = (\<lambda>j. []), ae_now = ''T1'', ae_log_ok = (\<lambda>k. disk_ok), ae_db_ok = (\<lambda>k. False)\<rparr>,
      en_repr = (\<lambda>r. []), en_post = (\<lambda>url hs pl. answer), en_uuid = ''u1'', en_review_uuid = ''v1'', en_iso_now = ''T1'',
      en_input_timeout = False, en_output_timeout = False, en_call_timeout = (\<lambda>k. False), en_latency = JNull,
      en_odd_rate = (\<lambda>i. (True, 0)), en_odd_tokens = id\<rparr>"

definition example_api :: "nat api" where
  "example_api =
     \<lparr>ap_keys = new_key_store, ap_tenants = new_tenant_store, ap_limiter = UseLocal (local_limiter_init 10), ap_redis = [],
      ap_quota = LocalTracker (local_tracker_init 10), ap_policy = new_policy_store, ap_pipeline = demo_pipeline,
      ap_reviews = (new_review_queue, Missing),
      ap_audit = \<lparr>au_log = [], au_db = (\<lambda>t. []), au_writes = 0\<rparr>, ap_calls = []\<rparr>"

definition example_principal :: principal where
  "example_principal = anonymous ''no credential presented''"

lemma example_boundary:
  "open_boundary example_config (example_env answer ok) example_request example_api
     = (Inr (example_principal, default_tenant), example_api\<lparr>ap_tenants := \<lparr>ts_tenants = [], ts_loaded = True\<rparr>\<rparr>)"
  by (simp add: open_boundary_def authenticate_def resolve_principal_def extract_bearer_def example_request_def
      example_env_def example_config_def example_api_def example_principal_def find_tenant_def resolve_tenant_def
      reject_suspended_and_rate_limit_def enforce_rate_limit_def ts_get_def ts_load_def new_tenant_store_def
      auth_required_def lift_error_def suspended_def default_tenant_def anonymous_def Let_def)

lemma example_decision:
  "fst (policy_decision example_policy ''GENERAL'' ''LOW'' ''default'' new_policy_store)
     = (''ALLOW'', ''Policy applied for GENERAL (Risk: LOW, Tenant: default)'')"
  by code_simp

lemma example_redaction: "redact_pii None (Some default_tenant) ''Hi'' = \<lparr>rd_text = ''Hi'', rd_found = False, rd_source = ''CLEAN'', rd_items = []\<rparr>"
  by code_simp

lemma example_phone:
  "redact_pii None (Some default_tenant) (''call 555-123-4567'') = \<lparr>rd_text = ''call [REDACTED:PHONE]'', rd_found = True,
     rd_source = ''REGEX_FAST'', rd_items = [''PHONE:555-123-4567'']\<rparr>"
  by code_simp

text \<open>What the output guard says of a response with a telephone number.\<close>

lemma example_output:
  "\<exists>d. assess_output demo_output_env up now t (Some default_tenant) None ''call 555-123-4567''
      (new_breaker 3 30 False, \<lparr>sh_opened = None, sh_fails = None\<rparr>)
      = ((''ALLOW'', d), (new_breaker 3 30 False, \<lparr>sh_opened = None, sh_fails = None\<rparr>))
    \<and> od_clean d = Some ''call [REDACTED:PHONE]''"
proof -
  let ?s = "(new_breaker 3 30 False, \<lparr>sh_opened = None, sh_fails = None\<rparr>)"
  have no_secret: "detect_secrets ''call 555-123-4567'' = []"
    and proto: "\<not> uses_llama_guard_protocol ''mistral''"
    and reply: "json_reply (\<lambda>t. Some (JDict [(''verdict'', JStr ''safe'')])) (Some (JDict [(''response'', JStr ''v'')])) = Inr (Some ''SAFE'')"
    by code_simp+
  have "ask_output_judge demo_output_env up now t ''call [REDACTED:PHONE]'' ?s = (''SAFE'', ?s)"
    using proto reply
    by (simp add: ask_output_judge_def demo_output_env_def output_judge_def is_open_def is_open_local_def record_success_def
        new_breaker_def Let_def)
  then show ?thesis
    using no_secret example_phone by (simp add: assess_output_def demo_output_env_def clean_details_def Let_def)
qed

lemma example_risk:
  "\<exists>r p'. assess_risk demo_models demo_settings demo_rules (demo_clock 0) True ''Hi'' (Some ''Hi'') demo_pipeline = (Inr r, p')
    \<and> ar_risk_level r = ''LOW'' \<and> pl_ollama p' = pl_ollama demo_pipeline"
  using demo_run [of "Some ''Hi''"] by blast

end
