(* ===== verification/Assess_Api.thy ===== *)
theory Assess_Api
  imports Request_Gate
begin

text \<open>
  The two assessing endpoints of \<open>api/main.py\<close>, \<open>POST /api/v1/assess\<close> and
  \<open>POST /api/v1/assess_output\<close>, as compositions of the components they call.

  Confirmations that a request schedules stay in the pipeline's queue.  The response leaves out
  the processing time.
\<close>

section \<open>Stages\<close>

definition retry5 :: "(string \<times> string) list" where
  "retry5 = [(''Retry-After'', ''5'')]"

definition dval_json :: "(real \<Rightarrow> string) \<Rightarrow> dval \<Rightarrow> json" where
  "dval_json rp v =
     (case v of
        VNone \<Rightarrow> JNull | VStr x \<Rightarrow> JStr x | VNum r \<Rightarrow> JFloat r (rp r) | VBool b \<Rightarrow> JBool b
      | VScores m \<Rightarrow> JDict (map (\<lambda>(k, r). (k, JFloat r (rp r))) m))"

definition details_json :: "(real \<Rightarrow> string) \<Rightarrow> assess_result \<Rightarrow> entry" where
  "details_json rp r = map (\<lambda>(k, v). (k, dval_json rp v)) (to_dict r)"

definition str_list :: "string list \<Rightarrow> json" where
  "str_list xs = JList (map JStr xs)"

definition output_json :: "output_details \<Rightarrow> entry" where
  "output_json d =
     [(''secrets_detected'', JBool (od_secrets d)), (''system_prompt_leak_detected'', JBool (od_leak d)),
      (''pii_leakage'', JBool (od_pii d)), (''toxicity_detected'', JBool (od_toxic d)),
      (''hallucination_detected'', JBool (od_hallucination d)), (''source'', JStr (od_source d)),
      (''clean_response'', opt_str (od_clean d))]
     @ (case od_secret_items d of None \<Rightarrow> [] | Some l \<Rightarrow> [(''secret_items'', str_list l)])
     @ (case od_redacted_items d of None \<Rightarrow> [] | Some l \<Rightarrow> [(''redacted_items'', str_list l)])"

text \<open>Redaction and the bounded risk assessment of the redacted prompt.\<close>

definition input_stage ::
  "api_config \<Rightarrow> 'v api_env \<Rightarrow> string \<Rightarrow> tenant_config \<Rightarrow> 'v api \<Rightarrow> (redaction \<times> assess_result, 'v api) outcome" where
  "input_stage cf en prompt tc s =
     (let red = redact_pii (en_nlp en) (Some tc) prompt;
          (r, p') = assess_risk (en_models en) (cf_risk cf) (cf_rules cf) (en_clock en) True (rd_text red) (Some prompt)
                      (ap_pipeline s);
          s' = s\<lparr>ap_pipeline := p'\<rparr>
      in if en_input_timeout en then (Inl (Http 503 retry5), s')
         else (map_sum ServerError (\<lambda>a. (red, a)) r, s'))"

definition policy_stage :: "'v api_env \<Rightarrow> principal \<Rightarrow> string \<Rightarrow> 'v api \<Rightarrow> (string \<times> string, 'v api) outcome" where
  "policy_stage en p risk s =
     (let (d, ps) = policy_decision (en_policy en) (pr_capability p) risk (pr_tenant p) (ap_policy s)
      in (Inr d, s\<lparr>ap_policy := ps\<rparr>))"

definition output_stage ::
  "'v api_env \<Rightarrow> tenant_config option \<Rightarrow> string option \<Rightarrow> string \<Rightarrow> 'v api \<Rightarrow> (string \<times> output_details, 'v api) outcome" where
  "output_stage en tenant system_prompt response s =
     (let (d, o') = assess_output (en_output en) (en_up en) (en_now en) (en_server en) tenant system_prompt response
                      (pl_ollama (ap_pipeline s));
          s' = s\<lparr>ap_pipeline := (ap_pipeline s)\<lparr>pl_ollama := o'\<rparr>\<rparr>
      in (if en_output_timeout en then Inl (Http 503 retry5) else Inr d, s'))"

definition severity :: "nat \<Rightarrow> string \<Rightarrow> nat" where
  "severity d x = (if x = ''ALLOW'' then 0 else if x = ''RESTRICT'' then 1 else if x = ''REVIEW'' then 2
                   else if x = ''BLOCK'' then 3 else d)"

definition more_severe :: "string \<Rightarrow> string \<Rightarrow> string" where
  "more_severe decision output_decision =
     (if severity 3 output_decision > severity 0 decision then output_decision else decision)"

definition review_stage ::
  "'v api_env \<Rightarrow> principal \<Rightarrow> string \<Rightarrow> string \<Rightarrow> string \<Rightarrow> string \<Rightarrow> string \<Rightarrow> 'v api \<Rightarrow> (string option, 'v api) outcome" where
  "review_stage en p decision reason risk hashed rid s =
     (if decision \<noteq> ''REVIEW'' then (Inr None, s)
      else
        let (r, q) = enqueue (en_review_uuid en) (en_iso_now en) reason (pr_capability p) risk (pr_tenant p)
                       (en_sha en hashed) rid (ap_reviews s)
        in (map_sum ServerError (\<lambda>x. Some (rr_review_id x)) r, s\<lparr>ap_reviews := q\<rparr>))"

definition audit_step ::
  "api_config \<Rightarrow> (audit_state \<Rightarrow> (py_error, unit) res \<times> audit_state) \<Rightarrow> 'v api \<Rightarrow> (unit, 'v api) outcome" where
  "audit_step cf f s =
     (let (ok, a) = write_audit_or_fail (cf_audit cf) f (ap_audit s)
      in (if ok then Inr () else Inl (Http 503 retry5), s\<lparr>ap_audit := a\<rparr>))"

text \<open>What the handler adds to the details before the audit.\<close>

definition identity_details :: "principal \<Rightarrow> string \<Rightarrow> string \<Rightarrow> entry \<Rightarrow> entry" where
  "identity_details p reason rid d =
     od_set ''tenant'' (JStr (pr_tenant p)) (od_set ''request_id'' (JStr rid)
       (od_set ''principal'' (JDict (to_audit p)) (od_set ''policy_reason'' (JStr reason) d)))"

section \<open>The endpoint for prompts\<close>

record assess_request =
  aq_prompt :: string
  aq_response :: "string option"
  aq_system_prompt :: "string option"

record assess_response =
  as_decision :: string
  as_risk_level :: string
  as_topicality :: json
  as_capability :: string
  as_authenticated :: bool
  as_details :: entry
  as_clean_prompt :: string
  as_redacted_items :: "string list"
  as_output_decision :: "string option"
  as_output_details :: "entry option"
  as_clean_response :: "string option"
  as_review_id :: "string option"

text \<open>The combined call passes no tenant to the output assessment.\<close>

definition combined_output ::
  "'v api_env \<Rightarrow> assess_request \<Rightarrow> string \<Rightarrow> 'v api \<Rightarrow> ((string \<times> output_details) option, 'v api) outcome" where
  "combined_output en req decision s =
     (case aq_response req of
        Some response \<Rightarrow>
          if decision \<in> {''BLOCK'', ''REVIEW''} then (Inr None, s)
          else and_then (output_stage en None (aq_system_prompt req) response s) (\<lambda>d s'. (Inr (Some d), s'))
      | None \<Rightarrow> (Inr None, s))"

definition log_output ::
  "api_config \<Rightarrow> 'v api_env \<Rightarrow> principal \<Rightarrow> string \<Rightarrow> string \<Rightarrow> string \<Rightarrow> output_details \<Rightarrow> 'v api \<Rightarrow> (unit, 'v api) outcome" where
  "log_output cf en p rid response decision d =
     audit_step cf (log_output_event (cf_audit cf) (en_audit en) (pr_capability p) response decision (output_json d)
                      (pr_tenant p) rid)"

definition assess_prompt ::
  "api_config \<Rightarrow> 'v api_env \<Rightarrow> http_request \<Rightarrow> assess_request \<Rightarrow> 'v api \<Rightarrow> (assess_response, 'v api) outcome" where
  "assess_prompt cf en rq req s =
     (let rid = resolve_request_id cf (en_uuid en) rq in
      and_then (open_boundary cf en rq s) (\<lambda>(p, tc) s1.
      and_then (input_stage cf en (aq_prompt req) tc s1) (\<lambda>(red, r) s2.
      and_then (policy_stage en p (ar_risk_level r) s2) (\<lambda>(input_decision, reason) s3.
      and_then (combined_output en req input_decision s3) (\<lambda>out s4.
        let decision = (case out of None \<Rightarrow> input_decision | Some (d, det) \<Rightarrow> more_severe input_decision d);
            details0 = identity_details p reason rid (details_json (en_repr en) r);
            details1 = (case out of None \<Rightarrow> details0 | Some (d, det) \<Rightarrow> od_set ''output_assessment'' (JDict (output_json det)) details0)
        in and_then (review_stage en p decision reason (ar_risk_level r) (rd_text red) rid s4) (\<lambda>review_id s5.
           let details = (case review_id of None \<Rightarrow> details1 | Some i \<Rightarrow> od_set ''review_id'' (JStr i) details1)
           in and_then (audit_step cf (log_event (cf_audit cf) (en_audit en) (pr_capability p) (rd_text red)
                                         (ar_risk_level r) decision details) s5) (\<lambda>_ s6.
              and_then (case out of None \<Rightarrow> (Inr (), s6)
                        | Some (d, det) \<Rightarrow> log_output cf en p rid (the (aq_response req)) d det s6) (\<lambda>_ s7.
                (Inr \<lparr>as_decision = decision, as_risk_level = ar_risk_level r,
                      as_topicality = meta_or details ''topicality'' (JStr ''UNKNOWN''),
                      as_capability = pr_capability p, as_authenticated = pr_authenticated p, as_details = details,
                      as_clean_prompt = rd_text red, as_redacted_items = rd_items red,
                      as_output_decision = map_option fst out,
                      as_output_details = map_option (\<lambda>(d, det). output_json det) out,
                      as_clean_response = (case out of None \<Rightarrow> None | Some (d, det) \<Rightarrow> od_clean det),
                      as_review_id = review_id\<rparr>, s7)))))))))"

section \<open>The endpoint for responses\<close>

record output_request =
  oq_response :: string
  oq_system_prompt :: "string option"

record output_response =
  ot_decision :: string
  ot_details :: entry
  ot_clean_response :: "string option"

definition assess_output_endpoint ::
  "api_config \<Rightarrow> 'v api_env \<Rightarrow> http_request \<Rightarrow> output_request \<Rightarrow> 'v api \<Rightarrow> (output_response, 'v api) outcome" where
  "assess_output_endpoint cf en rq req s =
     (let rid = resolve_request_id cf (en_uuid en) rq in
      and_then (open_boundary cf en rq s) (\<lambda>(p, tc) s1.
      and_then (output_stage en (Some tc) (oq_system_prompt req) (oq_response req) s1) (\<lambda>(decision, det) s2.
      and_then (log_output cf en p rid (oq_response req) decision det s2) (\<lambda>_ s3.
        (Inr \<lparr>ot_decision = decision, ot_details = output_json det, ot_clean_response = od_clean det\<rparr>, s3)))))"

section \<open>Lemmas on the stages\<close>

text \<open>What a stage leaves alone, what it returns when it succeeds, and that the log only grows.\<close>

lemma log_output_frame [simp]:
  "ap_calls (snd (log_output cf en p rid body d det s)) = ap_calls s"
  "ap_quota (snd (log_output cf en p rid body d det s)) = ap_quota s"
  "ap_reviews (snd (log_output cf en p rid body d det s)) = ap_reviews s"
  by (simp_all add: log_output_def audit_step_def split: prod.split)

lemma input_stage_frame [simp]:
  "ap_calls (snd (input_stage cf en x tc s)) = ap_calls s" "ap_audit (snd (input_stage cf en x tc s)) = ap_audit s"
  "ap_quota (snd (input_stage cf en x tc s)) = ap_quota s" "ap_policy (snd (input_stage cf en x tc s)) = ap_policy s"
  by (simp_all add: input_stage_def Let_def split: prod.split)

lemma policy_stage_frame [simp]:
  "ap_calls (snd (policy_stage en p risk s)) = ap_calls s" "ap_audit (snd (policy_stage en p risk s)) = ap_audit s"
  "ap_quota (snd (policy_stage en p risk s)) = ap_quota s"
  by (simp_all add: policy_stage_def split: prod.split)

lemma review_stage_frame [simp]:
  "ap_calls (snd (review_stage en p d reason risk h rid s)) = ap_calls s"
  "ap_audit (snd (review_stage en p d reason risk h rid s)) = ap_audit s"
  "ap_quota (snd (review_stage en p d reason risk h rid s)) = ap_quota s"
  by (simp_all add: review_stage_def split: prod.split)

lemma audit_step_frame [simp]:
  "ap_calls (snd (audit_step cf f s)) = ap_calls s" "ap_quota (snd (audit_step cf f s)) = ap_quota s"
  by (simp_all add: audit_step_def split: prod.split)

lemma output_stage_frame [simp]:
  "ap_calls (snd (output_stage en tc sp x s)) = ap_calls s" "ap_audit (snd (output_stage en tc sp x s)) = ap_audit s"
  "ap_quota (snd (output_stage en tc sp x s)) = ap_quota s"
  by (simp_all add: output_stage_def Let_def split: prod.split)

lemma input_stage_InrD:
  assumes "input_stage cf en x tc s = (Inr (red, r), t)"
  shows "red = redact_pii (en_nlp en) (Some tc) x
    \<and> fst (assess_risk (en_models en) (cf_risk cf) (cf_rules cf) (en_clock en) True (rd_text red) (Some x) (ap_pipeline s)) = Inr r
    \<and> t = s\<lparr>ap_pipeline := snd (assess_risk (en_models en) (cf_risk cf) (cf_rules cf) (en_clock en) True (rd_text red) (Some x)
              (ap_pipeline s))\<rparr>"
  using assms by (auto simp: input_stage_def Let_def map_sum_Inr_iff split: prod.splits if_splits)

lemma policy_stage_InrD:
  "policy_stage en p risk s = (Inr (d, reason), t) \<Longrightarrow>
     fst (policy_decision (en_policy en) (pr_capability p) risk (pr_tenant p) (ap_policy s)) = (d, reason)"
  by (auto simp: policy_stage_def split: prod.splits)

lemma output_stage_InrD:
  assumes "output_stage en tc sp x s = (Inr (d, det), t)"
  shows "\<exists>o'. assess_output (en_output en) (en_up en) (en_now en) (en_server en) tc sp x (pl_ollama (ap_pipeline s)) = ((d, det), o')"
  using assms by (auto simp: output_stage_def Let_def split: prod.splits if_splits)

lemma assess_output_decision:
  "assess_output oe up now t tenant sp response st = ((d, det), st') \<Longrightarrow> d \<in> {''ALLOW'', ''BLOCK''}"
  by (auto simp: assess_output_def Let_def split: prod.splits if_splits)

lemma assess_output_content:
  "assess_output oe up now t tenant sp response st = ((d, det), st') \<Longrightarrow> od_clean det = Some c \<Longrightarrow> d = ''ALLOW''"
  by (auto simp: assess_output_def clean_details_def Let_def split: prod.splits if_splits)

lemma and_then_keep:
  "(\<And>a t. g (snd (f a t)) = g t) \<Longrightarrow> g (snd (and_then x f)) = g (snd x)"
  by (cases x) (auto simp: and_then_def split: sum.splits)

lemma audit_step_log:
  assumes "audit_step cf (log_event (cf_audit cf) (en_audit en) cap q risk d details) s = (Inr u, t)"
  shows "au_writes (ap_audit t) = Suc (au_writes (ap_audit s))"
    and "ae_log_ok (en_audit en) (au_writes (ap_audit s)) \<Longrightarrow>
      \<exists>e. au_log (ap_audit t) = au_log (ap_audit s) @ [e] \<and> entry_get e ''decision'' = JStr d
        \<and> entry_get e ''prompt_hash'' = JStr (ae_sha (en_audit en) q)
        \<and> entry_get e ''request_id'' = meta_or details ''request_id'' (JStr ''unset'')"
  using assms
  by (auto simp: audit_step_def write_audit_or_fail_def log_event_def audit_write_def entry_get_def Let_def
      split: prod.splits sum.splits if_splits)

lemma audit_step_ok:
  "fst (f (ap_audit s)) = Inr () \<Longrightarrow> audit_step cf f s = (Inr (), s\<lparr>ap_audit := snd (f (ap_audit s))\<rparr>)"
  by (cases "f (ap_audit s)") (simp add: audit_step_def write_audit_or_fail_def)

lemma identity_details_rid: "meta_or (identity_details p reason rid d) ''request_id'' x = JStr rid"
  "meta_or (od_set ''review_id'' i (identity_details p reason rid d)) ''request_id'' x = JStr rid"
  by (simp_all add: meta_or_def identity_details_def od_set_map_of)

definition log_grows :: "'v api \<Rightarrow> 'v api \<Rightarrow> bool" where
  "log_grows s t \<longleftrightarrow> set (au_log (ap_audit s)) \<subseteq> set (au_log (ap_audit t))"

lemma log_grows_refl [simp]: "log_grows s s"
  by (simp add: log_grows_def)

lemma log_grows_same: "ap_audit t = ap_audit s \<Longrightarrow> log_grows s t"
  by (simp add: log_grows_def)

lemma and_then_grows:
  assumes "log_grows s (snd x)" "\<And>a t. x = (Inr a, t) \<Longrightarrow> log_grows t (snd (f a t))"
  shows "log_grows s (snd (and_then x f))"
  using assms by (cases x) (auto simp: and_then_def log_grows_def split: sum.splits)

lemma audit_write_grows: "audit_write cfg env ty e a = (r, b) \<Longrightarrow> x \<in> set (au_log a) \<Longrightarrow> x \<in> set (au_log b)"
  by (auto simp: audit_write_def Let_def split: prod.splits if_splits)

lemma log_output_grows [simp]: "log_grows s (snd (log_output cf en p rid text d det s))"
  by (auto simp: log_grows_def log_output_def audit_step_def write_audit_or_fail_def log_output_event_def
      dest: audit_write_grows split: prod.splits sum.splits)

lemma more_severe_allow: "more_severe action ''ALLOW'' = action"
  by (simp add: more_severe_def severity_def)

lemma combined_output_InrD:
  assumes "combined_output en req action s = (Inr out, t)"
  shows "(out = None \<longleftrightarrow> aq_response req = None \<or> action \<in> {''BLOCK'', ''REVIEW''})
    \<and> (\<forall>d det. out = Some (d, det) \<longrightarrow> (\<exists>st o'. assess_output (en_output en) (en_up en) (en_now en) (en_server en) None
         (aq_system_prompt req) (the (aq_response req)) st = ((d, det), o')))"
  using assms
  by (auto simp: combined_output_def and_then_Inr_iff simp del: split_paired_Ex dest!: output_stage_InrD split: option.splits if_splits)

lemma combined_output_frame [simp]:
  "ap_audit (snd (combined_output en req d s)) = ap_audit s" "ap_reviews (snd (combined_output en req d s)) = ap_reviews s"
  "ap_calls (snd (combined_output en req d s)) = ap_calls s"
proof -
  have out: "ap_reviews (snd (output_stage en tc sp x s)) = ap_reviews s" for tc sp x
    by (simp add: output_stage_def Let_def split: prod.split)
  have "snd (combined_output en req d s) = (case aq_response req of
      Some x \<Rightarrow> if d \<in> {''BLOCK'', ''REVIEW''} then s else snd (output_stage en None (aq_system_prompt req) x s) | None \<Rightarrow> s)"
    by (auto simp: combined_output_def intro!: and_then_snd split: option.split)
  then show "ap_audit (snd (combined_output en req d s)) = ap_audit s" "ap_reviews (snd (combined_output en req d s)) = ap_reviews s"
    "ap_calls (snd (combined_output en req d s)) = ap_calls s"
    by (auto simp: out split: option.split)
qed

lemma stages_keep_reviews:
  "ap_reviews (snd (input_stage cf en x tc s)) = ap_reviews s" "ap_reviews (snd (policy_stage en p risk s)) = ap_reviews s"
  "ap_reviews (snd (audit_step cf f s)) = ap_reviews s"
  by (simp_all add: input_stage_def policy_stage_def audit_step_def Let_def split: prod.split)

text \<open>The whole path of an assessed prompt.\<close>

lemma assess_prompt_InrD:
  assumes "assess_prompt cf en rq req s = (Inr a, s')"
  obtains p tc s1 red r s2 action reason s3 out s4 rev s5 details s6 where
    "open_boundary cf en rq s = (Inr (p, tc), s1)"
    "input_stage cf en (aq_prompt req) tc s1 = (Inr (red, r), s2)"
    "policy_stage en p (ar_risk_level r) s2 = (Inr (action, reason), s3)"
    "combined_output en req action s3 = (Inr out, s4)"
    "review_stage en p (as_decision a) reason (ar_risk_level r) (rd_text red) (resolve_request_id cf (en_uuid en) rq) s4 = (Inr rev, s5)"
    "audit_step cf (log_event (cf_audit cf) (en_audit en) (pr_capability p) (rd_text red) (ar_risk_level r) (as_decision a) details) s5
       = (Inr (), s6)"
    "(case out of None \<Rightarrow> (Inr (), s6)
      | Some (d, det) \<Rightarrow> log_output cf en p (resolve_request_id cf (en_uuid en) rq) (the (aq_response req)) d det s6) = (Inr (), s')"
    "meta_or details ''request_id'' (JStr ''unset'') = JStr (resolve_request_id cf (en_uuid en) rq)"
    "as_decision a = (case out of None \<Rightarrow> action | Some (d, det) \<Rightarrow> more_severe action d)"
    "as_risk_level a = ar_risk_level r" "as_capability a = pr_capability p" "as_clean_prompt a = rd_text red"
    "as_output_decision a = map_option fst out" "as_review_id a = rev"
    "as_clean_response a = (case out of None \<Rightarrow> None | Some (d, det) \<Rightarrow> od_clean det)"
proof -
  let ?rid = "resolve_request_id cf (en_uuid en) rq"
  note run = assms [unfolded assess_prompt_def Let_def]
  obtain p tc s1 where b: "open_boundary cf en rq s = (Inr (p, tc), s1)" using run by (auto simp: and_then_Inr_iff)
  note run = run [unfolded b and_then_simps prod.case]
  obtain red r s2 where i: "input_stage cf en (aq_prompt req) tc s1 = (Inr (red, r), s2)" using run by (auto simp: and_then_Inr_iff)
  note run = run [unfolded i and_then_simps prod.case]
  obtain action reason s3 where d: "policy_stage en p (ar_risk_level r) s2 = (Inr (action, reason), s3)"
    using run by (auto simp: and_then_Inr_iff)
  note run = run [unfolded d and_then_simps prod.case]
  obtain out s4 where o: "combined_output en req action s3 = (Inr out, s4)" using run unfolding and_then_Inr_iff by blast
  note run = run [unfolded o and_then_simps]
  define final where "final = (case out of None \<Rightarrow> action | Some (d, det) \<Rightarrow> more_severe action d)"
  note run = run [folded final_def]
  obtain rev s5 where v: "review_stage en p final reason (ar_risk_level r) (rd_text red) ?rid s4 = (Inr rev, s5)"
    using run unfolding and_then_Inr_iff by blast
  note run = run [unfolded v and_then_simps]
  define d1 where "d1 = (case out of None \<Rightarrow> identity_details p reason ?rid (details_json (en_repr en) r)
    | Some (d, det) \<Rightarrow> od_set ''output_assessment'' (JDict (output_json det)) (identity_details p reason ?rid (details_json (en_repr en) r)))"
  define details where "details = (case rev of None \<Rightarrow> d1 | Some i \<Rightarrow> od_set ''review_id'' (JStr i) d1)"
  note run = run [folded d1_def, folded details_def]
  obtain s6 where a: "audit_step cf (log_event (cf_audit cf) (en_audit en) (pr_capability p) (rd_text red) (ar_risk_level r) final details) s5
      = (Inr (), s6)" using run by (auto simp: and_then_Inr_iff)
  note run = run [unfolded a and_then_simps]
  have rid: "meta_or details ''request_id'' (JStr ''unset'') = JStr ?rid"
    by (simp add: details_def d1_def identity_details_def meta_or_def od_set_map_of split: option.split)
  obtain s7 where l: "(case out of None \<Rightarrow> (Inr (), s6) | Some (d, det) \<Rightarrow> log_output cf en p ?rid (the (aq_response req)) d det s6) = (Inr (), s7)"
    using run unfolding and_then_Inr_iff by auto
  note run = run [unfolded l and_then_simps]
  have fields: "s7 = s'" "as_decision a = final" "as_risk_level a = ar_risk_level r" "as_capability a = pr_capability p" "as_clean_prompt a = rd_text red"
    "as_output_decision a = map_option fst out" "as_review_id a = rev"
    "as_clean_response a = (case out of None \<Rightarrow> None | Some (d, det) \<Rightarrow> od_clean det)"
    using run by auto
  show thesis
    by (rule that [of p tc s1 red r s2 action reason s3 out s4 rev s5 details s6])
      (use b i d o v a l rid fields final_def in simp_all)
qed

section \<open>Properties\<close>

lemma more_severe_block: "more_severe action ''BLOCK'' = ''BLOCK''"
  by (auto simp: more_severe_def severity_def)

lemma review_stage_InrD:
  assumes "review_stage en p d reason risk h rid s = (Inr rv, t)"
  shows "(d \<noteq> ''REVIEW'' \<longrightarrow> rv = None \<and> t = s)
    \<and> (d = ''REVIEW'' \<longrightarrow> rv = Some (en_review_uuid en) \<and> (\<exists>dict. rq_records (fst (ap_reviews t)) = JDict dict
        \<and> snd (ap_reviews t) = Doc (JDict dict)
        \<and> od_get dict (en_review_uuid en) = Some (record_dict \<lparr>rr_review_id = en_review_uuid en, rr_status = ''PENDING'',
            rr_reason = reason, rr_capability = pr_capability p, rr_risk = risk, rr_tenant = pr_tenant p,
            rr_prompt_hash = en_sha en h, rr_request_id = rid, rr_created_at = en_iso_now en\<rparr>)))"
  using assms
  by (auto simp: review_stage_def enqueue_def rq_save_def od_set_map_of Let_def map_sum_Inr_iff
      split: prod.splits if_splits json.splits)

text \<open>
  C5. The decision of an assessment is the policy's action for the risk assessed on the redacted
  prompt, turned into BLOCK when the response submitted with it is blocked.  The response is
  checked exactly when one was submitted and the action is neither BLOCK nor REVIEW; a cleaned
  response is handed back only under the policy's own action, and it is redacted with the default
  settings whatever the tenant's are.
\<close>

theorem assess_decision_composed:
  assumes "assess_prompt cf en rq req s = (Inr a, s')"
  shows "\<exists>p tc r action reason.
    fst (resolve_principal (en_sha en) (en_keys en) (hr_authorization rq) None (ap_keys s)) = Inr p
    \<and> fst (resolve_tenant (en_tenants en) (pr_tenant p) (ap_tenants s)) = Inr tc \<and> \<not> suspended tc
    \<and> as_clean_prompt a = rd_text (redact_pii (en_nlp en) (Some tc) (aq_prompt req))
    \<and> fst (assess_risk (en_models en) (cf_risk cf) (cf_rules cf) (en_clock en) True (as_clean_prompt a) (Some (aq_prompt req))
         (ap_pipeline s)) = Inr r
    \<and> as_risk_level a = ar_risk_level r \<and> as_capability a = pr_capability p
    \<and> fst (policy_decision (en_policy en) (pr_capability p) (ar_risk_level r) (pr_tenant p) (ap_policy s)) = (action, reason)
    \<and> (as_output_decision a = None \<longleftrightarrow> aq_response req = None \<or> action \<in> {''BLOCK'', ''REVIEW''})
    \<and> as_decision a = (if as_output_decision a = Some ''BLOCK'' then ''BLOCK'' else action)
    \<and> (\<forall>c. as_clean_response a = Some c \<longrightarrow> as_decision a = action \<and> action \<notin> {''BLOCK'', ''REVIEW''}
         \<and> (\<exists>response. aq_response req = Some response \<and> c = rd_text (redact_pii (oe_nlp (en_output en)) None response)))"
  using assms
proof (rule assess_prompt_InrD)
  fix p tc s1 red r s2 action reason s3 out s4
  assume path: "open_boundary cf en rq s = (Inr (p, tc), s1)" "input_stage cf en (aq_prompt req) tc s1 = (Inr (red, r), s2)"
    "policy_stage en p (ar_risk_level r) s2 = (Inr (action, reason), s3)" "combined_output en req action s3 = (Inr out, s4)"
    and final: "as_decision a = (case out of None \<Rightarrow> action | Some (d, det) \<Rightarrow> more_severe action d)"
    and fields: "as_risk_level a = ar_risk_level r" "as_capability a = pr_capability p" "as_clean_prompt a = rd_text red"
    "as_output_decision a = map_option fst out" "as_clean_response a = (case out of None \<Rightarrow> None | Some (d, det) \<Rightarrow> od_clean det)"
  have same: "same_work s s1" using open_boundary_same [of s cf en rq] path(1) by simp
  have pol: "ap_policy s2 = ap_policy s" using input_stage_frame(4) [of cf en "aq_prompt req" tc s1] path(2) same by (simp add: same_work_def)
  note out = combined_output_InrD [OF path(4)]
  have judged: "d \<in> {''ALLOW'', ''BLOCK''} \<and> (od_clean det = Some c \<longrightarrow> d = ''ALLOW''
      \<and> c = rd_text (redact_pii (oe_nlp (en_output en)) None (the (aq_response req))))" if od: "out = Some (d, det)" for d det c
  proof -
    obtain st o' where o: "assess_output (en_output en) (en_up en) (en_now en) (en_server en) None (aq_system_prompt req)
        (the (aq_response req)) st = ((d, det), o')"
      using conjunct2 [OF out, rule_format, OF od] by (elim exE)
    then have "od_clean det = Some c \<Longrightarrow> c = rd_text (redact_pii (oe_nlp (en_output en)) None (the (aq_response req)))"
      using assess_output_content [OF o] allowed_output_facts [of "en_output en" "en_up en" "en_now en" "en_server en" None
        "aq_system_prompt req" "the (aq_response req)" st det o'] by auto
    then show ?thesis using assess_output_decision [OF o] assess_output_content [OF o] by blast
  qed
  have decision: "as_decision a = (if as_output_decision a = Some ''BLOCK'' then ''BLOCK'' else action)"
  proof (cases out)
    case (Some x)
    then show ?thesis
      using judged [of "fst x" "snd x"] final fields(4) by (cases x) (auto simp: more_severe_allow more_severe_block)
  qed (simp add: final fields)
  have clean: "as_decision a = action \<and> action \<notin> {''BLOCK'', ''REVIEW''}
      \<and> (\<exists>response. aq_response req = Some response \<and> c = rd_text (redact_pii (oe_nlp (en_output en)) None response))"
    if cl: "as_clean_response a = Some c" for c
  proof -
    obtain d det where od: "out = Some (d, det)" "od_clean det = Some c" using cl fields(5) by (auto split: option.splits)
    then show ?thesis
      using judged [OF od(1), of c] final conjunct1 [OF out] by (auto simp: more_severe_allow)
  qed
  have none: "as_output_decision a = None \<longleftrightarrow> aq_response req = None \<or> action \<in> {''BLOCK'', ''REVIEW''}"
    using conjunct1 [OF out] fields(4) by simp
  have who: "fst (resolve_principal (en_sha en) (en_keys en) (hr_authorization rq) None (ap_keys s)) = Inr p"
    "fst (resolve_tenant (en_tenants en) (pr_tenant p) (ap_tenants s)) = Inr tc" "\<not> suspended tc"
    using open_boundary_InrD [OF path(1)] by simp_all
  have risk: "as_clean_prompt a = rd_text (redact_pii (en_nlp en) (Some tc) (aq_prompt req))"
    "fst (assess_risk (en_models en) (cf_risk cf) (cf_rules cf) (en_clock en) True (as_clean_prompt a) (Some (aq_prompt req))
       (ap_pipeline s)) = Inr r"
    using input_stage_InrD [OF path(2)] same fields(3) by (auto simp: same_work_def)
  show ?thesis
    using who risk fields(1,2) policy_stage_InrD [OF path(3)] pol none decision clean
    by (intro exI [of _ p] exI [of _ tc] exI [of _ r] exI [of _ action] exI [of _ reason]) simp
qed

text \<open>
  C15. An answered assessment is on the audit log.  When the writes of the request succeed, the
  log afterwards holds a record with the request's identifier, the final decision and the hash of
  the redacted prompt and, if the response was checked, a second record with the decision on it
  and the hash of the response.
\<close>

theorem assessment_is_audited:
  assumes "assess_prompt cf en rq req s = (Inr a, s')"
    and "\<And>k. k \<ge> au_writes (ap_audit s) \<Longrightarrow> ae_log_ok (en_audit en) k"
  shows "(\<exists>e \<in> set (au_log (ap_audit s')). entry_get e ''request_id'' = JStr (resolve_request_id cf (en_uuid en) rq)
        \<and> entry_get e ''decision'' = JStr (as_decision a)
        \<and> entry_get e ''prompt_hash'' = JStr (ae_sha (en_audit en) (as_clean_prompt a)))
    \<and> (\<forall>d. as_output_decision a = Some d \<longrightarrow>
        (\<exists>e \<in> set (au_log (ap_audit s')). entry_get e ''request_id'' = JStr (resolve_request_id cf (en_uuid en) rq)
          \<and> entry_get e ''decision'' = JStr d
          \<and> (\<exists>response. aq_response req = Some response \<and> entry_get e ''response_hash'' = JStr (ae_sha (en_audit en) response))))"
  using assms(1)
proof (rule assess_prompt_InrD)
  fix p tc s1 red r s2 action reason s3 out s4 rv s5 details s6
  let ?rid = "resolve_request_id cf (en_uuid en) rq"
  assume path: "open_boundary cf en rq s = (Inr (p, tc), s1)" "input_stage cf en (aq_prompt req) tc s1 = (Inr (red, r), s2)"
    "policy_stage en p (ar_risk_level r) s2 = (Inr (action, reason), s3)" "combined_output en req action s3 = (Inr out, s4)"
    "review_stage en p (as_decision a) reason (ar_risk_level r) (rd_text red) ?rid s4 = (Inr rv, s5)"
    and first: "audit_step cf (log_event (cf_audit cf) (en_audit en) (pr_capability p) (rd_text red) (ar_risk_level r) (as_decision a) details) s5
      = (Inr (), s6)"
    and second: "(case out of None \<Rightarrow> (Inr (), s6) | Some (d, det) \<Rightarrow> log_output cf en p ?rid (the (aq_response req)) d det s6) = (Inr (), s')"
    and fields: "meta_or details ''request_id'' (JStr ''unset'') = JStr ?rid" "as_clean_prompt a = rd_text red" "as_output_decision a = map_option fst out"
  have "ap_audit s5 = ap_audit s"
    using open_boundary_same [of s cf en rq] input_stage_frame(2) [of cf en "aq_prompt req" tc s1]
      policy_stage_frame(2) [of en p "ar_risk_level r" s2] combined_output_frame(1) [of en req action s3]
      review_stage_frame(2) [of en p "as_decision a" reason "ar_risk_level r" "rd_text red" ?rid s4] path
    by (simp add: same_work_def)
  note first = audit_step_log [OF first, unfolded this]
  obtain e where e: "au_log (ap_audit s6) = au_log (ap_audit s) @ [e]" "entry_get e ''decision'' = JStr (as_decision a)"
    "entry_get e ''prompt_hash'' = JStr (ae_sha (en_audit en) (as_clean_prompt a))" "entry_get e ''request_id'' = JStr ?rid"
    using first(2) assms(2) fields by auto
  have "log_grows s6 s'" using second by (auto split: option.splits) (metis log_output_grows snd_conv)
  moreover have "e \<in> set (au_log (ap_audit s6))" using e(1) by simp
  ultimately have "e \<in> set (au_log (ap_audit s'))" by (auto simp: log_grows_def)
  moreover have "\<exists>e \<in> set (au_log (ap_audit s')). entry_get e ''request_id'' = JStr ?rid \<and> entry_get e ''decision'' = JStr d
      \<and> (\<exists>response. aq_response req = Some response \<and> entry_get e ''response_hash'' = JStr (ae_sha (en_audit en) response))"
    if dec: "as_output_decision a = Some d" for d
  proof -
    obtain det where od: "out = Some (d, det)" using dec fields(3) by auto
    then obtain response where response: "aq_response req = Some response" using combined_output_InrD [OF path(4)] by auto
    have "ae_log_ok (en_audit en) (au_writes (ap_audit s6))" using assms(2) first(1) by simp
    then show ?thesis
      using second od response
      by (auto simp: log_output_def audit_step_def write_audit_or_fail_def log_output_event_def audit_write_def entry_get_def Let_def
          split: prod.splits sum.splits if_splits)
  qed
  ultimately show ?thesis using e by blast
qed

text \<open>
  An assessment is queued for a human exactly when its decision is REVIEW, under the identifier
  the caller gets back.  The record is pending, is saved, and of the prompt it holds only the hash
  of the redacted text; the response, if any, is neither checked nor handed back.
\<close>

theorem review_decision_is_queued:
  assumes "assess_prompt cf en rq req s = (Inr a, s')"
  shows "if as_decision a = ''REVIEW''
    then as_review_id a = Some (en_review_uuid en) \<and> as_output_decision a = None \<and> as_clean_response a = None
      \<and> (\<exists>dict p reason. fst (resolve_principal (en_sha en) (en_keys en) (hr_authorization rq) None (ap_keys s)) = Inr p
        \<and> rq_records (fst (ap_reviews s')) = JDict dict \<and> snd (ap_reviews s') = Doc (JDict dict)
        \<and> od_get dict (en_review_uuid en) = Some (record_dict \<lparr>rr_review_id = en_review_uuid en, rr_status = ''PENDING'',
            rr_reason = reason, rr_capability = as_capability a, rr_risk = as_risk_level a, rr_tenant = pr_tenant p,
            rr_prompt_hash = en_sha en (as_clean_prompt a), rr_request_id = resolve_request_id cf (en_uuid en) rq,
            rr_created_at = en_iso_now en\<rparr>))
    else as_review_id a = None \<and> ap_reviews s' = ap_reviews s"
  using assms
proof (rule assess_prompt_InrD)
  fix p tc s1 red r s2 action reason s3 out s4 rv s5 details s6
  let ?rid = "resolve_request_id cf (en_uuid en) rq"
  assume path: "open_boundary cf en rq s = (Inr (p, tc), s1)" "input_stage cf en (aq_prompt req) tc s1 = (Inr (red, r), s2)"
    "policy_stage en p (ar_risk_level r) s2 = (Inr (action, reason), s3)" "combined_output en req action s3 = (Inr out, s4)"
    and rev: "review_stage en p (as_decision a) reason (ar_risk_level r) (rd_text red) ?rid s4 = (Inr rv, s5)"
    and first: "audit_step cf (log_event (cf_audit cf) (en_audit en) (pr_capability p) (rd_text red) (ar_risk_level r) (as_decision a) details) s5
      = (Inr (), s6)"
    and second: "(case out of None \<Rightarrow> (Inr (), s6) | Some (d, det) \<Rightarrow> log_output cf en p ?rid (the (aq_response req)) d det s6) = (Inr (), s')"
    and final: "as_decision a = (case out of None \<Rightarrow> action | Some (d, det) \<Rightarrow> more_severe action d)"
    and fields: "as_risk_level a = ar_risk_level r" "as_capability a = pr_capability p" "as_clean_prompt a = rd_text red"
      "as_output_decision a = map_option fst out" "as_review_id a = rv"
      "as_clean_response a = (case out of None \<Rightarrow> None | Some (d, det) \<Rightarrow> od_clean det)"
  have before: "ap_reviews s4 = ap_reviews s"
    using open_boundary_same [of s cf en rq] stages_keep_reviews(1) [of cf en "aq_prompt req" tc s1]
      stages_keep_reviews(2) [of en p "ar_risk_level r" s2] combined_output_frame(2) [of en req action s3] path
    by (simp add: same_work_def)
  have "ap_reviews s6 = ap_reviews s5" using stages_keep_reviews(3) first by (metis snd_conv)
  moreover have "ap_reviews s' = ap_reviews s6"
  proof (cases out)
    case (Some x)
    then show ?thesis
      using second log_output_frame(3) [of cf en p ?rid "the (aq_response req)" "fst x" "snd x" s6] by (cases x) simp
  qed (use second in simp)
  ultimately have after: "ap_reviews s' = ap_reviews s5" by simp
  have none: "out = None" if "as_decision a = ''REVIEW''"
  proof (rule ccontr)
    assume "out \<noteq> None"
    then obtain d det where od: "out = Some (d, det)" by auto
    obtain st o' where o: "assess_output (en_output en) (en_up en) (en_now en) (en_server en) None (aq_system_prompt req)
        (the (aq_response req)) st = ((d, det), o')"
      using conjunct2 [OF combined_output_InrD [OF path(4)], rule_format, OF od] by (elim exE)
    show False
      using assess_output_decision [OF o] combined_output_InrD [OF path(4)] od that final
      by (auto simp: more_severe_allow more_severe_block)
  qed
  note queued = review_stage_InrD [OF rev]
  show ?thesis
  proof (cases "as_decision a = ''REVIEW''")
    case True
    from conjunct2 [OF queued, rule_format, OF True] obtain dict where
      "rv = Some (en_review_uuid en)" "rq_records (fst (ap_reviews s5)) = JDict dict" "snd (ap_reviews s5) = Doc (JDict dict)"
      "od_get dict (en_review_uuid en) = Some (record_dict \<lparr>rr_review_id = en_review_uuid en, rr_status = ''PENDING'',
         rr_reason = reason, rr_capability = pr_capability p, rr_risk = ar_risk_level r, rr_tenant = pr_tenant p,
         rr_prompt_hash = en_sha en (rd_text red), rr_request_id = ?rid, rr_created_at = en_iso_now en\<rparr>)" by blast
    then show ?thesis
      using open_boundary_InrD [OF path(1)] unfolding if_P [OF True] fields after none [OF True]
      by (intro conjI exI [of _ dict] exI [of _ p] exI [of _ reason]) simp_all
  next
    case False
    then show ?thesis using queued before after fields(5) by simp
  qed
qed

text \<open>An outcome without a new log record, and without a 503 that no timeout explains.\<close>

definition unlogged :: "'v api_env \<Rightarrow> 'v api \<Rightarrow> ('a, 'v api) outcome \<Rightarrow> bool" where
  "unlogged en s x \<longleftrightarrow> au_log (ap_audit (snd x)) = au_log (ap_audit s)
     \<and> (\<forall>h. fst x = Inl (Http 503 h) \<longrightarrow> en_input_timeout en \<or> en_output_timeout en)"

lemma unlogged_and_then:
  assumes "unlogged en s x" "\<And>a t. x = (Inr a, t) \<Longrightarrow> unlogged en t (f a t)"
  shows "unlogged en s (and_then x f)"
  using assms by (cases x) (auto simp: unlogged_def and_then_def split: sum.splits)

lemma open_boundary_status: "fst (open_boundary cf en rq s) = Inl (Http st h) \<Longrightarrow> st \<in> {401, 403, 429}"
  by (auto simp: open_boundary_def reject_suspended_and_rate_limit_def and_then_def authenticate_def find_tenant_def
      lift_error_def enforce_rate_limit_def Let_def split: prod.splits sum.splits if_splits)

lemma raised_is_not_503 [simp]: "map_sum ServerError f x \<noteq> Inl (Http st h)"
  by (cases x) simp_all

lemma unlogged_stages:
  "unlogged en s (open_boundary cf en rq s)" "unlogged en s (input_stage cf en x tc s)" "unlogged en s (policy_stage en p risk s)"
  "unlogged en s (review_stage en p d reason risk h rid s)" "unlogged en s (output_stage en ten sp x s)"
  using open_boundary_same [of s cf en rq] open_boundary_status [of cf en rq s 503]
  by (auto simp: unlogged_def same_work_def input_stage_def policy_stage_def review_stage_def output_stage_def Let_def
      split: prod.splits sum.splits if_splits)

lemma unlogged_audit:
  assumes "\<not> ac_read_from_sqlite (cf_audit cf)" "\<And>k. \<not> ae_log_ok (en_audit en) k"
  shows "unlogged en s (audit_step cf (log_event (cf_audit cf) (en_audit en) cap q risk d details) s)"
    and "unlogged en s (log_output cf en p rid x d det s)"
proof -
  have "fst (audit_write (cf_audit cf) (en_audit en) ty e a) = Inr ()" "au_log (snd (audit_write (cf_audit cf) (en_audit en) ty e a)) = au_log a"
    for ty e a using assms by (simp_all add: audit_write_jsonl_only audit_write_log)
  then show "unlogged en s (audit_step cf (log_event (cf_audit cf) (en_audit en) cap q risk d details) s)"
    "unlogged en s (log_output cf en p rid x d det s)"
    by (simp_all add: log_output_def log_event_def log_output_event_def audit_step_ok unlogged_def)
qed

text \<open>
  Failing closed does not cover the log file.  When SQLite is not the read authority and every
  write to the audit log fails, no assessment fails on its account: no record is kept, and a 503
  is answered only when the assessment itself timed out, whatever \<open>AUDIT_WRITE_FAILS_CLOSED\<close> says.
\<close>

theorem unwritable_log_is_served:
  assumes "assess_prompt cf en rq req s = (r, s')" "\<not> ac_read_from_sqlite (cf_audit cf)" "\<And>k. \<not> ae_log_ok (en_audit en) k"
  shows "au_log (ap_audit s') = au_log (ap_audit s) \<and> (\<forall>h. r = Inl (Http 503 h) \<longrightarrow> en_input_timeout en \<or> en_output_timeout en)"
proof -
  have ok: "unlogged en t (Inr a, t)" for a t by (simp add: unlogged_def)
  have comb: "unlogged en t (combined_output en req d t)" for d t
    unfolding combined_output_def
    by (auto intro!: unlogged_and_then unlogged_stages ok split: option.split)
  have "unlogged en s (assess_prompt cf en rq req s)"
    unfolding assess_prompt_def Let_def
    by (intro unlogged_and_then unlogged_stages)
      (auto intro!: unlogged_and_then unlogged_stages comb unlogged_audit [OF assms(2,3)] ok split: prod.split option.split)
  then show ?thesis using assms(1) by (simp add: unlogged_def)
qed

section \<open>Witnesses\<close>

definition prompt_only :: assess_request where
  "prompt_only = \<lparr>aq_prompt = ''Hi'', aq_response = None, aq_system_prompt = None\<rparr>"

definition review_policy :: disk_doc where
  "review_policy = Doc (JDict [(''tenants'', JDict [(''default'', JDict [(''policies'', JDict
     [(''GENERAL'', JDict [(''LOW'', JStr ''REVIEW'')])])])])])"

lemma review_policy_decision:
  "fst (policy_decision review_policy ''GENERAL'' ''LOW'' ''default'' new_policy_store)
     = (''REVIEW'', ''Policy applied for GENERAL (Risk: LOW, Tenant: default)'')"
  by code_simp

lemma example_prompt:
  assumes "fst (policy_decision pol ''GENERAL'' ''LOW'' ''default'' new_policy_store) = (action, reason)" "action \<in> {''ALLOW'', ''REVIEW''}"
  shows "\<exists>a s'. assess_prompt example_config ((example_env (NoReply []) ok)\<lparr>en_policy := pol\<rparr>) example_request prompt_only example_api = (Inr a, s')
    \<and> as_decision a = action"
proof -
  let ?en = "(example_env (NoReply []) ok)\<lparr>en_policy := pol\<rparr>" and ?s1 = "example_api\<lparr>ap_tenants := \<lparr>ts_tenants = [], ts_loaded = True\<rparr>\<rparr>"
  have b: "open_boundary example_config ?en example_request example_api = (Inr (example_principal, default_tenant), ?s1)"
    by (simp add: open_boundary_def authenticate_def resolve_principal_def extract_bearer_def example_request_def
      example_env_def example_config_def example_api_def example_principal_def find_tenant_def resolve_tenant_def
      reject_suspended_and_rate_limit_def enforce_rate_limit_def ts_get_def ts_load_def new_tenant_store_def
      auth_required_def lift_error_def suspended_def default_tenant_def anonymous_def Let_def)
  obtain r p' where r: "assess_risk demo_models demo_settings demo_rules (demo_clock 0) True ''Hi'' (Some ''Hi'') demo_pipeline = (Inr r, p')"
    "ar_risk_level r = ''LOW''" using example_risk by blast
  let ?s2 = "?s1\<lparr>ap_pipeline := p'\<rparr>"
  have i: "input_stage example_config ?en ''Hi'' default_tenant ?s1
      = (Inr (\<lparr>rd_text = ''Hi'', rd_found = False, rd_source = ''CLEAN'', rd_items = []\<rparr>, r), ?s2)"
    using r example_redaction by (simp add: input_stage_def example_env_def example_config_def example_api_def)
  obtain ps where "policy_decision pol ''GENERAL'' ''LOW'' ''default'' new_policy_store = ((action, reason), ps)"
    using assms(1) by (metis prod.collapse)
  then have d: "policy_stage ?en example_principal ''LOW'' ?s2 = (Inr (action, reason), ?s2\<lparr>ap_policy := ps\<rparr>)"
    by (simp add: policy_stage_def example_env_def example_principal_def anonymous_def example_api_def)
  have v: "\<exists>x t. review_stage ?en example_principal action reason ''LOW'' ''Hi'' rid (?s2\<lparr>ap_policy := ps\<rparr>) = (Inr x, t)" for rid
    by (simp add: review_stage_def enqueue_def rq_load_def rq_save_def example_api_def new_review_queue_def Let_def)
  have rid: "resolve_request_id example_config (en_uuid (example_env (NoReply []) ok)) example_request = ''req-1''" by code_simp
  obtain x t where v': "review_stage ?en example_principal action reason ''LOW'' ''Hi'' ''req-1'' (?s2\<lparr>ap_policy := ps\<rparr>) = (Inr x, t)"
    using v by blast
  have "audit_step example_config (log_event (cf_audit example_config) (en_audit ?en) cap q risk dec det) t
      = (Inr (), t\<lparr>ap_audit := snd (log_event (cf_audit example_config) (en_audit ?en) cap q risk dec det (ap_audit t))\<rparr>)" for cap q risk dec det
    by (rule audit_step_ok) (simp add: log_event_def audit_write_jsonl_only example_config_def)
  then show ?thesis
    unfolding assess_prompt_def
    by (simp add: b i r(2) d v' combined_output_def prompt_only_def rid Let_def)
qed

theorem assess_decision_composed_witness:
  "\<exists>a s'. assess_prompt example_config ((example_env (NoReply []) True)\<lparr>en_policy := example_policy\<rparr>) example_request prompt_only example_api
      = (Inr a, s') \<and> as_decision a = ''ALLOW'' \<and> as_output_decision a = None"
proof -
  obtain a s' where a: "assess_prompt example_config ((example_env (NoReply []) True)\<lparr>en_policy := example_policy\<rparr>) example_request prompt_only
      example_api = (Inr a, s')" "as_decision a = ''ALLOW''"
    using example_prompt [OF example_decision, of True] by blast
  have "as_output_decision a = None"
    using assess_decision_composed [OF a(1)] by (auto simp: prompt_only_def)
  then show ?thesis using a by blast
qed

theorem assessment_is_audited_witness:
  "\<exists>a s' e. assess_prompt example_config ((example_env (NoReply []) True)\<lparr>en_policy := example_policy\<rparr>) example_request prompt_only example_api
      = (Inr a, s') \<and> e \<in> set (au_log (ap_audit s')) \<and> entry_get e ''decision'' = JStr ''ALLOW''"
proof -
  obtain a s' where a: "assess_prompt example_config ((example_env (NoReply []) True)\<lparr>en_policy := example_policy\<rparr>) example_request prompt_only
      example_api = (Inr a, s')" "as_decision a = ''ALLOW''"
    using example_prompt [OF example_decision, of True] by blast
  have "ae_log_ok (en_audit ((example_env (NoReply []) True)\<lparr>en_policy := example_policy\<rparr>)) k" for k
    by (simp add: example_env_def)
  from assessment_is_audited [OF a(1) this] show ?thesis using a by auto
qed

theorem review_decision_is_queued_witness:
  "\<exists>a s' dict. assess_prompt example_config ((example_env (NoReply []) True)\<lparr>en_policy := review_policy\<rparr>) example_request prompt_only example_api
      = (Inr a, s') \<and> as_review_id a = Some ''v1'' \<and> snd (ap_reviews s') = Doc (JDict dict) \<and> od_get dict ''v1'' \<noteq> None"
proof -
  obtain a s' where a: "assess_prompt example_config ((example_env (NoReply []) True)\<lparr>en_policy := review_policy\<rparr>) example_request prompt_only
      example_api = (Inr a, s')" "as_decision a = ''REVIEW''"
    using example_prompt [OF review_policy_decision, of True] by blast
  have "en_review_uuid ((example_env (NoReply []) True)\<lparr>en_policy := review_policy\<rparr>) = ''v1''" by (simp add: example_env_def)
  then show ?thesis using review_decision_is_queued [OF a(1)] a by auto
qed

theorem unwritable_log_is_served_witness:
  "ac_fails_closed (cf_audit example_config)
   \<and> (\<exists>a s'. assess_prompt example_config ((example_env (NoReply []) False)\<lparr>en_policy := example_policy\<rparr>) example_request prompt_only example_api
      = (Inr a, s') \<and> as_decision a = ''ALLOW'' \<and> au_log (ap_audit s') = [])"
proof -
  obtain a s' where a: "assess_prompt example_config ((example_env (NoReply []) False)\<lparr>en_policy := example_policy\<rparr>) example_request prompt_only
      example_api = (Inr a, s')" "as_decision a = ''ALLOW''"
    using example_prompt [OF example_decision, of False] by blast
  have "\<not> ac_read_from_sqlite (cf_audit example_config)" "ac_fails_closed (cf_audit example_config)"
    by (simp_all add: example_config_def)
  moreover have "\<not> ae_log_ok (en_audit ((example_env (NoReply []) False)\<lparr>en_policy := example_policy\<rparr>)) k" for k
    by (simp add: example_env_def)
  ultimately show ?thesis using unwritable_log_is_served [OF a(1)] a by (simp add: example_api_def)
qed

end
