(* ===== verification/Gateway_Api.thy ===== *)
theory Gateway_Api
  imports Assess_Api
begin

text \<open>
  The model gateway of \<open>api/main.py\<close>, \<open>POST /api/v1/gateway/chat\<close>: quota, input guardrails,
  the provider chain, output guardrails, audit and token accounting.
\<close>

section \<open>Quota\<close>

definition quota_exceeded :: "'v api_env \<Rightarrow> string \<Rightarrow> int \<Rightarrow> tracker_choice \<Rightarrow> bool \<times> tracker_choice" where
  "quota_exceeded en tenant quota t =
     (case t of
        LocalTracker l \<Rightarrow> map_prod id LocalTracker (local_would_exceed l tenant quota (today_utc (en_epoch en)))
      | RedisTracker r \<Rightarrow> map_prod id RedisTracker (redis_would_exceed (en_up en) (en_epoch en) r tenant quota))"

definition quota_record :: "'v api_env \<Rightarrow> string \<Rightarrow> int \<Rightarrow> tracker_choice \<Rightarrow> tracker_choice" where
  "quota_record en tenant tokens t =
     (case t of
        LocalTracker l \<Rightarrow> LocalTracker (local_record l tenant tokens (today_utc (en_epoch en)))
      | RedisTracker r \<Rightarrow> RedisTracker (redis_record (en_up en) (en_epoch en) r tenant tokens))"

definition quota_stage :: "api_config \<Rightarrow> 'v api_env \<Rightarrow> principal \<Rightarrow> tenant_config \<Rightarrow> 'v api \<Rightarrow> (unit, 'v api) outcome" where
  "quota_stage cf en p tc s =
     (if \<not> cf_quota_enabled cf then (Inr (), s)
      else
        let quota = (case tc_token_quota_daily tc of Some q \<Rightarrow> q | None \<Rightarrow> cf_quota_default cf);
            (exceeded, t) = quota_exceeded en (pr_tenant p) quota (ap_quota s);
            s' = s\<lparr>ap_quota := t\<rparr>
        in if exceeded then
             (Inl (Http 429 [(''Retry-After'', int_str (py_int (seconds_until_utc_midnight (en_epoch en))))]), s')
           else (Inr (), s'))"

text \<open>A positive total is recorded; \<open>extract_total_tokens\<close> may raise.\<close>

definition record_tokens :: "'v api_env \<Rightarrow> principal \<Rightarrow> json \<Rightarrow> 'v api \<Rightarrow> (unit, 'v api) outcome" where
  "record_tokens en p usage s =
     (case extract_total_tokens usage of
        Inl e \<Rightarrow> (Inl (ServerError e), s)
      | Inr (PInt n) \<Rightarrow> (Inr (), if n > 0 then s\<lparr>ap_quota := quota_record en (pr_tenant p) n (ap_quota s)\<rparr> else s)
      | Inr _ \<Rightarrow> (Inr (), s\<lparr>ap_quota := en_odd_tokens en (ap_quota s)\<rparr>))"

section \<open>The provider chain\<close>

record chat_request =
  cq_prompt :: string
  cq_system_prompt :: "string option"
  cq_provider :: "string option"
  cq_model :: "string option"

text \<open>\<open>req.provider or settings.LLM_GATEWAY_DEFAULT_PROVIDER\<close>.\<close>

definition primary_provider :: "api_config \<Rightarrow> chat_request \<Rightarrow> string" where
  "primary_provider cf req = model_or (cq_provider req) (cf_default_provider cf)"

definition attempt_names :: "api_config \<Rightarrow> chat_request \<Rightarrow> string list" where
  "attempt_names cf req =
     (let primary = primary_provider cf req in
      primary #
      (if cq_provider req = None
       then filter (\<lambda>n. n \<noteq> [] \<and> n \<noteq> primary) (map str_strip (split_on (CHR '','') (cf_fallback cf)))
       else []))"

definition chat_messages :: "chat_request \<Rightarrow> string \<Rightarrow> message list" where
  "chat_messages req clean_query =
     (case cq_system_prompt req of Some (c # t) \<Rightarrow> [(''system'', c # t)] | _ \<Rightarrow> []) @ [(''user'', clean_query)]"

text \<open>
  A failed call is audited without the 503 guard, so an audit write that raises ends the
  request.
\<close>

definition log_failed_call ::
  "api_config \<Rightarrow> 'v api_env \<Rightarrow> principal \<Rightarrow> string \<Rightarrow> string \<Rightarrow> string option \<Rightarrow> string \<Rightarrow> 'v api \<Rightarrow> (unit, 'v api) outcome" where
  "log_failed_call cf en p rid name model err s =
     (let (r, a) = log_gateway_event (cf_audit cf) (en_audit en) (pr_capability p) name (opt_str model) False (en_latency en)
                     ''BLOCK'' JNull (Some err) (pr_tenant p) rid (ap_audit s)
      in (lift_error r, s\<lparr>ap_audit := a\<rparr>))"

text \<open>
  The attempts in order; \<open>k\<close> is the position, 0 the primary.  \<open>failed\<close> is the status of the last
  failure.  A timed-out call was made and may still be billed.
\<close>

fun try_providers ::
  "api_config \<Rightarrow> 'v api_env \<Rightarrow> principal \<Rightarrow> string \<Rightarrow> chat_request \<Rightarrow> message list \<Rightarrow> nat \<Rightarrow> int option \<Rightarrow> string list \<Rightarrow> 'v api
   \<Rightarrow> (string \<times> llm_response, 'v api) outcome" where
  "try_providers cf en p rid req ms k failed [] s =
     (Inl (case failed of Some st \<Rightarrow> Http st (if st = 503 then retry5 else []) | None \<Rightarrow> ServerError (TypeError ''status_code'')), s)"
| "try_providers cf en p rid req ms k failed (name # names) s =
     (case get_provider (cf_providers cf) (en_post en) name of
        Inl e \<Rightarrow> if k = 0 then (Inl (Http 422 []), s) else try_providers cf en p rid req ms (Suc k) failed names s
      | Inr call \<Rightarrow>
          (let model = (if k = 0 then cq_model req else None);
               s1 = s\<lparr>ap_calls := ap_calls s @ [(name, ms, model)]\<rparr>
           in if en_call_timeout en k then
                and_then (log_failed_call cf en p rid name model ''timeout'' s1)
                  (\<lambda>_ s2. try_providers cf en p rid req ms (Suc k) (Some 503) names s2)
              else case call ms model of
                     Inr resp \<Rightarrow> (Inr (name, resp), s1)
                   | Inl (ProviderError msg) \<Rightarrow>
                       and_then (log_failed_call cf en p rid name model msg s1)
                         (\<lambda>_ s2. try_providers cf en p rid req ms (Suc k) (Some 502) names s2)
                   | Inl (Escaped e) \<Rightarrow> (Inl (ServerError e), s1)))"

section \<open>The endpoint\<close>

record chat_response =
  ct_decision :: string
  ct_content :: "string option"
  ct_provider :: "string option"
  ct_model :: json
  ct_usage :: json
  ct_review_id :: "string option"
  ct_details :: entry

text \<open>A content that is not text makes the first pattern search raise \<open>TypeError\<close>.\<close>

definition guard_output ::
  "'v api_env \<Rightarrow> tenant_config \<Rightarrow> string option \<Rightarrow> json \<Rightarrow> 'v api \<Rightarrow> (string \<times> string \<times> output_details, 'v api) outcome" where
  "guard_output en tc system_prompt content s =
     (case content of
        JStr text \<Rightarrow> and_then (output_stage en (Some tc) system_prompt text s) (\<lambda>(d, det) s'. (Inr (text, d, det), s'))
      | _ \<Rightarrow> (Inl (if en_output_timeout en then Http 503 retry5 else ServerError (TypeError ''expected string or bytes-like object'')), s))"

definition log_answered_call ::
  "api_config \<Rightarrow> 'v api_env \<Rightarrow> principal \<Rightarrow> string \<Rightarrow> string \<Rightarrow> llm_response \<Rightarrow> string \<Rightarrow> 'v api \<Rightarrow> (unit, 'v api) outcome" where
  "log_answered_call cf en p rid name resp decision s =
     (let (r, a) = log_gateway_event (cf_audit cf) (en_audit en) (pr_capability p) name (lr_model resp) True (en_latency en)
                     decision (lr_usage resp) None (pr_tenant p) rid (ap_audit s)
      in (lift_error r, s\<lparr>ap_audit := a\<rparr>))"

definition fallback_details :: "api_config \<Rightarrow> chat_request \<Rightarrow> string \<Rightarrow> entry \<Rightarrow> entry" where
  "fallback_details cf req name details =
     (if name \<noteq> primary_provider cf req
      then od_set ''gateway_fallback_from'' (JStr (primary_provider cf req))
             (od_set ''gateway_fallback_used'' (JBool True) details)
      else details)"

definition chat_answer :: "string \<Rightarrow> entry \<Rightarrow> llm_response \<Rightarrow> output_details \<Rightarrow> chat_response" where
  "chat_answer decision details resp det =
     \<lparr>ct_decision = decision, ct_content = (if decision \<noteq> ''BLOCK'' then od_clean det else None),
      ct_provider = Some (lr_provider resp), ct_model = lr_model resp, ct_usage = lr_usage resp, ct_review_id = None,
      ct_details = details\<rparr>"

text \<open>What follows a provider's answer.\<close>

definition finish_chat ::
  "api_config \<Rightarrow> 'v api_env \<Rightarrow> principal \<Rightarrow> tenant_config \<Rightarrow> string \<Rightarrow> chat_request \<Rightarrow> string \<Rightarrow> entry \<Rightarrow> string \<Rightarrow> llm_response
   \<Rightarrow> 'v api \<Rightarrow> (chat_response, 'v api) outcome" where
  "finish_chat cf en p tc rid req input_decision details name resp s =
     and_then (guard_output en tc (cq_system_prompt req) (lr_content resp) s) (\<lambda>(body, output_decision, det) s2.
       let decision = more_severe input_decision output_decision
       in and_then (log_output cf en p rid body output_decision det s2) (\<lambda>_ s3.
          and_then (log_answered_call cf en p rid name resp decision s3) (\<lambda>_ s4.
          and_then (record_tokens en p (lr_usage resp) s4) (\<lambda>_ s5.
            (Inr (chat_answer decision
                    (od_set ''output_assessment'' (JDict (output_json det)) (fallback_details cf req name details)) resp det), s5)))))"

definition forward_chat ::
  "api_config \<Rightarrow> 'v api_env \<Rightarrow> principal \<Rightarrow> tenant_config \<Rightarrow> string \<Rightarrow> chat_request \<Rightarrow> string \<Rightarrow> string \<Rightarrow> entry \<Rightarrow> 'v api
   \<Rightarrow> (chat_response, 'v api) outcome" where
  "forward_chat cf en p tc rid req clean_query input_decision details s =
     and_then (try_providers cf en p rid req (chat_messages req clean_query) 0 None (attempt_names cf req) s)
       (\<lambda>(name, resp) s1. finish_chat cf en p tc rid req input_decision details name resp s1)"

definition gateway_chat ::
  "api_config \<Rightarrow> 'v api_env \<Rightarrow> http_request \<Rightarrow> chat_request \<Rightarrow> 'v api \<Rightarrow> (chat_response, 'v api) outcome" where
  "gateway_chat cf en rq req s =
     (let rid = resolve_request_id cf (en_uuid en) rq in
      and_then (open_boundary cf en rq s) (\<lambda>(p, tc) s1.
      and_then (quota_stage cf en p tc s1) (\<lambda>_ s2.
      and_then (input_stage cf en (cq_prompt req) tc s2) (\<lambda>(red, r) s3.
      and_then (policy_stage en p (ar_risk_level r) s3) (\<lambda>(decision, reason) s4.
      and_then (review_stage en p decision reason (ar_risk_level r) (rd_text red) rid s4) (\<lambda>review_id s5.
        let details0 = identity_details p reason rid (details_json (en_repr en) r);
            details = (case review_id of None \<Rightarrow> details0 | Some i \<Rightarrow> od_set ''review_id'' (JStr i) details0)
        in and_then (audit_step cf (log_event (cf_audit cf) (en_audit en) (pr_capability p) (rd_text red)
                                      (ar_risk_level r) decision details) s5) (\<lambda>_ s6.
           if decision \<in> {''BLOCK'', ''REVIEW''} then
             (Inr \<lparr>ct_decision = decision, ct_content = None, ct_provider = None, ct_model = JNull, ct_usage = JNull,
                   ct_review_id = review_id, ct_details = details\<rparr>, s6)
           else forward_chat cf en p tc rid req (rd_text red) decision details s6)))))))"

section \<open>Stages that do not call a provider\<close>

lemma quota_stage_frame [simp]:
  "ap_calls (snd (quota_stage cf en p tc s)) = ap_calls s" "ap_audit (snd (quota_stage cf en p tc s)) = ap_audit s"
  "ap_policy (snd (quota_stage cf en p tc s)) = ap_policy s" "ap_pipeline (snd (quota_stage cf en p tc s)) = ap_pipeline s"
  by (simp_all add: quota_stage_def Let_def split: prod.split)

lemma log_frame [simp]:
  "ap_calls (snd (log_failed_call cf en p rid n m e s)) = ap_calls s"
  "ap_calls (snd (log_answered_call cf en p rid n resp d s)) = ap_calls s"
  "ap_quota (snd (log_failed_call cf en p rid n m e s)) = ap_quota s"
  "ap_quota (snd (log_answered_call cf en p rid n resp d s)) = ap_quota s"
  by (simp_all add: log_failed_call_def log_answered_call_def split: prod.split)

lemma record_tokens_frame [simp]: "ap_calls (snd (record_tokens en p u s)) = ap_calls s"
  by (simp add: record_tokens_def split: sum.split py_num.split)

lemma guard_output_snd:
  "snd (guard_output en tc sp c s) = (case c of JStr text \<Rightarrow> snd (output_stage en (Some tc) sp text s) | _ \<Rightarrow> s)"
  by (auto simp: guard_output_def intro: and_then_snd split: json.split)

lemma guard_output_frame [simp]:
  "ap_calls (snd (guard_output en tc sp c s)) = ap_calls s" "ap_audit (snd (guard_output en tc sp c s)) = ap_audit s"
  "ap_quota (snd (guard_output en tc sp c s)) = ap_quota s"
  by (simp_all add: guard_output_snd split: json.split)

text \<open>What a successful stage returns.\<close>

lemma guard_output_InrD:
  assumes "guard_output en tc sp content s = (Inr (text, d, det), t)"
  shows "content = JStr text \<and>
    (\<exists>o'. assess_output (en_output en) (en_up en) (en_now en) (en_server en) (Some tc) sp text (pl_ollama (ap_pipeline s)) = ((d, det), o'))"
  using assms
  by (auto simp: guard_output_def and_then_Inr_iff dest: output_stage_InrD split: json.splits)

section \<open>When a provider is called\<close>

lemma try_providers_calls:
  "\<exists>cs. ap_calls (snd (try_providers cf en p rid req ms k failed names s)) = ap_calls s @ cs
     \<and> (\<forall>(n, m, md) \<in> set cs. n \<in> set names \<and> m = ms)
     \<and> ap_quota (snd (try_providers cf en p rid req ms k failed names s)) = ap_quota s
     \<and> (isl (fst (try_providers cf en p rid req ms k failed names s)) \<or> cs \<noteq> [])"
proof (induction names arbitrary: k failed s)
  case (Cons name names)
  let ?goal = "\<lambda>s r. \<exists>cs. ap_calls (snd r) = ap_calls s @ cs \<and> (\<forall>(n, m, md) \<in> set cs. n \<in> set (name # names) \<and> m = ms)
    \<and> ap_quota (snd r) = ap_quota s \<and> (isl (fst r) \<or> cs \<noteq> [])"
  have ih: "?goal t (try_providers cf en p rid req ms k' failed' names t)" for k' failed' t
    using Cons.IH [where k = k' and failed = failed' and s = t] by fastforce
  show ?case
  proof (cases "get_provider (cf_providers cf) (en_post en) name")
    case (Inl e)
    then show ?thesis using ih [of "Suc k" failed s] by auto
  next
    case (Inr call)
    let ?model = "if k = 0 then cq_model req else None"
    let ?s1 = "s\<lparr>ap_calls := ap_calls s @ [(name, ms, ?model)]\<rparr>"
    have step: "?goal s (and_then (log_failed_call cf en p rid name m msg ?s1)
        (\<lambda>_ s2. try_providers cf en p rid req ms k' failed' names s2))" for m msg k' failed'
    proof (cases "log_failed_call cf en p rid name m msg ?s1")
      case (Pair r s2)
      then have f: "ap_calls s2 = ap_calls s @ [(name, ms, ?model)]" "ap_quota s2 = ap_quota s"
        using log_frame(1,3) [of cf en p rid name m msg ?s1] by auto
      then show ?thesis
        using Pair ih [of k' failed' s2] by (cases r) (auto simp: f)
    qed
    show ?thesis
      using Inr step by (auto simp: Let_def split: sum.split complete_error.split)
  qed
qed simp

lemma after_call_frame:
  "ap_calls (snd (forward_chat cf en p tc rid req q d det s)) =
     ap_calls (snd (try_providers cf en p rid req (chat_messages req q) 0 None (attempt_names cf req) s))"
  unfolding forward_chat_def finish_chat_def
  by (rule and_then_keep) (simp add: and_then_keep [where g = ap_calls] log_output_def Let_def split: prod.split)

text \<open>A handler that has called a provider, or returns its content, got past every stage that does neither.\<close>

definition past :: "(string \<times> message list \<times> string option) list \<Rightarrow> (chat_response, 'v api) outcome \<Rightarrow> bool" where
  "past c r \<longleftrightarrow> ap_calls (snd r) \<noteq> c \<or> (\<exists>a. fst r = Inr a \<and> ct_content a \<noteq> None)"

lemma keep_until:
  assumes "past c (and_then x f)" "ap_calls (snd x) = c"
  shows "\<exists>a t. x = (Inr a, t) \<and> ap_calls t = c"
  using assms by (cases x) (auto simp: and_then_def past_def split: sum.splits)

text \<open>The prompt's path up to the providers, and what is known when one is called.\<close>

lemma gateway_call_path:
  assumes "gateway_chat cf en rq req s = (out, s')" "past (ap_calls s) (out, s')"
  obtains p tc s1 r s4 action reason details s6 where
    "open_boundary cf en rq s = (Inr (p, tc), s1)"
    "fst (quota_stage cf en p tc s1) = Inr ()"
    "fst (assess_risk (en_models en) (cf_risk cf) (cf_rules cf) (en_clock en) True
       (rd_text (redact_pii (en_nlp en) (Some tc) (cq_prompt req))) (Some (cq_prompt req)) (ap_pipeline s1)) = Inr r"
    "fst (policy_decision (en_policy en) (pr_capability p) (ar_risk_level r) (pr_tenant p) (ap_policy s1)) = (action, reason)"
    "action \<notin> {''BLOCK'', ''REVIEW''}"
    "ap_audit s4 = ap_audit s1"
    "audit_step cf (log_event (cf_audit cf) (en_audit en) (pr_capability p)
       (rd_text (redact_pii (en_nlp en) (Some tc) (cq_prompt req))) (ar_risk_level r) action details) s4 = (Inr (), s6)"
    "meta_or details ''request_id'' (JStr ''unset'') = JStr (resolve_request_id cf (en_uuid en) rq)"
    "ap_calls s6 = ap_calls s"
    "(out, s') = forward_chat cf en p tc (resolve_request_id cf (en_uuid en) rq) req
       (rd_text (redact_pii (en_nlp en) (Some tc) (cq_prompt req))) action details s6"
proof -
  note calls = keep_until [where c = "ap_calls s"]
  note run = assms(1) [symmetric, unfolded gateway_chat_def Let_def]
  have "ap_calls (snd (open_boundary cf en rq s)) = ap_calls s"
    using open_boundary_same [of s cf en rq] by (simp add: same_work_def)
  from calls [OF assms(2) [unfolded run] this]
  obtain pt s1 where b: "open_boundary cf en rq s = (Inr pt, s1)" "ap_calls s1 = ap_calls s" by blast
  obtain p tc where pt: "pt = (p, tc)" by (cases pt)
  let ?red = "redact_pii (en_nlp en) (Some tc) (cq_prompt req)"
  note run = run [unfolded b pt and_then_simps prod.case]
  from calls [OF assms(2) [unfolded run] trans [OF quota_stage_frame(1) b(2)]] obtain u s2 where q: "quota_stage cf en p tc s1 = (Inr u, s2)"
    "ap_calls s2 = ap_calls s" by blast
  note run = run [unfolded q and_then_simps prod.case]
  from calls [OF assms(2) [unfolded run] trans [OF input_stage_frame(1) q(2)]] obtain rr s3 where i: "input_stage cf en (cq_prompt req) tc s2 = (Inr rr, s3)"
    "ap_calls s3 = ap_calls s" by blast
  obtain red r where rr: "rr = (red, r)" by (cases rr)
  note inp = input_stage_InrD [OF i(1) [unfolded rr]]
  have red: "red = ?red" using inp by simp
  note run = run [unfolded i rr red and_then_simps prod.case]
  from calls [OF assms(2) [unfolded run] trans [OF policy_stage_frame(1) i(2)]] obtain dr s4 where d: "policy_stage en p (ar_risk_level r) s3 = (Inr dr, s4)"
    "ap_calls s4 = ap_calls s" by blast
  obtain action reason where dr: "dr = (action, reason)" by (cases dr)
  note run = run [unfolded d dr and_then_simps prod.case]
  from calls [OF assms(2) [unfolded run] trans [OF review_stage_frame(1) d(2)]] obtain rev s5 where
    v: "review_stage en p action reason (ar_risk_level r) (rd_text ?red) (resolve_request_id cf (en_uuid en) rq) s4 = (Inr rev, s5)"
    "ap_calls s5 = ap_calls s" by blast
  note run = run [unfolded v and_then_simps prod.case]
  define details where "details =
    (case rev of None \<Rightarrow> identity_details p reason (resolve_request_id cf (en_uuid en) rq) (details_json (en_repr en) r)
     | Some i \<Rightarrow> od_set ''review_id'' (JStr i) (identity_details p reason (resolve_request_id cf (en_uuid en) rq) (details_json (en_repr en) r)))"
  note run = run [folded details_def]
  from calls [OF assms(2) [unfolded run] trans [OF audit_step_frame(1) v(2)]] obtain w s6 where
    a: "audit_step cf (log_event (cf_audit cf) (en_audit en) (pr_capability p) (rd_text ?red) (ar_risk_level r) action details) s5 = (Inr w, s6)"
    "ap_calls s6 = ap_calls s" by blast
  note run = run [unfolded a and_then_simps prod.case]
  have act: "action \<notin> {''BLOCK'', ''REVIEW''}"
    using assms(2) run a(2) by (auto simp: past_def split: if_splits)
  have pol: "ap_policy s3 = ap_policy s1"
    using quota_stage_frame(3) [of cf en p tc s1] input_stage_frame(4) [of cf en "cq_prompt req" tc s2] q(1) i(1) by simp
  have aud: "ap_audit s5 = ap_audit s1"
    using quota_stage_frame(2) [of cf en p tc s1] input_stage_frame(2) [of cf en "cq_prompt req" tc s2]
      policy_stage_frame(2) [of en p "ar_risk_level r" s3] q(1) i(1) d(1)
      review_stage_frame(2) [of en p action reason "ar_risk_level r" "rd_text ?red" "resolve_request_id cf (en_uuid en) rq" s4] v(1)
    by simp
  have pipe: "ap_pipeline s2 = ap_pipeline s1" using quota_stage_frame(4) [of cf en p tc s1] q(1) by simp
  show thesis
  proof (rule that [of p tc s1 r action reason s5 details s6])
    show "open_boundary cf en rq s = (Inr (p, tc), s1)" using b pt by simp
    show "fst (quota_stage cf en p tc s1) = Inr ()" using q(1) by simp
    show "fst (assess_risk (en_models en) (cf_risk cf) (cf_rules cf) (en_clock en) True (rd_text ?red)
        (Some (cq_prompt req)) (ap_pipeline s1)) = Inr r" using inp red pipe by simp
    show "fst (policy_decision (en_policy en) (pr_capability p) (ar_risk_level r) (pr_tenant p) (ap_policy s1)) = (action, reason)"
      using policy_stage_InrD [OF d(1) [unfolded dr]] pol by simp
    show "action \<notin> {''BLOCK'', ''REVIEW''}" by (rule act)
    show "ap_audit s5 = ap_audit s1" by (rule aud)
    show "audit_step cf (log_event (cf_audit cf) (en_audit en) (pr_capability p) (rd_text ?red) (ar_risk_level r) action details) s5
        = (Inr (), s6)" using a(1) by simp
    show "meta_or details ''request_id'' (JStr ''unset'') = JStr (resolve_request_id cf (en_uuid en) rq)"
      by (simp add: details_def identity_details_rid split: option.split)
    show "ap_calls s6 = ap_calls s" by (rule a(2))
    show "(out, s') = forward_chat cf en p tc (resolve_request_id cf (en_uuid en) rq) req (rd_text ?red) action details s6"
      using run act by simp
  qed
qed

section \<open>The log only grows\<close>

lemma log_failed_grows [simp]: "log_grows s (snd (log_failed_call cf en p rid n m e s))"
  by (auto simp: log_grows_def log_failed_call_def log_gateway_event_def Let_def dest: audit_write_grows split: prod.split)

lemma log_answered_grows [simp]: "log_grows s (snd (log_answered_call cf en p rid n r d s))"
  by (auto simp: log_grows_def log_answered_call_def log_gateway_event_def Let_def dest: audit_write_grows split: prod.split)

lemma record_tokens_grows [simp]: "log_grows s (snd (record_tokens en p u s))"
  by (intro log_grows_same) (simp add: record_tokens_def split: sum.split py_num.split)

lemma try_providers_grows: "log_grows s (snd (try_providers cf en p rid req ms k failed names s))"
proof (induction names arbitrary: k failed s)
  case (Cons name names)
  let ?s1 = "s\<lparr>ap_calls := ap_calls s @ [(name, ms, if k = 0 then cq_model req else None)]\<rparr>"
  have s1: "log_grows ?s1 t \<Longrightarrow> log_grows s t" for t by (simp add: log_grows_def)
  have "log_grows ?s1 (snd (and_then (log_failed_call cf en p rid name m msg ?s1)
      (\<lambda>_ s2. try_providers cf en p rid req ms k' failed' names s2)))" for m msg k' failed'
    by (rule and_then_grows) (auto intro: Cons.IH)
  then show ?case
    using Cons.IH by (auto simp: Let_def intro: s1 split: sum.split complete_error.split)
qed simp

lemma forward_chat_grows: "log_grows s (snd (forward_chat cf en p tc rid req q d det s))"
proof -
  have "log_grows t (snd (guard_output en tc sp c t))" for sp c t by (intro log_grows_same) simp
  then show ?thesis
    unfolding forward_chat_def finish_chat_def Let_def
    by (intro and_then_grows try_providers_grows) (auto intro!: and_then_grows split: prod.splits)
qed

section \<open>What an answer carries\<close>

lemma finish_chat_InrD:
  assumes "finish_chat cf en p tc rid req input_decision details name resp s = (Inr a, s')"
  shows "\<exists>body d det st o' t. lr_content resp = JStr body
    \<and> assess_output (en_output en) (en_up en) (en_now en) (en_server en) (Some tc) (cq_system_prompt req) body st = ((d, det), o')
    \<and> ct_decision a = more_severe input_decision d
    \<and> ct_content a = (if ct_decision a \<noteq> ''BLOCK'' then od_clean det else None)
    \<and> ct_usage a = lr_usage resp \<and> ap_quota t = ap_quota s \<and> record_tokens en p (lr_usage resp) t = (Inr (), s')"
proof -
  note run = assms [unfolded finish_chat_def Let_def]
  obtain body d det s2 where
    g: "guard_output en tc (cq_system_prompt req) (lr_content resp) s = (Inr (body, d, det), s2)"
    using run by (cases "guard_output en tc (cq_system_prompt req) (lr_content resp) s") (auto simp: and_then_def split: sum.splits)
  note run = run [unfolded g and_then_simps prod.case]
  obtain s3 where l: "log_output cf en p rid body d det s2 = (Inr (), s3)"
    using run by (auto simp: and_then_Inr_iff)
  note run = run [unfolded l and_then_simps]
  obtain s4 where w: "log_answered_call cf en p rid name resp (more_severe input_decision d) s3 = (Inr (), s4)"
    using run by (auto simp: and_then_Inr_iff)
  note run = run [unfolded w and_then_simps]
  have "ap_quota s4 = ap_quota s"
    using guard_output_frame(3) [of en tc "cq_system_prompt req" "lr_content resp" s] g w l
      log_frame(4) [of cf en p rid name resp "more_severe input_decision d" s3]
      log_output_frame(2) [of cf en p rid body d det s2]
    by simp
  moreover have "record_tokens en p (lr_usage resp) s4 = (Inr (), s')" "ct_decision a = more_severe input_decision d"
      "ct_usage a = lr_usage resp" "ct_content a = (if ct_decision a \<noteq> ''BLOCK'' then od_clean det else None)"
    using run by (auto simp: and_then_Inr_iff chat_answer_def)
  ultimately show ?thesis using guard_output_InrD [OF g] by blast
qed

lemma forward_chat_InrD:
  assumes "forward_chat cf en p tc rid req q input_decision details s = (Inr a, s')"
  obtains name resp s1 where "ap_calls s1 \<noteq> ap_calls s"
    "try_providers cf en p rid req (chat_messages req q) 0 None (attempt_names cf req) s = (Inr (name, resp), s1)"
    "finish_chat cf en p tc rid req input_decision details name resp s1 = (Inr a, s')" "ap_quota s1 = ap_quota s"
proof -
  obtain x s1 where t: "try_providers cf en p rid req (chat_messages req q) 0 None (attempt_names cf req) s = (Inr x, s1)"
      "(case x of (name, resp) \<Rightarrow> finish_chat cf en p tc rid req input_decision details name resp) s1 = (Inr a, s')"
    using assms unfolding forward_chat_def and_then_Inr_iff by blast
  obtain name resp where "x = (name, resp)" by (cases x)
  moreover have "ap_quota s1 = ap_quota s \<and> ap_calls s1 \<noteq> ap_calls s"
    using try_providers_calls [of cf en p rid req "chat_messages req q" 0 None "attempt_names cf req" s] t(1) by auto
  ultimately show thesis using t by (intro that [of s1 name resp]) auto
qed

lemma quota_stage_ok:
  assumes "fst (quota_stage cf en p tc s) = Inr ()" "cf_quota_enabled cf"
  shows "\<not> fst (quota_exceeded en (pr_tenant p)
    (case tc_token_quota_daily tc of Some q \<Rightarrow> q | None \<Rightarrow> cf_quota_default cf) (ap_quota s))"
  using assms by (auto simp: quota_stage_def Let_def split: prod.splits if_splits)

lemma first_call_escapes:
  assumes "get_provider (cf_providers cf) (en_post en) (primary_provider cf req) = Inr call" "\<not> en_call_timeout en 0"
    and "call (chat_messages req q) (cq_model req) = Inl (Escaped e)"
  shows "forward_chat cf en p tc rid req q action details s =
    (Inl (ServerError e), s\<lparr>ap_calls := ap_calls s @ [(primary_provider cf req, chat_messages req q, cq_model req)]\<rparr>)"
  using assms by (simp add: forward_chat_def attempt_names_def Let_def)

lemma first_call_answers:
  assumes "get_provider (cf_providers cf) (en_post en) (primary_provider cf req) = Inr call" "\<not> en_call_timeout en 0"
    and "call (chat_messages req q) (cq_model req) = Inr resp"
  shows "forward_chat cf en p tc rid req q action details s =
    finish_chat cf en p tc rid req action details (primary_provider cf req) resp
      (s\<lparr>ap_calls := ap_calls s @ [(primary_provider cf req, chat_messages req q, cq_model req)]\<rparr>)"
  using assms by (simp add: forward_chat_def attempt_names_def Let_def)

section \<open>Properties\<close>

text \<open>
  C2. A provider is called only for a request that was let through, and gets the redacted
  prompt in place of the raw one.  When a chat request makes a provider call, the caller was authenticated if that is
  required, its tenant is not suspended and has quota left, the policy's action for the risk
  assessed is neither BLOCK nor REVIEW, and every call of the request sends the system prompt
  and the redacted prompt and nothing else.
\<close>

theorem gateway_calls_only_allowed:
  assumes "gateway_chat cf en rq req s = (out, s')" "ap_calls s' \<noteq> ap_calls s"
  shows "\<exists>p tc r action reason cs.
    fst (resolve_principal (en_sha en) (en_keys en) (hr_authorization rq) None (ap_keys s)) = Inr p
    \<and> (auth_required (cf_auth_mode cf) \<longrightarrow> pr_authenticated p)
    \<and> fst (resolve_tenant (en_tenants en) (pr_tenant p) (ap_tenants s)) = Inr tc \<and> \<not> suspended tc
    \<and> (cf_quota_enabled cf \<longrightarrow> \<not> fst (quota_exceeded en (pr_tenant p)
         (case tc_token_quota_daily tc of Some q \<Rightarrow> q | None \<Rightarrow> cf_quota_default cf) (ap_quota s)))
    \<and> fst (assess_risk (en_models en) (cf_risk cf) (cf_rules cf) (en_clock en) True
         (rd_text (redact_pii (en_nlp en) (Some tc) (cq_prompt req))) (Some (cq_prompt req)) (ap_pipeline s)) = Inr r
    \<and> fst (policy_decision (en_policy en) (pr_capability p) (ar_risk_level r) (pr_tenant p) (ap_policy s)) = (action, reason)
    \<and> action \<notin> {''BLOCK'', ''REVIEW''}
    \<and> ap_calls s' = ap_calls s @ cs
    \<and> (\<forall>(name, ms, model) \<in> set cs. name \<in> set (attempt_names cf req)
         \<and> ms = chat_messages req (rd_text (redact_pii (en_nlp en) (Some tc) (cq_prompt req))))"
proof -
  have "past (ap_calls s) (out, s')" using assms(2) by (simp add: past_def)
  from gateway_call_path [OF assms(1) this] obtain p tc s1 r s4 action reason details s6 where
    path: "open_boundary cf en rq s = (Inr (p, tc), s1)" "fst (quota_stage cf en p tc s1) = Inr ()"
    "fst (assess_risk (en_models en) (cf_risk cf) (cf_rules cf) (en_clock en) True
       (rd_text (redact_pii (en_nlp en) (Some tc) (cq_prompt req))) (Some (cq_prompt req)) (ap_pipeline s1)) = Inr r"
    "fst (policy_decision (en_policy en) (pr_capability p) (ar_risk_level r) (pr_tenant p) (ap_policy s1)) = (action, reason)"
    "action \<notin> {''BLOCK'', ''REVIEW''}" "ap_calls s6 = ap_calls s"
    "(out, s') = forward_chat cf en p tc (resolve_request_id cf (en_uuid en) rq) req
       (rd_text (redact_pii (en_nlp en) (Some tc) (cq_prompt req))) action details s6" by metis
  let ?q = "rd_text (redact_pii (en_nlp en) (Some tc) (cq_prompt req))"
  have same: "same_work s s1" using open_boundary_same [of s cf en rq] path(1) by simp
  obtain cs where cs: "ap_calls s' = ap_calls s @ cs"
    "\<forall>(n, m, md) \<in> set cs. n \<in> set (attempt_names cf req) \<and> m = chat_messages req ?q"
    using try_providers_calls [of cf en p "resolve_request_id cf (en_uuid en) rq" req "chat_messages req ?q" 0 None "attempt_names cf req" s6]
      after_call_frame [of cf en p tc "resolve_request_id cf (en_uuid en) rq" req ?q action details s6] path(6,7)
    by (metis snd_conv)
  show ?thesis
    using open_boundary_InrD [OF path(1)] quota_stage_ok [OF path(2)] path(3-5) cs same
    by (intro exI [of _ p] exI [of _ tc] exI [of _ r] exI [of _ action] exI [of _ reason] exI [of _ cs])
      (simp add: same_work_def)
qed

text \<open>
  C3. What the gateway hands back of a model's answer has been checked.  When a response carries
  content, it is the redaction, under the tenant's own settings, of a text in which no
  credential pattern matches and which shares no run of 40 characters with the system prompt;
  and the decision reported is the policy's action for the prompt, not BLOCK or REVIEW.
\<close>

theorem gateway_content_vetted:
  assumes "gateway_chat cf en rq req s = (Inr a, s')" "ct_content a = Some c"
  shows "\<exists>p tc r reason body.
    fst (resolve_principal (en_sha en) (en_keys en) (hr_authorization rq) None (ap_keys s)) = Inr p
    \<and> fst (resolve_tenant (en_tenants en) (pr_tenant p) (ap_tenants s)) = Inr tc
    \<and> c = rd_text (redact_pii (oe_nlp (en_output en)) (Some tc) body)
    \<and> (\<forall>(label, x) \<in> set (secret_patterns (length body)). \<not> rx_search x body)
    \<and> (\<forall>sp. cq_system_prompt req = Some sp \<longrightarrow> \<not> (\<exists>w. leak_min_run \<le> length w \<and> sublist w sp \<and> sublist w body))
    \<and> fst (assess_risk (en_models en) (cf_risk cf) (cf_rules cf) (en_clock en) True
         (rd_text (redact_pii (en_nlp en) (Some tc) (cq_prompt req))) (Some (cq_prompt req)) (ap_pipeline s)) = Inr r
    \<and> fst (policy_decision (en_policy en) (pr_capability p) (ar_risk_level r) (pr_tenant p) (ap_policy s)) = (ct_decision a, reason)
    \<and> ct_decision a \<notin> {''BLOCK'', ''REVIEW''}"
proof -
  have "past (ap_calls s) (Inr a, s')" using assms(2) by (simp add: past_def)
  from gateway_call_path [OF assms(1) this] obtain p tc s1 r action reason details s6 where
    path: "open_boundary cf en rq s = (Inr (p, tc), s1)"
    "fst (assess_risk (en_models en) (cf_risk cf) (cf_rules cf) (en_clock en) True
       (rd_text (redact_pii (en_nlp en) (Some tc) (cq_prompt req))) (Some (cq_prompt req)) (ap_pipeline s1)) = Inr r"
    "fst (policy_decision (en_policy en) (pr_capability p) (ar_risk_level r) (pr_tenant p) (ap_policy s1)) = (action, reason)"
    "action \<notin> {''BLOCK'', ''REVIEW''}"
    "(Inr a, s') = forward_chat cf en p tc (resolve_request_id cf (en_uuid en) rq) req
       (rd_text (redact_pii (en_nlp en) (Some tc) (cq_prompt req))) action details s6" by metis
  have same: "same_work s s1" using open_boundary_same [of s cf en rq] path(1) by simp
  obtain name resp s2 where f: "finish_chat cf en p tc (resolve_request_id cf (en_uuid en) rq) req action details name resp s2 = (Inr a, s')"
    using forward_chat_InrD [OF path(5) [symmetric]] by metis
  from finish_chat_InrD [OF this] assms(2) obtain body d det st o' where
    o: "assess_output (en_output en) (en_up en) (en_now en) (en_server en) (Some tc) (cq_system_prompt req) body st = ((d, det), o')"
    "ct_decision a = more_severe action d" "od_clean det = Some c"
    by (auto split: if_splits)
  have d: "d = ''ALLOW''" using assess_output_content [OF o(1,3)] .
  note facts = allowed_output_facts [OF o(1) [unfolded d]]
  show ?thesis
    using open_boundary_InrD [OF path(1)] path(2-4) o(2,3) d same facts
    by (intro exI [of _ p] exI [of _ tc] exI [of _ r] exI [of _ reason] exI [of _ body])
      (simp add: same_work_def more_severe_allow)
qed

text \<open>
  A provider is called only after the decision on the prompt has been put on the audit log:
  when the first write of the request succeeds, the log afterwards holds a record with the
  request's identifier, the hash of the redacted prompt and a decision that lets it through.
\<close>

theorem gateway_call_is_audited:
  assumes "gateway_chat cf en rq req s = (out, s')" "ap_calls s' \<noteq> ap_calls s"
    and "ae_log_ok (en_audit en) (au_writes (ap_audit s))"
  shows "\<exists>tc. \<exists>e \<in> set (au_log (ap_audit s')).
    entry_get e ''request_id'' = JStr (resolve_request_id cf (en_uuid en) rq)
    \<and> entry_get e ''prompt_hash'' = JStr (ae_sha (en_audit en) (rd_text (redact_pii (en_nlp en) (Some tc) (cq_prompt req))))
    \<and> (\<exists>d. entry_get e ''decision'' = JStr d \<and> d \<notin> {''BLOCK'', ''REVIEW''})"
proof -
  have "past (ap_calls s) (out, s')" using assms(2) by (simp add: past_def)
  then show ?thesis
  proof (rule gateway_call_path [OF assms(1)])
    fix p tc s1 r s4 action reason details s6
    assume path: "open_boundary cf en rq s = (Inr (p, tc), s1)" "action \<notin> {''BLOCK'', ''REVIEW''}" "ap_audit s4 = ap_audit s1"
    "audit_step cf (log_event (cf_audit cf) (en_audit en) (pr_capability p)
       (rd_text (redact_pii (en_nlp en) (Some tc) (cq_prompt req))) (ar_risk_level r) action details) s4 = (Inr (), s6)"
    "meta_or details ''request_id'' (JStr ''unset'') = JStr (resolve_request_id cf (en_uuid en) rq)"
    "(out, s') = forward_chat cf en p tc (resolve_request_id cf (en_uuid en) rq) req
       (rd_text (redact_pii (en_nlp en) (Some tc) (cq_prompt req))) action details s6"
    have "ap_audit s1 = ap_audit s" using open_boundary_same [of s cf en rq] path(1) by (simp add: same_work_def)
    then have "ae_log_ok (en_audit en) (au_writes (ap_audit s4))" using path(3) assms(3) by simp
    from audit_step_log(2) [OF path(4) this] obtain e where
      e: "au_log (ap_audit s6) = au_log (ap_audit s4) @ [e]" "entry_get e ''decision'' = JStr action"
      "entry_get e ''prompt_hash'' = JStr (ae_sha (en_audit en) (rd_text (redact_pii (en_nlp en) (Some tc) (cq_prompt req))))"
      "entry_get e ''request_id'' = meta_or details ''request_id'' (JStr ''unset'')" by blast
    have "log_grows s6 s'" using forward_chat_grows path(6) by (metis snd_conv)
    then have "e \<in> set (au_log (ap_audit s'))" using e(1) by (auto simp: log_grows_def)
    then show ?thesis using e path(2,5) by auto
  qed
qed

text \<open>
  A malformed answer ends the request before the fallback and the accounting.  When the
  OpenAI-compatible provider answers 200 with \<open>"choices": null\<close>, the exception is not its
  \<open>LLMProviderError\<close>: the request fails although fallback providers are configured, and nothing
  is written to the audit log or to the quota about the call that was made.
\<close>

theorem malformed_answer_skips_fallback:
  assumes "primary_provider cf req = ''openai_compatible''"
    and "\<And>url hs pl. en_post en url hs pl = Reply 200 t (Some (JDict [(''choices'', JNull)]))"
    and "pv_openai_key (cf_providers cf) \<noteq> []" "model_or (cq_model req) (pv_openai_model (cf_providers cf)) \<noteq> []"
    and "\<not> en_call_timeout en 0"
  shows "\<exists>e. forward_chat cf en p tc rid req q action details s =
    (Inl (ServerError (TypeError e)), s\<lparr>ap_calls := ap_calls s @ [(''openai_compatible'', chat_messages req q, cq_model req)]\<rparr>)"
proof -
  have "openai_complete (cf_providers cf) (en_post en) (chat_messages req q) (cq_model req) = Inl (Escaped (TypeError ''object is not subscriptable''))"
    by (simp add: openai_reply [OF assms(2-4)] reads_reply openai_content_def subscript_def first_item_def bind_res_def)
  from first_call_escapes [where call = "openai_complete (cf_providers cf) (en_post en)", OF _ assms(5) this]
  show ?thesis by (simp add: get_provider_def assms(1))
qed

text \<open>
  An answer without text is billed and not accounted.  When the OpenAI-compatible provider
  answers 200 with a null content and a token usage, as it does for a refusal or a tool call, the
  request fails after the call, no gateway event is written and the tokens are not recorded.
\<close>

theorem null_content_unaccounted:
  assumes "primary_provider cf req = ''openai_compatible''"
    and "\<And>url hs pl. en_post en url hs pl = Reply 200 t (Some (JDict
      [(''choices'', JList [JDict [(''message'', JDict [(''content'', JNull)])]]), (''usage'', JDict [(''total_tokens'', JInt n)])]))"
    and "pv_openai_key (cf_providers cf) \<noteq> []" "model_or (cq_model req) (pv_openai_model (cf_providers cf)) \<noteq> []"
    and "\<not> en_call_timeout en 0" "\<not> en_output_timeout en"
  shows "\<exists>e. forward_chat cf en p tc rid req q action details s =
    (Inl (ServerError (TypeError e)), s\<lparr>ap_calls := ap_calls s @ [(''openai_compatible'', chat_messages req q, cq_model req)]\<rparr>)"
proof -
  obtain resp where "openai_complete (cf_providers cf) (en_post en) (chat_messages req q) (cq_model req) = Inr resp" "lr_content resp = JNull"
    by (simp add: openai_reply [OF assms(2-4)] reads_reply openai_content_def subscript_def first_item_def bind_res_def)
  from first_call_answers [where call = "openai_complete (cf_providers cf) (en_post en)", OF _ assms(5) this(1)] this(2)
  show ?thesis by (simp add: get_provider_def assms(1,6) finish_chat_def guard_output_def)
qed

text \<open>
  C10. A refused caller costs nothing.  A caller who is not authenticated where that is required, or
  whose tenant is suspended, gets 401 or 403 from each of the three assessing endpoints, and no
  rate token, quota, detection, review, provider call or audit record is spent on it.
\<close>

theorem refused_caller_costs_nothing:
  assumes "fst (resolve_principal (en_sha en) (en_keys en) (hr_authorization rq) None (ap_keys s)) = Inr p"
    and "fst (resolve_tenant (en_tenants en) (pr_tenant p) (ap_tenants s)) = Inr tc"
    and "auth_required (cf_auth_mode cf) \<and> \<not> pr_authenticated p \<or> suspended tc"
  shows "\<exists>st h s1. st \<in> {401, 403} \<and> assess_prompt cf en rq areq s = (Inl (Http st h), s1)
    \<and> assess_output_endpoint cf en rq oreq s = (Inl (Http st h), s1) \<and> gateway_chat cf en rq creq s = (Inl (Http st h), s1)
    \<and> same_work s s1 \<and> ap_limiter s1 = ap_limiter s \<and> ap_redis s1 = ap_redis s"
proof -
  have "\<exists>st h s1. st \<in> {401, 403} \<and> open_boundary cf en rq s = (Inl (Http st h), s1)
      \<and> ap_limiter s1 = ap_limiter s \<and> ap_redis s1 = ap_redis s"
    using assms
    by (auto simp: open_boundary_def authenticate_def reject_suspended_and_rate_limit_def find_tenant_def lift_error_def
        split: prod.split sum.split)
  then obtain st h s1 where b: "st \<in> {401, 403}" "open_boundary cf en rq s = (Inl (Http st h), s1)"
    "ap_limiter s1 = ap_limiter s" "ap_redis s1 = ap_redis s" by blast
  moreover have "same_work s s1" using open_boundary_same [of s cf en rq] b(2) by simp
  ultimately show ?thesis
    by (intro exI [of _ st] exI [of _ h] exI [of _ s1])
      (simp add: assess_prompt_def assess_output_endpoint_def gateway_chat_def Let_def)
qed

section \<open>Witnesses\<close>

definition example_chat :: chat_request where
  "example_chat = \<lparr>cq_prompt = ''Hi'', cq_system_prompt = None, cq_provider = None, cq_model = None\<rparr>"

definition ollama_answer :: reply where
  "ollama_answer = Reply 200 [] (Some (JDict [(''message'', JDict [(''content'', JStr ''call 555-123-4567'')])]))"

lemma example_gateway_path:
  "\<exists>details s6. gateway_chat example_config (example_env answer ok) example_request example_chat example_api
      = forward_chat example_config (example_env answer ok) example_principal default_tenant ''req-1'' example_chat ''Hi'' ''ALLOW'' details s6
    \<and> pl_ollama (ap_pipeline s6) = pl_ollama demo_pipeline \<and> ap_calls s6 = []"
proof -
  let ?en = "example_env answer ok" and ?s1 = "example_api\<lparr>ap_tenants := \<lparr>ts_tenants = [], ts_loaded = True\<rparr>\<rparr>"
  have rid: "resolve_request_id example_config (en_uuid ?en) example_request = ''req-1''" by code_simp
  obtain r p' where r: "assess_risk demo_models demo_settings demo_rules (demo_clock 0) True ''Hi'' (Some ''Hi'') demo_pipeline = (Inr r, p')"
    "ar_risk_level r = ''LOW''" "pl_ollama p' = pl_ollama demo_pipeline" using example_risk by blast
  obtain ps where ps: "policy_decision example_policy ''GENERAL'' ''LOW'' ''default'' new_policy_store
      = ((''ALLOW'', ''Policy applied for GENERAL (Risk: LOW, Tenant: default)''), ps)"
    using example_decision by (metis prod.collapse)
  have q: "quota_stage example_config ?en example_principal default_tenant ?s1 = (Inr (), ?s1)"
    by (simp add: quota_stage_def example_config_def)
  let ?s2 = "?s1\<lparr>ap_pipeline := p'\<rparr>" let ?s3 = "?s2\<lparr>ap_policy := ps\<rparr>"
  have i: "input_stage example_config ?en ''Hi'' default_tenant ?s1
      = (Inr (\<lparr>rd_text = ''Hi'', rd_found = False, rd_source = ''CLEAN'', rd_items = []\<rparr>, r), ?s2)"
    using r example_redaction by (simp add: input_stage_def example_env_def example_config_def example_api_def)
  have pol: "policy_stage ?en example_principal ''LOW'' ?s2
      = (Inr (''ALLOW'', ''Policy applied for GENERAL (Risk: LOW, Tenant: default)''), ?s3)"
    using ps by (simp add: policy_stage_def example_env_def example_principal_def anonymous_def example_api_def)
  have a: "\<exists>t. audit_step example_config (log_event (cf_audit example_config) (en_audit ?en) cap x risk dec det) ?s3
      = (Inr (), ?s3\<lparr>ap_audit := t\<rparr>)" for cap x risk dec det
    using audit_step_ok [of "log_event (cf_audit example_config) (en_audit ?en) cap x risk dec det" ?s3 example_config]
    by (auto simp: log_event_def audit_write_jsonl_only example_config_def)
  define details where "details = identity_details example_principal
    ''Policy applied for GENERAL (Risk: LOW, Tenant: default)'' ''req-1'' (details_json (en_repr ?en) r)"
  obtain t where t: "audit_step example_config (log_event (cf_audit example_config) (en_audit ?en)
      (pr_capability example_principal) ''Hi'' ''LOW'' ''ALLOW'' details) ?s3 = (Inr (), ?s3\<lparr>ap_audit := t\<rparr>)" using a by blast
  have "gateway_chat example_config ?en example_request example_chat example_api
      = forward_chat example_config ?en example_principal default_tenant ''req-1'' example_chat ''Hi'' ''ALLOW'' details (?s3\<lparr>ap_audit := t\<rparr>)"
    unfolding gateway_chat_def
    by (simp add: example_boundary q i pol r(2) rid review_stage_def example_chat_def t [unfolded details_def] details_def Let_def)
  moreover have "ap_calls (?s3\<lparr>ap_audit := t\<rparr>) = []" by (simp add: example_api_def)
  ultimately show ?thesis using r(3) by (intro exI [of _ details] exI [of _ "?s3\<lparr>ap_audit := t\<rparr>"]) simp
qed

lemma example_finish:
  assumes "pl_ollama (ap_pipeline s) = pl_ollama demo_pipeline"
  shows "\<exists>a s'. finish_chat example_config (example_env answer ok) example_principal default_tenant ''req-1'' example_chat ''ALLOW'' details name
      \<lparr>lr_content = JStr ''call 555-123-4567'', lr_model = m, lr_provider = n, lr_usage = JNull\<rparr> s = (Inr a, s')
    \<and> ct_content a = Some ''call [REDACTED:PHONE]''"
proof -
  let ?en = "example_env answer ok"
  obtain d where d: "assess_output demo_output_env True 0 0 (Some default_tenant) None ''call 555-123-4567'' (pl_ollama demo_pipeline)
      = ((''ALLOW'', d), pl_ollama demo_pipeline)" "od_clean d = Some ''call [REDACTED:PHONE]''"
    using example_output [of True 0 0] by (auto simp: demo_pipeline_def)
  define s2 where "s2 = s\<lparr>ap_pipeline := (ap_pipeline s)\<lparr>pl_ollama := pl_ollama demo_pipeline\<rparr>\<rparr>"
  have "guard_output ?en default_tenant (cq_system_prompt example_chat) (JStr ''call 555-123-4567'') s
      = (Inr (''call 555-123-4567'', ''ALLOW'', d), s2)"
    using d assms by (simp add: guard_output_def output_stage_def example_env_def example_chat_def s2_def)
  moreover have "\<exists>s3. log_output example_config ?en example_principal ''req-1'' ''call 555-123-4567'' ''ALLOW'' d s2 = (Inr (), s3)"
    unfolding log_output_def by (subst audit_step_ok) (simp_all add: log_output_event_def audit_write_jsonl_only example_config_def)
  then obtain s3 where "log_output example_config ?en example_principal ''req-1'' ''call 555-123-4567'' ''ALLOW'' d s2 = (Inr (), s3)"
    by blast
  moreover have "\<exists>s4. log_answered_call example_config ?en example_principal ''req-1'' name
      \<lparr>lr_content = JStr ''call 555-123-4567'', lr_model = m, lr_provider = n, lr_usage = JNull\<rparr> ''ALLOW'' s3 = (Inr (), s4)"
  proof -
    have "fst (audit_write (cf_audit example_config) e ty x u) = Inr ()" for e ty x u
      by (rule audit_write_jsonl_only) (simp add: example_config_def)
    then show ?thesis
      by (auto simp: log_answered_call_def log_gateway_event_def lift_error_def split: prod.split sum.split)
        (metis fst_conv sum.distinct(1))
  qed
  then obtain s4 where "log_answered_call example_config ?en example_principal ''req-1'' name
      \<lparr>lr_content = JStr ''call 555-123-4567'', lr_model = m, lr_provider = n, lr_usage = JNull\<rparr> ''ALLOW'' s3 = (Inr (), s4)" by blast
  moreover have "record_tokens ?en example_principal JNull s4 = (Inr (), s4)"
    by (simp add: record_tokens_def extract_total_tokens_def)
  ultimately show ?thesis
    using d(2) by (simp add: finish_chat_def chat_answer_def more_severe_def severity_def)
qed

lemma example_gateway:
  "\<exists>a s'. gateway_chat example_config (example_env ollama_answer ok) example_request example_chat example_api = (Inr a, s')
     \<and> ct_content a = Some ''call [REDACTED:PHONE]'' \<and> ap_calls s' \<noteq> ap_calls example_api"
proof -
  let ?en = "example_env ollama_answer ok"
  obtain details s6 where g: "gateway_chat example_config ?en example_request example_chat example_api
      = forward_chat example_config ?en example_principal default_tenant ''req-1'' example_chat ''Hi'' ''ALLOW'' details s6"
    "pl_ollama (ap_pipeline s6) = pl_ollama demo_pipeline" "ap_calls s6 = []"
    using example_gateway_path [of ollama_answer ok] by blast
  have prim: "primary_provider example_config example_chat = ''ollama''"
    by (simp add: primary_provider_def example_chat_def example_config_def model_or_def)
  have time: "\<not> en_call_timeout ?en 0" by (simp add: example_env_def)
  have call: "\<exists>m. ollama_complete (cf_providers example_config) (en_post ?en) ms md
      = Inr \<lparr>lr_content = JStr ''call 555-123-4567'', lr_model = m, lr_provider = ''ollama'', lr_usage = JNull\<rparr>" for ms md
    by (simp add: ollama_complete_def example_env_def ollama_answer_def reads_reply ollama_content_def subscript_def bind_res_def Let_def)
  then obtain m where m: "ollama_complete (cf_providers example_config) (en_post ?en) (chat_messages example_chat ''Hi'') (cq_model example_chat)
      = Inr \<lparr>lr_content = JStr ''call 555-123-4567'', lr_model = m, lr_provider = ''ollama'', lr_usage = JNull\<rparr>" by blast
  let ?s7 = "s6\<lparr>ap_calls := ap_calls s6 @ [(''ollama'', chat_messages example_chat ''Hi'', cq_model example_chat)]\<rparr>"
  have fwd: "forward_chat example_config ?en example_principal default_tenant ''req-1'' example_chat ''Hi'' ''ALLOW'' details s6
      = finish_chat example_config ?en example_principal default_tenant ''req-1'' example_chat ''ALLOW'' details ''ollama''
          \<lparr>lr_content = JStr ''call 555-123-4567'', lr_model = m, lr_provider = ''ollama'', lr_usage = JNull\<rparr> ?s7"
    using first_call_answers [where cf = example_config and req = example_chat and en = ?en
        and call = "ollama_complete (cf_providers example_config) (en_post ?en)", OF _ _ m] prim time
    by (simp add: get_provider_def)
  obtain a s' where f: "finish_chat example_config ?en example_principal default_tenant ''req-1'' example_chat ''ALLOW'' details ''ollama''
      \<lparr>lr_content = JStr ''call 555-123-4567'', lr_model = m, lr_provider = ''ollama'', lr_usage = JNull\<rparr> ?s7 = (Inr a, s')"
      "ct_content a = Some ''call [REDACTED:PHONE]''"
    using example_finish [of ?s7 ollama_answer ok details "''ollama''" m "''ollama''"] g(2) by auto
  have "ap_calls s' = ap_calls ?s7"
  proof -
    have "ap_calls (snd (finish_chat example_config ?en example_principal default_tenant ''req-1'' example_chat ''ALLOW'' details ''ollama''
      \<lparr>lr_content = JStr ''call 555-123-4567'', lr_model = m, lr_provider = ''ollama'', lr_usage = JNull\<rparr> ?s7)) = ap_calls ?s7"
      unfolding finish_chat_def by (simp add: and_then_keep [where g = ap_calls] Let_def split: prod.split)
    then show ?thesis by (simp add: f)
  qed
  then show ?thesis using g f fwd by (simp add: example_api_def)
qed

theorem gateway_calls_only_allowed_witness:
  "\<exists>out s' p. gateway_chat example_config (example_env ollama_answer True) example_request example_chat example_api = (out, s')
     \<and> fst (resolve_principal id Missing None None new_key_store) = Inr p
     \<and> (\<exists>cs. ap_calls s' = cs \<and> (\<forall>(name, ms, model) \<in> set cs. ms = [(''user'', ''Hi'')]))"
proof -
  obtain a s' where g: "gateway_chat example_config (example_env ollama_answer True) example_request example_chat example_api = (Inr a, s')"
    "ap_calls s' \<noteq> ap_calls example_api" using example_gateway [of True] by blast
  have k: "fst (resolve_principal id Missing None None new_key_store) = Inr example_principal"
    by (simp add: resolve_principal_def extract_bearer_def example_principal_def)
  have t: "fst (resolve_tenant Missing ''default'' new_tenant_store) = Inr default_tenant"
    by (simp add: resolve_tenant_def ts_get_def ts_load_def new_tenant_store_def)
  show ?thesis
    using gateway_calls_only_allowed [OF g] g k t example_redaction
    by (auto simp: example_env_def example_request_def example_api_def example_chat_def example_principal_def anonymous_def
        chat_messages_def)
qed

theorem gateway_content_vetted_witness:
  "\<exists>a s' c body. gateway_chat example_config (example_env ollama_answer False) example_request example_chat example_api = (Inr a, s')
     \<and> ct_content a = Some c \<and> c = ''call [REDACTED:PHONE]''
     \<and> (\<forall>(label, x) \<in> set (secret_patterns (length body)). \<not> rx_search x (body :: string)) \<and> ct_decision a \<noteq> ''BLOCK''"
proof -
  obtain a s' where g: "gateway_chat example_config (example_env ollama_answer False) example_request example_chat example_api = (Inr a, s')"
    "ct_content a = Some ''call [REDACTED:PHONE]''" using example_gateway [of False] by blast
  from gateway_content_vetted [OF g] show ?thesis using g by blast
qed

theorem gateway_call_is_audited_witness:
  "\<exists>out s' e. gateway_chat example_config (example_env ollama_answer True) example_request example_chat example_api = (out, s')
     \<and> e \<in> set (au_log (ap_audit s')) \<and> entry_get e ''request_id'' = JStr ''req-1''"
proof -
  obtain a s' where g: "gateway_chat example_config (example_env ollama_answer True) example_request example_chat example_api = (Inr a, s')"
    "ap_calls s' \<noteq> ap_calls example_api" using example_gateway [of True] by blast
  have rid: "resolve_request_id example_config (en_uuid (example_env ollama_answer True)) example_request = ''req-1''" by code_simp
  have "ae_log_ok (en_audit (example_env ollama_answer True)) (au_writes (ap_audit example_api))"
    by (simp add: example_env_def)
  from gateway_call_is_audited [OF g this] show ?thesis using g(1) rid by auto
qed

definition openai_chat :: chat_request where
  "openai_chat = \<lparr>cq_prompt = ''Hi'', cq_system_prompt = None, cq_provider = Some ''openai_compatible'', cq_model = None\<rparr>"

theorem malformed_answer_skips_fallback_witness:
  "\<exists>e. forward_chat (example_config\<lparr>cf_fallback := ''ollama''\<rparr>)
      (example_env (Reply 200 [] (Some (JDict [(''choices'', JNull)]))) True) example_principal default_tenant ''req-1'' openai_chat
      ''Hi'' ''ALLOW'' [] example_api
     = (Inl (ServerError (TypeError e)), example_api\<lparr>ap_calls := [(''openai_compatible'', [(''user'', ''Hi'')], None)]\<rparr>)"
  using malformed_answer_skips_fallback [where cf = "example_config\<lparr>cf_fallback := ''ollama''\<rparr>" and req = openai_chat
      and en = "example_env (Reply 200 [] (Some (JDict [(''choices'', JNull)]))) True" and t = "[]" and p = example_principal
      and tc = default_tenant and rid = "''req-1''" and q = "''Hi''" and action = "''ALLOW''" and details = "[]" and s = example_api]
  by (simp add: example_env_def example_config_def openai_chat_def primary_provider_def model_or_def chat_messages_def example_api_def)

theorem null_content_unaccounted_witness:
  "\<exists>e. forward_chat example_config
      (example_env (Reply 200 [] (Some (JDict [(''choices'', JList [JDict [(''message'', JDict [(''content'', JNull)])]]),
        (''usage'', JDict [(''total_tokens'', JInt 812)])]))) True) example_principal default_tenant ''req-1'' openai_chat
      ''Hi'' ''ALLOW'' [] example_api
     = (Inl (ServerError (TypeError e)), example_api\<lparr>ap_calls := [(''openai_compatible'', [(''user'', ''Hi'')], None)]\<rparr>)"
  using null_content_unaccounted [where cf = example_config and req = openai_chat
      and en = "example_env (Reply 200 [] (Some (JDict [(''choices'', JList [JDict [(''message'', JDict [(''content'', JNull)])]]),
        (''usage'', JDict [(''total_tokens'', JInt 812)])]))) True" and t = "[]" and n = 812 and p = example_principal
      and tc = default_tenant and rid = "''req-1''" and q = "''Hi''" and action = "''ALLOW''" and details = "[]" and s = example_api]
  by (simp add: example_env_def example_config_def openai_chat_def primary_provider_def model_or_def chat_messages_def example_api_def)

theorem refused_caller_costs_nothing_witness:
  "\<exists>st h s1. st \<in> {401, 403}
     \<and> gateway_chat (example_config\<lparr>cf_auth_mode := ''required''\<rparr>) (example_env ollama_answer True) example_request example_chat example_api
       = (Inl (Http st h), s1) \<and> ap_calls s1 = []"
proof -
  have "fst (resolve_principal (en_sha (example_env ollama_answer True)) (en_keys (example_env ollama_answer True))
      (hr_authorization example_request) None (ap_keys example_api)) = Inr example_principal"
    by (simp add: resolve_principal_def extract_bearer_def example_principal_def example_env_def example_request_def example_api_def)
  moreover have "fst (resolve_tenant (en_tenants (example_env ollama_answer True)) (pr_tenant example_principal) (ap_tenants example_api))
      = Inr default_tenant"
    by (simp add: resolve_tenant_def ts_get_def ts_load_def new_tenant_store_def example_env_def example_api_def example_principal_def anonymous_def)
  moreover have "auth_required (cf_auth_mode (example_config\<lparr>cf_auth_mode := ''required''\<rparr>)) \<and> \<not> pr_authenticated example_principal"
    by (simp add: auth_required_def example_principal_def anonymous_def)
  ultimately show ?thesis
    using refused_caller_costs_nothing [where cf = "example_config\<lparr>cf_auth_mode := ''required''\<rparr>" and en = "example_env ollama_answer True"
      and rq = example_request and s = example_api and p = example_principal and tc = default_tenant and areq = prompt_only
      and oreq = "\<lparr>oq_response = [], oq_system_prompt = None\<rparr>" and creq = example_chat]
    by (auto simp: same_work_def example_api_def)
qed

end
