(* ===== verification/Http_Tool.thy ===== *)
theory Http_Tool
  imports Tools "HOL-Library.Word"
begin

unbundle bit_operations_syntax

text \<open>
  The \<open>http.get\<close> tool of \<open>core/real_tools.py\<close>: scheme, allowlist and address checks, the fetch and
  its size cap.

  The network and the library are a parameter: URL splitting, address parsing, the answer of the \<open>k\<close>-th
  name lookup, whether an address accepts a connection, and what is read from it.  \<open>requests.get\<close>
  looks the name up itself, so one call makes two lookups, and dials the addresses in order until one
  accepts.  The world counts lookups and records the addresses dialled.  There is no proxy.
\<close>

section \<open>Addresses\<close>

text \<open>An IPv4 address is its 32 bits; an IPv6 address the library's answers to the six questions.\<close>

record v6_flags =
  v6_private :: bool
  v6_loopback :: bool
  v6_link_local :: bool
  v6_multicast :: bool
  v6_reserved :: bool
  v6_unspecified :: bool

datatype ip_address = IPv4 "32 word" | IPv6 v6_flags

definition v4 :: "nat \<Rightarrow> nat \<Rightarrow> nat \<Rightarrow> nat \<Rightarrow> 32 word" where
  "v4 a b c d = word_of_nat (((a * 256 + b) * 256 + c) * 256 + d)"

definition in_net :: "32 word \<Rightarrow> nat \<Rightarrow> 32 word \<Rightarrow> bool" where
  "in_net base n x = (drop_bit (32 - n) x = drop_bit (32 - n) base)"

definition v4_private_networks :: "(32 word \<times> nat) list" where
  "v4_private_networks =
     [(v4 0 0 0 0, 8), (v4 10 0 0 0, 8), (v4 127 0 0 0, 8), (v4 169 254 0 0, 16), (v4 172 16 0 0, 12),
      (v4 192 0 0 0, 29), (v4 192 0 0 170, 31), (v4 192 0 2 0, 24), (v4 192 168 0 0, 16), (v4 198 18 0 0, 15),
      (v4 198 51 100 0, 24), (v4 203 0 113 0, 24), (v4 240 0 0 0, 4), (v4 255 255 255 255, 32)]"

definition v4_private :: "32 word \<Rightarrow> bool" where
  "v4_private x = list_ex (\<lambda>(b, n). in_net b n x) v4_private_networks"

definition address_public :: "ip_address \<Rightarrow> bool" where
  "address_public ip =
     (case ip of
        IPv4 x \<Rightarrow> \<not> (v4_private x \<or> in_net (v4 127 0 0 0) 8 x \<or> in_net (v4 169 254 0 0) 16 x
                     \<or> in_net (v4 224 0 0 0) 4 x \<or> in_net (v4 240 0 0 0) 4 x \<or> x = 0)
      | IPv6 f \<Rightarrow> \<not> (v6_private f \<or> v6_loopback f \<or> v6_link_local f \<or> v6_multicast f \<or> v6_reserved f
                     \<or> v6_unspecified f))"

section \<open>The tool\<close>

text \<open>A name lookup: addresses, \<open>gaierror\<close>, or another exception (a label the codec refuses).\<close>

datatype lookup = Addresses "string list" | Unresolved | LookupRaises string

text \<open>
  A response has its status, the chunks of its body with the exception that ends them early, if any,
  and its content type; \<open>nt_fetch\<close> raises before it when the exchange fails (timeout, TLS, a
  malformed reply).  \<open>nt_decode\<close> is \<open>decode("utf-8", errors="replace")\<close>.
\<close>

record response =
  rp_status :: int
  rp_chunks :: "string list"
  rp_broken :: "string option"
  rp_content_type :: "string option"

record network =
  nt_urlsplit :: "string \<Rightarrow> string + (string \<times> string option)"
  nt_parse_ip :: "string \<Rightarrow> ip_address option"
  nt_resolve :: "nat \<Rightarrow> string \<Rightarrow> lookup"
  nt_connect :: "string \<Rightarrow> string \<Rightarrow> string option"
  nt_fetch :: "string \<Rightarrow> string \<Rightarrow> string + response"
  nt_decode :: "string \<Rightarrow> string"

record net_world =
  wd_lookups :: nat
  wd_dialled :: "string list"

definition allowed_domains :: "string \<Rightarrow> string list" where
  "allowed_domains setting = map (\<lambda>d. str_lower (str_strip d)) (filter (\<lambda>d. str_strip d \<noteq> []) (split_on (CHR '','') setting))"

text \<open>\<open>_resolved_addresses_are_all_public\<close> on the answer of the lookup; no address at all passes, as in the code's loop.\<close>

definition all_public :: "network \<Rightarrow> lookup \<Rightarrow> (string, bool) res" where
  "all_public nt infos =
     (case infos of
        LookupRaises e \<Rightarrow> Inl e
      | Unresolved \<Rightarrow> Inr False
      | Addresses addrs \<Rightarrow> Inr (list_all (\<lambda>a. case nt_parse_ip nt a of None \<Rightarrow> False | Some ip \<Rightarrow> address_public ip) addrs))"

definition max_response_bytes :: nat where
  "max_response_bytes = 1000000"

text \<open>The chunks kept, and whether the cap cut the body; reading on may raise.\<close>

fun read_body :: "nat \<Rightarrow> string list \<Rightarrow> string option \<Rightarrow> (string, string \<times> bool) res" where
  "read_body n0 [] broken = (case broken of None \<Rightarrow> Inr ([], False) | Some e \<Rightarrow> Inl e)"
| "read_body n0 (c # cs) broken =
     (if n0 + length c > max_response_bytes then Inr ([], True)
      else bind_res (read_body (n0 + length c) cs broken) (\<lambda>(b, t). Inr (c @ b, t)))"

text \<open>The first address that accepts, or the last failure; and the addresses dialled.\<close>

fun dial :: "network \<Rightarrow> string \<Rightarrow> string \<Rightarrow> string list \<Rightarrow> (string, string) res \<times> string list" where
  "dial nt url err [] = (Inl err, [])"
| "dial nt url err (a # as) =
     (case nt_connect nt a url of
        None \<Rightarrow> (Inr a, [a])
      | Some e \<Rightarrow> (let (r, ds) = dial nt url e as in (r, a # ds)))"

text \<open>\<open>requests.get\<close> of the URL, whose host name it looks up.\<close>

definition requests_get :: "network \<Rightarrow> string \<Rightarrow> string \<Rightarrow> net_world \<Rightarrow> (string, response) res \<times> net_world" where
  "requests_get nt url hostname w =
     (let w' = w\<lparr>wd_lookups := Suc (wd_lookups w)\<rparr> in
      case nt_resolve nt (wd_lookups w) hostname of
        LookupRaises e \<Rightarrow> (Inl e, w')
      | Unresolved \<Rightarrow> (Inl ''ConnectionError: name resolution'', w')
      | Addresses as \<Rightarrow>
          (let (r, ds) = dial nt url ''ConnectionError: no address'' as in
           (bind_res r (\<lambda>a. nt_fetch nt a url), w'\<lparr>wd_dialled := wd_dialled w' @ ds\<rparr>)))"

definition answer_of :: "network \<Rightarrow> string \<Rightarrow> response \<Rightarrow> (string, json) res" where
  "answer_of nt url rp =
     bind_res (read_body 0 (rp_chunks rp) (rp_broken rp)) (\<lambda>(body, truncated).
       Inr (JDict [(''status_code'', JInt (rp_status rp)), (''url'', JStr url), (''content'', JStr (nt_decode nt body)),
         (''truncated'', JBool truncated), (''content_type'', case rp_content_type rp of None \<Rightarrow> JNull | Some c \<Rightarrow> JStr c)]))"

definition disallowed :: "string \<Rightarrow> string" where
  "disallowed m = ''DisallowedURLError: '' @ m"

definition http_get :: "network \<Rightarrow> string \<Rightarrow> net_world handler" where
  "http_get nt setting args w =
     with_arg ''url'' args (\<lambda>u.
       (case u of
          JStr url \<Rightarrow>
            (case nt_urlsplit nt url of
               Inl e \<Rightarrow> (Inl e, w)
             | Inr (scheme, host) \<Rightarrow>
               let hostname = str_lower (case host of None \<Rightarrow> [] | Some h \<Rightarrow> h) in
               if scheme \<noteq> ''http'' \<and> scheme \<noteq> ''https'' then
                 (Inl (disallowed (''scheme '' @ repr_str scheme @ '' is not allowed; only http/https'')), w)
               else if hostname = [] then (Inl (disallowed ''URL has no hostname''), w)
               else if allowed_domains setting = [] then
                 (Inl (disallowed (''TOOL_HTTP_GET_ALLOWED_DOMAINS is empty -- this tool is fully disabled ''
                    @ ''until an operator explicitly allowlists at least one hostname'')), w)
               else if hostname \<notin> set (allowed_domains setting) then
                 (Inl (disallowed (''hostname '' @ repr_str hostname @ '' is not in the configured allowlist'')), w)
               else
                 let w1 = w\<lparr>wd_lookups := Suc (wd_lookups w)\<rparr> in
                 (case all_public nt (nt_resolve nt (wd_lookups w) hostname) of
                    Inl e \<Rightarrow> (Inl e, w1)
                  | Inr False \<Rightarrow>
                      (Inl (disallowed (''hostname '' @ repr_str hostname @ '' resolved to a private/loopback/reserved address ''
                         @ ''-- refusing to fetch (possible DNS rebinding)'')), w1)
                  | Inr True \<Rightarrow> (let (r, w2) = requests_get nt url hostname w1 in (bind_res r (answer_of nt url), w2))))
        | _ \<Rightarrow> (Inl ''TypeError: url'', w))) w"

definition http_get_spec :: tool_spec where
  "http_get_spec =
     \<lparr>sp_name = ''http.get'', sp_description = ''Fetches a URL via HTTP GET, restricted to a domain allowlist'',
      sp_parameters = object_schema [(''url'', JDict [(''type'', JStr ''string''), (''maxLength'', JInt 2048)])] [''url''],
      sp_risk_level = ''MEDIUM'', sp_capability = ''ELEVATED''\<rparr>"

definition register_real_tools :: "network \<Rightarrow> string \<Rightarrow> net_world registry \<Rightarrow> (py_error, net_world registry) res" where
  "register_real_tools nt setting r = register_all [(http_get_spec, http_get nt setting)] r"

section \<open>Lemmas\<close>

lemma read_body_bound:
  "read_body n0 cs broken = Inr (b, t) \<Longrightarrow> n0 \<le> max_response_bytes \<Longrightarrow> n0 + length b \<le> max_response_bytes"
  by (induction n0 cs broken arbitrary: b rule: read_body.induct)
    (fastforce simp: bind_res_Inr_iff split: option.splits if_splits)+

lemma dial_addresses: "dial nt url err as = (r, ds) \<Longrightarrow> set ds \<subseteq> set as"
  by (induction nt url err as arbitrary: r ds rule: dial.induct) (fastforce split: option.splits prod.splits)+

lemma requests_get_dials:
  assumes "requests_get nt url hostname w = (r, w')" "wd_dialled w' \<noteq> wd_dialled w"
  shows "\<exists>as ds. nt_resolve nt (wd_lookups w) hostname = Addresses as \<and> wd_dialled w' = wd_dialled w @ ds \<and> set ds \<subseteq> set as"
  using assms by (auto simp: requests_get_def Let_def split: lookup.splits prod.splits dest!: dial_addresses)

lemma answer_bounded:
  "answer_of nt url rp = Inr j \<Longrightarrow> \<exists>b. jget j ''content'' = Some (JStr (nt_decode nt b)) \<and> length b \<le> max_response_bytes"
  using read_body_bound [of 0 "rp_chunks rp" "rp_broken rp"] by (auto simp: answer_of_def bind_res_Inr_iff jget_def)

lemma http_get_connects:
  assumes "http_get nt setting [(''url'', JStr url)] w = (out, w')" "wd_dialled w' \<noteq> wd_dialled w"
  shows "\<exists>scheme h as ds. nt_urlsplit nt url = Inr (scheme, Some h) \<and> scheme \<in> {''http'', ''https''}
    \<and> str_lower h \<in> set (allowed_domains setting) \<and> all_public nt (nt_resolve nt (wd_lookups w) (str_lower h)) = Inr True
    \<and> nt_resolve nt (Suc (wd_lookups w)) (str_lower h) = Addresses as
    \<and> wd_dialled w' = wd_dialled w @ ds \<and> set ds \<subseteq> set as
    \<and> (\<forall>j. out = Inr j \<longrightarrow> (\<exists>b. jget j ''content'' = Some (JStr (nt_decode nt b)) \<and> length b \<le> max_response_bytes))"
proof -
  obtain scheme host where u: "nt_urlsplit nt url = Inr (scheme, host)"
    using assms by (cases "nt_urlsplit nt url") (auto simp: http_get_def with_arg_def)
  define hn where "hn = str_lower (case host of None \<Rightarrow> [] | Some h \<Rightarrow> h)"
  have c: "scheme \<in> {''http'', ''https''}" "hn \<noteq> []" "hn \<in> set (allowed_domains setting)"
      "all_public nt (nt_resolve nt (wd_lookups w) hn) = Inr True"
    using assms by (auto simp: http_get_def with_arg_def u hn_def [symmetric] Let_def split: if_splits sum.splits bool.splits)
  obtain h where h: "host = Some h" "hn = str_lower h" using c(2) by (cases host) (auto simp: hn_def str_lower_def)
  have "allowed_domains setting \<noteq> []" using c(3) by auto
  let ?w1 = "w\<lparr>wd_lookups := Suc (wd_lookups w)\<rparr>"
  obtain r where g: "requests_get nt url hn ?w1 = (r, w')" "out = bind_res r (answer_of nt url)"
    using assms(1) c \<open>allowed_domains setting \<noteq> []\<close>
    by (cases "requests_get nt url hn ?w1") (auto simp: http_get_def with_arg_def u hn_def [symmetric] Let_def)
  obtain as ds where "nt_resolve nt (Suc (wd_lookups w)) hn = Addresses as" "wd_dialled w' = wd_dialled w @ ds" "set ds \<subseteq> set as"
    using requests_get_dials [OF g(1)] assms(2) by auto
  moreover have "\<forall>j. out = Inr j \<longrightarrow> (\<exists>b. jget j ''content'' = Some (JStr (nt_decode nt b)) \<and> length b \<le> max_response_bytes)"
    using answer_bounded by (auto simp: g(2) bind_res_Inr_iff)
  ultimately show ?thesis using u h c by auto
qed

section \<open>Properties\<close>

text \<open>A network for the witnesses: the name moves to the loopback address after its first lookup.\<close>

definition example_network :: network where
  "example_network =
     \<lparr>nt_urlsplit = (\<lambda>u. Inr (if u = ''https://api.test/x'' then ''https'' else ''http'', Some ''API.test'')),
      nt_parse_ip = (\<lambda>a. if a = ''8.8.8.8'' then Some (IPv4 (v4 8 8 8 8)) else Some (IPv4 (v4 127 0 0 1))),
      nt_resolve = (\<lambda>k h. Addresses [if k = 0 then ''8.8.8.8'' else ''127.0.0.1'']),
      nt_connect = (\<lambda>a u. None),
      nt_fetch = (\<lambda>a u. Inr \<lparr>rp_status = 200, rp_chunks = [''hello '', ''world''], rp_broken = None, rp_content_type = Some ''text/plain''\<rparr>),
      nt_decode = id\<rparr>"

lemma example_public: "address_public (IPv4 (v4 8 8 8 8))"
  by (simp add: address_public_def v4_private_def v4_private_networks_def in_net_def v4_def)

lemma example_checked: "all_public example_network (nt_resolve example_network 0 h) = Inr True"
  by (simp add: all_public_def example_network_def example_public)

lemma example_domains: "allowed_domains ''api.test, b.test'' = [''api.test'', ''b.test'']"
  by code_simp

lemma example_host: "str_lower ''API.test'' = ''api.test''"
  by code_simp

lemma example_run:
  "\<exists>j. http_get example_network ''api.test, b.test'' [(''url'', JStr ''https://api.test/x'')] \<lparr>wd_lookups = 0, wd_dialled = []\<rparr>
     = (Inr j, \<lparr>wd_lookups = 2, wd_dialled = [''127.0.0.1'']\<rparr>)"
  using example_checked [of "''api.test''"]
  by (simp add: http_get_def with_arg_def example_domains example_host requests_get_def answer_of_def example_network_def Let_def max_response_bytes_def)



text \<open>
  The address check does not stop DNS rebinding: the name is looked up once for the check
  and again by the fetch, so for an allowlisted name whose first answer is public and whose second
  is any address at all, that second address is dialled.
\<close>

theorem http_get_rebinding:
  assumes "nt_urlsplit nt url = Inr (''http'', Some h)" "str_lower h \<noteq> []" "str_lower h \<in> set (allowed_domains setting)"
    and "all_public nt (nt_resolve nt (wd_lookups w) (str_lower h)) = Inr True"
    and "nt_resolve nt (Suc (wd_lookups w)) (str_lower h) = Addresses (a # rest)"
  shows "\<exists>ds. wd_dialled (snd (http_get nt setting [(''url'', JStr url)] w)) = wd_dialled w @ a # ds"
proof -
  have "allowed_domains setting \<noteq> []" using assms(3) by auto
  then show ?thesis
    using assms by (auto simp: http_get_def with_arg_def requests_get_def Let_def split: prod.split option.split)
qed

theorem http_get_rebinding_witness:
  "\<exists>ds. wd_dialled (snd (http_get example_network ''api.test, b.test'' [(''url'', JStr ''http://api.test'')] \<lparr>wd_lookups = 0, wd_dialled = []\<rparr>))
     = ''127.0.0.1'' # ds"
proof -
  have "nt_urlsplit example_network ''http://api.test'' = Inr (''http'', Some ''API.test'')" by (simp add: example_network_def)
  moreover have "str_lower ''API.test'' \<noteq> []" "str_lower ''API.test'' \<in> set (allowed_domains ''api.test, b.test'')" by (simp_all add: example_domains example_host)
  moreover have "all_public example_network (nt_resolve example_network (wd_lookups \<lparr>wd_lookups = 0, wd_dialled = []\<rparr>) (str_lower ''API.test'')) = Inr True"
    using example_checked by simp
  moreover have "nt_resolve example_network (Suc (wd_lookups \<lparr>wd_lookups = 0, wd_dialled = []\<rparr>)) (str_lower ''API.test'') = Addresses (''127.0.0.1'' # [])"
    by (simp add: example_network_def)
  ultimately show ?thesis using http_get_rebinding by fastforce
qed

text \<open>
  Shared address space passes for public: every address of 100.64.0.0/10, which is not
  globally routable, is accepted by the check.
\<close>

theorem shared_address_space_accepted:
  assumes "in_net (v4 100 64 0 0) 10 x"
  shows "address_public (IPv4 x)"
proof -
  have top: "drop_bit 22 x = (401 :: 32 word)" using assms by (simp add: in_net_def v4_def)
  have d: "drop_bit (22 + k) x = drop_bit k (401 :: 32 word)" for k
    by (simp add: top [symmetric] add.commute)
  have e: "drop_bit k x = b \<Longrightarrow> drop_bit (22 - k) b = (401 :: 32 word)" if "k \<le> 22" for k b
    using that by (auto simp: top [symmetric])
  have x0: "x \<noteq> 0" "x \<noteq> 4294967295" using top by auto
  show ?thesis
    using d [of 2] d [of 6] d [of 0] x0
    by (auto simp: address_public_def v4_private_def v4_private_networks_def in_net_def v4_def top dest!: e [rotated])
qed

theorem shared_address_space_accepted_witness: "address_public (IPv4 (v4 100 64 7 1))"
  by (rule shared_address_space_accepted) (simp add: in_net_def v4_def)

end
