(* ===== verification/Activity.thy ===== *)
theory Activity
  imports Json
begin

text \<open>
  The activity feed over the audit log, \<open>core/activity.py\<close>: the backward tail scan in
  bounded chunks, the two-pass feed, and the trace of one request.

  The log is its bytes (\<open>None\<close> when there is no file), constant during a call.  \<open>json_loads\<close>
  is \<open>json.loads\<close> on a line (\<open>None\<close> when it does not decode or parse).  The SQLite read
  path is its outcome: \<open>None\<close> when it is off, a path was given, or it raised.
\<close>

section \<open>Definitions from the code\<close>

definition chunk_size :: nat where
  "chunk_size = 65536"

definition max_bytes_scanned :: nat where
  "max_bytes_scanned = 20000000"

definition max_limit :: int where
  "max_limit = 200"

definition newline :: char where
  "newline = CHR 0x0A"

text \<open>\<open>raw.strip()\<close> is true: a byte that is not white space.\<close>

definition byte_space :: "char \<Rightarrow> bool" where
  "byte_space c = (c \<in> {CHR '' '', CHR 0x09, CHR 0x0A, CHR 0x0B, CHR 0x0C, CHR 0x0D})"

definition nonblank :: "string \<Rightarrow> bool" where
  "nonblank raw = list_ex (\<lambda>c. \<not> byte_space c) raw"

text \<open>\<open>needed\<close> is a number, or infinity (\<open>None\<close>).\<close>

definition reached :: "nat option \<Rightarrow> 'a list \<Rightarrow> bool" where
  "reached needed xs = (case needed of None \<Rightarrow> False | Some n \<Rightarrow> n \<le> length xs)"

fun take_lines :: "nat option \<Rightarrow> string list \<Rightarrow> string list \<Rightarrow> string list" where
  "take_lines needed ls [] = ls"
| "take_lines needed ls (raw # rs) =
     (if nonblank raw then
        if reached needed (ls @ [raw]) then ls @ [raw] else take_lines needed (ls @ [raw]) rs
      else take_lines needed ls rs)"

lemma scan_shrinks: "0 < pos \<Longrightarrow> scanned < m \<Longrightarrow> pos - min chunk_size (min pos (m - scanned)) < (pos :: nat)"
  by (simp add: chunk_size_def)

text \<open>The scan: lines so far, position, bytes scanned and the partial line held over.\<close>

function tail_loop ::
  "string \<Rightarrow> nat option \<Rightarrow> nat \<Rightarrow> nat \<Rightarrow> nat \<Rightarrow> string \<Rightarrow> string list \<Rightarrow> string list \<times> nat \<times> nat \<times> string" where
  "tail_loop data needed max_bytes pos scanned carry ls =
     (if pos > 0 \<and> \<not> reached needed ls \<and> scanned < max_bytes then
        let read_size = min chunk_size (min pos (max_bytes - scanned));
            pos' = pos - read_size;
            parts = split_on newline (take read_size (drop pos' data) @ carry)
        in if pos' > 0
           then tail_loop data needed max_bytes pos' (scanned + read_size) (hd parts)
                  (take_lines needed ls (rev (tl parts)))
           else tail_loop data needed max_bytes pos' (scanned + read_size) []
                  (take_lines needed ls (rev parts))
      else (ls, pos, scanned, carry))"
  by pat_completeness (elim Pair_inject, simp only:)
termination
  by (relation "measure (\<lambda>(data, needed, max_bytes, pos, scanned, carry, ls). pos)")
    (simp_all only: wf_measure in_measure prod.case scan_shrinks)

declare tail_loop.simps [simp del]

lemma tail_loop_stop:
  "\<not> (pos > 0 \<and> \<not> reached needed ls \<and> scanned < max_bytes) \<Longrightarrow>
   tail_loop data needed max_bytes pos scanned carry ls = (ls, pos, scanned, carry)"
  by (subst tail_loop.simps) (simp only: if_False)

lemma tail_loop_step:
  assumes "pos > 0 \<and> \<not> reached needed ls \<and> scanned < max_bytes"
    and "rs = min chunk_size (min pos (max_bytes - scanned))" "p = pos - rs"
    and "parts = split_on newline (take rs (drop p data) @ carry)"
  shows "tail_loop data needed max_bytes pos scanned carry ls =
    (if p > 0 then tail_loop data needed max_bytes p (scanned + rs) (hd parts) (take_lines needed ls (rev (tl parts)))
     else tail_loop data needed max_bytes p (scanned + rs) [] (take_lines needed ls (rev parts)))"
  using assms by (subst tail_loop.simps) (simp only: Let_def if_True simp_thms)

record tail_result =
  tr_lines :: "string list"
  tr_truncated :: bool
  tr_exhausted :: bool
  tr_pos :: nat
  tr_carry :: string

definition tail_raw_lines ::
  "string option \<Rightarrow> nat option \<Rightarrow> nat \<Rightarrow> nat option \<Rightarrow> string \<Rightarrow> tail_result" where
  "tail_raw_lines file needed max_bytes start_pos carry =
     (case file of
        None \<Rightarrow> \<lparr>tr_lines = [], tr_truncated = False, tr_exhausted = True, tr_pos = 0, tr_carry = []\<rparr>
      | Some data \<Rightarrow>
          if data = [] then \<lparr>tr_lines = [], tr_truncated = False, tr_exhausted = True, tr_pos = 0, tr_carry = []\<rparr>
          else let pos0 = (case start_pos of None \<Rightarrow> length data | Some p \<Rightarrow> p) in
            if pos0 = 0 then \<lparr>tr_lines = [], tr_truncated = False, tr_exhausted = True, tr_pos = 0, tr_carry = carry\<rparr>
            else let (ls, pos, scanned, carry') = tail_loop data needed max_bytes pos0 0 carry [] in
              \<lparr>tr_lines = ls,
               tr_truncated = (pos \<noteq> 0 \<and> \<not> reached needed ls \<and> scanned \<ge> max_bytes),
               tr_exhausted = (pos = 0), tr_pos = pos, tr_carry = carry'\<rparr>)"

text \<open>The defaults a record is given.\<close>

definition set_default :: "string \<Rightarrow> json \<Rightarrow> (string \<times> json) list \<Rightarrow> (string \<times> json) list" where
  "set_default k v d = (if map_of d k = None then od_set k v d else d)"

definition normalise_record :: "(string \<times> json) list \<Rightarrow> (string \<times> json) list" where
  "normalise_record d =
     (let et = (case map_of d ''event_type'' of Some v \<Rightarrow> if truthy v then v else JStr ''legacy'' | None \<Rightarrow> JStr ''legacy'')
      in set_default ''capability'' (JStr ''unset'') (set_default ''tenant'' (JStr ''unset'') (od_set ''event_type'' et d)))"

definition tenant_matches :: "string option \<Rightarrow> (string \<times> json) list \<Rightarrow> bool" where
  "tenant_matches tenant r = (case tenant of None \<Rightarrow> True | Some t \<Rightarrow> map_of r ''tenant'' = Some (JStr t))"

text \<open>
  The filters of the feed on one parsed line; a line that is not an object raises, and so does
  an event type that is a list or an object, which cannot be looked up in a set.
\<close>

definition keep_event :: "string option \<Rightarrow> string list option \<Rightarrow> json \<Rightarrow> (py_error, (string \<times> json) list option) res" where
  "keep_event tenant types j =
     (case j of
        JDict d \<Rightarrow>
          (let r = normalise_record d in
           if \<not> tenant_matches tenant r then Inr None
           else case types of
                  None \<Rightarrow> Inr (Some r)
                | Some ts \<Rightarrow>
                    (case map_of r ''event_type'' of
                       Some (JStr t) \<Rightarrow> Inr (if t \<in> set ts then Some r else None)
                     | Some (JList _) \<Rightarrow> Inl (TypeError ''unhashable type'')
                     | Some (JDict _) \<Rightarrow> Inl (TypeError ''unhashable type'')
                     | _ \<Rightarrow> Inr None))
      | _ \<Rightarrow> Inl (AttributeError ''get''))"

fun collect_events ::
  "(string \<Rightarrow> json option) \<Rightarrow> string option \<Rightarrow> string list option \<Rightarrow> nat option \<Rightarrow> string list
   \<Rightarrow> (string \<times> json) list list \<Rightarrow> (py_error, (string \<times> json) list list) res" where
  "collect_events json_loads tenant types stop [] acc = Inr acc"
| "collect_events json_loads tenant types stop (raw # rs) acc =
     (case json_loads raw of
        None \<Rightarrow> collect_events json_loads tenant types stop rs acc
      | Some j \<Rightarrow>
          (case keep_event tenant types j of
             Inl e \<Rightarrow> Inl e
           | Inr None \<Rightarrow> collect_events json_loads tenant types stop rs acc
           | Inr (Some r) \<Rightarrow>
               if reached stop (acc @ [r]) then Inr (acc @ [r])
               else collect_events json_loads tenant types stop rs (acc @ [r])))"

definition clamp_limit :: "int \<Rightarrow> nat" where
  "clamp_limit limit = nat (max 1 (min limit max_limit))"

definition get_recent_activity ::
  "(string \<Rightarrow> json option) \<Rightarrow> ((string \<times> json) list list \<times> bool) option \<Rightarrow> string option \<Rightarrow> int \<Rightarrow> string option
   \<Rightarrow> string list option \<Rightarrow> (py_error, (string \<times> json) list list \<times> bool) res" where
  "get_recent_activity json_loads sqlite file limit0 tenant event_types =
     (let limit = clamp_limit limit0 in
      case sqlite of
        Some r \<Rightarrow> Inr r
      | None \<Rightarrow>
          (let types = (case event_types of Some (t # ts) \<Rightarrow> Some (t # ts) | _ \<Rightarrow> None);
               p1 = tail_raw_lines file (Some limit) max_bytes_scanned None []
           in bind_res (collect_events json_loads tenant types None (tr_lines p1) []) (\<lambda>events.
              if length events < limit \<and> \<not> tr_truncated p1 \<and> \<not> tr_exhausted p1 \<and> tr_pos p1 > 0 then
                let p2 = tail_raw_lines file None max_bytes_scanned (Some (tr_pos p1)) (tr_carry p1) in
                bind_res (collect_events json_loads tenant types (Some limit) (tr_lines p2) events) (\<lambda>more.
                  Inr (take limit more, tr_truncated p2))
              else Inr (take limit events, tr_truncated p1))))"

text \<open>One line of a trace.\<close>

definition trace_line ::
  "(string \<Rightarrow> json option) \<Rightarrow> string \<Rightarrow> string option \<Rightarrow> string \<Rightarrow> (py_error, (string \<times> json) list list) res" where
  "trace_line json_loads request_id tenant raw =
     (case json_loads raw of
        None \<Rightarrow> Inr []
      | Some (JDict d) \<Rightarrow>
          (if map_of d ''request_id'' \<noteq> Some (JStr request_id) then Inr []
           else let r = normalise_record d in Inr (if tenant_matches tenant r then [r] else []))
      | Some _ \<Rightarrow> Inl (AttributeError ''get''))"

fun trace_lines ::
  "(string \<Rightarrow> json option) \<Rightarrow> string \<Rightarrow> string option \<Rightarrow> string list \<Rightarrow> (string \<times> json) list list
   \<Rightarrow> (py_error, (string \<times> json) list list) res" where
  "trace_lines json_loads request_id tenant [] acc = Inr acc"
| "trace_lines json_loads request_id tenant (raw # rs) acc =
     bind_res (trace_line json_loads request_id tenant raw) (\<lambda>m.
       trace_lines json_loads request_id tenant rs (acc @ m))"

definition find_by_request_id ::
  "(string \<Rightarrow> json option) \<Rightarrow> ((string \<times> json) list list \<times> bool) option \<Rightarrow> string option \<Rightarrow> string \<Rightarrow> string option
   \<Rightarrow> (py_error, (string \<times> json) list list \<times> bool) res" where
  "find_by_request_id json_loads sqlite file request_id tenant =
     (case sqlite of
        Some r \<Rightarrow> Inr r
      | None \<Rightarrow>
          (let t = tail_raw_lines file None max_bytes_scanned None [] in
           bind_res (trace_lines json_loads request_id tenant (tr_lines t) []) (\<lambda>m. Inr (rev m, tr_truncated t))))"

section \<open>Splitting a buffer that grows to the left\<close>

lemma split_on_ne [simp]: "split_on c s \<noteq> []"
  by (cases s) (auto split: list.split)

lemma split_on_clean: "c \<notin> set w \<Longrightarrow> split_on c w = [w]"
  by (induction w) auto

lemma split_hd_clean: "c \<notin> set (hd (split_on c s))"
  by (induction s) (auto split: list.split)

lemma split_on_append:
  "split_on c (a @ b) = butlast (split_on c a) @ (last (split_on c a) @ hd (split_on c b)) # tl (split_on c b)"
  by (induction a) (auto split: list.split)

lemma split_on_carry: "split_on c (a @ b) = split_on c (a @ hd (split_on c b)) @ tl (split_on c b)"
  by (simp add: split_on_append [of c a] split_on_clean [OF split_hd_clean])

text \<open>The non-blank lines of a text, oldest first.\<close>

definition log_lines :: "string \<Rightarrow> string list" where
  "log_lines s = filter nonblank (split_on newline s)"

lemma log_lines_Nil [simp]: "log_lines [] = []"
  by (simp add: log_lines_def nonblank_def)

definition take_needed :: "nat option \<Rightarrow> 'a list \<Rightarrow> 'a list" where
  "take_needed needed xs = (case needed of None \<Rightarrow> xs | Some n \<Rightarrow> take n xs)"

lemma take_lines_eq:
  "\<not> reached needed ls \<Longrightarrow> take_lines needed ls rs = take_needed needed (ls @ filter nonblank rs)"
proof (induction needed ls rs rule: take_lines.induct)
  case (2 needed ls raw rs)
  show ?case
  proof (cases "nonblank raw \<and> reached needed (ls @ [raw])")
    case True
    then obtain n where "needed = Some n" "n = Suc (length ls)"
      using 2(3) by (cases needed) (auto simp: reached_def)
    then show ?thesis using True by (simp add: take_needed_def)
  qed (use 2 in auto)
qed (auto simp: take_needed_def reached_def split: option.split)

lemma take_needed_id: "(\<forall>n. needed = Some n \<longrightarrow> length xs \<le> n) \<Longrightarrow> take_needed needed xs = xs"
  by (cases needed) (auto simp: take_needed_def)

lemma length_take_needed: "needed = Some n \<Longrightarrow> length (take_needed needed xs) \<le> n"
  by (simp add: take_needed_def)

lemma take_needed_append [simp]: "take_needed needed (take_needed needed xs @ ys) = take_needed needed (xs @ ys)"
  by (cases needed) (auto simp: take_needed_def min_def)

lemma take_needed_idem [simp]: "take_needed needed (take_needed needed xs) = take_needed needed xs"
  using take_needed_append [of needed xs "[]"] by simp

lemma log_lines_carry:
  "log_lines (a @ b) = log_lines (a @ hd (split_on newline b)) @ filter nonblank (tl (split_on newline b))"
  unfolding log_lines_def by (subst split_on_carry) simp

lemma log_lines_parts: "log_lines b = filter nonblank (hd (split_on newline b) # tl (split_on newline b))"
  by (simp add: log_lines_def)

section \<open>The scan is the file read backwards\<close>

text \<open>While the byte budget covers the file, the scan returns its newest non-blank lines.\<close>

lemma tail_loop_lines:
  assumes "scanned + pos \<le> max_bytes" "pos \<le> length data" "pos = 0 \<longrightarrow> carry = []"
    and "\<forall>n. needed = Some n \<longrightarrow> length ls \<le> n"
  shows "fst (tail_loop data needed max_bytes pos scanned carry ls)
    = take_needed needed (ls @ rev (log_lines (take pos data @ carry)))"
  using assms
proof (induction data needed max_bytes pos scanned carry ls rule: tail_loop.induct)
  case (1 data needed m pos scanned carry ls)
  show ?case
  proof (cases "pos > 0 \<and> \<not> reached needed ls \<and> scanned < m")
    case False
    then have stop: "tail_loop data needed m pos scanned carry ls = (ls, pos, scanned, carry)" by (rule tail_loop_stop)
    consider "pos = 0" | "0 < pos" "reached needed ls" using False 1(3) by linarith
    then show ?thesis
    proof cases
      case 1
      then show ?thesis unfolding stop using \<open>pos = 0 \<longrightarrow> carry = []\<close> \<open>\<forall>n. needed = Some n \<longrightarrow> length ls \<le> n\<close>
        by (simp add: take_needed_id)
    next
      case 2
      then obtain n where "needed = Some n" "n = length ls"
        using \<open>\<forall>n. needed = Some n \<longrightarrow> length ls \<le> n\<close> by (auto simp: reached_def split: option.splits)
      then show ?thesis unfolding stop by (simp add: take_needed_def)
    qed
  next
    case True
    define rs where "rs = min chunk_size (min pos (m - scanned))"
    define pos' where "pos' = pos - rs"
    define parts where "parts = split_on newline (take rs (drop pos' data) @ carry)"
    have pos: "pos = pos' + rs" "scanned + rs + pos' \<le> m" "pos' \<le> length data"
      using 1(3,4) by (simp_all add: pos'_def rs_def)
    have buf: "take pos data @ carry = take pos' data @ (take rs (drop pos' data) @ carry)"
      using pos(1) by (simp add: take_add)
    have lim: "\<forall>n. needed = Some n \<longrightarrow> length (take_lines needed ls xs) \<le> n" for xs
      using True by (auto simp: take_lines_eq length_take_needed)
    have ll: "log_lines (take pos data @ carry) = log_lines (take pos' data @ hd parts) @ filter nonblank (tl parts)"
      unfolding buf parts_def by (rule log_lines_carry)
    have lp: "pos' = 0 \<Longrightarrow> log_lines (take pos data @ carry) = filter nonblank parts"
      unfolding buf by (simp add: parts_def log_lines_def)
    show ?thesis
    proof (cases "pos' > 0")
      case more: True
      have "tail_loop data needed m pos scanned carry ls
          = tail_loop data needed m pos' (scanned + rs) (hd parts) (take_lines needed ls (rev (tl parts)))"
        using tail_loop_step [OF True rs_def pos'_def parts_def] more by simp
      moreover have "fst (tail_loop data needed m pos' (scanned + rs) (hd parts) (take_lines needed ls (rev (tl parts))))
          = take_needed needed (take_lines needed ls (rev (tl parts)) @ rev (log_lines (take pos' data @ hd parts)))"
        by (rule "1.IH"(1) [OF True rs_def pos'_def parts_def more])
          (use pos lim more in simp_all)
      ultimately show ?thesis
        using True unfolding ll by (simp add: take_lines_eq rev_filter)
    next
      case fin: False
      have "tail_loop data needed m pos scanned carry ls
          = tail_loop data needed m pos' (scanned + rs) [] (take_lines needed ls (rev parts))"
        using tail_loop_step [OF True rs_def pos'_def parts_def] fin by simp
      moreover have "fst (tail_loop data needed m pos' (scanned + rs) [] (take_lines needed ls (rev parts)))
          = take_needed needed (take_lines needed ls (rev parts) @ rev (log_lines (take pos' data @ [])))"
        by (rule "1.IH"(2) [OF True rs_def pos'_def parts_def fin])
          (use pos lim fin in simp_all)
      ultimately show ?thesis
        using True fin by (simp add: take_lines_eq lp rev_filter)
    qed
  qed
qed

lemma tail_loop_pos:
  assumes "scanned + pos \<le> max_bytes" "tail_loop data needed max_bytes pos scanned carry ls = (ls', pos', scanned', carry')"
  shows "pos' = 0 \<or> reached needed ls'"
  using assms
proof (induction data needed max_bytes pos scanned carry ls rule: tail_loop.induct)
  case (1 data needed m pos scanned carry ls)
  show ?case
  proof (cases "pos > 0 \<and> \<not> reached needed ls \<and> scanned < m")
    case False
    then show ?thesis using 1(3,4) by (auto simp: tail_loop.simps [of data])
  next
    case True
    define rs where "rs = min chunk_size (min pos (m - scanned))"
    define p where "p = pos - rs"
    define parts where "parts = split_on newline (take rs (drop p data) @ carry)"
    have b: "scanned + rs + p \<le> m" using 1(3) by (simp add: p_def rs_def)
    note eq = tail_loop_step [OF True rs_def p_def parts_def]
    show ?thesis
      using "1.IH" [OF True rs_def p_def parts_def] b 1(4) eq by (cases "p > 0") auto
  qed
qed

lemma tail_loop_bytes:
  assumes "tail_loop data needed max_bytes pos scanned carry ls = (ls', pos', scanned', carry')" "scanned \<le> max_bytes"
  shows "scanned' \<le> max_bytes \<and> scanned' + pos' = scanned + pos"
  using assms
proof (induction data needed max_bytes pos scanned carry ls rule: tail_loop.induct)
  case (1 data needed m pos scanned carry ls)
  show ?case
  proof (cases "pos > 0 \<and> \<not> reached needed ls \<and> scanned < m")
    case False
    then have "tail_loop data needed m pos scanned carry ls = (ls, pos, scanned, carry)" by (rule tail_loop_stop)
    then show ?thesis using 1(3,4) by simp
  next
    case True
    define rs where "rs = min chunk_size (min pos (m - scanned))"
    define p where "p = pos - rs"
    define parts where "parts = split_on newline (take rs (drop p data) @ carry)"
    have b: "scanned + rs \<le> m" "pos = p + rs" using True unfolding p_def rs_def by linarith+
    note eq = tail_loop_step [OF True rs_def p_def parts_def]
    show ?thesis
      using "1.IH" [OF True rs_def p_def parts_def] b 1(3) eq by (cases "p > 0") auto
  qed
qed

definition fits :: "nat option \<Rightarrow> 'a list \<Rightarrow> bool" where
  "fits needed xs = (case needed of None \<Rightarrow> True | Some n \<Rightarrow> length xs \<le> n)"

lemma take_lines_fits: "\<not> reached needed ls \<Longrightarrow> fits needed (take_lines needed ls rs)"
  by (cases needed) (simp_all add: fits_def take_lines_eq take_needed_def)

lemma tail_loop_fits: "fits needed ls \<Longrightarrow> fits needed (fst (tail_loop data needed max_bytes pos scanned carry ls))"
proof (induction data needed max_bytes pos scanned carry ls rule: tail_loop.induct)
  case (1 data needed m pos scanned carry ls)
  show ?case
  proof (cases "pos > 0 \<and> \<not> reached needed ls \<and> scanned < m")
    case False
    show ?thesis unfolding tail_loop_stop [OF False] using 1(3) by (simp only: fst_conv)
  next
    case True
    note fit = take_lines_fits [OF conjunct1 [OF conjunct2 [OF True]]]
    show ?thesis
      using "1.IH" [OF True refl refl refl] fit unfolding tail_loop_step [OF True refl refl refl]
      by (simp only: split: if_split) blast
  qed
qed

text \<open>The scan of a file within the budget, from its end.\<close>

lemma tail_raw_lines_full:
  assumes "length data \<le> max_bytes"
  shows "tr_lines (tail_raw_lines (Some data) needed max_bytes None []) = take_needed needed (rev (log_lines data))"
    and "\<not> tr_truncated (tail_raw_lines (Some data) needed max_bytes None [])"
    and "tr_exhausted (tail_raw_lines (Some data) needed max_bytes None [])
      \<or> reached needed (take_needed needed (rev (log_lines data)))"
proof -
  let ?t = "tail_raw_lines (Some data) needed max_bytes None []"
  have "tr_lines ?t = take_needed needed (rev (log_lines data)) \<and> \<not> tr_truncated ?t
    \<and> (tr_exhausted ?t \<or> reached needed (take_needed needed (rev (log_lines data))))"
  proof (cases "data = []")
    case True
    then show ?thesis by (simp add: tail_raw_lines_def take_needed_def split: option.split)
  next
    case False
    obtain ls pos scanned carry where t: "tail_loop data needed max_bytes (length data) 0 [] [] = (ls, pos, scanned, carry)"
      by (cases "tail_loop data needed max_bytes (length data) 0 [] []")
    have ls: "ls = take_needed needed (rev (log_lines data))"
      using tail_loop_lines [of 0 "length data" max_bytes data "[]" needed "[]"] assms t by simp
    have "pos = 0 \<or> reached needed ls" using tail_loop_pos [OF _ t] assms by simp
    then show ?thesis using False t ls by (auto simp: tail_raw_lines_def Let_def)
  qed
  then show "tr_lines ?t = take_needed needed (rev (log_lines data))" "\<not> tr_truncated ?t"
    "tr_exhausted ?t \<or> reached needed (take_needed needed (rev (log_lines data)))" by simp_all
qed

lemma one_chunk_exhausts:
  assumes "length data \<le> chunk_size" "chunk_size \<le> max_bytes" "needed \<noteq> Some 0"
  shows "tr_exhausted (tail_raw_lines (Some data) needed max_bytes None [])"
proof (cases "data = []")
  case False
  have stop: "tail_loop data needed max_bytes 0 sc [] ls = (ls, 0, sc, [])" for sc ls
    by (subst tail_loop.simps) simp
  have "\<not> reached needed ([] :: string list)" using assms(3) by (cases needed) (simp_all add: reached_def)
  then have "fst (snd (tail_loop data needed max_bytes (length data) 0 [] [])) = 0"
    using assms False chunk_size_def by (subst tail_loop.simps) (simp add: Let_def stop min_def)
  then show ?thesis using False by (auto simp: tail_raw_lines_def Let_def split: prod.split)
qed (simp add: tail_raw_lines_def)

section \<open>Events\<close>

lemma collect_none:
  assumes "\<forall>raw \<in> set ls. \<exists>d. json_loads raw = Some (JDict d) \<and> \<not> tenant_matches tenant (normalise_record d)"
  shows "collect_events json_loads tenant types stop ls acc = Inr acc"
  using assms by (induction ls) (auto simp: keep_event_def Let_def)

lemma collect_all:
  assumes "\<forall>raw \<in> set ls. \<exists>d. json_loads raw = Some (JDict d)"
  shows "collect_events json_loads None None None ls acc
    = Inr (acc @ map (\<lambda>raw. normalise_record (dict_items (the (json_loads raw)))) ls)"
  using assms by (induction ls arbitrary: acc) (auto simp: keep_event_def tenant_matches_def reached_def Let_def)

text \<open>What one line of the log contributes to a trace.\<close>

definition trace_of :: "(string \<Rightarrow> json option) \<Rightarrow> string \<Rightarrow> string option \<Rightarrow> string \<Rightarrow> (string \<times> json) list list" where
  "trace_of json_loads request_id tenant raw =
     (case json_loads raw of
        Some (JDict d) \<Rightarrow>
          if map_of d ''request_id'' = Some (JStr request_id) \<and> tenant_matches tenant (normalise_record d)
          then [normalise_record d] else []
      | _ \<Rightarrow> [])"

lemma trace_lines_eq:
  assumes "\<forall>raw \<in> set ls. \<forall>j. json_loads raw = Some j \<longrightarrow> is_dict j"
  shows "trace_lines json_loads rid tenant ls acc = Inr (acc @ concat (map (trace_of json_loads rid tenant) ls))"
  using assms
proof (induction ls arbitrary: acc)
  case (Cons raw ls)
  have "trace_line json_loads rid tenant raw = Inr (trace_of json_loads rid tenant raw)"
    using Cons(2) by (auto simp: trace_line_def trace_of_def Let_def split: option.split json.split)
  then show ?case using Cons by simp
qed simp

lemma rev_trace: "rev (concat (map (trace_of json_loads rid tenant) (rev ls))) = concat (map (trace_of json_loads rid tenant) ls)"
proof -
  have r: "rev (trace_of json_loads rid tenant raw) = trace_of json_loads rid tenant raw" for raw
    by (auto simp: trace_of_def split: option.split json.split)
  show ?thesis by (induction ls) (simp_all add: r)
qed


section \<open>Properties\<close>

text \<open>
  A trace is complete.  On a log within the scan budget whose lines are objects or do not
  parse, the trace of a request holds exactly the records with its identifier and the wanted
  tenant, in the order of the log, and is not reported as truncated: the backward scan over
  chunks loses and invents nothing.
\<close>

theorem trace_complete:
  assumes "length data \<le> max_bytes_scanned"
    and "\<forall>raw \<in> set (log_lines data). \<forall>j. json_loads raw = Some j \<longrightarrow> is_dict j"
  shows "find_by_request_id json_loads None (Some data) rid tenant
    = Inr (concat (map (trace_of json_loads rid tenant) (log_lines data)), False)"
proof -
  let ?t = "tail_raw_lines (Some data) None max_bytes_scanned None []"
  have l: "tr_lines ?t = rev (log_lines data)" "\<not> tr_truncated ?t"
    using tail_raw_lines_full [OF assms(1), of None] by (simp_all add: take_needed_def)
  have "trace_lines json_loads rid tenant (tr_lines ?t) []
      = Inr (concat (map (trace_of json_loads rid tenant) (rev (log_lines data))))"
    using trace_lines_eq [of "rev (log_lines data)" json_loads rid tenant "[]"] assms(2) l by simp
  then show ?thesis using l rev_trace [of json_loads rid tenant "log_lines data"]
    by (simp add: find_by_request_id_def Let_def)
qed

text \<open>
  The unfiltered feed is the log's tail: on a log within the scan budget whose lines are all
  objects, the feed without filters is the newest \<open>limit\<close> records (between 1 and 200), newest
  first, and never truncated.
\<close>

theorem unfiltered_feed_is_tail:
  assumes "length data \<le> max_bytes_scanned" and "\<forall>raw \<in> set (log_lines data). \<exists>d. json_loads raw = Some (JDict d)"
  shows "get_recent_activity json_loads None (Some data) limit None None
    = Inr (take (clamp_limit limit) (map (\<lambda>raw. normalise_record (dict_items (the (json_loads raw)))) (rev (log_lines data))), False)"
proof -
  let ?n = "clamp_limit limit"
  let ?t = "tail_raw_lines (Some data) (Some ?n) max_bytes_scanned None []"
  let ?f = "\<lambda>raw. normalise_record (dict_items (the (json_loads raw)))"
  have l: "tr_lines ?t = take ?n (rev (log_lines data))" "\<not> tr_truncated ?t"
      "tr_exhausted ?t \<or> ?n \<le> length (log_lines data)"
    using tail_raw_lines_full [OF assms(1), of "Some ?n"] by (auto simp: take_needed_def reached_def)
  have "\<forall>raw \<in> set (take ?n (rev (log_lines data))). \<exists>d. json_loads raw = Some (JDict d)"
    using assms(2) by (auto dest!: in_set_takeD)
  from collect_all [OF this, of "[]"]
  have "collect_events json_loads None None None (tr_lines ?t) [] = Inr (map ?f (take ?n (rev (log_lines data))))"
    unfolding l(1) by simp
  then show ?thesis
    using l by (auto simp: get_recent_activity_def Let_def take_map)
qed

text \<open>
  The filtered feed drops events.  In a log of at most one chunk whose newest \<open>limit\<close>
  non-blank lines are all of other tenants, the feed of a tenant is empty and says it was not
  truncated, whatever older events of that tenant the log holds.
\<close>

theorem filtered_feed_loses_events:
  assumes "length data \<le> chunk_size" and "clamp_limit limit \<le> length (log_lines data)"
    and "\<forall>raw \<in> set (take (clamp_limit limit) (rev (log_lines data))).
           \<exists>d. json_loads raw = Some (JDict d) \<and> \<not> tenant_matches (Some tenant) (normalise_record d)"
  shows "get_recent_activity json_loads None (Some data) limit (Some tenant) event_types = Inr ([], False)"
proof -
  let ?n = "clamp_limit limit"
  let ?t = "tail_raw_lines (Some data) (Some ?n) max_bytes_scanned None []"
  have b: "length data \<le> max_bytes_scanned" using assms(1) by (simp add: chunk_size_def max_bytes_scanned_def)
  have l: "tr_lines ?t = take ?n (rev (log_lines data))" "\<not> tr_truncated ?t"
    using tail_raw_lines_full [OF b, of "Some ?n"] by (simp_all add: take_needed_def)
  have "0 < ?n" by (simp add: clamp_limit_def)
  then have e: "tr_exhausted ?t"
    using one_chunk_exhausts [OF assms(1), of max_bytes_scanned "Some ?n"]
    by (simp add: chunk_size_def max_bytes_scanned_def)
  show ?thesis
    using collect_none [of "take ?n (rev (log_lines data))" json_loads "Some tenant"] assms(3) l e
    by (simp add: get_recent_activity_def Let_def)
qed

text \<open>
  The scan is bounded: whatever the file, the number of lines wanted and the byte budget,
  it reads at most the budget, never a byte twice, and returns no more lines than wanted.
\<close>

theorem tail_scan_bounded:
  "case tail_loop data needed max_bytes (length data) 0 carry [] of (ls, pos, scanned, carry') \<Rightarrow>
     scanned \<le> max_bytes \<and> scanned + pos = length data
     \<and> (case needed of None \<Rightarrow> True | Some n \<Rightarrow> length ls \<le> n)"
proof -
  obtain ls pos scanned c where t: "tail_loop data needed max_bytes (length data) 0 carry [] = (ls, pos, scanned, c)"
    by (cases "tail_loop data needed max_bytes (length data) 0 carry []")
  have "fits needed (fst (tail_loop data needed max_bytes (length data) 0 carry []))"
    by (rule tail_loop_fits) (simp add: fits_def split: option.split)
  then show ?thesis using t tail_loop_bytes [OF t] by (simp add: fits_def)
qed

section \<open>Witnesses\<close>

text \<open>A log of two lines, \<open>a\<close> of tenant acme and \<open>b\<close> of tenant other, with a stand-in parser.\<close>

definition demo_log :: string where
  "demo_log = ''a'' @ [newline] @ ''b'' @ [newline]"

definition demo_loads :: "string \<Rightarrow> json option" where
  "demo_loads raw =
     (if raw = ''a'' then Some (JDict [(''request_id'', JStr ''r1''), (''tenant'', JStr ''acme'')])
      else if raw = ''b'' then Some (JDict [(''request_id'', JStr ''r2''), (''tenant'', JStr ''other'')])
      else None)"

lemma demo_lines: "log_lines demo_log = [''a'', ''b'']" "length demo_log = 4"
  by (code_simp, simp add: demo_log_def)

theorem trace_complete_witness:
  "find_by_request_id demo_loads None (Some demo_log) ''r1'' (Some ''acme'')
     = Inr ([[(''request_id'', JStr ''r1''), (''tenant'', JStr ''acme''), (''event_type'', JStr ''legacy''),
              (''capability'', JStr ''unset'')]], False)"
proof -
  have "find_by_request_id demo_loads None (Some demo_log) ''r1'' (Some ''acme'')
    = Inr (concat (map (trace_of demo_loads ''r1'' (Some ''acme'')) (log_lines demo_log)), False)"
    by (rule trace_complete) (simp_all add: demo_lines max_bytes_scanned_def demo_loads_def)
  also have "concat (map (trace_of demo_loads ''r1'' (Some ''acme'')) (log_lines demo_log))
    = [[(''request_id'', JStr ''r1''), (''tenant'', JStr ''acme''), (''event_type'', JStr ''legacy''),
        (''capability'', JStr ''unset'')]]"
    by (simp add: demo_lines trace_of_def demo_loads_def normalise_record_def set_default_def od_set_def
        tenant_matches_def Let_def)
  finally show ?thesis .
qed

theorem unfiltered_feed_is_tail_witness:
  "get_recent_activity demo_loads None (Some demo_log) 1 None None
     = Inr ([[(''request_id'', JStr ''r2''), (''tenant'', JStr ''other''), (''event_type'', JStr ''legacy''),
              (''capability'', JStr ''unset'')]], False)"
proof -
  have "get_recent_activity demo_loads None (Some demo_log) 1 None None
    = Inr (take (clamp_limit 1) (map (\<lambda>raw. normalise_record (dict_items (the (demo_loads raw)))) (rev (log_lines demo_log))), False)"
    by (rule unfiltered_feed_is_tail) (simp_all add: demo_lines max_bytes_scanned_def demo_loads_def)
  then show ?thesis
    by (simp add: demo_lines clamp_limit_def max_limit_def demo_loads_def normalise_record_def set_default_def
        od_set_def Let_def)
qed

theorem filtered_feed_loses_events_witness:
  "get_recent_activity demo_loads None (Some demo_log) 1 (Some ''acme'') None = Inr ([], False)
   \<and> (\<exists>raw \<in> set (log_lines demo_log). \<exists>d. demo_loads raw = Some (JDict d) \<and> tenant_matches (Some ''acme'') (normalise_record d))"
proof -
  have "get_recent_activity demo_loads None (Some demo_log) 1 (Some ''acme'') None = Inr ([], False)"
    by (rule filtered_feed_loses_events)
      (simp_all add: demo_lines chunk_size_def clamp_limit_def max_limit_def demo_loads_def normalise_record_def
        set_default_def od_set_def tenant_matches_def Let_def)
  then show ?thesis
    by (simp add: demo_lines demo_loads_def normalise_record_def set_default_def od_set_def tenant_matches_def Let_def)
qed

end
