(* ===== verification/Read_Api.thy ===== *)
theory Read_Api
  imports Request_Gate Activity
begin

text \<open>
  The endpoints of \<open>api/main.py\<close> that read the audit trail and the settings: the activity feed, the
  trace, the raw log, \<open>whoami\<close>, and the privacy and protection settings.

  \<open>log_env\<close> holds what a read depends on beside the process: the JSONL file, the two parsers,
  whether the query succeeds, and the order in which a set of event types is walked.
\<close>

section \<open>Definitions from the code\<close>

record log_env =
  le_loads :: "string \<Rightarrow> json option"
  le_db_loads :: "string \<Rightarrow> json"
  le_db_ok :: bool
  le_file :: "string option"
  le_order :: "string list \<Rightarrow> string list"

text \<open>The store's rows when SQLite is the read authority and answers, \<open>None\<close> for the JSONL scan.\<close>

definition wanted_types :: "log_env \<Rightarrow> string list option \<Rightarrow> string list" where
  "wanted_types le types =
     le_order le (remdups (case types of Some (t # ts) \<Rightarrow> t # ts | _ \<Rightarrow> known_event_types @ [''legacy'']))"

definition read_recent ::
  "api_config \<Rightarrow> log_env \<Rightarrow> audit_db \<Rightarrow> int \<Rightarrow> string option \<Rightarrow> string list option \<Rightarrow> (py_error, entry list \<times> bool) res" where
  "read_recent cf le db limit tenant types =
     get_recent_activity (le_loads le)
       (if ac_read_from_sqlite (cf_audit cf) \<and> le_db_ok le
        then Some (recent (le_db_loads le) db limit tenant (wanted_types le types), False) else None)
       (le_file le) limit tenant types"

definition read_trace ::
  "api_config \<Rightarrow> log_env \<Rightarrow> audit_db \<Rightarrow> string \<Rightarrow> string option \<Rightarrow> (py_error, entry list \<times> bool) res" where
  "read_trace cf le db request_id tenant =
     find_by_request_id (le_loads le)
       (if ac_read_from_sqlite (cf_audit cf) \<and> le_db_ok le
        then Some (by_request_id (le_db_loads le) db request_id tenant, False) else None)
       (le_file le) request_id tenant"

text \<open>The query parameter \<open>tenant\<close>; an empty one counts as absent.\<close>

definition resolve_activity_tenant_scope :: "principal \<Rightarrow> string option \<Rightarrow> string option" where
  "resolve_activity_tenant_scope p requested =
     (case requested of
        Some (c # t) \<Rightarrow> if pr_capability p = ''INTERNAL'' then (if c # t = ''__all__'' then None else Some (c # t)) else Some (pr_tenant p)
      | _ \<Rightarrow> Some (pr_tenant p))"

definition split_types :: "string option \<Rightarrow> string list option" where
  "split_types event_type = (case event_type of Some (c # t) \<Rightarrow> Some (map str_strip (split_on (CHR '','') (c # t))) | _ \<Rightarrow> None)"

definition activity_feed ::
  "api_config \<Rightarrow> 'v api_env \<Rightarrow> log_env \<Rightarrow> http_request \<Rightarrow> string option \<Rightarrow> int \<Rightarrow> string option \<Rightarrow> 'v api
   \<Rightarrow> (entry list \<times> bool, 'v api) outcome" where
  "activity_feed cf en le rq requested limit event_type s =
     and_then (open_boundary cf en rq s) (\<lambda>(p, tc) s1.
       (lift_error (read_recent cf le (au_db (ap_audit s1)) limit (resolve_activity_tenant_scope p requested) (split_types event_type)), s1))"

definition activity_trace ::
  "api_config \<Rightarrow> 'v api_env \<Rightarrow> log_env \<Rightarrow> http_request \<Rightarrow> string option \<Rightarrow> string \<Rightarrow> 'v api
   \<Rightarrow> (entry list \<times> bool, 'v api) outcome" where
  "activity_trace cf en le rq requested request_id s =
     and_then (open_boundary cf en rq s) (\<lambda>(p, tc) s1.
       (lift_error (read_trace cf le (au_db (ap_audit s1)) request_id (resolve_activity_tenant_scope p requested)), s1))"

definition raw_logs ::
  "api_config \<Rightarrow> 'v api_env \<Rightarrow> log_env \<Rightarrow> http_request \<Rightarrow> string option \<Rightarrow> int \<Rightarrow> string option \<Rightarrow> 'v api
   \<Rightarrow> (entry list \<times> bool, 'v api) outcome" where
  "raw_logs cf en le rq requested limit event_type s =
     and_then (internal_boundary cf en rq s) (\<lambda>p s1.
       let tenant = (case requested of Some (c # t) \<Rightarrow> if c # t = ''__all__'' then None else Some (c # t) | _ \<Rightarrow> None)
       in (lift_error (read_recent cf le (au_db (ap_audit s1)) limit tenant (split_types event_type)), s1))"

definition whoami :: "api_config \<Rightarrow> 'v api_env \<Rightarrow> http_request \<Rightarrow> 'v api \<Rightarrow> (string \<times> string \<times> string, 'v api) outcome" where
  "whoami cf en rq s =
     and_then (authenticate en rq s) (\<lambda>p s1.
       if \<not> pr_authenticated p then (Inl (Http 401 bearer_challenge), s1)
       else and_then (reject_suspended_and_rate_limit cf en rq p s1) (\<lambda>_ s2.
         (Inr (pr_capability p, pr_tenant p, pr_key_id p), s2)))"

section \<open>Settings\<close>

record privacy_view =
  pw_tenant :: string
  pw_regex :: "string list"
  pw_ner :: "string list"
  pw_disabled :: "string list"

definition or_nothing :: "'a list option \<Rightarrow> 'a list" where
  "or_nothing l = (case l of Some l \<Rightarrow> l | None \<Rightarrow> [])"

definition privacy_settings ::
  "api_config \<Rightarrow> 'v api_env \<Rightarrow> http_request \<Rightarrow> string option \<Rightarrow> 'v api \<Rightarrow> (privacy_view, 'v api) outcome" where
  "privacy_settings cf en rq tenant s =
     and_then (open_boundary cf en rq s) (\<lambda>(p, own) s1.
       if tenant \<noteq> None \<and> pr_capability p \<noteq> ''INTERNAL'' then (Inl (Http 403 []), s1)
       else and_then (find_tenant en (case tenant of Some t \<Rightarrow> t | None \<Rightarrow> pr_tenant p) s1) (\<lambda>tc s2.
         let disabled = or_nothing (tc_privacy_disabled_patterns tc);
             labels = (case tc_privacy_ner_labels tc of Some l \<Rightarrow> l | None \<Rightarrow> ner_default_labels)
         in (Inr \<lparr>pw_tenant = tc_tenant_id tc,
                  pw_regex = sort (filter (\<lambda>k. k \<notin> set disabled) (map fst regex_patterns)),
                  pw_ner = sort labels, pw_disabled = sort (remdups disabled)\<rparr>, s2)))"

record protection_view =
  vw_tenant :: tenant_config
  vw_capability :: string
  vw_risk_to_action :: "(string, string) odict"
  vw_default_action :: string

text \<open>\<open>FAIL_SAFE\<close> has no policies.\<close>

definition risk_to_action :: "policy_set option \<Rightarrow> string \<Rightarrow> (string, string) odict" where
  "risk_to_action pset capability =
     (case pset of None \<Rightarrow> []
      | Some ps \<Rightarrow> (case od_get (pol_policies ps) capability of None \<Rightarrow> [] | Some m \<Rightarrow> m))"

definition protection_settings ::
  "api_config \<Rightarrow> 'v api_env \<Rightarrow> http_request \<Rightarrow> string option \<Rightarrow> 'v api \<Rightarrow> (protection_view, 'v api) outcome" where
  "protection_settings cf en rq requested s =
     and_then (open_boundary cf en rq s) (\<lambda>(p, own) s1.
       let tenant_id = (case requested of Some (c # t) \<Rightarrow> if pr_capability p = ''INTERNAL'' then c # t else pr_tenant p
                        | _ \<Rightarrow> pr_tenant p)
       in and_then (find_tenant en tenant_id s1) (\<lambda>tc s2.
         let (pset, ps1) = ps_get (en_policy en) tenant_id (ap_policy s2);
             (default, ps2) = get_default_action (en_policy en) ps1
         in (Inr \<lparr>vw_tenant = tc, vw_capability = pr_capability p, vw_risk_to_action = risk_to_action pset (pr_capability p),
                  vw_default_action = default\<rparr>, s2\<lparr>ap_policy := ps2\<rparr>)))"

section \<open>Records of one tenant\<close>

text \<open>
  What every write keeps of the store, from the audit functions and from the migration tool: rows of
  a table carry its type, and a row of the legacy table is that of a record whose text reads back.
\<close>

definition typed_db :: "(string \<Rightarrow> json) \<Rightarrow> (json \<Rightarrow> string) \<Rightarrow> audit_db \<Rightarrow> bool" where
  "typed_db loads dumps db \<longleftrightarrow>
     (\<forall>et \<in> set known_event_types. \<forall>row \<in> set (db et). map_of row ''event_type'' = Some (JStr et))
     \<and> (\<forall>row \<in> set (db ''legacy_event''). \<exists>e. row = legacy_row dumps e \<and> loads (dumps (JDict e)) = JDict e)"

lemma typed_db_empty: "typed_db loads dumps (\<lambda>t. [])"
  by (simp add: typed_db_def)

lemma store_write_typed:
  assumes "typed_db loads dumps db" "loads (dumps (JDict e)) = JDict e" "store_write dumps ok et e db = Inr db'"
  shows "typed_db loads dumps db'"
proof (cases "audit_columns et")
  case None
  then have "db' = db(''legacy_event'' := db ''legacy_event'' @ [legacy_row dumps e])"
    using assms(3) by (auto simp: store_write_def Let_def split: if_splits)
  moreover have "''legacy_event'' \<notin> set known_event_types" by (simp add: known_event_types_def)
  ultimately show ?thesis using assms(1,2) by (auto simp: typed_db_def)
next
  case (Some cols)
  then have "db' = db(et := db et @ [coerce_row dumps et cols e])" "et \<noteq> ''legacy_event''"
    using assms(3) by (auto simp: store_write_def audit_columns_def Let_def split: if_splits)
  then show ?thesis using assms(1) by (auto simp: typed_db_def coerce_row_get)
qed

lemma legacy_tenant:
  assumes "loads (dumps (JDict e)) = JDict e" "tenant_is (Some t) (legacy_row dumps e)"
  shows "map_of (row_to_record loads (legacy_row dumps e)) ''tenant'' = Some (JStr t)"
proof -
  have e: "map_of e ''tenant'' = Some (JStr t)"
    using assms(2) by (auto simp: tenant_is_def legacy_row_def entry_get_def split: option.splits)
  let ?row = "map (\<lambda>(k, v). (k, from_bool_column k v)) (legacy_row dumps e)"
  have row: "decode_usage loads ?row = legacy_row dumps e"
    by (simp add: decode_usage_def legacy_row_def from_bool_column_def bool_columns_def)
  have get: "entry_get (legacy_row dumps e) ''event_type'' = JStr ''legacy''" "entry_get (legacy_row dumps e) ''tenant'' = JStr t"
    "entry_get (legacy_row dumps e) ''raw_json'' = JStr (dumps (JDict e))"
    using e by (simp_all add: legacy_row_def entry_get_def)
  have missing: "map_of (set_missing k v d) ''tenant'' = map_of d ''tenant''" if "map_of d ''tenant'' \<noteq> None" for k v d
    using that by (auto simp: set_missing_def map_add_def split: option.splits)
  have other: "map_of (filter (\<lambda>(k, v). k \<noteq> ''raw_json'') (legacy_row dumps e)) ''tenant'' = Some (JStr t)"
    using get(2) by (simp add: legacy_row_def entry_get_def)
  show ?thesis
    using e other by (simp add: row_to_record_def row get assms(1) missing od_set_map_of Let_def)
qed

lemma row_tenant:
  assumes "typed_db loads dumps db" "et \<in> set known_event_types" "row \<in> set (db et)" "tenant_is (Some t) row"
  shows "map_of (row_to_record loads row) ''tenant'' = Some (JStr t)"
proof -
  have ty: "map_of row ''event_type'' = Some (JStr et)" using assms(1-3) by (auto simp: typed_db_def)
  have et: "et \<notin> {[], ''legacy''}" using assms(2) by (auto simp: known_event_types_def)
  have "map_of row ''tenant'' = Some (JStr t)" using assms(4) by (auto simp: tenant_is_def entry_get_def split: option.splits)
  from record_column [OF ty et this] show ?thesis by (simp add: from_bool_column_def bool_columns_def)
qed

lemma table_row_tenant:
  assumes "typed_db loads dumps db" "table \<in> set (known_event_types @ [''legacy_event''])" "row \<in> set (db table)" "tenant_is (Some t) row"
  shows "map_of (row_to_record loads row) ''tenant'' = Some (JStr t)"
proof (cases "table = ''legacy_event''")
  case True
  with assms obtain e where "row = legacy_row dumps e" "loads (dumps (JDict e)) = JDict e" by (auto simp: typed_db_def)
  then show ?thesis using legacy_tenant assms(4) by blast
next
  case False
  then show ?thesis using row_tenant [OF assms(1) _ assms(3,4)] assms(2) by simp
qed

lemma recent_tenant:
  assumes "typed_db loads dumps db" "r \<in> set (recent loads db limit (Some t) wanted)"
  shows "map_of r ''tenant'' = Some (JStr t)"
proof -
  obtain et row where "r = row_to_record loads row" "row \<in> set (newest_rows db (Some t) et)"
    using assms(2) by (auto simp: recent_def Let_def dest!: in_set_takeD)
  moreover from this(2) obtain table where "table \<in> set (known_event_types @ [''legacy_event''])" "row \<in> set (db table)" "tenant_is (Some t) row"
    by (auto simp: newest_rows_def table_of_def split: if_splits)
  ultimately show ?thesis using table_row_tenant [OF assms(1)] by blast
qed

lemma by_request_tenant:
  assumes "typed_db loads dumps db" "r \<in> set (by_request_id loads db rid (Some t))"
  shows "map_of r ''tenant'' = Some (JStr t)"
proof -
  obtain table row where "r = row_to_record loads row" "row \<in> set (db table)" "tenant_is (Some t) row"
      "table \<in> set (known_event_types @ [''legacy_event''])"
    using assms(2) by (auto simp: by_request_id_def Let_def)
  then show ?thesis using table_row_tenant [OF assms(1)] by blast
qed

lemma lift_error_Inr_iff: "lift_error r = Inr a \<longleftrightarrow> r = Inr a"
  by (simp add: lift_error_def split: sum.split)

lemma keep_event_tenant: "keep_event (Some t) types j = Inr (Some r) \<Longrightarrow> map_of r ''tenant'' = Some (JStr t)"
  by (auto simp: keep_event_def tenant_matches_def Let_def split: json.splits if_splits option.splits)

lemma collect_events_tenant:
  assumes "collect_events loads (Some t) types stop raws acc = Inr events"
    and "\<forall>r \<in> set acc. map_of r ''tenant'' = Some (JStr t)"
  shows "\<forall>r \<in> set events. map_of r ''tenant'' = Some (JStr t)"
  using assms
proof (induction raws arbitrary: acc)
  case (Cons raw raws)
  show ?case
  proof (cases "loads raw")
    case None
    then show ?thesis using Cons by simp
  next
    case (Some j)
    show ?thesis
    proof (cases "keep_event (Some t) types j")
      case (Inr k)
      then show ?thesis
        using Some Cons.prems Cons.IH [of acc] Cons.IH [of "acc @ [the k]"] keep_event_tenant [of t types j "the k"]
        by (cases k) (auto split: if_splits)
    qed (use Some Cons.prems in simp)
  qed
qed simp

lemma recent_activity_tenant:
  assumes "get_recent_activity loads None file limit (Some t) types = Inr (events, tr)" "r \<in> set events"
  shows "map_of r ''tenant'' = Some (JStr t)"
proof -
  let ?ty = "case types of Some (x # xs) \<Rightarrow> Some (x # xs) | _ \<Rightarrow> None" and ?n = "clamp_limit limit"
  let ?p1 = "tail_raw_lines file (Some ?n) max_bytes_scanned None []"
  let ?p2 = "tail_raw_lines file None max_bytes_scanned (Some (tr_pos ?p1)) (tr_carry ?p1)"
  note col = collect_events_tenant [of loads t ?ty]
  obtain ev where ev: "collect_events loads (Some t) ?ty None (tr_lines ?p1) [] = Inr ev"
    and rest: "(if length ev < ?n \<and> \<not> tr_truncated ?p1 \<and> \<not> tr_exhausted ?p1 \<and> tr_pos ?p1 > 0
      then bind_res (collect_events loads (Some t) ?ty (Some ?n) (tr_lines ?p2) ev) (\<lambda>more. Inr (take ?n more, tr_truncated ?p2))
      else Inr (take ?n ev, tr_truncated ?p1)) = Inr (events, tr)"
    using assms(1) unfolding get_recent_activity_def Let_def option.case bind_res_Inr_iff by blast
  have first: "\<forall>x \<in> set ev. map_of x ''tenant'' = Some (JStr t)" using col [OF ev] by simp
  show ?thesis
    using rest assms(2) first col [OF _ first]
    by (auto simp: bind_res_Inr_iff split: if_splits dest: in_set_takeD)
qed

lemma trace_lines_tenant:
  assumes "trace_lines loads rid (Some t) raws acc = Inr events" "\<forall>r \<in> set acc. map_of r ''tenant'' = Some (JStr t)"
  shows "\<forall>r \<in> set events. map_of r ''tenant'' = Some (JStr t)"
  using assms
proof (induction raws arbitrary: acc)
  case (Cons raw raws)
  then obtain m where m: "trace_line loads rid (Some t) raw = Inr m" "trace_lines loads rid (Some t) raws (acc @ m) = Inr events"
    by (auto simp: bind_res_Inr_iff)
  have "\<forall>r \<in> set m. map_of r ''tenant'' = Some (JStr t)"
    using m(1) by (auto simp: trace_line_def tenant_matches_def Let_def split: option.splits json.splits if_splits)
  then show ?case using Cons.IH [OF m(2)] Cons.prems(2) by auto
qed simp

lemma reads_stay_in_tenant:
  assumes "typed_db (le_db_loads le) dumps db"
  shows "read_recent cf le db limit (Some t) types = Inr (events, tr) \<Longrightarrow> r \<in> set events \<Longrightarrow> map_of r ''tenant'' = Some (JStr t)"
    and "read_trace cf le db rid (Some t) = Inr (events, tr) \<Longrightarrow> r \<in> set events \<Longrightarrow> map_of r ''tenant'' = Some (JStr t)"
proof -
  show "read_recent cf le db limit (Some t) types = Inr (events, tr) \<Longrightarrow> r \<in> set events \<Longrightarrow> map_of r ''tenant'' = Some (JStr t)"
    using recent_activity_tenant [of "le_loads le" "le_file le" limit t types events tr r]
      recent_tenant [OF assms, of r limit t "wanted_types le types"]
    by (auto simp: read_recent_def get_recent_activity_def split: if_splits)
  have "trace_lines (le_loads le) rid (Some t) raws [] = Inr m \<Longrightarrow> \<forall>x \<in> set m. map_of x ''tenant'' = Some (JStr t)" for raws m
    by (erule trace_lines_tenant) simp
  then show "read_trace cf le db rid (Some t) = Inr (events, tr) \<Longrightarrow> r \<in> set events \<Longrightarrow> map_of r ''tenant'' = Some (JStr t)"
    using by_request_tenant [OF assms, of r rid t]
    by (fastforce simp: read_trace_def find_by_request_id_def Let_def bind_res_Inr_iff split: if_splits)
qed

section \<open>Properties\<close>

text \<open>
  C19. A caller without INTERNAL capability reads its own tenant's records only.  Whatever tenant it
  asks for, every event of the feed and of a trace, from the JSONL file or from the store, carries
  the tenant of its key: records of the audit functions and, where the JSON library reads back what
  it wrote, the records of any other type that the migration tool copies into the store.
\<close>

theorem activity_stays_in_tenant:
  assumes "fst (resolve_principal (en_sha en) (en_keys en) (hr_authorization rq) None (ap_keys s)) = Inr p"
    and "pr_capability p \<noteq> ''INTERNAL''" "typed_db (le_db_loads le) dumps (au_db (ap_audit s))"
    and "activity_feed cf en le rq requested limit event_type s = (Inr (events, tr), s')
      \<or> activity_trace cf en le rq requested rid s = (Inr (events, tr), s')"
  shows "\<forall>e \<in> set events. map_of e ''tenant'' = Some (JStr (pr_tenant p))"
proof -
  have scope: "resolve_activity_tenant_scope p requested = Some (pr_tenant p)"
    using assms(2) by (auto simp: resolve_activity_tenant_scope_def split: option.split list.split)
  have db: "au_db (ap_audit s1) = au_db (ap_audit s)" if "open_boundary cf en rq s = (Inr x, s1)" for x s1
    using open_boundary_same [of s cf en rq] that by (simp add: same_work_def)
  from assms(4) show ?thesis
  proof
    assume "activity_feed cf en le rq requested limit event_type s = (Inr (events, tr), s')"
    then obtain q tc where b: "open_boundary cf en rq s = (Inr (q, tc), s')"
      "read_recent cf le (au_db (ap_audit s')) limit (resolve_activity_tenant_scope q requested) (split_types event_type) = Inr (events, tr)"
      by (auto simp: activity_feed_def and_then_Inr_iff lift_error_Inr_iff)
    moreover have "q = p" using open_boundary_InrD [OF b(1)] assms(1) by simp
    ultimately show ?thesis using reads_stay_in_tenant(1) [OF assms(3)] scope db [OF b(1)] by auto
  next
    assume "activity_trace cf en le rq requested rid s = (Inr (events, tr), s')"
    then obtain q tc where b: "open_boundary cf en rq s = (Inr (q, tc), s')"
      "read_trace cf le (au_db (ap_audit s')) rid (resolve_activity_tenant_scope q requested) = Inr (events, tr)"
      by (auto simp: activity_trace_def and_then_Inr_iff lift_error_Inr_iff)
    moreover have "q = p" using open_boundary_InrD [OF b(1)] assms(1) by simp
    ultimately show ?thesis using reads_stay_in_tenant(2) [OF assms(3)] scope db [OF b(1)] by auto
  qed
qed

text \<open>A usable store has a policy for the default tenant; loading keeps it so.\<close>

definition has_default :: "policy_store \<Rightarrow> bool" where
  "has_default ps \<longleftrightarrow> (ps_usable ps \<longrightarrow> od_get (ps_tenants ps) ''default'' \<noteq> None)"

lemma has_default_load: "has_default ps \<Longrightarrow> has_default (ps_load force disk ps)"
  by (auto simp: has_default_def ps_load_def Let_def split: disk_doc.split json.split option.split)

lemma has_default_new: "has_default new_policy_store"
  by (simp add: has_default_def new_policy_store_def)

text \<open>
  What the protection view shows is what is enforced.  For every risk the action it lists for
  the caller, or its default action where it lists none, is the one the policy decides on, as
  long as a usable policy is loaded; without one every decision is BLOCK, although the view still
  shows the default action last read from the file.
\<close>

theorem protection_view_is_enforced:
  assumes "protection_settings cf en rq None s = (Inr v, s')" "has_default (ap_policy s)"
  shows "\<exists>p. fst (resolve_principal (en_sha en) (en_keys en) (hr_authorization rq) None (ap_keys s)) = Inr p
    \<and> (\<forall>risk. fst (fst (policy_decision (en_policy en) (pr_capability p) risk (pr_tenant p) (ap_policy s))) =
        (if ps_usable (ps_load False (en_policy en) (ap_policy s))
         then (case od_get (vw_risk_to_action v) risk of Some a \<Rightarrow> a | None \<Rightarrow> vw_default_action v)
         else ''BLOCK''))"
proof -
  let ?ps = "ps_load False (en_policy en) (ap_policy s)"
  have idem: "ps_load False (en_policy en) ?ps = ?ps" by (auto simp: ps_load_def Let_def split: disk_doc.split json.split option.split)
  obtain p own s1 where b1: "open_boundary cf en rq s = (Inr (p, own), s1)"
    using assms(1) by (auto simp: protection_settings_def and_then_Inr_iff)
  note run = assms(1) [unfolded protection_settings_def b1 and_then_simps prod.case Let_def option.case]
  obtain tc s2 where b2: "find_tenant en (pr_tenant p) s1 = (Inr tc, s2)" using run by (auto simp: and_then_Inr_iff)
  note b = b1 b2
  have v: "vw_risk_to_action v = risk_to_action (fst (ps_get (en_policy en) (pr_tenant p) (ap_policy s2))) (pr_capability p)"
      "vw_default_action v = fst (get_default_action (en_policy en) (snd (ps_get (en_policy en) (pr_tenant p) (ap_policy s2))))"
    using run [unfolded b2 and_then_simps] by (auto split: prod.splits)
  have "same_work s s1" "same_work s1 s2"
    using open_boundary_same [of s cf en rq] find_tenant_same [of s1 en "pr_tenant p"] b by simp_all
  then have pol: "ap_policy s2 = ap_policy s" by (simp add: same_work_def)
  have "vw_default_action v = ps_default_action ?ps"
    using v(2) pol idem by (simp add: get_default_action_def ps_get_def Let_def)
  then have "fst (fst (policy_decision (en_policy en) (pr_capability p) risk (pr_tenant p) (ap_policy s))) =
      (if ps_usable ?ps then (case od_get (vw_risk_to_action v) risk of Some a \<Rightarrow> a | None \<Rightarrow> vw_default_action v) else ''BLOCK'')" for risk
    using v(1) pol has_default_load [OF assms(2), of False "en_policy en"]
    by (auto simp: policy_decision_def ps_get_def risk_to_action_def has_default_def Let_def split: option.split list.split)
  then show ?thesis using open_boundary_InrD [OF b(1)] by blast
qed

section \<open>Witnesses\<close>

text \<open>A record of a type of its own, and its text.\<close>

definition other_record :: entry where
  "other_record = [(''event_type'', JStr ''consent''), (''timestamp'', JStr ''T3''), (''tenant'', JStr ''default'')]"

definition other_dumps :: "json \<Rightarrow> string" where
  "other_dumps j = ''{consent}''"

definition example_log :: log_env where
  "example_log = \<lparr>le_loads = demo_loads, le_db_loads = (\<lambda>x. JDict other_record), le_db_ok = True, le_file = Some demo_log, le_order = id\<rparr>"

definition stored_api :: "nat api" where
  "stored_api = example_api\<lparr>ap_audit := \<lparr>au_log = [],
     au_db = (\<lambda>t. if t = ''tool_call'' then
       [[(''event_type'', JStr ''tool_call''), (''timestamp'', JStr ''T1''), (''tenant'', JStr ''default'')],
        [(''event_type'', JStr ''tool_call''), (''timestamp'', JStr ''T2''), (''tenant'', JStr ''acme'')]]
       else if t = ''legacy_event'' then [legacy_row other_dumps other_record] else []), au_writes = 3\<rparr>\<rparr>"

theorem activity_stays_in_tenant_witness:
  "\<exists>events tr s'. activity_feed (example_config\<lparr>cf_audit := \<lparr>ac_sqlite_enabled = True, ac_read_from_sqlite = True, ac_fails_closed = True\<rparr>\<rparr>)
       (example_env (NoReply []) True) example_log example_request (Some ''acme'') 50 None stored_api = (Inr (events, tr), s')
     \<and> (\<forall>e \<in> set events. map_of e ''tenant'' = Some (JStr ''default''))"
proof -
  let ?cf = "example_config\<lparr>cf_audit := \<lparr>ac_sqlite_enabled = True, ac_read_from_sqlite = True, ac_fails_closed = True\<rparr>\<rparr>"
  let ?en = "example_env (NoReply []) True" and ?s1 = "stored_api\<lparr>ap_tenants := \<lparr>ts_tenants = [], ts_loaded = True\<rparr>\<rparr>"
  have b: "open_boundary ?cf ?en example_request stored_api = (Inr (example_principal, default_tenant), ?s1)"
    by (simp add: open_boundary_def authenticate_def resolve_principal_def extract_bearer_def example_request_def
      example_env_def example_config_def example_api_def example_principal_def find_tenant_def resolve_tenant_def
      reject_suspended_and_rate_limit_def enforce_rate_limit_def ts_get_def ts_load_def new_tenant_store_def stored_api_def
      auth_required_def lift_error_def suspended_def default_tenant_def anonymous_def Let_def)
  have k: "fst (resolve_principal (en_sha ?en) (en_keys ?en) (hr_authorization example_request) None (ap_keys stored_api)) = Inr example_principal"
    using open_boundary_InrD [OF b] by simp
  have g: "pr_capability example_principal \<noteq> ''INTERNAL''" by (simp add: example_principal_def anonymous_def)
  have db: "typed_db (le_db_loads example_log) other_dumps (au_db (ap_audit stored_api))"
    by (auto simp: typed_db_def stored_api_def known_event_types_def example_log_def intro: exI [of _ other_record])
  have "\<exists>r. read_recent ?cf example_log d 50 t types = Inr r" for d t types
    by (simp add: read_recent_def get_recent_activity_def example_log_def del: split_paired_Ex)
  then obtain r where "read_recent ?cf example_log (au_db (ap_audit ?s1)) 50
      (resolve_activity_tenant_scope example_principal (Some ''acme'')) (split_types None) = Inr r" by blast
  then obtain events tr where "activity_feed ?cf ?en example_log example_request (Some ''acme'') 50 None stored_api = (Inr (events, tr), ?s1)"
    by (cases r) (simp add: activity_feed_def b lift_error_def)
  moreover from this have "\<forall>e \<in> set events. map_of e ''tenant'' = Some (JStr (pr_tenant example_principal))"
    by (intro activity_stays_in_tenant [OF k g db]) blast
  ultimately show ?thesis by (auto simp: example_principal_def anonymous_def)
qed

theorem protection_view_is_enforced_witness:
  "\<exists>v s'. protection_settings example_config (example_env (NoReply []) True) example_request None example_api = (Inr v, s')
     \<and> (case od_get (vw_risk_to_action v) ''LOW'' of Some a \<Rightarrow> a | None \<Rightarrow> vw_default_action v) = ''ALLOW''"
proof -
  let ?en = "example_env (NoReply []) True" and ?s1 = "example_api\<lparr>ap_tenants := \<lparr>ts_tenants = [], ts_loaded = True\<rparr>\<rparr>"
  have "find_tenant ?en (pr_tenant example_principal) ?s1 = (Inr default_tenant, ?s1)"
    by (simp add: find_tenant_def resolve_tenant_def ts_get_def ts_load_def example_env_def example_principal_def anonymous_def
      lift_error_def example_api_def)
  then obtain v s' where v: "protection_settings example_config ?en example_request None example_api = (Inr v, s')"
    by (cases "ps_get (en_policy ?en) (pr_tenant example_principal) (ap_policy example_api)")
      (simp add: protection_settings_def example_boundary get_default_action_def Let_def)
  have dec: "fst (fst (policy_decision (en_policy ?en) (pr_capability example_principal) ''LOW'' (pr_tenant example_principal) (ap_policy example_api))) = ''ALLOW''"
    using example_decision by (simp add: example_env_def example_principal_def anonymous_def example_api_def)
  have k: "fst (resolve_principal (en_sha ?en) (en_keys ?en) (hr_authorization example_request) None (ap_keys example_api)) = Inr example_principal"
    using open_boundary_InrD [OF example_boundary] by simp
  have u: "ps_usable (ps_load False (en_policy ?en) (ap_policy example_api))"
  proof -
    have "ps_usable (ps_load False example_policy new_policy_store)" by code_simp
    then show ?thesis by (simp add: example_env_def example_api_def)
  qed
  show ?thesis
    using protection_view_is_enforced [OF v] has_default_new k dec u v by (auto simp: example_api_def)
qed

end
