(* ===== verification/Tools_Api.thy ===== *)
theory Tools_Api
  imports Assess_Api
begin

text \<open>
  The tool endpoints of \<open>api/main.py\<close>: \<open>POST /api/v1/tools/call\<close>, the catalogue, and the listing of
  the chat backends.

  The state is the process and the world the tools act on.  \<open>execute_tool\<close> writes one audit event
  at most, as its last step, so the events of a call are written after it; an event whose write
  raises ends the request.
\<close>

section \<open>Definitions from the code\<close>

record tool_request =
  tq_name :: string
  tq_arguments :: "(string \<times> json) list"

record tool_response =
  tp_decision :: string
  tp_tool :: string
  tp_reason :: string
  tp_output :: "json option"
  tp_error :: "string option"
  tp_review_id :: "string option"

text \<open>A step on the first part of the state.\<close>

definition on_fst :: "('s \<Rightarrow> ('a, 's) outcome) \<Rightarrow> 's \<times> 'w \<Rightarrow> ('a, 's \<times> 'w) outcome" where
  "on_fst f s = (let (r, a) = f (fst s) in (r, (a, snd s)))"

text \<open>The 100,000 character bound of the request model; \<open>dumps\<close> is \<open>json.dumps\<close>.\<close>

definition bound_arguments_size :: "(json \<Rightarrow> string) \<Rightarrow> (string \<times> json) list \<Rightarrow> bool" where
  "bound_arguments_size dumps arguments \<longleftrightarrow> \<not> length (dumps (JDict arguments)) > 100000"

fun write_tool_events :: "api_config \<Rightarrow> 'v api_env \<Rightarrow> tool_event list \<Rightarrow> 'v api \<Rightarrow> (unit, 'v api) outcome" where
  "write_tool_events cf en [] s = (Inr (), s)"
| "write_tool_events cf en (e # es) s =
     (let (r, a) = log_tool_event (cf_audit cf) (en_audit en) e (ap_audit s)
      in and_then (lift_error r, s\<lparr>ap_audit := a\<rparr>) (\<lambda>_. write_tool_events cf en es))"

definition run_tool ::
  "api_config \<Rightarrow> 'v api_env \<Rightarrow> 'w registry \<Rightarrow> principal \<Rightarrow> string \<Rightarrow> tool_request \<Rightarrow> 'v api \<times> 'w
   \<Rightarrow> (tool_result, 'v api \<times> 'w) outcome" where
  "run_tool cf en reg p rid req s =
     (let (r, g) = execute_tool reg (pr_capability p) (tq_name req) (JDict (tq_arguments req)) (pr_tenant p) rid
                     \<lparr>gw_audit = [], gw_world = snd s\<rparr>
      in and_then (on_fst (write_tool_events cf en (gw_audit g)) (fst s, gw_world g)) (\<lambda>_ s'. (lift_error r, s')))"

definition call_hash :: "'v api_env \<Rightarrow> tool_request \<Rightarrow> string" where
  "call_hash en req =
     en_sha en (ae_dumps (en_audit en) (JDict [(''tool'', JStr (tq_name req)), (''arguments'', JDict (tq_arguments req))]))"

definition or_high :: "string option \<Rightarrow> string" where
  "or_high r = (case r of Some (c # t) \<Rightarrow> c # t | _ \<Rightarrow> ''HIGH'')"

definition tool_review ::
  "'v api_env \<Rightarrow> principal \<Rightarrow> string \<Rightarrow> tool_request \<Rightarrow> tool_result \<Rightarrow> 'v api \<Rightarrow> (string option, 'v api) outcome" where
  "tool_review en p rid req res s =
     (if tr_decision res \<noteq> ''REVIEW'' then (Inr None, s)
      else
        let (r, q) = enqueue (en_review_uuid en) (en_iso_now en) (tr_reason res) (pr_capability p) (or_high (tr_risk res))
                       (pr_tenant p) (call_hash en req) rid (ap_reviews s)
        in (map_sum ServerError (\<lambda>x. Some (rr_review_id x)) r, s\<lparr>ap_reviews := q\<rparr>))"

definition tools_call ::
  "api_config \<Rightarrow> 'v api_env \<Rightarrow> 'w registry \<Rightarrow> http_request \<Rightarrow> tool_request \<Rightarrow> 'v api \<times> 'w
   \<Rightarrow> (tool_response, 'v api \<times> 'w) outcome" where
  "tools_call cf en reg rq req s =
     (let rid = resolve_request_id cf (en_uuid en) rq in
      if \<not> bound_arguments_size (ae_dumps (en_audit en)) (tq_arguments req) then (Inl (Http 422 []), s)
      else and_then (on_fst (open_boundary cf en rq) s) (\<lambda>(p, tc) s1.
      and_then (run_tool cf en reg p rid req s1) (\<lambda>res s2.
      and_then (on_fst (tool_review en p rid req res) s2) (\<lambda>review_id s3.
        (Inr \<lparr>tp_decision = tr_decision res, tp_tool = tr_tool res, tp_reason = tr_reason res, tp_output = tr_output res,
              tp_error = tr_error res, tp_review_id = review_id\<rparr>, s3)))))"

definition spec_json :: "tool_spec \<Rightarrow> json" where
  "spec_json sp = JDict [(''name'', JStr (sp_name sp)), (''description'', JStr (sp_description sp)),
     (''parameters'', sp_parameters sp), (''risk_level'', JStr (sp_risk_level sp)),
     (''capability_required'', JStr (sp_capability sp))]"

definition list_tools_endpoint ::
  "api_config \<Rightarrow> 'v api_env \<Rightarrow> 'w registry \<Rightarrow> http_request \<Rightarrow> 'v api \<Rightarrow> (json, 'v api) outcome" where
  "list_tools_endpoint cf en reg rq s =
     and_then (internal_boundary cf en rq s) (\<lambda>_ s1. (Inr (JDict [(''tools'', JList (map spec_json (list_tools reg)))]), s1))"

definition gateway_providers :: "api_config \<Rightarrow> 'v api_env \<Rightarrow> http_request \<Rightarrow> 'v api \<Rightarrow> (json, 'v api) outcome" where
  "gateway_providers cf en rq s =
     and_then (internal_boundary cf en rq s) (\<lambda>_ s1.
       (Inr (JDict [(''providers'', JList (map JStr list_provider_names)), (''default_provider'', JStr (cf_default_provider cf))]), s1))"

section \<open>Lemmas\<close>

lemma on_fst_Inr_iff: "on_fst f s = (Inr a, t) \<longleftrightarrow> (\<exists>u. f (fst s) = (Inr a, u) \<and> t = (u, snd s))"
  by (cases "f (fst s)") (auto simp: on_fst_def)

text \<open>A call that returns wrote its event and left the world to the handler.\<close>

lemma run_tool_Inr_iff:
  "run_tool cf en reg p rid req s = (Inr res, t) \<longleftrightarrow>
     (\<exists>g a. execute_tool reg (pr_capability p) (tq_name req) (JDict (tq_arguments req)) (pr_tenant p) rid
              \<lparr>gw_audit = [], gw_world = snd s\<rparr> = (Inr res, g)
        \<and> write_tool_events cf en (gw_audit g) (fst s) = (Inr (), a) \<and> t = (a, gw_world g))"
  by (auto simp: run_tool_def and_then_Inr_iff on_fst_Inr_iff lift_error_def split: prod.splits sum.splits)

lemma write_one_event:
  assumes "write_tool_events cf en [e] s = (Inr (), t)"
  shows "ap_reviews t = ap_reviews s"
    and "ae_log_ok (en_audit en) (au_writes (ap_audit s)) \<Longrightarrow> \<exists>x. au_log (ap_audit t) = au_log (ap_audit s) @ [x]
      \<and> entry_get x ''event_type'' = JStr ''tool_call'' \<and> entry_get x ''decision'' = JStr (te_decision e)
      \<and> entry_get x ''tool'' = JStr (te_tool e) \<and> entry_get x ''request_id'' = JStr (te_request_id e)
      \<and> entry_get x ''tenant'' = JStr (te_tenant e)"
  using assms
  by (auto simp: log_tool_event_def audit_write_def entry_get_def lift_error_def and_then_def Let_def
      split: prod.splits sum.splits if_splits)

lemma enqueue_saved:
  assumes "enqueue uid now reason cap risk ten ph rid s = (Inr x, t)"
  shows "\<exists>dict. snd t = Doc (JDict dict) \<and> od_get dict uid = Some (record_dict x)
    \<and> rr_review_id x = uid \<and> rr_status x = ''PENDING'' \<and> rr_prompt_hash x = ph \<and> rr_tenant x = ten"
  using assms by (auto simp: enqueue_def rq_save_def Let_def split: json.splits)

section \<open>Properties\<close>

text \<open>
  C7. A tool runs only for a caller of sufficient rank, with accepted arguments and below HIGH
  risk, and every answered call is on the audit log.  A HIGH-risk call answers REVIEW with a
  queued record that holds the hash of the call, and then, as for BLOCK, the world the tools act
  on is as it was.
\<close>

theorem tool_endpoint_gated:
  assumes "tools_call cf en reg rq req (s, w) = (Inr a, (s', w'))"
    and "ae_log_ok (en_audit en) (au_writes (ap_audit s))"
  shows "\<exists>p. fst (resolve_principal (en_sha en) (en_keys en) (hr_authorization rq) None (ap_keys s)) = Inr p
    \<and> (auth_required (cf_auth_mode cf) \<longrightarrow> pr_authenticated p)
    \<and> (\<exists>e \<in> set (au_log (ap_audit s')). entry_get e ''event_type'' = JStr ''tool_call''
         \<and> entry_get e ''decision'' = JStr (tp_decision a) \<and> entry_get e ''tool'' = JStr (tq_name req)
         \<and> entry_get e ''tenant'' = JStr (pr_tenant p)
         \<and> entry_get e ''request_id'' = JStr (resolve_request_id cf (en_uuid en) rq))
    \<and> (if tp_decision a = ''ALLOW''
       then \<exists>sp h c k. od_get (rg_tools reg) (tq_name req) = Some sp \<and> od_get (rg_handlers reg) (tq_name req) = Some h
          \<and> capability_rank (pr_capability p) = Some c \<and> capability_rank (sp_capability sp) = Some k \<and> k \<le> c
          \<and> validate_arguments sp (JDict (tq_arguments req)) = Inr (True, ''ok'') \<and> sp_risk_level sp \<noteq> ''HIGH''
          \<and> w' = snd (h (tq_arguments req) w)
       else w' = w)
    \<and> (if tp_decision a = ''REVIEW''
       then tp_review_id a = Some (en_review_uuid en)
         \<and> (\<exists>dict. snd (ap_reviews s') = Doc (JDict dict)
              \<and> (\<exists>r. od_get dict (en_review_uuid en) = Some (record_dict r) \<and> rr_status r = ''PENDING''
                   \<and> rr_prompt_hash r = call_hash en req \<and> rr_tenant r = pr_tenant p))
       else tp_review_id a = None \<and> ap_reviews s' = ap_reviews s)"
proof -
  let ?rid = "resolve_request_id cf (en_uuid en) rq"
  obtain p tc s1 res s2 where b: "open_boundary cf en rq s = (Inr (p, tc), s1)"
    and r: "run_tool cf en reg p ?rid req (s1, w) = (Inr res, (s2, w'))"
    and v: "tool_review en p ?rid req res s2 = (Inr (tp_review_id a), s')"
    and a: "tp_decision a = tr_decision res"
    using assms(1) by (auto simp: tools_call_def Let_def and_then_Inr_iff on_fst_Inr_iff split: if_splits)
  obtain g where g: "execute_tool reg (pr_capability p) (tq_name req) (JDict (tq_arguments req)) (pr_tenant p) ?rid
      \<lparr>gw_audit = [], gw_world = w\<rparr> = (Inr res, g)" "write_tool_events cf en (gw_audit g) s1 = (Inr (), s2)" "gw_world g = w'"
    using r by (auto simp: run_tool_Inr_iff)
  obtain e where e: "gw_audit g = [e]" "te_decision e = tr_decision res" "te_tool e = tq_name req" "te_tenant e = pr_tenant p"
      "te_request_id e = ?rid"
    using execute_tool_facts [OF g(1)] by auto
  have same: "same_work s s1" using open_boundary_same [of s cf en rq] b by simp
  note one = write_one_event [OF g(2) [unfolded e(1)]]
  have v2: "ap_audit s' = ap_audit s2" using v by (auto simp: tool_review_def Let_def split: if_splits prod.splits)
  have log: "\<exists>x \<in> set (au_log (ap_audit s')). entry_get x ''event_type'' = JStr ''tool_call''
      \<and> entry_get x ''decision'' = JStr (tp_decision a) \<and> entry_get x ''tool'' = JStr (tq_name req)
      \<and> entry_get x ''tenant'' = JStr (pr_tenant p) \<and> entry_get x ''request_id'' = JStr ?rid"
    using one(2) assms(2) same e a v2 by (auto simp: same_work_def)
  have rev0: "ap_reviews s2 = ap_reviews s" using one(1) same by (simp add: same_work_def)
  have queue: "if tp_decision a = ''REVIEW''
       then tp_review_id a = Some (en_review_uuid en)
         \<and> (\<exists>dict. snd (ap_reviews s') = Doc (JDict dict)
              \<and> (\<exists>r. od_get dict (en_review_uuid en) = Some (record_dict r) \<and> rr_status r = ''PENDING''
                   \<and> rr_prompt_hash r = call_hash en req \<and> rr_tenant r = pr_tenant p))
       else tp_review_id a = None \<and> ap_reviews s' = ap_reviews s"
    using v a rev0
    by (auto simp: tool_review_def Let_def map_sum_Inr_iff dest!: enqueue_saved split: prod.splits if_splits)
  have world: "if tp_decision a = ''ALLOW''
       then \<exists>sp h c k. od_get (rg_tools reg) (tq_name req) = Some sp \<and> od_get (rg_handlers reg) (tq_name req) = Some h
          \<and> capability_rank (pr_capability p) = Some c \<and> capability_rank (sp_capability sp) = Some k \<and> k \<le> c
          \<and> validate_arguments sp (JDict (tq_arguments req)) = Inr (True, ''ok'') \<and> sp_risk_level sp \<noteq> ''HIGH''
          \<and> w' = snd (h (tq_arguments req) w)
       else w' = w"
    using conjunct2 [OF execute_tool_facts [OF g(1)]] g(3) a by (auto split: if_splits)
  show ?thesis
    using open_boundary_InrD [OF b] log queue world by (intro exI [of _ p]) (intro conjI; simp)
qed

text \<open>
  A tool call takes effect even if its audit record cannot be kept.  The event is written after
  the handler has run and outside the fail-closed wrapper: when SQLite is the read authority and
  its write fails, the request ends with 500, the tool's effect stays and no 503 asks for a retry.
\<close>

theorem tool_effect_without_record:
  assumes "open_boundary cf en rq s = (Inr (p, tc), s1)"
    and "execute_tool reg (pr_capability p) (tq_name req) (JDict (tq_arguments req)) (pr_tenant p) (resolve_request_id cf (en_uuid en) rq)
           \<lparr>gw_audit = [], gw_world = w\<rparr> = (Inr res, g)"
    and "bound_arguments_size (ae_dumps (en_audit en)) (tq_arguments req)"
    and "ac_sqlite_enabled (cf_audit cf)" "ac_read_from_sqlite (cf_audit cf)" "\<not> ae_db_ok (en_audit en) (au_writes (ap_audit s1))"
  shows "\<exists>e s'. tools_call cf en reg rq req (s, w) = (Inl (ServerError e), (s', gw_world g))"
proof -
  obtain ev where ev: "gw_audit g = [ev]" using execute_tool_facts [OF assms(2)] by auto
  obtain err t where "write_tool_events cf en [ev] s1 = (Inl (ServerError err), t)"
    using assms(4-6)
    by (simp add: log_tool_event_def audit_write_def mirror_to_sqlite_def store_write_def lift_error_def audit_columns_def Let_def)
  then show ?thesis
    using assms(1-3) ev by (simp add: tools_call_def run_tool_def on_fst_def del: write_tool_events.simps)
qed

section \<open>Witnesses\<close>

definition echo_call :: tool_request where
  "echo_call = \<lparr>tq_name = ''demo.echo'', tq_arguments = [(''text'', JStr ''hi'')]\<rparr>"

lemma echo_runs:
  "\<exists>res g. execute_tool demo_registry ''GENERAL'' ''demo.echo'' (JDict [(''text'', JStr ''hi'')]) ''default'' rid
     \<lparr>gw_audit = [], gw_world = fake_database\<rparr> = (Inr res, g) \<and> tr_decision res = ''ALLOW''"
proof -
  have sp: "od_get (rg_tools demo_registry) ''demo.echo'' = Some (demo_tool_specs ! 0)"
    "od_get (rg_handlers demo_registry) ''demo.echo'' = Some demo_echo"
    by (simp_all add: demo_registry_def register_demo_tools_def demo_tool_specs_def demo_handlers_def register_tool_def
        empty_registry_def)
  have "check_tool_access ''GENERAL'' (demo_tool_specs ! 0) = Inr (True, ''ok'')" by code_simp
  moreover have "validate_arguments (demo_tool_specs ! 0) (JDict [(''text'', JStr ''hi'')]) = Inr (True, ''ok'')" by code_simp
  moreover have "sp_risk_level (demo_tool_specs ! 0) = ''LOW''" by (simp add: demo_tool_specs_def)
  ultimately have "\<exists>d. decide_tool_call ''GENERAL'' (demo_tool_specs ! 0) (JDict [(''text'', JStr ''hi'')]) = Inr d \<and> tr_decision d = ''ALLOW''"
    by (simp add: decide_tool_call_def tool_verdict_def)
  then show ?thesis
    using sp by (auto simp: execute_tool_def get_tool_def Let_def split: prod.split sum.split)
qed

theorem tool_endpoint_gated_witness:
  "\<exists>a s' w'. tools_call example_config (example_env (NoReply []) True) demo_registry example_request echo_call (example_api, fake_database)
      = (Inr a, (s', w')) \<and> tp_decision a = ''ALLOW'' \<and> (\<exists>e \<in> set (au_log (ap_audit s')). entry_get e ''tool'' = JStr ''demo.echo'')"
proof -
  let ?en = "example_env (NoReply []) True"
  have rid: "resolve_request_id example_config (en_uuid ?en) example_request = ''req-1''" by code_simp
  obtain res g where r: "execute_tool demo_registry ''GENERAL'' ''demo.echo'' (JDict [(''text'', JStr ''hi'')]) ''default'' ''req-1''
     \<lparr>gw_audit = [], gw_world = fake_database\<rparr> = (Inr res, g)" "tr_decision res = ''ALLOW''"
    using echo_runs by blast
  then obtain e where e: "gw_audit g = [e]" using execute_tool_facts [OF r(1)] by auto
  have w: "\<exists>t. write_tool_events example_config ?en [e] s = (Inr (), t)" for s
  proof -
    have "fst (log_tool_event (cf_audit example_config) (en_audit ?en) e (ap_audit s)) = Inr ()"
      unfolding log_tool_event_def by (rule audit_write_jsonl_only) (simp add: example_config_def)
    then show ?thesis
      by (cases "log_tool_event (cf_audit example_config) (en_audit ?en) e (ap_audit s)") (simp add: lift_error_def)
  qed
  have "\<exists>a s' w'. tools_call example_config ?en demo_registry example_request echo_call (example_api, fake_database)
      = (Inr a, (s', w')) \<and> tp_decision a = ''ALLOW''"
  proof -
    obtain t where "write_tool_events example_config ?en [e] (example_api\<lparr>ap_tenants := \<lparr>ts_tenants = [], ts_loaded = True\<rparr>\<rparr>) = (Inr (), t)"
      using w by blast
    moreover have "bound_arguments_size (ae_dumps (en_audit ?en)) (tq_arguments echo_call)"
      by (simp add: bound_arguments_size_def example_env_def)
    moreover have "pr_capability example_principal = ''GENERAL''" "pr_tenant example_principal = ''default''"
      by (simp_all add: example_principal_def anonymous_def)
    ultimately show ?thesis
      using r rid e
      by (simp add: tools_call_def on_fst_def example_boundary run_tool_def echo_call_def tool_review_def lift_error_def Let_def)
  qed
  then obtain a s' w' where a: "tools_call example_config ?en demo_registry example_request echo_call (example_api, fake_database)
      = (Inr a, (s', w'))" "tp_decision a = ''ALLOW''" by blast
  have "ae_log_ok (en_audit ?en) (au_writes (ap_audit example_api))" by (simp add: example_env_def)
  from tool_endpoint_gated [OF a(1) this] a show ?thesis by (auto simp: echo_call_def)
qed

theorem tool_effect_without_record_witness:
  "\<exists>e s' w'. tools_call (example_config\<lparr>cf_audit := \<lparr>ac_sqlite_enabled = True, ac_read_from_sqlite = True, ac_fails_closed = True\<rparr>\<rparr>)
      (example_env (NoReply []) True) demo_registry example_request echo_call (example_api, fake_database)
      = (Inl (ServerError e), (s', w'))"
proof -
  let ?cf = "example_config\<lparr>cf_audit := \<lparr>ac_sqlite_enabled = True, ac_read_from_sqlite = True, ac_fails_closed = True\<rparr>\<rparr>"
  let ?en = "example_env (NoReply []) True" and ?s1 = "example_api\<lparr>ap_tenants := \<lparr>ts_tenants = [], ts_loaded = True\<rparr>\<rparr>"
  have b: "open_boundary ?cf ?en example_request example_api = (Inr (example_principal, default_tenant), ?s1)"
    by (simp add: open_boundary_def authenticate_def resolve_principal_def extract_bearer_def example_request_def
      example_env_def example_config_def example_api_def example_principal_def find_tenant_def resolve_tenant_def
      reject_suspended_and_rate_limit_def enforce_rate_limit_def ts_get_def ts_load_def new_tenant_store_def
      auth_required_def lift_error_def suspended_def default_tenant_def anonymous_def Let_def)
  obtain res g where r: "execute_tool demo_registry (pr_capability example_principal) (tq_name echo_call) (JDict (tq_arguments echo_call))
      (pr_tenant example_principal) (resolve_request_id ?cf (en_uuid ?en) example_request)
     \<lparr>gw_audit = [], gw_world = fake_database\<rparr> = (Inr res, g)"
    using echo_runs by (fastforce simp: example_principal_def anonymous_def echo_call_def)
  have "\<exists>e s'. tools_call ?cf ?en demo_registry example_request echo_call (example_api, fake_database) = (Inl (ServerError e), (s', gw_world g))"
    by (rule tool_effect_without_record [OF _ r])
      (simp_all add: b bound_arguments_size_def, simp_all add: example_env_def example_api_def)
  then show ?thesis by blast
qed

end
