(* ===== verification/Policy_Versioning.thy ===== *)
theory Policy_Versioning
  imports Policy "HOL-Library.Char_ord" "HOL-Library.List_Lexorder"
begin

text \<open>
  Snapshots and rollback of the live policy file, \<open>core/policy_versioning.py\<close>, over a small
  file system: a dictionary from paths to files and directories.  There are no links, and a file has one
  spelling of its path.

  \<open>sha\<close> is \<open>sha256(...).hexdigest()\<close> of a file's content, \<open>now\<close> the formatted UTC time.
  Deploy and rollback end with a reload of the policy store from the configured file.
\<close>

section \<open>The file system\<close>

datatype node = File string | Dir

type_synonym fs = "(string, node) odict"

definition join_path :: "string \<Rightarrow> string \<Rightarrow> string" where
  "join_path a b =
     (if b \<noteq> [] \<and> hd b = CHR ''/'' then b
      else if a = [] \<or> last a = CHR ''/'' then a @ b else a @ ''/'' @ b)"

definition parent_dir :: "string \<Rightarrow> string" where
  "parent_dir p = butlast (rev (dropWhile (\<lambda>c. c \<noteq> CHR ''/'') (rev p)))"

text \<open>What is at a path; an empty last component, "." and ".." name directories.\<close>

definition node_at :: "fs \<Rightarrow> string \<Rightarrow> node option" where
  "node_at f p =
     (if basename p \<in> {'''', ''.'', ''..''} then
        (if parent_dir p = [] \<or> od_get f (parent_dir p) = Some Dir then Some Dir else None)
      else od_get f p)"

text \<open>
  \<open>shutil.copy2\<close>: into a directory it keeps the base name; a file is not copied onto itself, and a
  directory cannot be opened.
\<close>

definition copy2 :: "string \<Rightarrow> string \<Rightarrow> fs \<Rightarrow> (py_error, unit) res \<times> fs" where
  "copy2 src dst f =
     (let dst' = (if node_at f dst = Some Dir then join_path dst (basename src) else dst) in
      if src = dst' \<and> node_at f src \<noteq> None then (Inl (OtherError ''SameFileError''), f)
      else case node_at f src of
        None \<Rightarrow> (Inl (FileNotFoundError src), f)
      | Some Dir \<Rightarrow> (Inl (IsADirectoryError src), f)
      | Some (File c) \<Rightarrow>
          if node_at f dst' = Some Dir then (Inl (IsADirectoryError dst'), f)
          else (Inr (), od_set dst' (File c) f))"

section \<open>Definitions from the code\<close>

definition versions_dir :: "string \<Rightarrow> fs \<Rightarrow> (py_error, unit) res \<times> fs" where
  "versions_dir d f =
     (case od_get f d of
        None \<Rightarrow> (Inr (), od_set d Dir f)
      | Some Dir \<Rightarrow> (Inr (), f)
      | Some (File c) \<Rightarrow> (Inl (OtherError ''FileExistsError''), f))"

definition file_hash :: "(string \<Rightarrow> string) \<Rightarrow> string \<Rightarrow> fs \<Rightarrow> (py_error, string) res" where
  "file_hash sha path f =
     (case node_at f path of
        Some (File c) \<Rightarrow> Inr (take 12 (sha c))
      | Some Dir \<Rightarrow> Inl (IsADirectoryError path)
      | None \<Rightarrow> Inl (FileNotFoundError path))"

definition version_name_of :: "string \<Rightarrow> string \<Rightarrow> string \<Rightarrow> string" where
  "version_name_of timestamp content_hash path =
     (let ext = (if splitext_ext path = [] then ''.json'' else splitext_ext path)
      in timestamp @ ''__'' @ content_hash @ ext)"

definition snapshot_policy ::
  "(string \<Rightarrow> string) \<Rightarrow> string \<Rightarrow> string \<Rightarrow> string \<Rightarrow> fs \<Rightarrow> (py_error, string option) res \<times> fs" where
  "snapshot_policy sha d now path f =
     (if node_at f path = None then (Inr None, f)
      else case file_hash sha path f of
             Inl e \<Rightarrow> (Inl e, f)
           | Inr content_hash \<Rightarrow>
               (let name = version_name_of now content_hash path in
                case versions_dir d f of
                  (Inl e, f1) \<Rightarrow> (Inl e, f1)
                | (Inr _, f1) \<Rightarrow>
                    (case copy2 path (join_path d name) f1 of
                       (Inl e, f2) \<Rightarrow> (Inl e, f2)
                     | (Inr _, f2) \<Rightarrow> (Inr (Some name), f2))))"

text \<open>The regular files directly under the directory, greatest name first.\<close>

definition list_versions :: "string \<Rightarrow> fs \<Rightarrow> (py_error, string list) res \<times> fs" where
  "list_versions d f =
     (case versions_dir d f of
        (Inl e, f1) \<Rightarrow> (Inl e, f1)
      | (Inr _, f1) \<Rightarrow>
          (Inr (rev (sort [basename p. (p, n) \<leftarrow> f1, p = join_path d (basename p) \<and> (\<exists>c. n = File c)])), f1))"

text \<open>The policy store's view of its file, and its reload.\<close>

definition rules_doc ::
  "(string \<Rightarrow> json option) \<Rightarrow> (string \<Rightarrow> json option) \<Rightarrow> string \<Rightarrow> fs \<Rightarrow> disk_doc" where
  "rules_doc json_load yaml_load rules_file f =
     (case node_at f rules_file of
        None \<Rightarrow> Missing
      | Some Dir \<Rightarrow> Unreadable
      | Some (File text) \<Rightarrow> policy_doc json_load yaml_load rules_file (Some text))"

text \<open>
  \<open>path\<close> is the explicit argument or, by default, the configured rules file; the reload always
  reads the configured one: \<open>rules\<close> is \<^const>\<open>rules_doc\<close> with its parsers and file.
\<close>

definition rollback_to ::
  "(string \<Rightarrow> string) \<Rightarrow> (fs \<Rightarrow> disk_doc) \<Rightarrow> string \<Rightarrow> string \<Rightarrow> string \<Rightarrow> string
   \<Rightarrow> fs \<times> policy_store \<Rightarrow> (py_error, unit) res \<times> (fs \<times> policy_store)" where
  "rollback_to sha rules d now version_name path s =
     (let (f, ps) = s; missing = FileNotFoundError (''No such policy version: '' @ version_name) in
      if basename version_name \<noteq> version_name then (Inl missing, s)
      else case versions_dir d f of
             (Inl e, f1) \<Rightarrow> (Inl e, (f1, ps))
           | (Inr _, f1) \<Rightarrow>
               (let src = join_path d version_name in
                if node_at f1 src = None then (Inl missing, (f1, ps))
                else case snapshot_policy sha d now path f1 of
                       (Inl e, f2) \<Rightarrow> (Inl e, (f2, ps))
                     | (Inr _, f2) \<Rightarrow>
                         (case copy2 src path f2 of
                            (Inl e, f3) \<Rightarrow> (Inl e, (f3, ps))
                          | (Inr _, f3) \<Rightarrow> (Inr (), (f3, reload_policies (rules f3) ps)))))"

definition deploy_policy ::
  "(string \<Rightarrow> string) \<Rightarrow> (fs \<Rightarrow> disk_doc) \<Rightarrow> string \<Rightarrow> string \<Rightarrow> string \<Rightarrow> string
   \<Rightarrow> fs \<times> policy_store \<Rightarrow> (py_error, string option) res \<times> (fs \<times> policy_store)" where
  "deploy_policy sha rules d now new_path live_path s =
     (let (f, ps) = s in
      case snapshot_policy sha d now live_path f of
        (Inl e, f1) \<Rightarrow> (Inl e, (f1, ps))
      | (Inr previous_version, f1) \<Rightarrow>
          (case copy2 new_path live_path f1 of
             (Inl e, f2) \<Rightarrow> (Inl e, (f2, ps))
           | (Inr _, f2) \<Rightarrow> (Inr previous_version, (f2, reload_policies (rules f2) ps))))"

section \<open>Paths\<close>

lemma basename_no_slash: "basename n = n \<longleftrightarrow> CHR ''/'' \<notin> set n"
proof
  assume "basename n = n"
  then have "takeWhile (\<lambda>c. c \<noteq> CHR ''/'') (rev n) = rev n" by (simp add: basename_def rev_swap)
  then show "CHR ''/'' \<notin> set n" by (auto simp: takeWhile_eq_all_conv)
next
  assume "CHR ''/'' \<notin> set n"
  then have "takeWhile (\<lambda>c. c \<noteq> CHR ''/'') (rev n) = rev n" by (auto simp: takeWhile_eq_all_conv)
  then show "basename n = n" by (simp only: basename_def rev_rev_ident)
qed

lemma join_basename:
  assumes "CHR ''/'' \<notin> set n" "d \<noteq> []" "last d \<noteq> CHR ''/''"
  shows "join_path d n = d @ ''/'' @ n" "basename (join_path d n) = n" "parent_dir (join_path d n) = d"
proof -
  show j: "join_path d n = d @ ''/'' @ n" using assms by (cases n) (auto simp: join_path_def)
  have t: "takeWhile (\<lambda>c. c \<noteq> CHR ''/'') (rev n @ CHR ''/'' # rev d) = rev n"
    using assms(1) by (subst takeWhile_append2) auto
  show "basename (join_path d n) = n" unfolding j by (simp add: basename_def t)
  have "dropWhile (\<lambda>c. c \<noteq> CHR ''/'') (rev n @ CHR ''/'' # rev d) = CHR ''/'' # rev d"
    using assms(1) by (subst dropWhile_append2) auto
  then show "parent_dir (join_path d n) = d" unfolding j by (simp add: parent_dir_def)
qed

lemma basename_slash_free: "CHR ''/'' \<notin> set (basename p)"
  by (auto simp: basename_def dest: set_takeWhileD)

definition plain_path :: "string \<Rightarrow> bool" where
  "plain_path p \<longleftrightarrow> basename p \<notin> {'''', ''.'', ''..''}"

lemma node_at_plain: "plain_path p \<Longrightarrow> node_at f p = od_get f p"
  by (simp add: node_at_def plain_path_def)

text \<open>A directory setting as the deployment gives it: not empty, no trailing slash.\<close>

definition dir_path :: "string \<Rightarrow> bool" where
  "dir_path d \<longleftrightarrow> d \<noteq> [] \<and> last d \<noteq> CHR ''/'' \<and> plain_path d"

text \<open>A path that is not directly inside the versions directory.\<close>

definition outside :: "string \<Rightarrow> string \<Rightarrow> bool" where
  "outside d p \<longleftrightarrow> p \<noteq> d \<and> (\<forall>n. CHR ''/'' \<notin> set n \<longrightarrow> join_path d n \<noteq> p)"

lemma version_name_plain:
  assumes "CHR ''/'' \<notin> set now" "CHR ''/'' \<notin> set h"
  shows "CHR ''/'' \<notin> set (version_name_of now h p)" "version_name_of now h p \<notin> {'''', ''.'', ''..''}"
proof -
  have e: "CHR ''/'' \<notin> set (splitext_ext p)"
    using basename_slash_free [of p]
    by (auto simp: splitext_ext_def Let_def dest!: set_takeWhileD set_dropWhileD)
  show "CHR ''/'' \<notin> set (version_name_of now h p)"
    using e assms by (auto simp: version_name_of_def Let_def)
  have "CHR ''_'' \<in> set (version_name_of now h p)" by (simp add: version_name_of_def Let_def)
  then show "version_name_of now h p \<notin> {'''', ''.'', ''..''}" by auto
qed

section \<open>Steps\<close>

lemma versions_dir_ok:
  "versions_dir d f = (Inr u, f1) \<Longrightarrow> od_get f1 d = Some Dir \<and> (\<forall>p. p \<noteq> d \<longrightarrow> od_get f1 p = od_get f p)"
  by (auto simp: versions_dir_def split: option.splits node.splits)

text \<open>
  Where snapshots work: names without slashes, a live file that is a plain path outside the
  versions directory, and no directory inside that directory.
\<close>

definition sane :: "(string \<Rightarrow> string) \<Rightarrow> string \<Rightarrow> string \<Rightarrow> bool" where
  "sane sha d path \<longleftrightarrow>
     dir_path d \<and> plain_path path \<and> outside d path \<and> (\<forall>c. CHR ''/'' \<notin> set (sha c))"

definition flat_dir :: "string \<Rightarrow> fs \<Rightarrow> bool" where
  "flat_dir d f \<longleftrightarrow> od_get f d \<in> {None, Some Dir}
     \<and> (\<forall>n. CHR ''/'' \<notin> set n \<longrightarrow> od_get f (join_path d n) \<noteq> Some Dir)"

lemma in_versions_dir:
  assumes "dir_path d" "CHR ''/'' \<notin> set n" "n \<notin> {'''', ''.'', ''..''}"
  shows "node_at f (join_path d n) = od_get f (join_path d n)" "join_path d n \<noteq> d"
proof -
  have "plain_path (join_path d n)"
    using join_basename [OF assms(2)] assms(1,3) by (simp add: plain_path_def dir_path_def)
  then show "node_at f (join_path d n) = od_get f (join_path d n)" by (rule node_at_plain)
  show "join_path d n \<noteq> d"
    using join_basename(1) [OF assms(2)] assms(1) by (simp add: dir_path_def)
qed

lemma snapshot_plain:
  assumes "sane sha d path" "CHR ''/'' \<notin> set now"
  shows "CHR ''/'' \<notin> set (version_name_of now (take 12 (sha c)) path)"
    "version_name_of now (take 12 (sha c)) path \<notin> {'''', ''.'', ''..''}"
proof -
  have "CHR ''/'' \<notin> set (take 12 (sha c))" using assms by (auto simp: sane_def dest: in_set_takeD)
  then show "CHR ''/'' \<notin> set (version_name_of now (take 12 (sha c)) path)"
    "version_name_of now (take 12 (sha c)) path \<notin> {'''', ''.'', ''..''}"
    using version_name_plain assms by (auto simp: sane_def)
qed

abbreviation snap_name :: "(string \<Rightarrow> string) \<Rightarrow> string \<Rightarrow> string \<Rightarrow> string \<Rightarrow> string" where
  "snap_name sha now path c \<equiv> version_name_of now (take 12 (sha c)) path"

lemma snapshot_file:
  assumes "sane sha d path" "CHR ''/'' \<notin> set now" "flat_dir d f" "od_get f path = Some (File c)"
  shows "\<exists>f2. snapshot_policy sha d now path f = (Inr (Some (snap_name sha now path c)), f2)
    \<and> od_get f2 d = Some Dir
    \<and> (\<forall>p. p \<noteq> d \<longrightarrow> od_get f2 p = (if p = join_path d (snap_name sha now path c) then Some (File c) else od_get f p))"
proof -
  let ?n = "snap_name sha now path c"
  have pp: "plain_path path" "path \<noteq> d" "dir_path d" using assms(1) by (auto simp: sane_def outside_def)
  obtain f1 where f1: "versions_dir d f = (Inr (), f1)"
    using assms(3) by (auto simp: versions_dir_def flat_dir_def)
  note v = versions_dir_ok [OF f1]
  note sp = snapshot_plain [OF assms(1,2), of c]
  note n = in_versions_dir [OF pp(3) sp]
  have src: "node_at f1 path = Some (File c)" using node_at_plain [OF pp(1)] v pp(2) assms(4) by simp
  have dst: "node_at f1 (join_path d ?n) \<noteq> Some Dir" using n v assms(3) sp(1) by (simp add: flat_dir_def)
  have other: "path \<noteq> join_path d ?n" using assms(1) sp(1) by (auto simp: sane_def outside_def)
  have "snapshot_policy sha d now path f = (Inr (Some ?n), od_set (join_path d ?n) (File c) f1)"
    using src dst other assms(4) node_at_plain [OF pp(1)]
    by (simp add: snapshot_policy_def file_hash_def f1 copy2_def Let_def)
  then show ?thesis using v n(2) by auto
qed

lemma snapshot_flat:
  assumes "sane sha d path" "CHR ''/'' \<notin> set now" "flat_dir d f" "od_get f path = Some (File c)"
    and "snapshot_policy sha d now path f = (r, f2)"
  shows "flat_dir d f2"
proof -
  have ne: "join_path d n \<noteq> d" if "CHR ''/'' \<notin> set n" for n
    using join_basename(1) [OF that] assms(1) by (simp add: sane_def dir_path_def)
  have "od_get f2 (join_path d n) \<noteq> Some Dir" if "CHR ''/'' \<notin> set n" for n
    using snapshot_file [OF assms(1-4)] assms(3,5) ne [OF that] that by (auto simp: flat_dir_def)
  then show ?thesis
    using snapshot_file [OF assms(1-4)] assms(5) by (auto simp: flat_dir_def)
qed

lemma copy2_file:
  assumes "node_at f src = Some (File c)" "plain_path dst" "od_get f dst \<noteq> Some Dir" "src \<noteq> dst"
  shows "copy2 src dst f = (Inr (), od_set dst (File c) f)"
  using assms by (simp add: copy2_def node_at_plain Let_def)

lemma deploy_step:
  assumes "sane sha d live" "CHR ''/'' \<notin> set now" "flat_dir d f"
    and "od_get f live = Some (File c0)" "od_get f new = Some (File c1)" "plain_path new" "outside d new" "new \<noteq> live"
  shows "\<exists>f2. deploy_policy sha rules d now new live (f, ps)
        = (Inr (Some (snap_name sha now live c0)), (f2, reload_policies (rules f2) ps))
    \<and> od_get f2 live = Some (File c1) \<and> od_get f2 d = Some Dir \<and> flat_dir d f2
    \<and> od_get f2 (join_path d (snap_name sha now live c0)) = Some (File c0)
    \<and> (\<forall>p. p \<noteq> live \<and> outside d p \<longrightarrow> od_get f2 p = od_get f p)"
proof -
  let ?n = "snap_name sha now live c0"
  from snapshot_file [OF assms(1-4)] obtain f1
    where s: "snapshot_policy sha d now live f = (Inr (Some ?n), f1)" "od_get f1 d = Some Dir"
      "\<And>p. p \<noteq> d \<Longrightarrow> od_get f1 p = (if p = join_path d ?n then Some (File c0) else od_get f p)" by auto
  note sp = snapshot_plain [OF assms(1,2), of c0]
  have ne: "live \<noteq> d" "new \<noteq> d" "live \<noteq> join_path d ?n" "new \<noteq> join_path d ?n" "plain_path live"
    "join_path d ?n \<noteq> d"
    using assms(1,7) sp in_versions_dir(2) [OF _ sp] by (auto simp: sane_def outside_def)
  have c: "copy2 new live f1 = (Inr (), od_set live (File c1) f1)"
    using s(3) ne assms(4-6,8) by (intro copy2_file) (auto simp: node_at_plain)
  have fl: "flat_dir d (od_set live (File c1) f1)"
    using snapshot_flat [OF assms(1-4) s(1)] ne(1) by (auto simp: flat_dir_def)
  have "od_get f1 p = od_get f p" if "outside d p" for p
    using s(3) that sp(1) by (auto simp: outside_def)
  then show ?thesis using s ne c fl by (auto simp: deploy_policy_def)
qed

text \<open>Deploying the live file itself takes a snapshot and then raises.\<close>

lemma deploy_onto_itself:
  assumes "sane sha d live" "CHR ''/'' \<notin> set now" "flat_dir d f" "od_get f live = Some (File c)"
  shows "\<exists>f2. deploy_policy sha rules d now live live (f, ps) = (Inl (OtherError ''SameFileError''), (f2, ps))
    \<and> od_get f2 (join_path d (snap_name sha now live c)) = Some (File c)"
proof -
  let ?n = "snap_name sha now live c"
  from snapshot_file [OF assms] obtain f1
    where s: "snapshot_policy sha d now live f = (Inr (Some ?n), f1)"
      "\<And>p. p \<noteq> d \<Longrightarrow> od_get f1 p = (if p = join_path d ?n then Some (File c) else od_get f p)" by auto
  have live: "plain_path live" "live \<noteq> d" "dir_path d" using assms(1) by (auto simp: sane_def outside_def)
  have "node_at f1 live = Some (File c)" using s(2) live(2) assms(4) by (simp add: node_at_plain [OF live(1)])
  then have "deploy_policy sha rules d now live live (f, ps) = (Inl (OtherError ''SameFileError''), (f1, ps))"
    by (simp add: deploy_policy_def s(1) copy2_def Let_def)
  then show ?thesis using s(2) in_versions_dir(2) [OF live(3) snapshot_plain [OF assms(1,2)]] by auto
qed

lemma rollback_step:
  assumes "sane sha d live" "CHR ''/'' \<notin> set now" "flat_dir d f" "od_get f d = Some Dir"
    and "od_get f live = Some (File c1)" "od_get f (join_path d v) = Some (File c0)"
    and "CHR ''/'' \<notin> set v" "v \<notin> {'''', ''.'', ''..''}"
  shows "\<exists>f2. rollback_to sha rules d now v live (f, ps) = (Inr (), (f2, reload_policies (rules f2) ps))
    \<and> od_get f2 live = Some (File (if v = snap_name sha now live c1 then c1 else c0))
    \<and> (\<forall>p. p \<noteq> live \<and> outside d p \<longrightarrow> od_get f2 p = od_get f p)"
proof -
  let ?n = "snap_name sha now live c1"
  have dp: "dir_path d" "plain_path live" "outside d live" using assms(1) by (auto simp: sane_def)
  have vd: "versions_dir d f = (Inr (), f)" using assms(4) by (simp add: versions_dir_def)
  from snapshot_file [OF assms(1-3,5)] obtain f1
    where s: "snapshot_policy sha d now live f = (Inr (Some ?n), f1)" "od_get f1 d = Some Dir"
      "\<And>p. p \<noteq> d \<Longrightarrow> od_get f1 p = (if p = join_path d ?n then Some (File c1) else od_get f p)" by auto
  note sp = snapshot_plain [OF assms(1,2), of c1]
  note nv = in_versions_dir [OF dp(1) assms(7,8)]
  have inj: "join_path d v = join_path d ?n \<longleftrightarrow> v = ?n"
    using join_basename(1) [OF assms(7)] join_basename(1) [OF sp(1)] dp(1) by (simp add: dir_path_def)
  let ?c = "if v = ?n then c1 else c0"
  have src: "node_at f1 (join_path d v) = Some (File ?c)"
    using nv s(3) [of "join_path d v"] assms(6) inj by auto
  have live: "live \<noteq> d" "od_get f1 live \<noteq> Some Dir"
    using s(3) [of live] dp(3) assms(5) sp(1) by (auto simp: outside_def)
  have other: "join_path d v \<noteq> live" using dp(3) assms(7) by (simp add: outside_def)
  have c: "copy2 (join_path d v) live f1 = (Inr (), od_set live (File ?c) f1)"
    by (rule copy2_file [OF src dp(2) live(2) other])
  have "rollback_to sha rules d now v live (f, ps) =
      (Inr (), (od_set live (File ?c) f1, reload_policies (rules (od_set live (File ?c) f1)) ps))"
    using assms(6,7) nv(1) by (simp add: rollback_to_def basename_no_slash vd s(1) c Let_def)
  moreover have "od_get f1 p = od_get f p" if "outside d p" for p
    using s(3) that sp(1) by (auto simp: outside_def)
  ultimately show ?thesis by auto
qed

section \<open>Properties\<close>

lemma reloaded_decision_disk:
  "fst (policy_decision d capability risk t (reload_policies disk ps))
   = fst (policy_decision d' capability risk t (reload_policies disk ps'))"
proof (cases "ps_usable (reload_policies disk ps)")
  case False
  then have "\<not> ps_usable (reload_policies disk ps')" using usable_iff by blast
  with False show ?thesis by (simp add: decision_cases)
next
  case True
  then obtain raw items where r: "disk = Doc (JDict raw)" "map_of raw ''tenants'' = Some (JDict items)"
    using usable_iff by blast
  have "ps_usable (reload_policies disk ps')" using True usable_iff by blast
  with True show ?thesis unfolding decision_cases r(1) reload_dict [OF r(2)] Let_def by simp
qed

section \<open>Properties\<close>

text \<open>
  C39. Deploy and roll back is a round trip: the version that a deployment of another file than the
  live one returns, rolled back to at any later time, restores the exact content of the live policy file and, for every
  capability, risk and tenant, the decision a load of that content gives, unless the
  rollback's own snapshot takes the same name for another content.
\<close>

theorem deploy_rollback_roundtrip:
  assumes "sane sha d live" "CHR ''/'' \<notin> set now1" "CHR ''/'' \<notin> set now2" "flat_dir d f"
    and "od_get f live = Some (File c0)" "od_get f new = Some (File c1)" "plain_path new" "outside d new" "new \<noteq> live"
    and "snap_name sha now1 live c0 = snap_name sha now2 live c1 \<longrightarrow> c0 = c1"
  shows "\<exists>v f1 ps1 f2 ps2.
      deploy_policy sha (rules_doc jl yl live) d now1 new live (f, ps) = (Inr (Some v), (f1, ps1))
    \<and> od_get f1 live = Some (File c1)
    \<and> rollback_to sha (rules_doc jl yl live) d now2 v live (f1, ps1) = (Inr (), (f2, ps2))
    \<and> od_get f2 live = Some (File c0)
    \<and> (\<forall>capability risk t. fst (policy_decision dd capability risk t ps2)
          = fst (policy_decision dd capability risk t (reload_policies (rules_doc jl yl live f) ps)))"
proof -
  let ?v = "snap_name sha now1 live c0" and ?r = "rules_doc jl yl live"
  from deploy_step [OF assms(1,2,4-9)] obtain f1 where f1:
    "deploy_policy sha ?r d now1 new live (f, ps) = (Inr (Some ?v), (f1, reload_policies (?r f1) ps))"
    "od_get f1 live = Some (File c1)" "od_get f1 d = Some Dir" "flat_dir d f1"
    "od_get f1 (join_path d ?v) = Some (File c0)" by blast
  have eq: "(if ?v = snap_name sha now2 live c1 then c1 else c0) = c0" using assms(10) by auto
  from rollback_step [OF assms(1,3) f1(4,3,2,5) snapshot_plain [OF assms(1,2), of c0]]
  obtain f2 where f2:
    "rollback_to sha ?r d now2 ?v live (f1, reload_policies (?r f1) ps)
       = (Inr (), (f2, reload_policies (?r f2) (reload_policies (?r f1) ps)))"
    "od_get f2 live = Some (File c0)" unfolding eq by blast
  have "?r f2 = ?r f"
    using assms(1,5) f2(2) by (simp add: rules_doc_def node_at_plain sane_def)
  then have "fst (policy_decision dd c r t (reload_policies (?r f2) (reload_policies (?r f1) ps)))
      = fst (policy_decision dd c r t (reload_policies (?r f) ps))" for c r t
    using reloaded_decision_disk by metis
  then show ?thesis using f1(1,2) f2 by blast
qed

theorem deploy_rollback_roundtrip_witness:
  "\<exists>v f1 ps1 f2 ps2.
     deploy_policy (\<lambda>c. ''abc'') (rules_doc (\<lambda>_. None) (\<lambda>_. None) ''live.json'') ''versions'' ''T1'' ''new.json'' ''live.json''
       ([(''live.json'', File ''old''), (''new.json'', File ''next'')], new_policy_store) = (Inr (Some v), (f1, ps1))
   \<and> rollback_to (\<lambda>c. ''abc'') (rules_doc (\<lambda>_. None) (\<lambda>_. None) ''live.json'') ''versions'' ''T2'' v ''live.json'' (f1, ps1)
       = (Inr (), (f2, ps2))
   \<and> od_get f2 ''live.json'' = Some (File ''old'')"
proof -
  let ?f = "[(''live.json'', File ''old''), (''new.json'', File ''next'')]"
  have bn: "basename ''live.json'' = ''live.json''" "basename ''new.json'' = ''new.json''"
      "basename ''versions'' = ''versions''"
    by (simp_all add: basename_no_slash)
  have plain: "plain_path ''live.json''" "plain_path ''new.json''" "plain_path ''versions''"
    by (simp_all add: plain_path_def bn)
  have ne: "join_path ''versions'' n \<noteq> p" if "CHR ''/'' \<notin> set n" "CHR ''/'' \<notin> set p" for n p
    using join_basename(1) [OF that(1), of "''versions''"] that(2) by auto
  have s: "sane (\<lambda>c. ''abc'') ''versions'' ''live.json''"
    using ne plain by (simp add: sane_def dir_path_def outside_def)
  have fl: "flat_dir ''versions'' ?f" using ne by (auto simp: flat_dir_def)
  have o: "outside ''versions'' ''new.json''" using ne by (simp add: outside_def)
  have nm: "snap_name (\<lambda>c. ''abc'') ''T1'' ''live.json'' c0 \<noteq> snap_name (\<lambda>c. ''abc'') ''T2'' ''live.json'' c1" for c0 c1
    by (simp add: version_name_of_def Let_def)
  show ?thesis
    using deploy_rollback_roundtrip [OF s _ _ fl _ _ plain(2) o _, of "''T1''" "''T2''" "''old''" "''next''"
        "\<lambda>_. None" "\<lambda>_. None" new_policy_store] nm
    by (simp del: split_paired_Ex) blast
qed

text \<open>
  A rollback never leaves the versions directory: a name with a path separator changes
  nothing and gets the error of a missing version; and when a rollback succeeds the live file
  holds the content of the named file of that directory (or the content it had), and every
  other path outside the directory is as before.
\<close>

theorem rollback_confined:
  assumes "sane sha d live" "CHR ''/'' \<notin> set now" "flat_dir d f" "od_get f d = Some Dir"
    and "od_get f live = Some (File c1)"
  shows "case rollback_to sha rules d now v live (f, ps) of (r, (f', ps')) \<Rightarrow>
      if CHR ''/'' \<in> set v
      then r = Inl (FileNotFoundError (''No such policy version: '' @ v)) \<and> f' = f \<and> ps' = ps
      else (\<forall>p. p \<noteq> live \<and> outside d p \<longrightarrow> od_get f' p = od_get f p)
        \<and> (case r of
             Inr _ \<Rightarrow> (\<exists>c. od_get f (join_path d v) = Some (File c) \<and> od_get f' live \<in> {Some (File c), Some (File c1)})
           | Inl _ \<Rightarrow> od_get f' live = Some (File c1) \<and> ps' = ps)"
proof (cases "CHR ''/'' \<in> set v")
  case True
  then have "basename v \<noteq> v" using basename_no_slash by blast
  then show ?thesis using True by (simp add: rollback_to_def Let_def)
next
  case False
  have dp: "dir_path d" "plain_path live" "outside d live" using assms(1) by (auto simp: sane_def)
  have vd: "versions_dir d f = (Inr (), f)" using assms(4) by (simp add: versions_dir_def)
  have bn: "basename v = v" using False basename_no_slash by blast
  note jb = join_basename [OF False, of d]
  show ?thesis
  proof (cases "v \<in> {'''', ''.'', ''..''}")
    case dots: True
    have isd: "node_at g (join_path d v) = Some Dir" if "od_get g d = Some Dir" for g
      using jb dp(1) dots that by (auto simp: node_at_def dir_path_def)
    from snapshot_file [OF assms(1-3,5)] obtain f1
      where s: "snapshot_policy sha d now live f = (Inr (Some (snap_name sha now live c1)), f1)" "od_get f1 d = Some Dir"
        "\<And>p. p \<noteq> d \<Longrightarrow> od_get f1 p = (if p = join_path d (snap_name sha now live c1) then Some (File c1) else od_get f p)"
      by auto
    have "plain_path live" "live \<noteq> d" "live \<noteq> join_path d (snap_name sha now live c1)"
    using assms(1) snapshot_plain(1) [OF assms(1,2), of c1] by (auto simp: sane_def outside_def)
    then have live: "node_at f1 live = Some (File c1)" using s(3) [of live] assms(5) by (simp add: node_at_plain)
    have "rollback_to sha rules d now v live (f, ps) = (Inl (IsADirectoryError (join_path d v)), (f1, ps))"
      using isd assms(4) s(2) dp(3) False live by (simp add: rollback_to_def bn vd s(1) copy2_def Let_def outside_def)
    moreover have "od_get f1 p = od_get f p" if "outside d p" for p
      using s(3) that snapshot_plain(1) [OF assms(1,2), of c1] by (auto simp: outside_def)
    ultimately show ?thesis using False dp(3) assms(5) by simp
  next
    case plain: False
    note nv = in_versions_dir [OF dp(1) False plain]
    show ?thesis
    proof (cases "od_get f (join_path d v)")
      case None
      then show ?thesis using False nv assms(5) by (simp add: rollback_to_def bn vd Let_def)
    next
      case (Some n)
      then obtain c0 where c0: "od_get f (join_path d v) = Some (File c0)"
        using assms(3) False by (cases n) (auto simp: flat_dir_def)
      from rollback_step [OF assms c0 False plain, of rules ps]
      show ?thesis using False c0 by auto
    qed
  qed
qed

theorem rollback_confined_witness:
  "case rollback_to (\<lambda>c. ''abc'') (\<lambda>_. Missing) ''versions'' ''T1'' ''../secret'' ''live.json''
       ([(''live.json'', File ''old''), (''versions'', Dir), (''secret'', File ''key'')], new_policy_store) of
     (r, (f', ps')) \<Rightarrow> isl r \<and> od_get f' ''live.json'' = Some (File ''old'')"
proof -
  let ?f = "[(''live.json'', File ''old''), (''versions'', Dir), (''secret'', File ''key'')]"
  have plain: "plain_path ''live.json''" "plain_path ''versions''"
    by (simp_all add: plain_path_def basename_no_slash [THEN iffD2])
  have ne: "join_path ''versions'' n \<noteq> p" if "CHR ''/'' \<notin> set n" "CHR ''/'' \<notin> set p" for n p
    using join_basename(1) [OF that(1), of "''versions''"] that(2) by auto
  have s: "sane (\<lambda>c. ''abc'') ''versions'' ''live.json''"
    using ne plain by (simp add: sane_def dir_path_def outside_def)
  have fl: "flat_dir ''versions'' ?f" using ne by (auto simp: flat_dir_def)
  show ?thesis
    using rollback_confined [where now = "''T1''" and ?c1.0 = "''old''" and rules = "\<lambda>_. Missing"
        and v = "''../secret''" and ps = new_policy_store, OF s _ fl]
    by (auto split: prod.splits)
qed

text \<open>
  The parent directory slips through the name check: rolling back to ".." is refused
  neither by the check nor by the existence test; it takes a snapshot first and then fails
  with \<open>IsADirectoryError\<close>, not with \<open>FileNotFoundError\<close>.
\<close>

theorem rollback_to_parent_snapshots_then_raises:
  assumes "sane sha d live" "CHR ''/'' \<notin> set now" "flat_dir d f" "od_get f d = Some Dir"
    and "od_get f live = Some (File c1)"
  shows "\<exists>f'. rollback_to sha rules d now ''..'' live (f, ps) = (Inl (IsADirectoryError (join_path d ''..'')), (f', ps))
    \<and> od_get f' (join_path d (snap_name sha now live c1)) = Some (File c1)"
proof -
  have dp: "dir_path d" using assms(1) by (auto simp: sane_def)
  have vd: "versions_dir d f = (Inr (), f)" using assms(4) by (simp add: versions_dir_def)
  have ns: "CHR ''/'' \<notin> set ''..''" by simp
  have isd: "node_at g (join_path d ''..'') = Some Dir" if "od_get g d = Some Dir" for g
    using join_basename [OF ns, of d] dp that by (auto simp: node_at_def dir_path_def)
  have bn: "basename ''..'' = ''..''" using basename_no_slash [of "''..''"] by simp
  from snapshot_file [OF assms(1-3,5)] obtain f1
    where s: "snapshot_policy sha d now live f = (Inr (Some (snap_name sha now live c1)), f1)" "od_get f1 d = Some Dir"
      "\<And>p. p \<noteq> d \<Longrightarrow> od_get f1 p = (if p = join_path d (snap_name sha now live c1) then Some (File c1) else od_get f p)"
    by auto
  have "plain_path live" "live \<noteq> d" "live \<noteq> join_path d (snap_name sha now live c1)"
    using assms(1) snapshot_plain(1) [OF assms(1,2), of c1] by (auto simp: sane_def outside_def)
  then have live: "node_at f1 live = Some (File c1)" using s(3) [of live] assms(5) by (simp add: node_at_plain)
  have "rollback_to sha rules d now ''..'' live (f, ps) = (Inl (IsADirectoryError (join_path d ''..'')), (f1, ps))"
    using isd assms(1,4) s(2) ns live by (simp add: rollback_to_def bn vd s(1) copy2_def Let_def sane_def outside_def)
  moreover have "join_path d (snap_name sha now live c1) \<noteq> d"
    by (rule in_versions_dir(2) [OF dp snapshot_plain [OF assms(1,2)]])
  ultimately show ?thesis using s(3) by simp
qed

theorem rollback_to_parent_snapshots_then_raises_witness:
  "\<exists>f'. rollback_to (\<lambda>c. ''abc'') (\<lambda>_. Missing) ''versions'' ''T1'' ''..'' ''live.json''
       ([(''live.json'', File ''old''), (''versions'', Dir)], new_policy_store)
     = (Inl (IsADirectoryError ''versions/..''), (f', new_policy_store))"
proof -
  let ?f = "[(''live.json'', File ''old''), (''versions'', Dir)]"
  have plain: "plain_path ''live.json''" "plain_path ''versions''"
    by (simp_all add: plain_path_def basename_no_slash [THEN iffD2])
  have ne: "join_path ''versions'' n \<noteq> p" if "CHR ''/'' \<notin> set n" "CHR ''/'' \<notin> set p" for n p
    using join_basename(1) [OF that(1), of "''versions''"] that(2) by auto
  have s: "sane (\<lambda>c. ''abc'') ''versions'' ''live.json''"
    using ne plain by (simp add: sane_def dir_path_def outside_def)
  have fl: "flat_dir ''versions'' ?f" using ne by (auto simp: flat_dir_def)
  show ?thesis
    using rollback_to_parent_snapshots_then_raises [where now = "''T1''" and ?c1.0 = "''old''"
        and rules = "\<lambda>_. Missing" and ps = new_policy_store, OF s _ fl]
    by (auto simp: join_path_def)
qed

end
