(* ===== verification/Control_Api.thy ===== *)
theory Control_Api
  imports Read_Api Tools_Api Policy_Versioning
begin

text \<open>
  The endpoints of \<open>api/main.py\<close> that change how the gateway decides: the policy editor, the review
  queue and the cache flush.

  \<open>policy_env\<close> holds the two parsers, the paths, the timestamp of a snapshot and the name
  \<open>tempfile\<close> picks, without its suffix; the second part of the state is the file system.
\<close>

section \<open>The policy editor\<close>

record policy_env =
  pe_json :: "string \<Rightarrow> json option"
  pe_yaml :: "string \<Rightarrow> json option"
  pe_rules_file :: string
  pe_versions_dir :: string
  pe_now :: string
  pe_tmp :: string
  pe_exn :: string

definition policy_suffix :: "policy_env \<Rightarrow> string" where
  "policy_suffix pe = (if splitext_ext (pe_rules_file pe) = [] then ''.json'' else splitext_ext (pe_rules_file pe))"

definition tmp_path :: "policy_env \<Rightarrow> string" where
  "tmp_path pe = pe_tmp pe @ policy_suffix pe"

definition live_rules :: "policy_env \<Rightarrow> fs \<Rightarrow> disk_doc" where
  "live_rules pe = rules_doc (pe_json pe) (pe_yaml pe) (pe_rules_file pe)"

definition candidate_doc :: "policy_env \<Rightarrow> string \<Rightarrow> disk_doc" where
  "candidate_doc pe content = policy_doc (pe_json pe) (pe_yaml pe) (tmp_path pe) (Some content)"

definition candidate_errors :: "policy_env \<Rightarrow> string \<Rightarrow> string list" where
  "candidate_errors pe content = validate_policy_file (tmp_path pe) (pe_exn pe) (candidate_doc pe content)"

definition require_internal ::
  "api_config \<Rightarrow> 'v api_env \<Rightarrow> http_request \<Rightarrow> 'v api \<times> fs \<Rightarrow> (principal, 'v api \<times> fs) outcome" where
  "require_internal cf en rq s = (let (r, a) = internal_boundary cf en rq (fst s) in (r, (a, snd s)))"

record policy_answer =
  pa_raw_text :: "string option"
  pa_content :: "json option"
  pa_versions :: "string list"

definition get_policy ::
  "api_config \<Rightarrow> 'v api_env \<Rightarrow> policy_env \<Rightarrow> http_request \<Rightarrow> 'v api \<times> fs \<Rightarrow> (policy_answer, 'v api \<times> fs) outcome" where
  "get_policy cf en pe rq s =
     and_then (require_internal cf en rq s) (\<lambda>_ (a, f).
       let versions = (\<lambda>raw content.
             case list_versions (pe_versions_dir pe) f of
               (Inl e, f1) \<Rightarrow> (Inl (ServerError e), (a, f1))
             | (Inr vs, f1) \<Rightarrow> (Inr \<lparr>pa_raw_text = raw, pa_content = content, pa_versions = vs\<rparr>, (a, f1)))
       in case live_rules pe f of
            Missing \<Rightarrow> versions None None
          | Unreadable \<Rightarrow> (Inl (Http 500 []), (a, f))
          | Doc j \<Rightarrow> versions (case node_at f (pe_rules_file pe) of Some (File t) \<Rightarrow> Some t | _ \<Rightarrow> None) (Some j))"

definition validate_policy ::
  "api_config \<Rightarrow> 'v api_env \<Rightarrow> policy_env \<Rightarrow> http_request \<Rightarrow> string \<Rightarrow> 'v api \<times> fs \<Rightarrow> (bool \<times> string list, 'v api \<times> fs) outcome" where
  "validate_policy cf en pe rq content s =
     and_then (require_internal cf en rq s) (\<lambda>_ (a, f).
       let f1 = od_set (tmp_path pe) (File content) f; errors = candidate_errors pe content
       in (Inr (errors = [], errors), (a, od_del (tmp_path pe) f1)))"

definition deploy_policy_endpoint ::
  "api_config \<Rightarrow> 'v api_env \<Rightarrow> policy_env \<Rightarrow> http_request \<Rightarrow> string \<Rightarrow> 'v api \<times> fs \<Rightarrow> (string option, 'v api \<times> fs) outcome" where
  "deploy_policy_endpoint cf en pe rq content s =
     and_then (require_internal cf en rq s) (\<lambda>_ (a, f).
       let f1 = od_set (tmp_path pe) (File content) f
       in if candidate_errors pe content \<noteq> [] then (Inl (Http 422 []), (a, od_del (tmp_path pe) f1))
          else
            let (r, (f2, ps)) = deploy_policy (en_sha en) (live_rules pe) (pe_versions_dir pe) (pe_now pe) (tmp_path pe)
                                  (pe_rules_file pe) (f1, ap_policy a)
            in (lift_error r, (a\<lparr>ap_policy := ps\<rparr>, od_del (tmp_path pe) f2)))"

definition rollback_policy_endpoint ::
  "api_config \<Rightarrow> 'v api_env \<Rightarrow> policy_env \<Rightarrow> http_request \<Rightarrow> string \<Rightarrow> 'v api \<times> fs \<Rightarrow> (string, 'v api \<times> fs) outcome" where
  "rollback_policy_endpoint cf en pe rq version s =
     and_then (require_internal cf en rq s) (\<lambda>_ (a, f).
       let (r, (f1, ps)) = rollback_to (en_sha en) (live_rules pe) (pe_versions_dir pe) (pe_now pe) version
                             (pe_rules_file pe) (f, ap_policy a);
           s' = (a\<lparr>ap_policy := ps\<rparr>, f1)
       in case r of
            Inr u \<Rightarrow> (Inr version, s')
          | Inl (FileNotFoundError m) \<Rightarrow> (Inl (Http 404 []), s')
          | Inl e \<Rightarrow> (Inl (ServerError e), s'))"

section \<open>The review queue\<close>

text \<open>
  \<open>ReviewStatusResponse(**record)\<close>: other keys are dropped; a required field that is missing or
  not text, or an optional one that is neither text nor null, fails validation.
\<close>

definition review_required :: "string list" where
  "review_required = [''review_id'', ''status'', ''reason'', ''capability'', ''risk'', ''tenant'', ''request_id'', ''created_at'']"

definition review_optional :: "string list" where
  "review_optional = [''resolved_at'', ''reviewer'', ''final_decision'']"

definition is_text :: "json \<Rightarrow> bool" where
  "is_text j = (case j of JStr x \<Rightarrow> True | _ \<Rightarrow> False)"

definition review_view :: "json \<Rightarrow> (py_error, entry) res" where
  "review_view r =
     (case r of
        JDict d \<Rightarrow>
          if list_all (\<lambda>k. is_text (entry_get d k)) review_required
             \<and> list_all (\<lambda>k. is_text (entry_get d k) \<or> entry_get d k = JNull) review_optional
          then Inr (map (\<lambda>k. (k, entry_get d k)) (review_required @ review_optional))
          else Inl (ValueError ''validation error'')
      | _ \<Rightarrow> Inl (TypeError ''argument after ** must be a mapping''))"

definition on_reviews ::
  "(rq_state \<Rightarrow> (py_error, 'a) res \<times> rq_state) \<Rightarrow> 'v api \<Rightarrow> (py_error, 'a) res \<times> 'v api" where
  "on_reviews f s = (let (r, q) = f (ap_reviews s) in (r, s\<lparr>ap_reviews := q\<rparr>))"

definition get_review_status ::
  "api_config \<Rightarrow> 'v api_env \<Rightarrow> http_request \<Rightarrow> string \<Rightarrow> 'v api \<Rightarrow> (entry, 'v api) outcome" where
  "get_review_status cf en rq review_id s =
     and_then (open_boundary cf en rq s) (\<lambda>_ s1.
       case on_reviews (rq_get review_id) s1 of
         (Inl e, s2) \<Rightarrow> (Inl (ServerError e), s2)
       | (Inr JNull, s2) \<Rightarrow> (Inl (Http 404 []), s2)
       | (Inr r, s2) \<Rightarrow> (lift_error (review_view r), s2))"

definition list_reviews :: "api_config \<Rightarrow> 'v api_env \<Rightarrow> http_request \<Rightarrow> 'v api \<Rightarrow> (json, 'v api) outcome" where
  "list_reviews cf en rq s =
     and_then (internal_boundary cf en rq s) (\<lambda>_ s1.
       let (r, s2) = on_reviews list_pending s1
       in (lift_error (bind_res r (\<lambda>rs. Inr (JDict [(''pending'', JList rs)]))), s2))"

text \<open>The request model admits two outcomes only.\<close>

definition review_answer :: "(py_error, json) res \<times> 'v api \<Rightarrow> (entry, 'v api) outcome" where
  "review_answer x =
     (case x of
        (Inr r, s) \<Rightarrow> (lift_error (review_view r), s)
      | (Inl (KeyError m), s) \<Rightarrow> (Inl (Http 404 []), s)
      | (Inl (ValueError m), s) \<Rightarrow> (Inl (Http 409 []), s)
      | (Inl e, s) \<Rightarrow> (Inl (ServerError e), s))"

definition resolve_review_endpoint ::
  "api_config \<Rightarrow> 'v api_env \<Rightarrow> http_request \<Rightarrow> string \<Rightarrow> string \<Rightarrow> 'v api \<Rightarrow> (entry, 'v api) outcome" where
  "resolve_review_endpoint cf en rq review_id outcome s =
     (if outcome \<notin> {''APPROVED'', ''REJECTED''} then (Inl (Http 422 []), s)
      else and_then (internal_boundary cf en rq s) (\<lambda>p s1.
        review_answer (on_reviews (resolve (en_iso_now en) review_id outcome (pr_key_id p)) s1)))"

definition flush_semantic_cache ::
  "api_config \<Rightarrow> 'v api_env \<Rightarrow> http_request \<Rightarrow> 'v api \<Rightarrow> (unit, 'v api) outcome" where
  "flush_semantic_cache cf en rq s =
     and_then (internal_boundary cf en rq s) (\<lambda>_ s1.
       (Inr (), s1\<lparr>ap_pipeline := (ap_pipeline s1)\<lparr>pl_cache := fc_flush (ck_cache_up (en_clock en)) (pl_cache (ap_pipeline s1))\<rparr>\<rparr>))"

section \<open>Lemmas\<close>

lemma require_internal_Inr_iff:
  "require_internal cf en rq s = (Inr p, t) \<longleftrightarrow> (\<exists>a. internal_boundary cf en rq (fst s) = (Inr p, a) \<and> t = (a, snd s))"
  by (cases "internal_boundary cf en rq (fst s)") (auto simp: require_internal_def)

lemma validator_accepts_dict:
  "validate_policy_file path exn disk = [] \<Longrightarrow> \<exists>raw. disk = Doc (JDict raw)"
  by (auto simp: validate_policy_file_def split: disk_doc.splits if_splits) (metis is_dict.elims(2))

lemma candidate_doc_wf:
  assumes "candidate_doc pe content = Doc j"
    and "\<forall>t k. pe_json pe t = Some k \<longrightarrow> json_wf k" "\<forall>t k. pe_yaml pe t = Some k \<longrightarrow> json_wf k"
  shows "json_wf j"
  using assms by (auto simp: candidate_doc_def policy_doc_def parse_policy_file_def split: option.splits if_splits)

text \<open>The temporary file is parsed as the live one will be.\<close>

lemma same_parser:
  assumes "splitext_ext (tmp_path pe) = policy_suffix pe" "node_at f (pe_rules_file pe) = Some (File content)"
  shows "live_rules pe f = candidate_doc pe content"
proof -
  have "str_lower ''.json'' \<notin> {''.yaml'', ''.yml''}" "str_lower [] \<notin> {''.yaml'', ''.yml''}" by code_simp+
  then show ?thesis
    using assms
    by (auto simp: live_rules_def rules_doc_def candidate_doc_def policy_doc_def parse_policy_file_def policy_suffix_def)
qed

lemma not_internal_refused:
  assumes "fst (resolve_principal (en_sha en) (en_keys en) (hr_authorization rq) None (ap_keys s)) = Inr p"
    and "pr_capability p \<noteq> ''INTERNAL''"
  shows "\<exists>s1. internal_boundary cf en rq s = (Inl (Http 403 []), s1) \<and> same_work s s1
    \<and> ap_limiter s1 = ap_limiter s \<and> ap_redis s1 = ap_redis s"
  using assms internal_boundary_same [of s cf en rq]
  by (auto simp: internal_boundary_def authenticate_def lift_error_def split: prod.splits)

section \<open>Properties\<close>

text \<open>
  A deployed policy is the submitted one, checked, and enforced at once.  When a deployment
  succeeds, the validator found no error, the live file holds the submitted text, the text it
  replaced is kept under the returned version name, the temporary file is gone, and every decision
  from then on is the action the text states.
\<close>

theorem deploy_enforces_candidate:
  assumes "deploy_policy_endpoint cf en pe rq content (s, f) = (Inr previous, (s', f'))"
    and "sane (en_sha en) (pe_versions_dir pe) (pe_rules_file pe)" "CHR ''/'' \<notin> set (pe_now pe)" "flat_dir (pe_versions_dir pe) f"
    and "od_get f (pe_rules_file pe) = Some (File old)"
    and "plain_path (tmp_path pe)" "outside (pe_versions_dir pe) (tmp_path pe)" "tmp_path pe \<noteq> pe_rules_file pe"
    and "splitext_ext (tmp_path pe) = policy_suffix pe"
    and "\<forall>t k. pe_json pe t = Some k \<longrightarrow> json_wf k" "\<forall>t k. pe_yaml pe t = Some k \<longrightarrow> json_wf k"
  shows "candidate_errors pe content = [] \<and> od_get f' (pe_rules_file pe) = Some (File content) \<and> od_get f' (tmp_path pe) = None
    \<and> (\<exists>v. previous = Some v \<and> od_get f' (join_path (pe_versions_dir pe) v) = Some (File old))
    \<and> (\<exists>raw items. candidate_doc pe content = Doc (JDict raw) \<and> map_of raw ''tenants'' = Some (JDict items)
        \<and> (\<forall>d tenant capability risk. fst (fst (policy_decision d capability risk tenant (ap_policy s')))
             = written_action raw items tenant capability risk))"
proof -
  let ?d = "pe_versions_dir pe" and ?live = "pe_rules_file pe" and ?tmp = "tmp_path pe"
  let ?f1 = "od_set ?tmp (File content) f"
  obtain a p where b: "internal_boundary cf en rq s = (Inr p, a)"
    and run: "(if candidate_errors pe content \<noteq> [] then (Inl (Http 422 []), (a, od_del ?tmp ?f1))
      else let (r, (f2, ps)) = deploy_policy (en_sha en) (live_rules pe) ?d (pe_now pe) ?tmp ?live (?f1, ap_policy a)
           in (lift_error r, (a\<lparr>ap_policy := ps\<rparr>, od_del ?tmp f2))) = (Inr previous, (s', f'))"
    using assms(1) by (auto simp: deploy_policy_endpoint_def and_then_Inr_iff require_internal_Inr_iff Let_def)
  have errors: "candidate_errors pe content = []" using run by (auto split: if_splits)
  have tmp_out: "\<And>n. CHR ''/'' \<notin> set n \<Longrightarrow> join_path ?d n \<noteq> ?tmp" "?tmp \<noteq> ?d" using assms(7) by (auto simp: outside_def)
  have flat: "flat_dir ?d ?f1" using assms(4) tmp_out by (auto simp: flat_dir_def)
  have "od_get ?f1 ?live = Some (File old)" using assms(5,8) by simp
  from deploy_step [OF assms(2,3) flat this _ assms(6,7,8), of content "live_rules pe" "ap_policy a"] obtain f2 where
    step: "deploy_policy (en_sha en) (live_rules pe) ?d (pe_now pe) ?tmp ?live (?f1, ap_policy a)
        = (Inr (Some (snap_name (en_sha en) (pe_now pe) ?live old)), (f2, reload_policies (live_rules pe f2) (ap_policy a)))"
      "od_get f2 ?live = Some (File content)"
      "od_get f2 (join_path ?d (snap_name (en_sha en) (pe_now pe) ?live old)) = Some (File old)"
    by auto
  have out: "previous = Some (snap_name (en_sha en) (pe_now pe) ?live old)" "f' = od_del ?tmp f2"
      "ap_policy s' = reload_policies (live_rules pe f2) (ap_policy a)"
    using run errors step(1) by (auto simp: lift_error_def)
  have "plain_path ?live" using assms(2) by (simp add: sane_def)
  then have "node_at f2 ?live = Some (File content)" using step(2) by (simp add: node_at_plain)
  from same_parser [OF assms(9) this] have doc: "live_rules pe f2 = candidate_doc pe content" .
  obtain raw where raw: "candidate_doc pe content = Doc (JDict raw)"
    using validator_accepts_dict errors unfolding candidate_errors_def by blast
  have wf: "json_wf (JDict raw)" by (rule candidate_doc_wf [OF raw assms(10,11)])
  have accepted: "validate_policy_file ?tmp (pe_exn pe) (Doc (JDict raw)) = []" using errors raw by (simp add: candidate_errors_def)
  obtain items where i0: "map_of raw ''tenants'' = Some (JDict items)"
    using validated_policy_facts [OF accepted wf] by blast
  have "fst (fst (policy_decision d c r t (ap_policy s'))) = written_action raw items t c r" for d t c r
    using validated_policy_facts [OF accepted wf, of d "ap_policy a"] i0 unfolding out(3) doc raw by auto
  note items = i0 this
  have "join_path ?d (snap_name (en_sha en) (pe_now pe) ?live old) \<noteq> ?tmp"
    using tmp_out(1) snapshot_plain(1) [OF assms(2,3)] by blast
  then show ?thesis using errors step out assms(8) raw items by auto
qed

text \<open>
  A candidate with an error changes nothing: the deployment is refused with 422, and the live
  file, the versions and the policy in force are as they were.
\<close>

theorem invalid_candidate_changes_nothing:
  assumes "candidate_errors pe content \<noteq> []" "internal_boundary cf en rq s = (Inr p, a)" "od_get f (tmp_path pe) = None"
  shows "\<exists>f'. deploy_policy_endpoint cf en pe rq content (s, f) = (Inl (Http 422 []), (a, f')) \<and> (\<forall>x. od_get f' x = od_get f x)
    \<and> ap_policy a = ap_policy s"
  using assms internal_boundary_same [of s cf en rq]
  by (auto simp: deploy_policy_endpoint_def require_internal_def same_work_def Let_def)

text \<open>
  C12. The operator's endpoints are closed to everyone else.  A caller without INTERNAL capability
  gets 403 from every endpoint of the policy editor, from the reviewers' queue and its resolution,
  from the cache flush, the raw log, the tool catalogue and the list of backends; no file, policy,
  review, cache entry or audit record changes, and no rate token is spent.
\<close>

theorem internal_endpoints_closed:
  assumes "fst (resolve_principal (en_sha en) (en_keys en) (hr_authorization rq) None (ap_keys s)) = Inr p"
    and "pr_capability p \<noteq> ''INTERNAL''"
  shows "\<exists>s1. same_work s s1 \<and> ap_limiter s1 = ap_limiter s \<and> ap_redis s1 = ap_redis s
    \<and> deploy_policy_endpoint cf en pe rq content (s, f) = (Inl (Http 403 []), (s1, f))
    \<and> rollback_policy_endpoint cf en pe rq version (s, f) = (Inl (Http 403 []), (s1, f))
    \<and> validate_policy cf en pe rq content (s, f) = (Inl (Http 403 []), (s1, f))
    \<and> get_policy cf en pe rq (s, f) = (Inl (Http 403 []), (s1, f))
    \<and> list_reviews cf en rq s = (Inl (Http 403 []), s1)
    \<and> (outcome \<in> {''APPROVED'', ''REJECTED''} \<longrightarrow> resolve_review_endpoint cf en rq rid outcome s = (Inl (Http 403 []), s1))
    \<and> flush_semantic_cache cf en rq s = (Inl (Http 403 []), s1)
    \<and> raw_logs cf en le rq requested limit event_type s = (Inl (Http 403 []), s1)
    \<and> list_tools_endpoint cf en reg rq s = (Inl (Http 403 []), s1)
    \<and> gateway_providers cf en rq s = (Inl (Http 403 []), s1)"
proof -
  obtain s1 where s1: "internal_boundary cf en rq s = (Inl (Http 403 []), s1)" "same_work s s1" "ap_limiter s1 = ap_limiter s" "ap_redis s1 = ap_redis s"
    using not_internal_refused [OF assms] by blast
  then have "require_internal cf en rq (s, f) = (Inl (Http 403 []), (s1, f))" by (simp add: require_internal_def)
  then show ?thesis
    using s1
    by (intro exI [of _ s1])
      (simp add: deploy_policy_endpoint_def rollback_policy_endpoint_def validate_policy_def get_policy_def list_reviews_def
        resolve_review_endpoint_def flush_semantic_cache_def raw_logs_def list_tools_endpoint_def gateway_providers_def)
qed

text \<open>
  Resolving a review is final.  When the endpoint answers, the caller is INTERNAL, the record
  was pending and is now saved with the outcome, the caller's key and the decision that follows
  from it (ALLOW for APPROVED, BLOCK for REJECTED), which is what the caller is shown; resolving
  it again, by anyone and either way, is refused with 409.
\<close>

theorem review_resolution_is_final:
  assumes "resolve_review_endpoint cf en rq i outcome s = (Inr view, s')"
  shows "\<exists>p r. fst (resolve_principal (en_sha en) (en_keys en) (hr_authorization rq) None (ap_keys s)) = Inr p
    \<and> pr_capability p = ''INTERNAL'' \<and> outcome \<in> {''APPROVED'', ''REJECTED''}
    \<and> (\<exists>d old. loaded_records (ap_reviews s) = JDict d \<and> od_get d i = Some (JDict old)
         \<and> map_of old ''status'' = Some (JStr ''PENDING''))
    \<and> settled i (JDict r) (ap_reviews s')
    \<and> map_of r ''status'' = Some (JStr outcome) \<and> map_of r ''reviewer'' = Some (JStr (pr_key_id p))
    \<and> map_of r ''final_decision'' = Some (JStr (if outcome = ''APPROVED'' then ''ALLOW'' else ''BLOCK''))
    \<and> (\<forall>k \<in> {''status'', ''reviewer'', ''final_decision''}. map_of view k = map_of r k)
    \<and> (\<forall>now o' who. \<exists>m. fst (resolve now i o' who (ap_reviews s')) = Inl (ValueError m))"
proof -
  have oc: "outcome \<in> {''APPROVED'', ''REJECTED''}" using assms by (simp add: resolve_review_endpoint_def split: if_splits)
  obtain p s1 where b: "internal_boundary cf en rq s = (Inr p, s1)"
    and run: "review_answer (on_reviews (resolve (en_iso_now en) i outcome (pr_key_id p)) s1) = (Inr view, s')"
    using assms oc by (auto simp: resolve_review_endpoint_def and_then_Inr_iff)
  obtain res q where rq: "resolve (en_iso_now en) i outcome (pr_key_id p) (ap_reviews s1) = (res, q)" by (cases "resolve (en_iso_now en) i outcome (pr_key_id p) (ap_reviews s1)")
  have "\<not> isl res"
    using run by (cases res) (auto simp: review_answer_def on_reviews_def rq split: py_error.splits)
  then obtain rec where rec: "res = Inr rec" by (cases res) auto
  have v: "review_view rec = Inr view" "ap_reviews s' = q"
    using run by (auto simp: review_answer_def on_reviews_def rq rec lift_error_Inr_iff)
  note ok = resolve_success [OF rq [unfolded rec]]
  obtain r where r: "rec = JDict r" using ok by (auto simp: final_record_def)
  obtain d where d: "rq_records (rq_load False (snd (ap_reviews s1)) (fst (ap_reviews s1))) = JDict d"
    using resolve_dict [OF rq [unfolded rec]] by blast
  have rev0: "ap_reviews s1 = ap_reviews s" using internal_boundary_same [of s cf en rq] b by (simp add: same_work_def)
  have old: "\<exists>d old. loaded_records (ap_reviews s) = JDict d \<and> od_get d i = Some (JDict old) \<and> map_of old ''status'' = Some (JStr ''PENDING'')"
    using resolve_InrD [OF rq [unfolded rec] d] d rev0 by (auto simp: loaded_records_def)
  have fields: "map_of r ''status'' = Some (JStr outcome)" "map_of r ''reviewer'' = Some (JStr (pr_key_id p))"
    "map_of r ''final_decision'' = Some (JStr (if outcome = ''APPROVED'' then ''ALLOW'' else ''BLOCK''))"
    using ok r by (simp_all add: resolution_to_decision_def)
  have shown: "map_of view k = map_of r k" if "k \<in> {''status'', ''reviewer'', ''final_decision''}" for k
    using v(1) r that fields
    by (auto simp: review_view_def map_of_cols entry_get_def review_required_def review_optional_def split: if_splits)
  have again: "\<exists>m. fst (resolve now i o' who q) = Inl (ValueError m)" for now o' who
    using settled_resolve ok by blast
  show ?thesis
    using internal_boundary_InrD [OF b] oc old fields shown again ok r v(2)
    by (intro exI [of _ p] exI [of _ r]) auto
qed

section \<open>Witnesses\<close>

text \<open>An operator's key, two policy files by name, and a parser that knows the texts it is given.\<close>

definition operator_env :: "nat api_env" where
  "operator_env = (example_env (NoReply []) True)\<lparr>en_sha := (\<lambda>t. ''abc'')\<rparr>"

definition operator_request :: http_request where
  "operator_request = \<lparr>hr_authorization = Some ''Bearer op'', hr_request_id = ''req-2'', hr_forwarded = [], hr_peer = None\<rparr>"

definition operator_api :: "nat api" where
  "operator_api = example_api\<lparr>ap_keys := \<lparr>ks_keys = [(''abc'', \<lparr>gr_capability = ''INTERNAL'', gr_tenant = ''default'', gr_key_id = ''op-1''\<rparr>)],
     ks_loaded = True\<rparr>\<rparr>"

definition operator :: principal where
  "operator = \<lparr>pr_capability = ''INTERNAL'', pr_tenant = ''default'', pr_key_id = ''op-1'', pr_authenticated = True,
     pr_reason = ''verified api key''\<rparr>"

definition example_policy_env :: policy_env where
  "example_policy_env =
     \<lparr>pe_json = (\<lambda>t. if t = ''new'' then (case example_policy of Doc j \<Rightarrow> Some j | _ \<Rightarrow> None) else None), pe_yaml = (\<lambda>t. None),
      pe_rules_file = ''live.json'', pe_versions_dir = ''versions'', pe_now = ''T1'', pe_tmp = ''tmp1'', pe_exn = []\<rparr>"

lemma operator_resolved:
  "resolve_principal (en_sha operator_env) (en_keys operator_env) (hr_authorization operator_request) None (ap_keys operator_api)
     = (Inr operator, ap_keys operator_api)"
proof -
  have "extract_bearer (Some ''Bearer op'') = ''op''" by code_simp
  moreover have "is_ascii ''abc''" by code_simp
  ultimately show ?thesis
    by (simp add: resolve_principal_def operator_request_def operator_api_def operator_env_def ks_lookup_def ks_load_def
        compare_digest_def operator_def Let_def)
qed

lemma operator_boundary:
  assumes "ap_keys s = ap_keys operator_api" "ap_tenants s = new_tenant_store"
  shows "internal_boundary example_config operator_env operator_request s
     = (Inr operator, s\<lparr>ap_tenants := \<lparr>ts_tenants = [], ts_loaded = True\<rparr>\<rparr>)"
proof -
  have a: "authenticate operator_env operator_request s = (Inr operator, s)"
    using operator_resolved assms(1) [symmetric] by (simp add: authenticate_def lift_error_def)
  have t: "find_tenant operator_env (pr_tenant operator) s = (Inr default_tenant, s\<lparr>ap_tenants := \<lparr>ts_tenants = [], ts_loaded = True\<rparr>\<rparr>)"
    by (simp add: find_tenant_def assms(2) resolve_tenant_def ts_get_def ts_load_def new_tenant_store_def lift_error_def
        operator_def operator_env_def example_env_def)
  have "\<not> suspended default_tenant" "\<not> cf_rate_enabled example_config" "pr_capability operator = ''INTERNAL''"
    by (simp_all add: suspended_def default_tenant_def example_config_def operator_def)
  then show ?thesis
    by (simp add: internal_boundary_def a reject_suspended_and_rate_limit_def t enforce_rate_limit_def)
qed

lemma example_tmp: "tmp_path example_policy_env = ''tmp1.json''" "policy_suffix example_policy_env = ''.json''"
  by (simp_all add: tmp_path_def policy_suffix_def example_policy_env_def, code_simp+)

lemma example_candidate: "candidate_errors example_policy_env ''new'' = []" "candidate_errors example_policy_env ''bad'' \<noteq> []"
  by code_simp+

theorem deploy_enforces_candidate_witness:
  "\<exists>v s' f'. deploy_policy_endpoint example_config operator_env example_policy_env operator_request ''new''
      (operator_api, [(''live.json'', File ''old'')]) = (Inr (Some v), (s', f'))
     \<and> od_get f' (join_path ''versions'' v) = Some (File ''old'')
     \<and> fst (fst (policy_decision Missing ''GENERAL'' ''HIGH'' ''acme'' (ap_policy s'))) = ''BLOCK''"
proof -
  let ?pe = example_policy_env and ?f = "[(''live.json'', File ''old'')]" and ?en = operator_env
  have bn: "basename ''live.json'' = ''live.json''" "basename ''tmp1.json'' = ''tmp1.json''" "basename ''versions'' = ''versions''"
    by (simp_all add: basename_no_slash)
  have plain: "plain_path ''live.json''" "plain_path ''tmp1.json''" "plain_path ''versions''" by (simp_all add: plain_path_def bn)
  have ne: "join_path ''versions'' n \<noteq> p" if "CHR ''/'' \<notin> set n" "CHR ''/'' \<notin> set p" for n p
    using join_basename(1) [OF that(1), of "''versions''"] that(2) by auto
  have pe: "pe_rules_file ?pe = ''live.json''" "pe_versions_dir ?pe = ''versions''" "pe_now ?pe = ''T1''" by (simp_all add: example_policy_env_def)
  have sane: "sane (en_sha ?en) (pe_versions_dir ?pe) (pe_rules_file ?pe)"
    using ne plain by (simp add: sane_def dir_path_def outside_def pe operator_env_def)
  have flat: "flat_dir (pe_versions_dir ?pe) ?f" "flat_dir ''versions'' (od_set ''tmp1.json'' (File ''new'') ?f)"
    using ne by (auto simp: flat_dir_def pe)
  have out: "outside (pe_versions_dir ?pe) (tmp_path ?pe)" using ne by (simp add: outside_def pe example_tmp)
  have parsers: "\<forall>t k. pe_json ?pe t = Some k \<longrightarrow> json_wf k" "\<forall>t k. pe_yaml ?pe t = Some k \<longrightarrow> json_wf k"
    by (auto simp: example_policy_env_def example_policy_def split: if_splits)
  obtain f2 ps where "deploy_policy (en_sha ?en) (live_rules ?pe) ''versions'' ''T1'' ''tmp1.json'' ''live.json''
      (od_set ''tmp1.json'' (File ''new'') ?f, ap_policy operator_api)
      = (Inr (Some (snap_name (en_sha ?en) ''T1'' ''live.json'' ''old'')), (f2, ps))"
    using deploy_step [OF sane [unfolded pe] _ flat(2) _ _ plain(2) out [unfolded pe example_tmp] _, of "''T1''" "''old''" "''new''"
      "live_rules ?pe" "ap_policy operator_api"] by auto
  then obtain v s' f' where d: "deploy_policy_endpoint example_config ?en ?pe operator_request ''new'' (operator_api, ?f)
      = (Inr (Some v), (s', f'))"
    using operator_boundary [of operator_api] example_candidate
    by (simp add: deploy_policy_endpoint_def require_internal_def operator_api_def example_api_def pe example_tmp lift_error_def Let_def)
  from deploy_enforces_candidate [OF d sane _ flat(1) _ _ out _ _ parsers, of "''old''"]
  obtain raw items where e: "od_get f' (join_path ''versions'' v) = Some (File ''old'')"
    "candidate_doc ?pe ''new'' = Doc (JDict raw)" "map_of raw ''tenants'' = Some (JDict items)"
    "fst (fst (policy_decision Missing ''GENERAL'' ''HIGH'' ''acme'' (ap_policy s'))) = written_action raw items ''acme'' ''GENERAL'' ''HIGH''"
    using plain by (auto simp: pe example_tmp splitext_ext_def bn)
  have "candidate_doc ?pe ''new'' = example_policy" by code_simp
  then have "raw = [(''tenants'', JDict [(''default'', JDict [(''policies'', JDict
     [(''GENERAL'', JDict [(''LOW'', JStr ''ALLOW''), (''HIGH'', JStr ''BLOCK'')])])])])]"
    "items = [(''default'', JDict [(''policies'', JDict [(''GENERAL'', JDict [(''LOW'', JStr ''ALLOW''), (''HIGH'', JStr ''BLOCK'')])])])]"
    using e(2,3) by (simp_all add: example_policy_def)
  moreover have "written_action [(''tenants'', JDict [(''default'', JDict [(''policies'', JDict
     [(''GENERAL'', JDict [(''LOW'', JStr ''ALLOW''), (''HIGH'', JStr ''BLOCK'')])])])])]
     [(''default'', JDict [(''policies'', JDict [(''GENERAL'', JDict [(''LOW'', JStr ''ALLOW''), (''HIGH'', JStr ''BLOCK'')])])])]
     ''acme'' ''GENERAL'' ''HIGH'' = ''BLOCK''" by code_simp
  ultimately show ?thesis using d e(1,4) by auto
qed

theorem invalid_candidate_changes_nothing_witness:
  "\<exists>a f'. deploy_policy_endpoint example_config operator_env example_policy_env operator_request ''bad''
      (operator_api, [(''live.json'', File ''old'')]) = (Inl (Http 422 []), (a, f')) \<and> od_get f' ''live.json'' = Some (File ''old'')"
proof -
  have "internal_boundary example_config operator_env operator_request operator_api
      = (Inr operator, operator_api\<lparr>ap_tenants := \<lparr>ts_tenants = [], ts_loaded = True\<rparr>\<rparr>)"
    by (rule operator_boundary) (simp_all add: operator_api_def example_api_def)
  from invalid_candidate_changes_nothing [OF example_candidate(2) this, of "[(''live.json'', File ''old'')]"] show ?thesis
    by (auto simp: example_tmp)
qed

theorem internal_endpoints_closed_witness:
  "\<exists>s1. flush_semantic_cache example_config operator_env example_request example_api = (Inl (Http 403 []), s1)
     \<and> ap_pipeline s1 = ap_pipeline example_api"
proof -
  have "fst (resolve_principal (en_sha operator_env) (en_keys operator_env) (hr_authorization example_request) None (ap_keys example_api))
      = Inr example_principal"
    by (simp add: resolve_principal_def extract_bearer_def example_principal_def example_request_def)
  moreover have "pr_capability example_principal \<noteq> ''INTERNAL''" by (simp add: example_principal_def anonymous_def)
  ultimately show ?thesis
    using internal_endpoints_closed [where cf = example_config and en = operator_env and rq = example_request and s = example_api
      and p = example_principal and le = example_log and reg = demo_registry]
    by (fastforce simp: same_work_def)
qed

definition pending_review :: review_record where
  "pending_review = \<lparr>rr_review_id = ''v1'', rr_status = ''PENDING'', rr_reason = ''r'', rr_capability = ''GENERAL'', rr_risk = ''HIGH'',
     rr_tenant = ''acme'', rr_prompt_hash = ''h'', rr_request_id = ''req-1'', rr_created_at = ''T0''\<rparr>"

theorem review_resolution_is_final_witness:
  "\<exists>view s'. resolve_review_endpoint example_config operator_env operator_request ''v1'' ''REJECTED''
      (operator_api\<lparr>ap_reviews := (new_review_queue, Doc (JDict [(''v1'', record_dict pending_review)]))\<rparr>) = (Inr view, s')
     \<and> map_of view ''final_decision'' = Some (JStr ''BLOCK'') \<and> map_of view ''reviewer'' = Some (JStr ''op-1'')"
proof -
  let ?s = "operator_api\<lparr>ap_reviews := (new_review_queue, Doc (JDict [(''v1'', record_dict pending_review)]))\<rparr>"
  let ?s1 = "?s\<lparr>ap_tenants := \<lparr>ts_tenants = [], ts_loaded = True\<rparr>\<rparr>"
  have b: "internal_boundary example_config operator_env operator_request ?s = (Inr operator, ?s1)"
    by (rule operator_boundary) (simp_all add: operator_api_def example_api_def)
  obtain f where f: "record_dict pending_review = JDict f" "map_of f ''status'' = Some (JStr ''PENDING'')"
    by (simp add: record_dict_def pending_review_def)
  have load: "rq_records (rq_load False (snd (ap_reviews ?s1)) (fst (ap_reviews ?s1))) = JDict [(''v1'', JDict f)]"
    by (simp add: rq_load_def new_review_queue_def f)
  have view: "\<exists>view. review_view (JDict (settled_record now ''REJECTED'' ''op-1'' f)) = Inr view" for now
    using f by (auto simp: review_view_def record_dict_def pending_review_def settled_record_def review_required_def
        review_optional_def entry_get_def od_set_map_of is_text_def)
  obtain view s' where r: "resolve_review_endpoint example_config operator_env operator_request ''v1'' ''REJECTED'' ?s = (Inr view, s')"
    using b resolve_ok [OF load _ f(2), of "''v1''" "''REJECTED''" "en_iso_now operator_env" "''op-1''"]
      view [of "en_iso_now operator_env"]
    by (auto simp: resolve_review_endpoint_def on_reviews_def review_answer_def operator_def lift_error_def)
  have k: "fst (resolve_principal (en_sha operator_env) (en_keys operator_env) (hr_authorization operator_request) None (ap_keys ?s)) = Inr operator"
    using operator_resolved by simp
  show ?thesis
    using review_resolution_is_final [OF r] r k by (auto simp: operator_def)
qed

end
