(* ===== verification/Health_Api.thy ===== *)
theory Health_Api
  imports Control_Api
begin

text \<open>
  The operational endpoints of \<open>api/main.py\<close>: the health check with its cached probe of the judge
  backend, the metrics exposition, and the benchmark listing of \<open>core/benchmarks.py\<close>.

  The probe reads its cache under a lock and asks the backend outside it, so it is two steps,
  between which other requests run.
\<close>

section \<open>The probe\<close>

type_synonym probe_cache = "bool option \<times> real"

text \<open>\<open>Some ok\<close>: answered from the cache; \<open>None\<close>: the backend is asked.\<close>

definition probe_begin :: "real \<Rightarrow> real \<Rightarrow> probe_cache \<Rightarrow> bool option" where
  "probe_begin ttl now cache = (if fst cache \<noteq> None \<and> now - snd cache < ttl then fst cache else None)"

definition probe_end :: "bool \<Rightarrow> real \<Rightarrow> probe_cache" where
  "probe_end ok now = (Some ok, now)"

text \<open>One request alone: \<open>reply\<close> is whether the backend answered 200, \<open>after\<close> the clock then.\<close>

definition probe_judge_backend :: "real \<Rightarrow> real \<Rightarrow> real \<Rightarrow> bool \<Rightarrow> probe_cache \<Rightarrow> bool \<times> probe_cache" where
  "probe_judge_backend ttl now after reply cache =
     (case probe_begin ttl now cache of Some ok \<Rightarrow> (ok, cache) | None \<Rightarrow> (reply, probe_end reply after))"

text \<open>Requests in the order of their steps; the state counts those that are asking and all that have asked.\<close>

datatype probe_event = Begin real | End bool real

record probe_state =
  pb_cache :: probe_cache
  pb_asking :: nat
  pb_asked :: "real list"

fun probe_step :: "real \<Rightarrow> probe_event \<Rightarrow> probe_state \<Rightarrow> probe_state" where
  "probe_step ttl (Begin now) s =
     (case probe_begin ttl now (pb_cache s) of
        Some ok \<Rightarrow> s
      | None \<Rightarrow> s\<lparr>pb_asking := Suc (pb_asking s), pb_asked := pb_asked s @ [now]\<rparr>)"
| "probe_step ttl (End ok now) s =
     (if pb_asking s = 0 then s else s\<lparr>pb_cache := probe_end ok now, pb_asking := pb_asking s - 1\<rparr>)"

section \<open>The health check\<close>

text \<open>What \<open>_get_model()\<close> does: it raises, returns nothing, or returns a model.\<close>

datatype model_load = LoadRaises | LoadNone | LoadOk

record health =
  hc_healthy :: bool
  hc_policy_files :: bool
  hc_spacy :: bool
  hc_embedding :: bool
  hc_judge :: bool

definition health_check ::
  "real \<Rightarrow> real \<Rightarrow> real \<Rightarrow> bool \<Rightarrow> bool \<Rightarrow> bool \<Rightarrow> model_load \<Rightarrow> breaker \<Rightarrow> probe_cache \<Rightarrow> health \<times> probe_cache" where
  "health_check ttl now after reply files nlp model br cache =
     (let known_down = cb_opened_at br \<noteq> None;
          (judge, cache') = (if known_down then (False, cache) else probe_judge_backend ttl now after reply cache)
      in (\<lparr>hc_healthy = files \<and> nlp \<and> model \<noteq> LoadRaises \<and> judge, hc_policy_files = files, hc_spacy = nlp,
           hc_embedding = (model = LoadOk), hc_judge = judge\<rparr>, cache'))"

section \<open>Metrics\<close>

text \<open>The gauge of each breaker, from the flag itself.\<close>

definition refresh_circuit_breaker_gauges :: "breaker list \<Rightarrow> nat list" where
  "refresh_circuit_breaker_gauges brs = map (\<lambda>b. if cb_opened_at b \<noteq> None then 1 else 0) brs"

definition metrics_endpoint ::
  "bool \<Rightarrow> bool \<Rightarrow> 'v api_env \<Rightarrow> http_request \<Rightarrow> 'v api \<Rightarrow> (nat list, 'v api) outcome" where
  "metrics_endpoint enabled require_auth en rq s =
     (let gauges = (\<lambda>t. (Inr (refresh_circuit_breaker_gauges [fst (pl_ollama (ap_pipeline t)), fst (pl_guard (ap_pipeline t))]), t)) in
      if \<not> enabled then (Inl (Http 404 []), s)
      else if require_auth then
        and_then (authenticate en rq s) (\<lambda>p s1. if \<not> pr_authenticated p then (Inl (Http 401 bearer_challenge), s1) else gauges s1)
      else gauges s)"

section \<open>Benchmark runs\<close>

text \<open>
  A matching file: its name, its modification time and, read, its JSON or the text of the
  exception.  The files come in the order of their paths.
\<close>

type_synonym evidence = "string \<times> real \<times> (string, json) res"

definition benchmark_error :: "evidence \<Rightarrow> json list" where
  "benchmark_error x =
     (case x of
        (name, t, Inl e) \<Rightarrow> [JDict [(''filename'', JStr name), (''error'', JStr e)]]
      | (name, t, Inr j) \<Rightarrow> if is_dict j then []
          else [JDict [(''filename'', JStr name), (''error'', JStr ''expected a JSON object at the top level'')]])"

definition benchmark_run :: "(real \<Rightarrow> string) \<Rightarrow> evidence \<Rightarrow> (real \<times> json) list" where
  "benchmark_run stamp x =
     (case x of
        (name, t, Inr (JDict d)) \<Rightarrow> [(t, JDict (od_set ''_mtime'' (JStr (stamp t)) (od_set ''_filename'' (JStr name) d)))]
      | _ \<Rightarrow> [])"

definition list_benchmark_runs :: "(real \<Rightarrow> string) \<Rightarrow> evidence list option \<Rightarrow> json list \<times> json list" where
  "list_benchmark_runs stamp directory =
     (case directory of
        None \<Rightarrow> ([], [])
      | Some files \<Rightarrow> (map snd (sort_desc fst (concat (map (benchmark_run stamp) files))), concat (map benchmark_error files)))"

definition benchmarks ::
  "api_config \<Rightarrow> 'v api_env \<Rightarrow> (real \<Rightarrow> string) \<Rightarrow> evidence list option \<Rightarrow> http_request \<Rightarrow> 'v api \<Rightarrow> (json list \<times> json list, 'v api) outcome" where
  "benchmarks cf en stamp directory rq s =
     and_then (internal_boundary cf en rq s) (\<lambda>_ s1. (Inr (list_benchmark_runs stamp directory), s1))"

section \<open>Properties\<close>

text \<open>The times at which requests one after the other ask the backend: \<open>(now, after, reply)\<close> for each.\<close>

fun asks :: "real \<Rightarrow> (real \<times> real \<times> bool) list \<Rightarrow> probe_cache \<Rightarrow> real list" where
  "asks ttl [] cache = []"
| "asks ttl ((now, after, reply) # rs) cache =
     (if probe_begin ttl now cache = None then [now] else [])
     @ asks ttl rs (snd (probe_judge_backend ttl now after reply cache))"

fun in_order :: "(real \<times> real \<times> bool) list \<Rightarrow> bool" where
  "in_order [] = True"
| "in_order ((now, after, reply) # rs) \<longleftrightarrow> now \<le> after \<and> (\<forall>(n, a, r) \<in> set rs. after \<le> n) \<and> in_order rs"

lemma asks_after:
  assumes "in_order rs" "t \<in> set (asks ttl rs cache)"
  shows "(\<exists>a r. (t, a, r) \<in> set rs) \<and> (fst cache = None \<or> ttl \<le> t - snd cache)"
  using assms
proof (induction rs arbitrary: cache)
  case (Cons x rs)
  obtain now after reply where x: "x = (now, after, reply)" by (cases x)
  show ?case
  proof (cases "probe_begin ttl now cache")
    case None
    have first: "fst cache = None \<or> ttl \<le> now - snd cache" using None by (auto simp: probe_begin_def split: if_splits)
    have "t = now \<or> t \<in> set (asks ttl rs (probe_end reply after))"
      using Cons.prems(2) None by (simp add: x probe_judge_backend_def)
    then show ?thesis
    proof
      assume "t \<in> set (asks ttl rs (probe_end reply after))"
      then obtain a r where m: "(t, a, r) \<in> set rs" using Cons.IH [of "probe_end reply after"] Cons.prems(1) by (auto simp: x)
      then have "now \<le> t" using Cons.prems(1) by (fastforce simp: x)
      then show ?thesis using m first by auto
    qed (use first x in auto)
  next
    case (Some ok)
    then show ?thesis using Cons.IH [of cache] Cons.prems by (auto simp: x probe_judge_backend_def)
  qed
qed simp

text \<open>
  The probe spares a backend that health checks follow one another: in any run of checks that
  do not overlap, two questions to the backend are at least the time to live apart.
\<close>

theorem sequential_probes_spaced:
  assumes "in_order rs"
  shows "sorted_wrt (\<lambda>t u. ttl \<le> u - t) (asks ttl rs cache)"
  using assms
proof (induction rs arbitrary: cache)
  case (Cons x rs)
  obtain now after reply where x: "x = (now, after, reply)" by (cases x)
  show ?case
  proof (cases "probe_begin ttl now cache")
    case None
    have "ttl \<le> u - now" if "u \<in> set (asks ttl rs (probe_end reply after))" for u
      using asks_after [OF _ that] Cons.prems by (auto simp: x probe_end_def)
    then show ?thesis using Cons None by (simp add: x probe_judge_backend_def)
  next
    case (Some ok)
    then show ?thesis using Cons by (simp add: x probe_judge_backend_def)
  qed
qed simp

theorem sequential_probes_spaced_witness:
  "asks 5 [(0, 1, True), (2, 2, True), (7, 8, False)] (None, 0) = [0, 7]
    \<and> sorted_wrt (\<lambda>t u. 5 \<le> u - t) (asks 5 [(0, 1, True), (2, 2, True), (7, 8, False)] (None, 0))"
proof
  show "asks 5 [(0, 1, True), (2, 2, True), (7, 8, False)] (None, 0) = [0, 7]"
    by (simp add: probe_begin_def probe_judge_backend_def probe_end_def)
  show "sorted_wrt (\<lambda>t u. 5 \<le> u - t) (asks 5 [(0, 1, True), (2, 2, True), (7, 8, False)] (None, 0))"
    by (rule sequential_probes_spaced) simp
qed

text \<open>
  It does not spare it a burst: of any number of checks that begin at one instant with a stale
  cache, before the first of them has its answer, every one asks the backend.
\<close>

theorem burst_probes_every_time:
  assumes "probe_begin ttl now (pb_cache s) = None"
  shows "pb_asked (fold (probe_step ttl) (replicate n (Begin now)) s) = pb_asked s @ replicate n now"
  using assms
proof (induction n arbitrary: s)
  case (Suc n)
  let ?t = "s\<lparr>pb_asking := Suc (pb_asking s), pb_asked := pb_asked s @ [now]\<rparr>"
  have "pb_asked (fold (probe_step ttl) (replicate n (Begin now)) ?t) = pb_asked ?t @ replicate n now"
    using Suc.prems by (intro Suc.IH) simp
  then show ?case using Suc.prems by (simp del: fold_replicate)
qed simp

theorem burst_probes_every_time_witness:
  "pb_asked (fold (probe_step 5) (replicate 3 (Begin 9)) \<lparr>pb_cache = (Some True, 1), pb_asking = 0, pb_asked = []\<rparr>) = [9, 9, 9]"
  using burst_probes_every_time [of 5 9 "\<lparr>pb_cache = (Some True, 1), pb_asking = 0, pb_asked = []\<rparr>" 3]
  by (simp add: probe_begin_def numeral_3_eq_3 del: fold_replicate)

text \<open>
  The health check reports what it finds and disturbs nothing: the service is healthy exactly
  when the policy files exist, the language model is loaded, the embedding model did not raise and
  the judge answered; with the judge's breaker open the backend is not asked and the cache stays.
  An embedding model that is missing without raising leaves the service healthy.
\<close>

theorem health_reported:
  assumes "health_check ttl now after reply files nlp model br cache = (h, cache')"
  shows "(hc_healthy h \<longleftrightarrow> hc_policy_files h \<and> hc_spacy h \<and> hc_judge h \<and> (hc_embedding h \<or> model = LoadNone))
    \<and> (cb_opened_at br \<noteq> None \<longrightarrow> \<not> hc_judge h \<and> cache' = cache)
    \<and> (cache' \<noteq> cache \<longrightarrow> probe_begin ttl now cache = None \<and> cache' = (Some (hc_judge h), after))"
proof (cases "cb_opened_at br")
  case (Some t)
  then show ?thesis using assms by (auto simp: health_check_def)
next
  case None
  obtain j c where jc: "probe_judge_backend ttl now after reply cache = (j, c)" by (cases "probe_judge_backend ttl now after reply cache")
  then have h: "hc_judge h = j" "cache' = c" "hc_policy_files h = files" "hc_spacy h = nlp" "hc_embedding h = (model = LoadOk)"
    "hc_healthy h = (files \<and> nlp \<and> model \<noteq> LoadRaises \<and> j)"
    using assms None by (auto simp: health_check_def)
  have "c \<noteq> cache \<Longrightarrow> probe_begin ttl now cache = None \<and> c = (Some j, after)"
    using jc by (auto simp: probe_judge_backend_def probe_end_def split: option.splits)
  then show ?thesis using h None by (cases model) auto
qed

theorem health_reported_witness:
  "hc_healthy (fst (health_check 5 9 10 True True True LoadNone (new_breaker 5 30 False) (Some False, 1)))
    \<and> \<not> hc_embedding (fst (health_check 5 9 10 True True True LoadNone (new_breaker 5 30 False) (Some False, 1)))"
proof -
  obtain h c where hc: "health_check 5 9 10 True True True LoadNone (new_breaker 5 30 False) (Some False, 1) = (h, c)"
    by (cases "health_check 5 9 10 True True True LoadNone (new_breaker 5 30 False) (Some False, 1)")
  have "hc_policy_files h \<and> hc_spacy h \<and> hc_judge h \<and> \<not> hc_embedding h"
    using hc by (auto simp: health_check_def probe_judge_backend_def probe_begin_def new_breaker_def)
  then show ?thesis using health_reported [OF hc] hc by simp
qed

lemma file_is_run_or_error: "length (benchmark_run stamp x) + length (benchmark_error x) = 1"
  by (cases x) (auto simp: benchmark_run_def benchmark_error_def split: sum.splits json.splits)

lemma run_of_file:
  "(t, j) \<in> set (benchmark_run stamp x) \<longleftrightarrow>
    (\<exists>name d. x = (name, t, Inr (JDict d)) \<and> j = JDict (od_set ''_mtime'' (JStr (stamp t)) (od_set ''_filename'' (JStr name) d)))"
  by (cases x) (auto simp: benchmark_run_def split: sum.splits json.splits)

text \<open>
  No evidence file is lost: each matching file is either a run, under its own name, or an
  error, and the runs are given newest first.
\<close>

theorem benchmark_files_accounted:
  assumes "list_benchmark_runs stamp (Some files) = (runs, errors)"
  shows "length runs + length errors = length files
    \<and> (\<forall>(name, t, r) \<in> set files. (\<exists>d. r = Inr (JDict d) \<and>
          JDict (od_set ''_mtime'' (JStr (stamp t)) (od_set ''_filename'' (JStr name) d)) \<in> set runs)
        \<or> (\<exists>e. JDict [(''filename'', JStr name), (''error'', JStr e)] \<in> set errors))
    \<and> (\<exists>ts. length ts = length runs \<and> sorted_wrt (\<ge>) ts
        \<and> (\<forall>i < length runs. \<exists>name d. (name, ts ! i, Inr (JDict d)) \<in> set files
             \<and> runs ! i = JDict (od_set ''_mtime'' (JStr (stamp (ts ! i))) (od_set ''_filename'' (JStr name) d))))"
proof -
  let ?L = "concat (map (benchmark_run stamp) files)"
  have out: "runs = map snd (sort_desc fst ?L)" "errors = concat (map benchmark_error files)"
    using assms by (simp_all add: list_benchmark_runs_def)
  have "length (concat (map (benchmark_run stamp) fs)) + length (concat (map benchmark_error fs)) = length fs" for fs
  proof (induction fs)
    case (Cons x fs)
    then show ?case using file_is_run_or_error [of stamp x] by simp
  qed simp
  then have count: "length runs + length errors = length files" using out by simp
  have each: "(\<exists>d. r = Inr (JDict d) \<and> JDict (od_set ''_mtime'' (JStr (stamp t)) (od_set ''_filename'' (JStr name) d)) \<in> set runs)
      \<or> (\<exists>e. JDict [(''filename'', JStr name), (''error'', JStr e)] \<in> set errors)" if m: "(name, t, r) \<in> set files" for name t r
  proof (cases "\<exists>d. r = Inr (JDict d)")
    case True
    then obtain d where d: "r = Inr (JDict d)" by blast
    then have "(t, JDict (od_set ''_mtime'' (JStr (stamp t)) (od_set ''_filename'' (JStr name) d))) \<in> set ?L"
      using m by (auto simp: benchmark_run_def intro!: bexI [where x = "(name, t, r)"])
    then show ?thesis using d out(1) by force
  next
    case False
    have "\<exists>e. JDict [(''filename'', JStr name), (''error'', JStr e)] \<in> set (benchmark_error (name, t, r))"
      using False by (auto simp: benchmark_error_def split: sum.split) (metis is_dict.elims(2))
    then show ?thesis using m out(2) by auto
  qed
  let ?S = "sort_desc fst ?L"
  have sorted: "sorted_wrt (\<ge>) (map fst ?S)" using sort_desc_sorted [of fst ?L] by (simp add: sorted_wrt_map)
  have "\<exists>name d. (name, map fst ?S ! i, Inr (JDict d)) \<in> set files
      \<and> runs ! i = JDict (od_set ''_mtime'' (JStr (stamp (map fst ?S ! i))) (od_set ''_filename'' (JStr name) d))" if "i < length runs" for i
  proof -
    have i: "i < length ?S" using that out(1) by simp
    then have "?S ! i \<in> set ?L" using nth_mem [OF i] by simp
    then obtain x where x: "x \<in> set files" "?S ! i \<in> set (benchmark_run stamp x)" by auto
    then show ?thesis
      using run_of_file [of "fst (?S ! i)" "snd (?S ! i)" stamp x] i out(1) by auto
  qed
  moreover have "length (map fst ?S) = length runs" using out(1) by simp
  ultimately show ?thesis using count each sorted by blast
qed

theorem benchmark_files_accounted_witness:
  "\<exists>runs errors. list_benchmark_runs (\<lambda>t. ''t'') (Some [(''a.json'', 1, Inr (JDict [])), (''b.json'', 2, Inl ''bad'')]) = (runs, errors)
    \<and> length runs + length errors = 2"
proof -
  let ?files = "[(''a.json'', 1, Inr (JDict [])), (''b.json'', 2, Inl ''bad'')] :: evidence list"
  obtain runs errors where o: "list_benchmark_runs (\<lambda>t. ''t'') (Some ?files) = (runs, errors)"
    by (cases "list_benchmark_runs (\<lambda>t. ''t'') (Some ?files)")
  then show ?thesis using benchmark_files_accounted [OF o] by simp
qed

end
