(* ===== verification/Mcp_Stdio.thy ===== *)
theory Mcp_Stdio
  imports Tools
begin

text \<open>
  The stdio transport of \<open>core/mcp_server.py\<close>: the loop that reads one JSON-RPC message per line and
  writes one response per line.

  The input is what the client will have written when it closes its side.  The parser, the
  printer and the fresh request identifiers are parameters; a line the parser refuses is either
  not JSON, or makes it raise something else (too deep a nesting, too long an integer).
\<close>

section \<open>Definitions from the code\<close>

definition max_line_bytes :: nat where
  "max_line_bytes = 1000000"

definition line_end :: char where
  "line_end = CHR 0x0A"

datatype load_failure = NotJson string | LoadRaises py_error

record stdio_env =
  io_loads :: "string \<Rightarrow> (load_failure, json) res"
  io_dumps :: "json \<Rightarrow> string"
  io_exn :: "py_error \<Rightarrow> string"
  io_fresh :: "nat \<Rightarrow> string"

record 'w server =
  sv_out :: string
  sv_calls :: nat
  sv_gateway :: "'w gateway"

text \<open>\<open>readline(n)\<close>: up to and with the next line_end, at most \<open>n\<close> characters; empty at the end.\<close>

fun readline :: "nat \<Rightarrow> string \<Rightarrow> string \<times> string" where
  "readline 0 s = ([], s)"
| "readline (Suc n) [] = ([], [])"
| "readline (Suc n) (c # s) = (if c = line_end then ([c], s) else let (r, t) = readline n s in (c # r, t))"

definition ends_newline :: "string \<Rightarrow> bool" where
  "ends_newline raw \<longleftrightarrow> raw \<noteq> [] \<and> last raw = line_end"

partial_function (option) discard_line :: "nat \<Rightarrow> string \<Rightarrow> string \<Rightarrow> string option" where
  "discard_line limit raw input =
     (if \<not> ends_newline raw \<and> raw \<noteq> []
      then let (raw', input') = readline (limit + 1) input in discard_line limit raw' input'
      else Some input)"

definition emit :: "stdio_env \<Rightarrow> json option \<Rightarrow> 'w server \<Rightarrow> 'w server" where
  "emit io response s =
     (case response of None \<Rightarrow> s | Some j \<Rightarrow> s\<lparr>sv_out := sv_out s @ io_dumps io j @ [line_end]\<rparr>)"

definition oversized :: "nat \<Rightarrow> json" where
  "oversized limit = mcp_error JNull (- 32700) (''Line exceeds '' @ int_str (int limit) @ '' byte limit.'')"

text \<open>What one line is answered; an exception of the parser leaves the loop, one of the handler does not.\<close>

definition answer_line ::
  "stdio_env \<Rightarrow> 'w registry \<Rightarrow> string \<Rightarrow> string \<Rightarrow> string \<Rightarrow> 'w server \<Rightarrow> (py_error, json option) res \<times> 'w server" where
  "answer_line io reg capability tenant raw s =
     (let line = str_strip raw in
      if line = [] then (Inr None, s)
      else case io_loads io line of
        Inl (NotJson m) \<Rightarrow> (Inr (Some (mcp_error JNull (- 32700) (''Invalid JSON: '' @ m))), s)
      | Inl (LoadRaises e) \<Rightarrow> (Inl e, s)
      | Inr j \<Rightarrow>
          if \<not> is_dict j then (Inr (Some (mcp_error JNull (- 32600) ''Request must be a JSON object.'')), s)
          else
            let (res, g) = handle_request reg capability tenant (io_fresh io (sv_calls s)) (dict_items j) (sv_gateway s);
                s' = s\<lparr>sv_calls := Suc (sv_calls s), sv_gateway := g\<rparr>
            in (Inr (case res of
                  Inr response \<Rightarrow> response
                | Inl e \<Rightarrow> if map_of (dict_items j) ''id'' \<noteq> None
                           then Some (mcp_error (jget_or j ''id'' JNull) (- 32603) (io_exn io e)) else None), s'))"

partial_function (option) stdio_loop ::
  "stdio_env \<Rightarrow> nat \<Rightarrow> 'w registry \<Rightarrow> string \<Rightarrow> string \<Rightarrow> string \<Rightarrow> 'w server \<Rightarrow> ((py_error, unit) res \<times> 'w server) option" where
  "stdio_loop io limit reg capability tenant input s =
     (let (raw, rest) = readline (limit + 1) input in
      if raw = [] then Some (Inr (), s)
      else if length raw > limit \<and> \<not> ends_newline raw then
        Option.bind (discard_line limit raw rest)
          (\<lambda>rest'. stdio_loop io limit reg capability tenant rest' (emit io (Some (oversized limit)) s))
      else case answer_line io reg capability tenant raw s of
          (Inl e, s') \<Rightarrow> Some (Inl e, s')
        | (Inr response, s') \<Rightarrow> stdio_loop io limit reg capability tenant rest (emit io response s'))"

definition run_stdio_server ::
  "stdio_env \<Rightarrow> 'w registry \<Rightarrow> string \<Rightarrow> string \<Rightarrow> string \<Rightarrow> 'w server \<Rightarrow> ((py_error, unit) res \<times> 'w server) option" where
  "run_stdio_server io reg capability tenant input s = stdio_loop io max_line_bytes reg capability tenant input s"

section \<open>Reading lines\<close>

lemma readline_line: "line_end \<notin> set l \<Longrightarrow> length l < n \<Longrightarrow> readline n (l @ line_end # s) = (l @ [line_end], s)"
proof (induction l arbitrary: n)
  case Nil
  then show ?case by (cases n) auto
next
  case (Cons c l)
  then show ?case by (cases n) auto
qed

lemma readline_short: "line_end \<notin> set s \<Longrightarrow> length s < n \<Longrightarrow> readline n s = (s, [])"
proof (induction s arbitrary: n)
  case Nil
  then show ?case by (cases n) auto
next
  case (Cons c s)
  then show ?case by (cases n) auto
qed

lemma readline_long: "line_end \<notin> set l \<Longrightarrow> n \<le> length l \<Longrightarrow> readline n (l @ s) = (take n l, drop n l @ s)"
proof (induction l arbitrary: n)
  case (Cons c l)
  then show ?case by (cases n) auto
qed simp

lemma not_ends_line: "line_end \<notin> set l \<Longrightarrow> \<not> ends_newline l"
  unfolding ends_newline_def using last_in_set by metis

lemma newline_not_in_take: "line_end \<notin> set l \<Longrightarrow> line_end \<notin> set (take n l)"
  by (meson in_set_takeD)

lemma newline_not_in_drop: "line_end \<notin> set l \<Longrightarrow> line_end \<notin> set (drop n l)"
  by (meson in_set_dropD)

text \<open>Discarding ends, at the start of the next line or at the end of the input.\<close>

lemma discard_to_line:
  assumes "line_end \<notin> set raw" "raw \<noteq> []" "line_end \<notin> set l"
  shows "discard_line limit raw (l @ line_end # s) = Some s"
  using assms
proof (induction "length l" arbitrary: raw l rule: less_induct)
  case less
  show ?case
  proof (cases "length l < limit + 1")
    case True
    have "discard_line limit (l @ [line_end]) s = Some s"
      by (subst discard_line.simps) (simp add: ends_newline_def)
    then show ?thesis
      using less.prems readline_line [OF less.prems(3) True, of s]
      by (subst discard_line.simps) (simp add: not_ends_line)
  next
    case False
    let ?r = "take (limit + 1) l" and ?t = "drop (limit + 1) l"
    have "l \<noteq> []" using False by auto
    then have "discard_line limit ?r (?t @ line_end # s) = Some s"
      using less.prems False by (intro less.hyps) (auto simp: newline_not_in_take newline_not_in_drop simp del: take_append drop_append)
    then show ?thesis
      using less.prems readline_long [OF less.prems(3), of "limit + 1" "line_end # s"] False
      by (subst discard_line.simps) (simp add: not_ends_line)
  qed
qed

lemma discard_to_end:
  assumes "line_end \<notin> set raw" "line_end \<notin> set l"
  shows "discard_line limit raw l = Some (if raw = [] then l else [])"
  using assms
proof (induction "length l" arbitrary: raw l rule: less_induct)
  case less
  have empty: "discard_line limit [] t = Some t" for t by (subst discard_line.simps) simp
  show ?case
  proof (cases "raw = []")
    case raw: False
    show ?thesis
    proof (cases "l = []")
      case True
      have "readline (limit + 1) ([] :: string) = ([], [])" by simp
      then show ?thesis using raw True less.prems empty [of "[]"]
        by (subst discard_line.simps) (simp add: not_ends_line)
    next
      case l: False
      let ?r = "take (limit + 1) l" and ?t = "drop (limit + 1) l"
      have rl: "readline (limit + 1) l = (?r, ?t)"
        using readline_long [OF less.prems(2), of "limit + 1" "[]"] readline_short [OF less.prems(2), of "limit + 1"]
        by (cases "length l < limit + 1") auto
      have "discard_line limit ?r ?t = Some (if ?r = [] then ?t else [])"
        using less.prems l by (intro less.hyps) (auto simp: newline_not_in_take newline_not_in_drop)
      then show ?thesis using rl raw l less.prems by (subst discard_line.simps) (simp add: not_ends_line)
    qed
  qed (simp add: empty)
qed

section \<open>The loop serves the lines of its input\<close>

text \<open>The reference: the lines one after the other, each oversized one reported once.\<close>

fun serve ::
  "stdio_env \<Rightarrow> nat \<Rightarrow> 'w registry \<Rightarrow> string \<Rightarrow> string \<Rightarrow> string list \<Rightarrow> 'w server \<Rightarrow> (py_error, unit) res \<times> 'w server" where
  "serve io limit reg capability tenant [] s = (Inr (), s)"
| "serve io limit reg capability tenant (l # ls) s =
     (if length l > limit then serve io limit reg capability tenant ls (emit io (Some (oversized limit)) s)
      else case answer_line io reg capability tenant l s of
          (Inl e, s') \<Rightarrow> (Inl e, s')
        | (Inr response, s') \<Rightarrow> serve io limit reg capability tenant ls (emit io response s'))"

lemma split_on_line: "c \<notin> set l \<Longrightarrow> split_on c (l @ c # s) = l # split_on c s"
  by (induction l) auto

lemma strip_newline: "str_strip (l @ [line_end]) = str_strip l"
proof -
  have "is_space line_end" by (simp add: line_end_def is_space_def)
  then show ?thesis
    unfolding str_strip_def by (cases "dropWhile is_space l = []") (auto simp: dropWhile_append dropWhile_eq_Nil_conv dest: set_dropWhileD)
qed

lemma answer_newline: "answer_line io reg capability tenant (l @ [line_end]) s = answer_line io reg capability tenant l s"
  by (simp add: answer_line_def strip_newline)

lemma answer_empty [simp]: "answer_line io reg capability tenant [] s = (Inr None, s)"
  by (simp add: answer_line_def str_strip_def)

lemma emit_None [simp]: "emit io None s = s"
  by (simp add: emit_def)

lemma loop_empty: "stdio_loop io limit reg capability tenant [] s = Some (Inr (), s)"
  by (subst stdio_loop.simps) simp

lemma loop_last_line:
  assumes "line_end \<notin> set l"
  shows "stdio_loop io limit reg capability tenant l s = Some (serve io limit reg capability tenant [l] s)"
proof (cases "length l \<le> limit")
  case True
  then have "readline (limit + 1) l = (l, [])" using readline_short [OF assms] by simp
  then show ?thesis
    using True by (subst stdio_loop.simps) (auto simp: loop_empty Let_def split: prod.split sum.split)
next
  case False
  have "readline (limit + 1) l = (take (limit + 1) l, drop (limit + 1) l)"
    using readline_long [OF assms, of "limit + 1" "[]"] False by simp
  moreover have "discard_line limit (take (limit + 1) l) (drop (limit + 1) l) = Some []"
    using discard_to_end [of "take (limit + 1) l" "drop (limit + 1) l" limit] assms False
    by (auto simp: newline_not_in_take newline_not_in_drop)
  ultimately show ?thesis
    using False assms by (subst stdio_loop.simps) (auto simp: loop_empty not_ends_line newline_not_in_take)
qed

lemma loop_line:
  assumes "line_end \<notin> set l"
    and "\<And>s. stdio_loop io limit reg capability tenant rest s = Some (serve io limit reg capability tenant ls s)"
  shows "stdio_loop io limit reg capability tenant (l @ line_end # rest) s = Some (serve io limit reg capability tenant (l # ls) s)"
proof (cases "length l \<le> limit")
  case True
  then have "readline (limit + 1) (l @ line_end # rest) = (l @ [line_end], rest)" using readline_line [OF assms(1)] by simp
  then show ?thesis
    using True by (subst stdio_loop.simps)
      (auto simp: assms(2) answer_newline ends_newline_def Let_def split: prod.split sum.split)
next
  case False
  have "readline (limit + 1) (l @ line_end # rest) = (take (limit + 1) l, drop (limit + 1) l @ line_end # rest)"
    using readline_long [OF assms(1), of "limit + 1" "line_end # rest"] False by simp
  moreover have "discard_line limit (take (limit + 1) l) (drop (limit + 1) l @ line_end # rest) = Some rest"
    using assms(1) False by (intro discard_to_line) (auto simp: newline_not_in_take newline_not_in_drop)
  ultimately show ?thesis
    using False assms by (subst stdio_loop.simps) (auto simp: not_ends_line newline_not_in_take)
qed

lemma loop_serves:
  "stdio_loop io limit reg capability tenant input s = Some (serve io limit reg capability tenant (split_on line_end input) s)"
proof (induction "length input" arbitrary: input s rule: less_induct)
  case less
  show ?case
  proof (cases "line_end \<in> set input")
    case True
    then obtain l rest where i: "input = l @ line_end # rest" "line_end \<notin> set l" by (meson split_list_first)
    then have "stdio_loop io limit reg capability tenant rest t = Some (serve io limit reg capability tenant (split_on line_end rest) t)" for t
      using less by simp
    then show ?thesis unfolding i(1) split_on_line [OF i(2)] by (intro loop_line i(2))
  next
    case False
    then show ?thesis unfolding split_on_no_sep [OF False] by (intro loop_last_line)
  qed
qed

section \<open>Properties\<close>

text \<open>
  C28. The stdio server ends with its input and resynchronises at every line.  Whatever the client
  wrote, the loop terminates, and its result is that of serving the newline-separated lines one
  after the other, where a line over the limit costs one error response and nothing of the next
  line.
\<close>

theorem stdio_server_terminates:
  "run_stdio_server io reg capability tenant input s
     = Some (serve io max_line_bytes reg capability tenant (split_on line_end input) s)"
  by (simp add: run_stdio_server_def loop_serves)

text \<open>A line is answered whatever it holds, unless the parser raises.\<close>

lemma answer_total:
  assumes "\<forall>e. io_loads io (str_strip l) \<noteq> Inl (LoadRaises e)"
  shows "\<exists>response t. answer_line io reg capability tenant l s = (Inr response, t)"
  using assms by (auto simp: answer_line_def Let_def split: sum.split load_failure.split prod.split)

lemma emit_appends: "\<exists>z. sv_out (emit io response s) = sv_out s @ z"
  by (cases response) (auto simp: emit_def)

lemma answer_keeps_out: "answer_line io reg capability tenant l s = (Inr response, t) \<Longrightarrow> sv_out t = sv_out s"
  by (auto simp: answer_line_def Let_def split: if_splits sum.splits load_failure.splits prod.splits)

lemma serve_appends: "\<exists>z. sv_out (snd (serve io limit reg capability tenant ls s)) = sv_out s @ z"
proof (induction ls arbitrary: s)
  case (Cons l ls)
  show ?case
  proof (cases "length l > limit")
    case True
    obtain y where "sv_out (emit io (Some (oversized limit)) s) = sv_out s @ y" using emit_appends by blast
    then show ?thesis using Cons.IH [of "emit io (Some (oversized limit)) s"] True by auto
  next
    case False
    obtain r t where a: "answer_line io reg capability tenant l s = (r, t)" by (cases "answer_line io reg capability tenant l s")
    show ?thesis
    proof (cases r)
      case (Inl e)
      then have "sv_out t = sv_out s" using a by (auto simp: answer_line_def Let_def split: if_splits sum.splits load_failure.splits prod.splits)
      then show ?thesis using a False Inl by simp
    next
      case (Inr response)
      obtain y where "sv_out (emit io response t) = sv_out s @ y"
        using emit_appends [of io response t] answer_keeps_out a Inr by metis
      then show ?thesis using Cons.IH [of "emit io response t"] a False Inr by auto
    qed
  qed
qed simp

text \<open>A request with an identifier is answered under it, be it by an error.\<close>

lemma request_answered:
  assumes "io_loads io (str_strip l) = Inr (JDict msg)" "str_strip l \<noteq> []" "map_of msg ''id'' = Some i"
    and "map_of msg ''method'' \<noteq> Some (JStr ''notifications/initialized'')"
  shows "\<exists>kind body t. answer_line io reg capability tenant l s = (Inr (Some (mcp_response i kind body)), t) \<and> kind \<in> {''result'', ''error''}"
proof -
  let ?h = "handle_request reg capability tenant (io_fresh io (sv_calls s)) msg (sv_gateway s)"
  obtain res g where h: "?h = (res, g)" by (cases ?h)
  show ?thesis
  proof (cases res)
    case (Inl e)
    then show ?thesis using assms h by (auto simp: answer_line_def jget_or_def jget_def mcp_error_def)
  next
    case (Inr x)
    have "\<exists>kind body. x = Some (mcp_response i kind body) \<and> kind \<in> {''result'', ''error''}"
      using h assms(3,4) unfolding Inr
      by (auto simp: handle_request_def mcp_error_def handle_mcp_tool_call_def Let_def bind_res_Inr_iff jget_or_def jget_def
          split: json.splits list.splits if_splits option.splits prod.splits)
    then show ?thesis using assms h Inr by (auto simp: answer_line_def)
  qed
qed

lemma serve_total:
  assumes "\<forall>l \<in> set ls. \<forall>e. io_loads io (str_strip l) \<noteq> Inl (LoadRaises e)"
  shows "fst (serve io limit reg capability tenant ls s) = Inr ()"
  using assms
proof (induction ls arbitrary: s)
  case (Cons l ls)
  obtain response t where "answer_line io reg capability tenant l s = (Inr response, t)"
    using answer_total [of io l reg capability tenant s] Cons.prems by auto
  then show ?case using Cons by simp
qed simp

lemma serve_answers:
  assumes "\<forall>l \<in> set ls. \<forall>e. io_loads io (str_strip l) \<noteq> Inl (LoadRaises e)"
    and "l \<in> set ls" "length l \<le> limit" "io_loads io (str_strip l) = Inr (JDict msg)" "str_strip l \<noteq> []"
    and "map_of msg ''id'' = Some i" "map_of msg ''method'' \<noteq> Some (JStr ''notifications/initialized'')"
  shows "\<exists>kind body y z. kind \<in> {''result'', ''error''}
    \<and> sv_out (snd (serve io limit reg capability tenant ls s)) = y @ io_dumps io (mcp_response i kind body) @ line_end # z"
  using assms(1,2)
proof (induction ls arbitrary: s)
  case (Cons k ks)
  obtain response t where k: "answer_line io reg capability tenant k s = (Inr response, t)"
    using answer_total [of io k reg capability tenant s] Cons.prems(1) by auto
  show ?case
  proof (cases "l = k")
    case True
    obtain kind body u where a: "answer_line io reg capability tenant l s = (Inr (Some (mcp_response i kind body)), u)" "kind \<in> {''result'', ''error''}"
      using request_answered [OF assms(4,5,6,7)] by blast
    obtain z where "sv_out (snd (serve io limit reg capability tenant ks (emit io (Some (mcp_response i kind body)) u)))
        = sv_out (emit io (Some (mcp_response i kind body)) u) @ z" using serve_appends by blast
    then have "sv_out (snd (serve io limit reg capability tenant (k # ks) s))
        = sv_out u @ io_dumps io (mcp_response i kind body) @ line_end # z"
      using a(1) True assms(3) by (simp add: emit_def)
    then show ?thesis using a(2) by blast
  next
    case False
    then have "l \<in> set ks" using Cons.prems by simp
    then show ?thesis using Cons.IH k Cons.prems(1) by simp
  qed
qed simp

text \<open>
  C29. No request is left without an answer: over an input whose lines the parser reads or refuses,
  the server runs to the end of the input, and every request of a line within the limit that
  carries an identifier and is not the initialisation notice has a response under that
  identifier in the output, even when its handling raises.
\<close>

theorem stdio_requests_answered:
  assumes "\<forall>l \<in> set (split_on line_end input). \<forall>e. io_loads io (str_strip l) \<noteq> Inl (LoadRaises e)"
    and "l \<in> set (split_on line_end input)" "length l \<le> max_line_bytes"
    and "io_loads io (str_strip l) = Inr (JDict msg)" "str_strip l \<noteq> []"
    and "map_of msg ''id'' = Some i" "map_of msg ''method'' \<noteq> Some (JStr ''notifications/initialized'')"
  shows "\<exists>s' kind body y z. run_stdio_server io reg capability tenant input s = Some (Inr (), s')
    \<and> kind \<in> {''result'', ''error''} \<and> sv_out s' = y @ io_dumps io (mcp_response i kind body) @ line_end # z"
proof -
  obtain e t where r: "serve io max_line_bytes reg capability tenant (split_on line_end input) s = (e, t)"
    by (cases "serve io max_line_bytes reg capability tenant (split_on line_end input) s")
  have "e = Inr ()" using serve_total [OF assms(1), of max_line_bytes reg capability tenant s] unfolding r by simp
  then have run: "run_stdio_server io reg capability tenant input s = Some (Inr (), t)"
    unfolding run_stdio_server_def loop_serves r by simp
  obtain kind body y z where "kind \<in> {''result'', ''error''}" "sv_out t = y @ io_dumps io (mcp_response i kind body) @ line_end # z"
    using serve_answers [OF assms, of reg capability tenant s] unfolding r snd_conv by (elim exE conjE)
  then show ?thesis using run by blast
qed

text \<open>
  A line on which the parser raises anything but a decoding error ends the server: the loop
  returns that exception, and whatever follows the line is never read.  An integer of more than
  4300 digits or a deep nesting is such a line, well within the limit.
\<close>

theorem stdio_parser_error_ends_server:
  assumes "line_end \<notin> set l" "length l \<le> max_line_bytes" "str_strip l \<noteq> []"
    and "io_loads io (str_strip l) = Inl (LoadRaises e)"
  shows "\<forall>rest. run_stdio_server io reg capability tenant (l @ line_end # rest) s = Some (Inl e, s)"
  using assms by (auto simp: run_stdio_server_def loop_serves split_on_line answer_line_def)

section \<open>Witnesses\<close>

definition example_io :: stdio_env where
  "example_io = \<lparr>io_loads = (\<lambda>t. if t = ''ping'' then Inr (JDict [(''id'', JInt 1), (''method'', JStr ''initialize'')])
                               else if t = ''1'' then Inl (LoadRaises (ValueError ''too many digits'')) else Inl (NotJson ''bad'')),
                 io_dumps = (\<lambda>j. ''{}''), io_exn = (\<lambda>e. ''error''), io_fresh = (\<lambda>n. ''r'')\<rparr>"

definition empty_server :: "database server" where
  "empty_server = \<lparr>sv_out = [], sv_calls = 0, sv_gateway = \<lparr>gw_audit = [], gw_world = fake_database\<rparr>\<rparr>"

theorem stdio_requests_answered_witness:
  "\<exists>s' y z. run_stdio_server example_io demo_registry ''GENERAL'' ''mcp'' (''ping'' @ [line_end]) empty_server = Some (Inr (), s')
    \<and> sv_out s' = y @ ''{}'' @ line_end # z"
proof -
  have strip: "str_strip ''ping'' = ''ping''" "str_strip [] = []" by code_simp+
  have lines: "split_on line_end (''ping'' @ [line_end]) = [''ping'', []]" by (simp add: line_end_def)
  have "\<exists>s' kind body y z. run_stdio_server example_io demo_registry ''GENERAL'' ''mcp'' (''ping'' @ [line_end]) empty_server = Some (Inr (), s')
    \<and> kind \<in> {''result'', ''error''} \<and> sv_out s' = y @ io_dumps example_io (mcp_response (JInt 1) kind body) @ line_end # z"
    by (rule stdio_requests_answered [where l = "''ping''" and msg = "[(''id'', JInt 1), (''method'', JStr ''initialize'')]"])
      (simp_all only: lines, simp_all add: strip example_io_def max_line_bytes_def)
  then show ?thesis by (auto simp: example_io_def)
qed

theorem stdio_parser_error_ends_server_witness:
  "run_stdio_server example_io demo_registry ''GENERAL'' ''mcp'' (''1'' @ line_end # ''ping'') empty_server
    = Some (Inl (ValueError ''too many digits''), empty_server)"
proof -
  have strip: "str_strip ''1'' = ''1''" by code_simp
  show ?thesis
    by (rule stdio_parser_error_ends_server [THEN spec]) (simp_all add: strip example_io_def max_line_bytes_def line_end_def)
qed

end
