(* ===== verification/Mcp_Http.thy ===== *)
theory Mcp_Http
  imports Tools_Api Mcp_Stdio
begin

text \<open>
  The HTTP and SSE transport of \<open>core/mcp_http_server.py\<close>: the checks of a message, the three ways a
  response is given, and the event stream of a session.

  The server is a process of its own: its \<open>api\<close> state holds its key store, tenants, limiter and
  audit log.  \<open>mh_loads\<close> is \<open>json.loads\<close> of the decoded body, where any exception counts as
  malformed.  A message is handled between two awaits, so at once.
\<close>

section \<open>One message\<close>

definition max_payload_bytes :: nat where
  "max_payload_bytes = 100 * 1024"

definition max_session_lifetime :: real where
  "max_session_lifetime = 600"

record mcp_request =
  mq_authorization :: "string option"
  mq_api_key :: "string option"
  mq_peer :: "string option"
  mq_body :: string
  mq_session :: "string option"

record session =
  ss_queue :: "json list"
  ss_started :: real

type_synonym 'w mcp_world = "'w \<times> (string, session) odict"
type_synonym ('v, 'w) mcp_state = "'v api \<times> 'w mcp_world"

definition jsonrpc_error :: "int \<Rightarrow> int \<Rightarrow> string \<Rightarrow> int \<times> json" where
  "jsonrpc_error status code message = (status, mcp_error JNull code message)"

definition read_and_validate_body :: "(string \<Rightarrow> json option) \<Rightarrow> mcp_request \<Rightarrow> (int \<times> json, (string \<times> json) list) res" where
  "read_and_validate_body loads mq =
     (if length (mq_body mq) > max_payload_bytes then
        Inl (jsonrpc_error 413 (- 32000) (''Request payload exceeds maximum size of '' @ int_str (int max_payload_bytes) @ '' bytes.''))
      else case loads (mq_body mq) of
          None \<Rightarrow> Inl (jsonrpc_error 400 (- 32700) ''Parse error: malformed JSON payload.'')
        | Some j \<Rightarrow>
            if is_dict j then Inr (dict_items j)
            else Inl (jsonrpc_error 400 (- 32600) ''Invalid Request: top-level JSON-RPC payload must be a JSON object.''))"

definition non_empty :: "string option \<Rightarrow> bool" where
  "non_empty h \<longleftrightarrow> h \<noteq> None \<and> h \<noteq> Some []"

definition mcp_auth_header :: "mcp_request \<Rightarrow> string option" where
  "mcp_auth_header mq =
     (if \<not> non_empty (mq_authorization mq) \<and> non_empty (mq_api_key mq)
      then map_option (\<lambda>k. ''Bearer '' @ k) (mq_api_key mq) else mq_authorization mq)"

definition mcp_client_address :: "mcp_request \<Rightarrow> string" where
  "mcp_client_address mq = (case mq_peer mq of Some a \<Rightarrow> a | None \<Rightarrow> ''unknown'')"

definition mcp_principal :: "'v api_env \<Rightarrow> mcp_request \<Rightarrow> 'v api \<Rightarrow> (principal, 'v api) outcome" where
  "mcp_principal en mq s =
     (let (r, ks) = resolve_principal (en_sha en) (en_keys en) (mcp_auth_header mq) None (ap_keys s)
      in (lift_error r, s\<lparr>ap_keys := ks\<rparr>))"

definition mcp_rate_limit ::
  "api_config \<Rightarrow> 'v api_env \<Rightarrow> mcp_request \<Rightarrow> principal \<Rightarrow> tenant_config \<Rightarrow> 'v api \<Rightarrow> (unit, 'v api) outcome" where
  "mcp_rate_limit cf en mq p tc s =
     (if \<not> cf_rate_enabled cf then (Inr (), s)
      else
        let identity = (if pr_authenticated p then ''key:'' @ pr_key_id p else ''ip:'' @ mcp_client_address mq);
            ((allowed, retry_after), s') =
              (case rate_of cf p tc of
                 PFin rpm \<Rightarrow>
                   (let (capacity, refill) = bucket_parameters rpm (cf_burst cf);
                        (a, (l, d)) = limiter_check en identity capacity refill (ap_limiter s, ap_redis s)
                    in (a, s\<lparr>ap_limiter := l, ap_redis := d\<rparr>))
               | _ \<Rightarrow> (en_odd_rate en identity, s))
        in (if allowed then Inr () else Inl (Http 429 [(''Retry-After'', int_str (py_int retry_after + 1))]), s'))"

definition mcp_boundary ::
  "api_config \<Rightarrow> 'v api_env \<Rightarrow> mcp_request \<Rightarrow> 'v api \<Rightarrow> (principal, 'v api) outcome" where
  "mcp_boundary cf en mq s =
     and_then (mcp_principal en mq s) (\<lambda>p s1.
       if auth_required (cf_auth_mode cf) \<and> \<not> pr_authenticated p then (Inl (Http 401 bearer_challenge), s1)
       else and_then (find_tenant en (pr_tenant p) s1) (\<lambda>tc s2.
         if suspended tc then (Inl (Http 403 []), s2)
         else and_then (mcp_rate_limit cf en mq p tc s2) (\<lambda>_ s3. (Inr p, s3))))"

definition run_request ::
  "api_config \<Rightarrow> 'v api_env \<Rightarrow> 'w registry \<Rightarrow> principal \<Rightarrow> (string \<times> json) list \<Rightarrow> 'v api \<times> 'w
   \<Rightarrow> (json option, 'v api \<times> 'w) outcome" where
  "run_request cf en reg p body s =
     (let (r, g) = handle_request reg (pr_capability p) (pr_tenant p) (en_uuid en) body \<lparr>gw_audit = [], gw_world = snd s\<rparr>
      in and_then (on_fst (write_tool_events cf en (gw_audit g)) (fst s, gw_world g)) (\<lambda>_ s'. (lift_error r, s')))"

definition dispatch_rpc ::
  "api_config \<Rightarrow> 'v api_env \<Rightarrow> 'w registry \<Rightarrow> mcp_request \<Rightarrow> (string \<times> json) list \<Rightarrow> ('v, 'w) mcp_state
   \<Rightarrow> (json option, ('v, 'w) mcp_state) outcome" where
  "dispatch_rpc cf en reg mq body s =
     (let (a, (w, ses)) = s;
          (r, (a', w')) = and_then (on_fst (mcp_boundary cf en mq) (a, w)) (\<lambda>p. run_request cf en reg p body)
      in (r, (a', (w', ses))))"

definition direct_answer :: "json option \<Rightarrow> int \<times> json" where
  "direct_answer response = (case response of None \<Rightarrow> (202, JDict []) | Some j \<Rightarrow> (200, j))"

definition enqueue_response :: "string \<Rightarrow> json option \<Rightarrow> ('v, 'w) mcp_state \<Rightarrow> ('v, 'w) mcp_state" where
  "enqueue_response sid response s =
     (let (a, (w, ses)) = s in
      case (response, od_get ses sid) of
        (Some j, Some q) \<Rightarrow> (a, (w, od_set sid (q\<lparr>ss_queue := ss_queue q @ [j]\<rparr>) ses))
      | _ \<Rightarrow> s)"

definition mcp_messages ::
  "api_config \<Rightarrow> 'v api_env \<Rightarrow> (string \<Rightarrow> json option) \<Rightarrow> 'w registry \<Rightarrow> mcp_request \<Rightarrow> ('v, 'w) mcp_state
   \<Rightarrow> (int \<times> json, ('v, 'w) mcp_state) outcome" where
  "mcp_messages cf en loads reg mq s =
     (case read_and_validate_body loads mq of
        Inl answer \<Rightarrow> (Inr answer, s)
      | Inr body \<Rightarrow>
          (case mq_session mq of
             Some sid \<Rightarrow>
               if od_get (snd (snd s)) sid = None then (Inl (Http 404 []), s)
               else and_then (dispatch_rpc cf en reg mq body s) (\<lambda>response s1.
                 (Inr (202, JDict [(''status'', JStr ''accepted'')]), enqueue_response sid response s1))
           | None \<Rightarrow> and_then (dispatch_rpc cf en reg mq body s) (\<lambda>response s1. (Inr (direct_answer response), s1))))"

definition mcp_jsonrpc ::
  "api_config \<Rightarrow> 'v api_env \<Rightarrow> (string \<Rightarrow> json option) \<Rightarrow> 'w registry \<Rightarrow> mcp_request \<Rightarrow> ('v, 'w) mcp_state
   \<Rightarrow> (int \<times> json, ('v, 'w) mcp_state) outcome" where
  "mcp_jsonrpc cf en loads reg mq s =
     (case read_and_validate_body loads mq of
        Inl answer \<Rightarrow> (Inr answer, s)
      | Inr body \<Rightarrow> and_then (dispatch_rpc cf en reg mq body s) (\<lambda>response s1. (Inr (direct_answer response), s1)))"

section \<open>The event stream\<close>

datatype sse_event = Endpoint string | Message json | Ping

datatype client = Connected | Disconnected | CheckRaises

text \<open>Opening a session yields the endpoint event; nothing is asked of the caller.\<close>

definition mcp_sse :: "string \<Rightarrow> real \<Rightarrow> (string, session) odict \<Rightarrow> sse_event list \<times> (string, session) odict" where
  "mcp_sse sid now ses =
     ([Endpoint (''/mcp/messages?sessionId='' @ sid)], od_set sid \<lparr>ss_queue = [], ss_started = now\<rparr> ses)"

text \<open>
  One turn of the generator of an open session; \<open>now\<close> is the clock at its top and the queue is the
  one \<open>queue.get\<close> finds, or the one still empty when its second is over.  A turn that leaves the
  loop takes the session off the table.
\<close>

definition sse_turn ::
  "string \<Rightarrow> real \<Rightarrow> client \<Rightarrow> bool \<Rightarrow> (string, session) odict \<Rightarrow> sse_event list \<times> (string, session) odict" where
  "sse_turn sid now client once ses =
     (case od_get ses sid of
        None \<Rightarrow> ([], ses)
      | Some q \<Rightarrow>
          if now - ss_started q > max_session_lifetime then ([], od_del sid ses)
          else if client \<noteq> Connected then ([], od_del sid ses)
          else case ss_queue q of
              j # js \<Rightarrow> ([Message j], od_set sid (q\<lparr>ss_queue := js\<rparr>) ses)
            | [] \<Rightarrow> if once then ([], od_del sid ses) else ([Ping], ses))"

section \<open>The server as a state machine\<close>

text \<open>
  The streams are what the server has yielded to each session, the posted responses what it has
  accepted for it; \<open>used\<close> are the identifiers given out, which \<open>uuid4\<close> never repeats.
\<close>

record ('v, 'w) relay =
  rl_state :: "('v, 'w) mcp_state"
  rl_streams :: "string \<Rightarrow> sse_event list"
  rl_posted :: "string \<Rightarrow> json list"
  rl_used :: "string set"

definition relay0 :: "'v api \<Rightarrow> 'w \<Rightarrow> ('v, 'w) relay" where
  "relay0 a w = \<lparr>rl_state = (a, (w, [])), rl_streams = (\<lambda>_. []), rl_posted = (\<lambda>_. []), rl_used = {}\<rparr>"

definition yield_to :: "string \<Rightarrow> sse_event list \<times> (string, session) odict \<Rightarrow> ('v, 'w) relay \<Rightarrow> ('v, 'w) relay" where
  "yield_to sid x r =
     r\<lparr>rl_state := (fst (rl_state r), (fst (snd (rl_state r)), snd x)),
       rl_streams := (rl_streams r)(sid := rl_streams r sid @ fst x)\<rparr>"

inductive relay_step ::
  "api_config \<Rightarrow> (string \<Rightarrow> json option) \<Rightarrow> 'w registry \<Rightarrow> ('v, 'w) relay \<Rightarrow> ('v, 'w) relay \<Rightarrow> bool"
  for cf loads reg where
  opened: "sid \<notin> rl_used r \<Longrightarrow>
     relay_step cf loads reg r ((yield_to sid (mcp_sse sid now (snd (snd (rl_state r)))) r)\<lparr>rl_used := insert sid (rl_used r)\<rparr>)"
| turn: "relay_step cf loads reg r (yield_to sid (sse_turn sid now client once (snd (snd (rl_state r)))) r)"
| refused: "read_and_validate_body loads mq = Inl answer \<Longrightarrow> relay_step cf loads reg r r"
| relayed: "read_and_validate_body loads mq = Inr body \<Longrightarrow> mq_session mq = Some sid \<Longrightarrow>
     od_get (snd (snd (rl_state r))) sid \<noteq> None \<Longrightarrow>
     dispatch_rpc cf en reg mq body (rl_state r) = (Inr response, s) \<Longrightarrow>
     relay_step cf loads reg r
       (r\<lparr>rl_state := enqueue_response sid response s,
          rl_posted := (rl_posted r)(sid := rl_posted r sid @ (case response of None \<Rightarrow> [] | Some j \<Rightarrow> [j]))\<rparr>)"
| direct: "read_and_validate_body loads mq = Inr body \<Longrightarrow> mq_session mq = None \<Longrightarrow>
     dispatch_rpc cf en reg mq body (rl_state r) = (x, s) \<Longrightarrow> relay_step cf loads reg r (r\<lparr>rl_state := s\<rparr>)"
| failed: "read_and_validate_body loads mq = Inr body \<Longrightarrow>
     dispatch_rpc cf en reg mq body (rl_state r) = (Inl e, s) \<Longrightarrow> relay_step cf loads reg r (r\<lparr>rl_state := s\<rparr>)"

inductive_cases relay_stepE: "relay_step cf loads reg r r'"

section \<open>What a message may do\<close>

lemma execute_raises: "execute_tool r capability name arguments tenant rid g = (Inl e, g') \<Longrightarrow> g' = g"
  by (auto simp: execute_tool_def Let_def split: sum.splits option.splits if_splits prod.splits)

lemma request_effect:
  assumes "handle_request r capability tenant rid msg g = (x, g')" "g' \<noteq> g"
  shows "\<exists>ps name res. map_of msg ''method'' = Some (JStr ''tools/call'') \<and> map_of msg ''params'' = Some (JDict ps)
    \<and> map_of ps ''name'' = Some (JStr name)
    \<and> is_dict (or_empty (jget_or (JDict ps) ''arguments'' JNull))
    \<and> execute_tool r capability name (or_empty (jget_or (JDict ps) ''arguments'' JNull)) tenant rid g = (Inr res, g')"
proof -
  have m: "map_of msg ''method'' = Some (JStr ''tools/call'')"
  proof (cases "map_of msg ''method''")
    case (Some j)
    then show ?thesis using assms by (cases j) (simp_all add: handle_request_def Let_def split: if_splits)
  qed (use assms in \<open>simp add: handle_request_def\<close>)
  let ?params = "or_empty (jget_or (JDict msg) ''params'' JNull)"
  obtain ps where ps: "?params = JDict ps"
    using assms m by (cases ?params) (simp_all add: handle_request_def Let_def)
  let ?args = "or_empty (jget_or (JDict ps) ''arguments'' JNull)"
  obtain c cs where name: "map_of ps ''name'' = Some (JStr (c # cs))"
  proof (cases "map_of ps ''name''")
    case None
    then show thesis using assms m ps by (simp add: handle_request_def Let_def)
  next
    case (Some j)
    show thesis
    proof (cases j)
      case (JStr n)
      then show thesis using assms m ps Some that by (cases n) (simp_all add: handle_request_def Let_def)
    qed (use assms m ps Some in \<open>simp_all add: handle_request_def Let_def\<close>)
  qed
  have par: "map_of msg ''params'' = Some (JDict ps)"
    using ps name by (auto simp: or_empty_def split: if_splits option.splits)
  have d: "is_dict ?args" using assms m ps name by (rule_tac ccontr) (simp add: handle_request_def Let_def)
  obtain res k where e: "execute_tool r capability (c # cs) ?args tenant rid g = (res, k)"
    by (cases "execute_tool r capability (c # cs) ?args tenant rid g")
  have k: "k = g'" using assms(1) m ps name d e by (simp add: handle_request_def handle_mcp_tool_call_def Let_def)
  have "res \<noteq> Inl x" for x using execute_raises e k assms(2) by blast
  then obtain y where "res = Inr y" by (cases res) auto
  then show ?thesis using m par name d e k by blast
qed

lemma mcp_boundary_InrD:
  assumes "mcp_boundary cf en mq s = (Inr p, t)"
  shows "fst (resolve_principal (en_sha en) (en_keys en) (mcp_auth_header mq) None (ap_keys s)) = Inr p
    \<and> (auth_required (cf_auth_mode cf) \<longrightarrow> pr_authenticated p)
    \<and> (\<exists>tc. fst (resolve_tenant (en_tenants en) (pr_tenant p) (ap_tenants s)) = Inr tc \<and> \<not> suspended tc)"
  using assms
  by (auto simp: mcp_boundary_def mcp_principal_def find_tenant_def and_then_Inr_iff lift_error_def
      split: prod.splits sum.splits if_splits)

lemma mcp_boundary_same: "same_work s (snd (mcp_boundary cf en mq s))"
proof -
  have p: "same_work s (snd (mcp_principal en mq s))" for s
    by (simp add: mcp_principal_def same_work_def split: prod.splits)
  have r: "same_work s (snd (mcp_rate_limit cf en mq p tc s))" for p tc s
    by (auto simp: mcp_rate_limit_def same_work_def Let_def split: pyfloat.splits prod.splits)
  have t: "same_work t (snd (and_then (find_tenant en x t) (\<lambda>tc s2. if suspended tc then (Inl (Http 403 []), s2)
      else and_then (mcp_rate_limit cf en mq p tc s2) (\<lambda>_ s3. (Inr p, s3)))))" for x t p
    by (intro and_then_same) (auto intro: and_then_same r)
  show ?thesis unfolding mcp_boundary_def by (intro and_then_same) (auto intro: p t)
qed

text \<open>The session table is left alone, and the world is changed by an allowed tool call only.\<close>

lemma run_request_world: "snd (snd (run_request cf en reg p body (a, w))) =
    gw_world (snd (handle_request reg (pr_capability p) (pr_tenant p) (en_uuid en) body \<lparr>gw_audit = [], gw_world = w\<rparr>))"
  by (auto simp: run_request_def and_then_def on_fst_def Let_def split: prod.splits sum.splits)

lemma dispatch_sessions: "dispatch_rpc cf en reg mq body s = (r, t) \<Longrightarrow> snd (snd t) = snd (snd s)"
  by (auto simp: dispatch_rpc_def Let_def split: prod.splits)

definition allowed_call :: "api_config \<Rightarrow> 'v api_env \<Rightarrow> 'w registry \<Rightarrow> mcp_request \<Rightarrow> (string \<times> json) list \<Rightarrow> 'v api \<Rightarrow> 'w \<Rightarrow> 'w \<Rightarrow> bool" where
  "allowed_call cf en reg mq body a w w' \<longleftrightarrow>
     (\<exists>p ps name sp h c k. fst (resolve_principal (en_sha en) (en_keys en) (mcp_auth_header mq) None (ap_keys a)) = Inr p
        \<and> (auth_required (cf_auth_mode cf) \<longrightarrow> pr_authenticated p)
        \<and> (\<exists>tc. fst (resolve_tenant (en_tenants en) (pr_tenant p) (ap_tenants a)) = Inr tc \<and> \<not> suspended tc)
        \<and> map_of body ''method'' = Some (JStr ''tools/call'') \<and> map_of body ''params'' = Some (JDict ps) \<and> map_of ps ''name'' = Some (JStr name)
        \<and> od_get (rg_tools reg) name = Some sp \<and> od_get (rg_handlers reg) name = Some h
        \<and> capability_rank (pr_capability p) = Some c \<and> capability_rank (sp_capability sp) = Some k \<and> k \<le> c
        \<and> validate_arguments sp (or_empty (jget_or (JDict ps) ''arguments'' JNull)) = Inr (True, ''ok'')
        \<and> sp_risk_level sp \<noteq> ''HIGH''
        \<and> w' = snd (h (dict_items (or_empty (jget_or (JDict ps) ''arguments'' JNull))) w))"

lemma resolve_tenant_same_keys:
  assumes "mcp_boundary cf en mq a = (Inr p, a1)"
  shows "fst (resolve_principal (en_sha en) (en_keys en) (mcp_auth_header mq) None (ap_keys a)) = Inr p"
  using mcp_boundary_InrD [OF assms] by simp

lemma dispatch_effect:
  assumes "dispatch_rpc cf en reg mq body (a, (w, ses)) = (r, (a', (w', ses')))" "w' \<noteq> w"
  shows "allowed_call cf en reg mq body a w w'"
proof -
  obtain x a1 where b: "mcp_boundary cf en mq a = (x, a1)" by (cases "mcp_boundary cf en mq a")
  show ?thesis
  proof (cases x)
    case (Inl e)
    then show ?thesis using assms b by (simp add: dispatch_rpc_def on_fst_def)
  next
    case (Inr p)
    let ?g = "\<lparr>gw_audit = [], gw_world = w\<rparr>"
    let ?h = "handle_request reg (pr_capability p) (pr_tenant p) (en_uuid en) body ?g"
    obtain y g where h: "?h = (y, g)" by (cases ?h)
    have "snd (snd (run_request cf en reg p body (a1, w))) = w'"
      using assms(1) b Inr by (auto simp: dispatch_rpc_def on_fst_def split: prod.splits)
    then have g: "gw_world g = w'" using run_request_world [of cf en reg p body a1 w] h by simp
    then have "g \<noteq> ?g" using assms(2) by auto
    from request_effect [OF h this] obtain ps name res
      where e: "map_of body ''method'' = Some (JStr ''tools/call'')" "map_of body ''params'' = Some (JDict ps)"
        "map_of ps ''name'' = Some (JStr name)"
        "execute_tool reg (pr_capability p) name (or_empty (jget_or (JDict ps) ''arguments'' JNull)) (pr_tenant p) (en_uuid en) ?g = (Inr res, g)"
      by blast
    have allow: "tr_decision res = ''ALLOW''" using execute_tool_facts [OF e(4)] g assms(2) by (auto split: if_splits)
    obtain sp h c k where x: "od_get (rg_tools reg) name = Some sp" "od_get (rg_handlers reg) name = Some h"
      "capability_rank (pr_capability p) = Some c" "capability_rank (sp_capability sp) = Some k" "k \<le> c"
      "validate_arguments sp (or_empty (jget_or (JDict ps) ''arguments'' JNull)) = Inr (True, ''ok'')" "sp_risk_level sp \<noteq> ''HIGH''"
      "gw_world g = snd (h (dict_items (or_empty (jget_or (JDict ps) ''arguments'' JNull))) (gw_world ?g))"
      using conjunct2 [OF execute_tool_facts [OF e(4)]] unfolding if_P [OF allow] by (elim exE conjE)
    note who = mcp_boundary_InrD [OF b [unfolded Inr]]
    have w: "w' = snd (h (dict_items (or_empty (jget_or (JDict ps) ''arguments'' JNull))) w)" using x(8) g by simp
    show ?thesis
      unfolding allowed_call_def
      by (rule exI [of _ p], rule exI [of _ ps], rule exI [of _ name], rule exI [of _ sp], rule exI [of _ h],
          rule exI [of _ c], rule exI [of _ k]) (use who e(1-3) x(1-7) w in blast)
  qed
qed

section \<open>What a stream delivers\<close>

definition delivered :: "sse_event list \<Rightarrow> json list" where
  "delivered es = concat (map (\<lambda>e. case e of Message j \<Rightarrow> [j] | _ \<Rightarrow> []) es)"

lemma delivered_simps [simp]:
  "delivered [] = []" "delivered (xs @ ys) = delivered xs @ delivered ys"
  "delivered [Message j] = [j]" "delivered [Ping] = []" "delivered [Endpoint u] = []"
  by (simp_all add: delivered_def)

definition sessions_of :: "('v, 'w) relay \<Rightarrow> (string, session) odict" where
  "sessions_of r = snd (snd (rl_state r))"

definition relay_inv :: "('v, 'w) relay \<Rightarrow> bool" where
  "relay_inv r \<longleftrightarrow>
     (\<forall>sid. (\<exists>z. rl_posted r sid = delivered (rl_streams r sid) @ z)
        \<and> (\<forall>q. od_get (sessions_of r) sid = Some q \<longrightarrow>
             sid \<in> rl_used r \<and> rl_posted r sid = delivered (rl_streams r sid) @ ss_queue q)
        \<and> (sid \<notin> rl_used r \<longrightarrow> rl_streams r sid = [] \<and> rl_posted r sid = []))"

lemma relay_invI:
  assumes "\<And>sid. \<exists>z. rl_posted r sid = delivered (rl_streams r sid) @ z"
    and "\<And>sid q. od_get (sessions_of r) sid = Some q \<Longrightarrow> sid \<in> rl_used r \<and> rl_posted r sid = delivered (rl_streams r sid) @ ss_queue q"
    and "\<And>sid. sid \<notin> rl_used r \<Longrightarrow> rl_streams r sid = [] \<and> rl_posted r sid = []"
  shows "relay_inv r"
  using assms unfolding relay_inv_def by blast

lemma relay_invD:
  assumes "relay_inv r"
  shows "\<exists>z. rl_posted r sid = delivered (rl_streams r sid) @ z"
    and "od_get (sessions_of r) sid = Some q \<Longrightarrow> sid \<in> rl_used r \<and> rl_posted r sid = delivered (rl_streams r sid) @ ss_queue q"
    and "sid \<notin> rl_used r \<Longrightarrow> rl_streams r sid = [] \<and> rl_posted r sid = []"
  using assms unfolding relay_inv_def by blast+

lemma relay_inv_start: "relay_inv (relay0 a w)"
  by (simp add: relay_inv_def relay0_def sessions_of_def)

lemma relay_inv_same:
  assumes "relay_inv r" "snd (snd s) = sessions_of r"
  shows "relay_inv (r\<lparr>rl_state := s\<rparr>)"
  using assms by (simp add: relay_inv_def sessions_of_def)

lemma relay_inv_turn:
  assumes "relay_inv r"
  shows "relay_inv (yield_to sid (sse_turn sid now client once (snd (snd (rl_state r)))) r)"
proof (cases "od_get (sessions_of r) sid")
  case None
  then have "sse_turn sid now client once (snd (snd (rl_state r))) = ([], sessions_of r)"
    by (simp add: sse_turn_def sessions_of_def)
  then show ?thesis using assms by (simp add: relay_inv_def yield_to_def sessions_of_def)
next
  case (Some q)
  note inv = relay_invD [OF assms]
  have post: "rl_posted r sid = delivered (rl_streams r sid) @ ss_queue q" "sid \<in> rl_used r" using inv(2) [OF Some] by simp_all
  have "sse_turn sid now client once (snd (snd (rl_state r))) = ([], od_del sid (sessions_of r))
      \<or> (\<exists>j js. ss_queue q = j # js \<and> sse_turn sid now client once (snd (snd (rl_state r))) = ([Message j], od_set sid (q\<lparr>ss_queue := js\<rparr>) (sessions_of r)))
      \<or> sse_turn sid now client once (snd (snd (rl_state r))) = ([Ping], sessions_of r)"
    using Some by (auto simp: sse_turn_def sessions_of_def split: list.split)
  then show ?thesis
  proof (elim disjE exE conjE)
    assume "sse_turn sid now client once (snd (snd (rl_state r))) = ([], od_del sid (sessions_of r))"
    then show ?thesis using inv by (intro relay_invI) (auto simp: yield_to_def sessions_of_def split: if_splits)
  next
    fix j js assume "ss_queue q = j # js" "sse_turn sid now client once (snd (snd (rl_state r))) = ([Message j], od_set sid (q\<lparr>ss_queue := js\<rparr>) (sessions_of r))"
    then show ?thesis using inv post by (intro relay_invI) (auto simp: yield_to_def sessions_of_def split: if_splits)
  next
    assume "sse_turn sid now client once (snd (snd (rl_state r))) = ([Ping], sessions_of r)"
    then show ?thesis using inv post by (intro relay_invI) (auto simp: yield_to_def sessions_of_def split: if_splits)
  qed
qed

lemma relay_inv_relayed:
  assumes "relay_inv r" "od_get (sessions_of r) sid = Some q" "snd (snd s) = sessions_of r"
  shows "relay_inv (r\<lparr>rl_state := enqueue_response sid response s,
          rl_posted := (rl_posted r)(sid := rl_posted r sid @ (case response of None \<Rightarrow> [] | Some j \<Rightarrow> [j]))\<rparr>)"
proof (cases response)
  case None
  then have "enqueue_response sid response s = s" by (simp add: enqueue_response_def split_beta)
  then show ?thesis using assms None by (auto simp: relay_inv_def sessions_of_def)
next
  case (Some j)
  then have "enqueue_response sid response s = (fst s, (fst (snd s), od_set sid (q\<lparr>ss_queue := ss_queue q @ [j]\<rparr>) (sessions_of r)))"
    using assms(2,3) by (simp add: enqueue_response_def split_beta)
  then show ?thesis using relay_invD [OF assms(1)] assms(2) Some
    by (intro relay_invI) (force simp: sessions_of_def split: if_splits)+
qed

lemma relay_step_inv: "relay_step cf loads reg r r' \<Longrightarrow> relay_inv r \<Longrightarrow> relay_inv r'"
proof (induction rule: relay_step.induct)
  case (opened sid r now)
  note inv = relay_invD [OF opened.prems]
  show ?case using inv opened.hyps
    by (intro relay_invI) (force simp: yield_to_def mcp_sse_def sessions_of_def split: if_splits)+
next
  case (turn r sid now client once)
  then show ?case by (rule relay_inv_turn)
next
  case (relayed mq body sid r en response s)
  then show ?case using dispatch_sessions [OF relayed.hyps(4)] by (auto simp: sessions_of_def intro: relay_inv_relayed)
next
  case (direct mq body en r x s)
  then show ?case using dispatch_sessions [OF direct.hyps(3)] by (auto simp: sessions_of_def intro: relay_inv_same)
next
  case (failed mq body en r e s)
  then show ?case using dispatch_sessions [OF failed.hyps(2)] by (auto simp: sessions_of_def intro: relay_inv_same)
qed

lemma relay_reachable_inv: "(relay_step cf loads reg)\<^sup>*\<^sup>* (relay0 a w) r \<Longrightarrow> relay_inv r"
  by (induction rule: rtranclp_induct) (auto intro: relay_inv_start relay_step_inv)

section \<open>Properties\<close>

text \<open>
  C26. Responses reach the session they were posted for, in order and once.  In every reachable
  state of the server the messages a stream has delivered are an initial part of the responses
  accepted for its session, and while the session is open the rest is exactly its queue.
\<close>

theorem session_relay_exact:
  assumes "(relay_step cf loads reg)\<^sup>*\<^sup>* (relay0 a w) r"
  shows "(\<exists>z. rl_posted r sid = delivered (rl_streams r sid) @ z)
    \<and> (\<forall>q. od_get (sessions_of r) sid = Some q \<longrightarrow> rl_posted r sid = delivered (rl_streams r sid) @ ss_queue q)"
  using relay_invD [OF relay_reachable_inv [OF assms]] by blast

text \<open>
  C8. A message changes the world the tools act on only as an allowed tool call.  Over any of the
  endpoints the caller was resolved from its key, authenticated where that is required, its tenant
  not suspended; the tool is registered, the caller's rank suffices, the arguments are accepted,
  the risk is below HIGH, and the change is what the tool's handler does.
\<close>

theorem mcp_call_gated:
  assumes "mcp_messages cf en loads reg mq (a, (w, ses)) = (r, (a', (w', ses')))
      \<or> mcp_jsonrpc cf en loads reg mq (a, (w, ses)) = (r, (a', (w', ses')))"
    and "w' \<noteq> w"
  shows "\<exists>body. loads (mq_body mq) = Some (JDict body) \<and> length (mq_body mq) \<le> max_payload_bytes
    \<and> allowed_call cf en reg mq body a w w'"
proof -
  obtain body where body: "read_and_validate_body loads mq = Inr body"
    using assms by (cases "read_and_validate_body loads mq") (auto simp: mcp_messages_def mcp_jsonrpc_def)
  then have l: "loads (mq_body mq) = Some (JDict body)" "length (mq_body mq) \<le> max_payload_bytes"
    by (auto simp: read_and_validate_body_def split: if_splits option.splits elim: is_dict.elims)
  obtain x a1 w1 ses1 where d: "dispatch_rpc cf en reg mq body (a, (w, ses)) = (x, (a1, (w1, ses1)))"
    by (cases "dispatch_rpc cf en reg mq body (a, (w, ses))") auto
  have "fst (snd (enqueue_response sid y (a1, (w1, ses1)))) = w1" for sid y
    by (auto simp: enqueue_response_def split: option.split)
  then have "w' = w1"
    using assms body d
    by (cases x) (auto simp: mcp_messages_def mcp_jsonrpc_def and_then_def split: option.splits if_splits; metis fst_conv snd_conv)+
  then show ?thesis using dispatch_effect [OF d] assms(2) l by blast
qed

section \<open>The end of a stream\<close>

text \<open>Turns of one session's generator, each after the responses that other requests have posted.\<close>

definition post_all :: "string \<Rightarrow> json list \<Rightarrow> (string, session) odict \<Rightarrow> (string, session) odict" where
  "post_all sid js ses =
     (case od_get ses sid of None \<Rightarrow> ses | Some q \<Rightarrow> od_set sid (q\<lparr>ss_queue := ss_queue q @ js\<rparr>) ses)"

fun run_stream ::
  "string \<Rightarrow> (json list \<times> real \<times> client \<times> bool) list \<Rightarrow> (string, session) odict \<Rightarrow> sse_event list \<times> (string, session) odict" where
  "run_stream sid [] ses = ([], ses)"
| "run_stream sid ((posts, now, client, once) # ts) ses =
     (let (es, ses1) = sse_turn sid now client once (post_all sid posts ses);
          (es', ses2) = run_stream sid ts ses1
      in (es @ es', ses2))"

definition open_since :: "string \<Rightarrow> real \<Rightarrow> (string, session) odict \<Rightarrow> bool" where
  "open_since sid t ses \<longleftrightarrow> (\<forall>q. od_get ses sid = Some q \<longrightarrow> ss_started q = t)"

lemma closed_turn: "od_get ses sid = None \<Longrightarrow> sse_turn sid now client once (post_all sid js ses) = ([], ses)"
  by (simp add: sse_turn_def post_all_def)

lemma closed_stream: "od_get ses sid = None \<Longrightarrow> run_stream sid ts ses = ([], ses)"
  by (induction ts) (auto simp: closed_turn)

lemma turn_since: "open_since sid t ses \<Longrightarrow> open_since sid t (snd (sse_turn sid now client once (post_all sid js ses)))"
  by (auto simp: open_since_def sse_turn_def post_all_def split: option.splits list.splits if_splits)

lemma last_turn:
  assumes "open_since sid t ses" "now - t > max_session_lifetime \<or> client \<noteq> Connected"
  shows "\<exists>ses'. sse_turn sid now client once (post_all sid js ses) = ([], ses') \<and> od_get ses' sid = None"
  using assms by (auto simp: open_since_def sse_turn_def post_all_def split: option.splits)

text \<open>
  Every stream ends.  Once a turn finds the client gone or the clock more than the maximum
  lifetime past the opening, the generator leaves its loop: nothing is yielded from that turn on,
  and the session is off the table for good, whatever is still posted to it.
\<close>

theorem sse_stream_ends:
  assumes "od_get ses sid = Some q" "now - ss_started q > max_session_lifetime \<or> client \<noteq> Connected"
  shows "fst (run_stream sid (ts @ (posts, now, client, once) # us) ses) = fst (run_stream sid ts ses)
    \<and> od_get (snd (run_stream sid (ts @ (posts, now, client, once) # us) ses)) sid = None"
proof -
  have "open_since sid (ss_started q) ses" using assms(1) by (simp add: open_since_def)
  then show ?thesis
  proof (induction ts arbitrary: ses)
    case Nil
    then obtain ses' where "sse_turn sid now client once (post_all sid posts ses) = ([], ses')" "od_get ses' sid = None"
      using last_turn [OF _ assms(2)] by blast
    then show ?case by (simp add: closed_stream)
  next
    case (Cons x ts)
    obtain js n c o1 where x: "x = (js, n, c, o1)" by (cases x)
    obtain es ses1 where t: "sse_turn sid n c o1 (post_all sid js ses) = (es, ses1)"
      by (cases "sse_turn sid n c o1 (post_all sid js ses)")
    have "open_since sid (ss_started q) ses1" using turn_since [OF Cons.prems, of n c o1 js] t by simp
    then show ?case using Cons.IH [of ses1] by (simp add: x t split_beta)
  qed
qed

section \<open>Witnesses\<close>

theorem sse_stream_ends_witness:
  "od_get (snd (run_stream ''s'' [([JInt 1], 1, Connected, False), ([], 700, Connected, False), ([JInt 2], 701, Connected, False)]
      (snd (mcp_sse ''s'' 0 [])))) ''s'' = None"
  using sse_stream_ends [of "snd (mcp_sse ''s'' 0 [])" "''s''" "\<lparr>ss_queue = [], ss_started = 0\<rparr>" 700 Connected
      "[([JInt 1], 1, Connected, False)]" "[]" False "[([JInt 2], 701, Connected, False)]"]
  by (simp add: mcp_sse_def max_session_lifetime_def)

theorem session_relay_exact_witness:
  "\<exists>r. (relay_step example_config (\<lambda>b. None) demo_registry)\<^sup>*\<^sup>* (relay0 example_api fake_database) r
    \<and> rl_streams r ''s'' = [Endpoint ''/mcp/messages?sessionId=s'', Ping]
    \<and> (\<exists>z. rl_posted r ''s'' = delivered (rl_streams r ''s'') @ z)"
proof -
  let ?r0 = "relay0 example_api fake_database"
  let ?r1 = "(yield_to ''s'' (mcp_sse ''s'' 0 (snd (snd (rl_state ?r0)))) ?r0)\<lparr>rl_used := insert ''s'' (rl_used ?r0)\<rparr>"
  let ?r2 = "yield_to ''s'' (sse_turn ''s'' 1 Connected False (snd (snd (rl_state ?r1)))) ?r1"
  let ?step = "relay_step example_config (\<lambda>b. None) demo_registry"
  have 1: "?step ?r0 ?r1" by (rule relay_step.opened) (simp add: relay0_def)
  have 2: "?step ?r1 ?r2" by (rule relay_step.turn)
  have run: "?step\<^sup>*\<^sup>* ?r0 ?r2" by (rule rtranclp_trans [OF r_into_rtranclp [of ?step, OF 1] r_into_rtranclp [of ?step, OF 2]])
  have "rl_streams ?r2 ''s'' = [Endpoint ''/mcp/messages?sessionId=s'', Ping]"
    by (simp add: yield_to_def mcp_sse_def sse_turn_def relay0_def max_session_lifetime_def)
  then show ?thesis using run session_relay_exact [OF run, of "''s''"] by blast
qed

definition count_spec :: tool_spec where
  "count_spec = \<lparr>sp_name = ''count'', sp_description = ''Counts its calls.'', sp_parameters = object_schema [] [],
     sp_risk_level = ''LOW'', sp_capability = ''GENERAL''\<rparr>"

definition count_registry :: "nat registry" where
  "count_registry = \<lparr>rg_tools = [(''count'', count_spec)], rg_handlers = [(''count'', \<lambda>args n. (Inr JNull, n + 1))]\<rparr>"

definition count_call :: "(string \<times> json) list" where
  "count_call = [(''id'', JInt 1), (''method'', JStr ''tools/call''), (''params'', JDict [(''name'', JStr ''count'')])]"

definition count_request :: mcp_request where
  "count_request = \<lparr>mq_authorization = None, mq_api_key = None, mq_peer = None, mq_body = ''call'', mq_session = None\<rparr>"

lemma count_runs: "gw_world (snd (handle_request count_registry ''GENERAL'' ''default'' rid count_call \<lparr>gw_audit = [], gw_world = 0\<rparr>)) = 1"
proof -
  have d: "decide_tool_call ''GENERAL'' count_spec (JDict []) = Inr (tool_verdict ''ALLOW'' ''ok'' ''count'' (Some ''LOW''))" by code_simp
  have e: "gw_world (snd (execute_tool count_registry ''GENERAL'' ''count'' (JDict []) ''default'' rid \<lparr>gw_audit = [], gw_world = 0\<rparr>)) = 1"
    using d by (simp add: execute_tool_def get_tool_def count_registry_def log_tool_def tool_verdict_def Let_def)
  obtain res g where x: "execute_tool count_registry ''GENERAL'' ''count'' (JDict []) ''default'' rid \<lparr>gw_audit = [], gw_world = 0\<rparr> = (res, g)"
    by (cases "execute_tool count_registry ''GENERAL'' ''count'' (JDict []) ''default'' rid \<lparr>gw_audit = [], gw_world = 0\<rparr>")
  then have "gw_world g = 1" using e by simp
  then show ?thesis by (simp add: handle_request_def count_call_def or_empty_def handle_mcp_tool_call_def x)
qed

theorem mcp_call_gated_witness:
  "\<exists>r s'. mcp_jsonrpc example_config (example_env (NoReply []) True) (\<lambda>b. Some (JDict count_call)) count_registry count_request
        (example_api, (0, [])) = (r, s') \<and> fst (snd s') = 1
    \<and> allowed_call example_config (example_env (NoReply []) True) count_registry count_request count_call example_api 0 1"
proof -
  let ?en = "example_env (NoReply []) True" and ?a1 = "example_api\<lparr>ap_tenants := \<lparr>ts_tenants = [], ts_loaded = True\<rparr>\<rparr>"
  have b: "mcp_boundary example_config ?en count_request example_api = (Inr example_principal, ?a1)"
    by (simp add: mcp_boundary_def mcp_principal_def mcp_auth_header_def non_empty_def count_request_def resolve_principal_def
      extract_bearer_def example_env_def example_config_def example_api_def example_principal_def find_tenant_def
      resolve_tenant_def mcp_rate_limit_def ts_get_def ts_load_def new_tenant_store_def
      auth_required_def lift_error_def suspended_def default_tenant_def anonymous_def Let_def)
  obtain r a' w' ses' where run: "mcp_jsonrpc example_config ?en (\<lambda>b. Some (JDict count_call)) count_registry count_request
        (example_api, (0, [])) = (r, (a', (w', ses')))"
    by (cases "mcp_jsonrpc example_config ?en (\<lambda>b. Some (JDict count_call)) count_registry count_request (example_api, (0, []))") auto
  have body: "read_and_validate_body (\<lambda>b. Some (JDict count_call)) count_request = Inr count_call"
    by (simp add: read_and_validate_body_def max_payload_bytes_def count_request_def)
  have "snd (snd (run_request example_config ?en count_registry example_principal count_call (?a1, 0))) = 1"
    unfolding run_request_world using count_runs by (simp add: example_principal_def anonymous_def)
  then have "fst (snd (snd (dispatch_rpc example_config ?en count_registry count_request count_call (example_api, (0, []))))) = 1"
    by (simp add: dispatch_rpc_def on_fst_def b split_beta)
  then have "w' = 1" using run by (auto simp: mcp_jsonrpc_def body and_then_def split: prod.splits sum.splits)
  then show ?thesis using mcp_call_gated [OF disjI2 [OF run]] run by simp
qed

end
