(* ===== verification/Detectors.thy ===== *)
theory Detectors
  imports Risk Regex "HOL-Library.List_Lexorder" "HOL-Library.Char_ord"
begin

text \<open>
  The detector layer, \<open>core/detectors.py\<close>: the integrity check of model weights, the lazy loading of
  each kind of detector, scoring, and the registry.

  Parameters stand for the model hub, the tokenizers and the models themselves; \<open>'m\<close> is a loaded
  network.  A model maps token rows to rows of logits.  Messages of an integrity failure are
  replaced by the check that failed.
\<close>

section \<open>The integrity check\<close>

datatype integrity_check =
    NoManifest | UnreadableManifest | NotListed | RevisionMismatch | LookupFailed | NoWeightFile | HashMismatch

datatype load_exn = Integrity integrity_check | Other py_error

text \<open>
  The local cache of the hub: \<open>hb_cached\<close> is \<open>try_to_load_from_cache\<close> when it gives a path,
  \<open>hb_download\<close> the offline \<open>hf_hub_download\<close> when it does not raise, \<open>hb_sha\<close> the digest of the
  file at a path, if there is one.
\<close>

record hub =
  hb_cached :: "string \<Rightarrow> json \<Rightarrow> string option \<Rightarrow> (py_error, string option) res"
  hb_download :: "string \<Rightarrow> json \<Rightarrow> string option \<Rightarrow> string option"
  hb_sha :: "string \<Rightarrow> string option"

definition weight_exists :: "hub \<Rightarrow> string \<Rightarrow> bool" where
  "weight_exists hb path \<longleftrightarrow> hb_sha hb path \<noteq> None"

definition weight_candidates :: "json \<Rightarrow> json list" where
  "weight_candidates filename = (if truthy filename then [filename] else [JStr ''model.safetensors'', JStr ''pytorch_model.bin''])"

fun first_cached :: "hub \<Rightarrow> string \<Rightarrow> string option \<Rightarrow> json list \<Rightarrow> (py_error, string option) res" where
  "first_cached hb repo revision [] = Inr None"
| "first_cached hb repo revision (c # cs) =
     (case hb_cached hb repo c revision of
        Inl e \<Rightarrow> Inl e
      | Inr (Some path) \<Rightarrow> if weight_exists hb path then Inr (Some path) else first_cached hb repo revision cs
      | Inr None \<Rightarrow> first_cached hb repo revision cs)"

fun first_download :: "hub \<Rightarrow> string \<Rightarrow> string option \<Rightarrow> json list \<Rightarrow> string option \<Rightarrow> string option" where
  "first_download hb repo revision [] found = found"
| "first_download hb repo revision (c # cs) found =
     (case hb_download hb repo c revision of
        None \<Rightarrow> first_download hb repo revision cs found
      | Some path \<Rightarrow> if weight_exists hb path then Some path else first_download hb repo revision cs (Some path))"

text \<open>\<open>if not weight_path\<close>: an empty path counts as none.\<close>

definition weight_path :: "hub \<Rightarrow> string \<Rightarrow> string option \<Rightarrow> json list \<Rightarrow> (py_error, string option) res" where
  "weight_path hb repo revision candidates =
     bind_res (first_cached hb repo revision candidates) (\<lambda>found.
       case found of
         Some (c # p) \<Rightarrow> Inr found
       | _ \<Rightarrow> Inr (first_download hb repo revision candidates found))"

definition check_weights :: "hub \<Rightarrow> string \<Rightarrow> string option \<Rightarrow> json \<Rightarrow> json \<Rightarrow> (load_exn, unit) res" where
  "check_weights hb model_id revision filename expected =
     (case weight_path hb model_id revision (weight_candidates filename) of
        Inl e \<Rightarrow> Inl (Integrity LookupFailed)
      | Inr None \<Rightarrow> Inl (Integrity NoWeightFile)
      | Inr (Some path) \<Rightarrow>
          (case (path, hb_sha hb path) of
             ([], _) \<Rightarrow> Inl (Integrity NoWeightFile)
           | (_, None) \<Rightarrow> Inl (Integrity NoWeightFile)
           | (_, Some actual) \<Rightarrow> if JStr actual \<noteq> expected then Inl (Integrity HashMismatch) else Inr ()))"

definition truthy_text :: "string option \<Rightarrow> bool" where
  "truthy_text t \<longleftrightarrow> t \<noteq> None \<and> t \<noteq> Some []"

definition revision_json :: "string option \<Rightarrow> json" where
  "revision_json r = (case r of None \<Rightarrow> JNull | Some t \<Rightarrow> JStr t)"

text \<open>The manifest, and its entries, are as \<open>json.load\<close> gives them.\<close>

definition verify_detector_integrity ::
  "hub \<Rightarrow> disk_doc \<Rightarrow> string \<Rightarrow> string \<Rightarrow> string option \<Rightarrow> (load_exn, unit) res" where
  "verify_detector_integrity hb manifest name model_id revision =
     (case manifest of
        Missing \<Rightarrow> Inl (Integrity NoManifest)
      | Unreadable \<Rightarrow> Inl (Integrity UnreadableManifest)
      | Doc j \<Rightarrow>
          (case j of
             JDict d \<Rightarrow>
               (case map_of d name of
                  None \<Rightarrow> Inl (Integrity NotListed)
                | Some entry \<Rightarrow>
                    if \<not> is_dict entry then Inl (Other (AttributeError ''get''))
                    else
                      let expected_rev = jget_or entry ''revision'' JNull;
                          expected = jget_or entry ''sha256'' JNull
                      in if truthy expected_rev \<and> truthy_text revision \<and> expected_rev \<noteq> revision_json revision
                         then Inl (Integrity RevisionMismatch)
                         else if \<not> truthy expected then Inr ()
                         else check_weights hb model_id revision (jget_or entry ''filename'' JNull) expected)
           | JList l \<Rightarrow> if JStr name \<in> set l then Inl (Other (TypeError ''list indices'')) else Inl (Integrity NotListed)
           | JStr t \<Rightarrow> if str_contains name t then Inl (Other (TypeError ''string indices'')) else Inl (Integrity NotListed)
           | _ \<Rightarrow> Inl (Other (TypeError ''not iterable''))))"

section \<open>Lazy loading\<close>

text \<open>A detector's \<open>_model\<close> (or \<open>_encoder\<close>, \<open>_classifier\<close>) and \<open>_load_error\<close>.\<close>

record 'm slot =
  sl_model :: "'m option"
  sl_error :: "string option"

definition fresh_slot :: "'m slot" where
  "fresh_slot = \<lparr>sl_model = None, sl_error = None\<rparr>"

text \<open>What one attempt to load comes to before the integrity check: an error it records, an exception, or a model.\<close>

datatype 'm fetch = Latched string | FetchRaises py_error | Fetched 'm

definition load_error_text :: "(py_error \<Rightarrow> string) \<Rightarrow> (py_error \<Rightarrow> string) \<Rightarrow> py_error \<Rightarrow> string" where
  "load_error_text exn_name exn_text e = exn_name e @ '': '' @ take 200 (exn_text e)"

text \<open>
  The frame the four \<open>_load\<close> methods share.  The model is stored before the check runs, and an
  integrity failure leaves the method with the slot as it is by then.
\<close>

definition lazy_load ::
  "(py_error \<Rightarrow> string) \<Rightarrow> bool \<Rightarrow> (load_exn, unit) res \<Rightarrow> 'm fetch \<Rightarrow> 'm slot \<Rightarrow> (integrity_check, unit) res \<times> 'm slot" where
  "lazy_load err verify check fetched s =
     (if sl_model s \<noteq> None \<or> sl_error s \<noteq> None then (Inr (), s)
      else case fetched of
          Latched e \<Rightarrow> (Inr (), s\<lparr>sl_error := Some e\<rparr>)
        | FetchRaises e \<Rightarrow> (Inr (), s\<lparr>sl_error := Some (err e)\<rparr>)
        | Fetched m \<Rightarrow>
            let s1 = s\<lparr>sl_model := Some m\<rparr>
            in if \<not> verify then (Inr (), s1)
               else case check of
                   Inr u \<Rightarrow> (Inr (), s1)
                 | Inl (Integrity c) \<Rightarrow> (Inl c, s1)
                 | Inl (Other e) \<Rightarrow> (Inr (), s1\<lparr>sl_error := Some (err e)\<rparr>))"

section \<open>The kinds of detector\<close>

text \<open>A loaded network with what its detector keeps beside it.\<close>

record head =
  hd_mean :: "real list"
  hd_scale :: "real list"
  hd_coef :: "real list"
  hd_intercept :: real

datatype 'm loaded = Classifier 'm "nat list" | Encoder 'm head | SafetyModel 'm int int | Jailbreak 'm

subsection \<open>Sequence classifiers\<close>

record transformer =
  tf_name :: string
  tf_model_id :: string
  tf_revision :: "string option"
  tf_positive :: "string list"
  tf_targets :: "string list"
  tf_multi_label :: bool
  tf_max_length :: nat
  tf_trained_on :: "string list"

definition label_mismatch :: "string list \<Rightarrow> string list \<Rightarrow> string" where
  "label_mismatch positive labels =
     ''none of '' @ py_repr (JList (map JStr (sort (remdups positive)))) @ '' found in model labels ''
       @ py_repr (JList (map JStr (sort (map str_lower labels))))"

text \<open>\<open>pretrained\<close>: the hub's answer, a network with its \<open>id2label\<close>.\<close>

definition transformer_fetch :: "transformer \<Rightarrow> (py_error, 'm \<times> (nat \<times> string) list) res \<Rightarrow> 'm loaded fetch" where
  "transformer_fetch tf pretrained =
     (case pretrained of
        Inl e \<Rightarrow> FetchRaises e
      | Inr (m, id2label) \<Rightarrow>
          let positive = map str_lower (tf_positive tf);
              ids = map fst (filter (\<lambda>(i, label). str_lower label \<in> set positive) id2label)
          in if ids = [] then Latched (label_mismatch positive (map snd id2label)) else Fetched (Classifier m ids))"

definition sigmoid_of :: "real \<Rightarrow> real" where
  "sigmoid_of x = 1 / (1 + exp (- x))"

definition softmax :: "real list \<Rightarrow> real list" where
  "softmax row = map (\<lambda>x. exp x / sum_list (map exp row)) row"

definition positive_score :: "bool \<Rightarrow> nat list \<Rightarrow> real list \<Rightarrow> (py_error, real) res" where
  "positive_score multi_label ids row =
     (let probs = (if multi_label then map sigmoid_of row else softmax row) in
      if list_all (\<lambda>i. i < length probs) ids \<and> ids \<noteq> []
      then Inr (foldl max (probs ! hd ids) (map (\<lambda>i. probs ! i) (tl ids)))
      else Inl (IndexError ''index out of range''))"

definition non_blank :: "string \<Rightarrow> string" where
  "non_blank t = (if str_strip t = [] then '' '' else t)"

text \<open>\<open>texts[start:start + batch_size]\<close> for \<open>start\<close> in steps of a positive batch size.\<close>

function batches :: "nat \<Rightarrow> 'a list \<Rightarrow> 'a list list" where
  "batches n xs = (if n = 0 \<or> xs = [] then [] else take n xs # batches n (drop n xs))"
  by auto
termination
  by (relation "measure (\<lambda>(n, xs). length xs)") auto

declare batches.simps [simp del]

fun collect :: "('a \<Rightarrow> (py_error, 'b) res) \<Rightarrow> 'a list \<Rightarrow> (py_error, 'b list) res" where
  "collect f [] = Inr []"
| "collect f (x # xs) = bind_res (f x) (\<lambda>y. bind_res (collect f xs) (\<lambda>ys. Inr (y # ys)))"

text \<open>
  \<open>score_batch\<close> of a loaded classifier; \<open>encode n t\<close> is the tokenizer with its truncation to \<open>n\<close>,
  \<open>net\<close> the forward pass on a batch.
\<close>

definition classifier_scores ::
  "(nat \<Rightarrow> string \<Rightarrow> int list) \<Rightarrow> ('m \<Rightarrow> int list list \<Rightarrow> real list list) \<Rightarrow> transformer \<Rightarrow> nat \<Rightarrow> 'm \<Rightarrow> nat list \<Rightarrow> string list
   \<Rightarrow> (py_error, real list) res" where
  "classifier_scores encode net tf batch_size m ids texts =
     bind_res
       (collect (\<lambda>chunk. collect (positive_score (tf_multi_label tf) ids)
          (net m (map (\<lambda>t. encode (tf_max_length tf) (non_blank t)) chunk))) (batches batch_size texts))
       (\<lambda>rows. Inr (concat rows))"

subsection \<open>Embedding with a fitted head\<close>

text \<open>The artifact's fields, absent or present; its numbers are finite.\<close>

record head_artifact =
  ha_model_id :: "string option"
  ha_mean :: "real list option"
  ha_scale :: "real list option"
  ha_coef :: "real list option"
  ha_intercept :: "real option"
  ha_revision :: "string option"

definition head_missing :: "head_artifact \<Rightarrow> string list" where
  "head_missing a =
     map fst (filter snd [(''coefficients'', ha_coef a = None), (''intercept'', ha_intercept a = None), (''model_id'', ha_model_id a = None),
       (''scaler_mean'', ha_mean a = None), (''scaler_scale'', ha_scale a = None)])"

definition head_of :: "head_artifact \<Rightarrow> (py_error, head) res" where
  "head_of a =
     (if head_missing a \<noteq> []
      then Inl (ValueError (''artifact missing fields: '' @ py_repr (JList (map JStr (head_missing a)))))
      else if \<not> (length (the (ha_scale a)) = length (the (ha_coef a)) \<and> length (the (ha_coef a)) = length (the (ha_mean a)))
      then Inl (ValueError ''scaler/coefficients length mismatch'')
      else Inr \<lparr>hd_mean = the (ha_mean a), hd_scale = the (ha_scale a), hd_coef = the (ha_coef a), hd_intercept = the (ha_intercept a)\<rparr>)"

text \<open>
  \<open>artifact\<close>: nothing at the path, an error of \<open>open\<close> or of the parser, or the file; \<open>encoder\<close> is
  \<open>SentenceTransformer\<close> with and, for an older release that refuses the argument, without the
  revision.
\<close>

definition head_revision :: "string option \<Rightarrow> head_artifact \<Rightarrow> string option" where
  "head_revision revision a = (if truthy_text revision then revision else ha_revision a)"

definition head_fetch ::
  "string option \<Rightarrow> (py_error, head_artifact) res option \<Rightarrow> (string \<Rightarrow> string option option \<Rightarrow> (py_error, 'm) res) \<Rightarrow> 'm loaded fetch" where
  "head_fetch revision artifact encoder =
     (case artifact of
        None \<Rightarrow> FetchRaises (FileNotFoundError ''artifact not found'')
      | Some (Inl e) \<Rightarrow> FetchRaises e
      | Some (Inr a) \<Rightarrow>
          (case head_of a of
             Inl e \<Rightarrow> FetchRaises e
           | Inr h \<Rightarrow>
               (case encoder (the (ha_model_id a)) (Some (head_revision revision a)) of
                  Inr m \<Rightarrow> Fetched (Encoder m h)
                | Inl (TypeError t) \<Rightarrow>
                    (case encoder (the (ha_model_id a)) None of Inl e \<Rightarrow> FetchRaises e | Inr m \<Rightarrow> Fetched (Encoder m h))
                | Inl e \<Rightarrow> FetchRaises e)))"

fun head_sum :: "real \<Rightarrow> real list \<Rightarrow> real list \<Rightarrow> real list \<Rightarrow> real list \<Rightarrow> real" where
  "head_sum z (x # xs) (mean # ms) (scale # ss) (coef # cs) =
     head_sum (z + coef * (if scale \<noteq> 0 then (x - mean) / scale else 0)) xs ms ss cs"
| "head_sum z _ _ _ _ = z"

definition apply_head :: "head \<Rightarrow> real list \<Rightarrow> real" where
  "apply_head h vec =
     (let z = head_sum (hd_intercept h) vec (hd_mean h) (hd_scale h) (hd_coef h) in
      if z < - 60 then 0 else if z > 60 then 1 else 1 / (1 + exp (- z)))"

definition head_scores :: "('m \<Rightarrow> string list \<Rightarrow> real list list) \<Rightarrow> 'm \<Rightarrow> head \<Rightarrow> string list \<Rightarrow> real list" where
  "head_scores encode m h texts = map (apply_head h) (encode m (map non_blank texts))"

subsection \<open>Generative safety classifiers\<close>

record guard_spec =
  gd_name :: string
  gd_model_id :: string
  gd_revision :: "string option"
  gd_targets :: "string list"
  gd_trained_on :: "string list"
  gd_max_length :: nat
  gd_min_free_gb :: real

definition resolve_verdict_tokens :: "(string \<Rightarrow> int list) \<Rightarrow> (string, int \<times> int) res" where
  "resolve_verdict_tokens encode =
     (case (encode ''safe'', encode ''unsafe'') of
        (s # ss, u # us) \<Rightarrow>
          if s = u then Inl (repr_str ''safe'' @ '' and '' @ repr_str ''unsafe'' @ '' share first token id '' @ int_str s
                             @ ''; cannot separate verdicts from logits'')
          else Inr (s, u)
      | _ \<Rightarrow> Inl (''tokenizer produced no ids for '' @ repr_str ''safe'' @ ''/'' @ repr_str ''unsafe''))"

text \<open>
  \<open>free_gb\<close> is the memory \<open>psutil\<close> reports, if it is installed; \<open>one_decimal\<close> prints a number with
  one decimal; the tokenizer and the network come from the hub.
\<close>

definition guard_fetch ::
  "(real \<Rightarrow> string) \<Rightarrow> guard_spec \<Rightarrow> real option \<Rightarrow> (py_error, string \<Rightarrow> int list) res \<Rightarrow> (py_error, 'm) res \<Rightarrow> 'm loaded fetch" where
  "guard_fetch one_decimal gd free_gb tokenizer model =
     (if (case free_gb of None \<Rightarrow> False | Some gb \<Rightarrow> gb < gd_min_free_gb gd) then
        Latched (''insufficient memory: '' @ one_decimal (the free_gb) @ ''GB available, '' @ one_decimal (gd_min_free_gb gd)
          @ ''GB needed for '' @ gd_model_id gd @ ''. Close other processes or use a smaller variant.'')
      else case tokenizer of
          Inl e \<Rightarrow> FetchRaises e
        | Inr encode \<Rightarrow>
            (case resolve_verdict_tokens encode of
               Inl err \<Rightarrow> Latched err
             | Inr (s, u) \<Rightarrow> (case model of Inl e \<Rightarrow> FetchRaises e | Inr m \<Rightarrow> Fetched (SafetyModel m s u))))"

text \<open>A user turn in the two forms templates take; \<open>template\<close> is \<open>None\<close> when the tokenizer has none.\<close>

datatype content = Parts string | Plain string

definition content_marker :: string where
  "content_marker = ''GATEKEEPER_CONTENT_MARKER''"

fun with_marker :: "content \<Rightarrow> content" where
  "with_marker (Parts t) = Parts content_marker"
| "with_marker (Plain t) = Plain content_marker"

fun first_render :: "(content \<Rightarrow> string option) \<Rightarrow> content list \<Rightarrow> string option" where
  "first_render template [] = None"
| "first_render template (c # cs) =
     (case template c of
        None \<Rightarrow> first_render template cs
      | Some rendered \<Rightarrow>
          (let probe = (case template (with_marker c) of None \<Rightarrow> [] | Some p \<Rightarrow> p) in
           if str_contains content_marker probe then Some rendered else first_render template cs))"

definition render_chat :: "(content \<Rightarrow> string option) option \<Rightarrow> string \<Rightarrow> string option" where
  "render_chat template text1 =
     (case template of None \<Rightarrow> None | Some t \<Rightarrow> first_render t [Parts text1, Plain text1])"

definition blank_line :: string where
  "blank_line = [CHR 0x0A, CHR 0x0A]"

definition verdict_prefix :: string where
  "verdict_prefix = blank_line"

definition fallback_prompt :: "string \<Rightarrow> string" where
  "fallback_prompt text1 =
     ''<|begin_of_text|>Task: Check if there is unsafe content in the user message.'' @ blank_line
     @ ''<BEGIN CONVERSATION>'' @ blank_line @ ''User: '' @ text1 @ blank_line @ ''<END CONVERSATION>'' @ blank_line
     @ ''Provide your safety assessment. First line must be '' @ repr_str ''safe'' @ '' or '' @ repr_str ''unsafe'' @ ''.'' @ blank_line
     @ ''<|start_header_id|>assistant<|end_header_id|>''"

definition build_input :: "(content \<Rightarrow> string option) option \<Rightarrow> bool \<Rightarrow> string \<Rightarrow> string" where
  "build_input template for_scoring text1 =
     (case render_chat template text1 of Some p \<Rightarrow> p | None \<Rightarrow> fallback_prompt text1) @ (if for_scoring then verdict_prefix else [])"

text \<open>
  Truncation keeps the first \<open>max_length\<close> tokens; \<open>last_logits m rows\<close> are, per row, the logits
  after its last token, as a function of the token identifier.
\<close>

definition unsafe_probability :: "real \<Rightarrow> real \<Rightarrow> real" where
  "unsafe_probability safe_logit unsafe_logit = exp unsafe_logit / (exp safe_logit + exp unsafe_logit)"

definition guard_rows :: "(content \<Rightarrow> string option) option \<Rightarrow> (string \<Rightarrow> int list) \<Rightarrow> nat \<Rightarrow> string list \<Rightarrow> int list list" where
  "guard_rows template encode max_length texts =
     map (\<lambda>t. take max_length (encode (build_input template True (non_blank t)))) texts"

definition guard_scores ::
  "(content \<Rightarrow> string option) option \<Rightarrow> (string \<Rightarrow> int list) \<Rightarrow> ('m \<Rightarrow> int list list \<Rightarrow> (int \<Rightarrow> real) list) \<Rightarrow> guard_spec \<Rightarrow> nat
   \<Rightarrow> 'm \<Rightarrow> int \<Rightarrow> int \<Rightarrow> string list \<Rightarrow> real list" where
  "guard_scores template encode last_logits gd batch_size m safe_id unsafe_id texts =
     concat (map (\<lambda>chunk. map (\<lambda>l. unsafe_probability (l safe_id) (l unsafe_id))
       (last_logits m (guard_rows template encode (gd_max_length gd) chunk))) (batches batch_size texts))"

record guard_verdict =
  gv_verdict :: string
  gv_categories :: "string list"
  gv_raw :: string

definition category_pattern :: rx where
  "category_pattern = rx_seq [Bnd, Cls (\<lambda>c. c = CHR ''S''),
     Alt (Sq (Cls (\<lambda>c. c = CHR ''1'')) (Cls (in_range (CHR ''0'') (CHR ''3'')))) (Cls (in_range (CHR ''1'') (CHR ''9''))), Bnd]"

text \<open>\<open>generated\<close> is the decoded continuation of the prompt.\<close>

definition guard_classify :: "string \<Rightarrow> guard_verdict" where
  "guard_classify generated =
     (let raw = str_strip generated in
      \<lparr>gv_verdict = (if starts_with ''unsafe'' (str_lower raw) then ''unsafe'' else ''safe''),
       gv_categories = findall category_pattern raw, gv_raw = raw\<rparr>)"

subsection \<open>The NeMo jailbreak rail and the anchors\<close>

definition nemo_fetch :: "(py_error, 'm) res \<Rightarrow> 'm loaded fetch" where
  "nemo_fetch model = (case model of Inl e \<Rightarrow> FetchRaises e | Inr m \<Rightarrow> Fetched (Jailbreak m))"

definition jailbreak_probability :: "real \<Rightarrow> real" where
  "jailbreak_probability signed = (if signed > 0 then signed else 1 + signed)"

definition nemo_scores :: "('m \<Rightarrow> string \<Rightarrow> real) \<Rightarrow> 'm \<Rightarrow> string list \<Rightarrow> real list" where
  "nemo_scores classifier m texts = map (\<lambda>t. jailbreak_probability (classifier m (non_blank t))) texts"

definition anchor_score :: "'v models \<Rightarrow> symbolic_rules \<Rightarrow> string \<Rightarrow> real" where
  "anchor_score md rules t =
     (if hard_ban_triggered md rules t \<noteq> None then 1
      else let v = md_embed md t in max (md_threat_similarity md v) (check_meta_intent md v))"

definition anchor_scores :: "'v models \<Rightarrow> symbolic_rules \<Rightarrow> string list \<Rightarrow> real list" where
  "anchor_scores md rules texts = map (anchor_score md rules) texts"

section \<open>The registry\<close>

definition class_injection :: string where "class_injection = ''prompt_injection''"
definition class_jailbreak :: string where "class_jailbreak = ''jailbreak''"
definition class_harmful :: string where "class_harmful = ''harmful_content''"

record head_spec =
  hs_name :: string
  hs_artifact_path :: string
  hs_targets :: "string list"
  hs_revision :: "string option"

datatype detector =
    AnchorDetector
  | TransformerDetector transformer
  | EmbeddingHeadDetector head_spec
  | LlamaGuardDetector guard_spec
  | NemoGuardJailbreakDetector "string option"

definition classifier :: "string \<Rightarrow> string \<Rightarrow> string \<Rightarrow> string list \<Rightarrow> string list \<Rightarrow> bool \<Rightarrow> string list \<Rightarrow> string \<times> detector" where
  "classifier name model_id revision positive targets multi_label trained_on =
     (name, TransformerDetector \<lparr>tf_name = name, tf_model_id = model_id, tf_revision = Some revision, tf_positive = positive,
        tf_targets = targets, tf_multi_label = multi_label, tf_max_length = 256, tf_trained_on = trained_on\<rparr>)"

definition llama_guard :: "string \<Rightarrow> string \<Rightarrow> string \<Rightarrow> string list \<Rightarrow> real \<Rightarrow> string \<times> detector" where
  "llama_guard name model_id revision targets min_free_gb =
     (name, LlamaGuardDetector \<lparr>gd_name = name, gd_model_id = model_id, gd_revision = Some revision, gd_targets = targets,
        gd_trained_on = [], gd_max_length = 2048, gd_min_free_gb = min_free_gb\<rparr>)"

definition build_registry :: "(string, detector) odict" where
  "build_registry =
     [(''anchors'', AnchorDetector),
      classifier ''protectai_injection'' ''protectai/deberta-v3-base-prompt-injection-v2'' ''90c9989b1a342275dd0d1a95aad283c04e075671''
        [''injection''] [class_injection] False [],
      classifier ''deepset_injection'' ''deepset/deberta-v3-base-injection'' ''80dda00d0b0d9a03917a7685e2ddbcd28e04dbb1''
        [''injection''] [class_injection] False [''deepset/prompt-injections''],
      classifier ''jailbreak_classifier'' ''jackhhao/jailbreak-classifier'' ''771aa6f1391933e7cba0b21f0f17750c7a74a901''
        [''jailbreak''] [class_jailbreak] False [''jackhhao/jailbreak-classification''],
      classifier ''madhurjindal_jailbreak'' ''madhurjindal/Jailbreak-Detector'' ''93883e180f4d6585a0afae703095ba4a9ebce888''
        [''jailbreak''] [class_jailbreak] False [],
      classifier ''toxic_bert'' ''unitary/toxic-bert'' ''4d6c22e74ba2fdd26bc4f7238f50766b045a0d94''
        [''toxic'', ''severe_toxic'', ''threat'', ''identity_hate'', ''obscene'', ''insult''] [class_harmful] True [],
      classifier ''german_toxicity_eistakovskii'' ''EIStakovskii/german_toxicity_classifier_plus_v2''
        ''1bcb7d11ffc9267111c7be1dad0d7ca2fbf73928'' [''toxic''] [class_harmful] False [],
      classifier ''german_toxicity_ankekat'' ''ankekat1000/toxic-bert-german'' ''1756ff144620cd0c06425c0ed49387fb23bf8153''
        [''toxic''] [class_harmful] False [],
      (''multilingual_head'', EmbeddingHeadDetector \<lparr>hs_name = ''multilingual_head'', hs_artifact_path = ''models/multilingual_head.json'',
         hs_targets = [class_injection, class_harmful], hs_revision = Some ''e8f8c211226b894fcb81acc59f3b34ba3efd5f42''\<rparr>),
      (''nemoguard_jailbreak'', NemoGuardJailbreakDetector (Some ''92d97331f1f4b6a366c1f161354b9f3390cc219f'')),
      llama_guard ''llama_guard_3_1b'' ''meta-llama/Llama-Guard-3-1B'' ''acf7aafa60f0410f8f42b1fa35e077d705892029''
        [class_harmful, class_jailbreak] (23 / 10),
      llama_guard ''llama_guard_3_8b'' ''meta-llama/Llama-Guard-3-8B'' ''7327bd9f6efbbe6101dc6cc4736302b3cbb6e425''
        [class_harmful, class_jailbreak] 18,
      classifier ''prompt_guard_2'' ''meta-llama/Llama-Prompt-Guard-2-86M'' ''a8ded8e697ce7c355e395a0df51f94adb4a2fd27''
        [''label_1'', ''malicious'', ''injection'', ''jailbreak''] [class_injection, class_jailbreak] False [],
      classifier ''prompt_guard_1'' ''meta-llama/Prompt-Guard-86M'' ''1209add6ca7d9c1d815171b8e5571587fe3e7b03''
        [''injection'', ''jailbreak''] [class_injection, class_jailbreak] False []]"

fun detector_name :: "detector \<Rightarrow> string" where
  "detector_name AnchorDetector = ''anchors''"
| "detector_name (TransformerDetector tf) = tf_name tf"
| "detector_name (EmbeddingHeadDetector hs) = hs_name hs"
| "detector_name (LlamaGuardDetector gd) = gd_name gd"
| "detector_name (NemoGuardJailbreakDetector revision) = ''nemoguard_jailbreak''"

fun detector_targets :: "detector \<Rightarrow> string list" where
  "detector_targets AnchorDetector = [class_injection, class_jailbreak, class_harmful]"
| "detector_targets (TransformerDetector tf) = tf_targets tf"
| "detector_targets (EmbeddingHeadDetector hs) = hs_targets hs"
| "detector_targets (LlamaGuardDetector gd) = gd_targets gd"
| "detector_targets (NemoGuardJailbreakDetector revision) = [class_jailbreak]"

definition get_detector :: "(string, detector) odict \<Rightarrow> string \<Rightarrow> (py_error, detector) res" where
  "get_detector reg name =
     (case od_get reg name of
        Some d \<Rightarrow> Inr d
      | None \<Rightarrow> Inl (KeyError (''unknown detector '' @ repr_str name @ ''; available: '' @ py_repr (JList (map JStr (sort (map fst reg)))))))"

section \<open>Availability and scoring\<close>

text \<open>
  What the detectors of a process find when they load now: the hub's answers and the outcome of the
  integrity check, by name; \<open>dn_anchors\<close> is the number of threat anchors, or why the pipeline
  cannot be imported.
\<close>

record 'm detector_env =
  dn_fetch :: "string \<Rightarrow> 'm loaded fetch"
  dn_verify :: bool
  dn_check :: "string \<Rightarrow> (load_exn, unit) res"
  dn_err :: "py_error \<Rightarrow> string"
  dn_anchors :: "(string, nat) res"

definition load_detector ::
  "'m detector_env \<Rightarrow> string \<Rightarrow> 'm loaded slot \<Rightarrow> (integrity_check, unit) res \<times> 'm loaded slot" where
  "load_detector dn name s = lazy_load (dn_err dn) (dn_verify dn) (dn_check dn name) (dn_fetch dn name) s"

text \<open>Two kinds look at the recorded error, two at the model.\<close>

fun unavailable_reason :: "detector \<Rightarrow> 'm loaded slot \<Rightarrow> string option" where
  "unavailable_reason (LlamaGuardDetector gd) s =
     (if sl_model s = None then Some (if truthy_text (sl_error s) then the (sl_error s) else ''not loaded'') else None)"
| "unavailable_reason (NemoGuardJailbreakDetector r) s =
     (if sl_model s = None then Some (if truthy_text (sl_error s) then the (sl_error s) else ''not loaded'') else None)"
| "unavailable_reason d s = (if truthy_text (sl_error s) then sl_error s else None)"

text \<open>\<open>Inr None\<close>: available; \<open>Inr (Some why)\<close>: not.\<close>

definition available ::
  "'m detector_env \<Rightarrow> string \<Rightarrow> detector \<Rightarrow> 'm loaded slot \<Rightarrow> (integrity_check, string option) res \<times> 'm loaded slot" where
  "available dn name d s =
     (if d = AnchorDetector then
        (Inr (case dn_anchors dn of
           Inl e \<Rightarrow> Some e | Inr n \<Rightarrow> if n = 0 then Some ''no threat anchors loaded'' else None), s)
      else let (r, s1) = load_detector dn name s
           in (bind_res r (\<lambda>u. Inr (unavailable_reason d s1)), s1))"

record ('v, 'm) networks =
  nw_models :: "'v models"
  nw_rules :: symbolic_rules
  nw_encode :: "'m \<Rightarrow> nat \<Rightarrow> string \<Rightarrow> int list"
  nw_net :: "'m \<Rightarrow> int list list \<Rightarrow> real list list"
  nw_embed :: "'m \<Rightarrow> string list \<Rightarrow> real list list"
  nw_template :: "'m \<Rightarrow> (content \<Rightarrow> string option) option"
  nw_tokens :: "'m \<Rightarrow> string \<Rightarrow> int list"
  nw_last :: "'m \<Rightarrow> int list list \<Rightarrow> (int \<Rightarrow> real) list"
  nw_signed :: "'m \<Rightarrow> string \<Rightarrow> real"

text \<open>The batch sizes are the methods' defaults; a detector holds a network of its own kind.\<close>

fun run_loaded :: "('v, 'm) networks \<Rightarrow> detector \<Rightarrow> 'm loaded \<Rightarrow> string list \<Rightarrow> (py_error, real list) res" where
  "run_loaded nw (TransformerDetector tf) (Classifier m ids) texts = classifier_scores (nw_encode nw m) (nw_net nw) tf 16 m ids texts"
| "run_loaded nw (EmbeddingHeadDetector hs) (Encoder m h) texts = Inr (head_scores (nw_embed nw) m h texts)"
| "run_loaded nw (LlamaGuardDetector gd) (SafetyModel m s u) texts =
     Inr (guard_scores (nw_template nw m) (nw_tokens nw m) (nw_last nw) gd 4 m s u texts)"
| "run_loaded nw (NemoGuardJailbreakDetector r) (Jailbreak m) texts = Inr (nemo_scores (nw_signed nw) m texts)"
| "run_loaded nw d m texts = Inl (AttributeError ''model'')"

datatype score_exn = FailedIntegrity integrity_check | ScoreRaises py_error

definition score_batch ::
  "'m detector_env \<Rightarrow> ('v, 'm) networks \<Rightarrow> string \<Rightarrow> detector \<Rightarrow> string list \<Rightarrow> 'm loaded slot
   \<Rightarrow> (score_exn, real list) res \<times> 'm loaded slot" where
  "score_batch dn nw name d texts s =
     (if d = AnchorDetector then (Inr (anchor_scores (nw_models nw) (nw_rules nw) texts), s)
      else case load_detector dn name s of
          (Inl c, s1) \<Rightarrow> (Inl (FailedIntegrity c), s1)
        | (Inr u, s1) \<Rightarrow>
            ((case sl_model s1 of
                None \<Rightarrow> Inl (ScoreRaises (OtherError ''detector unavailable''))
              | Some m \<Rightarrow> map_sum ScoreRaises id (run_loaded nw d m texts)), s1))"

definition score ::
  "'m detector_env \<Rightarrow> ('v, 'm) networks \<Rightarrow> string \<Rightarrow> detector \<Rightarrow> string \<Rightarrow> 'm loaded slot \<Rightarrow> (score_exn, real) res \<times> 'm loaded slot" where
  "score dn nw name d text1 s =
     (case score_batch dn nw name d [text1] s of
        (Inl e, s1) \<Rightarrow> (Inl e, s1)
      | (Inr [], s1) \<Rightarrow> (Inl (ScoreRaises (IndexError ''list index out of range'')), s1)
      | (Inr (x # xs), s1) \<Rightarrow> (Inr x, s1))"

datatype probe_exn = UnknownDetector string | ProbeIntegrity integrity_check

fun probe_all ::
  "'m detector_env \<Rightarrow> (string, detector) odict \<Rightarrow> string list \<Rightarrow> (string \<Rightarrow> 'm loaded slot)
   \<Rightarrow> (probe_exn, string list \<times> (string \<times> string) list) res \<times> (string \<Rightarrow> 'm loaded slot)" where
  "probe_all dn reg [] slots = (Inr ([], []), slots)"
| "probe_all dn reg (n # ns) slots =
     (case od_get reg n of
        None \<Rightarrow> (Inl (UnknownDetector n), slots)
      | Some d \<Rightarrow>
          (case available dn n d (slots n) of
             (Inl c, s) \<Rightarrow> (Inl (ProbeIntegrity c), slots(n := s))
           | (Inr reason, s) \<Rightarrow>
               (let (r, slots') = probe_all dn reg ns (slots(n := s)) in
                (map_sum id (\<lambda>(ok, bad). case reason of None \<Rightarrow> (n # ok, bad) | Some why \<Rightarrow> (ok, (n, why) # bad)) r, slots'))))"

definition available_detectors ::
  "'m detector_env \<Rightarrow> (string, detector) odict \<Rightarrow> string list option \<Rightarrow> (string \<Rightarrow> 'm loaded slot)
   \<Rightarrow> (probe_exn, string list \<times> (string \<times> string) list) res \<times> (string \<Rightarrow> 'm loaded slot)" where
  "available_detectors dn reg names slots =
     probe_all dn reg (case names of Some (n # ns) \<Rightarrow> n # ns | _ \<Rightarrow> map fst reg) slots"

definition offline_mode :: "string option \<Rightarrow> bool" where
  "offline_mode env \<longleftrightarrow> str_strip (case env of None \<Rightarrow> [] | Some v \<Rightarrow> v) \<in> {''1'', ''true'', ''True''}"

text \<open>Which log line a failed load gets: the name of the exception's class, its text, and the status of its response.\<close>

definition is_auth_error :: "string \<Rightarrow> string \<Rightarrow> int option \<Rightarrow> bool" where
  "is_auth_error class_name message status =
     (let msg = str_lower message; err_type = str_lower class_name;
          says = (\<lambda>words. list_ex (\<lambda>w. str_contains w msg) words)
      in if str_contains ''gated'' err_type \<or> says [''gated''] then True
         else if says [''401'', ''403'', ''unauthorized'', ''forbidden'', ''restricted''] then True
         else if (str_contains ''repositorynotfound'' err_type \<or> says [''repositorynotfound''])
              \<and> says [''access'', ''private'', ''gated'', ''restricted'', ''auth''] then True
         else status = Some 401 \<or> status = Some 403)"

section \<open>Lemmas\<close>

lemma batches_Nil [simp]: "batches n [] = []"
  by (subst batches.simps) simp

lemma concat_batches [simp]: "0 < n \<Longrightarrow> concat (batches n xs) = xs"
  by (induction n xs rule: batches.induct) (subst batches.simps, auto)

lemma collect_append: "collect f (xs @ ys) = bind_res (collect f xs) (\<lambda>as. bind_res (collect f ys) (\<lambda>bs. Inr (as @ bs)))"
  by (induction xs) (auto simp: bind_res_def split: sum.splits)

lemma collect_concat: "collect f (concat xss) = bind_res (collect (collect f) xss) (\<lambda>yss. Inr (concat yss))"
  by (induction xss) (auto simp: collect_append bind_res_def split: sum.splits)

lemma collect_map: "collect f (map g xs) = collect (\<lambda>x. f (g x)) xs"
  by (induction xs) auto

lemma collect_InrD:
  assumes "collect f xs = Inr ys"
  shows "length ys = length xs \<and> (\<forall>y \<in> set ys. \<exists>x \<in> set xs. f x = Inr y)"
  using assms
proof (induction xs arbitrary: ys)
  case (Cons x xs)
  then obtain y zs where "f x = Inr y" "collect f xs = Inr zs" "ys = y # zs" by (auto simp: bind_res_Inr_iff)
  then show ?case using Cons.IH [of zs] by auto
qed simp

lemma softmax_probability: "p \<in> set (softmax row) \<Longrightarrow> 0 \<le> p \<and> p \<le> (1 :: real)"
proof -
  assume "p \<in> set (softmax row)"
  then obtain x where x: "x \<in> set row" "p = exp x / sum_list (map exp row)" by (auto simp: softmax_def)
  have "exp x \<le> sum_list (map exp row)" using x(1) by (intro member_le_sum_list) auto
  moreover have "0 < exp x" by simp
  ultimately have "0 < sum_list (map exp row)" "exp x \<le> sum_list (map exp row)" by linarith+
  then show ?thesis using x(2) by (simp add: divide_le_eq)
qed

lemma sigmoid_probability: "0 \<le> sigmoid_of x \<and> sigmoid_of x \<le> 1"
  by (simp add: sigmoid_of_def add_pos_pos field_simps)

lemma foldl_max_bound: "(\<forall>y \<in> set (a # ys). 0 \<le> y \<and> y \<le> (1 :: real)) \<Longrightarrow> 0 \<le> foldl max a ys \<and> foldl max a ys \<le> 1"
  by (induction ys arbitrary: a) auto

lemma positive_score_probability:
  assumes "positive_score multi_label ids row = Inr x"
  shows "0 \<le> x \<and> x \<le> 1"
proof -
  let ?probs = "if multi_label then map sigmoid_of row else softmax row"
  have r: "\<forall>i \<in> set ids. i < length ?probs" "ids \<noteq> []" "x = foldl max (?probs ! hd ids) (map (\<lambda>i. ?probs ! i) (tl ids))"
    using assms by (auto simp: positive_score_def Let_def list_all_iff split: if_splits)
  have p: "0 \<le> q \<and> q \<le> 1" if "q \<in> set ?probs" for q
    using that softmax_probability [of q row] sigmoid_probability by (auto split: if_splits)
  have "0 \<le> ?probs ! i \<and> ?probs ! i \<le> 1" if "i \<in> set ids" for i
    by (rule p) (use r(1) that in \<open>intro nth_mem; blast\<close>)
  then show ?thesis unfolding r(3) by (intro foldl_max_bound) (use r(2) list.set_sel in \<open>auto dest: list.set_sel\<close>)
qed

lemma unsafe_probability_bounds: "0 < unsafe_probability s u \<and> unsafe_probability s u < 1"
  by (simp add: unsafe_probability_def add_pos_pos field_simps)

text \<open>The verdict is the larger logit, and swapping the two swaps the probabilities.\<close>

lemma unsafe_probability_order: "unsafe_probability s u > 1 / 2 \<longleftrightarrow> u > s"
  by (simp add: unsafe_probability_def add_pos_pos field_simps)

lemma unsafe_probability_swap: "unsafe_probability s u + unsafe_probability u s = 1"
proof -
  have "exp s + exp u \<noteq> 0" using exp_gt_zero [of s] exp_gt_zero [of u] by linarith
  then show ?thesis by (simp add: unsafe_probability_def add.commute add_divide_distrib [symmetric])
qed

lemma apply_head_bounds: "0 \<le> apply_head h vec \<and> apply_head h vec \<le> 1"
  by (auto simp: apply_head_def Let_def add_pos_pos field_simps)

lemma batched_scores:
  assumes "0 < n" "\<And>rows. length (f rows) = length rows"
  shows "length (concat (map (\<lambda>chunk. map g (f (map h chunk))) (batches n xs))) = length xs"
  using assms(1)
proof (induction n xs rule: batches.induct)
  case (1 n xs)
  then show ?case by (subst batches.simps) (auto simp: assms(2))
qed

lemma classifier_rows:
  assumes "0 < n" "collect (\<lambda>chunk. collect (positive_score multi_label ids) (f (map h chunk))) (batches n xs) = Inr rows"
    and "\<forall>rows. length (f rows) = length rows"
  shows "length (concat rows) = length xs \<and> (\<forall>x \<in> set (concat rows). 0 \<le> x \<and> x \<le> 1)"
  using assms(1,2)
proof (induction n xs arbitrary: rows rule: batches.induct)
  case (1 n xs)
  show ?case
  proof (cases "xs = []")
    case False
    then have "batches n xs = take n xs # batches n (drop n xs)" using 1 by (subst batches.simps) simp
    then obtain r rs where r: "collect (positive_score multi_label ids) (f (map h (take n xs))) = Inr r"
      "collect (\<lambda>chunk. collect (positive_score multi_label ids) (f (map h chunk))) (batches n (drop n xs)) = Inr rs" "rows = r # rs"
      using 1(3) by (auto simp: bind_res_Inr_iff)
    have "length r = length (take n xs)" "\<forall>x \<in> set r. 0 \<le> x \<and> x \<le> 1"
      using collect_InrD [OF r(1)] assms(3) positive_score_probability by auto
    moreover have "length (concat rs) = length (drop n xs)" "\<forall>x \<in> set (concat rs). 0 \<le> x \<and> x \<le> 1"
      using 1(1) [OF _ 1(2) r(2)] False 1(2) by auto
    ultimately show ?thesis using r(3) by auto
  qed (use 1(3) in simp)
qed

text \<open>A network that scores rows one by one makes the batches invisible.\<close>

lemma classifier_rowwise:
  assumes "0 < n" "\<And>rows. net m rows = map f rows"
  shows "classifier_scores encode net tf n m ids texts =
    collect (\<lambda>t. positive_score (tf_multi_label tf) ids (f (encode (tf_max_length tf) (non_blank t)))) texts"
proof -
  have "collect (\<lambda>t. positive_score (tf_multi_label tf) ids (f (encode (tf_max_length tf) (non_blank t)))) (concat (batches n texts))
      = classifier_scores encode net tf n m ids texts"
    unfolding collect_concat classifier_scores_def assms(2) collect_map by simp
  then show ?thesis using assms(1) by simp
qed

lemma guard_rowwise:
  assumes "0 < n" "\<And>rows. last_logits m rows = map f rows"
  shows "guard_scores template encode last_logits gd n m s u texts =
    map (\<lambda>t. unsafe_probability (f (take (gd_max_length gd) (encode (build_input template True (non_blank t)))) s)
      (f (take (gd_max_length gd) (encode (build_input template True (non_blank t)))) u)) texts"
proof -
  have "concat (map (map g) (batches n texts)) = map g texts" for g :: "string \<Rightarrow> real"
    using concat_batches [OF assms(1), of texts] by (metis map_concat)
  then show ?thesis by (simp add: guard_scores_def guard_rows_def assms(2) comp_def)
qed

section \<open>Properties\<close>

text \<open>
  A failed integrity check stops the first use only.  The model is stored before it is checked
  and stays when the check fails, so that after the one raised error the detector counts as
  loaded: it reports itself available and scores with the rejected weights, whatever a second
  check would say.
\<close>

theorem integrity_failure_bypassed:
  assumes "d \<noteq> AnchorDetector" "dn_verify dn" "dn_fetch dn name = Fetched m" "dn_check dn name = Inl (Integrity c)"
  shows "\<exists>s. available dn name d fresh_slot = (Inl c, s)
    \<and> (\<forall>dn'. available dn' name d s = (Inr None, s))
    \<and> (\<forall>dn' nw texts. score_batch dn' nw name d texts s = (map_sum ScoreRaises id (run_loaded nw d m texts), s))"
proof -
  let ?s = "\<lparr>sl_model = Some m, sl_error = None\<rparr>"
  have "available dn name d fresh_slot = (Inl c, ?s)"
    using assms by (simp add: available_def load_detector_def lazy_load_def fresh_slot_def)
  moreover have "available dn' name d ?s = (Inr None, ?s)" for dn'
    using assms(1) by (cases d) (simp_all add: available_def load_detector_def lazy_load_def truthy_text_def)
  moreover have "score_batch dn' nw name d texts ?s = (map_sum ScoreRaises id (run_loaded nw d m texts), ?s)" for dn' nw texts
    using assms(1) by (simp add: score_batch_def load_detector_def lazy_load_def)
  ultimately show ?thesis by blast
qed

text \<open>
  What the check accepts.  With a manifest of objects it passes exactly for a detector that is
  listed, whose pinned revision, if both sides name one, is the listed one, and whose cached weight
  file has the listed digest, if one is listed.
\<close>

theorem integrity_check_exact:
  assumes "\<forall>e \<in> snd ` set d. is_dict e"
  shows "verify_detector_integrity hb (Doc (JDict d)) name model_id revision = Inr () \<longleftrightarrow>
    (\<exists>entry. map_of d name = Some entry
      \<and> (truthy (jget_or entry ''revision'' JNull) \<and> truthy_text revision \<longrightarrow> jget_or entry ''revision'' JNull = revision_json revision)
      \<and> (truthy (jget_or entry ''sha256'' JNull) \<longrightarrow>
           (\<exists>path digest. weight_path hb model_id revision (weight_candidates (jget_or entry ''filename'' JNull)) = Inr (Some path)
              \<and> path \<noteq> [] \<and> hb_sha hb path = Some digest \<and> jget_or entry ''sha256'' JNull = JStr digest)))"
proof -
  have weights: "check_weights hb model_id revision filename expected = Inr () \<longleftrightarrow>
      (\<exists>path digest. weight_path hb model_id revision (weight_candidates filename) = Inr (Some path)
        \<and> path \<noteq> [] \<and> hb_sha hb path = Some digest \<and> expected = JStr digest)" for filename expected
    by (auto simp: check_weights_def split: sum.split option.split list.split)
  show ?thesis
  proof (cases "map_of d name")
    case (Some entry)
    then have "is_dict entry" using assms map_of_SomeD [OF Some] by force
    then show ?thesis using Some by (simp add: verify_detector_integrity_def Let_def weights)
  qed (simp add: verify_detector_integrity_def)
qed

text \<open>
  A score is a probability, and every text has one.  This holds for every kind of detector,
  however the texts are batched, as long as a network answers row by row, the rail's confidence is
  at most 1, and no cosine similarity exceeds 1.
\<close>

theorem scores_are_probabilities:
  assumes "score_batch dn nw name d texts s = (Inr scores, s')"
    and "\<forall>m rows. length (nw_net nw m rows) = length rows" "\<forall>m rows. length (nw_last nw m rows) = length rows"
    and "\<forall>m ts. length (nw_embed nw m ts) = length ts" "\<forall>m t. \<bar>nw_signed nw m t\<bar> \<le> 1"
    and "\<forall>v. md_threat_similarity (nw_models nw) v \<le> 1"
    and "\<forall>v. \<forall>x \<in> set (md_meta_similarities (nw_models nw) v). x \<le> 1"
  shows "length scores = length texts \<and> (\<forall>x \<in> set scores. 0 \<le> x \<and> x \<le> 1)"
proof (cases "d = AnchorDetector")
  case True
  have "foldl (\<lambda>m s. if s > m then s else m) a xs \<le> 1" if "a \<le> 1" "\<forall>x \<in> set xs. x \<le> 1" for a :: real and xs
    using that by (induction xs arbitrary: a) auto
  then have "check_meta_intent (nw_models nw) v \<le> 1" for v using assms(7) by (simp add: check_meta_intent_def)
  moreover have "a \<le> foldl (\<lambda>m s. if s > m then s else m) a xs" for a :: real and xs
    by (induction xs arbitrary: a) (auto intro: order_trans less_imp_le)
  then have "0 \<le> check_meta_intent (nw_models nw) v" for v by (simp add: check_meta_intent_def)
  ultimately show ?thesis using assms(1,6) True by (auto simp: score_batch_def anchor_scores_def anchor_score_def Let_def le_max_iff_disj)
next
  case False
  then obtain m where run: "run_loaded nw d m texts = Inr scores"
    using assms(1) by (auto simp: score_batch_def map_sum_Inr_iff split: prod.splits sum.splits option.splits)
  consider (tf) tf n ids where "d = TransformerDetector tf" "m = Classifier n ids" | (hs) hs n h where "d = EmbeddingHeadDetector hs" "m = Encoder n h"
    | (gd) gd n a b where "d = LlamaGuardDetector gd" "m = SafetyModel n a b" | (nemo) r n where "d = NemoGuardJailbreakDetector r" "m = Jailbreak n"
    using run by (cases "(nw, d, m, texts)" rule: run_loaded.cases) auto
  then show ?thesis
  proof cases
    case tf
    then obtain rows where rows: "scores = concat rows"
      "collect (\<lambda>chunk. collect (positive_score (tf_multi_label tf) ids)
          (nw_net nw n (map (\<lambda>t. nw_encode nw n (tf_max_length tf) (non_blank t)) chunk))) (batches 16 texts) = Inr rows"
      using run by (auto simp: classifier_scores_def bind_res_Inr_iff)
    then show ?thesis using classifier_rows [OF _ rows(2)] assms(2) by simp
  next
    case hs
    then show ?thesis using run assms(4) apply_head_bounds by (auto simp: head_scores_def)
  next
    case gd
    have "length scores = length texts"
      using run gd assms(3) batched_scores [of 4 "nw_last nw n" "\<lambda>l. unsafe_probability (l a) (l b)"]
      by (auto simp: guard_scores_def guard_rows_def)
    then show ?thesis using run gd unsafe_probability_bounds by (auto simp: guard_scores_def less_imp_le)
  next
    case nemo
    have "0 \<le> jailbreak_probability x \<and> jailbreak_probability x \<le> 1" if "\<bar>x\<bar> \<le> 1" for x
      using that by (auto simp: jailbreak_probability_def)
    then show ?thesis using run nemo assms(5) by (auto simp: nemo_scores_def)
  qed
qed

text \<open>
  Batching is invisible: for a network that scores each row by itself, the scores do not depend
  on the batch size, and each is the score of its text alone, errors included.
\<close>

theorem batching_invisible:
  assumes "0 < n" "\<forall>rows. net m rows = map f rows"
  shows "classifier_scores encode net tf n m ids texts =
      bind_res (collect (\<lambda>t. classifier_scores encode net tf 1 m ids [t]) texts) (\<lambda>xss. Inr (concat xss))"
proof -
  let ?one = "\<lambda>t. positive_score (tf_multi_label tf) ids (f (encode (tf_max_length tf) (non_blank t)))"
  have one: "classifier_scores encode net tf 1 m ids [t] = bind_res (?one t) (\<lambda>x. Inr [x])" for t
    using classifier_rowwise [of 1 net m f encode tf ids "[t]"] assms(2) by simp
  have "bind_res (collect (\<lambda>t. bind_res (?one t) (\<lambda>x. Inr [x])) ts) (\<lambda>xss. Inr (concat xss)) = collect ?one ts" for ts
    by (induction ts) (auto simp: bind_res_def split: sum.splits)
  then show ?thesis using classifier_rowwise [of n net m f encode tf ids texts] assms one by simp
qed

text \<open>
  The registry is consistent: a detector is registered once, under its own name, for a non-empty
  set of the attack classes, and looking a name up gives it or raises.
\<close>

theorem registry_consistent:
  "distinct (map fst build_registry)
    \<and> (\<forall>(name, d) \<in> set build_registry. detector_name d = name \<and> get_detector build_registry name = Inr d
         \<and> detector_targets d \<noteq> [] \<and> set (detector_targets d) \<subseteq> {class_injection, class_jailbreak, class_harmful})
    \<and> (\<forall>name. name \<notin> set (map fst build_registry) \<longrightarrow> (\<exists>message. get_detector build_registry name = Inl (KeyError message)))"
proof -
  have names: "distinct (map fst build_registry)" by (simp add: build_registry_def classifier_def llama_guard_def)
  have "\<forall>(name, d) \<in> set build_registry. detector_name d = name
      \<and> detector_targets d \<noteq> [] \<and> set (detector_targets d) \<subseteq> {class_injection, class_jailbreak, class_harmful}"
    by (simp add: build_registry_def classifier_def llama_guard_def)
  moreover have "get_detector build_registry name = Inr d" if "(name, d) \<in> set build_registry" for name d
    using map_of_is_SomeI [OF names that] by (simp add: get_detector_def od_get_def)
  moreover have "\<exists>message. get_detector build_registry name = Inl (KeyError message)" if "name \<notin> set (map fst build_registry)" for name
    using that by (simp add: get_detector_def od_get_def map_of_eq_None_iff [THEN iffD2])
  ultimately show ?thesis using names by auto
qed

text \<open>Every recorded error has a text.\<close>

definition keeps :: "'m loaded slot \<Rightarrow> bool" where
  "keeps s \<longleftrightarrow> sl_error s \<noteq> Some []"

lemma available_keeps:
  assumes "available dn n d s = (r, s')" "keeps s" "\<forall>e. dn_err dn e \<noteq> []" "dn_fetch dn n \<noteq> Latched []"
  shows "keeps s'"
  using assms by (auto simp: available_def load_detector_def lazy_load_def keeps_def Let_def split: if_splits fetch.splits sum.splits load_exn.splits prod.splits)

lemma available_has_model:
  assumes "available dn n d s = (Inr None, s')" "keeps s" "d \<noteq> AnchorDetector" "\<forall>e. dn_err dn e \<noteq> []" "dn_fetch dn n \<noteq> Latched []"
  shows "sl_model s' \<noteq> None"
proof -
  obtain u where l: "load_detector dn n s = (Inr u, s')" "unavailable_reason d s' = None"
    using assms(1,3) by (cases "load_detector dn n s") (auto simp: available_def bind_res_def split: sum.splits)
  have "sl_model s' \<noteq> None \<or> truthy_text (sl_error s')"
    using l(1) assms(2,4,5)
    by (auto simp: load_detector_def lazy_load_def keeps_def truthy_text_def Let_def split: if_splits fetch.splits sum.splits load_exn.splits)
  then show ?thesis using l(2) assms(3) by (cases d) (auto simp: truthy_text_def split: if_splits)
qed

lemma available_mono: "available dn n d s = (r, s') \<Longrightarrow> sl_model s \<noteq> None \<Longrightarrow> sl_model s' \<noteq> None"
  by (auto simp: available_def load_detector_def lazy_load_def split: if_splits prod.splits)

lemma probe_mono: "probe_all dn reg names slots = (r, slots') \<Longrightarrow> sl_model (slots n) \<noteq> None \<Longrightarrow> sl_model (slots' n) \<noteq> None"
proof (induction names arbitrary: slots r slots')
  case (Cons m ms)
  show ?case
  proof (cases "od_get reg m")
    case None
    then show ?thesis using Cons.prems by simp
  next
    case (Some d)
    obtain x s where a: "available dn m d (slots m) = (x, s)" by (cases "available dn m d (slots m)")
    have "sl_model ((slots(m := s)) n) \<noteq> None" using available_mono [OF a] Cons.prems(2) by (cases "n = m") auto
    obtain y t where rest: "probe_all dn reg ms (slots(m := s)) = (y, t)" by (cases "probe_all dn reg ms (slots(m := s))")
    show ?thesis
    proof (cases x)
      case (Inl c)
      then show ?thesis using Cons.prems(1) Some a \<open>sl_model ((slots(m := s)) n) \<noteq> None\<close> by simp
    next
      case (Inr reason)
      then have "t = slots'" using Cons.prems(1) Some a rest by simp
      then show ?thesis using Cons.IH [OF rest \<open>sl_model ((slots(m := s)) n) \<noteq> None\<close>] by simp
    qed
  qed
qed simp

text \<open>
  Probing sorts the detectors: when it returns, the names asked for are, in their order, the
  available and the unavailable ones, and every available one except the anchors has its model.
\<close>

theorem probe_partitions:
  assumes "probe_all dn reg names slots = (Inr (ok, bad), slots')"
    and "\<forall>e. dn_err dn e \<noteq> []" "\<forall>n. dn_fetch dn n \<noteq> Latched []" "\<forall>n. keeps (slots n)"
  shows "names \<in> shuffles ok (map fst bad)
    \<and> (\<forall>n \<in> set ok. od_get reg n \<noteq> Some AnchorDetector \<longrightarrow> sl_model (slots' n) \<noteq> None)"
  using assms(1,4)
proof (induction names arbitrary: slots ok bad)
  case (Cons n ns)
  obtain d reason s where d: "od_get reg n = Some d" "available dn n d (slots n) = (Inr reason, s)"
    using Cons.prems(1) by (auto split: option.splits prod.splits sum.splits)
  obtain r t where rest: "probe_all dn reg ns (slots(n := s)) = (r, t)" by (cases "probe_all dn reg ns (slots(n := s))")
  then obtain ok' bad' where r: "r = Inr (ok', bad')" "t = slots'"
    "(ok, bad) = (case reason of None \<Rightarrow> (n # ok', bad') | Some why \<Rightarrow> (ok', (n, why) # bad'))"
    using Cons.prems(1) d by (auto simp: map_sum_Inr_iff split: option.splits)
  have k: "\<forall>m. keeps ((slots(n := s)) m)" using available_keeps [OF d(2)] Cons.prems(2) assms(2,3) by simp
  note ih = Cons.IH [OF rest [unfolded r(1,2)] k]
  show ?case
  proof (cases reason)
    case None
    have "d \<noteq> AnchorDetector \<Longrightarrow> sl_model (slots' n) \<noteq> None"
      using available_has_model [OF d(2) [unfolded None]] probe_mono [OF rest, of n] Cons.prems(2) assms(2,3) r(2) by simp
    then show ?thesis using ih r(3) None d(1) by (auto intro: Cons_in_shuffles_leftI)
  next
    case (Some why)
    then show ?thesis using ih r(3) by (auto intro: Cons_in_shuffles_rightI)
  qed
qed simp

section \<open>Witnesses\<close>

definition example_detectors :: "(load_exn, unit) res \<Rightarrow> unit detector_env" where
  "example_detectors check =
     \<lparr>dn_fetch = (\<lambda>n. if n = ''toxic_bert'' then Fetched (Classifier () [0]) else Latched ''offline''), dn_verify = True,
      dn_check = (\<lambda>n. check), dn_err = (\<lambda>e. ''error''), dn_anchors = Inr 7\<rparr>"

definition toxic_bert :: detector where
  "toxic_bert = snd (build_registry ! 5)"

theorem integrity_failure_bypassed_witness:
  "\<exists>s. available (example_detectors (Inl (Integrity HashMismatch))) ''toxic_bert'' toxic_bert fresh_slot = (Inl HashMismatch, s)
    \<and> available (example_detectors (Inl (Integrity HashMismatch))) ''toxic_bert'' toxic_bert s = (Inr None, s)"
proof -
  have "toxic_bert \<noteq> AnchorDetector" by (simp add: toxic_bert_def build_registry_def classifier_def)
  from integrity_failure_bypassed [OF this, of "example_detectors (Inl (Integrity HashMismatch))" "''toxic_bert''" "Classifier () [0]" HashMismatch]
  show ?thesis by (simp add: example_detectors_def) blast
qed

definition example_hub :: hub where
  "example_hub = \<lparr>hb_cached = (\<lambda>repo file revision. Inr (Some ''w'')), hb_download = (\<lambda>repo file revision. None),
     hb_sha = (\<lambda>path. if path = ''w'' then Some ''abc'' else None)\<rparr>"

theorem integrity_check_exact_witness:
  "verify_detector_integrity example_hub (Doc (JDict [(''toxic_bert'', JDict [(''sha256'', JStr ''abc'')])])) ''toxic_bert'' ''m'' None = Inr ()"
  by (subst integrity_check_exact)
    (simp_all add: example_hub_def weight_path_def weight_candidates_def weight_exists_def truthy_text_def)

theorem batching_invisible_witness:
  "classifier_scores (\<lambda>n t. [1]) (\<lambda>m rows. map (\<lambda>r. [0 :: real]) rows) \<lparr>tf_name = ''x'', tf_model_id = ''x'', tf_revision = None, tf_positive = [],
      tf_targets = [], tf_multi_label = True, tf_max_length = 256, tf_trained_on = []\<rparr> 2 () [0] [''a'', ''b'', ''c'']
    = bind_res (collect (\<lambda>t. classifier_scores (\<lambda>n t. [1]) (\<lambda>m rows. map (\<lambda>r. [0 :: real]) rows) \<lparr>tf_name = ''x'', tf_model_id = ''x'', tf_revision = None, tf_positive = [],
      tf_targets = [], tf_multi_label = True, tf_max_length = 256, tf_trained_on = []\<rparr> 1 () [0] [t]) [''a'', ''b'', ''c'']) (\<lambda>xss. Inr (concat xss))"
  by (rule batching_invisible [where f = "\<lambda>r. [0]"]) simp_all

theorem probe_partitions_witness:
  "\<exists>ok bad slots'. probe_all (example_detectors (Inr ())) build_registry [''anchors'', ''toxic_bert'', ''prompt_guard_1''] (\<lambda>n. fresh_slot) = (Inr (ok, bad), slots')
    \<and> [''anchors'', ''toxic_bert'', ''prompt_guard_1''] \<in> shuffles ok (map fst bad)"
proof -
  let ?names = "[''anchors'', ''toxic_bert'', ''prompt_guard_1'']"
  let ?p = "probe_all (example_detectors (Inr ())) build_registry ?names (\<lambda>n. fresh_slot)"
  have "od_get build_registry ''anchors'' = Some AnchorDetector" by (simp add: build_registry_def)
  moreover obtain t where "od_get build_registry ''toxic_bert'' = Some (TransformerDetector t)"
    by (simp add: build_registry_def classifier_def)
  moreover obtain g where "od_get build_registry ''prompt_guard_1'' = Some (TransformerDetector g)"
    by (simp add: build_registry_def classifier_def llama_guard_def)
  ultimately have "\<exists>ok bad. fst ?p = Inr (ok, bad)"
    by (simp add: example_detectors_def available_def load_detector_def lazy_load_def fresh_slot_def)
  then obtain ok bad slots' where p: "?p = (Inr (ok, bad), slots')" by (metis prod.collapse)
  from probe_partitions [OF p] show ?thesis using p by (simp add: example_detectors_def keeps_def fresh_slot_def)
qed

definition example_networks :: "(nat, unit) networks" where
  "example_networks = \<lparr>nw_models = demo_models, nw_rules = demo_rules, nw_encode = (\<lambda>m n t. []), nw_net = (\<lambda>m rows. map (\<lambda>r. [0]) rows),
     nw_embed = (\<lambda>m ts. map (\<lambda>t. []) ts), nw_template = (\<lambda>m. None), nw_tokens = (\<lambda>m t. []),
     nw_last = (\<lambda>m rows. map (\<lambda>r i. 0) rows), nw_signed = (\<lambda>m t. - 1 / 2)\<rparr>"

theorem scores_are_probabilities_witness:
  "\<exists>scores. score_batch (example_detectors (Inr ())) example_networks ''nemoguard_jailbreak'' (NemoGuardJailbreakDetector None) [''Hi'', ''Ho'']
      \<lparr>sl_model = Some (Jailbreak ()), sl_error = None\<rparr> = (Inr scores, \<lparr>sl_model = Some (Jailbreak ()), sl_error = None\<rparr>)
    \<and> length scores = 2 \<and> (\<forall>x \<in> set scores. 0 \<le> x \<and> x \<le> 1)"
proof -
  obtain scores where s: "score_batch (example_detectors (Inr ())) example_networks ''nemoguard_jailbreak'' (NemoGuardJailbreakDetector None) [''Hi'', ''Ho'']
      \<lparr>sl_model = Some (Jailbreak ()), sl_error = None\<rparr> = (Inr scores, \<lparr>sl_model = Some (Jailbreak ()), sl_error = None\<rparr>)"
    by (simp add: score_batch_def load_detector_def lazy_load_def)
  have "length scores = length [''Hi'', ''Ho''] \<and> (\<forall>x \<in> set scores. 0 \<le> x \<and> x \<le> 1)"
    by (rule scores_are_probabilities [OF s]) (simp_all add: example_networks_def demo_models_def)
  then show ?thesis using s by auto
qed

end
