(* ===== verification/Anchors.thy ===== *)
theory Anchors
  imports Risk Tools
begin

text \<open>
  Where the signals of the pipeline come from: the policy files (\<open>core/policy_loader.py\<close>,
  \<open>load_policies\<close> and the meta-intent loader of \<open>core/risk.py\<close>), the vector stores
  (\<open>core/vector_store.py\<close>), the domain and threat centroids (\<open>core/domain_classifier.py\<close>,
  \<open>core/threat_centroid.py\<close>).

  A vector is a list of reals; the encoder and the cosine of \<open>core/embeddings.py\<close> are parameters:
  the encoder may raise, and gives vectors of the width of the index.
\<close>

section \<open>The policy files\<close>

text \<open>\<open>_load_json_file\<close>: \<open>None\<close> for a missing file, and for one that does not parse.\<close>

definition load_json_file :: "disk_doc \<Rightarrow> json option" where
  "load_json_file f = (case f of Doc j \<Rightarrow> if j = JNull then None else Some j | _ \<Rightarrow> None)"

text \<open>\<open>data.get(key, default)\<close>.\<close>

definition dict_get_or :: "json \<Rightarrow> string \<Rightarrow> json \<Rightarrow> (py_error, json) res" where
  "dict_get_or j k d = (if is_dict j then Inr (jget_or j k d) else Inl (AttributeError ''get''))"

record loaded_policies =
  lp_domains :: json
  lp_suspicious :: json
  lp_jailbreak :: json
  lp_override :: json
  lp_hard_ban :: json

definition init_policies :: "disk_doc \<Rightarrow> disk_doc \<Rightarrow> (py_error, loaded_policies) res" where
  "init_policies domain_file symbolic_file =
     bind_res (case load_json_file domain_file of None \<Rightarrow> Inr (JList []) | Some j \<Rightarrow> dict_get_or j ''domains'' (JList [])) (\<lambda>domains.
     case load_json_file symbolic_file of
       None \<Rightarrow> Inr \<lparr>lp_domains = domains, lp_suspicious = JList [], lp_jailbreak = JNull, lp_override = JNull, lp_hard_ban = JNull\<rparr>
     | Some j \<Rightarrow>
         bind_res (dict_get_or j ''suspicious_phrases'' (JList [])) (\<lambda>suspicious.
         bind_res (dict_get_or j ''jailbreak_patterns'' (JList [])) (\<lambda>jailbreak.
         bind_res (dict_get_or j ''instruction_override_patterns'' (JList [])) (\<lambda>override.
         bind_res (dict_get_or j ''hard_ban_keywords'' (JList [])) (\<lambda>hard_ban.
         Inr \<lparr>lp_domains = domains, lp_suspicious = suspicious, lp_jailbreak = jailbreak, lp_override = override,
              lp_hard_ban = hard_ban\<rparr>)))))"

text \<open>
  A list the risk pipeline reads its patterns from: \<open>None\<close> stays \<open>None\<close>.  Lists of texts only; what
  another value does when it is iterated is left out (no rules).
\<close>

fun all_texts :: "json list \<Rightarrow> string list option" where
  "all_texts [] = Some []"
| "all_texts (JStr s # js) = map_option (Cons s) (all_texts js)"
| "all_texts (j # js) = None"

definition texts_of :: "json \<Rightarrow> string list option option" where
  "texts_of j = (case j of JNull \<Rightarrow> Some None | JList l \<Rightarrow> map_option Some (all_texts l) | _ \<Rightarrow> None)"

definition rules_of :: "loaded_policies \<Rightarrow> symbolic_rules option" where
  "rules_of lp =
     (case (texts_of (lp_jailbreak lp), texts_of (lp_override lp), texts_of (lp_hard_ban lp)) of
        (Some a, Some b, Some c) \<Rightarrow> Some \<lparr>sr_jailbreak = a, sr_override = b, sr_hard_ban = c\<rparr>
      | _ \<Rightarrow> None)"

text \<open>\<open>[a for group in classes.values() for a in group]\<close>.\<close>

fun flatten_groups :: "json list \<Rightarrow> (py_error, json list) res" where
  "flatten_groups [] = Inr []"
| "flatten_groups (g # gs) = bind_res (iterate g) (\<lambda>xs. bind_res (flatten_groups gs) (\<lambda>ys. Inr (xs @ ys)))"

definition dict_values :: "json \<Rightarrow> (py_error, json list) res" where
  "dict_values j = (if is_dict j then Inr (map snd (dict_items j)) else Inl (AttributeError ''values''))"

text \<open>\<open>load_policies\<close>: a file that does not parse raises; the threat anchors and their classes.\<close>

definition load_policies :: "py_error \<Rightarrow> disk_doc \<Rightarrow> (py_error, json \<times> json) res" where
  "load_policies parse_error f =
     (case f of
        Missing \<Rightarrow> Inr (JList [], JDict [])
      | Unreadable \<Rightarrow> Inl parse_error
      | Doc data \<Rightarrow>
          bind_res (dict_get_or data ''threat_anchor_classes'' (JDict [])) (\<lambda>classes.
            if truthy classes then
              bind_res (dict_values classes) (\<lambda>groups. bind_res (flatten_groups groups) (\<lambda>flat. Inr (JList flat, classes)))
            else
              bind_res (dict_get_or data ''threat_anchors'' (JList [])) (\<lambda>flat.
                Inr (flat, if truthy flat then JDict [(''unclassified'', flat)] else JDict []))))"

text \<open>
  The centroid's own loader: whatever goes wrong, no anchors.  The count in its log line raises for
  a value without a length.
\<close>

definition has_length :: "json \<Rightarrow> bool" where
  "has_length j = (case j of JList l \<Rightarrow> True | JStr s \<Rightarrow> True | JDict d \<Rightarrow> True | _ \<Rightarrow> False)"

definition load_threat_anchors :: "disk_doc \<Rightarrow> json" where
  "load_threat_anchors f =
     (case f of
        Doc data \<Rightarrow>
          (case bind_res (dict_get_or data ''threat_anchor_classes'' JNull) (\<lambda>classes.
             if truthy classes then bind_res (dict_values classes) (\<lambda>groups. bind_res (flatten_groups groups) (\<lambda>flat. Inr (JList flat)))
             else bind_res (dict_get_or data ''threat_anchors'' (JList [])) (\<lambda>flat.
               if has_length flat then Inr flat else Inl (TypeError ''len''))) of
             Inl e \<Rightarrow> JList [] | Inr anchors \<Rightarrow> anchors)
      | _ \<Rightarrow> JList [])"

section \<open>Vectors\<close>

type_synonym vec = "real list"

definition inner :: "vec \<Rightarrow> vec \<Rightarrow> real" where
  "inner u v = sum_list (map2 (*) u v)"

text \<open>\<open>faiss.normalize_L2\<close>: a zero vector stays as it is.\<close>

definition normalize_L2 :: "vec \<Rightarrow> vec" where
  "normalize_L2 v = (let n = sqrt (inner v v) in if n > 0 then map (\<lambda>x. x / n) v else v)"

type_synonym encoder = "json \<Rightarrow> (py_error, vec option) res"

text \<open>The vectors of the items the encoder has one for; the first failure ends the loop.\<close>

fun encode_items :: "encoder \<Rightarrow> json list \<Rightarrow> (py_error, (json \<times> vec) list) res" where
  "encode_items enc [] = Inr []"
| "encode_items enc (j # js) =
     bind_res (enc j) (\<lambda>v. bind_res (encode_items enc js) (\<lambda>vs. Inr (case v of None \<Rightarrow> vs | Some x \<Rightarrow> (j, x) # vs)))"

text \<open>The running sum: a vector that is too short raises, the rest of a longer one is ignored.\<close>

fun add_into :: "nat \<Rightarrow> vec \<Rightarrow> vec list \<Rightarrow> (py_error, vec) res" where
  "add_into width acc [] = Inr acc"
| "add_into width acc (v # vs) =
     (if length v < width then Inl (IndexError ''list index out of range'') else add_into width (map2 (+) acc v) vs)"

definition average :: "vec list \<Rightarrow> (py_error, vec option) res" where
  "average vs =
     (case vs of
        [] \<Rightarrow> Inr None
      | v # ws \<Rightarrow>
          bind_res (add_into (length v) (replicate (length v) 0) vs) (\<lambda>acc. Inr (Some (map (\<lambda>x. x / real (length vs)) acc))))"

definition centroid_of :: "encoder \<Rightarrow> json \<Rightarrow> (py_error, vec option) res" where
  "centroid_of enc items =
     (if \<not> truthy items then Inr None
      else bind_res (iterate items) (\<lambda>js. bind_res (encode_items enc js) (\<lambda>vs. average (map snd vs))))"

section \<open>Vector stores\<close>

record vector_store =
  vs_texts :: "json list"
  vs_index :: "vec list"

definition empty_store :: vector_store where
  "empty_store = \<lparr>vs_texts = [], vs_index = []\<rparr>"

fun encode_each :: "encoder \<Rightarrow> json list \<Rightarrow> (py_error, vec list) res" where
  "encode_each enc [] = Inr []"
| "encode_each enc (j # js) =
     bind_res (enc j) (\<lambda>v. case v of None \<Rightarrow> Inl (AttributeError ''cpu'') | Some x \<Rightarrow> bind_res (encode_each enc js) (\<lambda>vs. Inr (x # vs)))"

text \<open>\<open>add_texts\<close>: the vectors are computed before the store is touched.\<close>

definition add_texts :: "encoder \<Rightarrow> json \<Rightarrow> vector_store \<Rightarrow> (py_error, unit) res \<times> vector_store" where
  "add_texts enc texts s =
     (if \<not> truthy texts then (Inr (), s)
      else case bind_res (iterate texts) (\<lambda>js. bind_res (encode_each enc js) (\<lambda>vs. Inr (js, vs))) of
        Inl e \<Rightarrow> (Inl e, s)
      | Inr (js, vs) \<Rightarrow> (Inr (), s\<lparr>vs_index := vs_index s @ map normalize_L2 vs, vs_texts := vs_texts s @ js\<rparr>))"

text \<open>The search gives the greatest inner product.\<close>

definition get_max_similarity :: "vector_store \<Rightarrow> vec \<Rightarrow> real" where
  "get_max_similarity s q =
     (case vs_index s of
        [] \<Rightarrow> 0
      | v # vs \<Rightarrow> foldl max (inner (normalize_L2 q) v) (map (inner (normalize_L2 q)) vs))"

definition mean_vector :: "vec list \<Rightarrow> vec" where
  "mean_vector vs = map (\<lambda>i. sum_list (map (\<lambda>v. v ! i) vs) / real (length vs)) [0..<length (hd vs)]"

definition get_centroid :: "encoder \<Rightarrow> vector_store \<Rightarrow> (py_error, vec option) res" where
  "get_centroid enc s =
     (if vs_texts s = [] then Inr None
      else bind_res (encode_each enc (vs_texts s)) (\<lambda>vs. Inr (Some (normalize_L2 (mean_vector vs)))))"

definition educational_context_anchors :: "string list" where
  "educational_context_anchors =
     [''I am researching for a university cybersecurity course'', ''This is a captured flag (CTF) exercise in a virtual environment'',
      ''Explain the theoretical concept for exam preparation'', ''I need to understand the vulnerability to patch it'',
      ''academic research on malware behavior in sandboxes'', ''simulating attack vectors for defensive analysis'']"

text \<open>The stores and the flag that says they are filled.  The count of the log line comes first.\<close>

record stores =
  st_threat :: vector_store
  st_educational :: vector_store
  st_ready :: bool

definition new_stores :: stores where
  "new_stores = \<lparr>st_threat = empty_store, st_educational = empty_store, st_ready = False\<rparr>"

definition ensure_faiss_initialized :: "encoder \<Rightarrow> json \<times> json \<Rightarrow> stores \<Rightarrow> (py_error, unit) res \<times> stores" where
  "ensure_faiss_initialized enc policies s =
     (if st_ready s then (Inr (), s)
      else if \<not> has_length (fst policies) \<or> \<not> list_all (has_length \<circ> snd) (dict_items (snd policies)) then (Inl (TypeError ''len''), s)
      else case add_texts enc (fst policies) (st_threat s) of
        (Inl e, t) \<Rightarrow> (Inl e, s\<lparr>st_threat := t\<rparr>)
      | (Inr _, t) \<Rightarrow>
          (case add_texts enc (JList (map JStr educational_context_anchors)) (st_educational s) of
             (Inl e, u) \<Rightarrow> (Inl e, s\<lparr>st_threat := t, st_educational := u\<rparr>)
           | (Inr _, u) \<Rightarrow> (Inr (), \<lparr>st_threat = t, st_educational = u, st_ready = True\<rparr>)))"

section \<open>Computed once\<close>

text \<open>A module variable and its flag: filled by the first call that does not raise.\<close>

definition get_once :: "(py_error, 'a) res \<Rightarrow> 'a option \<Rightarrow> (py_error, 'a) res \<times> 'a option" where
  "get_once result cached =
     (case cached of
        Some x \<Rightarrow> (Inr x, cached)
      | None \<Rightarrow> (case result of Inl e \<Rightarrow> (Inl e, None) | Inr x \<Rightarrow> (Inr x, Some x)))"

text \<open>The domain corpus: any failure, or a file without the key, is an empty corpus.\<close>

definition load_domain_corpus :: "disk_doc \<Rightarrow> json" where
  "load_domain_corpus f =
     (case f of Doc data \<Rightarrow> (case dict_get_or data ''documents'' (JList []) of Inl e \<Rightarrow> JList [] | Inr docs \<Rightarrow> docs) | _ \<Rightarrow> JList [])"

definition get_domain_centroid :: "encoder \<Rightarrow> disk_doc \<Rightarrow> vec option option \<Rightarrow> (py_error, vec option) res \<times> vec option option" where
  "get_domain_centroid enc f = get_once (centroid_of enc (load_domain_corpus f))"

definition get_malicious_centroid :: "encoder \<Rightarrow> disk_doc \<Rightarrow> vec option option \<Rightarrow> (py_error, vec option) res \<times> vec option option" where
  "get_malicious_centroid enc f = get_once (centroid_of enc (load_threat_anchors f))"

definition is_domain_aligned ::
  "(vec \<Rightarrow> vec \<Rightarrow> real) \<Rightarrow> real \<Rightarrow> encoder \<Rightarrow> disk_doc \<Rightarrow> string \<Rightarrow> vec option option
   \<Rightarrow> (py_error, bool \<times> real) res \<times> vec option option" where
  "is_domain_aligned cosine threshold enc f prompt cached =
     (case get_domain_centroid enc f cached of
        (Inl e, c) \<Rightarrow> (Inl e, c)
      | (Inr None, c) \<Rightarrow> (Inr (True, 1), c)
      | (Inr (Some centre), c) \<Rightarrow>
          (bind_res (enc (JStr prompt)) (\<lambda>v. case v of
             None \<Rightarrow> Inr (True, 1)
           | Some x \<Rightarrow> Inr (cosine x centre \<ge> threshold, cosine x centre)), c))"

definition compute_centroid_similarity ::
  "(vec \<Rightarrow> vec \<Rightarrow> real) \<Rightarrow> encoder \<Rightarrow> disk_doc \<Rightarrow> vec option \<Rightarrow> vec option option \<Rightarrow> (py_error, real) res \<times> vec option option" where
  "compute_centroid_similarity cosine enc f prompt_vec cached =
     (case get_malicious_centroid enc f cached of
        (Inl e, c) \<Rightarrow> (Inl e, c)
      | (Inr None, c) \<Rightarrow> (Inr 0, c)
      | (Inr (Some centre), c) \<Rightarrow> (Inr (case prompt_vec of None \<Rightarrow> 0 | Some x \<Rightarrow> cosine x centre), c))"

text \<open>The meta-intent anchors: here a failure of the encoder is caught too, and is an empty list.\<close>

definition load_meta_intent_vectors :: "encoder \<Rightarrow> disk_doc \<Rightarrow> (json \<times> vec) list" where
  "load_meta_intent_vectors enc f =
     (case f of
        Doc data \<Rightarrow>
          (case bind_res (dict_get_or data ''meta_attack_intents'' (JList [])) (\<lambda>j. bind_res (iterate j) (encode_items enc)) of
             Inl e \<Rightarrow> [] | Inr vs \<Rightarrow> vs)
      | _ \<Rightarrow> [])"

definition get_meta_intent_vectors :: "encoder \<Rightarrow> disk_doc \<Rightarrow> (json \<times> vec) list option \<Rightarrow> (py_error, (json \<times> vec) list) res \<times> (json \<times> vec) list option" where
  "get_meta_intent_vectors enc f = get_once (Inr (load_meta_intent_vectors enc f))"

definition meta_similarities :: "(vec \<Rightarrow> vec \<Rightarrow> real) \<Rightarrow> (json \<times> vec) list \<Rightarrow> vec \<Rightarrow> real list" where
  "meta_similarities cosine vectors v = map (cosine v \<circ> snd) vectors"

text \<open>Calls in order, each under the encoder and the file of its moment.\<close>

fun calls_once :: "('e \<Rightarrow> (py_error, 'a) res) \<Rightarrow> 'e list \<Rightarrow> 'a option \<Rightarrow> (py_error, 'a) res list \<times> 'a option" where
  "calls_once compute [] cached = ([], cached)"
| "calls_once compute (e # es) cached =
     (case get_once (compute e) cached of (r, c) \<Rightarrow> case calls_once compute es c of (rs, c') \<Rightarrow> (r # rs, c'))"

section \<open>Loaders\<close>

lemma dict_get_or_falsy:
  assumes "\<not> truthy d" "\<not> truthy d'"
  shows "(\<exists>e. dict_get_or j k d = Inl e \<and> dict_get_or j k d' = Inl e)
    \<or> (\<exists>x y. dict_get_or j k d = Inr x \<and> dict_get_or j k d' = Inr y \<and> (x = y \<or> \<not> truthy x \<and> \<not> truthy y))"
  using assms by (auto simp: dict_get_or_def jget_or_def split: option.splits)

text \<open>
  The two loaders of the threat anchors agree.  Where the risk pipeline gets its anchors from
  \<open>policies.json\<close>, the centroid is built from the same list; where the pipeline's loader raises,
  the centroid has no anchors.
\<close>

theorem anchor_loaders_agree:
  "case load_policies e f of
     Inr (flat, classes) \<Rightarrow> load_threat_anchors f = (if has_length flat then flat else JList [])
   | Inl _ \<Rightarrow> load_threat_anchors f = JList []"
proof (cases f)
  case (Doc data)
  show ?thesis
  proof (cases "is_dict data")
    case True
    show ?thesis
      using dict_get_or_falsy [of "JDict []" JNull data "''threat_anchor_classes''"] Doc True
      by (auto simp: load_policies_def load_threat_anchors_def bind_res_def has_length_def dict_get_or_def jget_or_def
          split: sum.splits option.splits)
  next
    case False
    then show ?thesis using Doc by (simp add: load_policies_def load_threat_anchors_def dict_get_or_def)
  qed
qed (simp_all add: load_policies_def load_threat_anchors_def has_length_def)

lemma rules_missing:
  assumes "init_policies d f = Inr lp" "load_json_file f = None"
  shows "rules_of lp = Some \<lparr>sr_jailbreak = None, sr_override = None, sr_hard_ban = None\<rparr>"
  using assms by (auto simp: init_policies_def bind_res_Inr_iff rules_of_def texts_of_def)

lemma no_rules_veto:
  "sr_jailbreak r = None \<Longrightarrow> hard_ban_triggered md r text = Some ''SYMBOLIC_POLICY_MISSING''"
  by (simp add: hard_ban_triggered_def check_symbolic_violations_def)

text \<open>
  C6. Without its rule file the pipeline is closed.  When \<open>policies/symbolic_rules.json\<close> is
  missing or does not parse, every prompt that no cached verdict answers is HIGH, with the detail
  \<open>SYMBOLIC_POLICY_MISSING\<close>, whatever the models say.
\<close>

theorem missing_rules_veto_everything:
  assumes "init_policies domain_file symbolic_file = Inr lp"
    and "symbolic_file \<in> {Missing, Unreadable}"
    and "fst (stage0 md st ck prompt p) = None"
  shows "\<exists>rules p'. rules_of lp = Some rules
    \<and> assess_risk md st rules ck scheduler prompt raw p = (Inr (symbolic_result ''SYMBOLIC_POLICY_MISSING''), p')"
proof -
  let ?r = "\<lparr>sr_jailbreak = None, sr_override = None, sr_hard_ban = None\<rparr> :: symbolic_rules"
  have "load_json_file symbolic_file = None" using assms(2) by (auto simp: load_json_file_def)
  then have r: "rules_of lp = Some ?r" by (rule rules_missing [OF assms(1)])
  have "\<exists>p'. assess_risk md st ?r ck scheduler prompt raw p = (Inr (symbolic_result ''SYMBOLIC_POLICY_MISSING''), p')"
    using assms(3) no_rules_veto [of ?r md]
    by (cases "stage0 md st ck prompt p") (simp add: assess_split assess_uncached_def Let_def)
  then show ?thesis using r by blast
qed

text \<open>A rule file that lacks a list switches that category off: the default is an empty list.\<close>

lemma missing_list_is_empty:
  assumes "init_policies d (Doc (JDict [])) = Inr lp"
  shows "rules_of lp = Some \<lparr>sr_jailbreak = Some [], sr_override = Some [], sr_hard_ban = Some []\<rparr>"
  using assms
  by (auto simp: init_policies_def load_json_file_def dict_get_or_def jget_or_def bind_res_Inr_iff rules_of_def texts_of_def)

section \<open>Similarities\<close>

lemma inner_Cons [simp]: "inner (x # u) (y # v) = x * y + inner u v"
  by (simp add: inner_def)

lemma inner_Nil [simp]: "inner [] v = 0" "inner u [] = 0"
  by (simp_all add: inner_def)

lemma inner_self: "inner v v \<ge> 0"
  by (induction v) simp_all

lemma halves_add: "(z :: real) \<le> a + b \<Longrightarrow> 2 * a \<le> p + p' \<Longrightarrow> 2 * b \<le> q + q' \<Longrightarrow> 2 * z \<le> (p + q) + (p' + q')"
  by linarith

lemma inner_halves: "2 * \<bar>inner u v\<bar> \<le> inner u u + inner v v"
proof (induction u v rule: list_induct2')
  case (4 x xs y ys)
  have "2 * \<bar>x * y\<bar> \<le> x * x + y * y"
    using sum_squares_bound [of "\<bar>x\<bar>" "\<bar>y\<bar>"] by (simp add: abs_mult power2_eq_square)
  with abs_triangle_ineq show ?case using 4 unfolding inner_Cons by (rule halves_add)
qed (simp_all add: inner_self)

lemma inner_scaled: "inner (map (\<lambda>x. x / n) v) (map (\<lambda>x. x / n) v) = inner v v / (n * n)"
  by (induction v) (simp_all add: add_divide_distrib)

lemma inner_normalized: "inner (normalize_L2 v) (normalize_L2 v) \<le> 1"
proof (cases "sqrt (inner v v) > 0")
  case True
  then show ?thesis using inner_self [of v] by (simp add: normalize_L2_def inner_scaled Let_def)
next
  case False
  then show ?thesis using inner_self [of v] by (simp add: normalize_L2_def Let_def)
qed

lemma similarity_bounded: "\<bar>inner (normalize_L2 q) (normalize_L2 v)\<bar> \<le> 1"
  using inner_halves [of "normalize_L2 q" "normalize_L2 v"] inner_normalized [of q] inner_normalized [of v] by linarith

lemma foldl_max: "foldl max x xs = Max (set (x # xs))"
proof (induction xs arbitrary: x)
  case (Cons y ys)
  then show ?case by (cases "ys = []") (simp_all add: max.assoc)
qed simp

lemma max_similarity_Max:
  "get_max_similarity s q = (if vs_index s = [] then 0 else Max (inner (normalize_L2 q) ` set (vs_index s)))"
proof (cases "vs_index s")
  case (Cons v vs)
  have "get_max_similarity s q = Max (set (inner (normalize_L2 q) v # map (inner (normalize_L2 q)) vs))"
    unfolding get_max_similarity_def Cons list.case by (rule foldl_max)
  then show ?thesis using Cons by simp
qed (simp add: get_max_similarity_def)

section \<open>The stores after any number of attempts\<close>

definition encodes :: "encoder \<Rightarrow> (json \<Rightarrow> vec) \<Rightarrow> bool" where
  "encodes enc vec_of \<longleftrightarrow> (\<forall>j x. enc j = Inr (Some x) \<longrightarrow> x = vec_of j)"

lemma encode_each_Inr: "encodes enc vec_of \<Longrightarrow> encode_each enc js = Inr vs \<Longrightarrow> vs = map vec_of js"
  by (induction js arbitrary: vs) (auto simp: encodes_def bind_res_Inr_iff split: option.splits)

text \<open>What every attempt keeps: a store is empty or holds each anchor, and nothing else.\<close>

definition holds :: "(json \<Rightarrow> vec) \<Rightarrow> json list \<Rightarrow> vector_store \<Rightarrow> bool" where
  "holds vec_of js s \<longleftrightarrow> set (vs_index s) = (normalize_L2 \<circ> vec_of) ` set js"

lemma add_texts_holds:
  assumes "encodes enc vec_of" "iterate texts = Inr js" "js \<noteq> []" "vs_index s = [] \<or> holds vec_of js s"
    and "add_texts enc texts s = (r, s')" "truthy texts"
  shows "(case r of Inr _ \<Rightarrow> holds vec_of js s' | Inl _ \<Rightarrow> s' = s)"
proof (cases "encode_each enc js")
  case (Inl e)
  then show ?thesis using assms by (auto simp: add_texts_def)
next
  case (Inr vs)
  then show ?thesis
    using assms encode_each_Inr [OF assms(1) Inr] by (auto simp: add_texts_def holds_def image_comp)
qed

definition anchors_inv :: "(json \<Rightarrow> vec) \<Rightarrow> json list \<Rightarrow> stores \<Rightarrow> bool" where
  "anchors_inv vec_of js s \<longleftrightarrow>
     (vs_index (st_threat s) = [] \<or> holds vec_of js (st_threat s))
     \<and> (vs_index (st_educational s) = [] \<or> holds vec_of (map JStr educational_context_anchors) (st_educational s))
     \<and> (st_ready s \<longrightarrow> holds vec_of js (st_threat s) \<and> holds vec_of (map JStr educational_context_anchors) (st_educational s))"

lemma ensure_keeps_inv:
  assumes "encodes enc vec_of" "iterate (fst policies) = Inr js" "js \<noteq> []" "truthy (fst policies)" "anchors_inv vec_of js s"
  shows "anchors_inv vec_of js (snd (ensure_faiss_initialized enc policies s))"
proof (cases "st_ready s \<or> \<not> has_length (fst policies) \<or> \<not> list_all (has_length \<circ> snd) (dict_items (snd policies))")
  case True
  then show ?thesis using assms(5) by (auto simp: ensure_faiss_initialized_def)
next
  case go: False
  obtain r t where t: "add_texts enc (fst policies) (st_threat s) = (r, t)" by fastforce
  obtain r' u where u: "add_texts enc (JList (map JStr educational_context_anchors)) (st_educational s) = (r', u)" by fastforce
  have a: "case r of Inr _ \<Rightarrow> holds vec_of js t | Inl _ \<Rightarrow> t = st_threat s"
    using add_texts_holds [OF assms(1-3) _ t assms(4)] assms(5) by (simp add: anchors_inv_def)
  have b: "case r' of Inr _ \<Rightarrow> holds vec_of (map JStr educational_context_anchors) u | Inl _ \<Rightarrow> u = st_educational s"
    using assms(5) by (intro add_texts_holds [OF assms(1) _ _ _ u]) (simp_all add: anchors_inv_def iterate_def educational_context_anchors_def)
  show ?thesis
    using go a b assms(5)
    by (cases r; cases r') (simp_all add: ensure_faiss_initialized_def t u anchors_inv_def)
qed

definition ensure_all :: "encoder list \<Rightarrow> json \<times> json \<Rightarrow> stores \<Rightarrow> stores" where
  "ensure_all encs policies s = foldl (\<lambda>s enc. snd (ensure_faiss_initialized enc policies s)) s encs"

lemma ensure_all_inv:
  assumes "\<forall>enc \<in> set encs. encodes enc vec_of" "iterate (fst policies) = Inr js" "js \<noteq> []" "truthy (fst policies)"
    and "anchors_inv vec_of js s"
  shows "anchors_inv vec_of js (ensure_all encs policies s)"
  using assms by (induction encs arbitrary: s) (simp_all add: ensure_all_def ensure_keeps_inv)

lemma iterate_truthy: "iterate j = Inr js \<Longrightarrow> js \<noteq> [] \<Longrightarrow> truthy j"
  by (cases j) (auto simp: iterate_def)

text \<open>
  C25. Failed attempts leave no trace in the scores.  However often filling the stores failed on
  the encoder before it succeeded, the threat score of a vector is the greatest cosine of it and an
  anchor of \<open>policies.json\<close>, the educational score likewise, and both lie between -1 and 1.
\<close>

theorem store_scores_exact:
  assumes "\<forall>enc \<in> set encs. encodes enc vec_of"
    and "load_policies e f = Inr policies" "iterate (fst policies) = Inr js" "js \<noteq> []"
    and "st_ready (ensure_all encs policies new_stores)"
  shows "get_max_similarity (st_threat (ensure_all encs policies new_stores)) q
      = Max ((\<lambda>j. inner (normalize_L2 q) (normalize_L2 (vec_of j))) ` set js)
    \<and> get_max_similarity (st_educational (ensure_all encs policies new_stores)) q
      = Max ((\<lambda>t. inner (normalize_L2 q) (normalize_L2 (vec_of (JStr t)))) ` set educational_context_anchors)
    \<and> \<bar>get_max_similarity (st_threat (ensure_all encs policies new_stores)) q\<bar> \<le> 1
    \<and> \<bar>get_max_similarity (st_educational (ensure_all encs policies new_stores)) q\<bar> \<le> 1"
proof -
  let ?s = "ensure_all encs policies new_stores"
  have "anchors_inv vec_of js new_stores" by (simp add: anchors_inv_def new_stores_def empty_store_def)
  from ensure_all_inv [OF assms(1,3,4) iterate_truthy [OF assms(3,4)] this]
  have h: "holds vec_of js (st_threat ?s)" "holds vec_of (map JStr educational_context_anchors) (st_educational ?s)"
    using assms(5) by (simp_all add: anchors_inv_def)
  have m: "get_max_similarity s q = Max ((\<lambda>j. inner (normalize_L2 q) (normalize_L2 (vec_of j))) ` set ks)
      \<and> \<bar>get_max_similarity s q\<bar> \<le> 1" if "holds vec_of ks s" "ks \<noteq> []" for s ks
  proof -
    let ?M = "(\<lambda>j. inner (normalize_L2 q) (normalize_L2 (vec_of j))) ` set ks"
    have "vs_index s \<noteq> []" using that by (auto simp: holds_def)
    then have e: "get_max_similarity s q = Max ?M"
      using that(1) by (simp add: max_similarity_Max holds_def image_comp comp_def)
    have "Max ?M \<in> ?M" by (rule Max_in) (use that(2) in auto)
    then show ?thesis using similarity_bounded e by auto
  qed
  have ne: "map JStr educational_context_anchors \<noteq> []" by (simp add: educational_context_anchors_def)
  show ?thesis using m [OF h(1) assms(4)] m [OF h(2) ne] by (auto simp: image_comp comp_def)
qed

section \<open>Values computed once\<close>

lemma calls_once_Some: "calls_once compute es (Some x) = (replicate (length es) (Inr x), Some x)"
  by (induction es) (simp_all add: get_once_def)

text \<open>Up to the first success every call raises, and computes again; from it on the value stands.\<close>

lemma calls_once_append:
  "calls_once compute (es @ fs) c =
     (fst (calls_once compute es c) @ fst (calls_once compute fs (snd (calls_once compute es c))),
      snd (calls_once compute fs (snd (calls_once compute es c))))"
  by (induction es arbitrary: c) (auto split: prod.splits)

lemma calls_once_raising:
  "\<forall>e \<in> set es. \<exists>x. compute e = Inl x \<Longrightarrow> calls_once compute es None = (map compute es, None)"
  by (induction es) (auto simp: get_once_def)

lemma calls_once_first:
  assumes "\<forall>e \<in> set es. \<exists>x. compute e = Inl x" "compute e = Inr x"
  shows "calls_once compute (es @ e # fs) None = (map compute es @ replicate (Suc (length fs)) (Inr x), Some x)"
  using assms by (simp add: calls_once_append calls_once_raising get_once_def calls_once_Some)

definition meta_calls :: "(encoder \<times> disk_doc) list \<Rightarrow> (py_error, (json \<times> vec) list) res list" where
  "meta_calls es = fst (calls_once (\<lambda>(enc, f). Inr (load_meta_intent_vectors enc f)) es None)"

definition domain_calls :: "(encoder \<times> disk_doc) list \<Rightarrow> (py_error, vec option) res list" where
  "domain_calls es = fst (calls_once (\<lambda>(enc, f). centroid_of enc (load_domain_corpus f)) es None)"

text \<open>
  One failed load decides for the process.  When the encoder or the file of the meta-intent
  anchors fails at their first use, every later call gives no anchors, whatever has recovered, so
  their score is 0 for every prompt; the domain centroid, whose failures are raised and not caught,
  is computed again at the next call, and the first success stands.
\<close>

theorem meta_intent_outage_latches:
  assumes "f \<in> {Missing, Unreadable} \<or> (\<forall>j. \<exists>x. enc j = Inl x)"
    and "Inr vectors \<in> set (meta_calls ((enc, f) # later))"
    and "md_meta_similarities md = meta_similarities cosine vectors"
    and "\<forall>(enc', f') \<in> set failing. \<exists>x. centroid_of enc' (load_domain_corpus f') = Inl x"
    and "centroid_of enc'' (load_domain_corpus f'') = Inr centre"
  shows "check_meta_intent md v = 0
    \<and> domain_calls (failing @ (enc'', f'') # later)
      = map (\<lambda>(enc', f'). centroid_of enc' (load_domain_corpus f')) failing @ replicate (Suc (length later)) (Inr centre)"
proof -
  have "encode_items enc js = Inr vs \<Longrightarrow> \<forall>j. \<exists>x. enc j = Inl x \<Longrightarrow> vs = []" for js vs
    by (cases js) (auto simp: bind_res_Inr_iff, metis Inr_Inl_False)
  then have "load_meta_intent_vectors enc f = []"
    using assms(1) by (auto simp: load_meta_intent_vectors_def bind_res_def split: disk_doc.splits sum.splits)
  then have "vectors = []"
    using assms(2) by (auto simp: meta_calls_def get_once_def calls_once_Some split: prod.splits)
  then have "check_meta_intent md v = 0" using assms(3) by (simp add: check_meta_intent_def meta_similarities_def)
  moreover have "\<forall>e \<in> set failing. \<exists>x. (\<lambda>(enc, f). centroid_of enc (load_domain_corpus f)) e = Inl x"
    using assms(4) by fastforce
  note calls_once_first [OF this, of "(enc'', f'')" centre later]
  ultimately show ?thesis using assms(5) by (simp add: domain_calls_def)
qed

section \<open>Concrete instances\<close>

definition demo_encoder :: encoder where
  "demo_encoder j = (case j of JStr s \<Rightarrow> Inr (Some (if s = ''bad'' then [3, 4] else [1, 0])) | _ \<Rightarrow> Inl (TypeError ''text''))"

definition down_encoder :: encoder where
  "down_encoder j = Inl (OtherError ''model'')"

definition demo_vec_of :: "json \<Rightarrow> vec" where
  "demo_vec_of j = (if j = JStr ''bad'' then [3, 4] else [1, 0])"

definition demo_policy_file :: disk_doc where
  "demo_policy_file = Doc (JDict [(''threat_anchor_classes'', JDict [(''a'', JList [JStr ''bad''])])])"

lemma demo_encodes: "encodes demo_encoder demo_vec_of" "encodes down_encoder demo_vec_of"
  by (auto simp: encodes_def demo_encoder_def down_encoder_def demo_vec_of_def split: json.splits)

lemma demo_loaded:
  "load_policies e demo_policy_file = Inr (JList [JStr ''bad''], JDict [(''a'', JList [JStr ''bad''])])"
  by (simp add: load_policies_def demo_policy_file_def dict_get_or_def jget_or_def dict_values_def iterate_def)

lemma demo_ready:
  "st_ready (ensure_all [down_encoder, demo_encoder] (JList [JStr ''bad''], JDict [(''a'', JList [JStr ''bad''])]) new_stores)"
  by (simp add: ensure_all_def ensure_faiss_initialized_def new_stores_def add_texts_def down_encoder_def demo_encoder_def
      has_length_def iterate_def educational_context_anchors_def)

theorem missing_rules_veto_everything_witness:
  "\<exists>rules p'. rules_of \<lparr>lp_domains = JList [], lp_suspicious = JList [], lp_jailbreak = JNull, lp_override = JNull, lp_hard_ban = JNull\<rparr>
      = Some rules
    \<and> assess_risk demo_models demo_settings rules (demo_clock 0) True ''Hi'' None demo_pipeline
      = (Inr (symbolic_result ''SYMBOLIC_POLICY_MISSING''), p')"
  by (rule missing_rules_veto_everything [of Missing Missing])
    (simp_all add: init_policies_def load_json_file_def demo_stage0)

theorem store_scores_exact_witness:
  "get_max_similarity (st_threat (ensure_all [down_encoder, demo_encoder]
     (JList [JStr ''bad''], JDict [(''a'', JList [JStr ''bad''])]) new_stores)) [1, 0]
   = Max ((\<lambda>j. inner (normalize_L2 [1, 0]) (normalize_L2 (demo_vec_of j))) ` set [JStr ''bad''])"
  using store_scores_exact [of "[down_encoder, demo_encoder]" demo_vec_of undefined demo_policy_file, OF _ demo_loaded,
      of "[JStr ''bad'']" "[1, 0]"] demo_encodes demo_ready
  by (simp add: iterate_def)

theorem meta_intent_outage_latches_witness:
  "(\<forall>(md :: vec models) v. check_meta_intent (md\<lparr>md_meta_similarities := meta_similarities (\<lambda>u v. 1) []\<rparr>) v = 0)
   \<and> domain_calls [(down_encoder, Doc (JDict [(''documents'', JList [JStr ''x''])])), (demo_encoder, Doc (JDict [(''documents'', JList [JStr ''x''])]))]
     = [Inl (OtherError ''model''), Inr (Some [1, 0])]"
proof -
  let ?f = "Doc (JDict [(''documents'', JList [JStr ''x''])])"
  have c: "centroid_of demo_encoder (load_domain_corpus ?f) = Inr (Some [1, 0])"
    "centroid_of down_encoder (load_domain_corpus ?f) = Inl (OtherError ''model'')"
    by (simp_all add: centroid_of_def load_domain_corpus_def dict_get_or_def jget_or_def iterate_def demo_encoder_def
        down_encoder_def average_def)
  have m: "Inr [] \<in> set (meta_calls [(down_encoder, Missing)])"
    by (simp add: meta_calls_def get_once_def load_meta_intent_vectors_def)
  show ?thesis
    using meta_intent_outage_latches [of Missing down_encoder "[]" "[]" "md\<lparr>md_meta_similarities := meta_similarities (\<lambda>u v. 1) []\<rparr>"
        "\<lambda>u v. 1" "[(down_encoder, ?f)]" demo_encoder ?f "Some [1, 0]" v for md :: "vec models" and v] c m
    by simp
qed

end
