(* ===== verification/Normalizer.thy ===== *)
theory Normalizer
  imports Prelude
begin

text \<open>
  The prompt normalisation of \<open>core/normalizer.py\<close>, which the symbolic rules match against.

  A text is a list of code points.  \<open>unicode_env\<close> holds the tables of the standard library: NFKC,
  lower-casing, \<open>\s\<close>, \<open>\w\<close> and what \<open>strip\<close> removes.
\<close>

section \<open>Definitions from the code\<close>

type_synonym cps = "nat list"

record unicode_env =
  un_nfkc :: "cps \<Rightarrow> cps"
  un_lower :: "cps \<Rightarrow> cps"
  un_space :: "nat \<Rightarrow> bool"
  un_word :: "nat \<Rightarrow> bool"

definition letter :: "nat \<Rightarrow> bool" where
  "letter c \<longleftrightarrow> 97 \<le> c \<and> c \<le> 122"

text \<open>\<open>HOMOGLYPH_MAP\<close>: eight Cyrillic letters.\<close>

definition homoglyph_map :: "(nat \<times> nat) list" where
  "homoglyph_map = [(0x43E, 111), (0x430, 97), (0x435, 101), (0x440, 112), (0x441, 99), (0x445, 120), (0x4E9, 111), (0x456, 105)]"

definition zero_width :: "nat \<Rightarrow> bool" where
  "zero_width c \<longleftrightarrow> c \<in> {0x200B, 0x200C, 0x200D, 0x200E, 0x200F, 0x2060, 0x2061, 0x2062, 0x2063, 0xFEFF, 0xAD}"

definition strip_zero_width :: "cps \<Rightarrow> cps" where
  "strip_zero_width t = filter (\<lambda>c. \<not> zero_width c) t"

text \<open>\<open>text.replace(cyrillic, latin)\<close>, one entry of the map after the other.\<close>

definition replace_char :: "nat \<times> nat \<Rightarrow> cps \<Rightarrow> cps" where
  "replace_char p t = map (\<lambda>c. if c = fst p then snd p else c) t"

definition replace_homoglyphs :: "cps \<Rightarrow> cps" where
  "replace_homoglyphs t = fold replace_char homoglyph_map t"

text \<open>\<open>re.sub(r"\s+", " ", t)\<close>.\<close>

function collapse_space :: "(nat \<Rightarrow> bool) \<Rightarrow> cps \<Rightarrow> cps" where
  "collapse_space sp [] = []"
| "collapse_space sp (c # t) =
     (if sp c then 32 # collapse_space sp (dropWhile sp t) else c # collapse_space sp t)"
  by pat_completeness auto
termination
  by (relation "measure (\<lambda>(sp, t). length t)") (auto simp: less_Suc_eq_le length_dropWhile_le)

text \<open>
  One pass of \<open>SPACED_CHARS_PATTERN.sub(r"\1", t)\<close>; \<open>after_word\<close> says whether the character before
  is a word character.  A match takes the letter and the space; the letter it looks ahead to is
  where the next match may start.
\<close>

fun join_spaced :: "unicode_env \<Rightarrow> bool \<Rightarrow> cps \<Rightarrow> cps" where
  "join_spaced un after_word (c # d # e # t) =
     (if \<not> after_word \<and> letter c \<and> un_space un d \<and> letter e \<and> (case t of [] \<Rightarrow> True | x # _ \<Rightarrow> \<not> un_word un x)
      then c # join_spaced un False (e # t)
      else c # join_spaced un (un_word un c) (d # e # t))"
| "join_spaced un after_word t = t"

text \<open>\<open>while prev != text\<close>.\<close>

partial_function (option) join_loop :: "unicode_env \<Rightarrow> cps \<Rightarrow> cps option" where
  "join_loop un t = (let t' = join_spaced un False t in if t' = t then Some t else join_loop un t')"

definition strip_ends :: "(nat \<Rightarrow> bool) \<Rightarrow> cps \<Rightarrow> cps" where
  "strip_ends sp t = rev (dropWhile sp (rev (dropWhile sp t)))"

definition before_joining :: "unicode_env \<Rightarrow> cps \<Rightarrow> cps" where
  "before_joining un prompt =
     collapse_space (un_space un) (replace_homoglyphs (strip_zero_width (un_lower un (un_nfkc un prompt))))"

definition normalize_prompt :: "unicode_env \<Rightarrow> cps \<Rightarrow> cps option" where
  "normalize_prompt un prompt = map_option (strip_ends (un_space un)) (join_loop un (before_joining un prompt))"

section \<open>The loop ends\<close>

lemma join_shorter_or_same: "join_spaced un w t = t \<or> length (join_spaced un w t) < length t"
  by (induction un w t rule: join_spaced.induct) auto

lemma join_loop_ends: "\<exists>t'. join_loop un t = Some t' \<and> join_spaced un False t' = t'"
proof (induction "length t" arbitrary: t rule: less_induct)
  case less
  show ?case
  proof (cases "join_spaced un False t = t")
    case True
    then show ?thesis by (subst join_loop.simps) simp
  next
    case False
    then have "length (join_spaced un False t) < length t" using join_shorter_or_same by blast
    from less [OF this] show ?thesis using False by (subst join_loop.simps) (simp add: Let_def)
  qed
qed

text \<open>What holds of every character survives the passes.\<close>

lemma join_set: "set (join_spaced un w t) \<subseteq> set t"
  by (induction un w t rule: join_spaced.induct) auto

lemma join_loop_set: "join_loop un t = Some t' \<Longrightarrow> set t' \<subseteq> set t"
proof (induction "length t" arbitrary: t rule: less_induct)
  case less
  show ?case
  proof (cases "join_spaced un False t = t")
    case True
    then show ?thesis using less.prems by (subst (asm) join_loop.simps) simp
  next
    case False
    have l: "length (join_spaced un False t) < length t" using False join_shorter_or_same by blast
    have "join_loop un (join_spaced un False t) = Some t'" using less.prems False by (subst (asm) join_loop.simps) (simp add: Let_def)
    from less.hyps [OF l this] show ?thesis using join_set by blast
  qed
qed

lemma dropWhile_dest: "dropWhile sp t = c # s \<Longrightarrow> \<not> sp c"
  by (induction t) (auto split: if_splits)

lemma collapse_set: "set (collapse_space sp t) \<subseteq> {c \<in> set t. \<not> sp c} \<union> {32}"
proof (induction sp t rule: collapse_space.induct)
  case (2 sp c t)
  have "{c \<in> set (dropWhile sp t). \<not> sp c} \<subseteq> {c \<in> set t. \<not> sp c}" by (auto dest: set_dropWhileD)
  then show ?case using 2 by (cases "sp c") auto
qed simp

text \<open>The replacements act on each character, and leave none of the map's keys.\<close>

lemma fold_replace: "fold replace_char ps t = map (\<lambda>c. fold (\<lambda>p c. if c = fst p then snd p else c) ps c) t"
  by (induction ps arbitrary: t) (auto simp: replace_char_def)

lemma fold_value: "fold (\<lambda>p c. if c = fst p then snd p else c) ps c = c \<or> fold (\<lambda>p c. if c = fst p then snd p else c) ps c \<in> snd ` set ps"
proof (induction ps arbitrary: c)
  case (Cons p ps)
  then show ?case using Cons [of "snd p"] Cons [of c] by auto
qed simp

lemma fold_not_key:
  assumes "snd ` set ps \<inter> ks = {}" "fst ` set ps \<subseteq> ks"
  shows "fold (\<lambda>p c. if c = fst p then snd p else c) ps c \<notin> fst ` set ps"
  using assms
proof (induction ps arbitrary: c)
  case (Cons p ps)
  let ?c = "if c = fst p then snd p else c"
  have "?c \<noteq> fst p" using Cons.prems by auto
  moreover have "fst p \<notin> snd ` set ps" using Cons.prems by auto
  ultimately have "fold (\<lambda>p c. if c = fst p then snd p else c) ps ?c \<noteq> fst p" using fold_value [of ps ?c] by metis
  then show ?case using Cons.IH [of ?c] Cons.prems by auto
qed simp

lemma homoglyph_gone: "c \<in> set (replace_homoglyphs t) \<Longrightarrow> c \<notin> fst ` set homoglyph_map"
proof -
  have "snd ` set homoglyph_map \<inter> fst ` set homoglyph_map = {}" by (simp add: homoglyph_map_def)
  note gone = fold_not_key [OF this subset_refl]
  assume "c \<in> set (replace_homoglyphs t)"
  then show ?thesis unfolding replace_homoglyphs_def fold_replace using gone by auto
qed

lemma strip_set: "set (strip_ends sp t) \<subseteq> set t"
  by (auto simp: strip_ends_def dest!: set_dropWhileD)

text \<open>A space between two lone letters, where \<open>w\<close> tells of the character before the text.\<close>

definition spaced_at :: "unicode_env \<Rightarrow> bool \<Rightarrow> cps \<Rightarrow> nat \<Rightarrow> bool" where
  "spaced_at un w t i \<longleftrightarrow> i + 2 < length t \<and> letter (t ! i) \<and> un_space un (t ! (i + 1)) \<and> letter (t ! (i + 2))
     \<and> (if i = 0 then \<not> w else \<not> un_word un (t ! (i - 1))) \<and> (i + 3 < length t \<longrightarrow> \<not> un_word un (t ! (i + 3)))"

lemma spaced_shrinks: "spaced_at un w t i \<Longrightarrow> length (join_spaced un w t) < length t"
proof (induction un w t arbitrary: i rule: join_spaced.induct)
  case (1 un w c d e t)
  show ?case
  proof (cases "\<not> w \<and> letter c \<and> un_space un d \<and> letter e \<and> (case t of [] \<Rightarrow> True | x # _ \<Rightarrow> \<not> un_word un x)")
    case True
    then show ?thesis using join_shorter_or_same [of un False "e # t"] by auto
  next
    case False
    have "i \<noteq> 0"
      using 1(3) False by (auto simp: spaced_at_def nth_Cons' split: list.splits if_splits)
    then obtain j where j: "i = Suc j" by (cases i) auto
    have "spaced_at un (un_word un c) (d # e # t) j"
      using 1(3) unfolding spaced_at_def j by (cases j) auto
    then show ?thesis using 1(2) False by auto
  qed
qed (auto simp: spaced_at_def)

lemma joined_fixed: "join_spaced un w t = t \<Longrightarrow> \<not> spaced_at un w t i"
  using spaced_shrinks by force

text \<open>No two spaces in a row.\<close>

definition single_spaced :: "(nat \<Rightarrow> bool) \<Rightarrow> cps \<Rightarrow> bool" where
  "single_spaced sp t \<longleftrightarrow> successively (\<lambda>a b. \<not> (sp a \<and> sp b)) t"

lemma single_spaced_Cons: "single_spaced sp (c # t) \<longleftrightarrow> single_spaced sp t \<and> (t = [] \<or> \<not> (sp c \<and> sp (hd t)))"
  by (cases t) (auto simp: single_spaced_def)

lemma collapse_hd: "t \<noteq> [] \<Longrightarrow> \<not> sp (hd t) \<Longrightarrow> collapse_space sp t \<noteq> [] \<and> hd (collapse_space sp t) = hd t"
  by (cases t) auto

lemma collapse_single: "sp 32 \<Longrightarrow> single_spaced sp (collapse_space sp t)"
proof (induction sp t rule: collapse_space.induct)
  case (2 sp c t)
  show ?case
  proof (cases "sp c")
    case True
    let ?u = "dropWhile sp t"
    have "collapse_space sp u = [] \<or> \<not> sp (hd (collapse_space sp u))" if "u = ?u" for u
    proof (cases u)
      case (Cons a as)
      then show ?thesis using dropWhile_dest [of sp t a as] that by simp
    qed simp
    then show ?thesis using 2 True by (auto simp: single_spaced_Cons)
  next
    case False
    then show ?thesis using 2 by (auto simp: single_spaced_Cons)
  qed
qed (simp add: single_spaced_def)

lemma join_hd: "t \<noteq> [] \<Longrightarrow> join_spaced un w t \<noteq> [] \<and> hd (join_spaced un w t) = hd t"
  by (induction un w t rule: join_spaced.induct) auto

lemma join_single:
  assumes "\<And>c. letter c \<Longrightarrow> \<not> un_space un c"
  shows "single_spaced (un_space un) t \<Longrightarrow> single_spaced (un_space un) (join_spaced un w t)"
proof (induction un w t rule: join_spaced.induct)
  case (1 un w c d e t)
  then show ?case using join_hd [of "e # t" un False] join_hd [of "d # e # t" un "un_word un c"]
    by (auto simp: single_spaced_Cons split: if_splits)
qed auto

lemma join_loop_keeps:
  assumes "join_loop un t = Some t'" "P t" "\<And>u. P u \<Longrightarrow> P (join_spaced un False u)"
  shows "P t' \<and> join_spaced un False t' = t'"
  using assms(1,2)
proof (induction "length t" arbitrary: t rule: less_induct)
  case less
  show ?case
  proof (cases "join_spaced un False t = t")
    case True
    then have "t' = t" using less.prems(1) join_loop.simps [of un t] by simp
    then show ?thesis using less.prems(2) True by simp
  next
    case False
    have l: "length (join_spaced un False t) < length t" using False join_shorter_or_same by blast
    have "join_loop un (join_spaced un False t) = Some t'" using less.prems(1) False by (subst (asm) join_loop.simps) (simp add: Let_def)
    from less.hyps [OF l this] show ?thesis using assms(3) less.prems(2) by blast
  qed
qed

lemma strip_split: "\<exists>a b. t = a @ strip_ends sp t @ b \<and> (\<forall>c \<in> set (a @ b). sp c)"
proof -
  let ?u = "dropWhile sp t"
  have "t = takeWhile sp t @ ?u" by simp
  moreover have "?u = strip_ends sp t @ rev (takeWhile sp (rev ?u))"
    unfolding strip_ends_def by (metis rev_append rev_rev_ident takeWhile_dropWhile_id)
  ultimately have "t = takeWhile sp t @ strip_ends sp t @ rev (takeWhile sp (rev ?u))" by simp
  moreover have "\<forall>c \<in> set (takeWhile sp t @ rev (takeWhile sp (rev ?u))). sp c" by (auto dest: set_takeWhileD)
  ultimately show ?thesis by blast
qed

lemma strip_hd: "strip_ends sp t = c # s \<Longrightarrow> \<not> sp c"
proof -
  let ?u = "dropWhile sp t"
  assume s: "strip_ends sp t = c # s"
  have "?u = strip_ends sp t @ rev (takeWhile sp (rev ?u))"
    unfolding strip_ends_def by (metis rev_append rev_rev_ident takeWhile_dropWhile_id)
  then have "?u = c # s @ rev (takeWhile sp (rev ?u))" using s by simp
  then show ?thesis by (rule dropWhile_dest)
qed

lemma strip_last: "strip_ends sp t \<noteq> [] \<Longrightarrow> \<not> sp (last (strip_ends sp t))"
  unfolding strip_ends_def using hd_dropWhile [of sp "rev (dropWhile sp t)"] by (simp add: last_rev)

lemma spaced_in_context:
  assumes "spaced_at un False s i" "\<And>c. un_space un c \<Longrightarrow> \<not> un_word un c" "\<forall>c \<in> set (a @ b). un_space un c"
  shows "spaced_at un False (a @ s @ b) (length a + i)"
proof -
  have l: "i + 2 < length s" using assms(1) by (simp add: spaced_at_def)
  have at: "(a @ s @ b) ! (length a + i + k) = s ! (i + k)" if "i + k < length s" for k
    using that by (simp add: nth_append add.assoc)
  have before: "length a + i = 0 \<or> \<not> un_word un ((a @ s @ b) ! (length a + i - 1))"
  proof (cases i)
    case 0
    show ?thesis
    proof (cases "a = []")
      case False
      then have "(a @ s @ b) ! (length a - 1) \<in> set a" by (simp add: nth_append)
      then show ?thesis using assms(2,3) 0 by auto
    qed (simp add: 0)
  next
    case (Suc j)
    then have "\<not> un_word un (s ! j)" using assms(1) by (simp add: spaced_at_def)
    then show ?thesis using Suc l by (simp add: nth_append)
  qed
  have after: "length a + i + 3 < length (a @ s @ b) \<longrightarrow> \<not> un_word un ((a @ s @ b) ! (length a + i + 3))"
  proof (cases "i + 3 < length s")
    case True
    then show ?thesis using assms(1) at [of 3] by (simp add: spaced_at_def)
  next
    case False
    then have "i + 3 = length s" using l by simp
    then have "(a @ s @ b) ! (length a + i + 3) = b ! 0" by (simp add: nth_append)
    then show ?thesis using assms(2,3) \<open>i + 3 = length s\<close> by auto
  qed
  show ?thesis
    using assms(1) l at [of 0] at [of 1] at [of 2] before after unfolding spaced_at_def by auto
qed

section \<open>Properties\<close>

text \<open>
  C24. Normalisation ends, and what it leaves hides nothing the rules look for in the ways it knows:
  no zero-width character, no letter of the homoglyph map, no white space but single inner spaces,
  and no letters spaced one by one.
\<close>

theorem normalized_text_is_plain:
  assumes "\<forall>c. un_space un c \<longrightarrow> \<not> un_word un c" "\<forall>c. letter c \<longrightarrow> un_word un c" "un_space un 32"
  shows "\<exists>t. normalize_prompt un prompt = Some t
    \<and> (\<forall>c \<in> set t. \<not> zero_width c \<and> c \<notin> fst ` set homoglyph_map \<and> (un_space un c \<longrightarrow> c = 32))
    \<and> (t \<noteq> [] \<longrightarrow> \<not> un_space un (hd t) \<and> \<not> un_space un (last t))
    \<and> single_spaced (un_space un) t \<and> (\<forall>i. \<not> spaced_at un False t i)"
proof -
  obtain u where u: "join_loop un (before_joining un prompt) = Some u" "join_spaced un False u = u" using join_loop_ends by blast
  let ?t = "strip_ends (un_space un) u"
  have t: "normalize_prompt un prompt = Some ?t" by (simp add: normalize_prompt_def u(1))
  let ?h = "replace_homoglyphs (strip_zero_width (un_lower un (un_nfkc un prompt)))"
  have sets: "set ?t \<subseteq> {c \<in> set ?h. \<not> un_space un c} \<union> {32}"
    using strip_set [of "un_space un" u] join_loop_set [OF u(1)] collapse_set [of "un_space un" ?h] by (auto simp: before_joining_def)
  have plain: "\<not> zero_width c" if h: "c \<in> set ?h" for c
  proof -
    obtain d where d: "\<not> zero_width d" "c = fold (\<lambda>p c. if c = fst p then snd p else c) homoglyph_map d"
      using h unfolding replace_homoglyphs_def fold_replace strip_zero_width_def by auto
    have "c = d \<or> c \<in> snd ` set homoglyph_map" unfolding d(2) by (rule fold_value)
    then show ?thesis using d(1) by (auto simp: homoglyph_map_def zero_width_def)
  qed
  have chars: "\<not> zero_width c \<and> c \<notin> fst ` set homoglyph_map \<and> (un_space un c \<longrightarrow> c = 32)" if "c \<in> set ?t" for c
  proof -
    have "c = 32 \<or> c \<in> set ?h \<and> \<not> un_space un c" using that sets by blast
    moreover have "\<not> zero_width 32" "32 \<notin> fst ` set homoglyph_map" by (simp_all add: zero_width_def homoglyph_map_def)
    ultimately show ?thesis using plain [of c] homoglyph_gone [of c] by metis
  qed
  have ends: "?t \<noteq> [] \<longrightarrow> \<not> un_space un (hd ?t) \<and> \<not> un_space un (last ?t)"
    using strip_hd [of "un_space un" u "hd ?t" "tl ?t"] strip_last [of "un_space un" u] by auto
  obtain a b where ab: "u = a @ ?t @ b" "\<forall>c \<in> set (a @ b). un_space un c" using strip_split by blast
  have "single_spaced (un_space un) u"
    using join_loop_keeps [OF u(1), of "single_spaced (un_space un)"] collapse_single join_single assms unfolding before_joining_def by blast
  then have single: "single_spaced (un_space un) ?t" using ab(1) unfolding single_spaced_def by (metis successively_append_iff)
  have "\<not> spaced_at un False ?t i" for i
    using spaced_in_context [of un ?t i a b] joined_fixed [OF u(2)] assms(1) ab by metis
  then show ?thesis using t chars ends single by blast
qed

text \<open>
  A word typed letter by letter is put together: whatever its length, its letters with single
  spaces between them become the word.
\<close>

lemma join_letters: "\<forall>c \<in> set ls. letter c \<Longrightarrow> \<forall>c. letter c \<longrightarrow> \<not> un_space un c \<Longrightarrow> join_spaced un w ls = ls"
  by (induction un w ls rule: join_spaced.induct) auto

fun spell :: "cps \<Rightarrow> cps" where
  "spell (c # d # t) = c # 32 # spell (d # t)"
| "spell t = t"

lemma spell_cons: "spell (c # t) = (if t = [] then [c] else c # 32 # spell t)"
  by (cases t) auto

lemma join_spell:
  assumes "\<forall>c. un_space un c \<longrightarrow> \<not> un_word un c" "un_space un 32" "\<forall>c \<in> set ls. letter c"
  shows "join_spaced un False (spell ls) = ls"
  using assms(3)
proof (induction ls)
  case (Cons c ls)
  show ?case
  proof (cases ls)
    case Nil
    then show ?thesis by simp
  next
    case (Cons d ds)
    then show ?thesis using Cons.IH Cons.prems assms(1,2) by (cases ds) (auto simp: spell_cons)
  qed
qed simp

theorem spelled_word_is_joined:
  assumes "\<forall>c. un_space un c \<longrightarrow> \<not> un_word un c" "\<forall>c. letter c \<longrightarrow> un_word un c" "un_space un 32"
    and "\<forall>c \<in> set word. letter c" "before_joining un prompt = spell word"
  shows "normalize_prompt un prompt = Some word"
proof -
  have fixed: "join_spaced un False word = word" using join_letters [of word un False] assms(1,2,4) by auto
  have step: "join_spaced un False (spell word) = word" using join_spell [of un word] assms by simp
  have "join_loop un word = Some word" by (subst join_loop.simps) (simp add: fixed)
  then have "join_loop un (spell word) = Some word" using step by (subst join_loop.simps) (auto simp: Let_def)
  moreover have "strip_ends (un_space un) word = word"
    using assms(1,2,4) unfolding strip_ends_def
    by (metis dropWhile_eq_self_iff hd_in_set hd_rev last_in_set rev_is_Nil_conv rev_rev_ident)
  ultimately show ?thesis using assms(5) by (simp add: normalize_prompt_def)
qed

section \<open>Witnesses\<close>

definition ascii_unicode :: unicode_env where
  "ascii_unicode = \<lparr>un_nfkc = id, un_lower = map (\<lambda>c. if 65 \<le> c \<and> c \<le> 90 then c + 32 else c), un_space = (\<lambda>c. c \<in> {9, 10, 32}),
     un_word = letter\<rparr>"

theorem normalized_text_is_plain_witness:
  "\<exists>t. normalize_prompt ascii_unicode [32, 98, 9, 0x43E, 32, 109, 0x200B, 32, 98] = Some t \<and> (\<forall>c \<in> set t. \<not> zero_width c)"
  using normalized_text_is_plain [of ascii_unicode "[32, 98, 9, 0x43E, 32, 109, 0x200B, 32, 98]"]
  by (auto simp: ascii_unicode_def letter_def)

theorem spelled_word_is_joined_witness:
  "normalize_prompt ascii_unicode [98, 9, 0x43E, 32, 109, 0x200B, 32, 98] = Some [98, 111, 109, 98]"
proof (rule spelled_word_is_joined)
  show "before_joining ascii_unicode [98, 9, 0x43E, 32, 109, 0x200B, 32, 98] = spell [98, 111, 109, 98]"
    by (simp add: before_joining_def ascii_unicode_def strip_zero_width_def zero_width_def replace_homoglyphs_def replace_char_def homoglyph_map_def)
qed (auto simp: ascii_unicode_def letter_def)

end
