(* ===== verification/Evaluation.thy ===== *)
theory Evaluation
  imports Prelude "HOL-Library.Multiset"
begin

text \<open>
  The evaluation metrics of \<open>evaluation/metrics.py\<close>, from which the thresholds of the pipeline are
  chosen and its published figures are computed: rank-sum AUC, operating points under a
  false-positive budget, confusion counts, bootstrap intervals, metrics per slice.

  Scores are reals and labels booleans (an attack is \<open>True\<close>).  The value \<open>nan\<close> is a constructor, and
  so is the infinite first cutoff.  The generator's draws are a parameter.
\<close>

section \<open>Definitions from the code\<close>

datatype stat = Num real | PosInf | NaN

text \<open>Ranks of a sorted list, averaged within a block of ties that starts at position \<open>i\<close>.\<close>

function tie_ranks :: "nat \<Rightarrow> (real \<times> bool) list \<Rightarrow> real list" where
  "tie_ranks i [] = []"
| "tie_ranks i (p # ps) =
     (let j = i + length (takeWhile (\<lambda>q. fst q = fst p) ps)
      in replicate (j + 1 - i) (real (i + j) / 2 + 1) @ tie_ranks (j + 1) (dropWhile (\<lambda>q. fst q = fst p) ps))"
  by pat_completeness auto
termination
  by (relation "measure (\<lambda>(i, ps). length ps)") (auto simp: less_Suc_eq_le length_dropWhile_le)

definition count_true :: "bool list \<Rightarrow> nat" where
  "count_true ls = length (filter id ls)"

definition roc_auc :: "real list \<Rightarrow> bool list \<Rightarrow> stat" where
  "roc_auc scores labels =
     (let pairs = sort_key fst (zip scores labels);
          ranks = tie_ranks 0 pairs;
          pos_ranks = sum_list (map fst (filter (\<lambda>(r, p). snd p) (zip ranks pairs)));
          n_pos = count_true (map snd pairs);
          n_neg = length pairs - n_pos
      in if pairs = [] \<or> n_pos = 0 \<or> n_neg = 0 then NaN
         else Num ((pos_ranks - real n_pos * real (n_pos + 1) / 2) / (real n_pos * real n_neg)))"

text \<open>The operating points, from the infinite cutoff down: one for every score.\<close>

fun points_from :: "real \<Rightarrow> real \<Rightarrow> nat \<Rightarrow> nat \<Rightarrow> (real \<times> bool) list \<Rightarrow> (real \<times> real \<times> stat) list" where
  "points_from n_neg n_pos tp fp [] = []"
| "points_from n_neg n_pos tp fp ((score, lab) # ps) =
     (let tp' = (if lab then tp + 1 else tp); fp' = (if lab then fp else fp + 1)
      in (real fp' / n_neg, real tp' / n_pos, Num score) # points_from n_neg n_pos tp' fp' ps)"

definition roc_points :: "real list \<Rightarrow> bool list \<Rightarrow> (real \<times> real \<times> stat) list" where
  "roc_points scores labels =
     (let ordered = sort_key (\<lambda>x. - fst x) (zip scores labels);
          n_pos = count_true (map snd ordered);
          n_neg = length ordered - n_pos
      in if n_pos = 0 \<or> n_neg = 0 then []
         else (0, 0, PosInf) # points_from (real n_neg) (real n_pos) 0 0 ordered)"

definition feasible :: "real \<Rightarrow> (real \<times> real \<times> stat) list \<Rightarrow> (real \<times> stat) list" where
  "feasible budget pts = map snd (filter (\<lambda>(fpr, tpr, thr). fpr \<le> budget) pts)"

definition recall_at_fpr :: "real \<Rightarrow> real list \<Rightarrow> bool list \<Rightarrow> stat" where
  "recall_at_fpr budget scores labels =
     (case roc_points scores labels of
        [] \<Rightarrow> NaN
      | pts \<Rightarrow> (case map fst (feasible budget pts) of [] \<Rightarrow> Num 0 | t # ts \<Rightarrow> Num (foldl max t ts)))"

text \<open>\<open>max\<close> of pairs: the first component decides, then the cutoff, of which none is \<open>nan\<close>.\<close>

fun stat_less :: "stat \<Rightarrow> stat \<Rightarrow> bool" where
  "stat_less (Num x) (Num y) = (x < y)"
| "stat_less (Num x) PosInf = True"
| "stat_less _ _ = False"

definition point_less :: "real \<times> stat \<Rightarrow> real \<times> stat \<Rightarrow> bool" where
  "point_less p q \<longleftrightarrow> fst p < fst q \<or> fst p = fst q \<and> stat_less (snd p) (snd q)"

definition best_point :: "real \<times> stat \<Rightarrow> (real \<times> stat) list \<Rightarrow> real \<times> stat" where
  "best_point p ps = foldl (\<lambda>m q. if point_less m q then q else m) p ps"

definition threshold_at_fpr :: "real \<Rightarrow> real list \<Rightarrow> bool list \<Rightarrow> stat" where
  "threshold_at_fpr budget scores labels =
     (case feasible budget (roc_points scores labels) of [] \<Rightarrow> NaN | p # ps \<Rightarrow> snd (best_point p ps))"

record confusion_matrix =
  cm_tp :: nat
  cm_fp :: nat
  cm_tn :: nat
  cm_fn :: nat

definition count_row :: "real \<Rightarrow> confusion_matrix \<Rightarrow> real \<times> bool \<Rightarrow> confusion_matrix" where
  "count_row threshold cm row =
     (let pred = fst row \<ge> threshold; lab = snd row
      in if lab \<and> pred then cm\<lparr>cm_tp := cm_tp cm + 1\<rparr>
         else if \<not> lab \<and> pred then cm\<lparr>cm_fp := cm_fp cm + 1\<rparr>
         else if \<not> lab \<and> \<not> pred then cm\<lparr>cm_tn := cm_tn cm + 1\<rparr>
         else cm\<lparr>cm_fn := cm_fn cm + 1\<rparr>)"

definition confusion :: "real list \<Rightarrow> bool list \<Rightarrow> real \<Rightarrow> confusion_matrix" where
  "confusion scores labels threshold =
     foldl (count_row threshold) \<lparr>cm_tp = 0, cm_fp = 0, cm_tn = 0, cm_fn = 0\<rparr> (zip scores labels)"

record derived_metrics =
  dm_accuracy :: real
  dm_precision :: real
  dm_recall :: real
  dm_f1 :: real
  dm_fpr :: real

definition ratio :: "nat \<Rightarrow> nat \<Rightarrow> real" where
  "ratio a b = (if b \<noteq> 0 then real a / real b else 0)"

definition derived :: "confusion_matrix \<Rightarrow> derived_metrics" where
  "derived cm =
     (let tp = cm_tp cm; fp = cm_fp cm; tn = cm_tn cm; fn = cm_fn cm;
          precision = ratio tp (tp + fp); recall = ratio tp (tp + fn)
      in \<lparr>dm_accuracy = ratio (tp + tn) (tp + fp + tn + fn), dm_precision = precision, dm_recall = recall,
          dm_f1 = (if precision + recall \<noteq> 0 then 2 * precision * recall / (precision + recall) else 0),
          dm_fpr = ratio fp (fp + tn)\<rparr>)"

record ci =
  ci_point :: stat
  ci_lo :: stat
  ci_hi :: stat
  ci_n :: nat
  ci_effective :: nat
  ci_level :: "real option"

text \<open>The generator is seeded anew for each interval, so its draws depend on the number of rows alone.\<close>

text \<open>\<open>draws\<close> holds the index lists of the generator, one for each of the \<open>n_boot\<close> rounds.\<close>

definition bootstrap_samples :: "(real list \<Rightarrow> bool list \<Rightarrow> stat) \<Rightarrow> real list \<Rightarrow> bool list \<Rightarrow> nat list list \<Rightarrow> real list" where
  "bootstrap_samples statistic scores labels draws =
     List.map_filter (\<lambda>idx.
       let s = map ((!) scores) idx; lab = map ((!) labels) idx
       in if card (set lab) < 2 then None else case statistic s lab of Num x \<Rightarrow> Some x | _ \<Rightarrow> None) draws"

definition bootstrap_ci :: "(real list \<Rightarrow> bool list \<Rightarrow> stat) \<Rightarrow> real \<Rightarrow> real list \<Rightarrow> bool list \<Rightarrow> nat list list \<Rightarrow> ci" where
  "bootstrap_ci statistic alpha scores labels draws =
     (let n = length scores in
      if n = 0 then \<lparr>ci_point = NaN, ci_lo = NaN, ci_hi = NaN, ci_n = 0, ci_effective = 0, ci_level = None\<rparr>
      else
        let samples = sort (bootstrap_samples statistic scores labels draws); m = length samples in
        if samples = [] then \<lparr>ci_point = statistic scores labels, ci_lo = NaN, ci_hi = NaN, ci_n = n, ci_effective = 0, ci_level = None\<rparr>
        else
          let lo_i = nat \<lfloor>alpha / 2 * real m\<rfloor>; hi_i = min (nat \<lfloor>(1 - alpha / 2) * real m\<rfloor>) (m - 1)
          in \<lparr>ci_point = statistic scores labels, ci_lo = Num (samples ! lo_i), ci_hi = Num (samples ! hi_i),
              ci_n = n, ci_effective = m, ci_level = Some (1 - alpha)\<rparr>)"

record slice_result =
  sl_n :: nat
  sl_attack :: nat
  sl_benign :: nat
  sl_evaluable :: bool
  sl_recall_at_threshold :: "real option"
  sl_fpr_at_threshold :: "real option"
  sl_auc :: "ci option"
  sl_recall_ci :: "ci option"
  sl_threshold :: "real option"
  sl_confusion :: "confusion_matrix option"
  sl_derived :: "derived_metrics option"
  sl_underpowered :: bool

definition default_alpha :: real where
  "default_alpha = 5 / 100"

definition share_above :: "real \<Rightarrow> real list \<Rightarrow> nat \<Rightarrow> real" where
  "share_above threshold scores n = real (length (filter (\<lambda>s. s \<ge> threshold) scores)) / real n"

definition evaluate_slice :: "real \<Rightarrow> real option \<Rightarrow> (nat \<Rightarrow> nat list list) \<Rightarrow> real list \<Rightarrow> bool list \<Rightarrow> slice_result" where
  "evaluate_slice budget threshold draws scores labels =
     (let n_pos = count_true labels; n_neg = length labels - n_pos;
          out = \<lparr>sl_n = length labels, sl_attack = n_pos, sl_benign = n_neg, sl_evaluable = (n_pos > 0 \<and> n_neg > 0),
                 sl_recall_at_threshold = None, sl_fpr_at_threshold = None, sl_auc = None, sl_recall_ci = None,
                 sl_threshold = None, sl_confusion = None, sl_derived = None, sl_underpowered = False\<rparr>
      in if \<not> (n_pos > 0 \<and> n_neg > 0) then
           out\<lparr>sl_recall_at_threshold := (if n_pos > 0 then map_option (\<lambda>t. share_above t scores n_pos) threshold else None),
               sl_fpr_at_threshold := (if n_neg > 0 then map_option (\<lambda>t. share_above t scores n_neg) threshold else None)\<rparr>
         else
           let thr = (case threshold of Some t \<Rightarrow> Num t | None \<Rightarrow> threshold_at_fpr budget scores labels);
               out = out\<lparr>sl_auc := Some (bootstrap_ci roc_auc default_alpha scores labels (draws (length scores))),
                         sl_recall_ci := Some (bootstrap_ci (recall_at_fpr budget) default_alpha scores labels (draws (length scores)))\<rparr>
           in (case thr of
                 Num t \<Rightarrow> out\<lparr>sl_threshold := Some t, sl_confusion := Some (confusion scores labels t),
                               sl_derived := Some (derived (confusion scores labels t))\<rparr>
               | _ \<Rightarrow> out))"

text \<open>Records as (slice, score, label); the groups in the order their slices first occur.\<close>

type_synonym scored = "string \<times> real \<times> bool"

fun add_to_group :: "(string \<times> scored list) list \<Rightarrow> scored \<Rightarrow> (string \<times> scored list) list" where
  "add_to_group [] r = [(fst r, [r])]"
| "add_to_group ((k, rs) # gs) r = (if k = fst r then (k, rs @ [r]) # gs else (k, rs) # add_to_group gs r)"

definition group_by_slice :: "scored list \<Rightarrow> (string \<times> scored list) list" where
  "group_by_slice records = foldl add_to_group [] records"

definition evaluate_by ::
  "real \<Rightarrow> real option \<Rightarrow> nat \<Rightarrow> (nat \<Rightarrow> nat list list) \<Rightarrow> scored list \<Rightarrow> (string \<times> slice_result) list" where
  "evaluate_by budget threshold min_n draws records =
     map (\<lambda>(value, rows).
       (value, (evaluate_slice budget threshold draws (map (fst \<circ> snd) rows) (map (snd \<circ> snd) rows))
          \<lparr>sl_underpowered := length rows < min_n\<rparr>))
       (sort_key (\<lambda>g. - int (length (snd g))) (group_by_slice records))"

section \<open>AUC\<close>

text \<open>The share of (attack, benign) pairs the scores order rightly, a tie counting one half.\<close>

definition wins :: "real \<Rightarrow> real \<Rightarrow> real" where
  "wins x y = (if y < x then 1 else if y = x then 1 / 2 else 0)"

definition mann_whitney :: "(real \<times> bool) list \<Rightarrow> real" where
  "mann_whitney rows =
     sum_list (map (\<lambda>p. sum_list (map (\<lambda>q. wins (fst p) (fst q)) (filter (Not \<circ> snd) rows))) (filter snd rows))"

definition below :: "(real \<times> bool) list \<Rightarrow> real \<Rightarrow> real" where
  "below ps x = real (length (filter (\<lambda>q. fst q < x) ps))"

definition equal_to :: "(real \<times> bool) list \<Rightarrow> real \<Rightarrow> real" where
  "equal_to ps x = real (length (filter (\<lambda>q. fst q = x) ps))"

lemma below_append: "below (ps @ qs) x = below ps x + below qs x"
  by (simp add: below_def)

lemma equal_to_append: "equal_to (ps @ qs) x = equal_to ps x + equal_to qs x"
  by (simp add: equal_to_def)

lemma filter_all_none: "(\<forall>x \<in> set xs. P x) \<Longrightarrow> filter P xs = xs" "(\<forall>x \<in> set xs. \<not> P x) \<Longrightarrow> filter P xs = []"
  by (induction xs) auto

lemma tie_ranks_sorted:
  "sorted (map fst ps) \<Longrightarrow> tie_ranks i ps = map (\<lambda>p. real i + below ps (fst p) + (equal_to ps (fst p) + 1) / 2) ps"
proof (induction i ps rule: tie_ranks.induct)
  case (2 i p ps)
  let ?b = "takeWhile (\<lambda>q. fst q = fst p) ps"
  let ?r = "dropWhile (\<lambda>q. fst q = fst p) ps"
  let ?m = "real (Suc (length ?b))"
  have ps: "p # ps = (p # ?b) @ ?r" by simp
  have "sorted (map fst (?b @ ?r))" using 2(2) by simp
  then have sr: "sorted (map fst ?r)" by (simp only: map_append sorted_append)
  have b: "\<forall>q \<in> set ?b. fst q = fst p" by (auto dest: set_takeWhileD)
  have r: "\<forall>q \<in> set ?r. fst p < fst q"
  proof (cases ?r)
    case (Cons x xs)
    then have "fst x \<noteq> fst p" using hd_dropWhile [of "\<lambda>q. fst q = fst p" ps] by auto
    moreover have "x \<in> set ps" using Cons set_dropWhileD [of x "\<lambda>q. fst q = fst p" ps] by auto
    ultimately have "fst p < fst x" using 2(2) by auto
    then show ?thesis using sr Cons by auto
  next
    case Nil
    then show ?thesis by (simp only: list.set ball_simps)
  qed
  have B: "below (p # ps) (fst p) = 0" "equal_to (p # ps) (fst p) = ?m"
  proof -
    show "below (p # ps) (fst p) = 0" using 2(2) by (force simp: below_def filter_empty_conv)
    have "filter (\<lambda>q. fst q = fst p) (p # ?b) = p # ?b"
      by (rule filter_all_none(1)) (metis b set_ConsD)
    moreover have "filter (\<lambda>q. fst q = fst p) ?r = []"
      by (rule filter_all_none(2)) (metis r less_irrefl)
    ultimately show "equal_to (p # ps) (fst p) = ?m" unfolding ps equal_to_append by (simp only: equal_to_def) simp
  qed
  have R: "below (p # ps) (fst q) = ?m + below ?r (fst q)" "equal_to (p # ps) (fst q) = equal_to ?r (fst q)"
    if "q \<in> set ?r" for q
  proof -
    have h: "\<forall>x \<in> set (p # ?b). fst x < fst q" by (metis b r that set_ConsD)
    have "below (p # ?b) (fst q) = ?m" unfolding below_def filter_all_none(1) [OF h] by simp
    moreover have "equal_to (p # ?b) (fst q) = 0" using h by (auto simp: equal_to_def filter_empty_conv)
    ultimately show "below (p # ps) (fst q) = ?m + below ?r (fst q)" "equal_to (p # ps) (fst q) = equal_to ?r (fst q)"
      unfolding ps below_append equal_to_append by simp_all
  qed
  let ?f = "\<lambda>q. real i + below (p # ps) (fst q) + (equal_to (p # ps) (fst q) + 1) / 2"
  have "tie_ranks (i + length ?b + 1) ?r = map ?f ?r"
    unfolding 2(1) [OF refl sr] using R by (intro map_cong) (simp_all add: field_simps)
  moreover have "map ?f (p # ?b) = replicate (Suc (length ?b)) (real i + (?m + 1) / 2)"
  proof (rule replicate_eqI)
    fix y assume "y \<in> set (map ?f (p # ?b))"
    then obtain q where q: "q \<in> set (p # ?b)" "y = ?f q" unfolding set_map by blast
    have "fst q = fst p" by (metis b q(1) set_ConsD)
    then show "y = real i + (?m + 1) / 2" unfolding q(2) by (simp only: B add_0_right)
  qed (simp only: length_map list.size add_0_right add_Suc_right)
  moreover have "tie_ranks i (p # ps)
      = replicate (Suc (length ?b)) (real (i + (i + length ?b)) / 2 + 1) @ tie_ranks (i + length ?b + 1) ?r"
    by (simp add: Let_def)
  moreover have "real (i + (i + length ?b)) / 2 + 1 = real i + (?m + 1) / 2" by (simp add: field_simps)
  moreover have "map ?f (p # ps) = map ?f (p # ?b) @ map ?f ?r" by (subst (3) ps) (rule map_append)
  ultimately show ?case by (simp only:)
qed simp

lemma wins_sum: "below ps x + equal_to ps x / 2 = sum_list (map (\<lambda>q. wins x (fst q)) ps)"
  by (induction ps) (auto simp: below_def equal_to_def wins_def field_simps)

lemma sum_filter_split:
  "sum_list (map f xs) = sum_list (map f (filter P xs)) + sum_list (map (f :: 'a \<Rightarrow> real) (filter (Not \<circ> P) xs))"
  by (induction xs) auto

text \<open>Among the attacks themselves every pair is won once, a tie by halves.\<close>

lemma wins_self:
  "sum_list (map (\<lambda>p. sum_list (map (\<lambda>q. wins (fst p) (fst q)) xs)) xs) = real (length xs) * real (length xs) / 2"
proof (induction xs)
  case (Cons a xs)
  have s: "sum_list (map (\<lambda>p. wins (fst p) (fst a)) xs) + sum_list (map (\<lambda>q. wins (fst a) (fst q)) xs) = real (length xs)"
    by (induction xs) (auto simp: wins_def)
  have "sum_list (map (\<lambda>p. sum_list (map (\<lambda>q. wins (fst p) (fst q)) (a # xs))) (a # xs))
    = wins (fst a) (fst a) + sum_list (map (\<lambda>q. wins (fst a) (fst q)) xs)
      + (sum_list (map (\<lambda>p. wins (fst p) (fst a)) xs) + sum_list (map (\<lambda>p. sum_list (map (\<lambda>q. wins (fst p) (fst q)) xs)) xs))"
    by (simp add: sum_list_addf)
  also have "\<dots> = 1 / 2 + real (length xs) + real (length xs) * real (length xs) / 2"
    using s Cons by (simp add: wins_def)
  finally show ?case by (simp add: field_simps)
qed simp

lemma rank_sum_zip:
  "sum_list (map fst (filter (\<lambda>(r, p). snd p) (zip (map f ps) ps))) = sum_list (map (f :: _ \<Rightarrow> real) (filter snd ps))"
  by (induction ps) auto

lemma rank_sum_sorted:
  assumes "sorted (map fst ps)"
  shows "sum_list (map fst (filter (\<lambda>(r, p). snd p) (zip (tie_ranks 0 ps) ps)))
    = real (length (filter snd ps)) * real (length (filter snd ps) + 1) / 2 + mann_whitney ps"
proof -
  let ?P = "filter snd ps" and ?N = "filter (Not \<circ> snd) ps"
  have f: "real 0 + below ps x + (equal_to ps x + 1) / 2
      = sum_list (map (\<lambda>q. wins x (fst q)) ?P) + (sum_list (map (\<lambda>q. wins x (fst q)) ?N) + 1 / 2)" for x
    using wins_sum [of ps x] sum_filter_split [of "\<lambda>q. wins x (fst q)" ps snd] by (simp add: field_simps)
  have "sum_list (map fst (filter (\<lambda>(r, p). snd p) (zip (tie_ranks 0 ps) ps)))
    = sum_list (map (\<lambda>p. sum_list (map (\<lambda>q. wins (fst p) (fst q)) ?P)) ?P)
      + (mann_whitney ps + sum_list (map (\<lambda>p. 1 / 2) ?P))"
    unfolding tie_ranks_sorted [OF assms] rank_sum_zip f mann_whitney_def by (simp only: sum_list_addf)
  also have "sum_list (map (\<lambda>p. 1 / 2) ?P) = real (length ?P) / 2" by (simp add: sum_list_triv)
  finally show ?thesis unfolding wins_self by (simp add: field_simps)
qed

lemma count_true_snd: "count_true (map snd ps) = length (filter snd ps)"
  by (simp add: count_true_def filter_map comp_def)

lemma sum_list_mset_cong: "mset xs = mset ys \<Longrightarrow> sum_list (map f xs) = sum_list (map (f :: _ \<Rightarrow> real) ys)"
  by (metis mset_map sum_mset_sum_list)

lemma length_filter_mset: "mset xs = mset ys \<Longrightarrow> length (filter P xs) = length (filter P ys)"
  by (metis mset_filter size_mset)

lemma mann_whitney_mset:
  assumes "mset xs = mset ys"
  shows "mann_whitney xs = mann_whitney ys"
proof -
  have P: "mset (filter snd xs) = mset (filter snd ys)" and N: "mset (filter (Not \<circ> snd) xs) = mset (filter (Not \<circ> snd) ys)"
    using assms by simp_all
  show ?thesis
    unfolding mann_whitney_def sum_list_mset_cong [OF P] sum_list_mset_cong [OF N] by simp
qed

text \<open>
  C16. The rank-sum routine computes the AUC.  Where both classes occur, its value is the share of
  pairs of an attack and a benign row in which the attack scores higher, ties counting one half;
  where one is missing it is \<open>nan\<close>.
\<close>

theorem roc_auc_is_mann_whitney:
  "roc_auc scores labels =
     (let rows = zip scores labels; p = length (filter snd rows); n = length (filter (Not \<circ> snd) rows)
      in if p = 0 \<or> n = 0 then NaN else Num (mann_whitney rows / (real p * real n)))"
proof -
  let ?rows = "zip scores labels" and ?s = "sort_key fst (zip scores labels)"
  have m: "mset ?s = mset ?rows" by simp
  have c: "length (filter snd ?s) = length (filter snd ?rows)" "length (filter (Not \<circ> snd) ?s) = length (filter (Not \<circ> snd) ?rows)"
    by (rule length_filter_mset [OF m])+
  have n: "length ?s - length (filter snd ?s) = length (filter (Not \<circ> snd) ?rows)"
    using sum_length_filter_compl [of snd ?s] c by (simp add: comp_def)
  have e: "?s = [] \<Longrightarrow> length (filter snd ?rows) = 0" using c by simp
  show ?thesis
    using e n c(1) mann_whitney_mset [OF m] rank_sum_sorted [of ?s]
    by (auto simp: roc_auc_def Let_def count_true_snd)
qed

section \<open>Operating points\<close>

definition hits :: "bool \<Rightarrow> real \<Rightarrow> (real \<times> bool) list \<Rightarrow> nat" where
  "hits l t rows = length (filter (\<lambda>r. snd r = l \<and> t \<le> fst r) rows)"

definition class_size :: "bool \<Rightarrow> (real \<times> bool) list \<Rightarrow> nat" where
  "class_size l rows = length (filter (\<lambda>r. snd r = l) rows)"

lemma hits_append [simp]: "hits l t (xs @ ys) = hits l t xs + hits l t ys"
  by (simp add: hits_def)

lemma class_size_append [simp]: "class_size l (xs @ ys) = class_size l xs + class_size l ys"
  by (simp add: class_size_def)

lemma class_size_Cons [simp]: "class_size l (x # xs) = (if snd x = l then 1 else 0) + class_size l xs"
  by (simp add: class_size_def)

lemma class_size_Nil [simp]: "class_size l [] = 0"
  by (simp add: class_size_def)

lemma hits_le: "hits l t rows \<le> class_size l rows"
  by (induction rows) (auto simp: hits_def class_size_def)

lemma hits_all: "\<forall>r \<in> set rows. t \<le> fst r \<Longrightarrow> hits l t rows = class_size l rows"
  by (induction rows) (auto simp: hits_def class_size_def)

lemma hits_none: "\<forall>r \<in> set rows. fst r < t \<Longrightarrow> hits l t rows = 0"
  by (induction rows) (auto simp: hits_def)

lemma count_rows:
  "foldl (count_row t) cm rows =
     \<lparr>cm_tp = cm_tp cm + hits True t rows, cm_fp = cm_fp cm + hits False t rows,
      cm_tn = cm_tn cm + (class_size False rows - hits False t rows), cm_fn = cm_fn cm + (class_size True rows - hits True t rows)\<rparr>"
proof (induction rows arbitrary: cm)
  case (Cons r rows)
  then show ?case
    using hits_le [of True t rows] hits_le [of False t rows]
    by (cases "snd r"; cases "t \<le> fst r") (auto simp: count_row_def hits_def class_size_def Let_def)
qed (simp add: hits_def class_size_def)

text \<open>The rates at a cutoff, as the confusion counts give them.\<close>

lemma confusion_rates:
  "dm_recall (derived (confusion scores labels t)) = ratio (hits True t (zip scores labels)) (class_size True (zip scores labels))"
  "dm_fpr (derived (confusion scores labels t)) = ratio (hits False t (zip scores labels)) (class_size False (zip scores labels))"
  using hits_le [of True t "zip scores labels"] hits_le [of False t "zip scores labels"]
  by (simp_all add: derived_def confusion_def count_rows Let_def)

lemma points_from_nth:
  "points_from n_neg n_pos tp fp ps =
     map (\<lambda>k. (real (fp + class_size False (take (Suc k) ps)) / n_neg, real (tp + class_size True (take (Suc k) ps)) / n_pos,
               Num (fst (ps ! k)))) [0..<length ps]"
proof (induction n_neg n_pos tp fp ps rule: points_from.induct)
  case (2 n_neg n_pos tp fp score lab ps)
  have "[0..<length ((score, lab) # ps)] = 0 # map Suc [0..<length ps]"
    by (simp add: upt_conv_Cons map_Suc_upt del: upt_Suc)
  then show ?case using 2 by (cases lab) (simp_all add: Let_def class_size_def)
qed simp

lemma max_of_points:
  "set (feasible budget pts) = {(r, c). \<exists>f. (f, r, c) \<in> set pts \<and> f \<le> budget}"
  by (auto simp: feasible_def image_iff)

lemma best_point_props:
  "best_point p ps \<in> set (p # ps) \<and> (\<forall>q \<in> set (p # ps). fst q \<le> fst (best_point p ps))"
proof (induction ps rule: rev_induct)
  case (snoc x xs)
  let ?m = "best_point p xs"
  have b: "best_point p (xs @ [x]) = (if point_less ?m x then x else ?m)" by (simp add: best_point_def)
  have "point_less ?m x \<Longrightarrow> fst ?m \<le> fst x" "\<not> point_less ?m x \<Longrightarrow> fst x \<le> fst ?m"
    by (auto simp: point_less_def)
  then show ?case unfolding b using snoc by (auto intro: order_trans)
qed (simp add: best_point_def)

lemma foldl_max_ub: "foldl max (x :: real) xs \<in> set (x # xs) \<and> (\<forall>y \<in> set (x # xs). y \<le> foldl max x xs)"
proof (induction xs rule: rev_induct)
  case (snoc y xs)
  then show ?case by (auto simp: max_def intro: order_trans)
qed simp

text \<open>The recall the code reports is that of the point it takes the cutoff from.\<close>

lemma recall_of_best:
  assumes "feasible budget (roc_points scores labels) = p # ps"
  shows "recall_at_fpr budget scores labels = Num (fst (best_point p ps))"
proof -
  obtain x xs where x: "roc_points scores labels = x # xs" using assms by (cases "roc_points scores labels") (auto simp: feasible_def)
  have "foldl max (fst p) (map fst ps) = fst (best_point p ps)"
    using best_point_props [of p ps] foldl_max_ub [of "fst p" "map fst ps"] by (intro antisym) auto
  then show ?thesis using assms x by (simp add: recall_at_fpr_def)
qed

section \<open>Rows in descending order\<close>

definition descending :: "(real \<times> bool) list \<Rightarrow> bool" where
  "descending ps \<longleftrightarrow> sorted (map (\<lambda>x. - fst x) ps)"

lemma descending_nth: "descending ps \<Longrightarrow> i \<le> j \<Longrightarrow> j < length ps \<Longrightarrow> fst (ps ! j) \<le> fst (ps ! i)"
  unfolding descending_def using sorted_nth_mono [of "map (\<lambda>x. - fst x) ps" i j] by simp

lemma hits_prefix:
  assumes "\<forall>r \<in> set (take k ps). t \<le> fst r" "\<forall>r \<in> set (drop k ps). fst r < t"
  shows "hits l t ps = class_size l (take k ps)"
  using hits_append [of l t "take k ps" "drop k ps"] hits_all [OF assms(1)] hits_none [OF assms(2)] by simp

lemma hits_at_point:
  assumes "descending ps" "distinct (map fst ps)" "k < length ps"
  shows "hits l (fst (ps ! k)) ps = class_size l (take (Suc k) ps)"
proof (rule hits_prefix)
  show "\<forall>r \<in> set (take (Suc k) ps). fst (ps ! k) \<le> fst r"
  proof
    fix r assume "r \<in> set (take (Suc k) ps)"
    then obtain i where "i \<le> k" "r = ps ! i" using assms(3) by (auto simp: in_set_conv_nth less_Suc_eq_le)
    then show "fst (ps ! k) \<le> fst r" using descending_nth [OF assms(1) _ assms(3)] by simp
  qed
  show "\<forall>r \<in> set (drop (Suc k) ps). fst r < fst (ps ! k)"
  proof
    fix r assume "r \<in> set (drop (Suc k) ps)"
    then obtain j where "j < length ps - Suc k" "r = drop (Suc k) ps ! j" by (auto simp: in_set_conv_nth)
    then have j: "Suc k + j < length ps" "r = ps ! (Suc k + j)" by simp_all
    have "fst (ps ! (Suc k + j)) \<noteq> fst (ps ! k)"
      using assms(2,3) j(1) nth_eq_iff_index_eq [of "map fst ps" "Suc k + j" k] by simp
    then show "fst r < fst (ps ! k)" using descending_nth [OF assms(1), of k "Suc k + j"] j by simp
  qed
qed

text \<open>Whatever the cutoff, the rows at or above it are an initial part.\<close>

lemma hits_cutoff:
  assumes "descending ps"
  obtains k where "k \<le> length ps" "\<And>l. hits l t ps = class_size l (take k ps)"
proof
  let ?k = "length (takeWhile (\<lambda>r. t \<le> fst r) ps)"
  show "?k \<le> length ps" by (rule length_takeWhile_le)
  fix l
  show "hits l t ps = class_size l (take ?k ps)"
  proof (rule hits_prefix)
    show "\<forall>r \<in> set (take ?k ps). t \<le> fst r"
      by (simp only: takeWhile_eq_take [symmetric]) (auto dest: set_takeWhileD)
    show "\<forall>r \<in> set (drop ?k ps). fst r < t"
    proof
      fix r assume r: "r \<in> set (drop ?k ps)"
      then obtain j where "j < length ps - ?k" "r = drop ?k ps ! j" by (auto simp: in_set_conv_nth)
      then have j: "?k + j < length ps" "r = ps ! (?k + j)" by simp_all
      then have "\<not> t \<le> fst (ps ! ?k)" by (intro nth_length_takeWhile) simp
      then show "fst r < t" using descending_nth [OF assms, of ?k "?k + j"] j by simp
    qed
  qed
qed

definition ordered_rows :: "real list \<Rightarrow> bool list \<Rightarrow> (real \<times> bool) list" where
  "ordered_rows scores labels = sort_key (\<lambda>x. - fst x) (zip scores labels)"

lemma ordered_descending: "descending (ordered_rows scores labels)"
  by (simp add: descending_def ordered_rows_def)

lemma ordered_counts:
  "hits l t (ordered_rows scores labels) = hits l t (zip scores labels)"
  "class_size l (ordered_rows scores labels) = class_size l (zip scores labels)"
  unfolding hits_def class_size_def ordered_rows_def by (rule length_filter_mset, simp)+

lemma ordered_distinct: "distinct (map fst (zip scores labels)) \<Longrightarrow> distinct (map fst (ordered_rows scores labels))"
  unfolding ordered_rows_def
  by (metis mset_map mset_sort distinct_sort mset_eq_imp_distinct_iff)

lemma classes: "class_size True ps + class_size False ps = length ps"
  by (induction ps) auto

lemma roc_points_eq:
  "roc_points scores labels =
     (let rows = zip scores labels; ps = ordered_rows scores labels; p = class_size True rows; n = class_size False rows
      in if p = 0 \<or> n = 0 then []
         else (0, 0, PosInf) # map (\<lambda>k. (ratio (class_size False (take (Suc k) ps)) n, ratio (class_size True (take (Suc k) ps)) p, Num (fst (ps ! k))))
                [0..<length ps])"
proof -
  have t: "count_true (map snd ps) = class_size True ps" for ps :: "(real \<times> bool) list"
    by (induction ps) (auto simp: count_true_def)
  have len: "length (ordered_rows scores labels) = class_size True (zip scores labels) + class_size False (zip scores labels)"
    using classes [of "ordered_rows scores labels"] by (simp add: ordered_counts(2))
  show ?thesis
    by (simp add: roc_points_def Let_def t ordered_rows_def [symmetric] ordered_counts(2) len points_from_nth ratio_def)
qed

lemma every_cutoff_has_point:
  assumes "roc_points scores labels \<noteq> []"
  shows "\<exists>c. (dm_fpr (derived (confusion scores labels t)), dm_recall (derived (confusion scores labels t)), c) \<in> set (roc_points scores labels)"
proof -
  let ?ps = "ordered_rows scores labels"
  have ne: "\<not> (class_size True (zip scores labels) = 0 \<or> class_size False (zip scores labels) = 0)"
    using assms unfolding roc_points_eq Let_def by argo
  obtain k where k: "k \<le> length ?ps" "\<And>l. hits l t ?ps = class_size l (take k ?ps)"
    using hits_cutoff [OF ordered_descending] by blast
  let ?g = "\<lambda>k. (ratio (class_size False (take (Suc k) ?ps)) (class_size False (zip scores labels)),
    ratio (class_size True (take (Suc k) ?ps)) (class_size True (zip scores labels)), Num (fst (?ps ! k)))"
  have pts: "roc_points scores labels = (0, 0, PosInf) # map ?g [0..<length ?ps]"
    using ne by (simp only: roc_points_eq Let_def if_False)
  have r: "dm_fpr (derived (confusion scores labels t)) = ratio (class_size False (take k ?ps)) (class_size False (zip scores labels))"
    "dm_recall (derived (confusion scores labels t)) = ratio (class_size True (take k ?ps)) (class_size True (zip scores labels))"
    by (simp_all only: confusion_rates ordered_counts(1) [symmetric] k(2))
  show ?thesis
  proof (cases k)
    case 0
    then show ?thesis unfolding pts r by (auto simp: ratio_def)
  next
    case (Suc i)
    then have "?g i \<in> set (map ?g [0..<length ?ps])" using k(1) by simp
    then show ?thesis unfolding pts r Suc by (meson list.set_intros(2))
  qed
qed

lemma chosen_point:
  assumes "threshold_at_fpr budget scores labels = Num t"
  obtains p ps r fpr k where "feasible budget (roc_points scores labels) = p # ps" "best_point p ps = (r, Num t)"
    "(fpr, r, Num t) \<in> set (roc_points scores labels)" "fpr \<le> budget"
    "k < length (ordered_rows scores labels)" "t = fst (ordered_rows scores labels ! k)"
    "fpr = ratio (class_size False (take (Suc k) (ordered_rows scores labels))) (class_size False (zip scores labels))"
    "r = ratio (class_size True (take (Suc k) (ordered_rows scores labels))) (class_size True (zip scores labels))"
proof -
  obtain p ps where f: "feasible budget (roc_points scores labels) = p # ps"
    using assms by (cases "feasible budget (roc_points scores labels)") (auto simp: threshold_at_fpr_def)
  then obtain r where b: "best_point p ps = (r, Num t)" using assms by (cases "best_point p ps") (auto simp: threshold_at_fpr_def)
  have "(r, Num t) \<in> set (feasible budget (roc_points scores labels))" using best_point_props [of p ps] b f by auto
  then obtain fpr where m: "(fpr, r, Num t) \<in> set (roc_points scores labels)" "fpr \<le> budget" by (auto simp: max_of_points)
  then show thesis using that [OF f b m] by (auto simp: roc_points_eq Let_def split: if_splits)
qed

lemma cutoff_keeps_budget:
  assumes "distinct (map fst (zip scores labels))" "threshold_at_fpr budget scores labels = Num t"
  shows "dm_fpr (derived (confusion scores labels t)) \<le> budget
    \<and> recall_at_fpr budget scores labels = Num (dm_recall (derived (confusion scores labels t)))
    \<and> (\<forall>t'. dm_fpr (derived (confusion scores labels t')) \<le> budget
         \<longrightarrow> dm_recall (derived (confusion scores labels t')) \<le> dm_recall (derived (confusion scores labels t)))"
proof -
  let ?ps = "ordered_rows scores labels" and ?pts = "roc_points scores labels"
  obtain p ps r fpr k where f: "feasible budget ?pts = p # ps" and b: "best_point p ps = (r, Num t)"
    and m: "(fpr, r, Num t) \<in> set ?pts" "fpr \<le> budget" and k: "k < length ?ps" "t = fst (?ps ! k)"
      "fpr = ratio (class_size False (take (Suc k) ?ps)) (class_size False (zip scores labels))"
      "r = ratio (class_size True (take (Suc k) ?ps)) (class_size True (zip scores labels))"
    by (rule chosen_point [OF assms(2)])
  have e: "dm_fpr (derived (confusion scores labels t)) = fpr" "dm_recall (derived (confusion scores labels t)) = r"
    using hits_at_point [OF ordered_descending ordered_distinct [OF assms(1)] k(1)]
    by (simp_all add: confusion_rates k(2-4) flip: ordered_counts)
  have "dm_recall (derived (confusion scores labels t')) \<le> r" if "dm_fpr (derived (confusion scores labels t')) \<le> budget" for t'
  proof -
    have "?pts \<noteq> []" using m(1) by auto
    from every_cutoff_has_point [OF this] that
    have "dm_recall (derived (confusion scores labels t')) \<in> fst ` set (feasible budget ?pts)" by (force simp: max_of_points image_iff)
    then show ?thesis using best_point_props [of p ps] f b by auto
  qed
  then show ?thesis using e m(2) recall_of_best [OF f] b by simp
qed

lemma stat_less_trans: "stat_less a b \<Longrightarrow> stat_less b c \<Longrightarrow> stat_less a c"
  by (cases a; cases b; cases c) auto

lemma point_less_trans: "point_less a b \<Longrightarrow> point_less b c \<Longrightarrow> point_less a c"
  unfolding point_less_def by (auto dest: stat_less_trans)

lemma best_point_greatest: "q \<in> set (p # ps) \<Longrightarrow> \<not> point_less (best_point p ps) q"
proof (induction ps arbitrary: q rule: rev_induct)
  case Nil
  then show ?case by (cases "snd p") (simp_all add: best_point_def point_less_def)
next
  case (snoc x xs)
  have b: "best_point p (xs @ [x]) = (if point_less (best_point p xs) x then x else best_point p xs)" by (simp add: best_point_def)
  have irrefl: "\<not> point_less x x" by (cases "snd x") (simp_all add: point_less_def)
  show ?case
  proof (cases "q = x")
    case True
    then show ?thesis using irrefl b by simp
  next
    case False
    then have "\<not> point_less (best_point p xs) q" using snoc.IH [of q] snoc.prems by simp
    then show ?thesis using point_less_trans [of "best_point p xs" x q] b by auto
  qed
qed

lemma ratio_mono: "a \<le> b \<Longrightarrow> ratio a n \<le> ratio b n"
  by (simp add: ratio_def divide_right_mono)

text \<open>A greater budget never has a greater cutoff.\<close>

lemma cutoff_antitone:
  assumes "threshold_at_fpr b1 scores labels = Num h" "threshold_at_fpr b2 scores labels = Num m" "b1 \<le> b2"
  shows "m \<le> h"
proof (rule ccontr)
  assume "\<not> m \<le> h"
  then have mh: "h < m" by simp
  let ?ps = "ordered_rows scores labels" and ?pts = "roc_points scores labels"
  obtain p1 ps1 r1 f1 k1 where one: "feasible b1 ?pts = p1 # ps1" "best_point p1 ps1 = (r1, Num h)" "(f1, r1, Num h) \<in> set ?pts" "f1 \<le> b1"
    "k1 < length ?ps" "h = fst (?ps ! k1)" "f1 = ratio (class_size False (take (Suc k1) ?ps)) (class_size False (zip scores labels))"
    "r1 = ratio (class_size True (take (Suc k1) ?ps)) (class_size True (zip scores labels))" by (rule chosen_point [OF assms(1)])
  obtain p2 ps2 r2 f2 k2 where two: "feasible b2 ?pts = p2 # ps2" "best_point p2 ps2 = (r2, Num m)" "(f2, r2, Num m) \<in> set ?pts" "f2 \<le> b2"
    "k2 < length ?ps" "m = fst (?ps ! k2)" "f2 = ratio (class_size False (take (Suc k2) ?ps)) (class_size False (zip scores labels))"
    "r2 = ratio (class_size True (take (Suc k2) ?ps)) (class_size True (zip scores labels))" by (rule chosen_point [OF assms(2)])
  have "k2 < k1" using descending_nth [OF ordered_descending _ two(5), of k1] one(6) two(6) mh by (cases "k1 \<le> k2") auto
  then have "take (Suc k1) ?ps = take (Suc k2) ?ps @ take (k1 - k2) (drop (Suc k2) ?ps)" by (simp flip: take_add)
  then have c: "class_size l (take (Suc k2) ?ps) \<le> class_size l (take (Suc k1) ?ps)" for l by simp
  have "r2 \<le> r1" "f2 \<le> f1" unfolding one(7,8) two(7,8) by (rule ratio_mono, rule c)+
  then have "(r2, Num m) \<in> set (p1 # ps1)" using two(3) one(1,4) unfolding one(1) [symmetric] by (auto simp: max_of_points)
  then have "\<not> point_less (r1, Num h) (r2, Num m)" using best_point_greatest one(2) by metis
  moreover have "(r1, Num h) \<in> set (p2 # ps2)" using one(3,4) assms(3) unfolding two(1) [symmetric] by (auto simp: max_of_points)
  then have "\<not> point_less (r2, Num m) (r1, Num h)" using best_point_greatest two(2) by metis
  ultimately show False using \<open>r2 \<le> r1\<close> mh by (auto simp: point_less_def)
qed

text \<open>
  The chosen cutoff keeps its budget, where no two rows score the same: at the finite cutoff
  \<open>threshold_at_fpr\<close> gives, the false-positive rate of the confusion counts is within the budget, the
  recall is the one \<open>recall_at_fpr\<close> reports, and no cutoff within the budget has a greater one.
\<close>

theorem threshold_keeps_budget:
  assumes "distinct (map fst (zip scores labels))"
    and "threshold_at_fpr budget scores labels = Num t"
  shows "dm_fpr (derived (confusion scores labels t)) \<le> budget
    \<and> recall_at_fpr budget scores labels = Num (dm_recall (derived (confusion scores labels t)))
    \<and> (\<forall>t'. dm_fpr (derived (confusion scores labels t')) \<le> budget
         \<longrightarrow> dm_recall (derived (confusion scores labels t')) \<le> dm_recall (derived (confusion scores labels t)))"
  using assms by (rule cutoff_keeps_budget)

text \<open>
  With tied scores it may not.  Ties are not grouped, so a point inside a block of ties counts
  as reachable: an attack and a benign row with the same score give the recall 1 at a
  false-positive rate of 0 or the cutoff infinity, as the order of the rows has it, and the slice
  reported for the first order has the false-positive rate 1 under a budget of 5 percent.
\<close>

theorem tied_scores_break_budget:
  "recall_at_fpr (1 / 20) [1 / 2, 1 / 2] [True, False] = Num 1
   \<and> (\<exists>d. sl_derived (evaluate_slice (1 / 20) None draws [1 / 2, 1 / 2] [True, False]) = Some d \<and> dm_fpr d = 1)
   \<and> recall_at_fpr (1 / 20) [1 / 2, 1 / 2] [False, True] = Num 0
   \<and> threshold_at_fpr (1 / 20) [1 / 2, 1 / 2] [False, True] = PosInf"
proof -
  have a: "roc_points [1 / 2, 1 / 2] [True, False] = [(0, 0, PosInf), (0, 1, Num (1 / 2)), (1, 1, Num (1 / 2))]"
    and b: "roc_points [1 / 2, 1 / 2] [False, True] = [(0, 0, PosInf), (1, 0, Num (1 / 2)), (1, 1, Num (1 / 2))]"
    by (simp_all add: roc_points_def Let_def count_true_def)
  have t: "threshold_at_fpr (1 / 20) [1 / 2, 1 / 2] [True, False] = Num (1 / 2)"
    by (simp add: threshold_at_fpr_def a feasible_def best_point_def point_less_def)
  have "dm_fpr (derived (confusion [1 / 2, 1 / 2] [True, False] (1 / 2))) = 1"
    by (simp add: confusion_rates hits_def class_size_def ratio_def)
  then have "\<exists>d. sl_derived (evaluate_slice (1 / 20) None draws [1 / 2, 1 / 2] [True, False]) = Some d \<and> dm_fpr d = 1"
    by (simp add: evaluate_slice_def Let_def count_true_def t)
  moreover have "recall_at_fpr (1 / 20) [1 / 2, 1 / 2] [True, False] = Num 1"
    "recall_at_fpr (1 / 20) [1 / 2, 1 / 2] [False, True] = Num 0"
    "threshold_at_fpr (1 / 20) [1 / 2, 1 / 2] [False, True] = PosInf"
    by (simp_all add: recall_at_fpr_def threshold_at_fpr_def a b feasible_def best_point_def)
  ultimately show ?thesis by simp
qed

section \<open>Intervals\<close>

lemma sum_list_between:
  "(\<And>x. x \<in> set xs \<Longrightarrow> 0 \<le> f x \<and> f x \<le> (c :: real)) \<Longrightarrow> 0 \<le> sum_list (map f xs) \<and> sum_list (map f xs) \<le> real (length xs) * c"
proof (induction xs)
  case (Cons a xs)
  have "0 \<le> f a \<and> f a \<le> c" "0 \<le> sum_list (map f xs) \<and> sum_list (map f xs) \<le> real (length xs) * c"
    using Cons by auto
  then show ?case by (simp add: algebra_simps)
qed simp

lemma mann_whitney_between:
  "0 \<le> mann_whitney rows \<and> mann_whitney rows \<le> real (length (filter snd rows)) * real (length (filter (Not \<circ> snd) rows))"
  unfolding mann_whitney_def
proof (rule sum_list_between)
  fix p
  show "0 \<le> sum_list (map (\<lambda>q. wins (fst p) (fst q)) (filter (Not \<circ> snd) rows))
    \<and> sum_list (map (\<lambda>q. wins (fst p) (fst q)) (filter (Not \<circ> snd) rows)) \<le> real (length (filter (Not \<circ> snd) rows))"
    using sum_list_between [of "filter (Not \<circ> snd) rows" "\<lambda>q. wins (fst p) (fst q)" 1] by (simp add: wins_def)
qed

lemma roc_auc_between: "roc_auc scores labels = Num a \<Longrightarrow> 0 \<le> a \<and> a \<le> 1"
  using mann_whitney_between [of "zip scores labels"]
  by (auto simp: roc_auc_is_mann_whitney Let_def split: if_splits)

lemma samples_values:
  "x \<in> set (bootstrap_samples statistic scores labels draws) \<Longrightarrow>
    \<exists>idx \<in> set draws. statistic (map ((!) scores) idx) (map ((!) labels) idx) = Num x"
  by (auto simp: bootstrap_samples_def map_filter_def Let_def split: if_splits stat.splits)

lemma interval_indices:
  assumes "0 \<le> alpha" "alpha \<le> 1" "0 < m"
  shows "nat \<lfloor>alpha / 2 * real m\<rfloor> \<le> min (nat \<lfloor>(1 - alpha / 2) * real m\<rfloor>) (m - 1)"
proof -
  have "alpha / 2 * real m \<le> (1 - alpha / 2) * real m" using assms by (intro mult_right_mono) auto
  then have a: "nat \<lfloor>alpha / 2 * real m\<rfloor> \<le> nat \<lfloor>(1 - alpha / 2) * real m\<rfloor>" by (intro nat_mono floor_mono)
  have "alpha / 2 * real m \<le> 1 / 2 * real m" using assms by (intro mult_right_mono) auto
  also have "\<dots> < real m" using assms(3) by simp
  finally have "nat \<lfloor>alpha / 2 * real m\<rfloor> < m" using assms by (simp add: nat_less_iff floor_less_iff)
  then show ?thesis using a by simp
qed

lemma sort_empty: "sort xs = [] \<longleftrightarrow> xs = []"
  by (metis set_empty set_sort)

text \<open>
  The reported interval is one: unless every draw was skipped, its ends are values the statistic
  took on a resample, the lower at most the upper; for the AUC both lie between 0 and 1.
\<close>

theorem interval_is_ordered:
  assumes "0 \<le> alpha" "alpha \<le> 1" "0 < ci_effective (bootstrap_ci statistic alpha scores labels draws)"
  shows "\<exists>lo hi. ci_lo (bootstrap_ci statistic alpha scores labels draws) = Num lo
    \<and> ci_hi (bootstrap_ci statistic alpha scores labels draws) = Num hi \<and> lo \<le> hi
    \<and> (\<forall>x \<in> {lo, hi}. \<exists>idx \<in> set draws. statistic (map ((!) scores) idx) (map ((!) labels) idx) = Num x)
    \<and> (statistic = roc_auc \<longrightarrow> 0 \<le> lo \<and> hi \<le> 1)"
proof -
  let ?s = "sort (bootstrap_samples statistic scores labels draws)"
  let ?lo = "nat \<lfloor>alpha / 2 * real (length ?s)\<rfloor>"
  let ?hi = "min (nat \<lfloor>(1 - alpha / 2) * real (length ?s)\<rfloor>) (length ?s - 1)"
  have ne: "scores \<noteq> []" "0 < length ?s" using assms(3) by (auto simp: bootstrap_ci_def Let_def split: if_splits)
  have b: "ci_lo (bootstrap_ci statistic alpha scores labels draws) = Num (?s ! ?lo)"
    "ci_hi (bootstrap_ci statistic alpha scores labels draws) = Num (?s ! ?hi)"
    using ne by (simp_all add: bootstrap_ci_def Let_def sort_empty)
  have "min x (length ?s - 1) < length ?s" for x using ne(2) by linarith
  note i = interval_indices [OF assms(1,2) ne(2)] this
  have "?s ! ?lo \<le> ?s ! ?hi" by (rule sorted_nth_mono [OF sorted_sort i])
  moreover have v: "\<exists>idx \<in> set draws. statistic (map ((!) scores) idx) (map ((!) labels) idx) = Num x" if "x \<in> {?s ! ?lo, ?s ! ?hi}" for x
  proof (rule samples_values)
    have "?s ! ?lo \<in> set ?s" "?s ! ?hi \<in> set ?s" using nth_mem [OF le_less_trans [OF i]] nth_mem [OF i(2)] .
    then have "x \<in> set ?s" using that by blast
    then show "x \<in> set (bootstrap_samples statistic scores labels draws)" by (simp only: set_sort)
  qed
  moreover have "0 \<le> ?s ! ?lo \<and> ?s ! ?hi \<le> 1" if "statistic = roc_auc"
    using v [of "?s ! ?lo"] v [of "?s ! ?hi"] roc_auc_between unfolding that by blast
  ultimately show ?thesis using b by blast
qed

section \<open>Slices\<close>

lemma map_of_add: "map_of (add_to_group gs r) v =
    (if v = fst r then Some ((case map_of gs v of None \<Rightarrow> [] | Some xs \<Rightarrow> xs) @ [r]) else map_of gs v)"
  by (induction gs r rule: add_to_group.induct) auto

lemma keys_add: "fst ` set (add_to_group gs r) = insert (fst r) (fst ` set gs)"
  by (induction gs r rule: add_to_group.induct) auto

lemma distinct_add: "distinct (map fst gs) \<Longrightarrow> distinct (map fst (add_to_group gs r))"
proof (induction gs r rule: add_to_group.induct)
  case (2 k rs gs r)
  have "k \<notin> fst ` set gs" using 2(2) by simp
  then have "k \<noteq> fst r \<Longrightarrow> k \<notin> fst ` set (add_to_group gs r)" by (simp add: keys_add)
  then show ?case using 2 by auto
qed simp

lemma map_of_group: "map_of (group_by_slice rs) v = (let rows = filter (\<lambda>r. fst r = v) rs in if rows = [] then None else Some rows)"
proof (induction rs rule: rev_induct)
  case (snoc r rs)
  have g: "group_by_slice (rs @ [r]) = add_to_group (group_by_slice rs) r" by (simp add: group_by_slice_def)
  show ?case unfolding g map_of_add snoc by (auto simp: Let_def filter_empty_conv split: option.splits)
qed (simp add: group_by_slice_def)

lemma distinct_group: "distinct (map fst (group_by_slice rs))"
proof (induction rs rule: rev_induct)
  case (snoc r rs)
  then show ?case using distinct_add [OF snoc] by (simp add: group_by_slice_def)
qed (simp add: group_by_slice_def)

lemma map_of_perm: "mset xs = mset ys \<Longrightarrow> distinct (map fst xs) \<Longrightarrow> map_of xs = map_of ys"
  by (metis map_of_inject_set mset_eq_imp_distinct_iff mset_map set_mset_mset)

text \<open>
  Every record is evaluated once, in its own slice.  The result for a slice is that of exactly
  its records, in their order, flagged when they are fewer than the minimum; a value no record has
  gets none, and no value gets two.
\<close>

theorem slices_partition_records:
  "map_of (evaluate_by budget threshold min_n draws records) v =
     (let rows = filter (\<lambda>r. fst r = v) records
      in if rows = [] then None
         else Some ((evaluate_slice budget threshold draws (map (fst \<circ> snd) rows) (map (snd \<circ> snd) rows))
                \<lparr>sl_underpowered := length rows < min_n\<rparr>))
   \<and> distinct (map fst (evaluate_by budget threshold min_n draws records))"
proof -
  let ?k = "\<lambda>g. - int (length (snd g))" and ?g = "group_by_slice records"
  let ?h = "\<lambda>rows. (evaluate_slice budget threshold draws (map (fst \<circ> snd) rows) (map (snd \<circ> snd) rows))
                \<lparr>sl_underpowered := length rows < min_n\<rparr>"
  have m: "mset ?g = mset (sort_key ?k ?g)" by simp
  have "map_of (evaluate_by budget threshold min_n draws records) v = map_option ?h (map_of (sort_key ?k ?g) v)"
    unfolding evaluate_by_def map_of_map by (rule comp_apply)
  also have "\<dots> = map_option ?h (map_of ?g v)" using map_of_perm [OF m distinct_group] by simp
  finally have "map_of (evaluate_by budget threshold min_n draws records) v = map_option ?h (map_of ?g v)" .
  moreover have "distinct (map fst (evaluate_by budget threshold min_n draws records))"
  proof -
    have "map fst (evaluate_by budget threshold min_n draws records) = map fst (sort_key ?k ?g)"
      by (simp add: evaluate_by_def comp_def case_prod_unfold)
    moreover have "distinct (map fst (sort_key ?k ?g))"
      using distinct_group m by (metis mset_eq_imp_distinct_iff mset_map)
    ultimately show ?thesis by simp
  qed
  ultimately show ?thesis by (simp add: map_of_group Let_def)
qed

section \<open>Witnesses\<close>

theorem threshold_keeps_budget_witness:
  "threshold_at_fpr (1 / 2) [1 / 4, 3 / 4, 1 / 2] [True, True, False] = Num (3 / 4)
   \<and> dm_fpr (derived (confusion [1 / 4, 3 / 4, 1 / 2] [True, True, False] (3 / 4))) \<le> 1 / 2"
proof -
  have t: "threshold_at_fpr (1 / 2) [1 / 4, 3 / 4, 1 / 2] [True, True, False] = Num (3 / 4)"
    by (simp add: threshold_at_fpr_def roc_points_def Let_def count_true_def feasible_def best_point_def point_less_def)
  show ?thesis using threshold_keeps_budget [OF _ t] t by simp
qed

theorem interval_is_ordered_witness:
  "\<exists>lo hi. ci_lo (bootstrap_ci roc_auc default_alpha [1 / 4, 3 / 4] [False, True] [[0, 1], [1, 1]]) = Num lo
    \<and> ci_hi (bootstrap_ci roc_auc default_alpha [1 / 4, 3 / 4] [False, True] [[0, 1], [1, 1]]) = Num hi \<and> lo \<le> hi"
proof -
  have "roc_auc [1 / 4, 3 / 4] [False, True] = Num 1"
    by (simp add: roc_auc_is_mann_whitney Let_def mann_whitney_def wins_def)
  then have "bootstrap_samples roc_auc [1 / 4, 3 / 4] [False, True] [[0, 1], [1, 1]] = [1]"
    by (simp add: bootstrap_samples_def Let_def map_filter_def)
  then have "0 < ci_effective (bootstrap_ci roc_auc default_alpha [1 / 4, 3 / 4] [False, True] [[0, 1], [1, 1]])"
    by (simp add: bootstrap_ci_def Let_def)
  from interval_is_ordered [OF _ _ this] show ?thesis by (auto simp: default_alpha_def)
qed

end
