(* ===== verification/Key_Admin.thy ===== *)
theory Key_Admin
  imports Auth
begin

text \<open>
  The operator tool for API keys, \<open>scripts/manage_api_keys.py\<close>: issuing, revoking and verifying
  keys over the key file that \<open>core/auth.py\<close> reads.

  The file is the state; the hash and the random key are parameters, writing succeeds.
  \<open>cmd_list\<close>, which prints, and the argument parser are left out.
\<close>

section \<open>Definitions from the code\<close>

datatype admin_error = SystemExit string | AdminRaised py_error

text \<open>\<open>_load\<close>: what is not a dictionary counts as an empty store.\<close>

definition load_store :: "disk_doc \<Rightarrow> (admin_error, (string \<times> json) list) res" where
  "load_store f =
     (case f of
        Missing \<Rightarrow> Inr []
      | Unreadable \<Rightarrow> Inl (SystemExit ''Key store is unreadable'')
      | Doc j \<Rightarrow> Inr (if is_dict j then dict_items j else []))"

definition save_store :: "(string \<times> json) list \<Rightarrow> disk_doc" where
  "save_store store = Doc (JDict store)"

text \<open>\<open>any(g.get("key_id") == key_id for g in store.values())\<close>.\<close>

fun key_id_exists :: "string \<Rightarrow> (string \<times> json) list \<Rightarrow> (py_error, bool) res" where
  "key_id_exists key_id [] = Inr False"
| "key_id_exists key_id ((h, g) # store) =
     (if \<not> is_dict g then Inl (AttributeError ''get'')
      else if jget g ''key_id'' = Some (JStr key_id) then Inr True
      else key_id_exists key_id store)"

text \<open>\<open>[h for h, g in store.items() if g.get("key_id") == key_id]\<close>.\<close>

fun key_id_matches :: "string \<Rightarrow> (string \<times> json) list \<Rightarrow> (py_error, string list) res" where
  "key_id_matches key_id [] = Inr []"
| "key_id_matches key_id ((h, g) # store) =
     (if \<not> is_dict g then Inl (AttributeError ''get'')
      else bind_res (key_id_matches key_id store)
        (\<lambda>hs. Inr (if jget g ''key_id'' = Some (JStr key_id) then h # hs else hs)))"

text \<open>The format \<open>02d\<close> of a count.\<close>

definition two_digits :: "nat \<Rightarrow> string" where
  "two_digits n = (let s = dec_digits n in if length s < 2 then CHR ''0'' # s else s)"

record issue_args =
  ia_capability :: string
  ia_tenant :: string
  ia_key_id :: "string option"

definition chosen_key_id :: "issue_args \<Rightarrow> nat \<Rightarrow> string" where
  "chosen_key_id args n =
     (case ia_key_id args of
        Some (c # cs) \<Rightarrow> c # cs
      | _ \<Rightarrow> ia_tenant args @ ''-'' @ str_lower (str_upper (ia_capability args)) @ ''-'' @ two_digits (n + 1))"

definition grant_json :: "grant \<Rightarrow> json" where
  "grant_json g =
     JDict [(''capability'', JStr (gr_capability g)), (''tenant'', JStr (gr_tenant g)), (''key_id'', JStr (gr_key_id g))]"

text \<open>\<open>cmd_issue\<close>: what it prints is the grant; the key is \<open>plaintext\<close>.\<close>

definition cmd_issue ::
  "(string \<Rightarrow> string) \<Rightarrow> string \<Rightarrow> issue_args \<Rightarrow> disk_doc \<Rightarrow> (admin_error, grant) res \<times> disk_doc" where
  "cmd_issue sha plaintext args f =
     (case load_store f of
        Inl e \<Rightarrow> (Inl e, f)
      | Inr store \<Rightarrow>
          let capability = str_upper (ia_capability args) in
          if capability \<notin> set valid_capabilities then (Inl (SystemExit ''capability must be one of''), f)
          else let key_id = chosen_key_id args (length store) in
            (case key_id_exists key_id store of
               Inl e \<Rightarrow> (Inl (AdminRaised e), f)
             | Inr True \<Rightarrow> (Inl (SystemExit ''key_id already exists''), f)
             | Inr False \<Rightarrow>
                 let g = \<lparr>gr_capability = capability, gr_tenant = ia_tenant args, gr_key_id = key_id\<rparr>
                 in (Inr g, save_store (od_set (sha plaintext) (grant_json g) store))))"

definition cmd_revoke :: "string \<Rightarrow> disk_doc \<Rightarrow> (admin_error, nat) res \<times> disk_doc" where
  "cmd_revoke key_id f =
     (case load_store f of
        Inl e \<Rightarrow> (Inl e, f)
      | Inr store \<Rightarrow>
          (case key_id_matches key_id store of
             Inl e \<Rightarrow> (Inl (AdminRaised e), f)
           | Inr matches \<Rightarrow>
               if matches = [] then (Inl (SystemExit ''No key with key_id''), f)
               else (Inr (length matches), save_store (fold od_del matches store))))"

text \<open>\<open>cmd_verify\<close>: a store of its own over the file; the principal and the exit status.\<close>

definition cmd_verify :: "(string \<Rightarrow> string) \<Rightarrow> string \<Rightarrow> disk_doc \<Rightarrow> (py_error, principal \<times> nat) res" where
  "cmd_verify sha key f =
     bind_res (fst (resolve_principal sha f None (Some key) new_key_store)) (\<lambda>p. Inr (p, if pr_authenticated p then 0 else 1))"

section \<open>The registry of grants the tool keeps\<close>

text \<open>What an operator may think of: hashes to grants, no two with the same identifier.\<close>

type_synonym key_registry = "(string, grant) odict"

definition registry_issue :: "(string \<Rightarrow> string) \<Rightarrow> string \<Rightarrow> issue_args \<Rightarrow> key_registry \<Rightarrow> key_registry option" where
  "registry_issue sha plaintext args reg =
     (let capability = str_upper (ia_capability args); key_id = chosen_key_id args (length reg)
      in if capability \<notin> set valid_capabilities \<or> key_id \<in> (gr_key_id \<circ> snd) ` set reg then None
         else Some (od_set (sha plaintext) \<lparr>gr_capability = capability, gr_tenant = ia_tenant args, gr_key_id = key_id\<rparr> reg))"

definition registry_revoke :: "string \<Rightarrow> key_registry \<Rightarrow> key_registry option" where
  "registry_revoke key_id reg =
     (if key_id \<in> (gr_key_id \<circ> snd) ` set reg then Some (filter (\<lambda>(h, g). gr_key_id g \<noteq> key_id) reg) else None)"

definition registry_wf :: "key_registry \<Rightarrow> bool" where
  "registry_wf reg \<longleftrightarrow> od_wf reg
     \<and> (\<forall>x \<in> set reg. is_ascii (fst x) \<and> str_lower (fst x) = fst x \<and> gr_capability (snd x) \<in> set valid_capabilities)
     \<and> inj_on (gr_key_id \<circ> snd) (set reg)"

definition store_of :: "key_registry \<Rightarrow> (string \<times> json) list" where
  "store_of reg = map (\<lambda>(h, g). (h, grant_json g)) reg"

definition represents :: "disk_doc \<Rightarrow> key_registry \<Rightarrow> bool" where
  "represents f reg \<longleftrightarrow> f = Doc (JDict (store_of reg)) \<or> f = Missing \<and> reg = []"

definition hex_hash :: "(string \<Rightarrow> string) \<Rightarrow> bool" where
  "hex_hash sha \<longleftrightarrow> (\<forall>t. is_ascii (sha t) \<and> str_lower (sha t) = sha t)"

section \<open>The commands on a represented file\<close>

lemma load_represented: "represents f reg \<Longrightarrow> load_store f = Inr (store_of reg)"
  by (auto simp: represents_def load_store_def store_of_def)

lemma grant_json_simps [simp]:
  "is_dict (grant_json g)" "jget (grant_json g) ''key_id'' = Some (JStr (gr_key_id g))"
  by (simp_all add: grant_json_def)

lemma key_id_exists_store: "key_id_exists i (store_of reg) = Inr (i \<in> (gr_key_id \<circ> snd) ` set reg)"
  by (induction reg) (auto simp: store_of_def)

lemma key_id_matches_store: "key_id_matches i (store_of reg) = Inr (map fst (filter (\<lambda>(h, g). gr_key_id g = i) reg))"
  by (induction reg) (auto simp: store_of_def)

lemma store_of_set: "od_set h (grant_json g) (store_of reg) = store_of (od_set h g reg)"
  by (induction reg) (auto simp: store_of_def od_set_def)

lemma del_all: "fold od_del hs d = filter (\<lambda>(h, j). h \<notin> set hs) d"
proof (induction hs arbitrary: d)
  case (Cons h hs)
  have "filter (\<lambda>x. h \<noteq> fst x \<and> fst x \<notin> set hs) d = filter (\<lambda>x. fst x \<noteq> h \<and> fst x \<notin> set hs) d"
    by (rule filter_cong) auto
  then show ?case using Cons by (simp add: od_del_def AList.delete_eq case_prod_unfold)
qed (simp add: case_prod_unfold)

lemma store_of_del:
  assumes "registry_wf reg"
  shows "fold od_del (map fst (filter (\<lambda>(h, g). gr_key_id g = i) reg)) (store_of reg) = store_of (filter (\<lambda>(h, g). gr_key_id g \<noteq> i) reg)"
proof -
  let ?hs = "map fst (filter (\<lambda>(h, g). gr_key_id g = i) reg)"
  have "h \<in> set ?hs \<longleftrightarrow> gr_key_id g = i" if m: "(h, g) \<in> set reg" for h g
  proof
    assume "h \<in> set ?hs"
    then obtain g' where g': "(h, g') \<in> set reg" "gr_key_id g' = i" by auto
    have "g' = g" using od_get_mem [OF _ m] od_get_mem [OF _ g'(1)] assms by (simp add: registry_wf_def)
    then show "gr_key_id g = i" using g'(2) by simp
  qed (use m in force)
  then have "filter (\<lambda>(h, g). h \<notin> set ?hs) reg = filter (\<lambda>(h, g). gr_key_id g \<noteq> i) reg"
    by (intro filter_cong) (auto simp del: set_map)
  then show ?thesis by (simp only: del_all store_of_def filter_map comp_def case_prod_unfold fst_conv snd_conv)
qed

lemma set_od_set: "set (od_set k v d) \<subseteq> insert (k, v) (set d)"
  by (induction d) (auto simp: od_set_def)

lemma wf_issue:
  assumes "registry_wf reg" "hex_hash sha" "registry_issue sha pt args reg = Some reg'"
  shows "registry_wf reg'"
proof -
  let ?g = "\<lparr>gr_capability = str_upper (ia_capability args), gr_tenant = ia_tenant args, gr_key_id = chosen_key_id args (length reg)\<rparr>"
  have r: "reg' = od_set (sha pt) ?g reg" "gr_capability ?g \<in> set valid_capabilities"
    "gr_key_id ?g \<notin> (gr_key_id \<circ> snd) ` set reg"
    using assms(3) by (auto simp: registry_issue_def Let_def split: if_splits)
  have sub: "set reg' \<subseteq> insert (sha pt, ?g) (set reg)"
    unfolding r(1) by (rule set_od_set)
  have "od_wf reg'" unfolding r(1) using assms(1) by (simp add: registry_wf_def)
  moreover have "inj_on (gr_key_id \<circ> snd) (insert (sha pt, ?g) (set reg))"
    using assms(1) r(3) unfolding registry_wf_def inj_on_insert by auto
  then have "inj_on (gr_key_id \<circ> snd) (set reg')" by (rule inj_on_subset [OF _ sub])
  moreover have "\<forall>x \<in> insert (sha pt, ?g) (set reg). is_ascii (fst x) \<and> str_lower (fst x) = fst x \<and> gr_capability (snd x) \<in> set valid_capabilities"
    using assms(1,2) r(2) unfolding registry_wf_def hex_hash_def by simp
  ultimately show ?thesis using sub unfolding registry_wf_def by blast
qed

lemma wf_revoke:
  assumes "registry_wf reg" "registry_revoke i reg = Some reg'"
  shows "registry_wf reg'"
proof -
  have r: "reg' = filter (\<lambda>(h, g). gr_key_id g \<noteq> i) reg" using assms(2) by (simp add: registry_revoke_def split: if_splits)
  have "od_wf reg'" using assms(1) unfolding r by (simp add: registry_wf_def od_wf_def distinct_map_filter)
  moreover have "inj_on (gr_key_id \<circ> snd) (set reg')" by (rule inj_on_subset) (use assms(1) r in \<open>auto simp: registry_wf_def\<close>)
  ultimately show ?thesis using assms(1) unfolding r registry_wf_def by auto
qed

section \<open>The commands refine the registry\<close>

datatype admin_op = Issue string issue_args | Revoke string

definition admin_step :: "(string \<Rightarrow> string) \<Rightarrow> admin_op \<Rightarrow> disk_doc \<Rightarrow> (admin_error, unit) res \<times> disk_doc" where
  "admin_step sha opn f =
     (case opn of
        Issue plaintext args \<Rightarrow> (case cmd_issue sha plaintext args f of (r, f') \<Rightarrow> (bind_res r (\<lambda>g. Inr ()), f'))
      | Revoke key_id \<Rightarrow> (case cmd_revoke key_id f of (r, f') \<Rightarrow> (bind_res r (\<lambda>n. Inr ()), f')))"

definition registry_step :: "(string \<Rightarrow> string) \<Rightarrow> admin_op \<Rightarrow> key_registry \<Rightarrow> key_registry option" where
  "registry_step sha opn reg =
     (case opn of Issue plaintext args \<Rightarrow> registry_issue sha plaintext args reg | Revoke key_id \<Rightarrow> registry_revoke key_id reg)"

lemma length_store: "length (store_of reg) = length reg"
  by (simp add: store_of_def)

lemma issue_refines:
  assumes "represents f reg"
  shows "case registry_issue sha pt args reg of
      None \<Rightarrow> \<exists>m. cmd_issue sha pt args f = (Inl (SystemExit m), f)
    | Some reg' \<Rightarrow> \<exists>g f'. cmd_issue sha pt args f = (Inr g, f') \<and> represents f' reg'"
  using load_represented [OF assms]
  by (auto simp: registry_issue_def cmd_issue_def Let_def length_store key_id_exists_store store_of_set save_store_def represents_def
      simp del: od_get_set)

lemma revoke_refines:
  assumes "represents f reg" "registry_wf reg"
  shows "case registry_revoke i reg of
      None \<Rightarrow> \<exists>m. cmd_revoke i f = (Inl (SystemExit m), f)
    | Some reg' \<Rightarrow> \<exists>n f'. cmd_revoke i f = (Inr n, f') \<and> represents f' reg'"
proof -
  have "map fst (filter (\<lambda>(h, g). gr_key_id g = i) reg) = [] \<longleftrightarrow> i \<notin> (gr_key_id \<circ> snd) ` set reg"
    by (auto simp: filter_empty_conv image_iff)
  then show ?thesis
    using load_represented [OF assms(1)] store_of_del [OF assms(2), of i]
    by (simp add: registry_revoke_def cmd_revoke_def key_id_matches_store save_store_def represents_def)
qed

lemma step_refines:
  assumes "represents f reg" "registry_wf reg" "hex_hash sha"
  shows "case registry_step sha opn reg of
      None \<Rightarrow> \<exists>m. admin_step sha opn f = (Inl (SystemExit m), f)
    | Some reg' \<Rightarrow> \<exists>f'. admin_step sha opn f = (Inr (), f') \<and> represents f' reg' \<and> registry_wf reg'"
proof (cases opn)
  case (Issue pt args)
  then show ?thesis
    using issue_refines [OF assms(1), of sha pt args] wf_issue [OF assms(2,3), of pt args]
    by (auto simp: registry_step_def admin_step_def split: option.splits)
next
  case (Revoke i)
  then show ?thesis
    using revoke_refines [OF assms(1,2), of i] wf_revoke [OF assms(2), of i]
    by (auto simp: registry_step_def admin_step_def split: option.splits)
qed

definition admin_run :: "(string \<Rightarrow> string) \<Rightarrow> admin_op list \<Rightarrow> disk_doc \<Rightarrow> disk_doc" where
  "admin_run sha ops f = foldl (\<lambda>f opn. snd (admin_step sha opn f)) f ops"

definition registry_run :: "(string \<Rightarrow> string) \<Rightarrow> admin_op list \<Rightarrow> key_registry \<Rightarrow> key_registry" where
  "registry_run sha ops reg = foldl (\<lambda>reg opn. case registry_step sha opn reg of None \<Rightarrow> reg | Some reg' \<Rightarrow> reg') reg ops"

lemma run_refines:
  assumes "represents f reg" "registry_wf reg" "hex_hash sha"
  shows "represents (admin_run sha ops f) (registry_run sha ops reg) \<and> registry_wf (registry_run sha ops reg)"
  using assms(1,2)
proof (induction ops arbitrary: f reg)
  case (Cons opn ops)
  have "represents (snd (admin_step sha opn f)) (case registry_step sha opn reg of None \<Rightarrow> reg | Some reg' \<Rightarrow> reg')
    \<and> registry_wf (case registry_step sha opn reg of None \<Rightarrow> reg | Some reg' \<Rightarrow> reg')"
    using step_refines [OF Cons.prems assms(3), of opn] Cons.prems by (auto split: option.splits)
  then show ?case using Cons.IH unfolding admin_run_def registry_run_def foldl_Cons by blast
qed (simp add: admin_run_def registry_run_def)

text \<open>What the running service makes of a represented file.\<close>

lemma parse_written: "gr_capability g \<in> set valid_capabilities \<Longrightarrow> parse_grant k (grant_json g) = Some g"
  by (cases g) (auto simp: parse_grant_def grant_json_def jget_or_def Let_def valid_capabilities_def str_upper_def upper_char_def)

lemma load_written:
  assumes "od_wf (acc @ reg)" "\<forall>x \<in> set reg. str_lower (fst x) = fst x \<and> gr_capability (snd x) \<in> set valid_capabilities"
  shows "load_grants acc (store_of reg) = acc @ reg"
  using assms
proof (induction reg arbitrary: acc)
  case (Cons x reg)
  obtain h g where x: "x = (h, g)" by (cases x)
  have "od_get acc h = None" using Cons.prems(1) by (auto simp: x od_wf_def od_get_None_iff od_keys_def)
  then have "od_set h g acc = acc @ [(h, g)]" by (rule od_set_new)
  then show ?case using Cons by (simp add: x store_of_def parse_written)
qed (simp add: store_of_def)

lemma service_keys:
  assumes "represents f reg" "registry_wf reg"
  shows "ks_keys (reload_keys f ks) = reg" "ks_loaded (reload_keys f ks)"
  using assms load_written [of "[]" reg]
  by (auto simp: represents_def registry_wf_def reload_keys_def ks_load_def)

definition principal_of :: "grant option \<Rightarrow> principal" where
  "principal_of g =
     (case g of
        None \<Rightarrow> anonymous ''unrecognised credential''
      | Some g \<Rightarrow> \<lparr>pr_capability = gr_capability g, pr_tenant = gr_tenant g, pr_key_id = gr_key_id g, pr_authenticated = True,
                   pr_reason = ''verified api key''\<rparr>)"

lemma resolve_registry:
  assumes "ks_keys ks = reg" "ks_loaded ks" "registry_wf reg" "hex_hash sha" "token \<noteq> []"
  shows "resolve_principal sha disk au (Some token) ks = (Inr (principal_of (od_get reg (sha token))), ks)"
proof -
  have "find_grant (sha token) reg = Inr (od_get reg (sha token))"
    using assms(3,4) by (intro find_grant_ok) (auto simp: registry_wf_def hex_hash_def od_keys_def)
  then show ?thesis
    using assms(1,2,5) by (simp add: resolve_principal_cases bearer_token_def ks_load_def principal_of_def Let_def split: option.splits)
qed

text \<open>
  C21. The tool and the service agree on who holds which key.  After any sequence of commands on a
  key file that did not exist, failed ones included, a service that (re)loads the file resolves
  every token exactly as the registry of grants says that those commands keep.
\<close>

theorem key_tool_refines_registry:
  assumes "hex_hash sha" "token \<noteq> []"
  shows "fst (resolve_principal sha disk au (Some token) (reload_keys (admin_run sha ops Missing) ks))
    = Inr (principal_of (od_get (registry_run sha ops []) (sha token)))"
proof -
  have "represents Missing []" "registry_wf []" by (simp_all add: represents_def registry_wf_def)
  from run_refines [OF this assms(1), of ops]
  have r: "represents (admin_run sha ops Missing) (registry_run sha ops [])" "registry_wf (registry_run sha ops [])" by simp_all
  show ?thesis using resolve_registry [OF service_keys [OF r] r(2) assms] by simp
qed

lemma od_get_filter_val:
  "od_wf d \<Longrightarrow> od_get (filter (\<lambda>(h, g). P g) d) h = (case od_get d h of Some g \<Rightarrow> if P g then Some g else None | None \<Rightarrow> None)"
proof (induction d)
  case (Cons x d)
  obtain a b where x: "x = (a, b)" by (cases x)
  have "od_wf d" "a = h \<Longrightarrow> od_get d h = None" using Cons.prems by (auto simp: x od_wf_def od_get_None_iff od_keys_def)
  then show ?case using Cons.IH by (cases "a = h") (simp_all add: x)
qed simp

text \<open>
  A revoked key lives until the service reloads.  After a revocation that succeeds, the running
  service still resolves every token as before; once it reloads, the tokens of the revoked grant
  are unrecognised and every other token resolves as before.
\<close>

theorem revocation_needs_reload:
  assumes "represents f reg" "registry_wf reg" "hex_hash sha" "token \<noteq> []"
    and "cmd_revoke i f = (Inr n, f')"
  shows "fst (resolve_principal sha f' au (Some token) (reload_keys f ks)) = Inr (principal_of (od_get reg (sha token)))
    \<and> fst (resolve_principal sha f' au (Some token) (reload_keys f' ks))
      = Inr (principal_of (case od_get reg (sha token) of Some g \<Rightarrow> if gr_key_id g = i then None else Some g | None \<Rightarrow> None))"
proof -
  obtain reg' where reg': "registry_revoke i reg = Some reg'" "represents f' reg'"
    using revoke_refines [OF assms(1,2), of i] assms(5) by (auto split: option.splits)
  note wf' = wf_revoke [OF assms(2) reg'(1)]
  have "od_get reg' h = (case od_get reg h of Some g \<Rightarrow> if gr_key_id g = i then None else Some g | None \<Rightarrow> None)" for h
  proof -
    have "reg' = filter (\<lambda>(h, g). gr_key_id g \<noteq> i) reg" using reg'(1) by (simp add: registry_revoke_def split: if_splits)
    moreover have "od_wf reg" using assms(2) by (simp add: registry_wf_def)
    ultimately show ?thesis using od_get_filter_val [of reg "\<lambda>g. gr_key_id g \<noteq> i" h] by (simp split: option.splits)
  qed
  then show ?thesis
    using resolve_registry [OF service_keys [OF assms(1,2)] assms(2-4)] resolve_registry [OF service_keys [OF reg'(2) wf'] wf' assms(3,4)]
    by simp
qed

section \<open>Concrete instances\<close>

definition demo_hash :: "string \<Rightarrow> string" where
  "demo_hash t = (if t = ''k1'' then ''a1'' else if t = ''k2'' then ''b2'' else ''c3'')"

definition demo_args :: issue_args where
  "demo_args = \<lparr>ia_capability = ''elevated'', ia_tenant = ''acme'', ia_key_id = None\<rparr>"

definition demo_grant :: grant where
  "demo_grant = \<lparr>gr_capability = ''ELEVATED'', gr_tenant = ''acme'', gr_key_id = ''acme-elevated-01''\<rparr>"

lemma demo_hex: "hex_hash demo_hash"
  by (auto simp: hex_hash_def demo_hash_def is_ascii_def str_lower_def lower_char_def)

lemma demo_registry: "registry_run demo_hash [Issue ''k1'' demo_args] [] = [(''a1'', demo_grant)]"
  by code_simp

lemma demo_registry_wf: "registry_wf [(''a1'', demo_grant)]"
  by (auto simp: registry_wf_def od_wf_def is_ascii_def str_lower_def lower_char_def demo_grant_def valid_capabilities_def)

text \<open>
  The number in an automatic identifier is the count of entries: after a revocation it may be one
  that is still in use, and the next issue for that tenant and tier refuses.
\<close>

lemma automatic_key_id_collides:
  "registry_step demo_hash (Issue ''k3'' demo_args)
     (registry_run demo_hash [Issue ''k1'' demo_args, Issue ''k2'' demo_args, Revoke ''acme-elevated-01''] []) = None"
  by code_simp

theorem key_tool_refines_registry_witness:
  "fst (resolve_principal demo_hash Missing None (Some ''k1'') (reload_keys (admin_run demo_hash [Issue ''k1'' demo_args] Missing) new_key_store))
   = Inr \<lparr>pr_capability = ''ELEVATED'', pr_tenant = ''acme'', pr_key_id = ''acme-elevated-01'', pr_authenticated = True,
          pr_reason = ''verified api key''\<rparr>"
  using key_tool_refines_registry [OF demo_hex, of "''k1''" Missing None "[Issue ''k1'' demo_args]" new_key_store]
  by (simp add: demo_registry principal_of_def demo_grant_def demo_hash_def)

theorem revocation_needs_reload_witness:
  "pr_authenticated (principal_of (od_get [(''a1'', demo_grant)] (demo_hash ''k1'')))
   \<and> fst (resolve_principal demo_hash (Doc (JDict [])) None (Some ''k1'') (reload_keys (Doc (JDict (store_of [(''a1'', demo_grant)]))) new_key_store))
     = Inr (principal_of (Some demo_grant))
   \<and> fst (resolve_principal demo_hash (Doc (JDict [])) None (Some ''k1'') (reload_keys (Doc (JDict [])) new_key_store))
     = Inr (anonymous ''unrecognised credential'')"
proof -
  have r: "represents (Doc (JDict (store_of [(''a1'', demo_grant)]))) [(''a1'', demo_grant)]" by (simp add: represents_def)
  have c: "cmd_revoke ''acme-elevated-01'' (Doc (JDict (store_of [(''a1'', demo_grant)]))) = (Inr 1, Doc (JDict []))"
    by code_simp
  show ?thesis
    using revocation_needs_reload [OF r demo_registry_wf demo_hex _ c, of "''k1''" None new_key_store]
    by (simp add: principal_of_def demo_hash_def demo_grant_def)
qed

end
