(* ===== verification/Migration.thy ===== *)
theory Migration
  imports Audit_Trail
begin

text \<open>
  The migration of the JSONL audit log into the SQLite store, \<open>scripts/migrate_audit_to_sqlite.py\<close>.

  The state is the store and the ledger of line hashes, which the set \<open>seen\<close> of the code equals at
  every moment.  Hash, parser and printer are parameters, as is whether the write of a line
  succeeds in a run; the arguments and the report are left out.
\<close>

section \<open>Definitions from the code\<close>

datatype parsed = Parsed json | NotJson | ParserRaised py_error

record migration_env =
  mg_sha :: "string \<Rightarrow> string"
  mg_loads :: "string \<Rightarrow> parsed"
  mg_dumps :: "json \<Rightarrow> string"
  mg_ok :: "string \<Rightarrow> bool"

record migration_state =
  ms_db :: audit_db
  ms_ledger :: "string list"

datatype line_result = Blank | SkippedDup | BadJson | Imported json bool

record migration_stats =
  mt_total :: nat
  mt_imported :: nat
  mt_skipped_dup :: nat
  mt_bad_json :: nat
  mt_legacy :: nat
  mt_by_type :: "(json, nat) odict"

definition no_stats :: migration_stats where
  "no_stats = \<lparr>mt_total = 0, mt_imported = 0, mt_skipped_dup = 0, mt_bad_json = 0, mt_legacy = 0, mt_by_type = []\<rparr>"

definition count_result :: "migration_stats \<Rightarrow> line_result \<Rightarrow> migration_stats" where
  "count_result st r =
     (case r of
        Blank \<Rightarrow> st
      | SkippedDup \<Rightarrow> st\<lparr>mt_total := mt_total st + 1, mt_skipped_dup := mt_skipped_dup st + 1\<rparr>
      | BadJson \<Rightarrow> st\<lparr>mt_total := mt_total st + 1, mt_bad_json := mt_bad_json st + 1\<rparr>
      | Imported et known \<Rightarrow>
          st\<lparr>mt_total := mt_total st + 1, mt_imported := mt_imported st + 1,
             mt_legacy := (if known then mt_legacy st else mt_legacy st + 1),
             mt_by_type := od_set et ((case od_get (mt_by_type st) et of None \<Rightarrow> 0 | Some n \<Rightarrow> n) + 1) (mt_by_type st)\<rparr>)"

text \<open>\<open>rec.get("event_type") or "legacy"\<close>.\<close>

definition type_of_record :: "json \<Rightarrow> json" where
  "type_of_record rc = (let v = jget_or rc ''event_type'' JNull in if truthy v then v else JStr ''legacy'')"

definition known_type :: "json \<Rightarrow> string option" where
  "known_type et = (case et of JStr s \<Rightarrow> if s \<in> set known_event_types then Some s else None | _ \<Rightarrow> None)"

definition migrate_line ::
  "migration_env \<Rightarrow> bool \<Rightarrow> string \<Rightarrow> migration_state \<Rightarrow> (py_error, line_result) res \<times> migration_state" where
  "migrate_line env dry_run raw s =
     (let line = str_strip raw; h = mg_sha env line in
      if line = [] then (Inr Blank, s)
      else if h \<in> set (ms_ledger s) then (Inr SkippedDup, s)
      else case mg_loads env line of
        NotJson \<Rightarrow> (Inr BadJson, s)
      | ParserRaised e \<Rightarrow> (Inl e, s)
      | Parsed rc \<Rightarrow>
          if \<not> is_dict rc then (Inl (AttributeError ''get''), s)
          else let et = type_of_record rc in
            if \<not> hashable et then (Inl (TypeError ''unhashable type''), s)
            else if dry_run then (Inr (Imported et (known_type et \<noteq> None)), s)
            else (case store_write (mg_dumps env) (mg_ok env h) (case known_type et of Some t \<Rightarrow> t | None \<Rightarrow> ''legacy'') (dict_items rc) (ms_db s) of
                    Inl e \<Rightarrow> (Inl e, s)
                  | Inr db \<Rightarrow> (Inr (Imported et (known_type et \<noteq> None)), \<lparr>ms_db = db, ms_ledger = ms_ledger s @ [h]\<rparr>)))"

fun migrate_lines ::
  "migration_env \<Rightarrow> bool \<Rightarrow> string list \<Rightarrow> migration_state \<Rightarrow> (py_error, line_result list) res \<times> migration_state" where
  "migrate_lines env dry_run [] s = (Inr [], s)"
| "migrate_lines env dry_run (l # ls) s =
     (case migrate_line env dry_run l s of
        (Inl e, s') \<Rightarrow> (Inl e, s')
      | (Inr r, s') \<Rightarrow>
          (case migrate_lines env dry_run ls s' of
             (Inl e, s'') \<Rightarrow> (Inl e, s'')
           | (Inr rs, s'') \<Rightarrow> (Inr (r # rs), s'')))"

text \<open>\<open>None\<close> for a log that does not exist.\<close>

definition migrate ::
  "migration_env \<Rightarrow> bool \<Rightarrow> string list option \<Rightarrow> migration_state \<Rightarrow> (py_error, migration_stats) res \<times> migration_state" where
  "migrate env dry_run jsonl s =
     (case jsonl of
        None \<Rightarrow> (Inl (OtherError ''SystemExit''), s)
      | Some lines \<Rightarrow>
          (case migrate_lines env dry_run lines s of (r, s') \<Rightarrow> (bind_res r (\<lambda>rs. Inr (foldl count_result no_stats rs)), s')))"

section \<open>Lemmas\<close>

text \<open>A line is settled when it needs no import: blank, imported before, or not JSON.\<close>

definition line_done :: "migration_env \<Rightarrow> migration_state \<Rightarrow> string \<Rightarrow> bool" where
  "line_done env s raw \<longleftrightarrow>
     str_strip raw = [] \<or> mg_sha env (str_strip raw) \<in> set (ms_ledger s) \<or> mg_loads env (str_strip raw) = NotJson"

definition idle_result :: "migration_env \<Rightarrow> migration_state \<Rightarrow> string \<Rightarrow> line_result" where
  "idle_result env s raw =
     (if str_strip raw = [] then Blank else if mg_sha env (str_strip raw) \<in> set (ms_ledger s) then SkippedDup else BadJson)"

lemma line_settled: "line_done env s raw \<Longrightarrow> migrate_line env dry raw s = (Inr (idle_result env s raw), s)"
  by (auto simp: line_done_def migrate_line_def idle_result_def Let_def)

lemma line_settles:
  assumes "migrate_line env False raw s = (Inr r, s')"
  shows "line_done env s' raw \<and> set (ms_ledger s) \<subseteq> set (ms_ledger s')"
  using assms
  by (auto simp: line_done_def migrate_line_def Let_def split: if_splits parsed.splits sum.splits)

lemma line_done_mono: "line_done env s raw \<Longrightarrow> set (ms_ledger s) \<subseteq> set (ms_ledger s') \<Longrightarrow> line_done env s' raw"
  by (auto simp: line_done_def)

lemma lines_settle:
  "migrate_lines env False ls s = (Inr rs, s') \<Longrightarrow>
    (\<forall>l \<in> set ls. line_done env s' l) \<and> set (ms_ledger s) \<subseteq> set (ms_ledger s')"
proof (induction ls arbitrary: s rs)
  case (Cons l ls)
  obtain r s1 where l: "migrate_line env False l s = (Inr r, s1)"
    using Cons.prems by (auto split: prod.splits sum.splits)
  obtain rs' where ls: "migrate_lines env False ls s1 = (Inr rs', s')"
    using Cons.prems l by (auto split: prod.splits sum.splits)
  show ?case using line_settles [OF l] Cons.IH [OF ls] line_done_mono by auto
qed simp

lemma lines_idle: "\<forall>l \<in> set ls. line_done env s l \<Longrightarrow> migrate_lines env dry ls s = (Inr (map (idle_result env s) ls), s)"
  by (induction ls) (simp_all add: line_settled)

lemma lines_append:
  "migrate_lines env dry (xs @ ys) s =
     (case migrate_lines env dry xs s of
        (Inl e, s') \<Rightarrow> (Inl e, s')
      | (Inr rs, s') \<Rightarrow> (case migrate_lines env dry ys s' of (Inl e, s'') \<Rightarrow> (Inl e, s'') | (Inr rs', s'') \<Rightarrow> (Inr (rs @ rs'), s'')))"
  by (induction xs arbitrary: s) (auto split: prod.splits sum.splits)

lemma line_done_ok: "line_done (env\<lparr>mg_ok := f\<rparr>) s l = line_done env s l"
  by (simp add: line_done_def)

text \<open>What a run that fails has done: a prefix, line by line.\<close>

lemma lines_fail:
  "migrate_lines env False ls s = (Inl e, s') \<Longrightarrow>
    \<exists>ps l rest rs. ls = ps @ l # rest \<and> migrate_lines env False ps s = (Inr rs, s')"
proof (induction ls arbitrary: s)
  case (Cons l ls)
  show ?case
  proof (cases "migrate_line env False l s")
    case (Pair r s1)
    show ?thesis
    proof (cases r)
      case (Inl x)
      have "s1 = s" using Pair Inl by (auto simp: migrate_line_def Let_def split: if_splits parsed.splits sum.splits)
      then have "l # ls = [] @ l # ls \<and> migrate_lines env False [] s = (Inr [], s')" using Cons.prems Pair Inl by simp
      then show ?thesis by blast
    next
      case (Inr x)
      then have "migrate_lines env False ls s1 = (Inl e, s')"
        using Cons.prems Pair by (auto split: prod.splits sum.splits)
      from Cons.IH [OF this] obtain ps k rest rs where
        "ls = ps @ k # rest" "migrate_lines env False ps s1 = (Inr rs, s')" by blast
      then have "l # ls = (l # ps) @ k # rest \<and> migrate_lines env False (l # ps) s = (Inr (x # rs), s')"
        using Pair Inr by simp
      then show ?thesis by blast
    qed
  qed
qed simp

lemma line_all_ok:
  "migrate_line env False l s = (Inr r, s') \<Longrightarrow> migrate_line (env\<lparr>mg_ok := \<lambda>h. True\<rparr>) False l s = (Inr r, s')"
  by (auto simp: migrate_line_def store_write_def Let_def split: if_splits parsed.splits option.splits sum.splits)

lemma lines_all_ok:
  "migrate_lines env False ls s = (Inr rs, s') \<Longrightarrow> migrate_lines (env\<lparr>mg_ok := \<lambda>h. True\<rparr>) False ls s = (Inr rs, s')"
proof (induction ls arbitrary: s rs)
  case (Cons l ls)
  obtain r s1 where l: "migrate_line env False l s = (Inr r, s1)"
    using Cons.prems by (auto split: prod.splits sum.splits)
  obtain rs' where ls: "migrate_lines env False ls s1 = (Inr rs', s')" "rs = r # rs'"
    using Cons.prems l by (auto split: prod.splits sum.splits)
  show ?case using line_all_ok [OF l] Cons.IH [OF ls(1)] ls(2) by simp
qed simp

section \<open>Properties\<close>

text \<open>
  C35. The migration may be run again.  After a run that succeeded, a run over the same log changes
  nothing and imports nothing, and a run over the log with lines appended does exactly what a run
  over those lines alone does.
\<close>

theorem migration_idempotent:
  assumes "migrate env False (Some ls) s = (Inr st, s')"
  shows "(\<exists>st'. migrate env dry (Some ls) s' = (Inr st', s') \<and> mt_imported st' = 0 \<and> mt_by_type st' = []
      \<and> mt_total st' = mt_skipped_dup st' + mt_bad_json st')
    \<and> snd (migrate env False (Some (ls @ appended)) s') = snd (migrate env False (Some appended) s')"
proof -
  obtain rs where rs: "migrate_lines env False ls s = (Inr rs, s')"
    using assms by (auto simp: migrate_def bind_res_Inr_iff split: prod.splits)
  have idle: "migrate_lines env d ls s' = (Inr (map (idle_result env s') ls), s')" for d
    using lines_settle [OF rs] by (intro lines_idle) simp
  let ?idle = "\<lambda>st. mt_imported st = 0 \<and> mt_by_type st = [] \<and> mt_total st = mt_skipped_dup st + mt_bad_json st"
  have count: "?idle st \<Longrightarrow> ?idle (foldl count_result st (map (idle_result env s') ks))" for st ks
    by (induction ks arbitrary: st) (auto simp: count_result_def idle_result_def)
  have "?idle no_stats" by (simp add: no_stats_def)
  from count [OF this, of ls] show ?thesis
    by (simp add: migrate_def idle lines_append split: prod.splits sum.splits)
qed

text \<open>
  An interrupted migration resumes.  When a run ends in a failure, running again over the same
  log, with the store writable, ends in the state one undisturbed run would have reached: no line
  is lost, and none imported twice.
\<close>

theorem interrupted_migration_resumes:
  assumes "migrate env False (Some ls) s = (Inl e, s1)"
  shows "snd (migrate (env\<lparr>mg_ok := \<lambda>h. True\<rparr>) False (Some ls) s1) = snd (migrate (env\<lparr>mg_ok := \<lambda>h. True\<rparr>) False (Some ls) s)"
proof -
  let ?env = "env\<lparr>mg_ok := \<lambda>h. True\<rparr>"
  have "migrate_lines env False ls s = (Inl e, s1)"
    using assms by (cases "migrate_lines env False ls s") (auto simp: migrate_def bind_res_def split: sum.splits)
  from lines_fail [OF this] obtain ps l rest rs where
    ps: "ls = ps @ l # rest" "migrate_lines env False ps s = (Inr rs, s1)" by blast
  have once: "migrate_lines ?env False ps s = (Inr rs, s1)" by (rule lines_all_ok [OF ps(2)])
  have again: "migrate_lines ?env False ps s1 = (Inr (map (idle_result ?env s1) ps), s1)"
    using lines_settle [OF ps(2)] by (intro lines_idle) (simp add: line_done_ok)
  show ?thesis
    unfolding migrate_def ps(1) by (simp add: lines_append once again split: prod.splits sum.splits)
qed

text \<open>
  What the service mirrored is imported again.  The ledger knows the lines the migration
  imported, not those whose records the running service wrote to both places, so after a record is
  logged with the mirror on, migrating its line gives its table the same row twice.
\<close>

theorem mirrored_record_imported_twice:
  assumes "ac_sqlite_enabled cfg" "audit_write cfg env t e s = (Inr (), s1)" "au_db s1 \<noteq> au_db s"
    and "t \<in> set known_event_types" "map_of e ''event_type'' = Some (JStr t)"
    and "mg_loads menv line = Parsed (JDict e)" "mg_dumps menv = ae_dumps env" "mg_ok menv (mg_sha menv line)"
    and "str_strip line = line" "line \<noteq> []" "mg_sha menv line \<notin> set ledger"
  shows "\<exists>st s2 row. migrate menv False (Some [line]) \<lparr>ms_db = au_db s1, ms_ledger = ledger\<rparr> = (Inr st, s2)
    \<and> ms_db s2 t = au_db s t @ [row, row]"
proof -
  obtain db where w: "store_write (ae_dumps env) (ae_db_ok env (au_writes s)) t e (au_db s) = Inr db" "au_db s1 = db"
    using assms(1-3) by (auto simp: audit_write_def mirror_to_sqlite_def Let_def split: sum.splits)
  obtain cols where cols: "audit_columns t = Some cols"
    using assms(4) by (auto simp: known_event_types_def audit_columns_def)
  let ?row = "coerce_row (ae_dumps env) t cols e"
  have b: "list_all bindable (map snd ?row)" "db = (au_db s)(t := au_db s t @ [?row])"
    using w(1) by (auto simp: store_write_def cols split: if_splits)
  have ne: "t \<noteq> []" using assms(4) by (auto simp: known_event_types_def)
  have et: "type_of_record (JDict e) = JStr t" "known_type (JStr t) = Some t" "hashable (JStr t)"
    using assms(4,5) ne by (simp_all add: type_of_record_def jget_or_def known_type_def hashable_def)
  have "store_write (ae_dumps env) True t e db = Inr (db(t := db t @ [?row]))"
    using b(1) by (simp add: store_write_def cols)
  then show ?thesis
    using assms(6-11) w(2) b(2) et
    by (simp add: migrate_def migrate_line_def Let_def)
qed

section \<open>Concrete instances\<close>

definition demo_entry :: entry where
  "demo_entry = [(''event_type'', JStr ''tool_call''), (''tenant'', JStr ''acme'')]"

definition demo_migration :: "(string \<Rightarrow> bool) \<Rightarrow> migration_env" where
  "demo_migration ok =
     \<lparr>mg_sha = id, mg_loads = (\<lambda>l. if l = ''x'' then Parsed (JDict demo_entry) else if l = ''y'' then Parsed (JDict []) else NotJson),
      mg_dumps = (\<lambda>j. ''{}''), mg_ok = ok\<rparr>"

definition empty_migration :: migration_state where
  "empty_migration = \<lparr>ms_db = (\<lambda>t. []), ms_ledger = []\<rparr>"

lemma demo_rows: "list_all bindable (map snd (coerce_row (\<lambda>j. ''{}'') ''tool_call'' (the (audit_columns ''tool_call'')) demo_entry))"
  by code_simp

lemma demo_strip: "str_strip ''x'' = ''x''" "str_strip ''y'' = ''y''" "str_strip ''z'' = ''z''"
  by (simp_all add: str_strip_def is_space_def)

lemma demo_line:
  "migrate_line (demo_migration ok) False ''x'' s =
     (if ''x'' \<in> set (ms_ledger s) then (Inr SkippedDup, s)
      else if ok ''x'' then (Inr (Imported (JStr ''tool_call'') True),
        \<lparr>ms_db = (ms_db s)(''tool_call'' := ms_db s ''tool_call''
           @ [coerce_row (\<lambda>j. ''{}'') ''tool_call'' (the (audit_columns ''tool_call'')) demo_entry]), ms_ledger = ms_ledger s @ [''x'']\<rparr>)
      else (Inl (OtherError ''sqlite3.Error''), s))"
  using demo_rows
  by (auto simp: migrate_line_def demo_migration_def demo_strip demo_entry_def type_of_record_def jget_or_def known_type_def hashable_def
      known_event_types_def store_write_def audit_columns_def Let_def)

lemma demo_bad:
  "migrate_line (demo_migration ok) dry ''z'' s = (Inr (if ''z'' \<in> set (ms_ledger s) then SkippedDup else BadJson), s)"
  by (simp add: migrate_line_def demo_migration_def demo_strip Let_def)

lemma demo_fields:
  "mg_loads (demo_migration ok) ''x'' = Parsed (JDict demo_entry)" "mg_dumps (demo_migration ok) = (\<lambda>j. ''{}'')"
  "mg_ok (demo_migration ok) = ok" "mg_sha (demo_migration ok) = id" "map_of demo_entry ''event_type'' = Some (JStr ''tool_call'')"
  "(demo_migration ok)\<lparr>mg_ok := ok'\<rparr> = demo_migration ok'"
  by (simp_all add: demo_migration_def demo_entry_def)

theorem migration_idempotent_witness:
  "\<exists>st s' st'. migrate (demo_migration (\<lambda>h. True)) False (Some [''x'', ''z'']) empty_migration = (Inr st, s') \<and> mt_imported st = 1
    \<and> migrate (demo_migration (\<lambda>h. True)) False (Some [''x'', ''z'']) s' = (Inr st', s') \<and> mt_imported st' = 0"
proof -
  obtain st s' where m: "migrate (demo_migration (\<lambda>h. True)) False (Some [''x'', ''z'']) empty_migration = (Inr st, s')" "mt_imported st = 1"
    by (simp add: migrate_def demo_line empty_migration_def demo_bad count_result_def no_stats_def)
  show ?thesis using migration_idempotent [OF m(1), of False] m by blast
qed

theorem interrupted_migration_resumes_witness:
  "snd (migrate (demo_migration (\<lambda>h. True)) False (Some [''z'', ''x'']) empty_migration)
   = snd (migrate ((demo_migration (\<lambda>h. False))\<lparr>mg_ok := \<lambda>h. True\<rparr>) False (Some [''z'', ''x'']) empty_migration)"
proof -
  have "migrate (demo_migration (\<lambda>h. False)) False (Some [''z'', ''x'']) empty_migration = (Inl (OtherError ''sqlite3.Error''), empty_migration)"
    by (simp add: migrate_def demo_line empty_migration_def demo_bad)
  from interrupted_migration_resumes [OF this] show ?thesis by (simp add: demo_fields)
qed

theorem mirrored_record_imported_twice_witness:
  "\<exists>st s2 row. migrate (demo_migration (\<lambda>h. True)) False (Some [''x''])
      \<lparr>ms_db = (\<lambda>t. [])(''tool_call'' := [coerce_row (\<lambda>j. ''{}'') ''tool_call'' (the (audit_columns ''tool_call'')) demo_entry]),
       ms_ledger = []\<rparr> = (Inr st, s2)
    \<and> ms_db s2 ''tool_call'' = [row, row]"
proof -
  let ?cfg = "\<lparr>ac_sqlite_enabled = True, ac_read_from_sqlite = False, ac_fails_closed = True\<rparr>"
  let ?env = "\<lparr>ae_sha = id, ae_dumps = (\<lambda>j. ''{}''), ae_now = [], ae_log_ok = (\<lambda>k. True), ae_db_ok = (\<lambda>k. True)\<rparr> :: audit_env"
  let ?s = "\<lparr>au_log = [], au_db = (\<lambda>t. []), au_writes = 0\<rparr> :: audit_state"
  let ?row = "coerce_row (\<lambda>j. ''{}'') ''tool_call'' (the (audit_columns ''tool_call'')) demo_entry"
  have w: "audit_write ?cfg ?env ''tool_call'' demo_entry ?s
      = (Inr (), \<lparr>au_log = [demo_entry], au_db = (\<lambda>t. [])(''tool_call'' := [?row]), au_writes = 1\<rparr>)"
    using demo_rows by (simp add: audit_write_def mirror_to_sqlite_def store_write_def audit_columns_def Let_def)
  have "(\<lambda>t. [])(''tool_call'' := [?row]) \<noteq> (\<lambda>t. [])" by (metis fun_upd_same list.distinct(1))
  then show ?thesis
    using mirrored_record_imported_twice [OF _ w, of "demo_migration (\<lambda>h. True)" "''x''" "[]"]
    by (simp add: known_event_types_def demo_fields demo_strip)
qed

end
