(* ===== verification/Settings.thy ===== *)
theory Settings
  imports Request_Gate
begin

text \<open>
  The settings of the service, \<open>core/config.py\<close>: names and defaults in their order, the validators,
  and what the other parts of the model read from them.

  The reading of the environment and its conversion to the declared types is pydantic's; an
  override is a value already converted.  pydantic validates overrides, not defaults, and raises
  once for all fields that fail.
\<close>

section \<open>Definitions from the code\<close>

datatype number = Finite real | Infinite bool | NotANumber

datatype setting = SText string | SNumber number | SInt int | SFlag bool

type_synonym settings = "(string \<times> setting) list"

abbreviation text_setting :: "string \<Rightarrow> string \<Rightarrow> string \<times> setting" where
  "text_setting n t \<equiv> (n, SText t)"

abbreviation number_setting :: "string \<Rightarrow> real \<Rightarrow> string \<times> setting" where
  "number_setting n x \<equiv> (n, SNumber (Finite x))"

definition threshold_settings :: settings where
  "threshold_settings =
     [text_setting ''CAPABILITY_GENERAL'' ''GENERAL'', text_setting ''CAPABILITY_ELEVATED'' ''ELEVATED'',
      text_setting ''CAPABILITY_INTERNAL'' ''INTERNAL'',
      number_setting ''SEMANTIC_THRESHOLD_HIGH'' (48 / 100), number_setting ''SEMANTIC_THRESHOLD_MEDIUM'' (30 / 100),
      number_setting ''META_INTENT_THRESHOLD'' (30 / 100), number_setting ''EDUCATIONAL_THRESHOLD'' (45 / 100),
      number_setting ''DOMAIN_THRESHOLD'' (22 / 100), number_setting ''CACHE_SIMILARITY_THRESHOLD'' (99 / 100)]"

definition detection_settings :: settings where
  "detection_settings =
     [(''FUSION_PARALLEL'', SFlag True), (''FUSION_PER_CLASS'', SFlag True), (''JUDGE_MAY_CLEAR_TO_LOW'', SFlag False),
      text_setting ''DOMAIN_GUARDRAIL_MODE'' ''off'']"

definition output_settings :: settings where
  "output_settings =
     [(''HALLUCINATION_CHECK_ENABLED'', SFlag False), (''OUTPUT_JUDGE_FALLBACK_ENABLED'', SFlag True),
      number_setting ''OUTPUT_JUDGE_FALLBACK_THRESHOLD'' (5 / 10)]"

definition endpoint_settings :: settings where
  "endpoint_settings =
     [text_setting ''OLLAMA_API_URL'' ''http://localhost:11434/api/generate'', text_setting ''OLLAMA_MODEL'' ''llama-guard3'',
      text_setting ''EMBEDDING_MODEL'' ''all-mpnet-base-v2'', text_setting ''OLLAMA_CHAT_URL'' ''http://localhost:11434/api/chat'',
      text_setting ''OPENAI_API_KEY'' [], text_setting ''OPENAI_BASE_URL'' ''https://api.openai.com/v1'', text_setting ''OPENAI_MODEL'' [],
      text_setting ''ANTHROPIC_API_KEY'' [], text_setting ''ANTHROPIC_BASE_URL'' ''https://api.anthropic.com/v1'',
      text_setting ''ANTHROPIC_MODEL'' [], text_setting ''ANTHROPIC_VERSION'' ''2023-06-01'']"

definition storage_settings :: settings where
  "storage_settings =
     [text_setting ''POLICY_FILE'' ''policies.json'', text_setting ''POLICY_RULES_FILE'' ''policy_rules.json'',
      text_setting ''POLICY_VERSIONS_DIR'' ''policy_versions'', text_setting ''EVIDENCE_DIR'' ''_evidence'',
      text_setting ''REVIEW_QUEUE_FILE'' ''review_queue.json'', text_setting ''AUDIT_LOG_PATH'' ''audit.jsonl'',
      (''AUDIT_WRITE_FAILS_CLOSED'', SFlag True), text_setting ''AUDIT_DB_PATH'' ''audit.db'', (''AUDIT_SQLITE_ENABLED'', SFlag True),
      (''AUDIT_READ_FROM_SQLITE'', SFlag False), number_setting ''HEALTH_JUDGE_PROBE_TTL_SECONDS'' 10]"

definition access_settings :: settings where
  "access_settings =
     [text_setting ''AUTH_MODE'' ''optional'', text_setting ''API_KEYS_FILE'' ''api_keys.json'',
      text_setting ''TENANTS_FILE'' ''tenants.json'', text_setting ''CORS_ORIGINS'' ''*'',
      (''RATE_LIMIT_ENABLED'', SFlag True), number_setting ''RATE_LIMIT_AUTHENTICATED_RPM'' 120,
      number_setting ''RATE_LIMIT_ANONYMOUS_RPM'' 20, number_setting ''RATE_LIMIT_BURST_SECONDS'' 10,
      (''RATE_LIMIT_MAX_TRACKED'', SInt 10000), (''RATE_LIMIT_TRUST_FORWARDED_FOR'', SFlag False)]"

definition execution_settings :: settings where
  "execution_settings =
     [(''ASSESS_MAX_CONCURRENCY'', SInt 4), number_setting ''ASSESS_TIMEOUT_SECONDS'' 30, (''GATEWAY_MAX_CONCURRENCY'', SInt 4),
      number_setting ''GATEWAY_TIMEOUT_SECONDS'' 60, text_setting ''LLM_GATEWAY_DEFAULT_PROVIDER'' ''ollama'',
      text_setting ''GATEWAY_FALLBACK_PROVIDERS'' [], (''GATEWAY_TOKEN_QUOTA_ENABLED'', SFlag False),
      (''GATEWAY_TOKEN_QUOTA_DAILY_DEFAULT'', SInt 0)]"

definition startup_settings :: settings where
  "startup_settings =
     [(''WARM_MODELS_ON_STARTUP'', SFlag True), (''REGISTER_DEMO_TOOLS'', SFlag False), (''REGISTER_REAL_TOOLS'', SFlag False),
      text_setting ''TOOL_HTTP_GET_ALLOWED_DOMAINS'' []]"

definition observability_settings :: settings where
  "observability_settings =
     [(''METRICS_ENABLED'', SFlag True), text_setting ''METRICS_PATH'' ''/metrics'', (''METRICS_REQUIRE_AUTH'', SFlag False),
      text_setting ''REQUEST_ID_HEADER'' ''X-Request-ID'', (''REQUEST_ID_MAX_LENGTH'', SInt 64),
      text_setting ''SPACY_MODEL'' ''en_core_web_sm'', (''DETECTOR_VERIFY_HASHES'', SFlag False)]"

definition default_settings :: settings where
  "default_settings =
     threshold_settings @ detection_settings @ output_settings @ endpoint_settings @ storage_settings
     @ access_settings @ execution_settings @ startup_settings @ observability_settings"

text \<open>\<open>v <= 0\<close>: a comparison with NaN is false.\<close>

fun at_most_zero :: "number \<Rightarrow> bool" where
  "at_most_zero (Finite x) = (x \<le> 0)"
| "at_most_zero (Infinite negative) = negative"
| "at_most_zero NotANumber = False"

definition validate_mode :: "string list \<Rightarrow> string \<Rightarrow> setting option" where
  "validate_mode allowed v = (let normalized = str_lower (str_strip v) in if normalized \<in> set allowed then Some (SText normalized) else None)"

definition positive_number :: "setting \<Rightarrow> setting option" where
  "positive_number v = (case v of SNumber x \<Rightarrow> if at_most_zero x then None else Some v | _ \<Rightarrow> None)"

definition at_least :: "int \<Rightarrow> setting \<Rightarrow> setting option" where
  "at_least low v = (case v of SInt i \<Rightarrow> if i < low then None else Some v | _ \<Rightarrow> None)"

definition validate_field :: "string \<Rightarrow> setting \<Rightarrow> setting option" where
  "validate_field name v =
     (if name = ''DOMAIN_GUARDRAIL_MODE'' then
        (case v of SText t \<Rightarrow> validate_mode [''off'', ''advisory'', ''enforcing''] t | _ \<Rightarrow> None)
      else if name = ''AUTH_MODE'' then (case v of SText t \<Rightarrow> validate_mode [''optional'', ''required''] t | _ \<Rightarrow> None)
      else if name \<in> {''RATE_LIMIT_AUTHENTICATED_RPM'', ''RATE_LIMIT_ANONYMOUS_RPM''} then positive_number v
      else if name \<in> {''ASSESS_TIMEOUT_SECONDS'', ''GATEWAY_TIMEOUT_SECONDS''} then positive_number v
      else if name \<in> {''ASSESS_MAX_CONCURRENCY'', ''GATEWAY_MAX_CONCURRENCY''} then at_least 1 v
      else if name = ''GATEWAY_TOKEN_QUOTA_DAILY_DEFAULT'' then at_least 0 v
      else Some v)"

fun same_kind :: "setting \<Rightarrow> setting \<Rightarrow> bool" where
  "same_kind (SText _) (SText _) = True"
| "same_kind (SNumber _) (SNumber _) = True"
| "same_kind (SInt _) (SInt _) = True"
| "same_kind (SFlag _) (SFlag _) = True"
| "same_kind _ _ = False"

definition field_value :: "(string \<Rightarrow> setting option) \<Rightarrow> string \<times> setting \<Rightarrow> setting option" where
  "field_value overrides field =
     (case overrides (fst field) of
        None \<Rightarrow> Some (snd field)
      | Some v \<Rightarrow> if same_kind (snd field) v then validate_field (fst field) v else None)"

text \<open>The settings, or the fields that fail.\<close>

definition build_settings :: "(string \<Rightarrow> setting option) \<Rightarrow> (string list, settings) res" where
  "build_settings overrides =
     (let failing = filter (\<lambda>f. field_value overrides f = None) default_settings
      in if failing \<noteq> [] then Inl (map fst failing)
         else Inr (map (\<lambda>f. (fst f, the (field_value overrides f))) default_settings))"

section \<open>What the other parts read\<close>

definition text_of :: "settings \<Rightarrow> string \<Rightarrow> string" where
  "text_of s n = (case map_of s n of Some (SText t) \<Rightarrow> t | _ \<Rightarrow> [])"

definition flag_of :: "settings \<Rightarrow> string \<Rightarrow> bool" where
  "flag_of s n = (map_of s n = Some (SFlag True))"

definition int_of_setting :: "settings \<Rightarrow> string \<Rightarrow> int" where
  "int_of_setting s n = (case map_of s n of Some (SInt i) \<Rightarrow> i | _ \<Rightarrow> 0)"

text \<open>The real a number setting is, where it is one.\<close>

definition real_of_setting :: "settings \<Rightarrow> string \<Rightarrow> real option" where
  "real_of_setting s n = (case map_of s n of Some (SNumber (Finite x)) \<Rightarrow> Some x | _ \<Rightarrow> None)"

definition risk_settings_of :: "settings \<Rightarrow> risk_settings option" where
  "risk_settings_of s =
     Option.bind (real_of_setting s ''META_INTENT_THRESHOLD'') (\<lambda>meta.
     Option.bind (real_of_setting s ''SEMANTIC_THRESHOLD_HIGH'') (\<lambda>high.
     Option.bind (real_of_setting s ''SEMANTIC_THRESHOLD_MEDIUM'') (\<lambda>medium.
     Option.bind (real_of_setting s ''EDUCATIONAL_THRESHOLD'') (\<lambda>educational.
     Option.bind (real_of_setting s ''CACHE_SIMILARITY_THRESHOLD'') (\<lambda>cache.
       Some \<lparr>rk_meta_intent_threshold = meta, rk_high = high, rk_medium = medium, rk_educational = educational,
             rk_domain_mode = text_of s ''DOMAIN_GUARDRAIL_MODE'', rk_may_clear = flag_of s ''JUDGE_MAY_CLEAR_TO_LOW'',
             rk_per_class = flag_of s ''FUSION_PER_CLASS'', rk_cache_threshold = cache\<rparr>)))))"

definition audit_config_of :: "settings \<Rightarrow> audit_config" where
  "audit_config_of s =
     \<lparr>ac_sqlite_enabled = flag_of s ''AUDIT_SQLITE_ENABLED'', ac_read_from_sqlite = flag_of s ''AUDIT_READ_FROM_SQLITE'',
      ac_fails_closed = flag_of s ''AUDIT_WRITE_FAILS_CLOSED''\<rparr>"

definition provider_settings_of :: "settings \<Rightarrow> provider_settings" where
  "provider_settings_of s =
     \<lparr>pv_ollama_url = text_of s ''OLLAMA_CHAT_URL'', pv_ollama_model = text_of s ''OLLAMA_MODEL'',
      pv_openai_key = text_of s ''OPENAI_API_KEY'', pv_openai_url = text_of s ''OPENAI_BASE_URL'',
      pv_openai_model = text_of s ''OPENAI_MODEL'', pv_anthropic_key = text_of s ''ANTHROPIC_API_KEY'',
      pv_anthropic_url = text_of s ''ANTHROPIC_BASE_URL'', pv_anthropic_model = text_of s ''ANTHROPIC_MODEL'',
      pv_anthropic_version = text_of s ''ANTHROPIC_VERSION''\<rparr>"

text \<open>The configuration of the API, where its numbers are finite.\<close>

definition api_config_of :: "symbolic_rules \<Rightarrow> settings \<Rightarrow> api_config option" where
  "api_config_of rules s =
     Option.bind (real_of_setting s ''RATE_LIMIT_AUTHENTICATED_RPM'') (\<lambda>auth_rpm.
     Option.bind (real_of_setting s ''RATE_LIMIT_ANONYMOUS_RPM'') (\<lambda>anon_rpm.
     Option.bind (real_of_setting s ''RATE_LIMIT_BURST_SECONDS'') (\<lambda>burst.
     Option.bind (risk_settings_of s) (\<lambda>risk.
       Some \<lparr>cf_auth_mode = text_of s ''AUTH_MODE'', cf_rate_enabled = flag_of s ''RATE_LIMIT_ENABLED'', cf_auth_rpm = auth_rpm,
             cf_anon_rpm = anon_rpm, cf_burst = burst, cf_trust_forwarded = flag_of s ''RATE_LIMIT_TRUST_FORWARDED_FOR'',
             cf_request_id_max = nat (int_of_setting s ''REQUEST_ID_MAX_LENGTH''),
             cf_quota_enabled = flag_of s ''GATEWAY_TOKEN_QUOTA_ENABLED'',
             cf_quota_default = int_of_setting s ''GATEWAY_TOKEN_QUOTA_DAILY_DEFAULT'',
             cf_default_provider = text_of s ''LLM_GATEWAY_DEFAULT_PROVIDER'', cf_fallback = text_of s ''GATEWAY_FALLBACK_PROVIDERS'',
             cf_audit = audit_config_of s, cf_risk = risk, cf_rules = rules, cf_providers = provider_settings_of s\<rparr>))))"

section \<open>Lemmas\<close>

lemma map_of_fields: "map_of (map (\<lambda>f. (fst f, g f)) xs) n = (case map_of xs n of None \<Rightarrow> None | Some d \<Rightarrow> Some (g (n, d)))"
  by (induction xs) auto

lemma built_value:
  assumes "build_settings ov = Inr s" "map_of default_settings n = Some d"
  shows "\<exists>v. map_of s n = Some v \<and> field_value ov (n, d) = Some v"
proof -
  have ok: "\<forall>f \<in> set default_settings. field_value ov f \<noteq> None"
    and s: "s = map (\<lambda>f. (fst f, the (field_value ov f))) default_settings"
    using assms(1) by (auto simp: build_settings_def Let_def filter_empty_conv split: if_splits)
  have "(n, d) \<in> set default_settings" using assms(2) by (rule map_of_SomeD)
  then obtain v where v: "field_value ov (n, d) = Some v" using ok by auto
  have "map_of s n = Some (the (field_value ov (n, d)))"
    unfolding s map_of_fields assms(2) by simp
  then show ?thesis using v by simp
qed

lemma default_at:
  "map_of default_settings ''AUTH_MODE'' = Some (SText ''optional'')"
  "map_of default_settings ''DOMAIN_GUARDRAIL_MODE'' = Some (SText ''off'')"
  "map_of default_settings ''RATE_LIMIT_AUTHENTICATED_RPM'' = Some (SNumber (Finite 120))"
  "map_of default_settings ''RATE_LIMIT_ANONYMOUS_RPM'' = Some (SNumber (Finite 20))"
  "map_of default_settings ''ASSESS_TIMEOUT_SECONDS'' = Some (SNumber (Finite 30))"
  "map_of default_settings ''GATEWAY_TIMEOUT_SECONDS'' = Some (SNumber (Finite 60))"
  "map_of default_settings ''ASSESS_MAX_CONCURRENCY'' = Some (SInt 4)"
  "map_of default_settings ''GATEWAY_MAX_CONCURRENCY'' = Some (SInt 4)"
  "map_of default_settings ''GATEWAY_TOKEN_QUOTA_DAILY_DEFAULT'' = Some (SInt 0)"
  "map_of default_settings ''RATE_LIMIT_MAX_TRACKED'' = Some (SInt 10000)"
  by (simp_all add: default_settings_def threshold_settings_def detection_settings_def output_settings_def endpoint_settings_def
      storage_settings_def access_settings_def execution_settings_def)

lemma mode_value:
  assumes "field_value ov (n, SText d) = Some v" "d \<in> set allowed"
    and "\<And>t. validate_field n (SText t) = validate_mode allowed t"
  shows "\<exists>t \<in> set allowed. v = SText t"
proof (cases "ov n")
  case (Some x)
  then show ?thesis using assms by (cases x) (auto simp: field_value_def validate_mode_def Let_def split: if_splits)
qed (use assms in \<open>auto simp: field_value_def\<close>)

lemma positive_value:
  assumes "field_value ov (n, SNumber (Finite d)) = Some v" "0 < d" "\<And>x. validate_field n x = positive_number x"
  shows "\<exists>x. v = SNumber x \<and> \<not> at_most_zero x"
proof (cases "ov n")
  case (Some x)
  then show ?thesis using assms by (cases x) (auto simp: field_value_def positive_number_def split: if_splits)
qed (use assms in \<open>auto simp: field_value_def\<close>)

lemma int_value:
  assumes "field_value ov (n, SInt d) = Some v" "low \<le> d" "\<And>x. validate_field n x = at_least low x"
  shows "\<exists>i. v = SInt i \<and> low \<le> i"
proof (cases "ov n")
  case (Some x)
  then show ?thesis using assms by (cases x) (auto simp: field_value_def at_least_def split: if_splits)
qed (use assms in \<open>auto simp: field_value_def\<close>)

lemma built_at_least:
  assumes "build_settings ov = Inr s" "map_of default_settings n = Some (SInt d)" "low \<le> d" "\<And>x. validate_field n x = at_least low x"
  shows "low \<le> int_of_setting s n"
  using built_value [OF assms(1,2)] int_value [OF _ assms(3,4)] by (fastforce simp: int_of_setting_def)

lemma built_pools:
  assumes "build_settings ov = Inr s"
  shows "0 < int_of_setting s ''ASSESS_MAX_CONCURRENCY''" "0 < int_of_setting s ''GATEWAY_MAX_CONCURRENCY''"
  using built_at_least [OF assms default_at(7), of 1] built_at_least [OF assms default_at(8), of 1]
  by (simp_all add: validate_field_def)

section \<open>Properties\<close>

text \<open>
  C33. Accepted settings are in range.  Whatever the overrides, settings that are built have exactly
  the declared names, a normalised mode for the authentication and the domain guardrail, at least
  one worker in each pool, a quota that is not negative, and rates and timeouts that do not compare
  at most 0.
\<close>

theorem accepted_settings_in_range:
  assumes "build_settings ov = Inr s"
  shows "map fst s = map fst default_settings
    \<and> text_of s ''AUTH_MODE'' \<in> {''optional'', ''required''}
    \<and> text_of s ''DOMAIN_GUARDRAIL_MODE'' \<in> {''off'', ''advisory'', ''enforcing''}
    \<and> 1 \<le> int_of_setting s ''ASSESS_MAX_CONCURRENCY'' \<and> 1 \<le> int_of_setting s ''GATEWAY_MAX_CONCURRENCY''
    \<and> 0 \<le> int_of_setting s ''GATEWAY_TOKEN_QUOTA_DAILY_DEFAULT''
    \<and> (\<forall>n \<in> {''RATE_LIMIT_AUTHENTICATED_RPM'', ''RATE_LIMIT_ANONYMOUS_RPM'', ''ASSESS_TIMEOUT_SECONDS'', ''GATEWAY_TIMEOUT_SECONDS''}.
         \<exists>x. map_of s n = Some (SNumber x) \<and> \<not> at_most_zero x)"
proof -
  have names: "map fst s = map fst default_settings"
    using assms by (auto simp: build_settings_def Let_def split: if_splits)
  have mode: "\<exists>t \<in> set allowed. map_of s n = Some (SText t)"
    if "map_of default_settings n = Some (SText d)" "d \<in> set allowed" "\<And>t. validate_field n (SText t) = validate_mode allowed t" for n d allowed
    using built_value [OF assms that(1)] mode_value [OF _ that(2,3)] by blast
  have pos: "\<exists>x. map_of s n = Some (SNumber x) \<and> \<not> at_most_zero x"
    if "map_of default_settings n = Some (SNumber (Finite d))" "0 < d" "\<And>x. validate_field n x = positive_number x" for n d
    using built_value [OF assms that(1)] positive_value [OF _ that(2,3)] by blast
  note int = built_at_least [OF assms]
  have "text_of s ''AUTH_MODE'' \<in> {''optional'', ''required''}"
    using mode [OF default_at(1), of "[''optional'', ''required'']"] by (auto simp: validate_field_def text_of_def)
  moreover have "text_of s ''DOMAIN_GUARDRAIL_MODE'' \<in> {''off'', ''advisory'', ''enforcing''}"
    using mode [OF default_at(2), of "[''off'', ''advisory'', ''enforcing'']"] by (auto simp: validate_field_def text_of_def)
  moreover have "1 \<le> int_of_setting s ''ASSESS_MAX_CONCURRENCY''" by (rule int [OF default_at(7)]) (simp_all add: validate_field_def)
  moreover have "1 \<le> int_of_setting s ''GATEWAY_MAX_CONCURRENCY''" by (rule int [OF default_at(8)]) (simp_all add: validate_field_def)
  moreover have "0 \<le> int_of_setting s ''GATEWAY_TOKEN_QUOTA_DAILY_DEFAULT''" by (rule int [OF default_at(9)]) (simp_all add: validate_field_def)
  moreover have "\<exists>x. map_of s ''RATE_LIMIT_AUTHENTICATED_RPM'' = Some (SNumber x) \<and> \<not> at_most_zero x"
    by (rule pos [OF default_at(3)]) (simp_all add: validate_field_def)
  moreover have "\<exists>x. map_of s ''RATE_LIMIT_ANONYMOUS_RPM'' = Some (SNumber x) \<and> \<not> at_most_zero x"
    by (rule pos [OF default_at(4)]) (simp_all add: validate_field_def)
  moreover have "\<exists>x. map_of s ''ASSESS_TIMEOUT_SECONDS'' = Some (SNumber x) \<and> \<not> at_most_zero x"
    by (rule pos [OF default_at(5)]) (simp_all add: validate_field_def)
  moreover have "\<exists>x. map_of s ''GATEWAY_TIMEOUT_SECONDS'' = Some (SNumber x) \<and> \<not> at_most_zero x"
    by (rule pos [OF default_at(6)]) (simp_all add: validate_field_def)
  ultimately show ?thesis using names by simp
qed


text \<open>A rate that is NaN passes its validator, as no comparison with it holds.\<close>

lemma nan_rate_accepted:
  "field_value (\<lambda>n. Some (SNumber NotANumber)) (''RATE_LIMIT_ANONYMOUS_RPM'', SNumber (Finite 20)) = Some (SNumber NotANumber)"
  by (simp add: field_value_def validate_field_def positive_number_def)

section \<open>The defaults\<close>

lemma defaults_built: "build_settings (\<lambda>n. None) = Inr default_settings"
proof -
  have "filter (\<lambda>f. field_value (\<lambda>n. None) f = None) default_settings = []" by (simp add: field_value_def filter_empty_conv)
  moreover have "map (\<lambda>f. (fst f, the (field_value (\<lambda>n. None) f))) default_settings = default_settings"
    by (simp add: field_value_def)
  ultimately show ?thesis by (simp add: build_settings_def)
qed

definition default_risk_settings :: risk_settings where
  "default_risk_settings =
     \<lparr>rk_meta_intent_threshold = 30 / 100, rk_high = 48 / 100, rk_medium = 30 / 100, rk_educational = 45 / 100,
      rk_domain_mode = ''off'', rk_may_clear = False, rk_per_class = True, rk_cache_threshold = 99 / 100\<rparr>"

lemmas default_groups =
  default_settings_def threshold_settings_def detection_settings_def output_settings_def endpoint_settings_def
  storage_settings_def access_settings_def execution_settings_def startup_settings_def observability_settings_def

lemma default_risk: "risk_settings_of default_settings = Some default_risk_settings"
  by (simp add: risk_settings_of_def real_of_setting_def text_of_def flag_of_def default_groups default_risk_settings_def)

lemma default_reals:
  "real_of_setting default_settings ''RATE_LIMIT_AUTHENTICATED_RPM'' = Some 120"
  "real_of_setting default_settings ''RATE_LIMIT_ANONYMOUS_RPM'' = Some 20"
  "real_of_setting default_settings ''RATE_LIMIT_BURST_SECONDS'' = Some 10"
  by (simp_all add: real_of_setting_def default_groups)

lemma default_flags:
  "flag_of default_settings ''RATE_LIMIT_ENABLED''" "\<not> flag_of default_settings ''RATE_LIMIT_TRUST_FORWARDED_FOR''"
  "flag_of default_settings ''AUDIT_SQLITE_ENABLED''" "\<not> flag_of default_settings ''AUDIT_READ_FROM_SQLITE''"
  "flag_of default_settings ''AUDIT_WRITE_FAILS_CLOSED''"
  by (simp_all add: flag_of_def default_groups)

lemma default_auth_mode: "text_of default_settings ''AUTH_MODE'' = ''optional''"
  by (simp add: text_of_def default_at)

lemma default_config:
  "\<exists>cf. api_config_of rules default_settings = Some cf \<and> cf_auth_mode cf = ''optional'' \<and> cf_rate_enabled cf
    \<and> cf_auth_rpm cf = 120 \<and> cf_anon_rpm cf = 20 \<and> cf_burst cf = 10 \<and> \<not> cf_trust_forwarded cf
    \<and> cf_risk cf = default_risk_settings
    \<and> cf_audit cf = \<lparr>ac_sqlite_enabled = True, ac_read_from_sqlite = False, ac_fails_closed = True\<rparr>"
  by (simp add: api_config_of_def default_risk default_reals default_flags default_auth_mode audit_config_of_def)

theorem accepted_settings_in_range_witness:
  "text_of default_settings ''AUTH_MODE'' \<in> {''optional'', ''required''}"
  using accepted_settings_in_range [OF defaults_built] by blast


end
