(* ===== verification/Startup.thy ===== *)
theory Startup
  imports Settings Http_Tool
begin

text \<open>
  The process around the endpoints of \<open>api/main.py\<close>: what the start registers, the origins of CORS,
  and the two bounded pools on which \<open>_run_bounded\<close> and \<open>_run_gateway_bounded\<close> run their calls.

  A pool is a state machine over the callers' requests, numbered as they come.  A deadline may pass
  at any moment; \<open>wait_for\<close> then cancels the call, which takes it out of the queue if no worker has
  begun it and has no effect on a worker that has.
\<close>

section \<open>Start\<close>

datatype warm_report = WarmDisabled | WarmComplete | WarmIncomplete | WarmFailed

text \<open>What the log says of the warm-up; \<open>outcome\<close> is the call on the pool, and its failure is caught.\<close>

definition warm_models :: "settings \<Rightarrow> (py_error, bool) res \<Rightarrow> warm_report" where
  "warm_models s outcome =
     (if \<not> flag_of s ''WARM_MODELS_ON_STARTUP'' then WarmDisabled
      else case outcome of Inl e \<Rightarrow> WarmFailed | Inr warmed \<Rightarrow> if warmed then WarmComplete else WarmIncomplete)"

type_synonym world = "database \<times> net_world"

definition on_database :: "database handler \<Rightarrow> world handler" where
  "on_database h args w = (case h args (fst w) of (r, d) \<Rightarrow> (r, (d, snd w)))"

definition on_network :: "net_world handler \<Rightarrow> world handler" where
  "on_network h args w = (case h args (snd w) of (r, n) \<Rightarrow> (r, (fst w, n)))"

definition demo_tools :: "(real \<Rightarrow> string) \<Rightarrow> (tool_spec \<times> world handler) list" where
  "demo_tools float_repr = map (\<lambda>(sp, h). (sp, on_database h)) (zip demo_tool_specs (demo_handlers float_repr))"

definition real_tools :: "network \<Rightarrow> settings \<Rightarrow> (tool_spec \<times> world handler) list" where
  "real_tools nt s = [(http_get_spec, on_network (http_get nt (text_of s ''TOOL_HTTP_GET_ALLOWED_DOMAINS'')))]"

definition startup ::
  "(real \<Rightarrow> string) \<Rightarrow> network \<Rightarrow> settings \<Rightarrow> (py_error, bool) res \<Rightarrow> world registry \<Rightarrow> warm_report \<times> (py_error, world registry) res" where
  "startup float_repr nt s outcome r =
     (warm_models s outcome,
      bind_res (if flag_of s ''REGISTER_DEMO_TOOLS'' then register_all (demo_tools float_repr) r else Inr r) (\<lambda>r.
        if flag_of s ''REGISTER_REAL_TOOLS'' then register_all (real_tools nt s) r else Inr r))"

text \<open>The origins of CORS, and whether a browser may send credentials.\<close>

definition cors_policy :: "settings \<Rightarrow> string list \<times> bool" where
  "cors_policy s =
     (let origins = filter (\<lambda>w. w \<noteq> []) (map str_strip (split_on CHR '','' (text_of s ''CORS_ORIGINS'')))
      in (origins, ''*'' \<notin> set origins))"

section \<open>The pools\<close>

record 'r pool =
  pq_queue :: "nat list"
  pq_running :: "nat list"
  pq_waiting :: "nat list"
  pq_answers :: "(nat \<times> 'r option) list"
  pq_next :: nat
  pq_in_flight :: int

definition new_pool :: "'r pool" where
  "new_pool = \<lparr>pq_queue = [], pq_running = [], pq_waiting = [], pq_answers = [], pq_next = 0, pq_in_flight = 0\<rparr>"

text \<open>\<open>ThreadPoolExecutor\<close> refuses a size that is not positive; the two pools take theirs from the settings.\<close>

definition thread_pool :: "int \<Rightarrow> (py_error, nat \<times> 'r pool) res" where
  "thread_pool workers = (if workers \<le> 0 then Inl (ValueError ''max_workers must be greater than 0'') else Inr (nat workers, new_pool))"

definition assess_pool :: "settings \<Rightarrow> (py_error, nat \<times> 'r pool) res" where
  "assess_pool s = thread_pool (int_of_setting s ''ASSESS_MAX_CONCURRENCY'')"

definition gateway_pool :: "settings \<Rightarrow> (py_error, nat \<times> 'r pool) res" where
  "gateway_pool s = thread_pool (int_of_setting s ''GATEWAY_MAX_CONCURRENCY'')"

text \<open>A caller arrives: the gauge goes up before the call is queued.\<close>

definition submit_call :: "'r pool \<Rightarrow> 'r pool" where
  "submit_call p =
     p\<lparr>pq_queue := pq_queue p @ [pq_next p], pq_waiting := pq_waiting p @ [pq_next p], pq_next := Suc (pq_next p),
       pq_in_flight := pq_in_flight p + 1\<rparr>"

text \<open>A free worker takes the head of the queue.\<close>

definition start_call :: "nat \<Rightarrow> 'r pool \<Rightarrow> 'r pool option" where
  "start_call workers p =
     (case pq_queue p of
        [] \<Rightarrow> None
      | i # q \<Rightarrow> if length (pq_running p) < workers then Some (p\<lparr>pq_queue := q, pq_running := i # pq_running p\<rparr>) else None)"

text \<open>The caller has its answer, a result or \<open>None\<close> for the deadline; the gauge goes down.\<close>

definition answer :: "nat \<Rightarrow> 'r option \<Rightarrow> 'r pool \<Rightarrow> 'r pool" where
  "answer i r p =
     (if i \<in> set (pq_waiting p)
      then p\<lparr>pq_waiting := removeAll i (pq_waiting p), pq_answers := pq_answers p @ [(i, r)], pq_in_flight := pq_in_flight p - 1\<rparr>
      else p)"

definition finish_call :: "nat \<Rightarrow> 'r \<Rightarrow> 'r pool \<Rightarrow> 'r pool option" where
  "finish_call i r p =
     (if i \<in> set (pq_running p) then Some (answer i (Some r) (p\<lparr>pq_running := removeAll i (pq_running p)\<rparr>)) else None)"

definition expire_call :: "nat \<Rightarrow> 'r pool \<Rightarrow> 'r pool option" where
  "expire_call i p =
     (if i \<in> set (pq_waiting p) then Some (answer i None (p\<lparr>pq_queue := removeAll i (pq_queue p)\<rparr>)) else None)"

inductive pool_step :: "nat \<Rightarrow> 'r pool \<Rightarrow> 'r pool \<Rightarrow> bool" for workers where
  submit: "pool_step workers p (submit_call p)"
| start: "start_call workers p = Some p' \<Longrightarrow> pool_step workers p p'"
| finish: "finish_call i r p = Some p' \<Longrightarrow> pool_step workers p p'"
| expire: "expire_call i p = Some p' \<Longrightarrow> pool_step workers p p'"

text \<open>The steps that need no new caller and no deadline.\<close>

inductive work_step :: "nat \<Rightarrow> 'r pool \<Rightarrow> 'r pool \<Rightarrow> bool" for workers where
  start: "start_call workers p = Some p' \<Longrightarrow> work_step workers p p'"
| finish: "finish_call i r p = Some p' \<Longrightarrow> work_step workers p p'"

section \<open>The invariant of a pool\<close>

definition queue_inv :: "nat \<Rightarrow> 'r pool \<Rightarrow> bool" where
  "queue_inv workers p \<longleftrightarrow>
     distinct (pq_queue p @ pq_running p) \<and> length (pq_running p) \<le> workers
     \<and> set (pq_queue p) \<subseteq> set (pq_waiting p) \<and> set (pq_waiting p) \<subseteq> set (pq_queue p) \<union> set (pq_running p)"

text \<open>Every caller so far waits or has one answer; the gauge counts those that wait.\<close>

definition caller_inv :: "'r pool \<Rightarrow> bool" where
  "caller_inv p \<longleftrightarrow>
     distinct (pq_waiting p @ map fst (pq_answers p))
     \<and> set (pq_waiting p @ map fst (pq_answers p)) = {..<pq_next p} \<and> set (pq_running p) \<subseteq> {..<pq_next p}
     \<and> pq_in_flight p = int (length (pq_waiting p))"

definition pool_inv :: "nat \<Rightarrow> 'r pool \<Rightarrow> bool" where
  "pool_inv workers p \<longleftrightarrow> queue_inv workers p \<and> caller_inv p"

lemma inv_new: "pool_inv workers new_pool"
  by (simp add: pool_inv_def queue_inv_def caller_inv_def new_pool_def)

lemma caller_inv_alt:
  "caller_inv p \<longleftrightarrow>
     distinct (pq_waiting p) \<and> distinct (map fst (pq_answers p)) \<and> set (pq_waiting p) \<inter> set (map fst (pq_answers p)) = {}
     \<and> set (pq_waiting p) \<union> set (map fst (pq_answers p)) = {..<pq_next p} \<and> set (pq_running p) \<subseteq> {..<pq_next p}
     \<and> pq_in_flight p = int (length (pq_waiting p))"
  unfolding caller_inv_def distinct_append set_append by blast

lemma queue_inv_alt:
  "queue_inv workers p \<longleftrightarrow>
     distinct (pq_queue p) \<and> distinct (pq_running p) \<and> set (pq_queue p) \<inter> set (pq_running p) = {}
     \<and> length (pq_running p) \<le> workers
     \<and> set (pq_queue p) \<subseteq> set (pq_waiting p) \<and> set (pq_waiting p) \<subseteq> set (pq_queue p) \<union> set (pq_running p)"
  unfolding queue_inv_def distinct_append by blast

lemma next_is_new:
  assumes "pool_inv workers p"
  shows "pq_next p \<notin> set (pq_waiting p)" "pq_next p \<notin> set (map fst (pq_answers p))"
    "pq_next p \<notin> set (pq_running p)" "pq_next p \<notin> set (pq_queue p)"
proof -
  have "pq_next p \<notin> {..<pq_next p}" by simp
  then show "pq_next p \<notin> set (pq_waiting p)" "pq_next p \<notin> set (map fst (pq_answers p))"
    "pq_next p \<notin> set (pq_running p)" "pq_next p \<notin> set (pq_queue p)"
    using assms unfolding pool_inv_def caller_inv_alt queue_inv_alt by blast+
qed

lemma inv_submit:
  assumes "pool_inv workers p"
  shows "pool_inv workers (submit_call p)"
proof -
  note n = next_is_new [OF assms]
  have q: "queue_inv workers p" and c: "caller_inv p" using assms by (simp_all add: pool_inv_def)
  have "queue_inv workers (submit_call p)"
    using q n unfolding queue_inv_alt submit_call_def by (simp del: set_map) blast
  moreover have "caller_inv (submit_call p)"
    using c n unfolding caller_inv_alt submit_call_def by (simp add: lessThan_Suc del: set_map) blast
  ultimately show ?thesis by (simp add: pool_inv_def)
qed

lemma inv_start:
  assumes "pool_inv workers p" "start_call workers p = Some p'"
  shows "pool_inv workers p'"
proof -
  obtain i q where q: "pq_queue p = i # q" "length (pq_running p) < workers" "p' = p\<lparr>pq_queue := q, pq_running := i # pq_running p\<rparr>"
    using assms(2) by (auto simp: start_call_def split: list.splits if_splits)
  have "queue_inv workers p'"
    using assms(1) q(2) unfolding pool_inv_def queue_inv_alt q(1,3) by (simp add: q(1))
  moreover have "i \<in> {..<pq_next p}" using assms(1) q(1) unfolding pool_inv_def caller_inv_alt queue_inv_def by (simp del: set_map) blast
  then have "caller_inv p'"
    using assms(1) unfolding pool_inv_def caller_inv_alt q(3) by (simp del: set_map)
  ultimately show ?thesis by (simp add: pool_inv_def)
qed

lemma length_removeAll_distinct: "distinct xs \<Longrightarrow> i \<in> set xs \<Longrightarrow> int (length (removeAll i xs)) = int (length xs) - 1"
  using length_pos_if_in_set [of i xs] by (simp add: length_remove1 of_nat_diff Suc_le_eq flip: distinct_remove1_removeAll)

lemma caller_answer:
  assumes "caller_inv p"
  shows "caller_inv (answer i r p)"
proof (cases "i \<in> set (pq_waiting p)")
  case True
  have "int (length (removeAll i (pq_waiting p))) = int (length (pq_waiting p)) - 1"
    using assms True by (intro length_removeAll_distinct) (simp_all add: caller_inv_def)
  then show ?thesis
    using assms True unfolding caller_inv_alt answer_def by (simp add: distinct_removeAll del: set_map) blast
qed (use assms in \<open>simp add: answer_def\<close>)

lemma queue_answer:
  assumes "queue_inv workers p" "i \<notin> set (pq_queue p)" "set (pq_waiting p) \<subseteq> set (pq_queue p) \<union> set (pq_running p)"
  shows "queue_inv workers (answer i r p)"
  using assms unfolding queue_inv_alt answer_def by auto

lemma inv_finish:
  assumes "pool_inv workers p" "finish_call i r p = Some p'"
  shows "pool_inv workers p'"
proof -
  let ?p = "p\<lparr>pq_running := removeAll i (pq_running p)\<rparr>"
  have i: "i \<in> set (pq_running p)" "p' = answer i (Some r) ?p" using assms(2) by (auto simp: finish_call_def split: if_splits)
  have "length (removeAll i (pq_running p)) \<le> workers"
    using assms(1) le_trans [OF length_removeAll_less_eq [of i "pq_running p"]] by (simp add: pool_inv_def queue_inv_def)
  then have "queue_inv workers p'"
    using assms(1) i(1) unfolding pool_inv_def queue_inv_alt i(2) answer_def
    by (simp add: distinct_removeAll) blast
  moreover have "caller_inv ?p"
    using assms(1) unfolding pool_inv_def caller_inv_alt by (simp del: set_map) blast
  then have "caller_inv p'" unfolding i(2) by (rule caller_answer)
  ultimately show ?thesis by (simp add: pool_inv_def)
qed

lemma inv_expire:
  assumes "pool_inv workers p" "expire_call i p = Some p'"
  shows "pool_inv workers p'"
proof -
  let ?p = "p\<lparr>pq_queue := removeAll i (pq_queue p)\<rparr>"
  have i: "i \<in> set (pq_waiting p)" "p' = answer i None ?p" using assms(2) by (auto simp: expire_call_def split: if_splits)
  have "queue_inv workers p'"
    using assms(1) i(1) unfolding pool_inv_def queue_inv_alt i(2) answer_def
    by (simp add: distinct_removeAll) blast
  moreover have "caller_inv ?p" using assms(1) by (simp add: pool_inv_def caller_inv_def)
  then have "caller_inv p'" unfolding i(2) by (rule caller_answer)
  ultimately show ?thesis by (simp add: pool_inv_def)
qed

lemma inv_step: "pool_step workers p p' \<Longrightarrow> pool_inv workers p \<Longrightarrow> pool_inv workers p'"
  by (induction rule: pool_step.induct) (rule inv_submit inv_start inv_finish inv_expire; assumption)+

lemma inv_reachable: "(pool_step workers)\<^sup>*\<^sup>* new_pool p \<Longrightarrow> pool_inv workers p"
  by (induction rule: rtranclp_induct) (auto intro: inv_new inv_step)

lemma work_is_step: "work_step workers p p' \<Longrightarrow> pool_step workers p p'"
  by (auto elim!: work_step.cases intro: pool_step.start pool_step.finish)

lemma work_keeps_inv: "(work_step workers ^^ n) p p' \<Longrightarrow> pool_inv workers p \<Longrightarrow> pool_inv workers p'"
  by (induction n arbitrary: p') (auto intro: inv_step work_is_step)

definition work_left :: "'r pool \<Rightarrow> nat" where
  "work_left p = 2 * length (pq_queue p) + length (pq_running p)"

lemma work_decreases: "work_step workers p p' \<Longrightarrow> work_left p' < work_left p"
proof (induction rule: work_step.induct)
  case (start p p')
  then show ?case by (auto simp: start_call_def work_left_def split: list.splits if_splits)
next
  case (finish i r p p')
  then have i: "i \<in> set (pq_running p)" "p' = answer i (Some r) (p\<lparr>pq_running := removeAll i (pq_running p)\<rparr>)"
    by (auto simp: finish_call_def split: if_splits)
  show ?case using length_removeAll_less [OF i(1)] unfolding i(2) by (simp add: work_left_def answer_def)
qed

lemma work_bounded: "(work_step workers ^^ n) p p' \<Longrightarrow> n + work_left p' \<le> work_left p"
  by (induction n arbitrary: p') (fastforce dest: work_decreases)+

lemma idle_pool:
  assumes "pool_inv workers p" "0 < workers" "\<forall>p'. \<not> work_step workers p p'"
  shows "pq_waiting p = []"
proof -
  have running: "pq_running p = []"
  proof (rule ccontr)
    assume "pq_running p \<noteq> []"
    then obtain p' where "finish_call (hd (pq_running p)) undefined p = Some p'" by (simp add: finish_call_def)
    then have "work_step workers p p'" by (rule work_step.finish)
    then show False using assms(3) by simp
  qed
  have "pq_queue p = []"
  proof (cases "pq_queue p")
    case (Cons i q)
    then obtain p' where "start_call workers p = Some p'" using running assms(2) by (simp add: start_call_def)
    then have "work_step workers p p'" by (rule work_step.start)
    then show ?thesis using assms(3) by simp
  qed
  then show ?thesis using assms(1) running by (simp add: pool_inv_def queue_inv_def)
qed

lemma built_pool_workers:
  assumes "build_settings ov = Inr s" "pool = assess_pool s \<or> pool = gateway_pool s"
  obtains workers where "pool = Inr (workers, new_pool)" "0 < workers"
proof -
  have "\<exists>n. pool = thread_pool n \<and> 0 < n" using built_pools [OF assms(1)] assms(2) by (auto simp: assess_pool_def gateway_pool_def)
  then show thesis using that by (auto simp: thread_pool_def)
qed

section \<open>Properties\<close>

text \<open>
  C27. A pool never runs more calls than it has workers, and no caller is lost or answered twice.  In
  every state that arrivals, workers and deadlines can reach, in any order, the callers so far are
  those that wait and those that have an answer, each in one place and at most one answer each; the
  gauge counts those that wait; and whoever waits is in the queue or on a worker, in one of the two.
\<close>

theorem pool_accounts_for_every_caller:
  assumes "(pool_step workers)\<^sup>*\<^sup>* new_pool p"
  shows "length (pq_running p) \<le> workers \<and> distinct (pq_queue p @ pq_running p)
    \<and> distinct (pq_waiting p @ map fst (pq_answers p)) \<and> set (pq_waiting p @ map fst (pq_answers p)) = {..<pq_next p}
    \<and> pq_in_flight p = int (length (pq_waiting p))
    \<and> set (pq_queue p) \<subseteq> set (pq_waiting p) \<and> set (pq_waiting p) \<subseteq> set (pq_queue p) \<union> set (pq_running p)"
  using inv_reachable [OF assms] unfolding pool_inv_def queue_inv_def caller_inv_def by blast

text \<open>
  C31. With accepted settings no caller waits for ever on either pool.  Both pools are built with at
  least one worker; from any state the pool can reach, once nobody arrives, the workers take at most
  two steps for each queued call and one for each begun, whatever their order, and when they can take
  no more, every caller has its answer, without a deadline having to pass.
\<close>

theorem accepted_pools_answer_every_caller:
  assumes "build_settings ov = Inr s" "pool = assess_pool s \<or> pool = gateway_pool s"
  shows "\<exists>workers. pool = Inr (workers, new_pool) \<and> 0 < workers
    \<and> (\<forall>p n p'. (pool_step workers)\<^sup>*\<^sup>* new_pool p \<and> (work_step workers ^^ n) p p' \<longrightarrow>
         n \<le> 2 * length (pq_queue p) + length (pq_running p) \<and> ((\<forall>p''. \<not> work_step workers p' p'') \<longrightarrow> pq_waiting p' = []))"
proof -
  obtain workers where w: "pool = Inr (workers, new_pool)" "0 < workers" by (rule built_pool_workers [OF assms])
  have "n \<le> work_left p \<and> ((\<forall>p''. \<not> work_step workers p' p'') \<longrightarrow> pq_waiting p' = [])"
    if "(pool_step workers)\<^sup>*\<^sup>* new_pool p" "(work_step workers ^^ n) p p'" for p p' n
    using work_bounded [OF that(2)] idle_pool [OF work_keeps_inv [OF that(2) inv_reachable [OF that(1)]] w(2)] by auto
  then show ?thesis using w unfolding work_left_def by blast
qed

text \<open>
  The start registers exactly the tools that are switched on.  Whether the warm-up is off,
  complete, incomplete or fails, an empty registry is left with the four demonstration tools when
  they are enabled, then \<open>http.get\<close> when it is, each with its handler, and nothing else.
\<close>

theorem startup_registers_enabled_tools:
  "\<exists>r. snd (startup float_repr nt s outcome empty_registry) = Inr r
    \<and> rg_tools r = map (\<lambda>sp. (sp_name sp, sp)) ((if flag_of s ''REGISTER_DEMO_TOOLS'' then demo_tool_specs else [])
                                             @ (if flag_of s ''REGISTER_REAL_TOOLS'' then [http_get_spec] else []))
    \<and> rg_handlers r = map (\<lambda>(sp, h). (sp_name sp, h)) ((if flag_of s ''REGISTER_DEMO_TOOLS'' then demo_tools float_repr else [])
                                             @ (if flag_of s ''REGISTER_REAL_TOOLS'' then real_tools nt s else []))"
  by (simp add: startup_def demo_tools_def real_tools_def demo_tool_specs_def demo_handlers_def register_tool_def
      empty_registry_def http_get_spec_def od_set_def)

theorem pool_accounts_for_every_caller_witness:
  "pq_in_flight (submit_call (submit_call new_pool)) = 2"
proof -
  have "(pool_step 1)\<^sup>*\<^sup>* new_pool (submit_call (submit_call new_pool))"
    by (meson pool_step.submit rtranclp.rtrancl_into_rtrancl rtranclp.rtrancl_refl)
  then show ?thesis using pool_accounts_for_every_caller by (fastforce simp: submit_call_def new_pool_def)
qed

text \<open>With the defaults: four workers; a lone caller has its answer when its call has run.\<close>

definition served_pool :: "string pool" where
  "served_pool = the (finish_call 0 ''ok'' (the (start_call 4 (submit_call new_pool))))"

theorem accepted_pools_answer_every_caller_witness:
  "assess_pool default_settings = Inr (4, new_pool :: string pool) \<and> pq_waiting served_pool = []"
proof -
  let ?p = "submit_call new_pool :: string pool"
  have four: "assess_pool default_settings = Inr (4, new_pool :: string pool)"
    by (simp add: assess_pool_def thread_pool_def int_of_setting_def default_at(7))
  have reach: "(pool_step 4)\<^sup>*\<^sup>* new_pool ?p" by (rule r_into_rtranclp) (rule pool_step.submit)
  have s1: "start_call 4 ?p = Some (the (start_call 4 ?p))" by (simp add: submit_call_def new_pool_def start_call_def)
  have s2: "finish_call 0 ''ok'' (the (start_call 4 ?p)) = Some served_pool"
    unfolding served_pool_def by (simp add: submit_call_def new_pool_def start_call_def finish_call_def)
  have run: "(work_step 4 ^^ 2) ?p served_pool"
    using work_step.start [OF s1] work_step.finish [OF s2] by (auto simp: numeral_2_eq_2)
  have "pq_queue served_pool = []" "pq_running served_pool = []"
    by (simp_all add: served_pool_def submit_call_def new_pool_def start_call_def finish_call_def answer_def)
  then have idle: "\<forall>p''. \<not> work_step 4 served_pool p''"
    by (auto simp: start_call_def finish_call_def elim!: work_step.cases)
  show ?thesis
    using accepted_pools_answer_every_caller [OF defaults_built, of "assess_pool default_settings :: (py_error, nat \<times> string pool) res"]
      reach run idle four by auto
qed

end
