(* ===== verification/Policy_Ops.thy ===== *)
theory Policy_Ops
  imports Policy_Versioning
begin

text \<open>
  The operator's tools for the policy file: \<open>scripts/simulate_policy.py\<close> replays the audit log
  under a candidate, and \<open>scripts/manage_policy_versions.py\<close> lists, deploys and rolls back;
  \<open>scripts/validate_policy.py\<close> checks a file.

  Both are processes of their own: the policy store they reload is theirs, not that of a running
  gateway.  \<open>loads\<close> is \<open>json.loads\<close> (\<open>None\<close> for a decoding error), \<open>docs\<close> reads a policy file at
  a path of the file system, \<open>exn\<close> is the text of its exception.  What is printed is the result.
\<close>

section \<open>The records of the log\<close>

text \<open>\<open>key in row\<close>.\<close>

definition has_key :: "string \<Rightarrow> json \<Rightarrow> (py_error, bool) res" where
  "has_key k row =
     (case row of
        JDict d \<Rightarrow> Inr (map_of d k \<noteq> None)
      | JList l \<Rightarrow> Inr (JStr k \<in> set l)
      | JStr s \<Rightarrow> Inr (str_contains k s)
      | _ \<Rightarrow> Inl (TypeError ''argument is not iterable''))"

definition is_decision_row :: "json \<Rightarrow> (py_error, bool) res" where
  "is_decision_row row =
     bind_res (has_key ''capability'' row) (\<lambda>c. if \<not> c then Inr False else
     bind_res (has_key ''risk'' row) (\<lambda>r. if \<not> r then Inr False else has_key ''decision'' row))"

fun load_records :: "(string \<Rightarrow> json option) \<Rightarrow> string list \<Rightarrow> (py_error, json list) res" where
  "load_records loads [] = Inr []"
| "load_records loads (raw # rest) =
     (if str_strip raw = [] then load_records loads rest
      else case loads (str_strip raw) of
        None \<Rightarrow> load_records loads rest
      | Some row \<Rightarrow>
          bind_res (is_decision_row row) (\<lambda>b.
          bind_res (load_records loads rest) (\<lambda>rs. Inr (if b then row # rs else rs))))"

section \<open>The decision of a store on a record\<close>

text \<open>A parsed value as the key of a look-up in a dictionary with string keys.\<close>

definition dict_key :: "json \<Rightarrow> (py_error, string option) res" where
  "dict_key j =
     (case j of
        JStr s \<Rightarrow> Inr (Some s)
      | JList l \<Rightarrow> Inl (TypeError ''unhashable type: list'')
      | JDict d \<Rightarrow> Inl (TypeError ''unhashable type: dict'')
      | _ \<Rightarrow> Inr None)"

text \<open>\<open>policy_decision\<close> with a loaded store and values as they come from the log.\<close>

definition replay_decision :: "policy_store \<Rightarrow> json \<Rightarrow> json \<Rightarrow> json \<Rightarrow> (py_error, string \<times> string) res" where
  "replay_decision ps capability risk tenant =
     (if \<not> ps_usable ps then Inr (''BLOCK'', ''System Error: Policies not loaded'')
      else bind_res (dict_key tenant) (\<lambda>t.
        case (case Option.bind t (od_get (ps_tenants ps)) of Some p \<Rightarrow> Some p | None \<Rightarrow> od_get (ps_tenants ps) ''default'') of
          None \<Rightarrow> Inr (''BLOCK'', ''System Error: Policies not loaded'')
        | Some p \<Rightarrow>
            (let resolved = pol_tenant_id p;
                 tenant_note = (if tenant = JStr resolved then resolved
                                else py_str tenant @ '' -> '' @ resolved @ '' (fallback)'')
             in bind_res (dict_key capability) (\<lambda>c.
               case Option.bind c (od_get (pol_policies p)) of
                 Some (e # m) \<Rightarrow>
                   bind_res (dict_key risk) (\<lambda>r.
                     Inr (case Option.bind r (od_get (e # m)) of Some a \<Rightarrow> a | None \<Rightarrow> ps_default_action ps,
                       ''Policy applied for '' @ py_str capability @ '' (Risk: '' @ py_str risk @ '', Tenant: '' @ tenant_note @ '')''))
               | _ \<Rightarrow> Inr (ps_default_action ps,
                       ''Role '' @ [CHR 0x27] @ py_str capability @ [CHR 0x27] @ '' not defined for tenant ''
                       @ [CHR 0x27] @ tenant_note @ [CHR 0x27])))))"

record sim_change =
  sc_request_id :: json
  sc_tenant :: json
  sc_capability :: json
  sc_risk :: json
  sc_old :: json
  sc_new :: string
  sc_reason :: string

definition replay_row :: "policy_store \<Rightarrow> json \<Rightarrow> (py_error, sim_change option) res" where
  "replay_row ps row =
     bind_res (subscript row ''capability'') (\<lambda>capability.
     bind_res (subscript row ''risk'') (\<lambda>risk.
     let tenant = jget_or row ''tenant'' (JStr ''default'') in
     bind_res (subscript row ''decision'') (\<lambda>old.
     bind_res (replay_decision ps capability risk tenant) (\<lambda>(new, reason).
       Inr (if py_eq old (JStr new) then None
            else Some \<lparr>sc_request_id = jget_or row ''request_id'' (JStr ''unset''), sc_tenant = tenant, sc_capability = capability,
                       sc_risk = risk, sc_old = old, sc_new = new, sc_reason = reason\<rparr>)))))"

fun replay :: "policy_store \<Rightarrow> json list \<Rightarrow> (py_error, sim_change option list) res" where
  "replay ps [] = Inr []"
| "replay ps (row # rows) =
     bind_res (replay_row ps row) (\<lambda>ch. bind_res (replay ps rows) (\<lambda>chs. Inr (ch # chs)))"

section \<open>The report\<close>

text \<open>A \<open>Counter\<close> under the equality of its keys, and its \<open>most_common\<close>.\<close>

fun count_key :: "('a \<Rightarrow> 'a \<Rightarrow> bool) \<Rightarrow> 'a \<Rightarrow> ('a \<times> nat) list \<Rightarrow> ('a \<times> nat) list" where
  "count_key eq k [] = [(k, 1)]"
| "count_key eq k ((k', n) # c) = (if eq k k' then (k', n + 1) # c else (k', n) # count_key eq k c)"

definition counter :: "('a \<Rightarrow> 'a \<Rightarrow> bool) \<Rightarrow> 'a list \<Rightarrow> ('a \<times> nat) list" where
  "counter eq ks = foldl (\<lambda>c k. count_key eq k c) [] ks"

definition most_common :: "('a \<times> nat) list \<Rightarrow> ('a \<times> nat) list" where
  "most_common c = sort_key (\<lambda>kn. - int (snd kn)) c"

text \<open>The table from actions to severity; it has no \<open>REVIEW\<close>.\<close>

definition action_rank :: "json \<Rightarrow> (py_error, nat) res" where
  "action_rank j =
     bind_res (dict_key j) (\<lambda>k.
       if k = Some ''ALLOW'' then Inr 0 else if k = Some ''RESTRICT'' then Inr 1 else if k = Some ''BLOCK'' then Inr 2
       else Inl (KeyError (py_str j)))"

fun count_stricter :: "sim_change list \<Rightarrow> (py_error, nat) res" where
  "count_stricter [] = Inr 0"
| "count_stricter (c # cs) =
     bind_res (action_rank (JStr (sc_new c))) (\<lambda>n.
     bind_res (action_rank (sc_old c)) (\<lambda>m.
     bind_res (count_stricter cs) (\<lambda>k. Inr (if m < n then k + 1 else k))))"

record sim_report =
  sr_unchanged :: nat
  sr_changed :: "sim_change list"
  sr_transitions :: "(string \<times> nat) list"
  sr_tenants :: "(json \<times> nat) list"
  sr_stricter :: nat
  sr_looser :: nat

definition changed_of :: "sim_change option list \<Rightarrow> sim_change list" where
  "changed_of chs = [c. Some c \<leftarrow> chs]"

definition summarise :: "policy_store \<Rightarrow> json list \<Rightarrow> (py_error, sim_report) res" where
  "summarise ps records =
     bind_res (replay ps records) (\<lambda>chs.
       let changed = changed_of chs in
       bind_res (count_stricter changed) (\<lambda>stricter.
         Inr \<lparr>sr_unchanged = length (filter (\<lambda>ch. ch = None) chs), sr_changed = changed,
              sr_transitions = most_common (counter (=) (map (\<lambda>c. py_str (sc_old c) @ '' -> '' @ sc_new c) changed)),
              sr_tenants = most_common (counter py_eq (map sc_tenant changed)),
              sr_stricter = stricter, sr_looser = length changed - stricter\<rparr>))"

datatype sim_result = Refused "string list" | NoLog | NoRecords | Replayed sim_report

text \<open>\<open>store or _store\<close>: a store without tenants is false, and the process's own store answers.\<close>

definition active_store :: "policy_store \<Rightarrow> disk_doc \<Rightarrow> policy_store" where
  "active_store candidate own = (if ps_tenants candidate = [] then ps_load False own new_policy_store else candidate)"

definition simulate ::
  "(string \<Rightarrow> json option) \<Rightarrow> (string \<Rightarrow> fs \<Rightarrow> disk_doc) \<Rightarrow> string \<Rightarrow> string \<Rightarrow> fs \<Rightarrow> string \<Rightarrow> string list option \<Rightarrow> (py_error, sim_result) res" where
  "simulate loads docs exn live f candidate audit_log =
     (let errors = validate_policy_file candidate exn (docs candidate f) in
      if errors \<noteq> [] then Inr (Refused errors)
      else case audit_log of
        None \<Rightarrow> Inr NoLog
      | Some lines \<Rightarrow>
          bind_res (load_records loads lines) (\<lambda>records.
            if records = [] then Inr NoRecords
            else bind_res (summarise (active_store (ps_load False (docs candidate f) new_policy_store) (docs live f)) records) (\<lambda>rep.
              Inr (Replayed rep))))"

section \<open>The version tool\<close>

datatype cli_result = Usage | Listing "string list" | DeployRefused "string list" | Deployed "string option" | NoVersion string | RolledBack

definition policy_cli ::
  "(string \<Rightarrow> string) \<Rightarrow> (string \<Rightarrow> fs \<Rightarrow> disk_doc) \<Rightarrow> string \<Rightarrow> string \<Rightarrow> string \<Rightarrow> string \<Rightarrow> string list \<Rightarrow> fs \<times> policy_store
   \<Rightarrow> (py_error, cli_result) res \<times> (fs \<times> policy_store)" where
  "policy_cli sha docs exn d now live args s =
     (case args of
        [] \<Rightarrow> (Inr Usage, s)
      | command # rest \<Rightarrow>
          if command = ''list'' then
            (case list_versions d (fst s) of (r, f) \<Rightarrow> (bind_res r (\<lambda>vs. Inr (Listing vs)), (f, snd s)))
          else if command = ''deploy'' \<and> length rest = 1 then
            (let new_path = hd rest; errors = validate_policy_file new_path exn (docs new_path (fst s)) in
             if errors \<noteq> [] then (Inr (DeployRefused errors), s)
             else case deploy_policy sha (docs live) d now new_path live s of
                (r, s') \<Rightarrow> (bind_res r (\<lambda>previous. Inr (Deployed previous)), s'))
          else if command = ''rollback'' \<and> length rest = 1 then
            (case rollback_to sha (docs live) d now (hd rest) live s of
               (Inl (FileNotFoundError e), s') \<Rightarrow> (Inr (NoVersion e), s')
             | (Inl e, s') \<Rightarrow> (Inl e, s')
             | (Inr _, s') \<Rightarrow> (Inr RolledBack, s'))
          else (Inr Usage, s))"

fun cli_exit :: "(py_error, cli_result) res \<Rightarrow> nat" where
  "cli_exit (Inl e) = 1"
| "cli_exit (Inr Usage) = 2"
| "cli_exit (Inr (DeployRefused es)) = 1"
| "cli_exit (Inr (NoVersion e)) = 1"
| "cli_exit (Inr _) = 0"

text \<open>\<open>scripts/validate_policy.py\<close>: the status.\<close>

definition validate_cli :: "(string \<Rightarrow> fs \<Rightarrow> disk_doc) \<Rightarrow> string \<Rightarrow> string list \<Rightarrow> fs \<Rightarrow> nat \<times> string list" where
  "validate_cli docs exn args f =
     (if length args \<noteq> 1 then (2, [])
      else let errors = validate_policy_file (hd args) exn (docs (hd args) f) in (if errors = [] then 0 else 1, errors))"

section \<open>Lemmas\<close>

lemma dict_key_JStr [simp]: "dict_key (JStr s) = Inr (Some s)"
  by (simp add: dict_key_def)

lemma replay_is_policy_decision:
  assumes "ps_loaded ps"
  shows "replay_decision ps (JStr c) (JStr r) (JStr t) = Inr (fst (policy_decision d c r t ps))"
proof -
  have "ps_load False d ps = ps" using assms by (simp add: ps_load_def)
  then show ?thesis
    by (auto simp: replay_decision_def policy_decision_def ps_get_def Let_def split: option.split list.split)
qed

text \<open>A document the validator accepts leaves every store in the same state.\<close>

lemma accepted_items:
  assumes "validate_policy_file path exn doc = []"
  obtains raw items where "doc = Doc (JDict raw)" "map_of raw ''tenants'' = Some (JDict items)"
    "''default'' \<in> set (map fst items)" "\<forall>x \<in> set items. tenant_errors x = []"
proof -
  obtain j where j: "doc = Doc j" using assms by (cases doc) (simp_all add: validate_policy_file_def)
  then obtain raw where "j = JDict raw"
    using assms by (cases "is_dict j") (auto simp: validate_policy_file_def is_dict_iff)
  then show thesis
    using that assms j
    by (auto simp: validate_policy_file_def jget_def Let_def concat_map_Nil split: option.splits json.splits if_splits)
qed

lemma accepted_store:
  assumes "validate_policy_file path exn doc = []"
  shows "reload_policies doc ps = ps_load False doc new_policy_store"
proof -
  obtain raw items where "doc = Doc (JDict raw)" "map_of raw ''tenants'' = Some (JDict items)" by (rule accepted_items [OF assms])
  then show ?thesis by (simp add: reload_policies_def ps_load_def new_policy_store_def jget_def Let_def)
qed

lemma accepted_has_tenants:
  assumes "validate_policy_file path exn doc = []" "\<forall>j. doc = Doc j \<longrightarrow> json_wf j"
  shows "ps_tenants (reload_policies doc ps) \<noteq> []"
proof -
  obtain raw items where i: "doc = Doc (JDict raw)" "map_of raw ''tenants'' = Some (JDict items)"
    "''default'' \<in> set (map fst items)" "\<forall>x \<in> set items. tenant_errors x = []" by (rule accepted_items [OF assms(1)])
  obtain e where e: "(''default'', e) \<in> set items" using i(3) by auto
  have "json_wf (JDict items)" using json_wf_item [OF _ i(2)] assms(2) i(1) by blast
  then have "json_wf e" using e by (auto simp: list_all_iff)
  then have "parse_tenant_entry ''default'' e \<noteq> None" using tenant_ok [of "''default''" e] i(4) e by auto
  then have "ps_usable (reload_policies doc ps)" using usable_iff [of doc ps] i(1,2) e by blast
  then show ?thesis
    by (auto simp: reload_policies_def ps_load_def Let_def split: disk_doc.splits option.splits json.splits if_splits)
qed

lemma loaded_reload: "ps_loaded (reload_policies doc ps)"
  by (auto simp: reload_policies_def ps_load_def Let_def split: disk_doc.split option.split json.split)

definition is_yaml_path :: "string \<Rightarrow> bool" where
  "is_yaml_path path \<longleftrightarrow> str_lower (splitext_ext path) \<in> {''.yaml'', ''.yml''}"

lemma doc_of_file:
  assumes "plain_path path" "od_get f path = Some (File text)"
  shows "rules_doc json_load yaml_load path f
    = (case (if is_yaml_path path then yaml_load else json_load) text of None \<Rightarrow> Unreadable | Some j \<Rightarrow> Doc j)"
  using assms by (simp add: rules_doc_def node_at_plain policy_doc_def parse_policy_file_def is_yaml_path_def)

text \<open>A deployment by the tool of a file it accepts, onto an existing live file.\<close>

lemma cli_deploy:
  assumes "sane sha d live" "CHR ''/'' \<notin> set now" "flat_dir d f"
    and "od_get f live = Some (File c0)" "od_get f new = Some (File c1)" "plain_path new" "outside d new" "new \<noteq> live"
    and "validate_policy_file new exn (docs new f) = []"
  obtains v f' where "policy_cli sha docs exn d now live [''deploy'', new] (f, ps)
      = (Inr (Deployed (Some v)), (f', reload_policies (docs live f') ps))"
    "od_get f' live = Some (File c1)" "od_get f' (join_path d v) = Some (File c0)"
  using deploy_step [OF assms(1-8), of "docs live" ps] assms(9) that by (auto simp: policy_cli_def)

lemma replay_length: "replay ps rows = Inr chs \<Longrightarrow> length chs = length rows"
  by (induction rows arbitrary: chs) (auto simp: bind_res_def split: sum.splits)

lemma changed_split: "length (filter (\<lambda>ch. ch = None) chs) + length (changed_of chs) = length chs"
  unfolding changed_of_def by (induction chs) (auto split: option.split)

lemma action_rank_Inr: "action_rank (JStr s) = Inr n \<Longrightarrow> s \<in> {''ALLOW'', ''RESTRICT'', ''BLOCK''}"
  by (auto simp: action_rank_def split: if_splits)

definition is_stricter :: "sim_change \<Rightarrow> bool" where
  "is_stricter c \<longleftrightarrow> (\<exists>n m. action_rank (JStr (sc_new c)) = Inr n \<and> action_rank (sc_old c) = Inr m \<and> m < n)"

definition ranked :: "sim_change \<Rightarrow> bool" where
  "ranked c \<longleftrightarrow> (\<exists>n m. action_rank (JStr (sc_new c)) = Inr n \<and> action_rank (sc_old c) = Inr m)"

lemma count_stricter_Inr:
  "count_stricter cs = Inr k \<Longrightarrow> k = length (filter is_stricter cs)
     \<and> (\<forall>c \<in> set cs. \<exists>n m. action_rank (JStr (sc_new c)) = Inr n \<and> action_rank (sc_old c) = Inr m)"
  by (induction cs arbitrary: k) (auto simp: bind_res_def is_stricter_def split: sum.splits)

lemma count_stricter_iff: "(\<exists>k. count_stricter cs = Inr k) \<longleftrightarrow> (\<forall>c \<in> set cs. ranked c)"
  by (induction cs) (auto simp: bind_res_def ranked_def split: sum.splits)

definition is_looser :: "sim_change \<Rightarrow> bool" where
  "is_looser c \<longleftrightarrow> (\<exists>n m. action_rank (JStr (sc_new c)) = Inr n \<and> action_rank (sc_old c) = Inr m \<and> n < m)"

lemma replay_row_differs: "replay_row ps row = Inr (Some c) \<Longrightarrow> sc_old c \<noteq> JStr (sc_new c)"
  by (auto simp: replay_row_def bind_res_def Let_def split: sum.splits if_splits)

lemma replay_differs: "replay ps rows = Inr chs \<Longrightarrow> Some c \<in> set chs \<Longrightarrow> sc_old c \<noteq> JStr (sc_new c)"
  by (induction rows arbitrary: chs) (auto simp: bind_res_def dest: replay_row_differs split: sum.splits)

lemma action_rank_inj: "action_rank (JStr s) = Inr n \<Longrightarrow> action_rank j = Inr n \<Longrightarrow> j = JStr s"
  by (cases j) (auto simp: action_rank_def dict_key_def split: if_splits)

lemma stricter_or_looser:
  assumes "\<forall>c \<in> set cs. sc_old c \<noteq> JStr (sc_new c) \<and> (\<exists>n m. action_rank (JStr (sc_new c)) = Inr n \<and> action_rank (sc_old c) = Inr m)"
  shows "length cs - length (filter is_stricter cs) = length (filter is_looser cs)"
proof -
  have "is_looser c \<longleftrightarrow> \<not> is_stricter c" if c: "c \<in> set cs" for c
  proof -
    obtain n m where nm: "action_rank (JStr (sc_new c)) = Inr n" "action_rank (sc_old c) = Inr m" "sc_old c \<noteq> JStr (sc_new c)"
      using assms c by blast
    then have "n \<noteq> m" using action_rank_inj by blast
    then show ?thesis using nm(1,2) by (auto simp: is_looser_def is_stricter_def)
  qed
  then have "filter is_looser cs = filter (\<lambda>c. \<not> is_stricter c) cs" by (rule filter_cong [OF refl])
  then show ?thesis using sum_length_filter_compl [of is_stricter cs] by simp
qed

lemma in_changed: "c \<in> set (changed_of chs) \<longleftrightarrow> Some c \<in> set chs"
  unfolding changed_of_def by (induction chs) (auto split: option.splits)

section \<open>Properties\<close>

text \<open>
  C17. The simulation predicts the deployment.  When the candidate is another file than the live one, of
  the same format, and the simulation reports on a log, then deploying the same file succeeds, and the
  report is the one the deployed store itself gives on the log, record by record; on records with
  text fields each entry is the decision the gateway's \<open>policy_decision\<close> takes from then on.
\<close>

theorem simulation_predicts_deployment:
  assumes "sane sha d live" "CHR ''/'' \<notin> set now" "flat_dir d f"
    and "od_get f live = Some (File c0)" "od_get f new = Some (File c1)" "plain_path new" "outside d new" "new \<noteq> live"
    and "is_yaml_path new = is_yaml_path live"
    and "\<forall>t j. json_load t = Some j \<longrightarrow> json_wf j" "\<forall>t j. yaml_load t = Some j \<longrightarrow> json_wf j"
    and "simulate loads (rules_doc json_load yaml_load) exn live f new (Some lines) = Inr (Replayed rep)"
  shows "\<exists>v f' ps' records.
      policy_cli sha (rules_doc json_load yaml_load) exn d now live [''deploy'', new] (f, ps) = (Inr (Deployed (Some v)), (f', ps'))
    \<and> load_records loads lines = Inr records \<and> summarise ps' records = Inr rep
    \<and> (\<forall>doc c r t. replay_decision ps' (JStr c) (JStr r) (JStr t) = Inr (fst (policy_decision doc c r t ps')))"
proof -
  let ?docs = "rules_doc json_load yaml_load"
  have v: "validate_policy_file new exn (?docs new f) = []"
    using assms(12) by (auto simp: simulate_def Let_def split: if_splits)
  obtain v f' where c: "policy_cli sha ?docs exn d now live [''deploy'', new] (f, ps) = (Inr (Deployed (Some v)), (f', reload_policies (?docs live f') ps))"
    "od_get f' live = Some (File c1)" by (rule cli_deploy [where docs = ?docs and ps = ps, OF assms(1-8) v])
  have "plain_path live" using assms(1) by (simp add: sane_def)
  then have same: "?docs live f' = ?docs new f"
    using doc_of_file [OF _ c(2)] doc_of_file [OF assms(6,5)] assms(9) by simp
  have "\<forall>j. ?docs new f = Doc j \<longrightarrow> json_wf j"
    unfolding doc_of_file [OF assms(6,5)] using assms(10,11) by (simp split: option.split if_splits)
  then have "active_store (ps_load False (?docs new f) new_policy_store) (?docs live f) = reload_policies (?docs live f') ps"
    using accepted_has_tenants [OF v, of new_policy_store] by (simp add: active_store_def same accepted_store [OF v])
  then obtain records where "load_records loads lines = Inr records" "summarise (reload_policies (?docs live f') ps) records = Inr rep"
    using assms(12) v by (auto simp: simulate_def bind_res_def Let_def split: sum.splits if_splits)
  then show ?thesis using c(1) replay_is_policy_decision [OF loaded_reload] by blast
qed

text \<open>
  A candidate of the other format locks everybody out.  The tool checks the candidate by its own
  extension and copies it over the live file, which is parsed by the extension of that one: if the
  parser of the live file rejects the text, the deployment still reports success with status 0, and
  from then on every request is blocked as if no policy were loaded.
\<close>

theorem deploy_of_other_format_blocks:
  assumes "sane sha d live" "CHR ''/'' \<notin> set now" "flat_dir d f"
    and "od_get f live = Some (File c0)" "od_get f new = Some (File c1)" "plain_path new" "outside d new" "new \<noteq> live"
    and "validate_policy_file new exn (rules_doc json_load yaml_load new f) = []"
    and "(if is_yaml_path live then yaml_load else json_load) c1 = None"
  shows "\<exists>v f' ps'. policy_cli sha (rules_doc json_load yaml_load) exn d now live [''deploy'', new] (f, ps) = (Inr (Deployed (Some v)), (f', ps'))
    \<and> cli_exit (Inr (Deployed (Some v))) = 0
    \<and> (\<forall>doc c r t. fst (policy_decision doc c r t ps') = (''BLOCK'', ''System Error: Policies not loaded''))"
proof -
  let ?docs = "rules_doc json_load yaml_load"
  obtain v f' where c: "policy_cli sha ?docs exn d now live [''deploy'', new] (f, ps) = (Inr (Deployed (Some v)), (f', reload_policies (?docs live f') ps))"
    "od_get f' live = Some (File c1)" by (rule cli_deploy [where docs = ?docs and ps = ps, OF assms(1-9)])
  have "plain_path live" using assms(1) by (simp add: sane_def)
  then have "?docs live f' = Unreadable" using doc_of_file [OF _ c(2)] assms(10) by simp
  then have "\<not> ps_usable (reload_policies (?docs live f') ps)" by (simp add: reload_policies_def ps_load_def Let_def)
  then show ?thesis using c(1) by (auto simp: decision_cases)
qed

text \<open>
  The report of the simulation adds up, when there is one.  On records that can be replayed it
  is made exactly when every changed decision is between ALLOW, RESTRICT and BLOCK (a change from or
  to REVIEW ends the tool with an exception); then unchanged and changed records are all records,
  and the stricter and the looser ones, each counted by the severity of its two actions, are all
  that changed.
\<close>

theorem simulation_report_adds_up:
  assumes "replay ps records = Inr chs"
  shows "((\<exists>rep. summarise ps records = Inr rep) \<longleftrightarrow> (\<forall>c. Some c \<in> set chs \<longrightarrow> ranked c))
    \<and> (\<forall>rep. summarise ps records = Inr rep \<longrightarrow>
         sr_unchanged rep + length (sr_changed rep) = length records
       \<and> sr_stricter rep = length (filter is_stricter (sr_changed rep)) \<and> sr_looser rep = length (filter is_looser (sr_changed rep))
       \<and> sr_stricter rep + sr_looser rep = length (sr_changed rep))"
proof -
  let ?cs = "changed_of chs"
  have all: "(\<forall>c. Some c \<in> set chs \<longrightarrow> ranked c) \<longleftrightarrow> (\<forall>c \<in> set ?cs. ranked c)" using in_changed [of _ chs] by blast
  have run: "summarise ps records = bind_res (count_stricter ?cs) (\<lambda>stricter.
         Inr \<lparr>sr_unchanged = length (filter (\<lambda>ch. ch = None) chs), sr_changed = ?cs,
              sr_transitions = most_common (counter (=) (map (\<lambda>c. py_str (sc_old c) @ '' -> '' @ sc_new c) ?cs)),
              sr_tenants = most_common (counter py_eq (map sc_tenant ?cs)),
              sr_stricter = stricter, sr_looser = length ?cs - stricter\<rparr>)"
    unfolding summarise_def assms by (simp add: bind_res_def Let_def)
  have iff: "(\<exists>rep. summarise ps records = Inr rep) \<longleftrightarrow> (\<forall>c \<in> set ?cs. ranked c)"
  proof -
    have "(\<exists>rep. summarise ps records = Inr rep) \<longleftrightarrow> (\<exists>k. count_stricter ?cs = Inr k)"
      unfolding run by (cases "count_stricter ?cs") (simp_all add: bind_res_def)
    then show ?thesis unfolding count_stricter_iff .
  qed
  have "sr_unchanged rep + length (sr_changed rep) = length records
       \<and> sr_stricter rep = length (filter is_stricter (sr_changed rep)) \<and> sr_looser rep = length (filter is_looser (sr_changed rep))
       \<and> sr_stricter rep + sr_looser rep = length (sr_changed rep)" if r: "summarise ps records = Inr rep" for rep
  proof -
    obtain k where k: "count_stricter ?cs = Inr k" using r unfolding run by (cases "count_stricter ?cs") (simp_all add: bind_res_def)
    have rep: "sr_unchanged rep = length (filter (\<lambda>ch. ch = None) chs)" "sr_changed rep = ?cs" "sr_stricter rep = k" "sr_looser rep = length ?cs - k"
      using r unfolding run k by (auto simp: bind_res_def)
    have st: "k = length (filter is_stricter ?cs)" using count_stricter_Inr [OF k] by simp
    have "length ?cs - k = length (filter is_looser ?cs)"
      unfolding st by (rule stricter_or_looser) (use count_stricter_Inr [OF k] replay_differs [OF assms] in_changed [of _ chs] in blast)
    moreover have "k \<le> length ?cs" unfolding st by simp
    ultimately show ?thesis
      using changed_split [of chs] replay_length [OF assms] st unfolding rep by (intro conjI) linarith+
  qed
  then show ?thesis using iff all by blast
qed

section \<open>Witnesses\<close>

definition sim_policy :: json where
  "sim_policy = JDict [(''tenants'', JDict [(''default'', JDict [(''policies'', JDict
     [(''GENERAL'', JDict [(''LOW'', JStr ''ALLOW''), (''HIGH'', JStr ''REVIEW'')])])])])]"

definition sim_json :: "string \<Rightarrow> json option" where
  "sim_json t = (if t = ''new'' then Some sim_policy else None)"

definition sim_row :: "string \<Rightarrow> string \<Rightarrow> json" where
  "sim_row risk decision = JDict [(''capability'', JStr ''GENERAL''), (''risk'', JStr risk), (''decision'', JStr decision)]"

definition sim_loads :: "string \<Rightarrow> json option" where
  "sim_loads t = (if t = ''a'' then Some (sim_row ''LOW'' ''BLOCK'') else None)"

lemma sim_files:
  assumes "CHR ''/'' \<notin> set c" "c \<noteq> ''versions''" "c \<notin> {'''', ''.'', ''..''}"
  shows "sane (\<lambda>c. ''abc'') ''versions'' ''live.json''" "flat_dir ''versions'' [(''live.json'', File ''old''), (c, File ''new'')]"
    "plain_path c" "outside ''versions'' c"
proof -
  have ne: "join_path ''versions'' n \<noteq> p" if "CHR ''/'' \<notin> set n" "CHR ''/'' \<notin> set p" for n p
    using join_basename(1) [OF that(1), of "''versions''"] that(2) by auto
  have plain: "plain_path ''live.json''" "plain_path ''versions''"
    by (simp_all add: plain_path_def basename_no_slash [THEN iffD2])
  show "sane (\<lambda>c. ''abc'') ''versions'' ''live.json''" using ne plain by (simp add: sane_def dir_path_def outside_def)
  show "flat_dir ''versions'' [(''live.json'', File ''old''), (c, File ''new'')]" using ne assms by (auto simp: flat_dir_def)
  show "plain_path c" using assms by (simp add: plain_path_def basename_no_slash [THEN iffD2])
  show "outside ''versions'' c" using ne assms by (simp add: outside_def)
qed

lemma sim_wf: "\<forall>t j. sim_json t = Some j \<longrightarrow> json_wf j"
  by (simp add: sim_json_def sim_policy_def)

text \<open>A candidate that allows a request the log has as blocked.\<close>

definition sim_result_of :: "(py_error, sim_result) res" where
  "sim_result_of = simulate sim_loads (rules_doc sim_json (\<lambda>t. None)) [] ''live.json''
     [(''live.json'', File ''old''), (''c.json'', File ''new'')] ''c.json'' (Some [''a'', ''x''])"

lemma sim_result: "\<exists>rep. sim_result_of = Inr (Replayed rep) \<and> sr_looser rep = 1"
proof -
  have "(case sim_result_of of Inr (Replayed rep) \<Rightarrow> sr_looser rep = 1 | _ \<Rightarrow> False)" by code_simp
  then show ?thesis by (auto split: sum.splits sim_result.splits)
qed

theorem simulation_predicts_deployment_witness:
  "\<exists>v f' ps' records rep. policy_cli (\<lambda>c. ''abc'') (rules_doc sim_json (\<lambda>t. None)) [] ''versions'' ''T1'' ''live.json'' [''deploy'', ''c.json'']
      ([(''live.json'', File ''old''), (''c.json'', File ''new'')], new_policy_store) = (Inr (Deployed (Some v)), (f', ps'))
    \<and> load_records sim_loads [''a'', ''x''] = Inr records \<and> summarise ps' records = Inr rep \<and> sr_looser rep = 1"
proof -
  obtain rep where rep: "sim_result_of = Inr (Replayed rep)" "sr_looser rep = 1" using sim_result by blast
  have files: "sane (\<lambda>c. ''abc'') ''versions'' ''live.json''" "flat_dir ''versions'' [(''live.json'', File ''old''), (''c.json'', File ''new'')]"
    "plain_path ''c.json''" "outside ''versions'' ''c.json''" using sim_files [of "''c.json''"] by simp_all
  have same: "is_yaml_path ''c.json'' = is_yaml_path ''live.json''" by code_simp
  have "\<exists>v f' ps' records. policy_cli (\<lambda>c. ''abc'') (rules_doc sim_json (\<lambda>t. None)) [] ''versions'' ''T1'' ''live.json'' [''deploy'', ''c.json'']
      ([(''live.json'', File ''old''), (''c.json'', File ''new'')], new_policy_store) = (Inr (Deployed (Some v)), (f', ps'))
    \<and> load_records sim_loads [''a'', ''x''] = Inr records \<and> summarise ps' records = Inr rep
    \<and> (\<forall>doc c r t. replay_decision ps' (JStr c) (JStr r) (JStr t) = Inr (fst (policy_decision doc c r t ps')))"
    by (rule simulation_predicts_deployment [OF files(1) _ files(2) _ _ files(3,4) _ same sim_wf _ rep(1) [unfolded sim_result_of_def]]) simp_all
  then show ?thesis using rep(2) by blast
qed

theorem deploy_of_other_format_blocks_witness:
  "\<exists>v f' ps'. policy_cli (\<lambda>c. ''abc'') (rules_doc (\<lambda>t. None) sim_json) [] ''versions'' ''T1'' ''live.json'' [''deploy'', ''c.yaml'']
      ([(''live.json'', File ''old''), (''c.yaml'', File ''new'')], new_policy_store) = (Inr (Deployed (Some v)), (f', ps'))
    \<and> fst (policy_decision Missing ''GENERAL'' ''LOW'' ''default'' ps') = (''BLOCK'', ''System Error: Policies not loaded'')"
proof -
  have files: "sane (\<lambda>c. ''abc'') ''versions'' ''live.json''" "flat_dir ''versions'' [(''live.json'', File ''old''), (''c.yaml'', File ''new'')]"
    "plain_path ''c.yaml''" "outside ''versions'' ''c.yaml''" using sim_files [of "''c.yaml''"] by simp_all
  have ok: "validate_policy_file ''c.yaml'' [] (rules_doc (\<lambda>t. None) sim_json ''c.yaml'' [(''live.json'', File ''old''), (''c.yaml'', File ''new'')]) = []"
    by code_simp
  have other: "\<not> is_yaml_path ''live.json''" by code_simp
  show ?thesis
    using deploy_of_other_format_blocks [where json_load = "\<lambda>t. None" and yaml_load = sim_json and ps = new_policy_store and now = "''T1''"
      and ?c0.0 = "''old''" and ?c1.0 = "''new''",
      OF files(1) _ files(2) _ _ files(3,4) _ ok] other by auto
qed

lemma not_Cons: "(\<forall>y ys. xs \<noteq> y # ys) \<longleftrightarrow> xs = []"
  by (cases xs) auto

theorem simulation_report_adds_up_witness:
  "\<not> (\<exists>rep. summarise (reload_policies (Doc sim_policy) new_policy_store) [sim_row ''HIGH'' ''BLOCK''] = Inr rep)"
proof -
  let ?ps = "reload_policies (Doc sim_policy) new_policy_store"
  have run: "(case replay ?ps [sim_row ''HIGH'' ''BLOCK''] of Inr [Some c] \<Rightarrow> sc_new c = ''REVIEW'' | _ \<Rightarrow> False)" by code_simp
  have pick: "\<exists>c. r = Inr [Some c] \<and> P c" if "(case r of Inr [Some c] \<Rightarrow> P c | _ \<Rightarrow> False)"
    for r :: "(py_error, sim_change option list) res" and P
    using that by (cases r) (auto simp: not_Cons split: list.splits option.splits)
  obtain c where c: "replay ?ps [sim_row ''HIGH'' ''BLOCK''] = Inr [Some c]" "sc_new c = ''REVIEW''"
    using pick [of "\<lambda>c. sc_new c = ''REVIEW''", OF run] by blast
  have "\<not> ranked c" using c(2) by (simp add: ranked_def action_rank_def bind_res_def)
  then show ?thesis using simulation_report_adds_up [OF c(1)] by auto
qed

end
