(* ===== verification/Training.thy ===== *)
theory Training
  imports Fusion Evaluation "HOL-Library.Char_ord" "HOL-Library.List_Lexorder"
begin

text \<open>
  The training of the fusion policy, \<open>scripts/train_fusion_policy.py\<close>: the rows of a tier, its global
  and per-class fits, their thresholds, and the artifact that \<open>core/fusion.py\<close> loads.

  \<open>fit\<close> stands for \<open>StandardScaler\<close> and \<open>LogisticRegression\<close> with \<open>predict_proba\<close> on the rows they were
  fitted to, \<open>None\<close> when they refuse the data.  The suite and the cached scores are taken as parsed;
  the printed lines and the in-sample figures of the \<open>training\<close> section are left out.
\<close>

section \<open>Definitions from the code\<close>

record train_row =
  tw_id :: string
  tw_label :: bool
  tw_class :: string

record fitted =
  fi_mean :: "real list"
  fi_scale :: "real list"
  fi_coef :: "real list"
  fi_intercept :: real
  fi_probs :: "real list"

type_synonym fitter = "real list list \<Rightarrow> bool list \<Rightarrow> fitted option"

type_synonym score_cache = "(string, real) odict"

definition load_scores :: "(string \<times> real) list \<Rightarrow> score_cache" where
  "load_scores lines = foldl (\<lambda>out (i, score). od_set i score out) [] lines"

definition floor_features :: "string list" where
  "floor_features = [''anchors'', ''protectai_injection'', ''madhurjindal_jailbreak'', ''toxic_bert'']"

definition tier_5_features :: "string list" where
  "tier_5_features = floor_features @ [''deepset_injection'']"

definition tier_6_features :: "string list" where
  "tier_6_features = tier_5_features @ [''prompt_guard_2'']"

definition tier_8_features :: "string list" where
  "tier_8_features = tier_6_features @ [''german_toxicity_eistakovskii'', ''german_toxicity_ankekat'']"

definition tier_9_features :: "string list" where
  "tier_9_features = tier_8_features @ [''multilingual_head'']"

definition high_fpr_budget :: real where "high_fpr_budget = 5 / 100"

definition medium_fpr_budget :: real where "medium_fpr_budget = 20 / 100"

definition per_class_high_fpr_budget :: real where "per_class_high_fpr_budget = 224 / 10000"

definition per_class_medium_fpr_budget :: real where "per_class_medium_fpr_budget = 895 / 10000"

record trained_class =
  tc_fit :: fitted
  tc_high :: stat
  tc_medium :: stat
  tc_positive :: nat

record trained_tier =
  td_tier_id :: "string option"
  td_features :: "string list"
  td_rows :: "train_row list"
  td_fit :: fitted
  td_high :: stat
  td_medium :: stat
  td_per_class :: "(string \<times> trained_class) list"

text \<open>The anchor score of a row is cached like any other.\<close>

definition usable_rows :: "string list \<Rightarrow> (string \<Rightarrow> score_cache) \<Rightarrow> train_row list \<Rightarrow> train_row list" where
  "usable_rows features caches rows =
     filter (\<lambda>r. \<forall>f \<in> set features. f \<noteq> ''anchors'' \<longrightarrow> od_get (caches f) (tw_id r) \<noteq> None) rows"

definition feature_value :: "(string \<Rightarrow> score_cache) \<Rightarrow> train_row \<Rightarrow> string \<Rightarrow> real" where
  "feature_value caches r f = the (od_get (caches f) (tw_id r))"

definition feature_row :: "(string \<Rightarrow> score_cache) \<Rightarrow> string list \<Rightarrow> train_row \<Rightarrow> real list" where
  "feature_row caches features r = map (feature_value caches r) features"

definition class_rows :: "string \<Rightarrow> train_row list \<Rightarrow> train_row list" where
  "class_rows cls usable = filter (\<lambda>r. \<not> tw_label r \<or> tw_class r = cls) usable"

text \<open>A class whose rows are all of one label is skipped.\<close>

fun fit_classes ::
  "fitter \<Rightarrow> (string \<Rightarrow> score_cache) \<Rightarrow> string list \<Rightarrow> train_row list \<Rightarrow> string list \<Rightarrow> (py_error, (string \<times> trained_class) list) res" where
  "fit_classes fit caches features usable [] = Inr []"
| "fit_classes fit caches features usable (cls # rest) =
     (let rows = class_rows cls usable; yc = map (\<lambda>r. tw_class r = cls) rows in
      if length (remdups yc) < 2 then fit_classes fit caches features usable rest
      else case fit (map (feature_row caches features) rows) yc of
        None \<Rightarrow> Inl (ValueError ''fit'')
      | Some m \<Rightarrow>
          bind_res (fit_classes fit caches features usable rest) (\<lambda>cs.
            Inr ((cls, \<lparr>tc_fit = m, tc_high = threshold_at_fpr per_class_high_fpr_budget (fi_probs m) yc,
                        tc_medium = threshold_at_fpr per_class_medium_fpr_budget (fi_probs m) yc,
                        tc_positive = count_true yc\<rparr>) # cs)))"

definition fit_tier ::
  "fitter \<Rightarrow> (string \<Rightarrow> score_cache) \<Rightarrow> train_row list \<Rightarrow> string option \<Rightarrow> string list \<Rightarrow> (py_error, trained_tier) res" where
  "fit_tier fit caches rows tier_id features =
     (let usable = usable_rows features caches rows; y = map tw_label usable in
      case fit (map (feature_row caches features) usable) y of
        None \<Rightarrow> Inl (ValueError ''fit'')
      | Some m \<Rightarrow>
          bind_res (fit_classes fit caches features usable (sort (remdups (map tw_class (filter tw_label usable))))) (\<lambda>cs.
            Inr \<lparr>td_tier_id = tier_id, td_features = features, td_rows = usable, td_fit = m,
                 td_high = threshold_at_fpr high_fpr_budget (fi_probs m) y,
                 td_medium = threshold_at_fpr medium_fpr_budget (fi_probs m) y, td_per_class = cs\<rparr>))"

text \<open>\<open>evidence\<close> gives the cached scores of a feature, \<open>None\<close> when their file is missing.\<close>

definition cached_scores :: "(string \<Rightarrow> (string \<times> real) list option) \<Rightarrow> string \<Rightarrow> score_cache" where
  "cached_scores evidence f = load_scores (the (evidence f))"

definition train :: "fitter \<Rightarrow> (string \<Rightarrow> (string \<times> real) list option) \<Rightarrow> train_row list \<Rightarrow> (py_error, trained_tier \<times> trained_tier list) res" where
  "train fit evidence rows_raw =
     (if \<exists>f \<in> set tier_9_features. evidence f = None then Inl (OtherError ''SystemExit'')
      else
        let caches = cached_scores evidence;
            rows = filter (\<lambda>r. od_get (caches ''anchors'') (tw_id r) \<noteq> None) rows_raw in
        bind_res (fit_tier fit caches rows None floor_features) (\<lambda>floor.
        bind_res (fit_tier fit caches rows (Some ''five_feature'') tier_5_features) (\<lambda>t5.
        bind_res (fit_tier fit caches rows (Some ''six_feature'') tier_6_features) (\<lambda>t6.
        bind_res (fit_tier fit caches rows (Some ''eight_feature'') tier_8_features) (\<lambda>t8.
        bind_res (fit_tier fit caches rows (Some ''nine_feature'') tier_9_features) (\<lambda>t9.
          Inr (floor, [t9, t8, t6, t5])))))))"

text \<open>The artifact as it is written and read back, when every threshold is a finite number.\<close>

definition written_class :: "trained_class \<Rightarrow> class_policy option" where
  "written_class c =
     (case (tc_high c, tc_medium c) of
        (Num h, Num m) \<Rightarrow>
          Some \<lparr>cp_mean = fi_mean (tc_fit c), cp_scale = fi_scale (tc_fit c), cp_coef = fi_coef (tc_fit c),
                cp_intercept = fi_intercept (tc_fit c), cp_high = h, cp_medium = m\<rparr>
      | _ \<Rightarrow> None)"

definition written_tier :: "trained_tier \<Rightarrow> tier option" where
  "written_tier t =
     (case (td_high t, td_medium t) of
        (Num h, Num m) \<Rightarrow>
          if \<exists>c \<in> set (td_per_class t). written_class (snd c) = None then None
          else Some \<lparr>ft_tier_id = td_tier_id t, ft_feature_order = Some (td_features t), ft_mean = Some (fi_mean (td_fit t)),
                     ft_scale = Some (fi_scale (td_fit t)), ft_coef = Some (fi_coef (td_fit t)),
                     ft_intercept = Some (fi_intercept (td_fit t)), ft_high = Some h, ft_medium = Some m,
                     ft_per_class = map (\<lambda>(c, p). (c, the (written_class p))) (td_per_class t)\<rparr>
      | _ \<Rightarrow> None)"

definition written_artifact :: "trained_tier \<times> trained_tier list \<Rightarrow> artifact option" where
  "written_artifact ts =
     (if written_tier (fst ts) = None \<or> (\<exists>t \<in> set (snd ts). written_tier t = None) then None
      else Some \<lparr>art_floor = the (written_tier (fst ts)), art_upgrade_tiers = map (\<lambda>t. the (written_tier t)) (snd ts)\<rparr>)"

section \<open>What scikit-learn documents\<close>

text \<open>The standardised linear term of a row under a fit.\<close>

definition fit_term :: "fitted \<Rightarrow> real list \<Rightarrow> real" where
  "fit_term m x = fi_intercept m + sum_list (map (\<lambda>(v, mean, scale, coef). coef * ((v - mean) / scale))
     (zip x (zip (fi_mean m) (zip (fi_scale m) (fi_coef m)))))"

text \<open>
  No fit without rows; one mean, scale and coefficient per column, no scale of zero, and the probability of the
  positive class is the logistic function of the standardised linear term.
\<close>

definition documented :: "fitter \<Rightarrow> bool" where
  "documented fit \<longleftrightarrow> (\<forall>X y m n. fit X y = Some m \<and> (\<forall>x \<in> set X. length x = n) \<longrightarrow>
     X \<noteq> [] \<and> length (fi_mean m) = n \<and> length (fi_scale m) = n \<and> length (fi_coef m) = n \<and> 0 \<notin> set (fi_scale m)
     \<and> fi_probs m = map (\<lambda>x. 1 / (1 + exp (- fit_term m x))) X)"

section \<open>Lemmas\<close>

lemma linear_term_sum:
  "(\<forall>(n, mean, scale, coef) \<in> set rows. map_of fv n = Some (val n) \<and> scale \<noteq> 0) \<Longrightarrow>
   linear_term fv z rows = Inr (z + sum_list (map (\<lambda>(n, mean, scale, coef). coef * ((val n - mean) / scale)) rows))"
  by (induction fv z rows rule: linear_term.induct) auto

lemma map_of_zip_map: "n \<in> set order \<Longrightarrow> map_of (zip order (map val order)) n = Some (val n)"
  by (induction order) auto

text \<open>The deployed score of a row is the logistic function of its linear term.\<close>

lemma apply_fit:
  assumes "length (fi_mean m) = length order" "length (fi_scale m) = length order" "length (fi_coef m) = length order" "0 \<notin> set (fi_scale m)"
    and "cp_mean p = fi_mean m" "cp_scale p = fi_scale m" "cp_coef p = fi_coef m" "cp_intercept p = fi_intercept m"
    and "\<bar>fit_term m (map val order)\<bar> \<le> 60"
  shows "apply_policy (zip order (map val order)) p order = Inr (1 / (1 + exp (- fit_term m (map val order))))"
proof -
  let ?rows = "zip order (zip (fi_mean m) (zip (fi_scale m) (fi_coef m)))"
  have "\<forall>(n, mean, scale, coef) \<in> set ?rows. map_of (zip order (map val order)) n = Some (val n) \<and> scale \<noteq> 0"
    using assms(4) map_of_zip_map [of _ order val]
    by (fastforce dest: set_zip_leftD set_zip_rightD)
  from linear_term_sum [OF this] have "linear_term (zip order (map val order)) (fi_intercept m) ?rows = Inr (fit_term m (map val order))"
    by (simp add: fit_term_def zip_map1 comp_def case_prod_unfold)
  moreover have "sigmoid (fit_term m (map val order)) = 1 / (1 + exp (- fit_term m (map val order)))"
    using assms(9) by (simp add: sigmoid_def abs_le_iff)
  ultimately show ?thesis using assms(5-8) by (simp add: apply_policy_def)
qed

lemma fit_tier_Inr:
  assumes "fit_tier fit caches rows i features = Inr t"
  shows "td_features t = features \<and> fit (map (feature_row caches features) (td_rows t)) (map tw_label (td_rows t)) = Some (td_fit t)
    \<and> td_high t = threshold_at_fpr high_fpr_budget (fi_probs (td_fit t)) (map tw_label (td_rows t))
    \<and> td_medium t = threshold_at_fpr medium_fpr_budget (fi_probs (td_fit t)) (map tw_label (td_rows t))"
  using assms by (auto simp: fit_tier_def bind_res_def Let_def split: option.splits sum.splits)

lemma fit_tier_self: "fit_tier fit caches rows i fs = Inr t \<Longrightarrow> fit_tier fit caches rows i (td_features t) = Inr t"
  using fit_tier_Inr by metis

lemma train_Inr:
  assumes "train fit evidence rows = Inr ts"
  obtains rows' where "fit_tier fit (cached_scores evidence) rows' None floor_features = Inr (fst ts)"
    "length (snd ts) = 4" "fit_tier fit (cached_scores evidence) rows' (Some ''nine_feature'') tier_9_features = Inr (snd ts ! 0)"
    "fit_tier fit (cached_scores evidence) rows' (Some ''eight_feature'') tier_8_features = Inr (snd ts ! 1)"
    "fit_tier fit (cached_scores evidence) rows' (Some ''six_feature'') tier_6_features = Inr (snd ts ! 2)"
    "fit_tier fit (cached_scores evidence) rows' (Some ''five_feature'') tier_5_features = Inr (snd ts ! 3)"
  using assms by (auto simp: train_def bind_res_def Let_def split: if_splits sum.splits)

lemma four: "length xs = 4 \<Longrightarrow> xs = [xs ! 0, xs ! 1, xs ! 2, xs ! 3]"
  by (auto simp: numeral_eq_Suc length_Suc_conv)

lemma train_tiers:
  assumes "train fit evidence rows = Inr ts"
  shows "map td_features (snd ts @ [fst ts]) = [tier_9_features, tier_8_features, tier_6_features, tier_5_features, floor_features]"
    and "t \<in> set (fst ts # snd ts) \<Longrightarrow> \<exists>rows' i. fit_tier fit (cached_scores evidence) rows' i (td_features t) = Inr t"
proof -
  obtain rows' where r: "fit_tier fit (cached_scores evidence) rows' None floor_features = Inr (fst ts)"
    "length (snd ts) = 4" "fit_tier fit (cached_scores evidence) rows' (Some ''nine_feature'') tier_9_features = Inr (snd ts ! 0)"
    "fit_tier fit (cached_scores evidence) rows' (Some ''eight_feature'') tier_8_features = Inr (snd ts ! 1)"
    "fit_tier fit (cached_scores evidence) rows' (Some ''six_feature'') tier_6_features = Inr (snd ts ! 2)"
    "fit_tier fit (cached_scores evidence) rows' (Some ''five_feature'') tier_5_features = Inr (snd ts ! 3)" by (rule train_Inr [OF assms])
  note f = r(1,3-6) [THEN fit_tier_Inr, THEN conjunct1]
  have l: "snd ts = [snd ts ! 0, snd ts ! 1, snd ts ! 2, snd ts ! 3]" by (rule four [OF r(2)])
  show "map td_features (snd ts @ [fst ts]) = [tier_9_features, tier_8_features, tier_6_features, tier_5_features, floor_features]"
    using f by (subst l) simp
  have "set (fst ts # snd ts) = {fst ts, snd ts ! 0, snd ts ! 1, snd ts ! 2, snd ts ! 3}" by (subst l) auto
  moreover note g = r(1,3-6) [THEN fit_tier_self]
  have "\<exists>rows' i. fit_tier fit (cached_scores evidence) rows' i (td_features t) = Inr t"
    if "t \<in> {fst ts, snd ts ! 0, snd ts ! 1, snd ts ! 2, snd ts ! 3}"
    using that by (elim insertE emptyE; hypsubst; use g in blast)
  ultimately show "t \<in> set (fst ts # snd ts) \<Longrightarrow> \<exists>rows' i. fit_tier fit (cached_scores evidence) rows' i (td_features t) = Inr t"
    by blast
qed

text \<open>The values a prompt with the scores of a row has at request time.\<close>

definition row_features :: "(string \<Rightarrow> (string \<times> real) list option) \<Rightarrow> trained_tier \<Rightarrow> train_row \<Rightarrow> features" where
  "row_features evidence t r = zip (td_features t) (feature_row (cached_scores evidence) (td_features t) r)"

text \<open>What the library documents of a fit, on the rows it was fitted to.\<close>

lemma documented_fit:
  assumes "documented fit" "fit (map (feature_row caches fs) rows) y = Some m"
  shows "length (fi_mean m) = length fs" "length (fi_scale m) = length fs" "length (fi_coef m) = length fs" "0 \<notin> set (fi_scale m)"
    "fi_probs m = map (\<lambda>r. 1 / (1 + exp (- fit_term m (feature_row caches fs r)))) rows"
proof -
  let ?X = "map (feature_row caches fs) rows"
  have "\<forall>x \<in> set ?X. length x = length fs" by (simp add: feature_row_def)
  with assms have "?X \<noteq> [] \<and> length (fi_mean m) = length fs \<and> length (fi_scale m) = length fs
    \<and> length (fi_coef m) = length fs \<and> 0 \<notin> set (fi_scale m)
    \<and> fi_probs m = map (\<lambda>x. 1 / (1 + exp (- fit_term m x))) ?X"
    unfolding documented_def by blast
  then show "length (fi_mean m) = length fs" "length (fi_scale m) = length fs" "length (fi_coef m) = length fs" "0 \<notin> set (fi_scale m)"
    "fi_probs m = map (\<lambda>r. 1 / (1 + exp (- fit_term m (feature_row caches fs r)))) rows"
    by (simp_all add: comp_def)
qed

text \<open>A policy with the numbers of a fit gives the rows of the fit their probabilities.\<close>

lemma deployed_fit:
  assumes "documented fit" "fit (map (feature_row (cached_scores evidence) (td_features t)) rows) y = Some m"
    and "cp_mean p = fi_mean m" "cp_scale p = fi_scale m" "cp_coef p = fi_coef m" "cp_intercept p = fi_intercept m"
    and "\<forall>r \<in> set rows. \<bar>fit_term m (feature_row (cached_scores evidence) (td_features t) r)\<bar> \<le> 60"
  shows "map (\<lambda>r. apply_policy (row_features evidence t r) p (td_features t)) rows = map Inr (fi_probs m)"
proof -
  note d = documented_fit [OF assms(1,2)]
  have "apply_policy (row_features evidence t r) p (td_features t)
      = Inr (1 / (1 + exp (- fit_term m (feature_row (cached_scores evidence) (td_features t) r))))" if "r \<in> set rows" for r
    using apply_fit [OF d(1-4) assms(3-6), of "feature_value (cached_scores evidence) r"] assms(7) that
    by (simp add: row_features_def feature_row_def)
  then show ?thesis unfolding d(5) by simp
qed

text \<open>A class that is written was fitted on its own rows, under its own budgets, and once.\<close>

lemma fit_classes_Inr:
  assumes "fit_classes fit caches fs usable classes = Inr cs"
  shows "set (map fst cs) \<subseteq> set classes" "distinct classes \<Longrightarrow> distinct (map fst cs)"
    and "(cls, c) \<in> set cs \<Longrightarrow>
      (let rows = class_rows cls usable; yc = map (\<lambda>r. tw_class r = cls) rows
       in fit (map (feature_row caches fs) rows) yc = Some (tc_fit c)
        \<and> tc_high c = threshold_at_fpr per_class_high_fpr_budget (fi_probs (tc_fit c)) yc
        \<and> tc_medium c = threshold_at_fpr per_class_medium_fpr_budget (fi_probs (tc_fit c)) yc)"
  using assms
proof (induction classes arbitrary: cs)
  case Nil
  { case 1 then show ?case by simp }
  { case 2 then show ?case by simp }
  { case 3 then show ?case by simp }
next
  case (Cons k rest)
  let ?yc = "map (\<lambda>r. tw_class r = k) (class_rows k usable)"
  have step: "fit_classes fit caches fs usable rest = Inr cs
      \<or> (\<exists>m cs'. fit (map (feature_row caches fs) (class_rows k usable)) ?yc = Some m \<and> fit_classes fit caches fs usable rest = Inr cs'
          \<and> cs = (k, \<lparr>tc_fit = m, tc_high = threshold_at_fpr per_class_high_fpr_budget (fi_probs m) ?yc,
                      tc_medium = threshold_at_fpr per_class_medium_fpr_budget (fi_probs m) ?yc, tc_positive = count_true ?yc\<rparr>) # cs')"
    if "fit_classes fit caches fs usable (k # rest) = Inr cs" for cs
    using that by (auto simp: bind_res_def Let_def split: if_splits option.splits sum.splits)
  { case 1 then show ?case using step [OF 1] Cons.IH(1) by fastforce }
  { case 2 then show ?case using step [OF 2(2)] Cons.IH(1,2) by fastforce }
  { case 3
    from step [OF 3(2)] show ?case
    proof (elim disjE exE conjE)
      assume "fit_classes fit caches fs usable rest = Inr cs" then show ?thesis using Cons.IH(3) 3(1) by blast
    next
      fix m cs' assume m: "fit (map (feature_row caches fs) (class_rows k usable)) ?yc = Some m"
        and cs': "fit_classes fit caches fs usable rest = Inr cs'"
        and cs: "cs = (k, \<lparr>tc_fit = m, tc_high = threshold_at_fpr per_class_high_fpr_budget (fi_probs m) ?yc,
                      tc_medium = threshold_at_fpr per_class_medium_fpr_budget (fi_probs m) ?yc, tc_positive = count_true ?yc\<rparr>) # cs'"
      show ?thesis
      proof (cases "(cls, c) \<in> set cs'")
        case True then show ?thesis using Cons.IH(3) cs' by blast
      next
        case False then show ?thesis using 3(1) cs m by (simp add: Let_def)
      qed
    qed }
qed

lemma tier_classes:
  assumes "fit_tier fit caches rows i features = Inr t"
  shows "fit_classes fit caches (td_features t) (td_rows t) (sort (remdups (map tw_class (filter tw_label (td_rows t))))) = Inr (td_per_class t)"
  using assms by (auto simp: fit_tier_def bind_res_def Let_def split: option.splits sum.splits)

lemma map_of_written:
  "distinct (map fst cs) \<Longrightarrow> (cls, c) \<in> set cs \<Longrightarrow> map_of (map (\<lambda>(c, p). (c, f p)) cs) cls = Some (f c)"
  by (force simp: comp_def case_prod_unfold intro!: map_of_is_SomeI)

text \<open>
  What is deployed of a fitted class: under its name, the numbers of its fit and its two thresholds.
\<close>

lemma written_class_fields:
  assumes "fit_tier fit caches rows i features = Inr t" "written_tier t = Some w" "(cls, c) \<in> set (td_per_class t)"
  obtains p where "map_of (ft_per_class w) cls = Some p" "cp_mean p = fi_mean (tc_fit c)" "cp_scale p = fi_scale (tc_fit c)"
    "cp_coef p = fi_coef (tc_fit c)" "cp_intercept p = fi_intercept (tc_fit c)" "tc_high c = Num (cp_high p)" "tc_medium c = Num (cp_medium p)"
proof -
  have d: "distinct (map fst (td_per_class t))" using fit_classes_Inr(2) [OF tier_classes [OF assms(1)]] by simp
  have "written_class c \<noteq> None" and w: "ft_per_class w = map (\<lambda>(c, p). (c, the (written_class p))) (td_per_class t)"
    using assms(2,3) by (auto simp: written_tier_def split: stat.splits if_splits)
  then obtain p where p: "written_class c = Some p" by blast
  have "map_of (ft_per_class w) cls = Some p"
    unfolding w using map_of_written [OF d assms(3), of "\<lambda>p. the (written_class p)"] p by simp
  then show ?thesis using p by (intro that) (auto simp: written_class_def split: stat.splits)
qed

lemma documented_lengths:
  assumes "documented fit" "fit_tier fit (cached_scores evidence) rows' i features = Inr t"
  shows "length (fi_mean (td_fit t)) = length (td_features t)" "length (fi_scale (td_fit t)) = length (td_features t)"
    "length (fi_coef (td_fit t)) = length (td_features t)" "0 \<notin> set (fi_scale (td_fit t))"
    "fi_probs (td_fit t) = map (\<lambda>r. 1 / (1 + exp (- fit_term (td_fit t) (feature_row (cached_scores evidence) (td_features t) r)))) (td_rows t)"
proof -
  have "fit (map (feature_row (cached_scores evidence) (td_features t)) (td_rows t)) (map tw_label (td_rows t)) = Some (td_fit t)"
    using fit_tier_Inr [OF assms(2)] by simp
  note d = documented_fit [OF assms(1) this]
  show "length (fi_mean (td_fit t)) = length (td_features t)" "length (fi_scale (td_fit t)) = length (td_features t)"
    "length (fi_coef (td_fit t)) = length (td_features t)" "0 \<notin> set (fi_scale (td_fit t))"
    "fi_probs (td_fit t) = map (\<lambda>r. 1 / (1 + exp (- fit_term (td_fit t) (feature_row (cached_scores evidence) (td_features t) r)))) (td_rows t)"
    by (fact d)+
qed

lemma written_fields:
  assumes "written_tier t = Some w"
  shows "ft_feature_order w = Some (td_features t)" "tier_policy w = \<lparr>cp_mean = fi_mean (td_fit t), cp_scale = fi_scale (td_fit t),
      cp_coef = fi_coef (td_fit t), cp_intercept = fi_intercept (td_fit t), cp_high = the (ft_high w), cp_medium = the (ft_medium w)\<rparr>"
    "td_high t = Num (the (ft_high w))" "td_medium t = Num (the (ft_medium w))" "missing_fields w = []"
    "ft_mean w = Some (fi_mean (td_fit t))" "ft_scale w = Some (fi_scale (td_fit t))" "ft_coef w = Some (fi_coef (td_fit t))"
  using assms by (auto simp: written_tier_def tier_policy_def missing_fields_def split: stat.splits if_splits)

lemma written_valid:
  assumes "documented fit" "fit_tier fit (cached_scores evidence) rows' i features = Inr t" "written_tier t = Some w"
  shows "validate_tier w = Inr ()"
  using documented_lengths(1-3) [OF assms(1,2)] written_fields [OF assms(3)] by (simp add: validate_tier_def)

lemma loaded_artifact:
  assumes "train fit evidence rows = Inr ts" "documented fit" "written_artifact ts = Some a"
  shows "fu_policy (load_policy (ArtifactFile a) new_fusion_state) = Some a"
proof -
  have w: "written_tier t \<noteq> None" if "t \<in> set (fst ts # snd ts)" for t
    using assms(3) that by (auto simp: written_artifact_def split: if_splits)
  have v: "validate_tier (the (written_tier t)) = Inr ()" if "t \<in> set (fst ts # snd ts)" for t
    using train_tiers(2) [OF assms(1) that] written_valid [OF assms(2)] w [OF that] by auto
  have a: "art_floor a = the (written_tier (fst ts))" "art_upgrade_tiers a = map (\<lambda>t. the (written_tier t)) (snd ts)"
    using assms(3) by (auto simp: written_artifact_def split: if_splits)
  have "filter tier_ok (art_upgrade_tiers a) = art_upgrade_tiers a"
    unfolding a(2) using v by (intro filter_True) (simp add: tier_ok_def)
  moreover have "validate_tier (art_floor a) = Inr ()" unfolding a(1) using v by simp
  ultimately show ?thesis by (simp add: load_policy_def new_fusion_state_def)
qed

text \<open>The policy of a class is its fit, with thresholds in order and within their budgets.\<close>

lemma class_is_deployed:
  assumes "documented fit" "fit_tier fit (cached_scores evidence) rows' i features = Inr t" "written_tier t = Some w"
    and "(cls, c) \<in> set (td_per_class t)"
    and "\<forall>r \<in> set (class_rows cls (td_rows t)). \<bar>fit_term (tc_fit c) (feature_row (cached_scores evidence) (td_features t) r)\<bar> \<le> 60"
  defines "yc \<equiv> map (\<lambda>r. tw_class r = cls) (class_rows cls (td_rows t))"
  shows "\<exists>p. map_of (ft_per_class w) cls = Some p
    \<and> map (\<lambda>r. apply_policy (row_features evidence t r) p (td_features t)) (class_rows cls (td_rows t)) = map Inr (fi_probs (tc_fit c))
    \<and> cp_medium p \<le> cp_high p
    \<and> (distinct (fi_probs (tc_fit c)) \<longrightarrow> dm_fpr (derived (confusion (fi_probs (tc_fit c)) yc (cp_high p))) \<le> 224 / 10000
         \<and> dm_fpr (derived (confusion (fi_probs (tc_fit c)) yc (cp_medium p))) \<le> 895 / 10000)"
proof -
  obtain p where p: "map_of (ft_per_class w) cls = Some p" "cp_mean p = fi_mean (tc_fit c)" "cp_scale p = fi_scale (tc_fit c)"
    "cp_coef p = fi_coef (tc_fit c)" "cp_intercept p = fi_intercept (tc_fit c)" "tc_high c = Num (cp_high p)" "tc_medium c = Num (cp_medium p)"
    by (rule written_class_fields [OF assms(2-4)])
  have c: "fit (map (feature_row (cached_scores evidence) (td_features t)) (class_rows cls (td_rows t))) yc = Some (tc_fit c)"
    "tc_high c = threshold_at_fpr per_class_high_fpr_budget (fi_probs (tc_fit c)) yc"
    "tc_medium c = threshold_at_fpr per_class_medium_fpr_budget (fi_probs (tc_fit c)) yc"
    using fit_classes_Inr(3) [OF tier_classes [OF assms(2)] assms(4)] by (simp_all add: Let_def yc_def)
  have th: "threshold_at_fpr (224 / 10000) (fi_probs (tc_fit c)) yc = Num (cp_high p)"
    "threshold_at_fpr (895 / 10000) (fi_probs (tc_fit c)) yc = Num (cp_medium p)"
    using c(2,3) p(6,7) by (simp_all add: per_class_high_fpr_budget_def per_class_medium_fpr_budget_def)
  have "cp_medium p \<le> cp_high p" by (rule cutoff_antitone [OF th]) simp
  moreover have "map fst (zip (fi_probs (tc_fit c)) yc) = fi_probs (tc_fit c)"
    using documented_fit(5) [OF assms(1) c(1)] by (simp add: yc_def)
  ultimately show ?thesis
    using p(1) deployed_fit [OF assms(1) c(1) p(2-5) assms(5)] cutoff_keeps_budget [OF _ th(1)] cutoff_keeps_budget [OF _ th(2)]
    by auto
qed

section \<open>Properties\<close>

text \<open>
  C11. The artifact that training writes is the policy that is fitted, from the training to the
  request.  With the documented behaviour of the library, finite thresholds, and linear terms within
  60 on the rows of the fits (beyond, the code clamps), the loader takes the artifact as it is, no
  tier dropped, and the tiers are in the order nine, eight, six, five features, floor.  For each tier,
  applying its policy to the cached scores of a training row gives exactly the probability the fit
  gave that row; the medium threshold is at most the high one; and where no two rows score the same,
  the deployed thresholds keep the false-positive rates on these rows within 5 and 20 percent.  For
  each class of the tier the same holds of the policy stored under its name, on the rows of the class
  and the benign ones and with the probabilities of its own fit, within 2.24 and 8.95 percent.
\<close>

theorem trained_policy_is_deployed:
  assumes "train fit evidence rows = Inr ts" "documented fit" "written_artifact ts = Some a"
    and "t \<in> set (fst ts # snd ts)" "written_tier t = Some w"
    and "\<forall>r \<in> set (td_rows t). \<bar>fit_term (td_fit t) (feature_row (cached_scores evidence) (td_features t) r)\<bar> \<le> 60"
    and "\<forall>(cls, c) \<in> set (td_per_class t). \<forall>r \<in> set (class_rows cls (td_rows t)).
      \<bar>fit_term (tc_fit c) (feature_row (cached_scores evidence) (td_features t) r)\<bar> \<le> 60"
  shows "fu_policy (load_policy (ArtifactFile a) new_fusion_state) = Some a
    \<and> map (\<lambda>w. the (ft_feature_order w)) (all_tiers a) = [tier_9_features, tier_8_features, tier_6_features, tier_5_features, floor_features]
    \<and> w \<in> set (all_tiers a)
    \<and> map (\<lambda>r. apply_policy (row_features evidence t r) (tier_policy w) (the (ft_feature_order w))) (td_rows t) = map Inr (fi_probs (td_fit t))
    \<and> the (ft_medium w) \<le> the (ft_high w)
    \<and> (distinct (fi_probs (td_fit t)) \<longrightarrow>
         dm_fpr (derived (confusion (fi_probs (td_fit t)) (map tw_label (td_rows t)) (the (ft_high w)))) \<le> 5 / 100
       \<and> dm_fpr (derived (confusion (fi_probs (td_fit t)) (map tw_label (td_rows t)) (the (ft_medium w)))) \<le> 20 / 100)
    \<and> (\<forall>(cls, c) \<in> set (td_per_class t). \<exists>p. map_of (ft_per_class w) cls = Some p
         \<and> map (\<lambda>r. apply_policy (row_features evidence t r) p (the (ft_feature_order w))) (class_rows cls (td_rows t))
             = map Inr (fi_probs (tc_fit c))
         \<and> cp_medium p \<le> cp_high p
         \<and> (distinct (fi_probs (tc_fit c)) \<longrightarrow>
              dm_fpr (derived (confusion (fi_probs (tc_fit c)) (map (\<lambda>r. tw_class r = cls) (class_rows cls (td_rows t))) (cp_high p))) \<le> 224 / 10000
            \<and> dm_fpr (derived (confusion (fi_probs (tc_fit c)) (map (\<lambda>r. tw_class r = cls) (class_rows cls (td_rows t))) (cp_medium p))) \<le> 895 / 10000))"
proof -
  let ?labels = "map tw_label (td_rows t)" and ?probs = "fi_probs (td_fit t)"
  obtain rows' i where ft: "fit_tier fit (cached_scores evidence) rows' i (td_features t) = Inr t" using train_tiers(2) [OF assms(1,4)] by blast
  note d = documented_lengths [OF assms(2) ft] and f = written_fields [OF assms(5)]
  have fit: "fit (map (feature_row (cached_scores evidence) (td_features t)) (td_rows t)) ?labels = Some (td_fit t)" using fit_tier_Inr [OF ft] by simp
  have ok: "written_tier x \<noteq> None" if "x \<in> set (fst ts # snd ts)" for x
    using assms(3) that by (auto simp: written_artifact_def split: if_splits)
  have a: "all_tiers a = map (\<lambda>t. the (written_tier t)) (snd ts @ [fst ts])"
    using assms(3) by (auto simp: written_artifact_def all_tiers_def split: if_splits)
  have "the (ft_feature_order (the (written_tier x))) = td_features x" if "x \<in> set (fst ts # snd ts)" for x
    using ok [OF that] by (auto simp: written_fields(1))
  then have "map (\<lambda>w. the (ft_feature_order w)) (all_tiers a) = map td_features (snd ts @ [fst ts])" unfolding a by simp
  then have order: "map (\<lambda>w. the (ft_feature_order w)) (all_tiers a) = [tier_9_features, tier_8_features, tier_6_features, tier_5_features, floor_features]"
    unfolding train_tiers(1) [OF assms(1)] .
  have mem: "w \<in> set (all_tiers a)" unfolding a using assms(4,5) by force
  have scores: "map (\<lambda>r. apply_policy (row_features evidence t r) (tier_policy w) (the (ft_feature_order w))) (td_rows t) = map Inr ?probs"
    using deployed_fit [OF assms(2) fit _ _ _ _ assms(6), of "tier_policy w"] f(1,2) by simp
  have th: "threshold_at_fpr (5 / 100) ?probs ?labels = Num (the (ft_high w))" "threshold_at_fpr (20 / 100) ?probs ?labels = Num (the (ft_medium w))"
    using fit_tier_Inr [OF ft] f(3,4) by (simp_all add: high_fpr_budget_def medium_fpr_budget_def)
  have le: "the (ft_medium w) \<le> the (ft_high w)" by (rule cutoff_antitone [OF th]) simp
  have zip: "map fst (zip ?probs ?labels) = ?probs" by (simp add: d(5))
  have classes: "\<exists>p. map_of (ft_per_class w) cls = Some p
         \<and> map (\<lambda>r. apply_policy (row_features evidence t r) p (the (ft_feature_order w))) (class_rows cls (td_rows t)) = map Inr (fi_probs (tc_fit c))
         \<and> cp_medium p \<le> cp_high p
         \<and> (distinct (fi_probs (tc_fit c)) \<longrightarrow>
              dm_fpr (derived (confusion (fi_probs (tc_fit c)) (map (\<lambda>r. tw_class r = cls) (class_rows cls (td_rows t))) (cp_high p))) \<le> 224 / 10000
            \<and> dm_fpr (derived (confusion (fi_probs (tc_fit c)) (map (\<lambda>r. tw_class r = cls) (class_rows cls (td_rows t))) (cp_medium p))) \<le> 895 / 10000)"
    if c: "(cls, c) \<in> set (td_per_class t)" for cls c
    using class_is_deployed [OF assms(2) ft assms(5) c] assms(7) c f(1) by fastforce
  have "fu_policy (load_policy (ArtifactFile a) new_fusion_state) = Some a" by (rule loaded_artifact [OF assms(1-3)])
  moreover have "distinct ?probs \<longrightarrow> dm_fpr (derived (confusion ?probs ?labels (the (ft_high w)))) \<le> 5 / 100
      \<and> dm_fpr (derived (confusion ?probs ?labels (the (ft_medium w)))) \<le> 20 / 100"
    using cutoff_keeps_budget [OF _ th(1)] cutoff_keeps_budget [OF _ th(2)] zip by simp
  ultimately show ?thesis using order mem scores le classes by blast
qed

section \<open>Witness\<close>

text \<open>An attack and a benign row, and a fit that adds the scores up.\<close>

definition sum_fit :: fitter where
  "sum_fit X y =
     (case X of
        [] \<Rightarrow> None
      | x # _ \<Rightarrow>
          (let n = length x; m = \<lparr>fi_mean = replicate n 0, fi_scale = replicate n 1, fi_coef = replicate n 1, fi_intercept = 0, fi_probs = []\<rparr>
           in Some (m\<lparr>fi_probs := map (\<lambda>x. 1 / (1 + exp (- fit_term m x))) X\<rparr>)))"

lemma sum_fit_documented: "documented sum_fit"
  by (auto simp: documented_def sum_fit_def fit_term_def Let_def split: list.splits)

definition two_rows :: "train_row list" where
  "two_rows = [\<lparr>tw_id = ''a'', tw_label = True, tw_class = ''jailbreak''\<rparr>, \<lparr>tw_id = ''b'', tw_label = False, tw_class = ''benign''\<rparr>]"

definition two_scores :: "string \<Rightarrow> (string \<times> real) list option" where
  "two_scores f = Some [(''a'', 1), (''b'', 0)]"

lemma two_cached [simp]: "cached_scores two_scores f = [(''a'', 1), (''b'', 0)]"
  by (simp add: cached_scores_def two_scores_def load_scores_def od_set_def)

lemma two_rows_cutoff: "q < p \<Longrightarrow> 0 \<le> b \<Longrightarrow> b < 1 \<Longrightarrow> threshold_at_fpr b [p, q] [True, False] = Num p"
  by (simp add: threshold_at_fpr_def roc_points_def Let_def count_true_def feasible_def best_point_def point_less_def)

definition sum_fitted :: "nat \<Rightarrow> fitted" where
  "sum_fitted n = \<lparr>fi_mean = replicate n 0, fi_scale = replicate n 1, fi_coef = replicate n 1, fi_intercept = 0,
     fi_probs = [1 / (1 + exp (- real n)), 1 / 2]\<rparr>"

lemma sum_term: "fit_term m (replicate n v) = real n * v"
  if "fi_mean m = replicate n 0" "fi_scale m = replicate n 1" "fi_coef m = replicate n 1" "fi_intercept m = 0"
  using that by (simp add: fit_term_def sum_list_replicate)

lemma sum_fit_two:
  "sum_fit [replicate n 1, replicate n 0] y = Some (sum_fitted n)"
  by (simp add: sum_fit_def sum_fitted_def Let_def sum_term)

lemma two_feature_rows: "feature_row (cached_scores two_scores) fs \<lparr>tw_id = ''a'', tw_label = l, tw_class = c\<rparr> = replicate (length fs) 1"
  "feature_row (cached_scores two_scores) fs \<lparr>tw_id = ''b'', tw_label = l, tw_class = c\<rparr> = replicate (length fs) 0"
proof -
  have "feature_value (cached_scores two_scores) \<lparr>tw_id = ''a'', tw_label = l, tw_class = c\<rparr> = (\<lambda>_. 1)"
    "feature_value (cached_scores two_scores) \<lparr>tw_id = ''b'', tw_label = l, tw_class = c\<rparr> = (\<lambda>_. 0)"
    by (simp_all add: fun_eq_iff feature_value_def od_get_def)
  then show "feature_row (cached_scores two_scores) fs \<lparr>tw_id = ''a'', tw_label = l, tw_class = c\<rparr> = replicate (length fs) 1"
    "feature_row (cached_scores two_scores) fs \<lparr>tw_id = ''b'', tw_label = l, tw_class = c\<rparr> = replicate (length fs) 0"
    by (simp_all add: feature_row_def map_replicate_const)
qed

lemma half_less: "0 < n \<Longrightarrow> 1 / 2 < 1 / (1 + exp (- real n))"
  by (simp add: field_simps add_pos_pos)

definition two_tier :: "string option \<Rightarrow> string list \<Rightarrow> trained_tier" where
  "two_tier i fs =
     (let n = length fs; p = Num (1 / (1 + exp (- real n)))
      in \<lparr>td_tier_id = i, td_features = fs, td_rows = two_rows, td_fit = sum_fitted n, td_high = p, td_medium = p,
          td_per_class = [(''jailbreak'', \<lparr>tc_fit = sum_fitted n, tc_high = p, tc_medium = p, tc_positive = 1\<rparr>)]\<rparr>)"

lemma two_fit_tier:
  assumes "fs \<noteq> []"
  shows "fit_tier sum_fit (cached_scores two_scores) two_rows i fs = Inr (two_tier i fs)"
proof -
  have u: "usable_rows fs (cached_scores two_scores) two_rows = two_rows"
    by (simp add: usable_rows_def two_rows_def od_get_def)
  have c: "threshold_at_fpr b (fi_probs (sum_fitted (length fs))) [True, False] = Num (1 / (1 + exp (- real (length fs))))"
    if "0 \<le> b" "b < 1" for b
    using two_rows_cutoff [OF half_less that] assms by (simp add: sum_fitted_def)
  have f: "fit_classes sum_fit (cached_scores two_scores) fs two_rows [''jailbreak'']
      = Inr [(''jailbreak'', \<lparr>tc_fit = sum_fitted (length fs), tc_high = Num (1 / (1 + exp (- real (length fs)))),
           tc_medium = Num (1 / (1 + exp (- real (length fs)))), tc_positive = 1\<rparr>)]"
    by (simp add: class_rows_def two_rows_def two_feature_rows sum_fit_two c per_class_high_fpr_budget_def per_class_medium_fpr_budget_def
        count_true_def bind_res_def Let_def del: two_cached)
  have "map tw_label two_rows = [True, False]" "sort (remdups (map tw_class (filter tw_label two_rows))) = [''jailbreak'']"
    "map (feature_row (cached_scores two_scores) fs) two_rows = [replicate (length fs) 1, replicate (length fs) 0]"
    by (simp_all add: two_rows_def two_feature_rows del: two_cached)
  then show ?thesis
    by (simp add: fit_tier_def u sum_fit_two f c high_fpr_budget_def medium_fpr_budget_def two_tier_def bind_res_def Let_def
        del: two_cached fit_classes.simps)
qed

lemma two_train:
  "train sum_fit two_scores two_rows = Inr (two_tier None floor_features,
     [two_tier (Some ''nine_feature'') tier_9_features, two_tier (Some ''eight_feature'') tier_8_features,
      two_tier (Some ''six_feature'') tier_6_features, two_tier (Some ''five_feature'') tier_5_features])"
proof -
  have "filter (\<lambda>r. od_get (cached_scores two_scores ''anchors'') (tw_id r) \<noteq> None) two_rows = two_rows"
    by (simp add: two_rows_def od_get_def)
  moreover have "\<not> (\<exists>f \<in> set tier_9_features. two_scores f = None)" by (simp add: two_scores_def)
  ultimately show ?thesis
    by (simp add: train_def two_fit_tier bind_res_def Let_def floor_features_def tier_5_features_def tier_6_features_def
        tier_8_features_def tier_9_features_def del: two_cached)
qed

lemma two_written: "\<exists>w. written_tier (two_tier i fs) = Some w"
  by (simp add: written_tier_def two_tier_def written_class_def Let_def)

theorem trained_policy_is_deployed_witness:
  "\<exists>ts a w. train sum_fit two_scores two_rows = Inr ts \<and> fu_policy (load_policy (ArtifactFile a) new_fusion_state) = Some a
     \<and> w \<in> set (all_tiers a) \<and> the (ft_medium w) \<le> the (ft_high w)
     \<and> map (\<lambda>r. apply_policy (row_features two_scores (fst ts) r) (tier_policy w) (the (ft_feature_order w))) two_rows
         = [Inr (1 / (1 + exp (- 4))), Inr (1 / 2)]"
proof -
  let ?t = "two_tier None floor_features"
  obtain ts where ts: "train sum_fit two_scores two_rows = Inr ts" "fst ts = ?t"
    "\<forall>x \<in> set (fst ts # snd ts). \<exists>i fs. x = two_tier i fs" using two_train by auto
  then obtain a where a: "written_artifact ts = Some a"
    using two_written by (fastforce simp: written_artifact_def)
  obtain w where w: "written_tier ?t = Some w" using two_written by blast
  have small: "\<forall>r \<in> set (td_rows ?t). \<bar>fit_term (td_fit ?t) (feature_row (cached_scores two_scores) (td_features ?t) r)\<bar> \<le> 60"
    "\<forall>(cls, c) \<in> set (td_per_class ?t). \<forall>r \<in> set (class_rows cls (td_rows ?t)).
       \<bar>fit_term (tc_fit c) (feature_row (cached_scores two_scores) (td_features ?t) r)\<bar> \<le> 60"
    by (simp_all add: two_tier_def two_rows_def class_rows_def two_feature_rows fit_term_def sum_fitted_def floor_features_def Let_def del: two_cached)
  have t: "td_rows ?t = two_rows" "fi_probs (td_fit ?t) = [1 / (1 + exp (- 4)), 1 / 2]"
    by (simp_all add: two_tier_def sum_fitted_def floor_features_def Let_def)
  have "?t \<in> set (fst ts # snd ts)" using ts(2) by simp
  note d = trained_policy_is_deployed [OF ts(1) sum_fit_documented a this w small]
  have "map (\<lambda>r. apply_policy (row_features two_scores (fst ts) r) (tier_policy w) (the (ft_feature_order w))) two_rows
      = [Inr (1 / (1 + exp (- 4))), Inr (1 / 2)]"
    using d unfolding t ts(2) by simp
  moreover have "fu_policy (load_policy (ArtifactFile a) new_fusion_state) = Some a" "w \<in> set (all_tiers a)" "the (ft_medium w) \<le> the (ft_high w)"
    using d by simp_all
  ultimately show ?thesis using ts(1) by (intro exI [of _ ts] exI [of _ a] exI [of _ w] conjI)
qed

end
