(* ===== verification/Calibration.thy ===== *)
theory Calibration
  imports Risk Evaluation
begin

text \<open>
  The choice of the pipeline's thresholds, \<open>scripts/calibrate_thresholds.py\<close>: the signals of a
  prompt, the prediction under candidate thresholds, the sweep over the grid, the curves and the
  split.

  Numbers are reals, so the grid is exact; the shuffle is a parameter, and files, plots and the
  report are left out.
\<close>

section \<open>Definitions from the code\<close>

record cal_record =
  cr_prompt :: string
  cr_malicious :: bool
  cr_symbolic :: bool
  cr_detail :: "string option"
  cr_threat :: real
  cr_meta :: real

definition extract_record :: "'v models \<Rightarrow> symbolic_rules \<Rightarrow> string \<times> int \<Rightarrow> cal_record" where
  "extract_record md rules row =
     (let prompt = fst row; detail = hard_ban_triggered md rules prompt; vec = md_embed md prompt
      in \<lparr>cr_prompt = prompt, cr_malicious = (snd row = 1), cr_symbolic = (detail \<noteq> None), cr_detail = detail,
          cr_threat = md_threat_similarity md vec, cr_meta = check_meta_intent md vec\<rparr>)"

definition predict :: "cal_record \<Rightarrow> real \<Rightarrow> real \<Rightarrow> real \<Rightarrow> bool" where
  "predict rc t_high t_med t_meta =
     (if cr_symbolic rc then True else if cr_meta rc \<ge> t_meta then True else cr_threat rc \<ge> t_med)"

definition count_prediction :: "real \<Rightarrow> real \<Rightarrow> real \<Rightarrow> confusion_matrix \<Rightarrow> cal_record \<Rightarrow> confusion_matrix" where
  "count_prediction t_high t_med t_meta cm r =
     (let pred = predict r t_high t_med t_meta
      in if cr_malicious r \<and> pred then cm\<lparr>cm_tp := cm_tp cm + 1\<rparr>
         else if \<not> cr_malicious r \<and> pred then cm\<lparr>cm_fp := cm_fp cm + 1\<rparr>
         else if \<not> cr_malicious r \<and> \<not> pred then cm\<lparr>cm_tn := cm_tn cm + 1\<rparr>
         else cm\<lparr>cm_fn := cm_fn cm + 1\<rparr>)"

definition confusion_under :: "cal_record list \<Rightarrow> real \<Rightarrow> real \<Rightarrow> real \<Rightarrow> confusion_matrix" where
  "confusion_under records t_high t_med t_meta =
     foldl (count_prediction t_high t_med t_meta) \<lparr>cm_tp = 0, cm_fp = 0, cm_tn = 0, cm_fn = 0\<rparr> records"

text \<open>\<open>round(x, 4)\<close>.\<close>

definition round4 :: "real \<Rightarrow> real" where
  "round4 x = real_of_int (round (x * 10000)) / 10000"

record operating_point =
  op_high :: real
  op_medium :: real
  op_meta :: real
  op_accuracy :: real
  op_precision :: real
  op_recall :: real
  op_f1 :: real
  op_fpr :: real
  op_confusion :: confusion_matrix

definition metrics_at :: "cal_record list \<Rightarrow> real \<Rightarrow> real \<Rightarrow> real \<Rightarrow> operating_point" where
  "metrics_at records t_high t_med t_meta =
     (let cm = confusion_under records t_high t_med t_meta; tp = cm_tp cm; fp = cm_fp cm; tn = cm_tn cm; fn = cm_fn cm;
          precision = ratio tp (tp + fp); recall = ratio tp (tp + fn)
      in \<lparr>op_high = round4 t_high, op_medium = round4 t_med, op_meta = round4 t_meta,
          op_accuracy = ratio (tp + tn) (tp + fp + tn + fn), op_precision = precision, op_recall = recall,
          op_f1 = (if precision + recall \<noteq> 0 then 2 * precision * recall / (precision + recall) else 0),
          op_fpr = ratio fp (fp + tn), op_confusion = cm\<rparr>)"

definition continuous_score :: "cal_record \<Rightarrow> real" where
  "continuous_score rc = (if cr_symbolic rc then 1 else max (cr_threat rc) (cr_meta rc))"

definition scored_rows :: "cal_record list \<Rightarrow> (real \<times> bool) list" where
  "scored_rows records = map (\<lambda>r. (continuous_score r, cr_malicious r)) records"

type_synonym curve = "(real \<times> real \<times> real) list"

fun curve_from :: "real \<Rightarrow> real \<Rightarrow> nat \<Rightarrow> nat \<Rightarrow> (real \<times> bool) list \<Rightarrow> curve" where
  "curve_from n_neg n_pos tp fp [] = []"
| "curve_from n_neg n_pos tp fp ((score, is_mal) # ps) =
     (let tp' = (if is_mal then tp + 1 else tp); fp' = (if is_mal then fp else fp + 1)
      in (real fp' / n_neg, real tp' / n_pos, score) # curve_from n_neg n_pos tp' fp' ps)"

text \<open>The sum over neighbouring points.\<close>

fun trapezoids :: "curve \<Rightarrow> real" where
  "trapezoids ((x0, y0, t0) # (x1, y1, t1) # pts) = (x1 - x0) * (y0 + y1) / 2 + trapezoids ((x1, y1, t1) # pts)"
| "trapezoids pts = 0"

definition roc_curve :: "cal_record list \<Rightarrow> curve \<times> real" where
  "roc_curve records =
     (let ordered = sort_key (\<lambda>x. - fst x) (scored_rows records);
          n_pos = count_true (map snd ordered); n_neg = length ordered - n_pos
      in if n_pos = 0 \<or> n_neg = 0 then ([], 0)
         else let points = (0, 0, 101 / 100) # curve_from (real n_neg) (real n_pos) 0 0 ordered @ [(1, 1, - (1 / 100))]
              in (points, trapezoids points))"

fun pr_from :: "real \<Rightarrow> nat \<Rightarrow> nat \<Rightarrow> (real \<times> bool) list \<Rightarrow> curve" where
  "pr_from n_pos tp fp [] = []"
| "pr_from n_pos tp fp ((score, is_mal) # ps) =
     (let tp' = (if is_mal then tp + 1 else tp); fp' = (if is_mal then fp else fp + 1)
      in (real tp' / n_pos, real tp' / real (tp' + fp'), score) # pr_from n_pos tp' fp' ps)"

definition pr_curve :: "cal_record list \<Rightarrow> curve" where
  "pr_curve records =
     (let ordered = sort_key (\<lambda>x. - fst x) (scored_rows records); n_pos = count_true (map snd ordered)
      in if n_pos = 0 then [] else pr_from (real n_pos) 0 0 ordered)"

text \<open>\<open>frange\<close>: its loop need not end for a step that is not positive.\<close>

partial_function (option) frange_from :: "real \<Rightarrow> real \<Rightarrow> real \<Rightarrow> real list option" where
  "frange_from v stop step =
     (if v \<le> stop + 1 / 10 ^ 9 then Option.bind (frange_from (v + step) stop step) (\<lambda>vs. Some (round4 v # vs)) else Some [])"

definition frange :: "real \<Rightarrow> real \<Rightarrow> real \<Rightarrow> real list option" where
  "frange start stop step = frange_from start stop step"

text \<open>\<open>max\<close> and \<open>min\<close> with a key: the first of the best.\<close>

definition first_best :: "('a \<Rightarrow> 'a \<Rightarrow> bool) \<Rightarrow> 'a \<Rightarrow> 'a list \<Rightarrow> 'a" where
  "first_best better x xs = foldl (\<lambda>m y. if better y m then y else m) x xs"

definition better_recall :: "operating_point \<Rightarrow> operating_point \<Rightarrow> bool" where
  "better_recall m m' \<longleftrightarrow> op_recall m > op_recall m' \<or> op_recall m = op_recall m' \<and> op_precision m > op_precision m'"

record sweep_result =
  sw_grid :: "operating_point list"
  sw_best :: operating_point
  sw_best_f1 :: operating_point
  sw_feasible :: bool

definition build_grid :: "cal_record list \<Rightarrow> real list \<Rightarrow> real list \<Rightarrow> operating_point list" where
  "build_grid records meds metas =
     concat (map (\<lambda>t_med. map (\<lambda>t_meta. metrics_at records (max t_med (48 / 100)) t_med t_meta) metas) meds)"

definition sweep :: "cal_record list \<Rightarrow> real \<Rightarrow> sweep_result option" where
  "sweep records fpr_budget =
     Option.bind (frange (5 / 100) (70 / 100) (1 / 100)) (\<lambda>meds.
     Option.bind (frange (20 / 100) (80 / 100) (5 / 100)) (\<lambda>metas.
       let grid = build_grid records meds metas; ok = filter (\<lambda>m. op_fpr m \<le> fpr_budget) grid
       in (case grid of
             [] \<Rightarrow> None
           | g # gs \<Rightarrow> Some
               \<lparr>sw_grid = grid,
                sw_best = (case ok of m # ms \<Rightarrow> first_best better_recall m ms | [] \<Rightarrow> first_best (\<lambda>m m'. op_fpr m < op_fpr m') g gs),
                sw_best_f1 = first_best (\<lambda>m m'. op_f1 m > op_f1 m') g gs, sw_feasible = (ok \<noteq> [])\<rparr>)))"

text \<open>The split, over the shuffled records, and the figures on the part held out.\<close>

definition split_at_fraction :: "cal_record list \<Rightarrow> cal_record list \<times> cal_record list" where
  "split_at_fraction shuffled =
     (let split = nat \<lfloor>real (length shuffled) * (1 - 3 / 10)\<rfloor> in (take split shuffled, drop split shuffled))"

definition calibrate :: "(cal_record list \<Rightarrow> cal_record list) \<Rightarrow> cal_record list \<Rightarrow> real \<Rightarrow> (sweep_result \<times> operating_point) option" where
  "calibrate shuffle records fpr_budget =
     (let (calib, holdout) = split_at_fraction (shuffle records) in
      map_option (\<lambda>sw. (sw, metrics_at holdout (op_high (sw_best sw)) (op_medium (sw_best sw)) (op_meta (sw_best sw)))) (sweep calib fpr_budget))"

section \<open>The prediction is the pipeline's\<close>

text \<open>
  C14. The rule that is calibrated is the rule that runs.  With the fusion unavailable, the domain
  guardrail not enforcing and medium at most high, a prompt is predicted flagged exactly when the
  symbolic veto or the fast path stops it or the deterministic fusion does not call it LOW.
\<close>

theorem calibration_mirrors_pipeline:
  assumes "collect_semantic_signals md st prompt (md_embed md prompt) (fast_path_signals md (md_embed md prompt)) fu = (Inr sg, fu')"
    and "\<not> fr_available (sg_fusion sg)" "rk_domain_mode st \<noteq> ''enforcing''" "rk_medium st \<le> rk_high st"
  shows "predict (extract_record md rules (prompt, label)) (rk_high st) (rk_medium st) (rk_meta_intent_threshold st)
    \<longleftrightarrow> hard_ban_triggered md rules prompt \<noteq> None
      \<or> fast_path_decision st (fast_path_signals md (md_embed md prompt)) \<noteq> None
      \<or> fst (fuse_signals st sg) \<noteq> ''LOW''"
proof -
  have s: "sg_meta_intent_score sg = check_meta_intent md (md_embed md prompt)" "sg_threat_score sg = md_threat_similarity md (md_embed md prompt)"
    using assms(1) by (auto simp: collect_semantic_signals_def fast_path_signals_def Let_def split: sum.splits prod.splits)
  show ?thesis
    using assms(2-4) s
    by (auto simp: predict_def extract_record_def fast_path_decision_def fast_path_signals_def fuse_signals_def Let_def)
qed

section \<open>The sweep\<close>

lemma frange_total:
  assumes "0 < step"
  shows "\<exists>vs. frange_from v stop step = Some vs \<and> (v \<le> stop \<longrightarrow> vs \<noteq> []) \<and> (\<forall>x \<in> set vs. \<exists>y. x = round4 y)"
proof (induction "nat \<lceil>(stop + 1 / 10 ^ 9 - v) / step + 1\<rceil>" arbitrary: v rule: less_induct)
  case less
  show ?case
  proof (cases "v \<le> stop + 1 / 10 ^ 9")
    case True
    have e: "(stop + 1 / 10 ^ 9 - (v + step)) / step + 1 = ((stop + 1 / 10 ^ 9 - v) / step + 1) - 1"
      using assms by (simp add: field_simps)
    have "0 \<le> (stop + 1 / 10 ^ 9 - v) / step" using True assms by simp
    then have "nat \<lceil>(stop + 1 / 10 ^ 9 - (v + step)) / step + 1\<rceil> < nat \<lceil>(stop + 1 / 10 ^ 9 - v) / step + 1\<rceil>"
      unfolding e by (simp add: ceiling_diff_one nat_less_iff)
    from less [OF this] obtain vs where "frange_from (v + step) stop step = Some vs" "\<forall>x \<in> set vs. \<exists>y. x = round4 y" by blast
    then show ?thesis using True by (subst frange_from.simps) auto
  next
    case False
    then have "\<not> v \<le> stop" by simp
    then show ?thesis using False by (subst frange_from.simps) simp
  qed
qed

lemma round4_idem [simp]: "round4 (round4 x) = round4 x"
  by (simp add: round4_def)

lemma round4_max: "round4 (max (round4 x) (48 / 100)) = max (round4 x) (48 / 100)"
proof -
  have "round4 (48 / 100) = 48 / 100" by (simp add: round4_def)
  then show ?thesis by (simp add: max_def)
qed

lemma first_best_props:
  assumes "\<And>x. \<not> better x x" "\<And>x y z. \<not> better x y \<Longrightarrow> \<not> better y z \<Longrightarrow> \<not> better x z" "\<And>x y. better x y \<Longrightarrow> \<not> better y x"
  shows "first_best better x xs \<in> set (x # xs) \<and> (\<forall>y \<in> set (x # xs). \<not> better y (first_best better x xs))"
proof (induction xs rule: rev_induct)
  case (snoc y xs)
  let ?m = "first_best better x xs"
  have b: "first_best better x (xs @ [y]) = (if better y ?m then y else ?m)" by (simp add: first_best_def)
  show ?case
  proof (cases "better y ?m")
    case True
    then have "\<forall>z \<in> set (x # xs). \<not> better z y" using snoc assms(2,3) by blast
    then show ?thesis unfolding b using True assms(1) by auto
  next
    case False
    then show ?thesis unfolding b using snoc by auto
  qed
qed (simp add: first_best_def assms(1))

lemma metrics_fields:
  "op_high (metrics_at records h m t) = round4 h" "op_medium (metrics_at records h m t) = round4 m"
  "op_meta (metrics_at records h m t) = round4 t"
  by (simp_all add: metrics_at_def Let_def)

lemma grid_points:
  assumes "\<forall>x \<in> set meds. \<exists>y. x = round4 y" "\<forall>x \<in> set metas. \<exists>y. x = round4 y" "m \<in> set (build_grid records meds metas)"
  shows "m = metrics_at records (op_high m) (op_medium m) (op_meta m) \<and> op_medium m \<le> op_high m"
proof -
  obtain a b where ab: "m = metrics_at records (max (round4 a) (48 / 100)) (round4 a) (round4 b)"
    using assms by (fastforce simp: build_grid_def)
  have "op_high m = max (round4 a) (48 / 100)" "op_medium m = round4 a" "op_meta m = round4 b"
    unfolding ab metrics_fields by (rule round4_max round4_idem)+
  then show ?thesis using ab by simp
qed

lemma grid_nonempty: "meds \<noteq> [] \<Longrightarrow> metas \<noteq> [] \<Longrightarrow> build_grid records meds metas \<noteq> []"
  by (cases meds; cases metas) (auto simp: build_grid_def)

lemma best_recall_props:
  "first_best better_recall x xs \<in> set (x # xs) \<and> (\<forall>y \<in> set (x # xs). \<not> better_recall y (first_best better_recall x xs))"
  by (rule first_best_props) (auto simp: better_recall_def)

text \<open>
  C23. The sweep always returns, and its selection is optimal on the grid: when some point keeps the
  false-positive budget the selected one does, with the greatest recall of those and among equals
  the greatest precision; otherwise it has the least false-positive rate.  Its medium threshold is
  at most its high one, and its figures are those of the thresholds it reports.
\<close>

theorem sweep_selects_best:
  "\<exists>sw. sweep records budget = Some sw \<and> sw_best sw \<in> set (sw_grid sw)
    \<and> sw_feasible sw = (\<exists>m \<in> set (sw_grid sw). op_fpr m \<le> budget)
    \<and> (if sw_feasible sw
       then op_fpr (sw_best sw) \<le> budget
         \<and> (\<forall>m \<in> set (sw_grid sw). op_fpr m \<le> budget \<longrightarrow> op_recall m < op_recall (sw_best sw)
             \<or> op_recall m = op_recall (sw_best sw) \<and> op_precision m \<le> op_precision (sw_best sw))
       else \<forall>m \<in> set (sw_grid sw). op_fpr (sw_best sw) \<le> op_fpr m)
    \<and> op_medium (sw_best sw) \<le> op_high (sw_best sw)
    \<and> sw_best sw = metrics_at records (op_high (sw_best sw)) (op_medium (sw_best sw)) (op_meta (sw_best sw))"
proof -
  obtain meds where meds: "frange (5 / 100) (70 / 100) (1 / 100) = Some meds" "meds \<noteq> []" "\<forall>x \<in> set meds. \<exists>y. x = round4 y"
    using frange_total [of "1 / 100" "5 / 100" "70 / 100"] by (auto simp: frange_def)
  obtain metas where metas: "frange (20 / 100) (80 / 100) (5 / 100) = Some metas" "metas \<noteq> []" "\<forall>x \<in> set metas. \<exists>y. x = round4 y"
    using frange_total [of "5 / 100" "20 / 100" "80 / 100"] by (auto simp: frange_def)
  obtain g gs where g: "build_grid records meds metas = g # gs"
    using grid_nonempty [OF meds(2) metas(2)] by (cases "build_grid records meds metas") auto
  let ?ok = "filter (\<lambda>m. op_fpr m \<le> budget) (g # gs)"
  let ?best = "case ?ok of m # ms \<Rightarrow> first_best better_recall m ms | [] \<Rightarrow> first_best (\<lambda>m m'. op_fpr m < op_fpr m') g gs"
  obtain sw where sw: "sweep records budget = Some sw" "sw_grid sw = g # gs" "sw_best sw = ?best" "sw_feasible sw = (?ok \<noteq> [])"
    unfolding sweep_def meds(1) metas(1) Option.bind.bind_lunit Let_def g by simp
  have f: "sw_feasible sw = (\<exists>m \<in> set (sw_grid sw). op_fpr m \<le> budget)"
    unfolding sw(2,4) by (auto simp: filter_empty_conv)
  have sel: "?best \<in> set (g # gs) \<and> (if ?ok \<noteq> [] then op_fpr ?best \<le> budget \<and> (\<forall>m \<in> set ?ok. \<not> better_recall m ?best)
      else \<forall>m \<in> set (g # gs). op_fpr ?best \<le> op_fpr m)"
  proof (cases ?ok)
    case Nil
    then show ?thesis
      using first_best_props [of "\<lambda>m m'. op_fpr m < op_fpr m'" g gs] by (auto simp: not_less)
  next
    case (Cons m ms)
    have "first_best better_recall m ms \<in> set ?ok" "\<forall>y \<in> set ?ok. \<not> better_recall y (first_best better_recall m ms)"
      unfolding Cons using best_recall_props [of m ms] by blast+
    then show ?thesis unfolding Cons list.case by (auto simp flip: Cons)
  qed
  have "op_medium (sw_best sw) \<le> op_high (sw_best sw)
    \<and> sw_best sw = metrics_at records (op_high (sw_best sw)) (op_medium (sw_best sw)) (op_meta (sw_best sw))"
    using grid_points [OF meds(3) metas(3), of "sw_best sw" records] sel unfolding sw(3) g by blast
  moreover have "if sw_feasible sw
       then op_fpr (sw_best sw) \<le> budget \<and> (\<forall>m \<in> set (sw_grid sw). op_fpr m \<le> budget \<longrightarrow> op_recall m < op_recall (sw_best sw)
             \<or> op_recall m = op_recall (sw_best sw) \<and> op_precision m \<le> op_precision (sw_best sw))
       else \<forall>m \<in> set (sw_grid sw). op_fpr (sw_best sw) \<le> op_fpr m"
    using sel unfolding sw better_recall_def by (auto split: if_splits)
  ultimately show ?thesis using sw(1,2,3) sel f by (metis (no_types, lifting))
qed

section \<open>The trapezoidal area\<close>

text \<open>Each benign row counts the attacks above it.\<close>

fun attacks_above :: "nat \<Rightarrow> (real \<times> bool) list \<Rightarrow> nat" where
  "attacks_above tp [] = 0"
| "attacks_above tp (p # ps) = (if snd p then attacks_above (tp + 1) ps else tp + attacks_above tp ps)"

lemma trapezoids_curve:
  assumes "n_neg > 0" "n_pos > 0"
  shows "trapezoids ((real fp / n_neg, real tp / n_pos, c) # curve_from n_neg n_pos tp fp ps @ [(1, 1, c')])
    = real (attacks_above tp ps) / (n_pos * n_neg)
      + (1 - real (fp + class_size False ps) / n_neg) * (real (tp + class_size True ps) / n_pos + 1) / 2"
proof (induction ps arbitrary: tp fp c)
  case (Cons p ps)
  obtain s l where p: "p = (s, l)" by (cases p)
  show ?case
  proof (cases l)
    case True
    then show ?thesis using Cons [of fp "tp + 1" s] by (simp add: p Let_def algebra_simps)
  next
    case False
    have "(real (fp + 1) / n_neg - real fp / n_neg) * (real tp / n_pos + real tp / n_pos) / 2 = real tp / (n_pos * n_neg)"
      using assms by (simp add: field_simps)
    then show ?thesis using False Cons [of "fp + 1" tp s] by (simp add: p Let_def add_divide_distrib algebra_simps)
  qed
qed simp

lemma attacks_above_split: "real (attacks_above tp ps) = real tp * real (class_size False ps) + real (attacks_above 0 ps)"
proof (induction ps arbitrary: tp)
  case (Cons p ps)
  show ?case
    using Cons.IH [of 1] Cons.IH [of "tp + 1"] Cons.IH [of tp] by (cases "snd p") (simp_all add: algebra_simps)
qed simp

lemma class_size_filter: "class_size True ps = length (filter snd ps)" "class_size False ps = length (filter (Not \<circ> snd) ps)"
  by (induction ps) auto

lemma attacks_above_wins:
  "descending ps \<Longrightarrow> distinct (map fst ps) \<Longrightarrow> real (attacks_above 0 ps) = mann_whitney ps"
proof (induction ps)
  case (Cons p ps)
  have d: "descending ps" "distinct (map fst ps)" using Cons.prems by (simp_all add: descending_def)
  have lt: "\<forall>q \<in> set ps. fst q < fst p"
  proof
    fix q assume "q \<in> set ps"
    then have "fst q \<le> fst p" "fst q \<in> fst ` set ps" using Cons.prems(1) by (simp_all add: descending_def)
    moreover have "fst p \<notin> fst ` set ps" using Cons.prems(2) by simp
    ultimately have "fst q \<le> fst p" "fst q \<noteq> fst p" by metis+
    then show "fst q < fst p" by simp
  qed
  show ?case
  proof (cases "snd p")
    case True
    have "map (\<lambda>q. wins (fst p) (fst q)) (filter (Not \<circ> snd) ps) = map (\<lambda>q. 1) (filter (Not \<circ> snd) ps)"
      using lt by (intro map_cong) (auto simp: wins_def)
    then have "sum_list (map (\<lambda>q. wins (fst p) (fst q)) (filter (Not \<circ> snd) ps)) = real (class_size False ps)"
      by (simp only: class_size_filter sum_list_triv mult_1_right)
    then show ?thesis
      using True Cons.IH [OF d] attacks_above_split [of 1 ps] by (simp add: mann_whitney_def)
  next
    case False
    have e: "mann_whitney (p # ps) = sum_list (map (\<lambda>x. wins (fst x) (fst p)
        + sum_list (map (\<lambda>q. wins (fst x) (fst q)) (filter (Not \<circ> snd) ps))) (filter snd ps))"
      using False by (simp add: mann_whitney_def)
    have m: "map (\<lambda>x. wins (fst x) (fst p) + sum_list (map (\<lambda>q. wins (fst x) (fst q)) (filter (Not \<circ> snd) ps))) (filter snd ps)
        = map (\<lambda>x. sum_list (map (\<lambda>q. wins (fst x) (fst q)) (filter (Not \<circ> snd) ps))) (filter snd ps)"
      using lt by (intro map_cong) (auto simp: wins_def)
    have "mann_whitney (p # ps) = mann_whitney ps" unfolding e m by (simp only: mann_whitney_def)
    then show ?thesis using False Cons.IH [OF d] by simp
  qed
qed (simp add: mann_whitney_def)

text \<open>
  The two AUC routines of the project agree on scores without ties: the trapezoidal area of the
  calibration report is the rank-sum AUC of \<open>evaluation/metrics.py\<close>.
\<close>

theorem trapezoidal_auc_is_rank_sum:
  assumes "distinct (map continuous_score records)" "roc_auc (map continuous_score records) (map cr_malicious records) \<noteq> NaN"
  shows "roc_auc (map continuous_score records) (map cr_malicious records) = Num (snd (roc_curve records))"
proof -
  let ?rows = "scored_rows records" and ?s = "map continuous_score records" and ?l = "map cr_malicious records"
  have z: "zip ?s ?l = ?rows" by (simp add: scored_rows_def zip_map_map zip_same_conv_map comp_def)
  let ?o = "sort_key (\<lambda>x. - fst x) ?rows"
  have o: "?o = ordered_rows ?s ?l" by (simp add: ordered_rows_def z)
  have dist: "distinct (map fst ?o)"
    using ordered_distinct [of ?s ?l] assms(1) unfolding o z by (simp add: scored_rows_def comp_def)
  have desc: "descending ?o" unfolding o by (rule ordered_descending)
  have c: "class_size l ?o = class_size l ?rows" for l unfolding o using ordered_counts(2) [of l ?s ?l] z by simp
  have ne: "class_size True ?rows \<noteq> 0" "class_size False ?rows \<noteq> 0"
    using assms(2) by (auto simp: roc_auc_is_mann_whitney Let_def z class_size_filter split: if_splits)
  have t: "count_true (map snd ?o) = class_size True ?rows"
    using count_true_snd [of ?o] c [of True] by (simp only: class_size_filter)
  have n: "length ?o - class_size True ?rows = class_size False ?rows"
    using classes [of ?o] c by simp
  have "snd (roc_curve records) = trapezoids ((0, 0, 101 / 100)
      # curve_from (real (class_size False ?rows)) (real (class_size True ?rows)) 0 0 ?o @ [(1, 1, - (1 / 100))])"
    using ne unfolding roc_curve_def Let_def t n by simp
  also have "\<dots> = real (attacks_above 0 ?o) / (real (class_size True ?rows) * real (class_size False ?rows))"
    using trapezoids_curve [of "real (class_size False ?rows)" "real (class_size True ?rows)" 0 0 "101 / 100" ?o "- (1 / 100)"] ne c by simp
  also have "real (attacks_above 0 ?o) = mann_whitney ?rows"
    using attacks_above_wins [OF desc dist] mann_whitney_mset [of ?o ?rows] by simp
  finally show ?thesis using ne by (simp add: roc_auc_is_mann_whitney Let_def z class_size_filter)
qed

text \<open>With a tie the area depends on the order of the records.\<close>

definition tied_records :: "bool \<Rightarrow> cal_record list" where
  "tied_records first_attack =
     [\<lparr>cr_prompt = ''a'', cr_malicious = first_attack, cr_symbolic = False, cr_detail = None, cr_threat = 1 / 2, cr_meta = 0\<rparr>,
      \<lparr>cr_prompt = ''b'', cr_malicious = (\<not> first_attack), cr_symbolic = False, cr_detail = None, cr_threat = 1 / 2, cr_meta = 0\<rparr>]"

lemma tied_area_depends_on_order: "snd (roc_curve (tied_records True)) = 1" "snd (roc_curve (tied_records False)) = 0"
  by (simp_all add: roc_curve_def tied_records_def scored_rows_def continuous_score_def count_true_def Let_def)

section \<open>Concrete instances\<close>

theorem calibration_mirrors_pipeline_witness:
  "\<exists>sg fu'. collect_semantic_signals demo_models demo_settings ''Hi'' (md_embed demo_models ''Hi'')
      (fast_path_signals demo_models (md_embed demo_models ''Hi'')) new_fusion_state = (Inr sg, fu')
    \<and> fst (fuse_signals demo_settings sg) \<noteq> ''LOW''"
proof -
  have fast: "fast_path_signals demo_models v = \<lparr>fs_meta_intent = 1 / 5, fs_threat = 3 / 5\<rparr>" for v
    by (simp add: fast_path_signals_def check_meta_intent_def demo_models_def)
  obtain f fu where fu: "fused_threat_score NoArtifact (\<lambda>n. DetUnavailable ''off'') False (3 / 5) new_fusion_state = (Inr f, fu)"
      "\<not> fr_available f"
    by (simp add: fused_threat_score_def policy_available_def load_policy_def new_fusion_state_def
        fusion_unavailable_def Let_def)
  obtain sg where sg: "collect_semantic_signals demo_models demo_settings ''Hi'' (md_embed demo_models ''Hi'')
      (fast_path_signals demo_models (md_embed demo_models ''Hi'')) new_fusion_state = (Inr sg, fu)" "sg_fusion sg = f"
    using fu(1) unfolding fast
    by (simp add: collect_semantic_signals_def demo_models_def demo_settings_def Let_def)
  have "predict (extract_record demo_models demo_rules (''Hi'', 1)) (9 / 10) (1 / 2) (3 / 4)"
    by (simp add: predict_def extract_record_def demo_models_def Let_def)
  moreover have "hard_ban_triggered demo_models demo_rules ''Hi'' = None" by (rule demo_rules_run)
  moreover have "fast_path_decision demo_settings (fast_path_signals demo_models v) = None" for v
    by (simp add: fast fast_path_decision_def demo_settings_def)
  ultimately show ?thesis
    using calibration_mirrors_pipeline [OF sg(1), of demo_rules 1] sg fu(2) by (auto simp: demo_settings_def)
qed

theorem trapezoidal_auc_is_rank_sum_witness:
  "roc_auc [1 / 2, 1 / 4] [True, False] = Num (snd (roc_curve
     [\<lparr>cr_prompt = ''a'', cr_malicious = True, cr_symbolic = False, cr_detail = None, cr_threat = 1 / 2, cr_meta = 0\<rparr>,
      \<lparr>cr_prompt = ''b'', cr_malicious = False, cr_symbolic = False, cr_detail = None, cr_threat = 1 / 4, cr_meta = 0\<rparr>]))"
  using trapezoidal_auc_is_rank_sum [of
     "[\<lparr>cr_prompt = ''a'', cr_malicious = True, cr_symbolic = False, cr_detail = None, cr_threat = 1 / 2, cr_meta = 0\<rparr>,
      \<lparr>cr_prompt = ''b'', cr_malicious = False, cr_symbolic = False, cr_detail = None, cr_threat = 1 / 4, cr_meta = 0\<rparr>]"]
  by (simp add: continuous_score_def roc_auc_is_mann_whitney Let_def)

definition demo_record :: cal_record where
  "demo_record = \<lparr>cr_prompt = ''a'', cr_malicious = True, cr_symbolic = True, cr_detail = None, cr_threat = 0, cr_meta = 0\<rparr>"

theorem sweep_selects_best_witness:
  "\<exists>sw. sweep [demo_record] (5 / 100) = Some sw \<and> op_medium (sw_best sw) \<le> op_high (sw_best sw)"
  using sweep_selects_best [of "[demo_record]" "5 / 100"] by blast

end
