(* ===== verification/Monitor.thy ===== *)
theory Monitor
  imports Calibration "HOL-Library.Char_ord" "HOL-Library.List_Lexorder"
begin

text \<open>
  The drift monitor of the operating point, \<open>scripts/monitor_operating_point.py\<close>: the deployed
  threshold from the reference signals, the recent decisions of the audit log, the stability index
  between the two, and the verdicts with the exit status.

  Rows are taken as parsed, with finite scores and their source by name; arithmetic is over the
  reals.  The printed lines and the JSON report are left out.
\<close>

section \<open>Definitions from the code\<close>

definition quantile :: "real list \<Rightarrow> real \<Rightarrow> real option" where
  "quantile xs q =
     (if xs = [] then None
      else let s = sort xs in Some (round4 (s ! min (length s - 1) (nat (py_int (q * real (length s)))))))"

definition quantiles :: "real list \<Rightarrow> (real \<times> real option) list" where
  "quantiles xs = map (\<lambda>q. (q, quantile xs q)) [1 / 2, 9 / 10, 95 / 100, 99 / 100]"

text \<open>\<open>h[k]\<close>: a negative index counts from the end.\<close>

definition py_index :: "int \<Rightarrow> nat \<Rightarrow> (py_error, nat) res" where
  "py_index k n =
     (if 0 \<le> k \<and> k < int n then Inr (nat k)
      else if - int n \<le> k \<and> k < 0 then Inr (nat (k + int n))
      else Inl (IndexError ''list index out of range''))"

fun bin_counts :: "nat list \<Rightarrow> real list \<Rightarrow> (py_error, nat list) res" where
  "bin_counts h [] = Inr h"
| "bin_counts h (x # xs) =
     bind_res (py_index (min (int (length h) - 1) (py_int (x * real (length h)))) (length h)) (\<lambda>k. bin_counts (h[k := h ! k + 1]) xs)"

definition histogram :: "real list \<Rightarrow> (py_error, real list) res" where
  "histogram xs = bind_res (bin_counts (replicate 10 0) xs) (\<lambda>h. Inr (map (\<lambda>c. real c / real (length xs)) h))"

definition psi_term :: "real \<Rightarrow> real \<Rightarrow> real" where
  "psi_term a b = (let a = max a (1 / 10 ^ 6); b = max b (1 / 10 ^ 6) in (b - a) * ln (b / a))"

definition psi :: "real list \<Rightarrow> real list \<Rightarrow> (py_error, real option) res" where
  "psi ref live =
     (if ref = [] \<or> live = [] then Inr None
      else bind_res (histogram ref) (\<lambda>pr. bind_res (histogram live) (\<lambda>pl.
        Inr (Some (round4 (sum_list (map (\<lambda>(a, b). psi_term a b) (zip pr pl))))))))"

record signal_row =
  sg_benign :: bool
  sg_fusion :: "real option"
  sg_source :: "string option"

definition benign_rows :: "signal_row list \<Rightarrow> (string \<times> real) list" where
  "benign_rows rows = concat (map (\<lambda>r.
     case sg_fusion r of Some x \<Rightarrow> if sg_benign r then [(case sg_source r of None \<Rightarrow> ''?'' | Some s \<Rightarrow> s, x)] else [] | None \<Rightarrow> []) rows)"

text \<open>\<open>by_src.setdefault(source, []).append(score)\<close>.\<close>

definition by_source :: "(string \<times> real) list \<Rightarrow> (string, real list) odict" where
  "by_source rows = foldl (\<lambda>d (s, x). od_set s ((case od_get d s of None \<Rightarrow> [] | Some xs \<Rightarrow> xs) @ [x]) d) [] rows"

definition deployed_threshold :: "real list \<Rightarrow> (py_error, real) res" where
  "deployed_threshold benign =
     (let s = sort benign; i = py_int (95 / 100 * real (length s))
      in if i < int (length s) then Inr (round4 (s ! nat i)) else Inl (IndexError ''list index out of range''))"

definition load_reference :: "signal_row list option \<Rightarrow> (py_error, (string \<times> real) list \<times> real) res" where
  "load_reference file =
     (case file of
        None \<Rightarrow> Inl (OtherError ''SystemExit'')
      | Some rows \<Rightarrow> bind_res (deployed_threshold (map snd (benign_rows rows))) (\<lambda>thr. Inr (benign_rows rows, thr)))"

record decision_row =
  dr_score :: real
  dr_decision :: string
  dr_source :: "string option"

text \<open>\<open>recs[-window:]\<close>.\<close>

definition last_window :: "int \<Rightarrow> 'a list \<Rightarrow> 'a list" where
  "last_window w xs = (if 0 < w then drop (length xs - nat w) xs else drop (nat (- w)) xs)"

text \<open>A line that does not parse, or has no score or decision, is \<open>None\<close>.\<close>

definition load_live :: "decision_row option list option \<Rightarrow> int \<Rightarrow> (py_error, (string \<times> real) list) res" where
  "load_live file window =
     (case file of
        None \<Rightarrow> Inl (OtherError ''SystemExit'')
      | Some lines \<Rightarrow>
          Inr (map (\<lambda>r. (case dr_source r of None \<Rightarrow> ''audit'' | Some s \<Rightarrow> s, dr_score r))
            (filter (\<lambda>r. dr_decision r \<in> {''ALLOW'', ''RESTRICT''}) (last_window window (List.map_filter id lines)))))"

definition eff_fpr :: "real list \<Rightarrow> real \<Rightarrow> real option" where
  "eff_fpr scores thr =
     (if scores = [] then None else Some (round4 (real (length (filter (\<lambda>x. x \<ge> thr) scores)) / real (length scores))))"

datatype drift = NoData | Red | Amber | Green

definition drift_verdict :: "real option \<Rightarrow> real option \<Rightarrow> real \<Rightarrow> drift" where
  "drift_verdict psi_val efpr budget =
     (case (psi_val, efpr) of
        (Some p, Some e) \<Rightarrow>
          if e > budget * (3 / 2) \<or> p > 1 / 4 then Red
          else if e > budget * (11 / 10) \<or> p > 1 / 10 then Amber else Green
      | _ \<Rightarrow> NoData)"

record drift_report =
  dp_label :: string
  dp_psi :: "real option"
  dp_eff_fpr :: "real option"
  dp_verdict :: drift
  dp_ref_q :: "(real \<times> real option) list"
  dp_live_q :: "(real \<times> real option) list"
  dp_threshold :: real

definition drift_report_of :: "real list \<Rightarrow> real list \<Rightarrow> real \<Rightarrow> string \<Rightarrow> real \<Rightarrow> (py_error, drift_report) res" where
  "drift_report_of ref live thr label budget =
     bind_res (psi ref live) (\<lambda>p.
       Inr \<lparr>dp_label = label, dp_psi = p, dp_eff_fpr = eff_fpr live thr, dp_verdict = drift_verdict p (eff_fpr live thr) budget,
            dp_ref_q = quantiles ref, dp_live_q = quantiles live, dp_threshold = thr\<rparr>)"

fun reports :: "(string, real list) odict \<Rightarrow> (string, real list) odict \<Rightarrow> real \<Rightarrow> real \<Rightarrow> string list \<Rightarrow> (py_error, drift_report list) res" where
  "reports ref live thr budget [] = Inr []"
| "reports ref live thr budget (s # ss) =
     bind_res (drift_report_of (the (od_get ref s)) (the (od_get live s)) thr (''source='' @ s) budget) (\<lambda>r.
     bind_res (reports ref live thr budget ss) (\<lambda>rs. Inr (r # rs)))"

definition monitor ::
  "signal_row list option \<Rightarrow> decision_row option list option \<Rightarrow> int \<Rightarrow> real \<Rightarrow> (py_error, drift_report list) res" where
  "monitor signals audit window budget =
     bind_res (load_reference signals) (\<lambda>(ref, thr).
     bind_res (load_live audit window) (\<lambda>live.
       let ref_src = by_source ref; live_src = by_source live in
       bind_res (drift_report_of (map snd ref) (map snd live) thr ''OVERALL'' budget) (\<lambda>overall.
       bind_res (reports ref_src live_src thr budget (sort (filter (\<lambda>s. od_get live_src s \<noteq> None) (map fst ref_src)))) (\<lambda>rs.
         Inr (overall # rs)))))"

text \<open>The status: that of the report with the greatest index among the alarms, the first of equals.\<close>

definition psi_key :: "drift_report \<Rightarrow> real" where
  "psi_key r = (case dp_psi r of None \<Rightarrow> 0 | Some p \<Rightarrow> p)"

definition monitor_status :: "drift_report list \<Rightarrow> nat" where
  "monitor_status out =
     (case filter (\<lambda>r. dp_verdict r \<in> {Red, Amber}) out of
        [] \<Rightarrow> 0
      | r # rs \<Rightarrow> if dp_verdict (first_best (\<lambda>x m. psi_key x > psi_key m) r rs) = Red then 2 else 0)"

section \<open>Lemmas\<close>

lemma index_term_nonneg:
  assumes "0 < a" "0 < b"
  shows "0 \<le> (b - a) * ln (b / a :: real)"
proof (cases "a \<le> b")
  case True
  then show ?thesis using assms by (intro mult_nonneg_nonneg ln_ge_zero) (simp_all add: le_divide_eq)
next
  case False
  then have "ln (b / a) \<le> 0" using assms by (subst ln_le_zero_iff) (simp_all add: divide_le_eq)
  then show ?thesis using False by (intro mult_nonpos_nonpos) simp_all
qed

lemma psi_term_nonneg: "0 \<le> psi_term a b"
  unfolding psi_term_def Let_def by (rule index_term_nonneg) (simp_all add: less_max_iff_disj)

lemma psi_term_same [simp]: "psi_term a a = 0"
  by (simp add: psi_term_def Let_def)

lemma round4_nonneg: "0 \<le> x \<Longrightarrow> 0 \<le> round4 x"
  by (simp add: round4_def round_def)

lemma psi_nonneg: "psi ref live = Inr (Some p) \<Longrightarrow> 0 \<le> p"
  by (auto simp: psi_def bind_res_def split: sum.splits if_splits
      intro!: round4_nonneg sum_list_nonneg psi_term_nonneg)

lemma psi_same: "psi xs xs = Inr (Some p) \<Longrightarrow> p = 0"
proof -
  have "sum_list (map (\<lambda>(a, b). psi_term a b) (zip h h)) = 0" for h by (induction h) auto
  then show "psi xs xs = Inr (Some p) \<Longrightarrow> p = 0"
    by (auto simp: psi_def bind_res_def round4_def split: sum.splits if_splits)
qed

lemma py_index_ok: "- int n \<le> k \<Longrightarrow> k < int n \<Longrightarrow> \<exists>i. py_index k n = Inr i"
  by (auto simp: py_index_def)

lemma bin_counts_total: "h \<noteq> [] \<Longrightarrow> \<forall>x \<in> set xs. - 1 \<le> x \<Longrightarrow> \<exists>h'. bin_counts h xs = Inr h'"
proof (induction xs arbitrary: h)
  case (Cons x xs)
  let ?n = "length h"
  have n: "0 < ?n" using Cons.prems(1) by simp
  have "- real ?n \<le> x * real ?n" using mult_right_mono [of "- 1" x "real ?n"] Cons.prems(2) by simp
  then have "- int ?n \<le> py_int (x * real ?n)" by (simp add: py_int_def le_floor_iff le_ceiling_iff)
  then have "- int ?n \<le> min (int ?n - 1) (py_int (x * real ?n))" "min (int ?n - 1) (py_int (x * real ?n)) < int ?n" using n by auto
  then obtain k where "py_index (min (int ?n - 1) (py_int (x * real ?n))) ?n = Inr k" using py_index_ok by blast
  then show ?case using Cons.IH [of "h[k := h ! k + 1]"] Cons.prems by (simp add: bind_res_def)
qed simp

lemma histogram_total: "\<forall>x \<in> set xs. - 1 \<le> x \<Longrightarrow> \<exists>h. histogram xs = Inr h"
  using bin_counts_total [of "replicate 10 0" xs] by (auto simp: histogram_def bind_res_def)

lemma psi_total:
  assumes "\<forall>x \<in> set ref \<union> set live. - 1 \<le> x" "ref \<noteq> []" "live \<noteq> []"
  shows "\<exists>p. psi ref live = Inr (Some p)"
  using histogram_total [of ref] histogram_total [of live] assms by (auto simp: psi_def bind_res_def)

lemma worst_alarm:
  assumes "filter (\<lambda>r. dp_verdict r \<in> {Red, Amber}) out = r # rs"
  shows "first_best (\<lambda>x m. psi_key x > psi_key m) r rs \<in> set out"
    and "dp_verdict (first_best (\<lambda>x m. psi_key x > psi_key m) r rs) \<in> {Red, Amber}"
    and "\<forall>x \<in> set out. dp_verdict x \<in> {Red, Amber} \<longrightarrow> psi_key x \<le> psi_key (first_best (\<lambda>x m. psi_key x > psi_key m) r rs)"
proof -
  let ?w = "first_best (\<lambda>x m. psi_key x > psi_key m) r rs"
  have p: "?w \<in> set (r # rs) \<and> (\<forall>y \<in> set (r # rs). \<not> psi_key y > psi_key ?w)" by (rule first_best_props) auto
  have s: "set (r # rs) = {x \<in> set out. dp_verdict x \<in> {Red, Amber}}" unfolding assms [symmetric] by auto
  show "?w \<in> set out" "dp_verdict ?w \<in> {Red, Amber}" using p unfolding s by simp_all
  show "\<forall>x \<in> set out. dp_verdict x \<in> {Red, Amber} \<longrightarrow> psi_key x \<le> psi_key ?w" using p unfolding s by auto
qed

lemma report_verdict:
  assumes "drift_report_of ref live thr label budget = Inr r"
  shows "dp_verdict r = drift_verdict (dp_psi r) (dp_eff_fpr r) budget" "dp_psi r \<noteq> None \<Longrightarrow> dp_eff_fpr r \<noteq> None"
  using assms by (auto simp: drift_report_of_def psi_def eff_fpr_def bind_res_def split: sum.splits if_splits)

text \<open>A report of the monitor: its verdict follows from its index and its rate, which come together.\<close>

definition genuine :: "real \<Rightarrow> drift_report \<Rightarrow> bool" where
  "genuine budget r \<longleftrightarrow> dp_verdict r = drift_verdict (dp_psi r) (dp_eff_fpr r) budget \<and> (dp_psi r \<noteq> None \<longrightarrow> dp_eff_fpr r \<noteq> None)"

lemma report_genuine: "drift_report_of ref live thr label budget = Inr r \<Longrightarrow> genuine budget r"
  using report_verdict by (simp add: genuine_def)

lemma reports_genuine: "reports ref live thr budget ss = Inr rs \<Longrightarrow> \<forall>r \<in> set rs. genuine budget r"
  by (induction ss arbitrary: rs) (auto simp: bind_res_def dest: report_genuine split: sum.splits)

lemma monitor_genuine: "monitor signals audit window budget = Inr out \<Longrightarrow> \<forall>r \<in> set out. genuine budget r"
  by (auto simp: monitor_def bind_res_def Let_def split: sum.splits prod.splits intro: report_genuine reports_genuine [rule_format])

lemma genuine_red: "genuine budget r \<Longrightarrow> psi_key r > 1 / 4 \<Longrightarrow> dp_verdict r = Red"
  by (auto simp: genuine_def psi_key_def drift_verdict_def split: option.splits)

lemma genuine_amber: "genuine budget r \<Longrightarrow> dp_verdict r = Amber \<Longrightarrow> psi_key r \<le> 1 / 4"
  by (auto simp: genuine_def psi_key_def drift_verdict_def split: option.splits if_splits)

section \<open>Properties\<close>

text \<open>
  C32. The status of the monitor follows the stability index, not the verdicts.  It is 2 when some
  slice drifts by more than a quarter in the index; it is 0 when no slice is red; and where every red
  slice (red by its false-positive rate) has a smaller index than some amber one, it is 0 although
  the report says to recalibrate.
\<close>

theorem monitor_status_follows_index:
  assumes "monitor signals audit window budget = Inr out"
  shows "((\<exists>r \<in> set out. psi_key r > 1 / 4) \<longrightarrow> monitor_status out = 2)
    \<and> ((\<forall>r \<in> set out. dp_verdict r \<noteq> Red) \<longrightarrow> monitor_status out = 0)
    \<and> ((\<forall>r \<in> set out. dp_verdict r = Red \<longrightarrow> (\<exists>x \<in> set out. dp_verdict x = Amber \<and> psi_key r < psi_key x)) \<longrightarrow> monitor_status out = 0)"
proof (cases "filter (\<lambda>r. dp_verdict r \<in> {Red, Amber}) out")
  case Nil
  then have none: "\<forall>r \<in> set out. dp_verdict r \<notin> {Red, Amber}" by (auto simp: filter_empty_conv)
  moreover have "\<not> psi_key r > 1 / 4" if "r \<in> set out" for r
    using genuine_red monitor_genuine [OF assms] none that by blast
  ultimately show ?thesis using Nil by (auto simp: monitor_status_def)
next
  case (Cons r rs)
  let ?w = "first_best (\<lambda>x m. psi_key x > psi_key m) r rs"
  note w = worst_alarm [OF Cons]
  have st: "monitor_status out = (if dp_verdict ?w = Red then 2 else 0)" unfolding monitor_status_def Cons by simp
  have "dp_verdict ?w = Red" if "x \<in> set out" "psi_key x > 1 / 4" for x
  proof -
    have "dp_verdict x = Red" using genuine_red monitor_genuine [OF assms] that by blast
    then have "psi_key ?w > 1 / 4" using w(3) that by fastforce
    then show ?thesis using genuine_red monitor_genuine [OF assms] w(1) by blast
  qed
  moreover have "dp_verdict ?w \<noteq> Red"
    if "\<forall>r \<in> set out. dp_verdict r = Red \<longrightarrow> (\<exists>x \<in> set out. dp_verdict x = Amber \<and> psi_key r < psi_key x)"
    using that w(1,3) by fastforce
  moreover have "dp_verdict ?w \<noteq> Red" if "\<forall>r \<in> set out. dp_verdict r \<noteq> Red" using that w(1) by blast
  ultimately show ?thesis unfolding st by auto
qed

section \<open>Witness\<close>

text \<open>Four scores in the bins of the reference, all below its threshold.\<close>

definition drift_signals :: "signal_row list" where
  "drift_signals = map (\<lambda>x. \<lparr>sg_benign = True, sg_fusion = Some x, sg_source = Some ''a''\<rparr>) [1 / 20, 3 / 20, 5 / 20, 7 / 20]"

definition drift_log :: "decision_row option list" where
  "drift_log = map (\<lambda>x. Some \<lparr>dr_score = x, dr_decision = ''ALLOW'', dr_source = Some ''b''\<rparr>) [1 / 20, 3 / 20, 5 / 20, 6 / 20]"

lemma same_bins: "psi [1 / 20, 3 / 20, 5 / 20, 7 / 20] [1 / 20, 3 / 20, 5 / 20, 6 / 20] = Inr (Some 0)"
proof -
  let ?xs = "[1 / 20, 3 / 20, 5 / 20, 7 / 20] :: real list" and ?ys = "[1 / 20, 3 / 20, 5 / 20, 6 / 20] :: real list"
  have "histogram ?ys = histogram ?xs" by (simp add: histogram_def py_int_def py_index_def)
  then have "psi ?xs ?ys = psi ?xs ?xs" by (simp add: psi_def)
  moreover obtain p where "psi ?xs ?xs = Inr (Some p)" using psi_total [of ?xs ?xs] by auto
  ultimately show ?thesis using psi_same by auto
qed

lemma drift_run: "\<exists>r. monitor (Some drift_signals) (Some drift_log) 20000 (5 / 100) = Inr [r] \<and> dp_verdict r = Green"
proof -
  have "deployed_threshold [1 / 20, 3 / 20, 5 / 20, 7 / 20] = Inr (35 / 100)"
    by (simp add: deployed_threshold_def Let_def py_int_def round4_def)
  then show ?thesis
    using same_bins by (simp add: monitor_def load_reference_def load_live_def benign_rows_def drift_signals_def drift_log_def last_window_def
        map_filter_def bind_res_def Let_def drift_report_of_def by_source_def od_set_def od_get_def eff_fpr_def drift_verdict_def round4_def)
qed

theorem monitor_status_follows_index_witness:
  "\<exists>out. monitor (Some drift_signals) (Some drift_log) 20000 (5 / 100) = Inr out \<and> monitor_status out = 0"
proof -
  obtain r where r: "monitor (Some drift_signals) (Some drift_log) 20000 (5 / 100) = Inr [r]" "dp_verdict r = Green"
    using drift_run by blast
  then show ?thesis using monitor_status_follows_index [OF r(1)] by simp
qed

end
