(* ===== verification/Redis_Client.thy ===== *)
theory Redis_Client
  imports Prelude
begin

text \<open>
  The shared Redis client, \<open>core/redis_client.py\<close>: one client per process for the URL in force, made
  and pinged on first use, and the URL as it may be logged.

  A client is the URL and the number of its making.  \<open>connect\<close> stands for the library's connection and
  ping, \<open>Some\<close> text of the exception when either fails; \<open>mocked\<close> is the test of the module for a library
  replaced by its tests.
\<close>

section \<open>Definitions from the code\<close>

type_synonym redis_client = "string \<times> nat"

record redis_state =
  rd_client :: "redis_client option"
  rd_last_url :: "string option"
  rd_made :: nat
  rd_log :: "string list"

definition new_redis_state :: redis_state where
  "new_redis_state = \<lparr>rd_client = None, rd_last_url = None, rd_made = 0, rd_log = []\<rparr>"

definition sanitize_redis_url :: "string \<Rightarrow> string" where
  "sanitize_redis_url url = (if CHR ''@'' \<in> set url then last (split_on CHR ''@'' url) else url)"

text \<open>\<open>redis_url or os.environ.get("REDIS_URL")\<close>.\<close>

definition target_url :: "string option \<Rightarrow> string option \<Rightarrow> string option" where
  "target_url arg env =
     (case arg of
        Some (c # u) \<Rightarrow> Some (c # u)
      | _ \<Rightarrow> (case env of Some (c # u) \<Rightarrow> Some (c # u) | _ \<Rightarrow> None))"

definition ready_line :: "string \<Rightarrow> string" where
  "ready_line url = ''Initialized shared Redis connection pool at '' @ sanitize_redis_url url @ ''.''"

definition unreachable_line :: "string \<Rightarrow> string \<Rightarrow> string" where
  "unreachable_line url e =
     ''REDIS_URL is configured ('' @ sanitize_redis_url url @ '') but Redis is unreachable ('' @ e @ ''). Distributed features will fall back to local.''"

definition get_redis_client ::
  "bool \<Rightarrow> (string \<Rightarrow> string option) \<Rightarrow> string option \<Rightarrow> string option \<Rightarrow> redis_state \<Rightarrow> redis_client option \<times> redis_state" where
  "get_redis_client mocked connect arg env st =
     (case target_url arg env of
        None \<Rightarrow> (None, st)
      | Some url \<Rightarrow>
          if \<not> mocked \<and> rd_client st \<noteq> None \<and> rd_last_url st = Some url then (rd_client st, st)
          else let client = (url, rd_made st); st1 = st\<lparr>rd_made := rd_made st + 1\<rparr> in
            (case connect url of
               Some e \<Rightarrow> (None, st1\<lparr>rd_log := rd_log st @ [unreachable_line url e]\<rparr>)
             | None \<Rightarrow>
                 if mocked then (Some client, st1\<lparr>rd_log := rd_log st @ [ready_line url]\<rparr>)
                 else (Some client, st1\<lparr>rd_client := Some client, rd_last_url := Some url, rd_log := rd_log st @ [ready_line url]\<rparr>)))"

definition reset_redis_client :: "redis_state \<Rightarrow> redis_state" where
  "reset_redis_client st = st\<lparr>rd_client := None, rd_last_url := None\<rparr>"

section \<open>Lemmas\<close>

lemma split_on_last: "c \<notin> set b \<Longrightarrow> \<exists>w ws. split_on c (a @ c # b) = (w # ws) @ [b]"
proof (induction a)
  case Nil
  then show ?case by (simp add: split_on_no_sep)
next
  case (Cons x a)
  then obtain w ws where "split_on c (a @ c # b) = (w # ws) @ [b]" by blast
  then show ?case by (cases "x = c") (auto intro: exI [of _ "[]"])
qed

lemma last_split_on: "c \<notin> set b \<Longrightarrow> last (split_on c (a @ c # b)) = b"
  using split_on_last [of c b a] by auto

text \<open>What precedes the last \<open>@\<close>, the credentials, is not logged.\<close>

lemma credentials_dropped: "CHR ''@'' \<notin> set b \<Longrightarrow> sanitize_redis_url (a @ CHR ''@'' # b) = b"
  by (simp add: sanitize_redis_url_def last_split_on)

text \<open>The client in the cache belongs to the URL it is cached under.\<close>

definition client_inv :: "redis_state \<Rightarrow> bool" where
  "client_inv st \<longleftrightarrow> map_option fst (rd_client st) = rd_last_url st \<and> (\<forall>c. rd_client st = Some c \<longrightarrow> snd c < rd_made st)"

lemma client_inv_new: "client_inv new_redis_state"
  by (simp add: client_inv_def new_redis_state_def)

lemma client_inv_get: "client_inv st \<Longrightarrow> get_redis_client mocked connect arg env st = (r, st') \<Longrightarrow> client_inv st'"
  by (auto simp: get_redis_client_def client_inv_def Let_def split: option.splits if_splits) (metis less_SucI)+

lemma client_inv_reset: "client_inv (reset_redis_client st)"
  by (simp add: client_inv_def reset_redis_client_def)

text \<open>
  Every subsystem that asks for the same URL is given the same client, as long as no other URL
  and no reset comes between; a failure leaves the cached client in place.
\<close>

lemma same_url_same_client:
  assumes "get_redis_client False connect arg env st = (Some c, st')" "target_url arg env = target_url arg' env'"
  shows "get_redis_client False connect' arg' env' st' = (Some c, st')"
  using assms by (auto simp: get_redis_client_def Let_def split: option.splits if_splits)

lemma failure_keeps_client:
  "get_redis_client False connect arg env st = (None, st') \<Longrightarrow> rd_client st' = rd_client st \<and> rd_last_url st' = rd_last_url st"
  by (auto simp: get_redis_client_def Let_def split: option.splits if_splits)

lemma client_is_of_url:
  "client_inv st \<Longrightarrow> get_redis_client mocked connect arg env st = (Some c, st') \<Longrightarrow> target_url arg env = Some (fst c)"
  by (auto simp: get_redis_client_def client_inv_def Let_def split: option.splits if_splits)

end
