(* ===== verification/Cache_Persistence.thy ===== *)
theory Cache_Persistence
  imports Cache
begin

text \<open>
  How the two caches reach their files: \<open>_save_async\<close> of \<open>core/cache_backend.py\<close> and \<open>save_async\<close> of
  \<open>core/cache.py\<close>, with the restart of the process.

  A change of the memory is under the lock; the request to save that follows it is not, and it starts
  a writer only when none is alive.  The writer truncates the file, then dumps what the memory holds at
  one moment, or fails (a file that two writers have written over each other counts as broken).  The flush of the fuzzy tier writes the file itself, in one step.  These are the
  steps of a transition system whose interleaving is free; the memory, its changes and what is dumped
  of it are parameters, so that both caches are instances.  JSON gives back the entries dumped.
\<close>

section \<open>Definitions from the code\<close>

datatype 'd saved_file = NoFile | Broken | Saved 'd

datatype 'd writer = Idle | Started | Writing 'd

record ('m, 'd) disk_cache =
  dc_memory :: 'm
  dc_writer :: "'d writer"
  dc_file :: "'d saved_file"
  dc_pending :: nat

text \<open>\<open>dc_pending\<close> counts the callers between their change and their request.\<close>

definition save_async :: "('m, 'd) disk_cache \<Rightarrow> ('m, 'd) disk_cache" where
  "save_async p = (if dc_writer p = Idle then p\<lparr>dc_writer := Started\<rparr> else p)"

inductive disk_step ::
  "('m \<Rightarrow> 'm \<Rightarrow> bool) \<Rightarrow> ('m \<Rightarrow> 'm \<Rightarrow> bool) \<Rightarrow> ('m \<Rightarrow> 'm \<Rightarrow> bool) \<Rightarrow> ('m \<Rightarrow> 'd) \<Rightarrow> ('m, 'd) disk_cache \<Rightarrow> ('m, 'd) disk_cache \<Rightarrow> bool"
  for change reads flush dump where
  changed: "change (dc_memory p) m \<Longrightarrow> disk_step change reads flush dump p (p\<lparr>dc_memory := m, dc_pending := dc_pending p + 1\<rparr>)"
| looked_up: "reads (dc_memory p) m \<Longrightarrow> disk_step change reads flush dump p (p\<lparr>dc_memory := m\<rparr>)"
| flushed: "flush (dc_memory p) m \<Longrightarrow> disk_step change reads flush dump p (p\<lparr>dc_memory := m, dc_file := Saved (dump m)\<rparr>)"
| flush_not_written: "flush (dc_memory p) m \<Longrightarrow> disk_step change reads flush dump p (p\<lparr>dc_memory := m, dc_file := Broken\<rparr>)"
| requested: "0 < dc_pending p \<Longrightarrow> disk_step change reads flush dump p ((save_async p)\<lparr>dc_pending := dc_pending p - 1\<rparr>)"
| snapshot: "dc_writer p = Started \<Longrightarrow>
    disk_step change reads flush dump p (p\<lparr>dc_writer := Writing (dump (dc_memory p)), dc_file := Broken\<rparr>)"
| not_opened: "dc_writer p = Started \<Longrightarrow> disk_step change reads flush dump p (p\<lparr>dc_writer := Idle\<rparr>)"
| written: "dc_writer p = Writing d \<Longrightarrow> disk_step change reads flush dump p (p\<lparr>dc_writer := Idle, dc_file := Saved d\<rparr>)"
| not_written: "dc_writer p = Writing d \<Longrightarrow> disk_step change reads flush dump p (p\<lparr>dc_writer := Idle, dc_file := Broken\<rparr>)"

definition at_rest :: "('m, 'd) disk_cache \<Rightarrow> bool" where
  "at_rest p \<longleftrightarrow> dc_writer p = Idle \<and> dc_pending p = 0"

subsection \<open>The exact tier\<close>

inductive exact_change :: "'v local_exact \<Rightarrow> 'v local_exact \<Rightarrow> bool" where
  "exact_change s (lx_set t k e ttl s)"
| "exact_change s (lx_delete k s)"
| "exact_change s (lx_flush s)"

inductive exact_read :: "'v local_exact \<Rightarrow> 'v local_exact \<Rightarrow> bool" where
  "exact_read s (snd (lx_get t k s))"

abbreviation exact_step ::
  "('v local_exact, (string \<times> 'v centry) list) disk_cache \<Rightarrow> ('v local_exact, (string \<times> 'v centry) list) disk_cache \<Rightarrow> bool" where
  "exact_step \<equiv> disk_step exact_change exact_read (\<lambda>_ _. False) lx_data"

definition exact_restart :: "nat \<Rightarrow> real \<Rightarrow> (string \<times> 'v centry) list saved_file \<Rightarrow> 'v local_exact" where
  "exact_restart n t file = new_local_exact n t (case file of NoFile \<Rightarrow> None | Broken \<Rightarrow> Some [] | Saved d \<Rightarrow> Some d)"

subsection \<open>The fuzzy tier\<close>

inductive fuzzy_change :: "(string \<Rightarrow> string) \<Rightarrow> 'v faiss_cache \<Rightarrow> 'v faiss_cache \<Rightarrow> bool" for sha where
  "fuzzy_change sha c (fc_add sha up t prompt vector risk score source c)"

inductive fuzzy_flush :: "'v faiss_cache \<Rightarrow> 'v faiss_cache \<Rightarrow> bool" where
  "fuzzy_flush c (fc_flush up c)"

inductive fuzzy_read ::
  "(string \<Rightarrow> string) \<Rightarrow> ('v list \<Rightarrow> 'v \<Rightarrow> int \<times> real) \<Rightarrow> real \<Rightarrow> 'v faiss_cache \<Rightarrow> 'v faiss_cache \<Rightarrow> bool" for sha search threshold where
  "fuzzy_read sha search threshold c (snd (fc_lookup sha search threshold up t prompt q c))"

abbreviation fuzzy_step ::
  "(string \<Rightarrow> string) \<Rightarrow> ('v list \<Rightarrow> 'v \<Rightarrow> int \<times> real) \<Rightarrow> real
   \<Rightarrow> ('v faiss_cache, 'v centry list) disk_cache \<Rightarrow> ('v faiss_cache, 'v centry list) disk_cache \<Rightarrow> bool" where
  "fuzzy_step sha search threshold \<equiv> disk_step (fuzzy_change sha) (fuzzy_read sha search threshold) fuzzy_flush saved_entries"

definition fuzzy_restart :: "real \<Rightarrow> 'v exact_backend \<Rightarrow> 'v centry list saved_file \<Rightarrow> 'v faiss_cache" where
  "fuzzy_restart t exact file =
     fc_load t (case file of NoFile \<Rightarrow> None | Broken \<Rightarrow> Some None | Saved d \<Rightarrow> Some (Some d)) (new_faiss_cache exact)"

section \<open>Lemmas\<close>

text \<open>A run with all the memories it went through.\<close>

inductive disk_run ::
  "('m \<Rightarrow> 'm \<Rightarrow> bool) \<Rightarrow> ('m \<Rightarrow> 'm \<Rightarrow> bool) \<Rightarrow> ('m \<Rightarrow> 'm \<Rightarrow> bool) \<Rightarrow> ('m \<Rightarrow> 'd)
   \<Rightarrow> ('m, 'd) disk_cache \<Rightarrow> 'm list \<Rightarrow> ('m, 'd) disk_cache \<Rightarrow> bool"
  for change reads flush dump p\<^sub>0 where
  "at_rest p\<^sub>0 \<Longrightarrow> disk_run change reads flush dump p\<^sub>0 [dc_memory p\<^sub>0] p\<^sub>0"
| "disk_run change reads flush dump p\<^sub>0 ms p \<Longrightarrow> disk_step change reads flush dump p p' \<Longrightarrow> disk_run change reads flush dump p\<^sub>0 (dc_memory p' # ms) p'"

text \<open>The file holds nothing, what it held at first, or the dump of a memory of the run.\<close>

definition file_inv :: "('m \<Rightarrow> 'd) \<Rightarrow> 'd saved_file \<Rightarrow> 'm list \<Rightarrow> ('m, 'd) disk_cache \<Rightarrow> bool" where
  "file_inv dump file ms p \<longleftrightarrow>
     dc_memory p \<in> set ms \<and> (dc_file p \<in> {file, Broken} \<or> (\<exists>m \<in> set ms. dc_file p = Saved (dump m)))
     \<and> (\<forall>d. dc_writer p = Writing d \<longrightarrow> (\<exists>m \<in> set ms. d = dump m))"

lemma file_inv_step:
  assumes "disk_step change reads flush dump p p'" "file_inv dump file ms p"
  shows "file_inv dump file (dc_memory p' # ms) p'"
  using assms by (cases rule: disk_step.cases) (auto simp: file_inv_def save_async_def)

lemma file_inv_run: "disk_run change reads flush dump p\<^sub>0 ms p \<Longrightarrow> file_inv dump (dc_file p\<^sub>0) ms p"
proof (induction rule: disk_run.induct)
  case 1
  then show ?case by (simp add: file_inv_def at_rest_def)
next
  case (2 ms p p')
  then show ?case using file_inv_step by blast
qed

text \<open>Every memory of a run of the exact tier is well formed.\<close>

lemma exact_memories_ok:
  "disk_run exact_change exact_read (\<lambda>_ _. False) dump p\<^sub>0 ms p \<Longrightarrow> lx_ok (dc_memory p\<^sub>0)
    \<Longrightarrow> lx_ok (dc_memory p) \<and> (\<forall>m \<in> set ms. lx_ok m)"
proof (induction rule: disk_run.induct)
  case (2 ms p p')
  have "lx_ok (dc_memory p')" using 2(2)
  proof (cases rule: disk_step.cases)
    case (changed m)
    then show ?thesis using 2 by (auto elim!: exact_change.cases intro: lx_cache.set_ok lx_cache.delete_ok lx_cache.flush_ok)
  next
    case (looked_up m)
    then show ?thesis using 2 by (auto elim!: exact_read.cases intro: lx_cache.get_ok)
  qed (use 2 in \<open>auto simp: save_async_def\<close>)
  then show ?case using 2 by simp
qed simp

lemma loaded_entry:
  assumes "distinct (map fst raw)"
  shows "od_get (lx_load_items t d raw) k =
    (case map_of raw k of Some e \<Rightarrow> if t - ce_epoch e < ce_ttl e then Some e else od_get d k | None \<Rightarrow> od_get d k)"
  using assms
proof (induction t d raw rule: lx_load_items.induct)
  case (2 t d k' e raw)
  then show ?case by (cases "k' = k") (auto simp: map_of_eq_None_iff [THEN iffD2] split: option.split)
qed simp

lemma restart_entry:
  assumes "od_wf raw"
  shows "od_get (lx_data (exact_restart n t (Saved raw))) k =
    (case od_get raw k of Some e \<Rightarrow> if t - ce_epoch e < ce_ttl e then Some e else None | None \<Rightarrow> None)"
  using assms loaded_entry [of raw t "[]" k] by (simp add: exact_restart_def new_local_exact_def od_wf_def od_get_def split: option.splits)

text \<open>A change whose request comes while the writer is at work is not in the file when all is done.\<close>

lemma stale_file:
  assumes "at_rest p" "change (dc_memory p) m" "change m m'"
  shows "\<exists>p'. (disk_step change reads flush dump)\<^sup>*\<^sup>* p p' \<and> at_rest p' \<and> dc_memory p' = m' \<and> dc_file p' = Saved (dump m)"
proof -
  let ?step = "disk_step change reads flush dump"
  let ?p1 = "p\<lparr>dc_memory := m, dc_pending := 1\<rparr>"
  let ?p2 = "p\<lparr>dc_memory := m, dc_writer := Started, dc_pending := 0\<rparr>"
  let ?p3 = "p\<lparr>dc_memory := m, dc_writer := Writing (dump m), dc_file := Broken, dc_pending := 0\<rparr>"
  let ?p4 = "p\<lparr>dc_memory := m', dc_writer := Writing (dump m), dc_file := Broken, dc_pending := 1\<rparr>"
  let ?p5 = "p\<lparr>dc_memory := m', dc_writer := Writing (dump m), dc_file := Broken, dc_pending := 0\<rparr>"
  let ?p6 = "p\<lparr>dc_memory := m', dc_writer := Idle, dc_file := Saved (dump m), dc_pending := 0\<rparr>"
  have r: "dc_writer p = Idle" "dc_pending p = 0" using assms(1) by (simp_all add: at_rest_def)
  have "?step p ?p1" using disk_step.changed [of change p m reads flush dump] assms(2) r by simp
  moreover have "?step ?p1 ?p2" using disk_step.requested [of ?p1 change reads flush dump] r by (simp add: save_async_def)
  moreover have "?step ?p2 ?p3" using disk_step.snapshot [of ?p2 change reads flush dump] by (cases p) simp
  moreover have "?step ?p3 ?p4" using disk_step.changed [of change ?p3 m' reads flush dump] assms(3) by (cases p) simp
  moreover have "?step ?p4 ?p5" using disk_step.requested [of ?p4 change reads flush dump] by (cases p) (simp add: save_async_def)
  moreover have "?step ?p5 ?p6" using disk_step.written [of ?p5 "dump m" change reads flush dump] by (cases p) simp
  ultimately have "?step\<^sup>*\<^sup>* p ?p6" by (meson converse_rtranclp_into_rtranclp rtranclp.rtrancl_refl)
  then show ?thesis by (intro exI [of _ ?p6]) (simp add: at_rest_def)
qed

lemma set_entry: "od_get (lx_data (lx_set t k e ttl s)) k = Some (e\<lparr>ce_epoch := t, ce_ttl := ttl\<rparr>)"
  by (simp add: lx_set_def Let_def)

lemma revived:
  assumes "lx_ok s" "t < t\<^sub>1 + ttl"
  shows "\<exists>e. fst (lx_get t k (exact_restart n t (Saved (lx_data (lx_set t\<^sub>1 k entry ttl s))))) = Some e \<and> verdict_of e = verdict_of entry"
proof -
  have wf: "od_wf (lx_data (lx_set t\<^sub>1 k entry ttl s))" using lx_cache.set_ok [OF assms(1)] by (simp add: lx_ok_def)
  have "od_get (lx_data (exact_restart n t (Saved (lx_data (lx_set t\<^sub>1 k entry ttl s))))) k = Some (entry\<lparr>ce_epoch := t\<^sub>1, ce_ttl := ttl\<rparr>)"
    using assms(2) by (simp add: restart_entry [OF wf] set_entry)
  then show ?thesis using assms(2) by (simp add: lx_get_def verdict_of_def)
qed

section \<open>Properties\<close>

text \<open>
  A restart may bring back a verdict that was replaced or flushed.  Store a verdict for a prompt,
  and while its writer is at work replace it (as the background confirmation does when it escalates
  to HIGH) or flush the cache: the second request to save is dropped.  When all is quiet the memory
  has the new state and the file the old one, and a restart within the TTL serves the old verdict.
\<close>

theorem restart_revives_replaced_verdict:
  assumes "lx_ok s" "at_rest p" "dc_memory p = s"
    and "m' \<in> {lx_set t\<^sub>2 k new ttl (lx_set t\<^sub>1 k old ttl s), lx_flush (lx_set t\<^sub>1 k old ttl s), lx_delete k (lx_set t\<^sub>1 k old ttl s)}"
  shows "\<exists>p'. exact_step\<^sup>*\<^sup>* p p' \<and> at_rest p' \<and> dc_memory p' = m'
    \<and> (\<forall>t. t < t\<^sub>1 + ttl \<longrightarrow> (\<exists>e. fst (lx_get t k (exact_restart n t (dc_file p'))) = Some e \<and> verdict_of e = verdict_of old))"
proof -
  have "exact_change (dc_memory p) (lx_set t\<^sub>1 k old ttl s)" unfolding assms(3) by (rule exact_change.intros)
  moreover have "exact_change (lx_set t\<^sub>1 k old ttl s) m'" using assms(4) by (auto intro: exact_change.intros)
  ultimately obtain p' where "exact_step\<^sup>*\<^sup>* p p'" "at_rest p'" "dc_memory p' = m'" "dc_file p' = Saved (lx_data (lx_set t\<^sub>1 k old ttl s))"
    using stale_file [OF assms(2)] by blast
  then show ?thesis using revived [OF assms(1)] by auto
qed

text \<open>
  C38. A restart invents nothing.  In every state a run can reach, whatever was at work, a verdict that
  the exact tier serves after a restart was in the file at the start of the run or in the memory at
  some moment of it, for the same prompt, and has not passed its TTL.
\<close>

theorem restart_serves_held_verdict:
  assumes "disk_run exact_change exact_read (\<lambda>_ _. False) lx_data p\<^sub>0 ms p"
    and "lx_ok (dc_memory p\<^sub>0)" "\<forall>d. dc_file p\<^sub>0 = Saved d \<longrightarrow> od_wf d"
    and "fst (lx_get t k (exact_restart n t (dc_file p))) = Some e"
  shows "((\<exists>d. dc_file p\<^sub>0 = Saved d \<and> od_get d k = Some e) \<or> (\<exists>m \<in> set ms. od_get (lx_data m) k = Some e)) \<and> t - ce_epoch e < ce_ttl e"
proof -
  obtain d where d: "dc_file p = Saved d"
    using assms(4) by (cases "dc_file p") (simp_all add: exact_restart_def new_local_exact_def lx_get_def)
  have held: "dc_file p\<^sub>0 = Saved d \<or> (\<exists>m \<in> set ms. d = lx_data m)" using file_inv_run [OF assms(1)] d by (auto simp: file_inv_def)
  then have "od_wf d" using exact_memories_ok [OF assms(1,2)] assms(3) by (auto simp: lx_ok_def)
  from restart_entry [OF this, of n t k] have "od_get d k = Some e \<and> t - ce_epoch e < ce_ttl e"
    using assms(4) unfolding d by (auto simp: lx_get_def split: option.splits if_splits)
  then show ?thesis using held by blast
qed

section \<open>Witnesses\<close>

definition plain_entry :: "string \<Rightarrow> unit centry" where
  "plain_entry risk = \<lparr>ce_prompt = ''p'', ce_vector = (), ce_risk = risk, ce_score = 0, ce_prompt_hash = ''h'', ce_epoch = 0, ce_source = ''s'', ce_ttl = 0\<rparr>"

definition quiet_cache :: "(unit local_exact, (string \<times> unit centry) list) disk_cache" where
  "quiet_cache = \<lparr>dc_memory = new_local_exact 5000 0 None, dc_writer = Idle, dc_file = NoFile, dc_pending = 0\<rparr>"

lemma quiet_ok: "lx_ok (new_local_exact 5000 0 None)" "at_rest quiet_cache" "dc_memory quiet_cache = new_local_exact 5000 0 None"
  by (simp_all add: lx_ok_def new_local_exact_def at_rest_def quiet_cache_def)

text \<open>HIGH in memory, LOW after the restart.\<close>

theorem restart_revives_replaced_verdict_witness:
  "\<exists>p' e. exact_step\<^sup>*\<^sup>* quiet_cache p' \<and> at_rest p'
    \<and> lx_view (dc_memory p') ''h'' = Some ((''HIGH'', 0), 2 + 86400)
    \<and> fst (lx_get 10 ''h'' (exact_restart 5000 10 (dc_file p'))) = Some e \<and> ce_risk e = ''LOW''"
proof -
  let ?s = "new_local_exact 5000 0 None :: unit local_exact"
  let ?m = "lx_set 2 ''h'' (plain_entry ''HIGH'') 86400 (lx_set 1 ''h'' (plain_entry ''LOW'') 86400 ?s)"
  obtain p' where p: "exact_step\<^sup>*\<^sup>* quiet_cache p'" "at_rest p'" "dc_memory p' = ?m"
    and all: "\<forall>t. t < 1 + 86400 \<longrightarrow>
      (\<exists>e. fst (lx_get t ''h'' (exact_restart 5000 t (dc_file p'))) = Some e \<and> verdict_of e = verdict_of (plain_entry ''LOW''))"
    using restart_revives_replaced_verdict [OF quiet_ok, where n = 5000 and m' = ?m and t\<^sub>2 = 2 and k = "''h''"
        and new = "plain_entry ''HIGH''" and ttl = 86400 and t\<^sub>1 = 1 and old = "plain_entry ''LOW''"] by blast
  have "\<exists>e. fst (lx_get 10 ''h'' (exact_restart 5000 10 (dc_file p'))) = Some e \<and> verdict_of e = verdict_of (plain_entry ''LOW'')"
    using all by simp
  then obtain e where "fst (lx_get 10 ''h'' (exact_restart 5000 10 (dc_file p'))) = Some e" "verdict_of e = verdict_of (plain_entry ''LOW'')"
    by blast
  moreover have "lx_view ?m ''h'' = Some ((''HIGH'', 0), 2 + 86400)"
    by (simp add: lx_view_def set_entry verdict_of_def plain_entry_def)
  ultimately show ?thesis using p by (intro exI [of _ p'] exI [of _ e]) (simp add: verdict_of_def plain_entry_def)
qed

theorem restart_serves_held_verdict_witness:
  "\<exists>p :: (unit local_exact, (string \<times> unit centry) list) disk_cache. dc_memory p = new_local_exact 5000 0 None \<and> fst (lx_get 10 ''h'' (exact_restart 5000 10 (dc_file p))) \<noteq> None
    \<and> (\<exists>d. dc_file p = Saved d \<and> od_get d ''h'' \<noteq> None)"
proof -
  let ?p = "quiet_cache\<lparr>dc_file := Saved [(''h'', plain_entry ''LOW''\<lparr>ce_ttl := 60\<rparr>)]\<rparr>"
  have run: "disk_run exact_change exact_read (\<lambda>_ _. False) lx_data ?p [dc_memory ?p] ?p"
    by (rule disk_run.intros) (use quiet_ok in \<open>simp add: at_rest_def\<close>)
  have hit: "fst (lx_get 10 ''h'' (exact_restart 5000 10 (dc_file ?p))) = Some (plain_entry ''LOW''\<lparr>ce_ttl := 60\<rparr>)"
    by (simp add: exact_restart_def new_local_exact_def lx_get_def plain_entry_def)
  have "od_get (lx_data (dc_memory ?p)) ''h'' = None" by (simp add: quiet_cache_def new_local_exact_def)
  moreover have "lx_ok (dc_memory ?p)" by (simp add: quiet_cache_def new_local_exact_def lx_ok_def)
  moreover have "\<forall>d. dc_file ?p = Saved d \<longrightarrow> od_wf d" by (simp add: od_wf_def)
  ultimately have "\<exists>d. dc_file ?p = Saved d \<and> od_get d ''h'' \<noteq> None"
    using restart_serves_held_verdict [OF run _ _ hit] by fastforce
  then show ?thesis using hit quiet_ok(3) by (intro exI [of _ ?p]) simp
qed

end
