(* ===== verification/Suite_Builder.thy ===== *)
theory Suite_Builder
  imports Normalizer "HOL-Library.Multiset"
begin

text \<open>
  The builder of the evaluation suite, \<open>scripts/build_eval_suite.py\<close>: the adapters of the ten sources,
  the language tag, deduplication, sampling caps, and the manifest.

  A text is a list of code points.  \<open>load\<close> stands for \<open>datasets.load_dataset\<close>, \<open>draw\<close> for the
  permutation \<open>random.shuffle\<close> applies to a list of a given length, \<open>sha1\<close> for the digest.  The cells of
  a row are texts, integers or \<open>None\<close>.  The constant texts of the manifest (the
  caveats, the notes of the sources, the excluded sources) are left out.
\<close>

section \<open>Definitions from the code\<close>

record suite_env = unicode_env +
  un_upper :: "cps \<Rightarrow> cps"
  un_nfkd :: "cps \<Rightarrow> cps"
  un_combining :: "nat \<Rightarrow> bool"
  un_int :: "cps \<Rightarrow> string + int"

definition cps_of :: "string \<Rightarrow> cps" where
  "cps_of s = map of_char s"

definition suite_benign :: string where "suite_benign = ''benign''"

definition suite_injection :: string where "suite_injection = ''prompt_injection''"

definition suite_jailbreak :: string where "suite_jailbreak = ''jailbreak''"

definition suite_harmful :: string where "suite_harmful = ''harmful_content''"

subsection \<open>The language tag\<close>

definition de_markers :: "cps list" where
  "de_markers = [102, 252, 114] # map cps_of
    [''der'', ''die'', ''das'', ''und'', ''ist'', ''nicht'', ''ich'', ''du'', ''sie'', ''wir'', ''ein'',
     ''eine'', ''einen'', ''einem'', ''einer'', ''mit'', ''auf'', ''fuer'', ''von'', ''zu'',
     ''dass'', ''wie'', ''was'', ''wenn'', ''aber'', ''auch'', ''sind'', ''haben'', ''werden'',
     ''kann'', ''soll'', ''muss'', ''alle'', ''alles'', ''jetzt'', ''bitte'', ''vergiss'',
     ''ignoriere'', ''schreibe'', ''deine'', ''deinen'', ''mich'', ''mir'', ''es'', ''im'', ''am'']"

definition en_markers :: "cps list" where
  "en_markers = map cps_of
    [''the'', ''and'', ''is'', ''not'', ''you'', ''we'', ''a'', ''an'', ''with'', ''on'', ''for'',
     ''from'', ''to'', ''that'', ''how'', ''what'', ''if'', ''but'', ''also'', ''are'', ''have'',
     ''will'', ''can'', ''should'', ''must'', ''all'', ''now'', ''please'', ''forget'', ''ignore'',
     ''write'', ''your'', ''me'', ''my'', ''it'', ''in'', ''of'', ''this'', ''do'']"

definition german_letters :: cps where
  "german_letters = [228, 246, 252, 223, 196, 214, 220]"

definition word_letter :: "nat \<Rightarrow> bool" where
  "word_letter c \<longleftrightarrow> 97 \<le> c \<and> c \<le> 122 \<or> 65 \<le> c \<and> c \<le> 90 \<or> c \<in> set german_letters"

text \<open>\<open>re.findall(r"[...]+", text)\<close>: the maximal runs of the class.\<close>

function runs_of :: "(nat \<Rightarrow> bool) \<Rightarrow> cps \<Rightarrow> cps list" where
  "runs_of p [] = []"
| "runs_of p (c # t) =
     (if p c then (c # takeWhile p t) # runs_of p (dropWhile p t) else runs_of p t)"
  by pat_completeness auto
termination
  by (relation "measure (\<lambda>(p, t). length t)") (auto simp: less_Suc_eq_le length_dropWhile_le)

definition marker_count :: "cps list \<Rightarrow> cps list \<Rightarrow> nat" where
  "marker_count tokens markers = length (filter (\<lambda>w. w \<in> set markers) (remdups tokens))"

definition detect_language :: "suite_env \<Rightarrow> cps \<Rightarrow> string" where
  "detect_language un t =
     (let tokens = runs_of word_letter (un_lower un t);
          de = marker_count tokens de_markers + (if list_ex (\<lambda>c. c \<in> set t) german_letters then 2 else 0);
          en = marker_count tokens en_markers
      in if tokens = [] then ''other''
         else if de = 0 \<and> en = 0 then ''other''
         else if de > en then ''de'' else if en > de then ''en'' else ''other'')"

definition dedup_char :: "suite_env \<Rightarrow> nat \<Rightarrow> bool" where
  "dedup_char un c \<longleftrightarrow> 97 \<le> c \<and> c \<le> 122 \<or> 48 \<le> c \<and> c \<le> 57 \<or> un_space un c"

definition normalize_for_dedup :: "suite_env \<Rightarrow> cps \<Rightarrow> cps" where
  "normalize_for_dedup un t =
     strip_ends (un_space un) (collapse_space (un_space un)
       (filter (dedup_char un) (filter (\<lambda>c. \<not> un_combining un c) (un_nfkd un (un_lower un t)))))"

subsection \<open>The adapters\<close>

datatype cell = CNone | CText cps | CInt int

type_synonym row = "(string \<times> cell) list"

text \<open>The name of an exception's type and its message.\<close>

type_synonym raised = "string \<times> string"

type_synonym loader = "string \<Rightarrow> string option \<Rightarrow> string \<Rightarrow> (raised, row list) res"

type_synonym candidate = "cell \<times> int \<times> string"

definition row_item :: "row \<Rightarrow> string \<Rightarrow> (raised, cell) res" where
  "row_item r k = (case map_of r k of None \<Rightarrow> Inl (''KeyError'', CHR 0x27 # k @ [CHR 0x27]) | Some c \<Rightarrow> Inr c)"

definition row_get :: "row \<Rightarrow> string \<Rightarrow> cell" where
  "row_get r k = (case map_of r k of None \<Rightarrow> CNone | Some c \<Rightarrow> c)"

fun int_of_cell :: "suite_env \<Rightarrow> cell \<Rightarrow> (raised, int) res" where
  "int_of_cell un CNone =
     Inl (''TypeError'', ''int() argument must be a string, a bytes-like object or a real number, not ''
       @ [CHR 0x27] @ ''NoneType'' @ [CHR 0x27])"
| "int_of_cell un (CInt i) = Inr i"
| "int_of_cell un (CText t) = (case un_int un t of Inl e \<Rightarrow> Inl (''ValueError'', e) | Inr i \<Rightarrow> Inr i)"

text \<open>The truth of a cell, and \<open>(c or "").strip()\<close>.\<close>

fun cell_true :: "cell \<Rightarrow> bool" where
  "cell_true CNone = False"
| "cell_true (CText t) = (t \<noteq> [])"
| "cell_true (CInt i) = (i \<noteq> 0)"

fun stripped :: "suite_env \<Rightarrow> cell \<Rightarrow> (raised, cps) res" where
  "stripped un CNone = Inr []"
| "stripped un (CText t) = Inr (strip_ends (un_space un) t)"
| "stripped un (CInt i) = (if i = 0 then Inr []
     else Inl (''AttributeError'', [CHR 0x27] @ ''int'' @ [CHR 0x27] @ '' object has no attribute '' @ [CHR 0x27] @ ''strip'' @ [CHR 0x27]))"

text \<open>A generator that is exhausted by \<open>list\<close>: the first exception ends it.\<close>

fun gather :: "('a \<Rightarrow> (raised, 'b list) res) \<Rightarrow> 'a list \<Rightarrow> (raised, 'b list) res" where
  "gather f [] = Inr []"
| "gather f (x # xs) = bind_res (f x) (\<lambda>ys. bind_res (gather f xs) (\<lambda>zs. Inr (ys @ zs)))"

definition from_splits ::
  "loader \<Rightarrow> string \<Rightarrow> string option \<Rightarrow> string list \<Rightarrow> (row \<Rightarrow> (raised, candidate list) res) \<Rightarrow> (raised, candidate list) res" where
  "from_splits load name config splits f = gather (\<lambda>split. bind_res (load name config split) (gather f)) splits"

text \<open>A row whose stripped text is empty is passed over.\<close>

definition with_text :: "suite_env \<Rightarrow> cell \<Rightarrow> (cps \<Rightarrow> (raised, candidate list) res) \<Rightarrow> (raised, candidate list) res" where
  "with_text un c f = bind_res (stripped un c) (\<lambda>t. if t = [] then Inr [] else f t)"

definition labelled :: "cell \<Rightarrow> bool \<Rightarrow> string \<Rightarrow> candidate" where
  "labelled c attack cls = (c, (if attack then 1 else 0), (if attack then cls else suite_benign))"

definition src_deepset :: "suite_env \<Rightarrow> loader \<Rightarrow> (raised, candidate list) res" where
  "src_deepset un load = from_splits load ''deepset/prompt-injections'' None [''train''] (\<lambda>r.
     bind_res (row_item r ''label'') (\<lambda>l. bind_res (int_of_cell un l) (\<lambda>label.
     bind_res (row_item r ''text'') (\<lambda>t. Inr [(t, label, (if label \<noteq> 0 then suite_injection else suite_benign))]))))"

definition src_jailbreak_classification :: "suite_env \<Rightarrow> loader \<Rightarrow> (raised, candidate list) res" where
  "src_jailbreak_classification un load = from_splits load ''jackhhao/jailbreak-classification'' None [''train'', ''test''] (\<lambda>r.
     bind_res (row_item r ''type'') (\<lambda>c.
       let is_jb = (case c of CText t \<Rightarrow> un_lower un (strip_ends (un_space un) t) = cps_of ''jailbreak'' | _ \<Rightarrow> False)
       in bind_res (row_item r ''prompt'') (\<lambda>t. Inr [labelled t is_jb suite_jailbreak])))"

definition src_gandalf :: "suite_env \<Rightarrow> loader \<Rightarrow> (raised, candidate list) res" where
  "src_gandalf un load = from_splits load ''lakera/gandalf_ignore_instructions'' None [''train''] (\<lambda>r.
     bind_res (row_item r ''text'') (\<lambda>t. Inr [(t, 1, suite_injection)]))"

definition src_chatgpt_jailbreaks :: "suite_env \<Rightarrow> loader \<Rightarrow> (raised, candidate list) res" where
  "src_chatgpt_jailbreaks un load = from_splits load ''rubend18/ChatGPT-Jailbreak-Prompts'' None [''train''] (\<lambda>r.
     with_text un (row_get r ''Prompt'') (\<lambda>t. Inr [(CText t, 1, suite_jailbreak)]))"

definition flag_set :: "suite_env \<Rightarrow> row \<Rightarrow> string \<Rightarrow> (raised, bool) res" where
  "flag_set un r k =
     (let c = row_get r k
      in bind_res (if cell_true c then int_of_cell un c else Inr 0) (\<lambda>i. Inr (i = 1)))"

definition src_toxic_chat :: "suite_env \<Rightarrow> loader \<Rightarrow> (raised, candidate list) res" where
  "src_toxic_chat un load = from_splits load ''lmsys/toxic-chat'' (Some ''toxicchat0124'') [''train''] (\<lambda>r.
     with_text un (row_get r ''user_input'') (\<lambda>t.
       bind_res (flag_set un r ''jailbreaking'') (\<lambda>jb.
         if jb then Inr [(CText t, 1, suite_jailbreak)]
         else bind_res (flag_set un r ''toxicity'') (\<lambda>tox.
           if tox then Inr [(CText t, 1, suite_harmful)] else Inr [(CText t, 0, suite_benign)]))))"

definition src_jbb_behaviors :: "suite_env \<Rightarrow> loader \<Rightarrow> (raised, candidate list) res" where
  "src_jbb_behaviors un load = gather (\<lambda>(split, label, cls).
     from_splits load ''JailbreakBench/JBB-Behaviors'' (Some ''behaviors'') [split] (\<lambda>r.
       with_text un (if cell_true (row_get r ''Goal'') then row_get r ''Goal'' else row_get r ''goal'') (\<lambda>t.
         Inr [(CText t, label, cls)]))) [(''harmful'', 1, suite_harmful), (''benign'', 0, suite_benign)]"

definition multilingual_row :: "suite_env \<Rightarrow> row \<Rightarrow> (raised, candidate list) res" where
  "multilingual_row un r =
     with_text un (row_get r ''text'') (\<lambda>t.
       bind_res (row_item r ''label'') (\<lambda>l. bind_res (int_of_cell un l) (\<lambda>i. Inr [labelled (CText t) (i = 1) suite_injection])))"

definition src_rikka_snow_multilingual :: "suite_env \<Rightarrow> loader \<Rightarrow> (raised, candidate list) res" where
  "src_rikka_snow_multilingual un load =
     from_splits load ''rikka-snow/prompt-injection-multilingual'' None [''train'', ''test''] (multilingual_row un)"

definition src_octavio_multilingual :: "suite_env \<Rightarrow> loader \<Rightarrow> (raised, candidate list) res" where
  "src_octavio_multilingual un load =
     from_splits load ''Octavio-Santana/prompt-injection-attack-detection-multilingual'' None [''train''] (multilingual_row un)"

definition src_germeval18 :: "suite_env \<Rightarrow> loader \<Rightarrow> (raised, candidate list) res" where
  "src_germeval18 un load = from_splits load ''philschmid/germeval18'' None [''train'', ''test''] (\<lambda>r.
     with_text un (row_get r ''text'') (\<lambda>t.
       let is_offense = (case map_of r ''binary'' of
             Some (CText b) \<Rightarrow> un_upper un (strip_ends (un_space un) b) = cps_of ''OFFENSE'' | _ \<Rightarrow> False)
       in Inr [labelled (CText t) is_offense suite_harmful]))"

definition src_alpaca :: "suite_env \<Rightarrow> loader \<Rightarrow> (raised, candidate list) res" where
  "src_alpaca un load = from_splits load ''tatsu-lab/alpaca'' None [''train''] (\<lambda>r.
     with_text un (row_get r ''instruction'') (\<lambda>t. Inr [(CText t, 0, suite_benign)]))"

record suite_source =
  ss_name :: string
  ss_fn :: "loader \<Rightarrow> (raised, candidate list) res"
  ss_cap :: "nat option"

definition suite_sources :: "suite_env \<Rightarrow> suite_source list" where
  "suite_sources un =
    [\<lparr>ss_name = ''deepset/prompt-injections'', ss_fn = src_deepset un, ss_cap = None\<rparr>,
     \<lparr>ss_name = ''jackhhao/jailbreak-classification'', ss_fn = src_jailbreak_classification un, ss_cap = None\<rparr>,
     \<lparr>ss_name = ''lakera/gandalf_ignore_instructions'', ss_fn = src_gandalf un, ss_cap = Some 800\<rparr>,
     \<lparr>ss_name = ''rubend18/ChatGPT-Jailbreak-Prompts'', ss_fn = src_chatgpt_jailbreaks un, ss_cap = None\<rparr>,
     \<lparr>ss_name = ''lmsys/toxic-chat'', ss_fn = src_toxic_chat un, ss_cap = Some 3000\<rparr>,
     \<lparr>ss_name = ''JailbreakBench/JBB-Behaviors'', ss_fn = src_jbb_behaviors un, ss_cap = None\<rparr>,
     \<lparr>ss_name = ''tatsu-lab/alpaca'', ss_fn = src_alpaca un, ss_cap = Some 1200\<rparr>,
     \<lparr>ss_name = ''rikka-snow/prompt-injection-multilingual'', ss_fn = src_rikka_snow_multilingual un, ss_cap = Some 3000\<rparr>,
     \<lparr>ss_name = ''Octavio-Santana/prompt-injection-attack-detection-multilingual'', ss_fn = src_octavio_multilingual un, ss_cap = Some 3000\<rparr>,
     \<lparr>ss_name = ''philschmid/germeval18'', ss_fn = src_germeval18 un, ss_cap = Some 3000\<rparr>]"

subsection \<open>The build\<close>

record suite_record =
  sr_id :: string
  sr_text :: cps
  sr_label :: int
  sr_class :: string
  sr_source :: string
  sr_language :: string

datatype provenance =
    Skipped string string
  | Taken string nat nat nat nat "nat option"

text \<open>The records so far, the keys seen with their source, and the counts of the current source.\<close>

record row_pool =
  po_records :: "suite_record list"
  po_seen :: "(cps, string) odict"
  po_kept :: nat
  po_dups :: nat

definition add_candidate ::
  "suite_env \<Rightarrow> (cps \<Rightarrow> string) \<Rightarrow> string \<Rightarrow> candidate \<Rightarrow> row_pool \<Rightarrow> (raised, row_pool) res" where
  "add_candidate un sha1 name = (\<lambda>(c, label, cls) p.
     bind_res (stripped un c) (\<lambda>t.
       if t = [] \<or> length t < 3 then Inr p
       else let key = normalize_for_dedup un t
         in if key = [] then Inr p
            else if od_get (po_seen p) key \<noteq> None then Inr (p\<lparr>po_dups := po_dups p + 1\<rparr>)
            else Inr (p\<lparr>po_seen := od_set key name (po_seen p),
              po_records := po_records p @ [\<lparr>sr_id = take 16 (sha1 key), sr_text = t, sr_label = label,
                sr_class = cls, sr_source = name, sr_language = detect_language un t\<rparr>],
              po_kept := po_kept p + 1\<rparr>)))"

fun add_candidates ::
  "suite_env \<Rightarrow> (cps \<Rightarrow> string) \<Rightarrow> string \<Rightarrow> candidate list \<Rightarrow> row_pool \<Rightarrow> (raised, row_pool) res" where
  "add_candidates un sha1 name [] p = Inr p"
| "add_candidates un sha1 name (c # cs) p = bind_res (add_candidate un sha1 name c p) (add_candidates un sha1 name cs)"

definition shuffled :: "('g \<Rightarrow> nat \<Rightarrow> nat list \<times> 'g) \<Rightarrow> 'g \<Rightarrow> 'a list \<Rightarrow> 'a list \<times> 'g" where
  "shuffled draw g xs = (let (perm, g') = draw g (length xs) in (map ((!) xs) perm, g'))"

definition sample ::
  "('g \<Rightarrow> nat \<Rightarrow> nat list \<times> 'g) \<Rightarrow> 'g \<Rightarrow> nat option \<Rightarrow> candidate list \<Rightarrow> candidate list \<times> 'g" where
  "sample draw g cap rows =
     (case cap of
        Some n \<Rightarrow> if n \<noteq> 0 \<and> length rows > n then let (rs, g') = shuffled draw g rows in (take n rs, g') else (rows, g)
      | None \<Rightarrow> (rows, g))"

record 'g build_state =
  bs_rng :: 'g
  bs_pool :: row_pool
  bs_duplicates :: nat
  bs_provenance :: "provenance list"

definition build_source ::
  "suite_env \<Rightarrow> (cps \<Rightarrow> string) \<Rightarrow> ('g \<Rightarrow> nat \<Rightarrow> nat list \<times> 'g) \<Rightarrow> loader \<Rightarrow> suite_source \<Rightarrow> 'g build_state
   \<Rightarrow> (raised, 'g build_state) res" where
  "build_source un sha1 draw load spec st =
     (case ss_fn spec load of
        Inl (ty, msg) \<Rightarrow> Inr (st\<lparr>bs_provenance := bs_provenance st @ [Skipped (ss_name spec) (ty @ '': '' @ take 200 msg)]\<rparr>)
      | Inr rows \<Rightarrow>
          let (rs, g) = sample draw (bs_rng st) (ss_cap spec) rows
          in bind_res (add_candidates un sha1 (ss_name spec) rs ((bs_pool st)\<lparr>po_kept := 0, po_dups := 0\<rparr>)) (\<lambda>p.
               Inr (st\<lparr>bs_rng := g, bs_pool := p, bs_duplicates := bs_duplicates st + po_dups p,
                 bs_provenance := bs_provenance st @ [Taken (ss_name spec) (length rows) (length rs) (po_kept p) (po_dups p) (ss_cap spec)]\<rparr>)))"

fun build_sources ::
  "suite_env \<Rightarrow> (cps \<Rightarrow> string) \<Rightarrow> ('g \<Rightarrow> nat \<Rightarrow> nat list \<times> 'g) \<Rightarrow> loader \<Rightarrow> suite_source list \<Rightarrow> 'g build_state
   \<Rightarrow> (raised, 'g build_state) res" where
  "build_sources un sha1 draw load [] st = Inr st"
| "build_sources un sha1 draw load (s # ss) st =
     bind_res (build_source un sha1 draw load s st) (build_sources un sha1 draw load ss)"

text \<open>\<open>xs[:n]\<close>, from the end for a negative \<open>n\<close>.\<close>

definition py_take :: "int \<Rightarrow> 'a list \<Rightarrow> 'a list" where
  "py_take n xs = (if 0 \<le> n then take (nat n) xs else take (length xs - nat (- n)) xs)"

definition cap_benign ::
  "('g \<Rightarrow> nat \<Rightarrow> nat list \<times> 'g) \<Rightarrow> 'g \<Rightarrow> int option \<Rightarrow> suite_record list \<Rightarrow> suite_record list \<times> 'g" where
  "cap_benign draw g cap records =
     (case cap of
        Some n \<Rightarrow>
          if n = 0 then (records, g)
          else let benign = filter (\<lambda>r. sr_label r = 0) records; attacks = filter (\<lambda>r. sr_label r = 1) records
            in if int (length benign) > n then let (bs, g') = shuffled draw g benign in (attacks @ py_take n bs, g')
               else (attacks @ benign, g)
      | None \<Rightarrow> (records, g))"

definition build ::
  "suite_env \<Rightarrow> (cps \<Rightarrow> string) \<Rightarrow> ('g \<Rightarrow> nat \<Rightarrow> nat list \<times> 'g) \<Rightarrow> loader \<Rightarrow> 'g \<Rightarrow> int option
   \<Rightarrow> (raised, suite_record list \<times> provenance list \<times> nat) res" where
  "build un sha1 draw load seed benign_cap =
     bind_res (build_sources un sha1 draw load (suite_sources un)
       \<lparr>bs_rng = seed, bs_pool = \<lparr>po_records = [], po_seen = [], po_kept = 0, po_dups = 0\<rparr>, bs_duplicates = 0, bs_provenance = []\<rparr>)
     (\<lambda>st. let (records, g) = cap_benign draw (bs_rng st) benign_cap (po_records (bs_pool st))
           in Inr (fst (shuffled draw g records), bs_provenance st, bs_duplicates st))"

subsection \<open>The manifest\<close>

definition count_in :: "('k, nat) odict \<Rightarrow> 'k \<Rightarrow> ('k, nat) odict" where
  "count_in out k = od_set k ((case od_get out k of None \<Rightarrow> 0 | Some n \<Rightarrow> n) + 1) out"

definition tally :: "('r \<Rightarrow> 'k) \<Rightarrow> 'r list \<Rightarrow> ('k, nat) odict" where
  "tally key records = sort_key (\<lambda>kv. - int (snd kv)) (foldl (\<lambda>out r. count_in out (key r)) [] records)"

definition cross_tally :: "suite_record list \<Rightarrow> (string, (string, nat) odict) odict" where
  "cross_tally records = foldl (\<lambda>out r.
     od_set (sr_class r) (count_in (case od_get out (sr_class r) of None \<Rightarrow> [] | Some d \<Rightarrow> d) (sr_language r)) out) [] records"

record manifest =
  mf_total :: nat
  mf_attacks :: nat
  mf_benign :: int
  mf_duplicates :: nat
  mf_benign_cap :: "int option"
  mf_by_class :: "(string, nat) odict"
  mf_by_language :: "(string, nat) odict"
  mf_by_source :: "(string, nat) odict"
  mf_class_by_language :: "(string, (string, nat) odict) odict"
  mf_sources :: "provenance list"

definition summarize :: "suite_record list \<Rightarrow> provenance list \<Rightarrow> nat \<Rightarrow> int option \<Rightarrow> manifest" where
  "summarize records prov duplicates benign_cap =
     (let n_attack = length (filter (\<lambda>r. sr_label r = 1) records)
      in \<lparr>mf_total = length records, mf_attacks = n_attack, mf_benign = int (length records) - int n_attack,
          mf_duplicates = duplicates, mf_benign_cap = benign_cap, mf_by_class = tally sr_class records,
          mf_by_language = tally sr_language records, mf_by_source = tally sr_source records,
          mf_class_by_language = cross_tally records, mf_sources = prov\<rparr>)"

section \<open>Lemmas\<close>

subsection \<open>The adapters\<close>

text \<open>A class of the taxonomy, and \<open>benign\<close> exactly for the label 0.\<close>

definition class_fits :: "int \<Rightarrow> string \<Rightarrow> bool" where
  "class_fits l cls \<longleftrightarrow> cls \<in> {suite_benign, suite_injection, suite_jailbreak, suite_harmful} \<and> (l = 0 \<longleftrightarrow> cls = suite_benign)"

definition candidate_fits :: "candidate \<Rightarrow> bool" where
  "candidate_fits = (\<lambda>(c, l, cls). class_fits l cls)"

lemmas suite_class_defs = suite_benign_def suite_injection_def suite_jailbreak_def suite_harmful_def

lemma gather_all:
  "gather f xs = Inr ys \<Longrightarrow> (\<And>x zs. x \<in> set xs \<Longrightarrow> f x = Inr zs \<Longrightarrow> list_all P zs) \<Longrightarrow> list_all P ys"
proof (induction xs arbitrary: ys)
  case (Cons x xs)
  then obtain as bs where ab: "f x = Inr as" "gather f xs = Inr bs" "ys = as @ bs" by (auto simp: bind_res_Inr_iff)
  then have "list_all P as" "list_all P bs" using Cons.prems(2) Cons.IH [OF ab(2)] by auto
  then show ?case using ab(3) by simp
qed simp

lemma from_splits_all:
  assumes "from_splits load name config splits f = Inr ys" "\<And>r zs. f r = Inr zs \<Longrightarrow> list_all P zs"
  shows "list_all P ys"
  using assms(1) unfolding from_splits_def
proof (rule gather_all)
  fix split zs
  assume "bind_res (load name config split) (gather f) = Inr zs"
  then show "list_all P zs" using assms(2) by (auto simp: bind_res_Inr_iff intro: gather_all)
qed

lemma with_text_all:
  "with_text un c f = Inr zs \<Longrightarrow> (\<And>t ws. f t = Inr ws \<Longrightarrow> list_all P ws) \<Longrightarrow> list_all P zs"
  by (auto simp: with_text_def bind_res_Inr_iff split: if_splits)

lemma labelled_fits: "cls \<in> {suite_injection, suite_jailbreak, suite_harmful} \<Longrightarrow> candidate_fits (labelled c b cls)"
  by (auto simp: labelled_def candidate_fits_def class_fits_def suite_class_defs)

lemma multilingual_fits: "multilingual_row un r = Inr zs \<Longrightarrow> list_all candidate_fits zs"
  unfolding multilingual_row_def by (erule with_text_all) (auto simp: bind_res_Inr_iff labelled_fits)

lemma adapters_fit:
  "src_deepset un load = Inr ys \<Longrightarrow> list_all candidate_fits ys"
  "src_jailbreak_classification un load = Inr ys \<Longrightarrow> list_all candidate_fits ys"
  "src_gandalf un load = Inr ys \<Longrightarrow> list_all candidate_fits ys"
  "src_chatgpt_jailbreaks un load = Inr ys \<Longrightarrow> list_all candidate_fits ys"
  "src_toxic_chat un load = Inr ys \<Longrightarrow> list_all candidate_fits ys"
  "src_jbb_behaviors un load = Inr ys \<Longrightarrow> list_all candidate_fits ys"
  "src_rikka_snow_multilingual un load = Inr ys \<Longrightarrow> list_all candidate_fits ys"
  "src_octavio_multilingual un load = Inr ys \<Longrightarrow> list_all candidate_fits ys"
  "src_germeval18 un load = Inr ys \<Longrightarrow> list_all candidate_fits ys"
  "src_alpaca un load = Inr ys \<Longrightarrow> list_all candidate_fits ys"
proof -
  show "src_deepset un load = Inr ys \<Longrightarrow> list_all candidate_fits ys"
    unfolding src_deepset_def by (erule from_splits_all) (auto simp: bind_res_Inr_iff candidate_fits_def class_fits_def suite_class_defs)
  show "src_jailbreak_classification un load = Inr ys \<Longrightarrow> list_all candidate_fits ys"
    unfolding src_jailbreak_classification_def by (erule from_splits_all) (auto simp: bind_res_Inr_iff Let_def labelled_fits)
  show "src_gandalf un load = Inr ys \<Longrightarrow> list_all candidate_fits ys"
    unfolding src_gandalf_def by (erule from_splits_all) (auto simp: bind_res_Inr_iff candidate_fits_def class_fits_def suite_class_defs)
  show "src_chatgpt_jailbreaks un load = Inr ys \<Longrightarrow> list_all candidate_fits ys"
    unfolding src_chatgpt_jailbreaks_def
    by (erule from_splits_all, erule with_text_all) (auto simp: candidate_fits_def class_fits_def suite_class_defs)
  show "src_toxic_chat un load = Inr ys \<Longrightarrow> list_all candidate_fits ys"
    unfolding src_toxic_chat_def
    by (erule from_splits_all, erule with_text_all)
      (auto simp: bind_res_Inr_iff candidate_fits_def class_fits_def suite_class_defs split: if_splits)
  show "src_jbb_behaviors un load = Inr ys \<Longrightarrow> list_all candidate_fits ys"
    unfolding src_jbb_behaviors_def
    by (erule gather_all)
      (auto simp: candidate_fits_def class_fits_def suite_class_defs elim!: from_splits_all with_text_all)
  show "src_rikka_snow_multilingual un load = Inr ys \<Longrightarrow> list_all candidate_fits ys"
    unfolding src_rikka_snow_multilingual_def by (erule from_splits_all) (rule multilingual_fits)
  show "src_octavio_multilingual un load = Inr ys \<Longrightarrow> list_all candidate_fits ys"
    unfolding src_octavio_multilingual_def by (erule from_splits_all) (rule multilingual_fits)
  show "src_germeval18 un load = Inr ys \<Longrightarrow> list_all candidate_fits ys"
    unfolding src_germeval18_def by (erule from_splits_all, erule with_text_all) (auto simp: Let_def labelled_fits)
  show "src_alpaca un load = Inr ys \<Longrightarrow> list_all candidate_fits ys"
    unfolding src_alpaca_def
    by (erule from_splits_all, erule with_text_all) (auto simp: candidate_fits_def class_fits_def suite_class_defs)
qed

lemma sources_fit: "spec \<in> set (suite_sources un) \<Longrightarrow> ss_fn spec load = Inr ys \<Longrightarrow> list_all candidate_fits ys"
  unfolding suite_sources_def by (auto dest: adapters_fit)

subsection \<open>The pool\<close>

definition dedup_key :: "suite_env \<Rightarrow> suite_record \<Rightarrow> cps" where
  "dedup_key un r = normalize_for_dedup un (sr_text r)"

definition record_ok :: "suite_env \<Rightarrow> (cps \<Rightarrow> string) \<Rightarrow> suite_record \<Rightarrow> bool" where
  "record_ok un sha1 r \<longleftrightarrow> 3 \<le> length (sr_text r) \<and> dedup_key un r \<noteq> [] \<and> sr_id r = take 16 (sha1 (dedup_key un r))
     \<and> sr_language r = detect_language un (sr_text r) \<and> class_fits (sr_label r) (sr_class r)
     \<and> sr_source r \<in> ss_name ` set (suite_sources un)"

definition row_pool_inv :: "suite_env \<Rightarrow> (cps \<Rightarrow> string) \<Rightarrow> row_pool \<Rightarrow> bool" where
  "row_pool_inv un sha1 p \<longleftrightarrow>
     po_seen p = map (\<lambda>r. (dedup_key un r, sr_source r)) (po_records p) \<and> od_wf (po_seen p) \<and> list_all (record_ok un sha1) (po_records p)"

lemma add_candidate_inv:
  assumes "add_candidate un sha1 name c p = Inr p'" "row_pool_inv un sha1 p" "candidate_fits c" "name \<in> ss_name ` set (suite_sources un)"
  shows "row_pool_inv un sha1 p' \<and> length (po_records p') + po_kept p = length (po_records p) + po_kept p'
    \<and> po_kept p' + po_dups p' \<le> po_kept p + po_dups p + 1 \<and> po_kept p \<le> po_kept p' \<and> po_dups p \<le> po_dups p'"
  using assms
  by (cases c) (auto simp: add_candidate_def row_pool_inv_def record_ok_def dedup_key_def candidate_fits_def bind_res_Inr_iff Let_def
      od_set_new od_wf_append od_get_None_iff not_less od_wf_def [of "[_]"] split: if_splits)

lemma add_candidates_inv:
  assumes "add_candidates un sha1 name cs p = Inr p'" "row_pool_inv un sha1 p" "list_all candidate_fits cs" "name \<in> ss_name ` set (suite_sources un)"
  shows "row_pool_inv un sha1 p' \<and> length (po_records p') + po_kept p = length (po_records p) + po_kept p'
    \<and> po_kept p' + po_dups p' \<le> po_kept p + po_dups p + length cs \<and> po_kept p \<le> po_kept p' \<and> po_dups p \<le> po_dups p'"
  using assms
proof (induction cs arbitrary: p)
  case (Cons c cs)
  then obtain p1 where p1: "add_candidate un sha1 name c p = Inr p1" "add_candidates un sha1 name cs p1 = Inr p'"
    by (auto simp: bind_res_Inr_iff)
  have a: "row_pool_inv un sha1 p1 \<and> length (po_records p1) + po_kept p = length (po_records p) + po_kept p1
    \<and> po_kept p1 + po_dups p1 \<le> po_kept p + po_dups p + 1 \<and> po_kept p \<le> po_kept p1 \<and> po_dups p \<le> po_dups p1"
    using add_candidate_inv [OF p1(1)] Cons.prems by simp
  show ?case using Cons.IH [OF p1(2)] a Cons.prems by auto
qed simp

subsection \<open>Shuffles and samples\<close>

definition permutes_draw :: "('g \<Rightarrow> nat \<Rightarrow> nat list \<times> 'g) \<Rightarrow> bool" where
  "permutes_draw draw \<longleftrightarrow> (\<forall>g n. mset (fst (draw g n)) = mset [0..<n])"

lemma mset_shuffled: "permutes_draw draw \<Longrightarrow> mset (fst (shuffled draw g xs)) = mset xs"
proof -
  assume "permutes_draw draw"
  then have "mset (fst (draw g (length xs))) = mset [0..<length xs]" by (simp add: permutes_draw_def)
  then have "mset (map ((!) xs) (fst (draw g (length xs)))) = mset (map ((!) xs) [0..<length xs])" by (metis mset_map)
  then show ?thesis by (cases "draw g (length xs)") (simp add: shuffled_def map_nth)
qed

lemma set_shuffled: "permutes_draw draw \<Longrightarrow> set (fst (shuffled draw g xs)) = set xs"
  using mset_eq_setD [OF mset_shuffled] .

lemma length_shuffled: "permutes_draw draw \<Longrightarrow> length (fst (shuffled draw g xs)) = length xs"
  using mset_eq_length [OF mset_shuffled] .

lemma distinct_map_shuffled: "permutes_draw draw \<Longrightarrow> distinct (map f (fst (shuffled draw g xs))) = distinct (map f xs)"
  by (metis mset_eq_imp_distinct_iff mset_map mset_shuffled)

definition sample_size :: "nat option \<Rightarrow> nat \<Rightarrow> nat" where
  "sample_size cap raw = (case cap of Some n \<Rightarrow> if n \<noteq> 0 then min n raw else raw | None \<Rightarrow> raw)"

lemma sample_of:
  assumes "sample draw g cap rows = (rs, g')" "permutes_draw draw"
  shows "set rs \<subseteq> set rows \<and> length rs = sample_size cap (length rows)"
  using assms set_shuffled [OF assms(2), of g rows] length_shuffled [OF assms(2), of g rows]
  by (auto simp: sample_def sample_size_def split: option.splits if_splits prod.splits dest: in_set_takeD)

subsection \<open>The provenance\<close>

fun kept_of :: "provenance \<Rightarrow> nat" where
  "kept_of (Taken name raw sampled kept dups cap) = kept"
| "kept_of (Skipped name reason) = 0"

fun dups_of :: "provenance \<Rightarrow> nat" where
  "dups_of (Taken name raw sampled kept dups cap) = dups"
| "dups_of (Skipped name reason) = 0"

fun entry_ok :: "provenance \<Rightarrow> bool" where
  "entry_ok (Taken name raw sampled kept dups cap) \<longleftrightarrow> sampled = sample_size cap raw \<and> kept + dups \<le> sampled"
| "entry_ok (Skipped name reason) = True"

fun source_of :: "provenance \<Rightarrow> string" where
  "source_of (Taken name raw sampled kept dups cap) = name"
| "source_of (Skipped name reason) = name"

definition build_inv :: "suite_env \<Rightarrow> (cps \<Rightarrow> string) \<Rightarrow> 'g build_state \<Rightarrow> bool" where
  "build_inv un sha1 st \<longleftrightarrow> row_pool_inv un sha1 (bs_pool st)
     \<and> length (po_records (bs_pool st)) = sum_list (map kept_of (bs_provenance st))
     \<and> bs_duplicates st = sum_list (map dups_of (bs_provenance st)) \<and> list_all entry_ok (bs_provenance st)"

lemma build_source_inv:
  assumes "build_source un sha1 draw load spec st = Inr st'" "build_inv un sha1 st" "spec \<in> set (suite_sources un)" "permutes_draw draw"
  shows "build_inv un sha1 st' \<and> map source_of (bs_provenance st') = map source_of (bs_provenance st) @ [ss_name spec]"
proof (cases "ss_fn spec load")
  case (Inl e)
  then show ?thesis using assms(1,2) by (cases e) (auto simp: build_source_def build_inv_def)
next
  case (Inr rows)
  obtain rs g where s: "sample draw (bs_rng st) (ss_cap spec) rows = (rs, g)" by fastforce
  let ?p = "(bs_pool st)\<lparr>po_kept := 0, po_dups := 0\<rparr>"
  obtain p' where p': "add_candidates un sha1 (ss_name spec) rs ?p = Inr p'"
    "st' = st\<lparr>bs_rng := g, bs_pool := p', bs_duplicates := bs_duplicates st + po_dups p',
       bs_provenance := bs_provenance st @ [Taken (ss_name spec) (length rows) (length rs) (po_kept p') (po_dups p') (ss_cap spec)]\<rparr>"
    using assms(1) Inr s by (auto simp: build_source_def bind_res_Inr_iff)
  have rs: "list_all candidate_fits rs" "length rs = sample_size (ss_cap spec) (length rows)"
    using sample_of [OF s assms(4)] sources_fit [OF assms(3) Inr] by (auto simp: list_all_iff)
  have "row_pool_inv un sha1 ?p" using assms(2) by (auto simp: build_inv_def row_pool_inv_def)
  from add_candidates_inv [OF p'(1) this rs(1)] assms(3)
  have "row_pool_inv un sha1 p'" "length (po_records p') = length (po_records (bs_pool st)) + po_kept p'" "po_kept p' + po_dups p' \<le> length rs"
    by auto
  then show ?thesis using assms(2) rs(2) p'(2) by (simp add: build_inv_def)
qed

lemma build_sources_inv:
  assumes "build_sources un sha1 draw load specs st = Inr st'" "build_inv un sha1 st" "set specs \<subseteq> set (suite_sources un)" "permutes_draw draw"
  shows "build_inv un sha1 st' \<and> map source_of (bs_provenance st') = map source_of (bs_provenance st) @ map ss_name specs"
  using assms
proof (induction specs arbitrary: st)
  case (Cons s specs)
  then obtain st1 where st1: "build_source un sha1 draw load s st = Inr st1" "build_sources un sha1 draw load specs st1 = Inr st'"
    by (auto simp: bind_res_Inr_iff)
  have a: "build_inv un sha1 st1 \<and> map source_of (bs_provenance st1) = map source_of (bs_provenance st) @ [ss_name s]"
    using build_source_inv [OF st1(1)] Cons.prems by simp
  show ?case using Cons.IH [OF st1(2)] a Cons.prems by simp
qed simp

lemma py_take_is_take: "\<exists>k. py_take n xs = take k xs"
  by (auto simp: py_take_def)

lemma set_py_take: "set (py_take n xs) \<subseteq> set xs"
  by (auto simp: py_take_def dest: in_set_takeD)

lemma cap_benign_of:
  assumes "cap_benign draw g cap records = (rs, g')" "permutes_draw draw" "distinct (map f records)"
  shows "set rs \<subseteq> set records \<and> distinct (map f rs) \<and> {r \<in> set rs. sr_label r = 1} = {r \<in> set records. sr_label r = 1}
    \<and> (cap \<in> {None, Some 0} \<longrightarrow> rs = records)
    \<and> (\<forall>n. cap = Some n \<and> 0 < n \<longrightarrow> length (filter (\<lambda>r. sr_label r = 0) rs) \<le> nat n)"
proof (cases "cap \<in> {None, Some 0}")
  case True
  then show ?thesis using assms by (auto simp: cap_benign_def)
next
  case False
  then obtain n where n: "cap = Some n" "n \<noteq> 0" by auto
  let ?b = "filter (\<lambda>r. sr_label r = 0) records" and ?a = "filter (\<lambda>r. sr_label r = 1) records"
  define bs where "bs = (if int (length ?b) > n then py_take n (fst (shuffled draw g ?b)) else ?b)"
  have rs: "rs = ?a @ bs" using assms(1) n by (auto simp: cap_benign_def bs_def Let_def split: if_splits prod.splits)
  have sub: "set bs \<subseteq> set ?b"
    unfolding bs_def using set_py_take [of n "fst (shuffled draw g ?b)"] unfolding set_shuffled [OF assms(2)] by (simp del: set_filter)
  have "distinct (map f (fst (shuffled draw g ?b)))"
    using assms(3) by (simp add: distinct_map_shuffled [OF assms(2)] distinct_map_filter)
  then have "distinct (map f (py_take n (fst (shuffled draw g ?b))))" by (metis distinct_take py_take_is_take take_map)
  then have db: "distinct (map f bs)" using assms(3) by (simp add: bs_def distinct_map_filter)
  have inj: "inj_on f (set records)" using assms(3) by (simp add: distinct_map)
  have "f r \<noteq> f r'" if "r \<in> set ?a" "r' \<in> set bs" for r r'
  proof -
    have "r \<in> set records" "r' \<in> set records" "r \<noteq> r'" using that sub by auto
    then show ?thesis using inj_on_eq_iff [OF inj] by blast
  qed
  then have "f ` set ?a \<inter> f ` set bs = {}" by (auto simp del: set_filter)
  then have "distinct (map f rs)" using db assms(3) by (simp add: rs distinct_map_filter)
  moreover have "length bs \<le> nat n" if "0 < n" using that by (auto simp: bs_def py_take_def)
  then have "length (filter (\<lambda>r. sr_label r = 0) bs) \<le> nat n" if "0 < n" using that length_filter_le order_trans by blast
  ultimately show ?thesis using False n sub by (auto simp: rs)
qed

text \<open>The tallies of the manifest.\<close>

lemma sum_count_in: "od_wf out \<Longrightarrow> sum_list (map snd (count_in out k)) = sum_list (map snd out) + 1 \<and> od_wf (count_in out k)"
proof (induction out)
  case Nil
  then show ?case by (simp add: count_in_def od_set_def od_wf_def)
next
  case (Cons p out)
  have wf: "od_wf out" "od_get out (fst p) = None"
    using Cons.prems by (auto simp: od_wf_def od_get_def map_of_eq_None_iff)
  have "od_wf (count_in (p # out) k)" using Cons.prems by (simp add: count_in_def)
  then show ?case using Cons.IH [OF wf(1)] wf(2) by (cases p) (auto simp: count_in_def od_set_def)
qed

lemma sum_tally: "sum_list (map snd (tally key records)) = length records"
proof -
  have "od_wf out \<Longrightarrow> sum_list (map snd (foldl (\<lambda>out r. count_in out (key r)) out records)) = sum_list (map snd out) + length records" for out
    using sum_count_in by (induction records arbitrary: out) fastforce+
  from this [of "[]"] have s: "sum_list (map snd (foldl (\<lambda>out r. count_in out (key r)) [] records)) = length records" by simp
  have "mset (map snd (tally key records)) = mset (map snd (foldl (\<lambda>out r. count_in out (key r)) [] records))" by (simp add: tally_def)
  then show ?thesis using s by (metis sum_mset_sum_list)
qed

section \<open>Properties\<close>

text \<open>
  The suite has no prompt twice and its bookkeeping adds up.  Whatever the sources deliver, no two
  records have the same deduplication key; every record is named by the digest of its key, carries
  the language of its text, is benign exactly when its label is 0, and comes from a listed source.  The
  provenance has an entry per source in order, whose kept and duplicate rows do not exceed the rows
  sampled; without a benign cap the kept rows are the records, with one at most that many benign rows
  remain; each table of the manifest sums to the total.
\<close>

theorem suite_is_deduplicated:
  assumes "permutes_draw draw" "build un sha1 draw load seed cap = Inr (records, prov, dups)"
  shows "distinct (map (dedup_key un) records) \<and> (\<forall>r \<in> set records. record_ok un sha1 r)
    \<and> map source_of prov = map ss_name (suite_sources un) \<and> (\<forall>p \<in> set prov. entry_ok p)
    \<and> dups = sum_list (map dups_of prov) \<and> length records \<le> sum_list (map kept_of prov)
    \<and> (cap \<in> {None, Some 0} \<longrightarrow> length records = sum_list (map kept_of prov))
    \<and> (\<forall>n. cap = Some n \<and> 0 < n \<longrightarrow> length (filter (\<lambda>r. sr_label r = 0) records) \<le> nat n)
    \<and> (\<forall>t \<in> {mf_by_class, mf_by_language, mf_by_source}.
        sum_list (map snd (t (summarize records prov dups cap))) = mf_total (summarize records prov dups cap))"
proof -
  let ?init = "\<lparr>bs_rng = seed, bs_pool = \<lparr>po_records = [], po_seen = [], po_kept = 0, po_dups = 0\<rparr>, bs_duplicates = 0, bs_provenance = []\<rparr>"
  obtain st where st: "build_sources un sha1 draw load (suite_sources un) ?init = Inr st"
    and out: "records = fst (shuffled draw (snd (cap_benign draw (bs_rng st) cap (po_records (bs_pool st))))
        (fst (cap_benign draw (bs_rng st) cap (po_records (bs_pool st)))))" "prov = bs_provenance st" "dups = bs_duplicates st"
    using assms(2) by (auto simp: build_def bind_res_Inr_iff case_prod_unfold Let_def)
  obtain rs g where c: "cap_benign draw (bs_rng st) cap (po_records (bs_pool st)) = (rs, g)" by fastforce
  have "build_inv un sha1 ?init" by (simp add: build_inv_def row_pool_inv_def)
  from build_sources_inv [OF st this subset_refl assms(1)]
  have inv: "build_inv un sha1 st" "map source_of prov = map ss_name (suite_sources un)" by (simp_all add: out)
  let ?all = "po_records (bs_pool st)"
  have all: "distinct (map (dedup_key un) ?all)" "list_all (record_ok un sha1) ?all" "length ?all = sum_list (map kept_of prov)"
    using inv(1) by (auto simp: build_inv_def row_pool_inv_def od_wf_def out comp_def)
  note capped = cap_benign_of [OF c assms(1) all(1)]
  have recs: "mset records = mset rs" using out(1) c by (simp add: mset_shuffled [OF assms(1)])
  have d: "distinct (map (dedup_key un) records)"
    using out(1) c capped by (simp add: distinct_map_shuffled [OF assms(1)])
  have same: "set records = set rs" "length records = length rs" using recs by (auto dest: mset_eq_setD mset_eq_length)
  have "length rs \<le> length ?all"
    using capped all(1) by (metis card_mono distinct_card distinct_map finite_set)
  moreover have "length (filter (\<lambda>r. sr_label r = 0) records) = length (filter (\<lambda>r. sr_label r = 0) rs)"
    using recs by (metis mset_filter size_mset)
  moreover have "\<forall>r \<in> set records. record_ok un sha1 r" using same(1) capped all(2) by (auto simp: list_all_iff)
  moreover have "\<forall>t \<in> {mf_by_class, mf_by_language, mf_by_source}.
      sum_list (map snd (t (summarize records prov dups cap))) = mf_total (summarize records prov dups cap)"
    by (simp add: summarize_def sum_tally Let_def)
  ultimately show ?thesis
    using d same(2) capped all(3) inv by (auto simp: build_inv_def out(2,3) list_all_iff)
qed

section \<open>Witnesses\<close>

definition plain_env :: suite_env where
  "plain_env = \<lparr>un_nfkc = id, un_lower = id, un_space = (\<lambda>c. c = 32), un_word = letter, un_upper = id, un_nfkd = id,
     un_combining = (\<lambda>c. False), un_int = (\<lambda>t. Inl ''invalid'')\<rparr>"

definition one_source :: loader where
  "one_source name config split =
     (if name = ''lakera/gandalf_ignore_instructions''
      then Inr [[(''text'', CText (cps_of ''ignore the rules''))], [(''text'', CText (cps_of ''ignore  the rules!''))]]
      else Inl (''ConnectionError'', ''offline''))"

definition order_kept :: "unit \<Rightarrow> nat \<Rightarrow> nat list \<times> unit" where
  "order_kept g n = ([0..<n], g)"

text \<open>Nine sources are out of reach and the tenth sends a prompt twice.\<close>

theorem suite_is_deduplicated_witness:
  "\<exists>records prov dups. build plain_env (\<lambda>k. ''d'') order_kept one_source () None = Inr (records, prov, dups)
    \<and> length records = 1 \<and> dups = 1 \<and> sr_language (hd records) = ''en'' \<and> distinct (map (dedup_key plain_env) records)
    \<and> length records = sum_list (map kept_of prov)"
proof -
  have ev: "case build plain_env (\<lambda>k. ''d'') order_kept one_source () None of
      Inr (records, prov, dups) \<Rightarrow> length records = 1 \<and> dups = 1 \<and> sr_language (hd records) = ''en'' | Inl e \<Rightarrow> False"
    by code_simp
  then obtain records prov dups where b: "build plain_env (\<lambda>k. ''d'') order_kept one_source () None = Inr (records, prov, dups)"
    by (auto split: sum.splits)
  have "permutes_draw order_kept" by (simp add: permutes_draw_def order_kept_def)
  from suite_is_deduplicated [OF this b] ev b show ?thesis by auto
qed

end
