(* ===== verification/Spec2Isabelle.thy ===== *)
theory Spec2Isabelle
  imports Rate_Limit Token_Quota Circuit_Breaker Review_Queue Auth Tenancy Risk
    Gateway_Api Http_Tool Health_Api Mcp_Http Detectors Anchors Normalizer Evaluation Key_Admin Migration Startup Policy_Ops Training Monitor
    Redis_Client Cache_Persistence Suite_Builder Detector_Studies
begin

text \<open>
  A verification library for the AI gateway in \<open>src/\<close>: a service that assesses prompts and
  responses, forwards allowed prompts to language-model providers, gates tool calls, and keeps an
  audit trail; with the operator scripts that provision keys, deploy and simulate policies, migrate
  the log, train the fusion policy, choose the thresholds and watch for drift.

  \<^bold>\<open>How the parts interact.\<close>  A request passes the boundary of \<open>api/main.py\<close> (correlation id,
  authentication, tenant, rate limit), then an endpoint.  The assessing endpoints run the risk
  pipeline of \<open>core/risk.py\<close> on the redacted prompt, ask the policy of \<open>core/policy.py\<close> for the
  decision, check the response with the output guardrails, and write the record before they answer.
  The gateway endpoint adds the token quota, the review queue and the providers; the tool endpoints
  and both MCP transports share the tool gate of \<open>core/tools.py\<close>.  The administrative endpoints
  edit policies, resolve reviews and read the log.

  \<^bold>\<open>Theories and the code they model.\<close>
  \<^item> Prelude, Json, Entry_Store: ordered dictionaries, results, ASCII strings; Python values, parsing
    of numbers, printing; the interface of stores that load entries from a file.
  \<^item> Rate_Limit, Token_Quota, Circuit_Breaker: \<open>core/rate_limit.py\<close>, \<open>core/token_quota.py\<close>,
    \<open>core/circuit_breaker.py\<close>, each with its process-local form, its Lua scripts and the fallback
    between them.  The limiter and the quota each have a locale for the contract of a backend,
    interpreted on both; that of the limiter carries the errors of what a backend stores, zero for
    the local one.  Redis_Client: \<open>core/redis_client.py\<close>.
  \<^item> Auth, Tenancy, Key_Admin: \<open>core/auth.py\<close>, \<open>core/tenancy.py\<close>, \<open>scripts/manage_api_keys.py\<close>.
  \<^item> Cache_Backend, Cache, Cache_Persistence, Fusion, Judge, Risk, Assess_Result: the pipeline of \<open>core/risk.py\<close> with
    \<open>core/cache_backend.py\<close>, \<open>core/cache.py\<close>, \<open>core/fusion.py\<close>, \<open>core/semantic_judge.py\<close> and
    \<open>core/assess_result.py\<close>; Normalizer, Anchors and Detectors hold what feeds it
    (\<open>core/normalizer.py\<close>, the policy files, vector stores and centroids, \<open>core/detectors.py\<close>).
  \<^item> Regex, Output_Guardrails: the regular expressions of the source on a model of \<open>re\<close>, and
    \<open>core/privacy.py\<close>, \<open>core/secrets_detection.py\<close>, \<open>core/output_guardrails.py\<close>.
  \<^item> Policy, Policy_Versioning, Policy_Ops: \<open>core/policy.py\<close>, \<open>core/policy_versioning.py\<close>, and the tools
    \<open>scripts/simulate_policy.py\<close>, \<open>scripts/manage_policy_versions.py\<close>, \<open>scripts/validate_policy.py\<close>.
  \<^item> Audit_Store, Audit_Trail, Activity, Migration: \<open>core/audit_store.py\<close>, \<open>core/logger.py\<close>,
    \<open>core/activity.py\<close>, \<open>scripts/migrate_audit_to_sqlite.py\<close>.
  \<^item> Review_Queue, Tools, Http_Tool, Providers: \<open>core/review_queue.py\<close>; \<open>core/tools.py\<close>,
    \<open>core/demo_tools.py\<close> and the MCP translation of \<open>core/mcp_compat.py\<close>; \<open>core/real_tools.py\<close>;
    \<open>core/llm_providers.py\<close>.
  \<^item> Settings, Request_Gate, Assess_Api, Gateway_Api, Tools_Api, Read_Api, Control_Api, Health_Api:
    \<open>core/config.py\<close> and the endpoints of \<open>api/main.py\<close> with the bodies of \<open>api/schemas.py\<close>.
  \<^item> Mcp_Stdio, Mcp_Http: \<open>core/mcp_server.py\<close>, \<open>core/mcp_http_server.py\<close>.
  \<^item> Startup: the pools, CORS and start of \<open>api/main.py\<close>, the pools as a step relation.
  \<^item> Evaluation, Calibration, Training, Monitor: \<open>evaluation/metrics.py\<close>,
    \<open>scripts/calibrate_thresholds.py\<close>, \<open>scripts/train_fusion_policy.py\<close>,
    \<open>scripts/monitor_operating_point.py\<close>.
  \<^item> Suite_Builder, Detector_Studies: \<open>scripts/build_eval_suite.py\<close>; \<open>scripts/compare_detectors.py\<close>,
    \<open>scripts/ensemble_analysis.py\<close>, \<open>scripts/analyze_per_class_thresholds.py\<close>.

  State is a record per component and every operation returns the new one; errors are the left of
  a sum; loops that may not end (\<open>join_loop\<close>, \<open>discard_line\<close>, \<open>stdio_loop\<close>,
  \<open>frange_from\<close>) are partial functions
  whose result on the inputs of the program is proved to exist.  The only fuel is that of
  \<open>findall_from\<close>, the number of positions left in the string, so it cannot run out early.

  \<^bold>\<open>What the groups of lemmas show.\<close>  What reaches a model, a provider or a tool was allowed: a LOW
  verdict is earned, the symbolic veto is final, a provider is called only for allowed prompts, a
  tool runs only through its gate, content handed back was vetted.  What is promised to the caller
  holds: burst bounds on both limiters (on Redis up to the fourteen digits its script stores), quota
  sums that both trackers answer from, a shared breaker that is one breaker while its keys live, exact
  feeds, relayed responses in order.  What the operator relies on holds: a validated policy is enforced as
  written, a rollback restores, keys resolve as the registry says, a migration may be repeated,
  a simulation predicts the deployment, thresholds are the best of the grid and the calibrated rule
  is the one that runs, the trained artifact is the policy that was fitted, the AUC is the
  Mann-Whitney statistic, an evaluation suite holds no row twice and accounts for its sources, a
  comparison of detectors uses no row a detector was trained on.  The pools answer every caller.  A restart serves no verdict
  that was not held before it.  Where the code does otherwise, the theorem states what it does: a
  record that is mirrored is imported twice, tied scores break a false-positive budget, an outage
  at the first load disables meta-intent detection, a policy of the other format locks everybody out,
  a red slice is masked by an amber one, two studied arms run at different false-positive rates, the Redis limiter rejects a caller the local one admits, a verdict replaced while a writer is at work returns after a
  restart.

  \<^bold>\<open>Conventions.\<close>  Floating-point numbers are reals (infinities and NaN are constructors where the
  code can meet them), so the rounding of arithmetic is not modelled; the decimals that the limiter's script
  stores (Lua's \<open>tostring\<close>) are.  Strings are lists of 8-bit characters, except in
  Normalizer, where a text is a list of code points.  Clocks, random identifiers, hashes, JSON, YAML and
  HTTP libraries, models, embeddings and indexes are parameters, constrained only by hypotheses of
  the theorems that need them.  A critical section under a lock is one step; where requests
  interleave, the steps are those between locks.  An HTTP failure is its status and headers.
  Log lines have no part in the state, except the records of the audit trail and the lines of the
  Redis client; the calls that count an assessment are events of Assess_Result.

  \<^bold>\<open>Not modelled.\<close>  The Prometheus registry and exposition format, the schema statements of SQLite, the static user interface, and scripts that drive
  external services, print reports, or train models on downloaded data
  (\<open>scripts/live_pentest.py\<close>, \<open>scripts/evaluate_suite.py\<close> and
  others, \<open>data/generate_dataset.py\<close>, \<open>benchmarks/\<close>): their work is input and output around
  library calls.
\<close>

end
